(* ===== verification/Prelude.thy ===== *)
theory Prelude
  imports Main "HOL-Library.Word" "HOL-Library.Char_ord" "HOL-Library.List_Lexorder"
    "HOL-Library.Multiset"
begin

text \<open>
  Shared vocabulary of the development.

  Bytes are \<^typ>\<open>8 word\<close>, Rust strings are their UTF-8 bytes as a \<^typ>\<open>string\<close> (a
  character is one byte), and a \<open>Result\<close> is a sum whose left side is the error. A database
  table is the list of its rows in insertion order; the operations below are the SQL shapes the
  catalog uses (update-where, delete-where, select-one, exists) with the facts every component
  proof needs about them.
\<close>

type_synonym byte = "8 word"
type_synonym bytes = "byte list"
type_synonym ('e, 'a) result = "'e + 'a"

text \<open>\<open>str::as_bytes\<close>\<close>

definition str_bytes :: "string \<Rightarrow> bytes" where
  "str_bytes s = map of_char s"

lemma length_str_bytes [simp]: "length (str_bytes s) = length s"
  by (simp add: str_bytes_def)

named_theorems table_simps "facts about table operations"
named_theorems bytes_simps "facts about byte readers and writers"

section \<open>Results\<close>

fun and_then :: "('e, 'a) result \<Rightarrow> ('a \<Rightarrow> ('e, 'b) result) \<Rightarrow> ('e, 'b) result" where
  "and_then (Inl e) f = Inl e"
| "and_then (Inr x) f = f x"

lemma and_then_Inr_iff: "and_then r f = Inr y \<longleftrightarrow> (\<exists>x. r = Inr x \<and> f x = Inr y)"
  by (cases r) auto

lemma and_then_Inl_iff: "and_then r f = Inl e \<longleftrightarrow> r = Inl e \<or> (\<exists>x. r = Inr x \<and> f x = Inl e)"
  by (cases r) auto

lemma and_then_cong [fundef_cong]:
  "r = r' \<Longrightarrow> (\<And>x. r' = Inr x \<Longrightarrow> f x = g x) \<Longrightarrow> and_then r f = and_then r' g"
  by (cases r') auto

fun ok_or :: "'e \<Rightarrow> 'a option \<Rightarrow> ('e, 'a) result" where
  "ok_or e None = Inl e"
| "ok_or e (Some x) = Inr x"

lemma ok_or_Inr_iff [simp]: "ok_or e m = Inr x \<longleftrightarrow> m = Some x"
  by (cases m) auto

lemma ok_or_Inl_iff [simp]: "ok_or e m = Inl e' \<longleftrightarrow> m = None \<and> e' = e"
  by (cases m) auto

lemma not_islE:
  assumes "\<not> isl r"
  obtains x where "r = Inr x"
  using assms by (cases r) auto

lemma find_SomeD: "find P xs = Some x \<Longrightarrow> x \<in> set xs \<and> P x"
  by (auto simp: find_Some_iff)

section \<open>Tables\<close>

definition upd_where :: "('r \<Rightarrow> bool) \<Rightarrow> ('r \<Rightarrow> 'r) \<Rightarrow> 'r list \<Rightarrow> 'r list" where
  "upd_where P f t = map (\<lambda>r. if P r then f r else r) t"

definition del_where :: "('r \<Rightarrow> bool) \<Rightarrow> 'r list \<Rightarrow> 'r list" where
  "del_where P t = filter (\<lambda>r. \<not> P r) t"

definition exists_where :: "('r \<Rightarrow> bool) \<Rightarrow> 'r list \<Rightarrow> bool" where
  "exists_where P t = list_ex P t"

definition select_one :: "('r \<Rightarrow> bool) \<Rightarrow> 'r list \<Rightarrow> 'r option" where
  "select_one P t = List.find P t"

definition count_where :: "('r \<Rightarrow> bool) \<Rightarrow> 'r list \<Rightarrow> nat" where
  "count_where P t = length (filter P t)"

lemma upd_where_Nil [simp, table_simps]: "upd_where P f [] = []"
  by (simp add: upd_where_def)

lemma upd_where_Cons [table_simps]:
  "upd_where P f (r # t) = (if P r then f r else r) # upd_where P f t"
  by (simp add: upd_where_def)

lemma upd_where_append [table_simps]: "upd_where P f (s @ t) = upd_where P f s @ upd_where P f t"
  by (simp add: upd_where_def)

lemma length_upd_where [simp, table_simps]: "length (upd_where P f t) = length t"
  by (simp add: upd_where_def)

lemma in_upd_where [table_simps]:
  "x \<in> set (upd_where P f t) \<longleftrightarrow> (\<exists>r\<in>set t. x = (if P r then f r else r))"
  by (auto simp: upd_where_def)

lemma in_upd_whereE:
  assumes "x \<in> set (upd_where P f t)"
  obtains r where "r \<in> set t" "P r" "x = f r" | "x \<in> set t" "\<not> P x"
  using assms by (auto simp: upd_where_def split: if_splits)

lemma bex_upd_where:
  "(\<And>r. r \<in> set t \<Longrightarrow> P r \<Longrightarrow> Q (f r) = Q r) \<Longrightarrow>
   (\<exists>x\<in>set (upd_where P f t). Q x) = (\<exists>x\<in>set t. Q x)"
  by (induction t) (auto simp: upd_where_Cons)

lemma upd_where_none: "(\<And>r. r \<in> set t \<Longrightarrow> \<not> P r) \<Longrightarrow> upd_where P f t = t"
  unfolding upd_where_def by (induction t) auto

lemma map_upd_where_key [table_simps]:
  "(\<And>r. k (f r) = k r) \<Longrightarrow> map k (upd_where P f t) = map k t"
  unfolding upd_where_def by (induction t) auto

lemma del_where_Nil [simp, table_simps]: "del_where P [] = []"
  by (simp add: del_where_def)

lemma in_del_where [simp, table_simps]: "x \<in> set (del_where P t) \<longleftrightarrow> x \<in> set t \<and> \<not> P x"
  by (auto simp: del_where_def)

lemma del_where_none: "(\<And>r. r \<in> set t \<Longrightarrow> \<not> P r) \<Longrightarrow> del_where P t = t"
  unfolding del_where_def by (induction t) auto

lemma distinct_map_del_where: "distinct (map k t) \<Longrightarrow> distinct (map k (del_where P t))"
  unfolding del_where_def by (simp add: distinct_map_filter)

lemma exists_where_iff [simp, table_simps]: "exists_where P t \<longleftrightarrow> (\<exists>r\<in>set t. P r)"
  by (simp add: exists_where_def list_ex_iff)

lemma select_one_Some:
  "select_one P t = Some r \<Longrightarrow> r \<in> set t \<and> P r"
  unfolding select_one_def by (auto simp: find_Some_iff)

lemma select_one_None [table_simps]: "select_one P t = None \<longleftrightarrow> (\<forall>r\<in>set t. \<not> P r)"
  unfolding select_one_def by (auto simp: find_None_iff)

lemma distinct_map_eqD:
  "distinct (map k t) \<Longrightarrow> r \<in> set t \<Longrightarrow> s \<in> set t \<Longrightarrow> k r = k s \<Longrightarrow> r = s"
  by (simp add: distinct_map inj_on_def)

lemma select_one_unique:
  assumes "distinct (map k t)" "r \<in> set t" "P r" "\<And>s. P s \<Longrightarrow> k s = k r"
  shows "select_one P t = Some r"
proof -
  obtain s where s: "select_one P t = Some s"
    using assms(2,3) by (cases "select_one P t") (auto simp: select_one_None)
  have "s \<in> set t" "k s = k r" using select_one_Some[OF s] assms(4) by blast+
  then have "s = r" using distinct_map_eqD[OF assms(1)] assms(2) by blast
  with s show ?thesis by simp
qed

lemma select_one_Cons [table_simps]:
  "select_one P (r # t) = (if P r then Some r else select_one P t)"
  by (simp add: select_one_def)

lemma select_one_Nil [simp, table_simps]: "select_one P [] = None"
  by (simp add: select_one_def)

lemma select_one_upd_where:
  "(\<And>r. P (f r) = P r) \<Longrightarrow> select_one P (upd_where Q f t) = map_option (\<lambda>r. if Q r then f r else r) (select_one P t)"
  by (induction t) (auto simp: table_simps)

lemma select_one_append:
  "select_one P (s @ t) = (case select_one P s of Some r \<Rightarrow> Some r | None \<Rightarrow> select_one P t)"
  by (induction s) (auto simp: table_simps)

lemma count_where_Cons [table_simps]:
  "count_where P (r # t) = (if P r then Suc (count_where P t) else count_where P t)"
  by (simp add: count_where_def)

lemma count_where_Nil [simp, table_simps]: "count_where P [] = 0"
  by (simp add: count_where_def)

lemma count_where_append [table_simps]:
  "count_where P (s @ t) = count_where P s + count_where P t"
  by (simp add: count_where_def)

lemma count_where_0 [table_simps]: "count_where P t = 0 \<longleftrightarrow> (\<forall>r\<in>set t. \<not> P r)"
  by (auto simp: count_where_def filter_empty_conv)

section \<open>Comparisons and sorting\<close>

datatype ordering = Less | Equal | Greater

definition text_cmp :: "string \<Rightarrow> string \<Rightarrow> ordering" where
  "text_cmp a b = (if a < b then Less else if a = b then Equal else Greater)"

fun then_with :: "ordering \<Rightarrow> ordering \<Rightarrow> ordering" where
  "then_with Equal o' = o'"
| "then_with o1 _ = o1"

text \<open>\<open>slice::sort_by\<close>: a stable sort by a comparison function.\<close>

fun insert_by :: "('a \<Rightarrow> 'a \<Rightarrow> ordering) \<Rightarrow> 'a \<Rightarrow> 'a list \<Rightarrow> 'a list" where
  "insert_by cmp x [] = [x]"
| "insert_by cmp x (y # ys) = (if cmp x y = Greater then y # insert_by cmp x ys else x # y # ys)"

definition sort_by :: "('a \<Rightarrow> 'a \<Rightarrow> ordering) \<Rightarrow> 'a list \<Rightarrow> 'a list" where
  "sort_by cmp xs = foldr (insert_by cmp) xs []"

lemma mset_insert_by: "mset (insert_by cmp x xs) = add_mset x (mset xs)"
  by (induction xs) auto

lemma mset_sort_by [simp]: "mset (sort_by cmp xs) = mset xs"
  unfolding sort_by_def by (induction xs) (auto simp: mset_insert_by)

lemma set_sort_by [simp]: "set (sort_by cmp xs) = set xs"
  by (metis mset_sort_by set_mset_mset)

lemma length_sort_by [simp]: "length (sort_by cmp xs) = length xs"
  by (metis mset_sort_by size_mset)

definition total_cmp :: "('a \<Rightarrow> 'a \<Rightarrow> ordering) \<Rightarrow> 'a set \<Rightarrow> bool" where
  "total_cmp cmp A \<longleftrightarrow>
     (\<forall>x\<in>A. \<forall>y\<in>A. cmp x y = Greater \<longrightarrow> cmp y x \<noteq> Greater) \<and>
     (\<forall>x\<in>A. \<forall>y\<in>A. \<forall>z\<in>A. cmp x y \<noteq> Greater \<longrightarrow> cmp y z \<noteq> Greater \<longrightarrow> cmp x z \<noteq> Greater)"

lemma total_cmp_mono: "total_cmp cmp A \<Longrightarrow> B \<subseteq> A \<Longrightarrow> total_cmp cmp B"
  unfolding total_cmp_def by (meson subsetD)

lemma total_cmp_sym:
  "total_cmp cmp A \<Longrightarrow> x \<in> A \<Longrightarrow> y \<in> A \<Longrightarrow> cmp x y = Greater \<Longrightarrow> cmp y x \<noteq> Greater"
  unfolding total_cmp_def by blast

lemma total_cmp_trans:
  "total_cmp cmp A \<Longrightarrow> x \<in> A \<Longrightarrow> y \<in> A \<Longrightarrow> z \<in> A \<Longrightarrow> cmp x y \<noteq> Greater \<Longrightarrow>
   cmp y z \<noteq> Greater \<Longrightarrow> cmp x z \<noteq> Greater"
  unfolding total_cmp_def by meson

lemma set_insert_by: "set (insert_by cmp x xs) = insert x (set xs)"
  by (induction xs) auto

lemma sorted_insert_by:
  assumes "total_cmp cmp (insert x (set xs))" "sorted_wrt (\<lambda>a b. cmp a b \<noteq> Greater) xs"
  shows "sorted_wrt (\<lambda>a b. cmp a b \<noteq> Greater) (insert_by cmp x xs)"
  using assms
proof (induction xs)
  case (Cons y ys)
  have "total_cmp cmp (insert x (set ys))"
    by (rule total_cmp_mono[OF Cons.prems(1)]) auto
  with Cons.IH Cons.prems(2) have IH: "sorted_wrt (\<lambda>a b. cmp a b \<noteq> Greater) (insert_by cmp x ys)"
    by simp
  show ?case
  proof (cases "cmp x y = Greater")
    case True
    then have "cmp y x \<noteq> Greater" using total_cmp_sym[OF Cons.prems(1), of x y] by simp
    with True IH Cons.prems(2) show ?thesis by (simp add: set_insert_by)
  next
    case False
    then have "cmp x z \<noteq> Greater" if "z \<in> set ys" for z
      using that total_cmp_trans[OF Cons.prems(1), of x y z] Cons.prems(2) by simp
    with False Cons.prems(2) show ?thesis by simp
  qed
qed simp

lemma sorted_sort_by:
  "total_cmp cmp (set xs) \<Longrightarrow> sorted_wrt (\<lambda>a b. cmp a b \<noteq> Greater) (sort_by cmp xs)"
proof (induction xs)
  case (Cons x xs)
  have "total_cmp cmp (set xs)" by (rule total_cmp_mono[OF Cons.prems]) auto
  then have "sorted_wrt (\<lambda>a b. cmp a b \<noteq> Greater) (insert_by cmp x (sort_by cmp xs))"
    using Cons by (intro sorted_insert_by) simp_all
  then show ?case by (simp add: sort_by_def)
qed (simp add: sort_by_def)

lemma filter_upd_other: "(\<And>x. P x \<Longrightarrow> \<not> Q x) \<Longrightarrow> (\<And>x. P x \<Longrightarrow> \<not> Q (f x)) \<Longrightarrow> filter Q (upd_where P f t) = filter Q t"
  by (induction t) (auto simp: table_simps)

lemma filter_map_other: "(\<And>x. x \<in> set t \<Longrightarrow> f x \<noteq> x \<Longrightarrow> \<not> Q x \<and> \<not> Q (f x)) \<Longrightarrow> filter Q (map f t) = filter Q t"
proof (induction t)
  case (Cons x t)
  then show ?case by (cases "f x = x") auto
qed simp

end
