(* ===== verification/Text.thy ===== *)
theory Text
  imports Prelude
begin

text \<open>
  The string functions of the Rust standard library and of SQL that the program relies on:
  trimming, splitting, ASCII case, decimal integers (\<open>str::trim\<close>, \<open>split_once\<close>,
  \<open>to_ascii_lowercase\<close>, \<open>parse::<i64>\<close>, \<open>LIKE\<close>, \<open>split_part\<close>, the \<open>::int\<close> cast), over
  UTF-8 bytes. These are functions of the language, not of the repository.
\<close>

section \<open>Prefixes, suffixes, splitting\<close>

definition starts_with :: "string \<Rightarrow> string \<Rightarrow> bool" where
  "starts_with p s \<longleftrightarrow> take (length p) s = p"

definition ends_with :: "string \<Rightarrow> string \<Rightarrow> bool" where
  "ends_with p s \<longleftrightarrow> starts_with (rev p) (rev s)"

definition strip_prefix :: "string \<Rightarrow> string \<Rightarrow> string option" where
  "strip_prefix p s = (if starts_with p s then Some (drop (length p) s) else None)"

definition strip_suffix :: "string \<Rightarrow> string \<Rightarrow> string option" where
  "strip_suffix p s = (if ends_with p s then Some (take (length s - length p) s) else None)"

lemma starts_with_iff: "starts_with p s \<longleftrightarrow> (\<exists>r. s = p @ r)"
  unfolding starts_with_def by (metis append_eq_conv_conj append_take_drop_id)

lemma strip_prefix_Some: "strip_prefix p s = Some r \<longleftrightarrow> s = p @ r"
  by (auto simp: strip_prefix_def starts_with_iff)

lemma strip_prefix_app [simp]: "strip_prefix p (p @ r) = Some r"
  by (simp add: strip_prefix_Some)

lemma ends_with_iff: "ends_with p s \<longleftrightarrow> (\<exists>r. s = r @ p)"
proof
  assume "ends_with p s"
  then obtain q where "rev s = rev p @ q" by (auto simp: ends_with_def starts_with_iff)
  then have "s = rev q @ p" by (metis rev_append rev_rev_ident)
  then show "\<exists>r. s = r @ p" ..
qed (auto simp: ends_with_def starts_with_iff)

lemma strip_suffix_Some: "strip_suffix p s = Some r \<longleftrightarrow> s = r @ p"
  by (auto simp: strip_suffix_def ends_with_iff)

fun split_once :: "char \<Rightarrow> string \<Rightarrow> (string \<times> string) option" where
  "split_once d [] = None"
| "split_once d (c # s) = (if c = d then Some ([], s)
     else map_option (\<lambda>(a, b). (c # a, b)) (split_once d s))"

definition rsplit_once :: "char \<Rightarrow> string \<Rightarrow> (string \<times> string) option" where
  "rsplit_once d s = map_option (\<lambda>(a, b). (rev b, rev a)) (split_once d (rev s))"

fun split_on :: "char \<Rightarrow> string \<Rightarrow> string list" where
  "split_on d [] = [[]]"
| "split_on d (c # s) =
     (if c = d then [] # split_on d s
      else (case split_on d s of [] \<Rightarrow> [[c]] | w # ws \<Rightarrow> (c # w) # ws))"

lemma split_once_Some: "split_once d s = Some (a, b) \<longleftrightarrow> s = a @ d # b \<and> d \<notin> set a"
proof (induction s arbitrary: a)
  case (Cons c s)
  show ?case by (cases a) (auto simp: Cons.IH)
qed simp

lemma split_once_None: "split_once d s = None \<longleftrightarrow> d \<notin> set s"
  by (induction s) auto

lemma rsplit_once_Some: "rsplit_once d s = Some (a, b) \<longleftrightarrow> s = a @ d # b \<and> d \<notin> set b"
proof -
  have "rsplit_once d s = Some (a, b) \<longleftrightarrow> split_once d (rev s) = Some (rev b, rev a)"
    by (force simp: rsplit_once_def)
  also have "\<dots> \<longleftrightarrow> s = a @ d # b \<and> d \<notin> set b"
    by (simp add: split_once_Some rev_swap)
  finally show ?thesis .
qed

lemma rsplit_once_None: "rsplit_once d s = None \<longleftrightarrow> d \<notin> set s"
  by (simp add: rsplit_once_def split_once_None)

lemma split_on_not_Nil [simp]: "split_on d s \<noteq> []"
  by (induction s) (auto split: list.splits)

lemma split_on_no_sep: "d \<notin> set s \<Longrightarrow> split_on d s = [s]"
  by (induction s) auto

definition split_part1 :: "char \<Rightarrow> string \<Rightarrow> string" where
  "split_part1 d s = hd (split_on d s)"

section \<open>Trimming\<close>

function trim_list :: "string list \<Rightarrow> string \<Rightarrow> string" where
  "trim_list ws s =
     (case find (\<lambda>w. w \<noteq> [] \<and> starts_with w s) ws of
        None \<Rightarrow> s
      | Some w \<Rightarrow> trim_list ws (drop (length w) s))"
  by pat_completeness auto
termination
  by (relation "measure (\<lambda>(ws, s). length s)")
    (auto dest!: find_SomeD simp: starts_with_iff)

declare trim_list.simps [simp del]

text \<open>The UTF-8 encodings of the characters with the Unicode property \<open>White_Space\<close>.\<close>

definition utf8_ws :: "string list" where
  "utf8_ws = [[CHR 0x09], [CHR 0x0A], [CHR 0x0B], [CHR 0x0C], [CHR 0x0D], [CHR 0x20],
     [CHR 0xC2, CHR 0x85], [CHR 0xC2, CHR 0xA0], [CHR 0xE1, CHR 0x9A, CHR 0x80],
     [CHR 0xE2, CHR 0x80, CHR 0x80], [CHR 0xE2, CHR 0x80, CHR 0x81], [CHR 0xE2, CHR 0x80, CHR 0x82],
     [CHR 0xE2, CHR 0x80, CHR 0x83], [CHR 0xE2, CHR 0x80, CHR 0x84], [CHR 0xE2, CHR 0x80, CHR 0x85],
     [CHR 0xE2, CHR 0x80, CHR 0x86], [CHR 0xE2, CHR 0x80, CHR 0x87], [CHR 0xE2, CHR 0x80, CHR 0x88],
     [CHR 0xE2, CHR 0x80, CHR 0x89], [CHR 0xE2, CHR 0x80, CHR 0x8A], [CHR 0xE2, CHR 0x80, CHR 0xA8],
     [CHR 0xE2, CHR 0x80, CHR 0xA9], [CHR 0xE2, CHR 0x80, CHR 0xAF], [CHR 0xE2, CHR 0x81, CHR 0x9F],
     [CHR 0xE3, CHR 0x80, CHR 0x80]]"

definition trim_start :: "string \<Rightarrow> string" where
  "trim_start s = trim_list utf8_ws s"

definition trim_end :: "string \<Rightarrow> string" where
  "trim_end s = rev (trim_list (map rev utf8_ws) (rev s))"

definition trim :: "string \<Rightarrow> string" where
  "trim s = trim_end (trim_start s)"

definition trim_start_char :: "char \<Rightarrow> string \<Rightarrow> string" where
  "trim_start_char c s = dropWhile (\<lambda>x. x = c) s"

definition trim_end_char :: "char \<Rightarrow> string \<Rightarrow> string" where
  "trim_end_char c s = rev (dropWhile (\<lambda>x. x = c) (rev s))"

definition trim_free :: "string list \<Rightarrow> string \<Rightarrow> bool" where
  "trim_free ws s \<longleftrightarrow> (\<forall>w\<in>set ws. w \<noteq> [] \<longrightarrow> \<not> starts_with w s)"

lemma trim_list_id: "trim_free ws s \<Longrightarrow> trim_list ws s = s"
  by (subst trim_list.simps) (auto simp: trim_free_def split: option.splits dest: find_SomeD)

lemma trim_free_trim_list: "trim_free ws (trim_list ws s)"
proof (induction ws s rule: trim_list.induct)
  case (1 ws s)
  show ?case
    using 1 by (subst trim_list.simps) (auto split: option.splits simp: find_None_iff trim_free_def)
qed

lemma trim_list_suffix: "\<exists>p. s = p @ trim_list ws s"
proof (induction ws s rule: trim_list.induct)
  case (1 ws s)
  then show ?case
    by (subst trim_list.simps) (auto split: option.splits, metis append_assoc append_take_drop_id)
qed

lemma trim_free_take: "trim_free ws (a @ b) \<Longrightarrow> trim_free ws a"
  by (auto simp: trim_free_def starts_with_iff)

lemma trim_end_prefix: "\<exists>r. s = trim_end s @ r"
  using trim_list_suffix[of "rev s" "map rev utf8_ws"]
  unfolding trim_end_def by (metis rev_append rev_rev_ident)

lemma trim_idem: "trim (trim s) = trim s"
proof -
  let ?t = "trim_start s"
  have "trim_free utf8_ws ?t" by (simp add: trim_start_def trim_free_trim_list)
  then have "trim_free utf8_ws (trim_end ?t)" by (metis trim_end_prefix trim_free_take)
  then have 1: "trim_start (trim_end ?t) = trim_end ?t" by (simp add: trim_start_def trim_list_id)
  have "trim_free (map rev utf8_ws) (rev (trim_end ?t))"
    by (simp add: trim_end_def trim_free_trim_list)
  then have "trim_end (trim_end ?t) = trim_end ?t" by (simp add: trim_end_def trim_list_id)
  with 1 show ?thesis by (simp add: trim_def)
qed

section \<open>ASCII case and classes\<close>

definition is_upper :: "char \<Rightarrow> bool" where
  "is_upper c \<longleftrightarrow> CHR ''A'' \<le> c \<and> c \<le> CHR ''Z''"

definition is_lower :: "char \<Rightarrow> bool" where
  "is_lower c \<longleftrightarrow> CHR ''a'' \<le> c \<and> c \<le> CHR ''z''"

definition is_digit :: "char \<Rightarrow> bool" where
  "is_digit c \<longleftrightarrow> CHR ''0'' \<le> c \<and> c \<le> CHR ''9''"

definition is_alpha :: "char \<Rightarrow> bool" where
  "is_alpha c \<longleftrightarrow> is_upper c \<or> is_lower c"

definition is_alnum :: "char \<Rightarrow> bool" where
  "is_alnum c \<longleftrightarrow> is_alpha c \<or> is_digit c"

definition ascii_lower_char :: "char \<Rightarrow> char" where
  "ascii_lower_char c = (if is_upper c then char_of (of_char c + 32 :: nat) else c)"

definition ascii_lower :: "string \<Rightarrow> string" where
  "ascii_lower s = map ascii_lower_char s"

lemma not_upper_lower: "\<not> is_upper (ascii_lower_char c)"
  by (auto simp: ascii_lower_char_def is_upper_def less_eq_char_def not_le)

lemma ascii_lower_idem [simp]: "ascii_lower (ascii_lower s) = ascii_lower s"
  by (auto simp: ascii_lower_def) (simp add: ascii_lower_char_def[of "ascii_lower_char _"] not_upper_lower)

lemma length_ascii_lower [simp]: "length (ascii_lower s) = length s"
  by (simp add: ascii_lower_def)

section \<open>Decimal numbers\<close>

definition digit_val :: "char \<Rightarrow> int" where
  "digit_val c = of_char c - 48"

definition dec_val :: "string \<Rightarrow> int" where
  "dec_val s = foldl (\<lambda>n c. 10 * n + digit_val c) 0 s"

definition dec_nat :: "string \<Rightarrow> int option" where
  "dec_nat s = (if s \<noteq> [] \<and> list_all is_digit s then Some (dec_val s) else None)"

text \<open>\<open>str::parse\<close> for a signed integer type of \<open>w\<close> bits: an optional sign, then digits, in range.\<close>

definition parse_int :: "nat \<Rightarrow> string \<Rightarrow> int option" where
  "parse_int w s =
     (let v = (case s of
          [] \<Rightarrow> None
        | c # r \<Rightarrow> if c = CHR ''+'' then dec_nat r
                   else if c = CHR ''-'' then map_option uminus (dec_nat r)
                   else dec_nat s)
      in case v of None \<Rightarrow> None
         | Some n \<Rightarrow> if - (2 ^ (w - 1)) \<le> n \<and> n < 2 ^ (w - 1) then Some n else None)"

function show_nat :: "nat \<Rightarrow> string" where
  "show_nat n = (if n < 10 then [char_of (48 + n)] else show_nat (n div 10) @ [char_of (48 + n mod 10)])"
  by auto
termination by (relation "measure id") auto

declare show_nat.simps [simp del]

definition show_int :: "int \<Rightarrow> string" where
  "show_int i = (if i < 0 then CHR ''-'' # show_nat (nat (- i)) else show_nat (nat i))"

section \<open>SQL text operators\<close>

fun like :: "string \<Rightarrow> string \<Rightarrow> bool" where
  "like [] s = (s = [])"
| "like (c # p) s =
     (if c = CHR ''%'' then like p s \<or> (case s of [] \<Rightarrow> False | x # s' \<Rightarrow> like (c # p) s')
      else if c = CHR ''_'' then (case s of [] \<Rightarrow> False | x # s' \<Rightarrow> like p s')
      else if c = CHR 0x5C then
        (case (p, s) of (d # p', x # s') \<Rightarrow> x = d \<and> like p' s' | _ \<Rightarrow> False)
      else (case s of [] \<Rightarrow> False | x # s' \<Rightarrow> x = c \<and> like p s'))"

definition star_to_percent :: "string \<Rightarrow> string" where
  "star_to_percent g = map (\<lambda>c. if c = CHR ''*'' then CHR ''%'' else c) g"

text \<open>What a glob means: a star is any run of characters, every other character is itself.\<close>

fun glob_match :: "string \<Rightarrow> string \<Rightarrow> bool" where
  "glob_match [] s = (s = [])"
| "glob_match (c # p) s =
     (if c = CHR ''*'' then glob_match p s \<or> (case s of [] \<Rightarrow> False | x # s' \<Rightarrow> glob_match (c # p) s')
      else (case s of [] \<Rightarrow> False | x # s' \<Rightarrow> x = c \<and> glob_match p s'))"

lemma like_star_to_percent:
  assumes "list_all (\<lambda>c. c \<notin> set [CHR ''%'', CHR ''_'', CHR 0x5C]) g"
  shows "like (star_to_percent g) s = glob_match g s"
  using assms
  by (induction g s rule: glob_match.induct) (auto simp: star_to_percent_def split: list.splits)

text \<open>The cast \<open>::int\<close> of text: blanks around an optionally signed decimal in the \<open>int4\<close> range;
  \<open>None\<close> is the cast error.\<close>

definition sql_int :: "string \<Rightarrow> int option" where
  "sql_int s = (let ws = [[CHR '' ''], [CHR 0x09], [CHR 0x0A], [CHR 0x0B], [CHR 0x0C], [CHR 0x0D]]
     in parse_int 32 (rev (trim_list ws (rev (trim_list ws s)))))"

end
