(* ===== verification/Schema.thy ===== *)
theory Schema
  imports Text
begin

text \<open>
  The catalog's database: one record per row type of \<open>crates/sconce-catalog/migrations/\<close> (the
  columns the modelled queries read or write, with their SQL nullability as \<open>option\<close>) and one
  record, \<open>db\<close>, of the tables. Uuids are natural numbers handed out by the caller
  (\<open>gen_random_uuid()\<close>), \<open>timestamptz\<close> values are seconds, a sha256 is a byte list.
  \<open>check\<close> constraints and unique indexes are predicates of the components that rely on them.
\<close>

type_synonym uuid = nat
type_synonym time = int
type_synonym sha256 = bytes

datatype json = JNull | JBool bool | JNum int | JStr string | JArr "json list"
  | JObj "(string \<times> json) list"

fun json_get :: "string \<Rightarrow> json \<Rightarrow> json option" where
  "json_get k (JObj kvs) = map_of kvs k"
| "json_get k _ = None"

fun json_str :: "json option \<Rightarrow> string option" where
  "json_str (Some (JStr s)) = Some s"
| "json_str _ = None"

datatype visibility = Private | Public

record org_row =
  o_id :: uuid
  o_slug :: string
  o_name :: "string option"

record repo_row =
  r_id :: uuid
  r_org :: uuid
  r_slug :: string
  r_update_mode :: string
  r_cooldown :: int
  r_allow_raw :: "bool option"
  r_max_ttl :: "int option"
  r_allow_private :: bool
  r_anonymous :: bool
  r_domain :: "string option"

datatype slug_entity = OrgSlug | RepoSlug

record slug_row =
  sl_kind :: slug_entity
  sl_old :: string
  sl_org :: "uuid option"
  sl_entity :: uuid

record package_row =
  p_id :: uuid
  p_name :: string
  p_kind :: string
  p_source :: "json option"
  p_repo :: uuid
  p_visibility :: visibility
  p_declared :: "time option"
  p_upstream :: "uuid option"
  p_source_path :: string
  p_sync_health :: string
  p_broken_reason :: "string option"
  p_broken_at :: "time option"
  p_last_success :: "time option"
  p_archived_at :: "time option"

record version_row =
  v_id :: uuid
  v_package :: uuid
  v_version :: string
  v_normalized :: string
  v_stability :: string
  v_composer :: json
  v_blob :: "sha256 option"
  v_shasum :: "string option"
  v_source_ref :: "string option"
  v_released :: "time option"
  v_yanked :: "time option"
  v_held :: "time option"
  v_approved :: "time option"
  v_grace_days :: int
  v_entitled_at :: "time option"
  v_dist_path :: "string option"

record blob_row =
  b_sha :: sha256
  b_size :: int
  b_refcount :: int
  b_created :: time
  b_last_seen :: time

record snapshot_row =
  sn_id :: uuid
  sn_repo :: uuid
  sn_env :: string
  sn_profile :: string
  sn_blob :: sha256
  sn_size :: int
  sn_source_ref :: "string option"
  sn_created :: time
  sn_seq :: nat

record latest_row =
  la_repo :: uuid
  la_env :: string
  la_profile :: string
  la_snapshot :: uuid

record grant_row =
  g_repo :: uuid
  g_package :: uuid
  g_mode :: "string option"
  g_cooldown :: "int option"

record grant_rule_row =
  gr_id :: uuid
  gr_target :: uuid
  gr_set :: uuid

record set_row =
  ps_id :: uuid
  ps_org :: uuid
  ps_name :: string

record set_member_row =
  sm_set :: uuid
  sm_package :: uuid

record set_rule_row =
  sr_id :: uuid
  sr_set :: uuid
  sr_glob :: string

record member_row =
  m_repo :: uuid
  m_member :: uuid
  m_position :: int

record org_ent_row =
  oe_org :: uuid
  oe_soft_bytes :: "int option"
  oe_max_skus :: "int option"
  oe_agency :: bool
  oe_sso :: bool
  oe_multi_oidc :: bool
  oe_repo_access :: bool
  oe_scim :: bool
  oe_audit_log :: bool
  oe_custom_hostname :: bool
  oe_white_label :: bool

record org_settings_row =
  os_org :: uuid
  os_allow_raw :: bool
  os_max_ttl :: "int option"

record token_row =
  t_id :: uuid
  t_hash :: bytes
  t_label :: "string option"
  t_repo :: "uuid option"
  t_org :: "uuid option"
  t_origin :: string
  t_created :: time
  t_last_used :: "time option"
  t_expires :: "time option"
  t_mode :: "string option"
  t_cooldown :: "int option"

text \<open>\<open>service_tokens\<close> and \<open>publish_tokens\<close> have the same columns.\<close>

record cred_row =
  c_id :: uuid
  c_repo :: uuid
  c_hash :: bytes
  c_label :: "string option"
  c_last_used :: "time option"
  c_expires :: "time option"

record user_row =
  u_id :: uuid
  u_email :: string
  u_password :: string
  u_superadmin :: bool

record tenant_row =
  ut_user :: uuid
  ut_org :: uuid
  ut_role :: string
  ut_active :: bool

record session_row =
  se_hash :: bytes
  se_user :: uuid
  se_expires :: time

record reset_row =
  pr_hash :: bytes
  pr_user :: uuid
  pr_created :: time
  pr_expires :: time
  pr_used :: "time option"

record scim_row =
  sc_org :: uuid
  sc_hash :: bytes

record device_row =
  df_hash :: bytes
  df_user_code :: string
  df_status :: string
  df_org :: "uuid option"
  df_approved_by :: "uuid option"
  df_expires :: time

record license_row =
  l_id :: uuid
  l_repo :: uuid
  l_hash :: bytes
  l_buyer :: "string option"
  l_status :: string
  l_expires :: "time option"
  l_mode :: "string option"
  l_cooldown :: "int option"
  l_until :: "time option"
  l_major :: "int option"
  l_edition :: "uuid option"
  l_idem :: "string option"
  l_cipher :: "bytes option"

record ent_row =
  en_license :: uuid
  en_package :: uuid
  en_until :: "time option"
  en_major :: "int option"

record set_ent_row =
  ls_license :: uuid
  ls_set :: uuid
  ls_until :: "time option"
  ls_major :: "int option"

record edition_row =
  ed_id :: uuid
  ed_repo :: uuid
  ed_name :: string
  ed_slug :: "string option"
  ed_set :: uuid
  ed_bound_kind :: string
  ed_bound_months :: "int option"
  ed_bound_major :: "int option"
  ed_snapshot :: bool
  ed_mode :: "string option"
  ed_cooldown :: "int option"
  ed_active :: bool

record renewal_row =
  rn_license :: uuid
  rn_idem :: string

record job_row =
  j_id :: uuid
  j_kind :: string
  j_upstream :: "uuid option"
  j_package :: "string option"
  j_repo :: "uuid option"
  j_status :: string
  j_attempts :: int
  j_run_after :: time
  j_claimed :: "time option"
  j_error :: "string option"
  j_created :: time
  j_updated :: time

record upload_row =
  us_id :: uuid
  us_repo :: uuid
  us_kind :: string
  us_vendor :: "string option"
  us_name :: "string option"
  us_version :: "string option"
  us_env :: "string option"
  us_profile :: "string option"
  us_visibility :: "visibility option"
  us_status :: string
  us_expires :: time

record part_row =
  up_session :: uuid
  up_number :: int
  up_sha :: bytes
  up_size :: int

record upstream_row =
  ur_id :: uuid
  ur_repo :: uuid
  ur_kind :: string
  ur_base :: string
  ur_visibility :: visibility
  ur_label :: "string option"
  ur_credential :: "bytes option"
  ur_cred_type :: string

record require_row =
  uq_upstream :: uuid
  uq_position :: int
  uq_kind :: string
  uq_pattern :: string
  uq_floor :: "string option"

record source_path_row =
  sp_upstream :: uuid
  sp_path :: string

record ci_policy_row =
  ci_id :: uuid
  ci_repo :: uuid
  ci_provider :: string
  ci_issuer :: string
  ci_audience :: string
  ci_claims :: json
  ci_ttl :: int
  ci_capability :: string
  ci_scope :: string

record oidc_row =
  oc_id :: uuid
  oc_org :: "uuid option"
  oc_issuer :: string
  oc_client :: string
  oc_secret :: "bytes option"
  oc_redirect :: string
  oc_scopes :: string
  oc_allowed :: "string list option"
  oc_admin :: "string list option"

record oidc_flow_row =
  of_state :: string
  of_conn :: "uuid option"
  of_nonce :: string
  of_verifier :: string
  of_redirect :: string
  of_expires :: time

record remote_row =
  rm_id :: uuid
  rm_org :: uuid
  rm_remote :: string
  rm_snap_repo :: "uuid option"
  rm_snap_env :: "string option"
  rm_snap_profile :: "string option"

record remote_source_row =
  rsr_remote :: uuid
  rsr_name :: string
  rsr_host :: string
  rsr_mysql :: "string option"
  rsr_identity :: "string option"
  rsr_port :: "int option"

record remote_recipe_row =
  rr_remote :: uuid
  rr_name :: string
  rr_run :: "string option"
  rr_check :: "string option"
  rr_deps :: "string list"
  rr_creates :: "string list"

record plan_row =
  dp_repo :: uuid
  dp_name :: string
  dp_status :: string
  dp_resolver :: "uuid option"
  dp_required_by :: "string option"

record db =
  orgs :: "org_row list"
  repos :: "repo_row list"
  slugs :: "slug_row list"
  packages :: "package_row list"
  versions :: "version_row list"
  blobs :: "blob_row list"
  snapshots :: "snapshot_row list"
  latests :: "latest_row list"
  grants :: "grant_row list"
  grant_rules :: "grant_rule_row list"
  sets :: "set_row list"
  set_members :: "set_member_row list"
  set_rules :: "set_rule_row list"
  members :: "member_row list"
  org_ents :: "org_ent_row list"
  org_settings_t :: "org_settings_row list"
  tokens :: "token_row list"
  service_tokens :: "cred_row list"
  publish_tokens :: "cred_row list"
  users :: "user_row list"
  tenants :: "tenant_row list"
  sessions :: "session_row list"
  resets :: "reset_row list"
  devices :: "device_row list"
  scim_tokens :: "scim_row list"
  licenses :: "license_row list"
  ents :: "ent_row list"
  set_ents :: "set_ent_row list"
  editions :: "edition_row list"
  renewals :: "renewal_row list"
  jobs :: "job_row list"
  uploads :: "upload_row list"
  parts :: "part_row list"
  upstreams :: "upstream_row list"
  requires_t :: "require_row list"
  source_paths_t :: "source_path_row list"
  ci_policies_t :: "ci_policy_row list"
  oidc_conns :: "oidc_row list"
  oidc_flows :: "oidc_flow_row list"
  remotes_t :: "remote_row list"
  remote_sources :: "remote_source_row list"
  remote_recipes :: "remote_recipe_row list"
  plans :: "plan_row list"

definition empty_db :: db where
  "empty_db = \<lparr> orgs = [], repos = [], slugs = [], packages = [], versions = [], blobs = [],
     snapshots = [], latests = [], grants = [], grant_rules = [], sets = [], set_members = [],
     set_rules = [], members = [], org_ents = [], org_settings_t = [], tokens = [],
     service_tokens = [], publish_tokens = [], users = [], tenants = [], sessions = [],
     resets = [], devices = [], scim_tokens = [], licenses = [], ents = [], set_ents = [], editions = [],
     renewals = [], jobs = [], uploads = [], parts = [], upstreams = [],
     requires_t = [], source_paths_t = [], ci_policies_t = [], oidc_conns = [], oidc_flows = [],
     remotes_t = [], remote_sources = [], remote_recipes = [], plans = [] \<rparr>"

text \<open>Errors of a query: a broken constraint, a failed cast, a statement that needs a row and
  found none.\<close>

datatype sql_error = UniqueViolation string | ForeignKeyViolation string | CheckViolation string
  | CastError | RowNotFound

definition days :: "int \<Rightarrow> int" where
  "days n = 86400 * n"

definition org_of_repo :: "db \<Rightarrow> uuid \<Rightarrow> (sql_error, uuid) result" where
  "org_of_repo db repo = ok_or RowNotFound (map_option r_org (select_one (\<lambda>r. r_id r = repo) (repos db)))"

definition repo_named :: "db \<Rightarrow> uuid \<Rightarrow> repo_row option" where
  "repo_named db repo = select_one (\<lambda>r. r_id r = repo) (repos db)"

end
