(* ===== verification/Policy.thy ===== *)
theory Policy
  imports Schema
begin

text \<open>
  The supply-chain update policy of \<open>crates/sconce-catalog/src/lib.rs\<close>: a repository's
  \<open>(update_mode, cooldown_days)\<close>, the per-credential and per-grant overrides
  (\<open>PolicyOverride::effective\<close>) and the SQL gate a version passes to be visible
  (\<open>policy_gate\<close>). The lemmas show that an override only tightens: whatever passes the
  effective policy passes the repository's own.
\<close>

section \<open>Overrides\<close>

record policy_override =
  po_mode :: "string option"
  po_cooldown :: "int option"

definition no_override :: policy_override where
  "no_override = \<lparr> po_mode = None, po_cooldown = None \<rparr>"

definition mode_rank :: "string \<Rightarrow> nat" where
  "mode_rank m = (if m = ''manual'' then 2 else if m = ''delayed'' then 1 else 0)"

definition effective :: "policy_override \<Rightarrow> string \<Rightarrow> int \<Rightarrow> string \<times> int" where
  "effective ovr repo_mode repo_cooldown =
     (let ovr_cooldown = (case po_cooldown ovr of None \<Rightarrow> 0 | Some c \<Rightarrow> c);
          ovr_mode = (case po_mode ovr of Some m \<Rightarrow> Some m
             | None \<Rightarrow> if ovr_cooldown > 0 then Some ''delayed'' else None);
          mode = (case ovr_mode of
               Some m \<Rightarrow> if mode_rank m > mode_rank repo_mode then m else repo_mode
             | None \<Rightarrow> repo_mode)
      in (mode, max ovr_cooldown repo_cooldown))"

definition override_is_some :: "policy_override \<Rightarrow> bool" where
  "override_is_some p \<longleftrightarrow> po_mode p \<noteq> None \<or> po_cooldown p \<noteq> None"

section \<open>The gate\<close>

definition policy_gate :: "time \<Rightarrow> string \<Rightarrow> int \<Rightarrow> version_row \<Rightarrow> bool" where
  "policy_gate now mode cooldown_days v \<longleftrightarrow>
     v_yanked v = None \<and> v_held v = None \<and>
     (mode = ''auto'' \<or> v_approved v \<noteq> None \<or>
      mode = ''delayed'' \<and>
        (case v_released v of None \<Rightarrow> False | Some t \<Rightarrow> t + days cooldown_days \<le> now))"

text \<open>The modes the check constraint \<open>repo_valid_mode\<close> admits.\<close>

definition valid_mode :: "string \<Rightarrow> bool" where
  "valid_mode m \<longleftrightarrow> m \<in> set [''auto'', ''manual'', ''delayed'']"

lemma mode_rank_simps [simp]:
  "mode_rank ''manual'' = 2" "mode_rank ''delayed'' = 1" "mode_rank ''auto'' = 0"
  by (simp_all add: mode_rank_def)

lemma mode_rank_1: "mode_rank m = 1 \<longleftrightarrow> m = ''delayed''"
  by (auto simp: mode_rank_def)

lemma mode_rank_pos: "0 < mode_rank m \<Longrightarrow> m = ''delayed'' \<or> m = ''manual''"
  by (auto simp: mode_rank_def split: if_splits)

lemma days_mono: "a \<le> b \<Longrightarrow> days a \<le> days b"
  by (simp add: days_def)

text \<open>The order in which a policy is tighter than another, and the gate's monotonicity in it.\<close>

definition tighter :: "string \<times> int \<Rightarrow> string \<times> int \<Rightarrow> bool" where
  "tighter p q \<longleftrightarrow> mode_rank (fst q) \<le> mode_rank (fst p) \<and> snd q \<le> snd p \<and> valid_mode (fst p)"

lemma tighter_refl: "valid_mode m \<Longrightarrow> tighter (m, c) (m, c)"
  by (simp add: tighter_def)

lemma tighter_trans: "tighter p q \<Longrightarrow> tighter q r \<Longrightarrow> tighter p r"
  by (auto simp: tighter_def)

lemma tighter_gate:
  assumes "tighter (m', c') (m, c)" "valid_mode m" "policy_gate now m' c' v"
  shows "policy_gate now m c v"
  using assms days_mono[of c c']
  by (auto simp: tighter_def policy_gate_def valid_mode_def split: option.splits)

lemma effective_tighter:
  assumes "valid_mode m"
  shows "tighter (effective ovr m c) (m, c)"
  using assms mode_rank_pos
  by (auto simp: effective_def tighter_def Let_def valid_mode_def mode_rank_def split: option.splits)

lemma valid_mode_effective: "valid_mode m \<Longrightarrow> valid_mode (fst (effective ovr m c))"
  using effective_tighter by (auto simp: tighter_def)

lemma gate_mono_now: "policy_gate now m c v \<Longrightarrow> now \<le> now' \<Longrightarrow> policy_gate now' m c v"
  by (auto simp: policy_gate_def split: option.splits)

lemma effective_none [simp]: "effective no_override m c = (m, max 0 c)"
  by (simp add: effective_def no_override_def)

end
