(* ===== verification/Serving.thy ===== *)
theory Serving
  imports Policy
begin

text \<open>
  Which packages and versions a repository serves, the read path of
  \<open>crates/sconce-catalog/src/lib.rs\<close>: owned, granted, rule-granted and member packages
  (\<open>served_scope\<close>, \<open>GRANT_RULE_EXISTS\<close>, \<open>MEMBER_EXISTS\<close>), the names it lists to a
  credential and to an anonymous reader, the versions visible under a policy and a license
  bound, the dists it serves, and the holds, yanks and approvals that change them.
\<close>

section \<open>Package scope\<close>

definition package_of :: "db \<Rightarrow> version_row \<Rightarrow> package_row option" where
  "package_of db v = select_one (\<lambda>p. p_id p = v_package v) (packages db)"

definition granted :: "db \<Rightarrow> uuid \<Rightarrow> package_row \<Rightarrow> bool" where
  "granted db repo p \<longleftrightarrow> exists_where (\<lambda>g. g_repo g = repo \<and> g_package g = p_id p) (grants db)"

definition set_has :: "db \<Rightarrow> uuid \<Rightarrow> uuid \<Rightarrow> package_row \<Rightarrow> bool" where
  "set_has db set_id org p \<longleftrightarrow>
     exists_where (\<lambda>m. sm_set m = set_id \<and> sm_package m = p_id p) (set_members db)
     \<or> exists_where (\<lambda>r. r_org r = org \<and> r_id r = p_repo p) (repos db)
       \<and> exists_where (\<lambda>sr. sr_set sr = set_id \<and> like (star_to_percent (sr_glob sr)) (p_name p))
           (set_rules db)"

definition grant_rule_exists :: "db \<Rightarrow> uuid \<Rightarrow> package_row \<Rightarrow> bool" where
  "grant_rule_exists db repo p \<longleftrightarrow>
     exists_where (\<lambda>gr. gr_target gr = repo \<and>
         exists_where (\<lambda>ps. ps_id ps = gr_set gr \<and> set_has db (gr_set gr) (ps_org ps) p) (sets db))
       (grant_rules db)"

definition member_exists :: "db \<Rightarrow> uuid \<Rightarrow> package_row \<Rightarrow> bool" where
  "member_exists db repo p \<longleftrightarrow>
     exists_where (\<lambda>m. m_repo m = repo \<and> m_member m = p_repo p \<and>
         \<not> exists_where (\<lambda>m2. m_repo m2 = repo \<and> m_position m2 < m_position m \<and>
               exists_where (\<lambda>p2. p_repo p2 = m_member m2 \<and> p_name p2 = p_name p) (packages db))
             (members db))
       (members db)"

definition reaches :: "db \<Rightarrow> uuid \<Rightarrow> package_row \<Rightarrow> bool" where
  "reaches db repo p \<longleftrightarrow>
     p_repo p = repo \<or> granted db repo p \<or> grant_rule_exists db repo p \<or> member_exists db repo p"

definition served_scope :: "db \<Rightarrow> repo_row \<Rightarrow> package_row \<Rightarrow> bool" where
  "served_scope db r p \<longleftrightarrow>
     reaches db (r_id r) p \<and> (r_allow_private r \<or> p_visibility p = Public)"

definition sorted_names :: "string list \<Rightarrow> string list" where
  "sorted_names ns = sort (remdups ns)"

definition all_package_names :: "db \<Rightarrow> uuid \<Rightarrow> string list" where
  "all_package_names db repo = (case repo_named db repo of None \<Rightarrow> []
     | Some r \<Rightarrow> sorted_names (map p_name (filter (served_scope db r) (packages db))))"

definition anonymous_package_names :: "db \<Rightarrow> uuid \<Rightarrow> string option \<Rightarrow> string list" where
  "anonymous_package_names db repo only =
     (let rows = filter (\<lambda>p. reaches db repo p \<and>
            (case only of None \<Rightarrow> True | Some n \<Rightarrow> p_name p = n)) (packages db)
      in sorted_names (filter (\<lambda>n. list_all (\<lambda>p. p_name p = n \<longrightarrow> p_visibility p = Public) rows)
           (map p_name rows)))"

section \<open>Versions\<close>

text \<open>\<open>composer_semver::Version\<close> is an external crate: its parser and its order are parameters.\<close>

definition compare_normalized ::
    "(string \<Rightarrow> 'v option) \<Rightarrow> ('v \<Rightarrow> 'v \<Rightarrow> ordering) \<Rightarrow> string \<Rightarrow> string \<Rightarrow> ordering" where
  "compare_normalized parse vcmp a b =
     (case (parse a, parse b) of (Some va, Some vb) \<Rightarrow> vcmp va vb | _ \<Rightarrow> text_cmp a b)"

definition sort_versions_ascending ::
    "(string \<Rightarrow> 'v option) \<Rightarrow> ('v \<Rightarrow> 'v \<Rightarrow> ordering) \<Rightarrow> version_row list \<Rightarrow> version_row list" where
  "sort_versions_ascending parse vcmp vs =
     sort_by (\<lambda>a b. compare_normalized parse vcmp (v_normalized a) (v_normalized b)) vs"

text \<open>\<open>coalesce(nullif(split_part(normalized_version, '.', 1), '')::int, 0)\<close>\<close>

definition version_major :: "string \<Rightarrow> int option" where
  "version_major nv = (let s = split_part1 (CHR ''.'') nv in if s = [] then Some 0 else sql_int s)"

definition until_ok :: "time option \<Rightarrow> version_row \<Rightarrow> bool" where
  "until_ok bound_until v = (case bound_until of None \<Rightarrow> True
     | Some u \<Rightarrow> (case (case v_entitled_at v of Some t \<Rightarrow> Some t | None \<Rightarrow> v_released v) of
          None \<Rightarrow> False
        | Some t \<Rightarrow> t - days (v_grace_days v) \<le> u))"

definition in_package :: "db \<Rightarrow> repo_row \<Rightarrow> string \<Rightarrow> version_row \<Rightarrow> bool" where
  "in_package db r name v = (case package_of db v of None \<Rightarrow> False
     | Some p \<Rightarrow> p_name p = name \<and> served_scope db r p)"

definition visible_rows :: "db \<Rightarrow> time \<Rightarrow> uuid \<Rightarrow> string \<Rightarrow> string \<Rightarrow> int \<Rightarrow> time option \<Rightarrow> int option
    \<Rightarrow> (sql_error, version_row list) result" where
  "visible_rows db now repo name mode cooldown_days bound_until bound_major =
     (case repo_named db repo of None \<Rightarrow> Inr []
      | Some r \<Rightarrow>
         (let rows = filter (\<lambda>v. in_package db r name v \<and> policy_gate now mode cooldown_days v
                              \<and> until_ok bound_until v) (versions db)
          in case bound_major of
               None \<Rightarrow> Inr rows
             | Some m \<Rightarrow>
                 if list_ex (\<lambda>v. version_major (v_normalized v) = None) rows then Inl CastError
                 else Inr (filter (\<lambda>v. case version_major (v_normalized v) of
                        None \<Rightarrow> False | Some k \<Rightarrow> k \<le> m) rows)))"

definition visible_versions :: "(string \<Rightarrow> 'v option) \<Rightarrow> ('v \<Rightarrow> 'v \<Rightarrow> ordering) \<Rightarrow> db \<Rightarrow> time
    \<Rightarrow> uuid \<Rightarrow> string \<Rightarrow> string \<Rightarrow> int \<Rightarrow> time option \<Rightarrow> int option
    \<Rightarrow> (sql_error, version_row list) result" where
  "visible_versions parse vcmp db now repo name mode cooldown_days bound_until bound_major =
     and_then (visible_rows db now repo name mode cooldown_days bound_until bound_major)
       (\<lambda>rows. Inr (sort_versions_ascending parse vcmp rows))"

definition package_versions :: "(string \<Rightarrow> 'v option) \<Rightarrow> ('v \<Rightarrow> 'v \<Rightarrow> ordering) \<Rightarrow> db
    \<Rightarrow> uuid \<Rightarrow> string \<Rightarrow> version_row list" where
  "package_versions parse vcmp db repo name =
     sort_versions_ascending parse vcmp (filter (\<lambda>v. (case package_of db v of None \<Rightarrow> False
        | Some p \<Rightarrow> p_repo p = repo \<and> p_name p = name) \<and> v_yanked v = None) (versions db))"

definition repo_serves_dist :: "db \<Rightarrow> uuid \<Rightarrow> string \<Rightarrow> sha256 \<Rightarrow> bool" where
  "repo_serves_dist db repo name blob = (case repo_named db repo of None \<Rightarrow> False
     | Some r \<Rightarrow> exists_where (\<lambda>v. in_package db r name v \<and> v_blob v = Some blob
          \<and> v_yanked v = None) (versions db))"

record version_summary =
  vs_name :: string
  vs_version :: string
  vs_normalized :: string
  vs_stability :: string
  vs_description :: "string option"

definition served_version_summaries :: "(string \<Rightarrow> 'v option) \<Rightarrow> ('v \<Rightarrow> 'v \<Rightarrow> ordering) \<Rightarrow> db
    \<Rightarrow> time \<Rightarrow> uuid \<Rightarrow> string \<Rightarrow> int \<Rightarrow> version_summary list" where
  "served_version_summaries parse vcmp db now repo mode cooldown_days =
     (case repo_named db repo of None \<Rightarrow> []
      | Some r \<Rightarrow> sort_by (\<lambda>a b. then_with (text_cmp (vs_name a) (vs_name b))
             (compare_normalized parse vcmp (vs_normalized a) (vs_normalized b)))
          (List.map_filter (\<lambda>v. case package_of db v of None \<Rightarrow> None
             | Some p \<Rightarrow> if served_scope db r p \<and> policy_gate now mode cooldown_days v
                 then Some \<lparr> vs_name = p_name p, vs_version = v_version v,
                        vs_normalized = v_normalized v, vs_stability = v_stability v,
                        vs_description = json_str (json_get ''description'' (v_composer v)) \<rparr>
                 else None) (versions db)))"

section \<open>Policy and version state changes\<close>

definition update_policy :: "db \<Rightarrow> uuid \<Rightarrow> (sql_error, string \<times> int) result" where
  "update_policy db repo =
     ok_or RowNotFound (map_option (\<lambda>r. (r_update_mode r, r_cooldown r)) (repo_named db repo))"

definition set_update_policy :: "db \<Rightarrow> uuid \<Rightarrow> string \<Rightarrow> int \<Rightarrow> (sql_error, db) result" where
  "set_update_policy db repo mode cooldown_days =
     (if exists_where (\<lambda>r. r_id r = repo) (repos db) \<and> \<not> valid_mode mode
      then Inl (CheckViolation ''repo_valid_mode'')
      else Inr (db\<lparr>repos := upd_where (\<lambda>r. r_id r = repo)
             (\<lambda>r. r\<lparr>r_update_mode := mode, r_cooldown := cooldown_days\<rparr>) (repos db)\<rparr>))"

datatype ts_column = HeldAt | YankedAt | ApprovedAt

fun set_ts :: "ts_column \<Rightarrow> time option \<Rightarrow> version_row \<Rightarrow> version_row" where
  "set_ts HeldAt t v = v\<lparr>v_held := t\<rparr>"
| "set_ts YankedAt t v = v\<lparr>v_yanked := t\<rparr>"
| "set_ts ApprovedAt t v = v\<lparr>v_approved := t\<rparr>"

definition own_version :: "db \<Rightarrow> uuid \<Rightarrow> string \<Rightarrow> string \<Rightarrow> version_row \<Rightarrow> bool" where
  "own_version db repo package nv v \<longleftrightarrow> v_normalized v = nv \<and>
     (case package_of db v of None \<Rightarrow> False | Some p \<Rightarrow> p_repo p = repo \<and> p_name p = package)"

definition set_version_timestamp :: "ts_column \<Rightarrow> time option \<Rightarrow> db \<Rightarrow> uuid \<Rightarrow> string \<Rightarrow> string
    \<Rightarrow> bool \<times> db" where
  "set_version_timestamp column t db repo package nv =
     (exists_where (own_version db repo package nv) (versions db),
      db\<lparr>versions := upd_where (own_version db repo package nv) (set_ts column t) (versions db)\<rparr>)"

definition hold_version where
  "hold_version now = set_version_timestamp HeldAt (Some now)"

definition unhold_version where
  "unhold_version = set_version_timestamp HeldAt None"

definition yank_version where
  "yank_version now = set_version_timestamp YankedAt (Some now)"

definition unyank_version where
  "unyank_version = set_version_timestamp YankedAt None"

definition approve_version where
  "approve_version now = set_version_timestamp ApprovedAt (Some now)"

definition pending_decision :: "db \<Rightarrow> uuid \<Rightarrow> string option \<Rightarrow> version_row \<Rightarrow> bool" where
  "pending_decision db repo package v \<longleftrightarrow>
     (case package_of db v of None \<Rightarrow> False
      | Some p \<Rightarrow> p_repo p = repo \<and> (case package of None \<Rightarrow> True | Some n \<Rightarrow> p_name p = n))
     \<and> v_held v = None \<and> v_yanked v = None \<and> v_approved v = None"

definition approve_all_pending :: "time \<Rightarrow> db \<Rightarrow> uuid \<Rightarrow> string option \<Rightarrow> nat \<times> db" where
  "approve_all_pending now db repo package =
     (count_where (pending_decision db repo package) (versions db),
      db\<lparr>versions := upd_where (pending_decision db repo package)
           (\<lambda>v. v\<lparr>v_approved := Some now\<rparr>) (versions db)\<rparr>)"

section \<open>Grants\<close>

definition grant_package :: "db \<Rightarrow> uuid \<Rightarrow> uuid \<Rightarrow> string \<Rightarrow> bool \<times> db" where
  "grant_package db target source package =
     (case select_one (\<lambda>p. p_repo p = source \<and> p_name p = package) (packages db) of
        None \<Rightarrow> (False, db)
      | Some p \<Rightarrow> (True, if granted db target p then db
           else db\<lparr>grants := grants db @
             [\<lparr>g_repo = target, g_package = p_id p, g_mode = None, g_cooldown = None\<rparr>]\<rparr>))"

definition grant_on :: "db \<Rightarrow> uuid \<Rightarrow> string \<Rightarrow> grant_row \<Rightarrow> bool" where
  "grant_on db repo package g \<longleftrightarrow> g_repo g = repo \<and>
     exists_where (\<lambda>p. p_id p = g_package g \<and> p_name p = package) (packages db)"

text \<open>\<open>limit 1\<close> with no order: the first matching grant in table order.\<close>

definition grant_policy :: "db \<Rightarrow> uuid \<Rightarrow> string \<Rightarrow> policy_override" where
  "grant_policy db repo package = (case select_one (grant_on db repo package) (grants db) of
       None \<Rightarrow> no_override
     | Some g \<Rightarrow> \<lparr> po_mode = g_mode g, po_cooldown = g_cooldown g \<rparr>)"

definition set_grant_policy :: "db \<Rightarrow> uuid \<Rightarrow> string \<Rightarrow> policy_override \<Rightarrow> bool \<times> db" where
  "set_grant_policy db repo package policy =
     (exists_where (grant_on db repo package) (grants db),
      db\<lparr>grants := upd_where (grant_on db repo package)
           (\<lambda>g. g\<lparr>g_mode := po_mode policy, g_cooldown := po_cooldown policy\<rparr>) (grants db)\<rparr>)"

definition remove_grant_rule :: "db \<Rightarrow> uuid \<Rightarrow> uuid \<Rightarrow> db" where
  "remove_grant_rule db target rule_id =
     db\<lparr>grant_rules := del_where (\<lambda>gr. gr_id gr = rule_id \<and> gr_target gr = target) (grant_rules db)\<rparr>"

section \<open>Membership facts\<close>

definition major_ok :: "int option \<Rightarrow> version_row \<Rightarrow> bool" where
  "major_ok bound_major v = (case bound_major of None \<Rightarrow> True
     | Some m \<Rightarrow> (case version_major (v_normalized v) of None \<Rightarrow> False | Some k \<Rightarrow> k \<le> m))"

lemma visible_rows_mem:
  assumes "visible_rows db now repo name mode cd u m = Inr vs"
  shows "v \<in> set vs \<longleftrightarrow> (\<exists>r. repo_named db repo = Some r \<and> v \<in> set (versions db) \<and> in_package db r name v
    \<and> policy_gate now mode cd v \<and> until_ok u v \<and> major_ok m v)"
  using assms
  by (auto simp: visible_rows_def Let_def major_ok_def split: option.splits if_splits)

lemma visible_rows_no_major:
  "visible_rows db now repo name mode cd u None = Inr vs \<longleftrightarrow> vs = (case repo_named db repo of None \<Rightarrow> []
     | Some r \<Rightarrow> filter (\<lambda>v. in_package db r name v \<and> policy_gate now mode cd v \<and> until_ok u v)
         (versions db))"
  by (auto simp: visible_rows_def Let_def split: option.splits)

lemma visible_versions_rows:
  "visible_versions parse vcmp db now repo name mode cd u m = Inr vs \<longleftrightarrow>
   (\<exists>rows. visible_rows db now repo name mode cd u m = Inr rows
      \<and> vs = sort_versions_ascending parse vcmp rows)"
  by (auto simp: visible_versions_def and_then_Inr_iff)

lemma set_sort_versions [simp]: "set (sort_versions_ascending parse vcmp vs) = set vs"
  by (simp add: sort_versions_ascending_def)

lemma visible_versions_mem:
  assumes "visible_versions parse vcmp db now repo name mode cd u m = Inr vs"
  shows "v \<in> set vs \<longleftrightarrow> (\<exists>r. repo_named db repo = Some r \<and> v \<in> set (versions db) \<and> in_package db r name v
    \<and> policy_gate now mode cd v \<and> until_ok u v \<and> major_ok m v)"
  using assms by (auto simp: visible_versions_rows visible_rows_mem)

lemma visible_versions_total_no_major:
  "\<exists>vs. visible_versions parse vcmp db now repo name mode cd u None = Inr vs"
  by (simp add: visible_versions_rows visible_rows_no_major)

definition fold_policy :: "policy_override list \<Rightarrow> string \<times> int \<Rightarrow> string \<times> int" where
  "fold_policy ovrs p = foldl (\<lambda>(m, c) ovr. effective ovr m c) p ovrs"

lemma fold_policy_tighter: "valid_mode m \<Longrightarrow> tighter (fold_policy ovrs (m, c)) (m, c)"
proof (induction ovrs arbitrary: m c)
  case (Cons ovr ovrs)
  obtain m' c' where e: "effective ovr m c = (m', c')" by fastforce
  with Cons.prems have "valid_mode m'" using valid_mode_effective by (metis fst_conv)
  then have "tighter (fold_policy ovrs (m', c')) (m', c')" by (rule Cons.IH)
  moreover have "tighter (m', c') (m, c)" using effective_tighter[OF Cons.prems] e by metis
  ultimately show ?case by (simp add: fold_policy_def e tighter_trans)
qed (simp add: fold_policy_def tighter_refl)

lemma set_ts_keys [simp]: "v_id (set_ts c t v) = v_id v" "v_package (set_ts c t v) = v_package v"
  "v_normalized (set_ts c t v) = v_normalized v" "v_blob (set_ts c t v) = v_blob v"
  by (cases c; simp)+

lemma package_of_versions [simp]: "package_of (db\<lparr>versions := vs\<rparr>) = package_of db"
  by (rule ext) (simp add: package_of_def)

lemma scope_versions [simp]: "served_scope (db\<lparr>versions := vs\<rparr>) = served_scope db"
  by (auto intro!: ext simp: served_scope_def reaches_def granted_def grant_rule_exists_def
      member_exists_def set_has_def)

lemma in_package_versions [simp]:
  "in_package (db\<lparr>versions := vs\<rparr>) = in_package db"
  "own_version (db\<lparr>versions := vs\<rparr>) = own_version db"
  "repo_named (db\<lparr>versions := vs\<rparr>) = repo_named db"
  by (auto intro!: ext simp: in_package_def own_version_def repo_named_def split: option.splits)

lemma package_of_set_ts [simp]: "package_of db (set_ts c t v) = package_of db v"
  by (simp add: package_of_def)

lemma own_version_set_ts [simp]: "own_version db repo n nv (set_ts c t v) = own_version db repo n nv v"
  by (simp add: own_version_def)

lemma in_package_set_ts [simp]: "in_package db r n (set_ts c t v) = in_package db r n v"
  by (simp add: in_package_def)

lemma in_package_held: "in_package db r n (v\<lparr>v_held := t\<rparr>) = in_package db r n v"
  using in_package_set_ts[of db r n HeldAt t v] by simp

lemma package_of_SomeD: "package_of db v = Some p \<Longrightarrow> p \<in> set (packages db) \<and> p_id p = v_package v"
  unfolding package_of_def by (rule select_one_Some)

lemma in_packageD:
  assumes "in_package db r name v"
  obtains p where "package_of db v = Some p" "p \<in> set (packages db)" "p_name p = name"
    "served_scope db r p"
  using assms package_of_SomeD by (auto simp: in_package_def split: option.splits)

lemma repo_namedD: "repo_named db repo = Some r \<Longrightarrow> r \<in> set (repos db) \<and> r_id r = repo"
  unfolding repo_named_def by (rule select_one_Some)

lemma set_sorted_names [simp]: "set (sorted_names ns) = set ns"
  by (simp add: sorted_names_def)

lemma anonymous_name_public:
  assumes "n \<in> set (anonymous_package_names db repo only)" "reaches db repo p" "p \<in> set (packages db)"
    "p_name p = n"
  shows "p_visibility p = Public"
  using assms by (cases only) (auto simp: anonymous_package_names_def Let_def list_all_iff)

section \<open>A small catalog, for the concrete instances\<close>

definition demo_repo :: repo_row where
  "demo_repo = \<lparr>r_id = 10, r_org = 1, r_slug = ''main'', r_update_mode = ''auto'', r_cooldown = 0,
     r_allow_raw = None, r_max_ttl = None, r_allow_private = True, r_anonymous = True,
     r_domain = None\<rparr>"

definition demo_package :: package_row where
  "demo_package = \<lparr>p_id = 100, p_name = ''a/b'', p_kind = ''library'', p_source = None, p_repo = 10,
     p_visibility = Public, p_declared = None, p_upstream = None, p_source_path = [],
     p_sync_health = ''ok'', p_broken_reason = None, p_broken_at = None, p_last_success = None,
     p_archived_at = None\<rparr>"

definition demo_v1 :: version_row where
  "demo_v1 = \<lparr>v_id = 1000, v_package = 100, v_version = ''1.0'', v_normalized = ''1.0.0.0'',
     v_stability = ''stable'', v_composer = JNull, v_blob = Some [7], v_shasum = None,
     v_source_ref = None, v_released = Some 0, v_yanked = None, v_held = None,
     v_approved = None, v_grace_days = 0, v_entitled_at = None, v_dist_path = None\<rparr>"

definition demo_v2 :: version_row where
  "demo_v2 = demo_v1\<lparr>v_id := 1001, v_version := ''2.0'', v_normalized := ''2.0.0.0'',
     v_blob := Some [8], v_released := Some 100000\<rparr>"

definition demo_db :: db where
  "demo_db = empty_db\<lparr>repos := [demo_repo], packages := [demo_package],
     versions := [demo_v2, demo_v1]\<rparr>"

abbreviation "demo_visible db now mode cd u m \<equiv>
  visible_versions (\<lambda>_. None :: unit option) (\<lambda>_ _. Equal) db now 10 ''a/b'' mode cd u m"

section \<open>Properties\<close>

text \<open>C9: whatever stack of credential and grant overrides a request carries, and whatever license
  bound narrows it, the versions it sees are among those the repository's own policy shows:
  overrides only tighten.\<close>

theorem visible_under_overrides:
  assumes "repo_named db repo = Some r" "valid_mode (r_update_mode r)"
    and "fold_policy ovrs (r_update_mode r, r_cooldown r) = (mode, cd)"
    and "visible_versions parse vcmp db now repo name mode cd u m = Inr vs"
  shows "\<exists>ws. visible_versions parse vcmp db now repo name (r_update_mode r) (r_cooldown r) None None
       = Inr ws \<and> set vs \<subseteq> set ws"
proof -
  obtain ws where ws: "visible_versions parse vcmp db now repo name (r_update_mode r) (r_cooldown r)
      None None = Inr ws" using visible_versions_total_no_major by blast
  have "tighter (mode, cd) (r_update_mode r, r_cooldown r)"
    using fold_policy_tighter[OF assms(2), of ovrs "r_cooldown r"] assms(3) by simp
  from tighter_gate[OF this assms(2)] have "set vs \<subseteq> set ws"
    by (auto simp: visible_versions_mem[OF ws] visible_versions_mem[OF assms(4)] until_ok_def major_ok_def)
  with ws show ?thesis by blast
qed

lemma visible_under_overrides_witness:
  "\<exists>ws. demo_visible demo_db 200000 (r_update_mode demo_repo) (r_cooldown demo_repo) None None = Inr ws
     \<and> set [demo_v1] \<subseteq> set ws"
  by (rule visible_under_overrides[where ovrs = "[\<lparr>po_mode = None, po_cooldown = Some 2\<rparr>]"
        and mode = "''delayed''" and cd = 2 and u = "Some 5" and m = "Some 1"]) code_simp+

text \<open>Every version a client can resolve it can also download: the dist blob of a visible
  version is served by the content-addressed route under the same repository and name.\<close>

theorem visible_dist_served:
  assumes "visible_versions parse vcmp db now repo name mode cd u m = Inr vs" "v \<in> set vs"
    and "v_blob v = Some b"
  shows "repo_serves_dist db repo name b"
  using assms by (auto simp: visible_versions_mem repo_serves_dist_def policy_gate_def)

lemma visible_dist_served_witness:
  "repo_serves_dist demo_db 10 ''a/b'' [7]"
  by (rule visible_dist_served[where parse = "\<lambda>_. None :: unit option" and vcmp = "\<lambda>_ _. Equal"
     and now = 0 and mode = "''auto''" and cd = 0 and u = None and m = None
     and vs = "[demo_v1, demo_v2]" and v = demo_v1]) code_simp+

text \<open>A package with a visible version is one of the names the repository lists as available.\<close>

theorem visible_name_listed:
  assumes "visible_versions parse vcmp db now repo name mode cd u m = Inr vs" "vs \<noteq> []"
  shows "name \<in> set (all_package_names db repo)"
proof -
  obtain v where "v \<in> set vs" using assms(2) by (cases vs) auto
  then obtain r where "repo_named db repo = Some r" "in_package db r name v"
    using visible_versions_mem[OF assms(1)] by blast
  then show ?thesis by (auto simp: all_package_names_def elim!: in_packageD)
qed

lemma visible_name_listed_witness:
  "''a/b'' \<in> set (all_package_names demo_db 10)"
  by (rule visible_name_listed[where parse = "\<lambda>_. None :: unit option" and vcmp = "\<lambda>_ _. Equal" and now = 0 and mode = "''auto''" and cd = 0
     and u = None and m = None and vs = "[demo_v1, demo_v2]"]) code_simp+

text \<open>After a yank no repository, policy, bound or later time shows the yanked version, whoever
  it was granted to.\<close>

theorem yank_withdraws:
  assumes "yank_version now db repo package nv = (found, db')"
    and "visible_versions parse vcmp db' now' repo' package mode cd u m = Inr vs"
  shows "\<forall>v\<in>set vs. \<not> own_version db repo package nv v"
  using assms unfolding yank_version_def set_version_timestamp_def
  by (auto simp: visible_versions_mem policy_gate_def elim!: in_upd_whereE)

lemma yank_withdraws_witness:
  "\<not> own_version demo_db 10 ''a/b'' ''1.0.0.0'' demo_v2"
proof -
  have "\<forall>v\<in>set [demo_v2]. \<not> own_version demo_db 10 ''a/b'' ''1.0.0.0'' v"
    by (rule yank_withdraws[where found = True and now = 5 and now' = 9 and repo' = 10
     and mode = "''auto''" and cd = 0 and u = None and m = None and parse = "\<lambda>_. None :: unit option" and vcmp = "\<lambda>_ _. Equal"
     and db' = "snd (yank_version 5 demo_db 10 ''a/b'' ''1.0.0.0'')"]) code_simp+
  then show ?thesis by simp
qed

text \<open>A hold hides the version from every resolution while leaving unchanged which dists any
  repository serves, so lock files that pin it keep installing.\<close>

theorem hold_hides_keeps_dist:
  assumes "hold_version now db repo package nv = (found, db')"
    and "visible_versions parse vcmp db' now' repo' package mode cd u m = Inr vs"
  shows "(\<forall>v\<in>set vs. \<not> own_version db repo package nv v)
     \<and> repo_serves_dist db' r2 n2 b = repo_serves_dist db r2 n2 b"
proof -
  have db': "db' = db\<lparr>versions := upd_where (own_version db repo package nv)
      (set_ts HeldAt (Some now)) (versions db)\<rparr>"
    using assms(1) by (auto simp: hold_version_def set_version_timestamp_def)
  have "\<forall>v\<in>set vs. \<not> own_version db repo package nv v"
    using assms(2) by (auto simp: db' visible_versions_mem policy_gate_def elim!: in_upd_whereE)
  moreover have "repo_serves_dist db' r2 n2 b = repo_serves_dist db r2 n2 b"
    by (simp add: db' repo_serves_dist_def del: set_ts.simps cong: option.case_cong)
      (subst bex_upd_where, simp_all add: in_package_held)
  ultimately show ?thesis ..
qed

lemma hold_hides_keeps_dist_witness:
  "\<not> own_version demo_db 10 ''a/b'' ''1.0.0.0'' demo_v2
   \<and> repo_serves_dist (snd (hold_version 5 demo_db 10 ''a/b'' ''1.0.0.0'')) 10 ''a/b'' [7]
     = repo_serves_dist demo_db 10 ''a/b'' [7]"
proof -
  have  "(\<forall>v\<in>set [demo_v2]. \<not> own_version demo_db 10 ''a/b'' ''1.0.0.0'' v)
   \<and> repo_serves_dist (snd (hold_version 5 demo_db 10 ''a/b'' ''1.0.0.0'')) 10 ''a/b'' [7]
     = repo_serves_dist demo_db 10 ''a/b'' [7]"
    by (rule hold_hides_keeps_dist[where found = True and now = 5 and now' = 9 and repo' = 10
     and mode = "''auto''" and cd = 0 and u = None and m = None and parse = "\<lambda>_. None :: unit option" and vcmp = "\<lambda>_ _. Equal"]) code_simp+
  then show ?thesis by simp
qed

text \<open>C8: under a name an anonymous reader may see, every version served belongs to a public
  package, also when packages of that name arrive by grant, rule or membership.\<close>

theorem anonymous_serves_only_public:
  assumes "name \<in> set (anonymous_package_names db repo only)"
    and "visible_versions parse vcmp db now repo name mode cd u m = Inr vs" "v \<in> set vs"
  shows "\<exists>p. package_of db v = Some p \<and> p_visibility p = Public"
proof -
  obtain r where "repo_named db repo = Some r" "in_package db r name v"
    using visible_versions_mem[OF assms(2)] assms(3) by blast
  then show ?thesis
    using anonymous_name_public[OF assms(1)] by (auto simp: served_scope_def dest: repo_namedD elim!: in_packageD)
qed

lemma anonymous_serves_only_public_witness:
  "\<exists>p. package_of demo_db demo_v1 = Some p \<and> p_visibility p = Public"
  by (rule anonymous_serves_only_public[where name = "''a/b''" and repo = 10 and only = None and parse = "\<lambda>_. None :: unit option" and vcmp = "\<lambda>_ _. Equal"
     and now = 0 and mode = "''auto''" and cd = 0 and u = None and m = None
     and vs = "[demo_v1, demo_v2]"]) code_simp+

text \<open>Visibility under one policy only grows with time and with the license's update-until
  date.\<close>

theorem visible_monotone:
  assumes "visible_versions parse vcmp db now repo name mode cd (Some u) m = Inr vs"
    and "visible_versions parse vcmp db now' repo name mode cd (Some u') m = Inr ws"
    and "now \<le> now'" "u \<le> u'"
  shows "set vs \<subseteq> set ws"
  using assms gate_mono_now
  by (auto simp: visible_versions_mem until_ok_def split: option.splits)

lemma visible_monotone_witness:
  "set [demo_v1] \<subseteq> set [demo_v1, demo_v2]"
  by (rule visible_monotone[where db = demo_db and name = "''a/b''" and repo = 10 and parse = "\<lambda>_. None :: unit option" and vcmp = "\<lambda>_ _. Equal"
     and now = 86400 and now' = 200000 and mode = "''delayed''" and cd = 1
     and u = 5 and u' = 100000 and m = None]) code_simp+

text \<open>A package name reaches an aggregating repository from at most one member: with unique
  positions and unique names per repository, the earlier member shadows the later.\<close>

theorem member_shadowing:
  assumes "distinct (map (\<lambda>m. (m_repo m, m_position m)) (members db))"
    and "distinct (map (\<lambda>p. (p_repo p, p_name p)) (packages db))"
    and "p1 \<in> set (packages db)" "p2 \<in> set (packages db)" "p_name p1 = p_name p2"
    and "member_exists db repo p1" "member_exists db repo p2"
  shows "p1 = p2"
proof -
  obtain m1 where m1: "m1 \<in> set (members db)" "m_repo m1 = repo" "m_member m1 = p_repo p1"
      "\<And>m p. m \<in> set (members db) \<Longrightarrow> m_repo m = repo \<Longrightarrow> m_position m < m_position m1 \<Longrightarrow>
         p \<in> set (packages db) \<Longrightarrow> p_repo p = m_member m \<Longrightarrow> p_name p \<noteq> p_name p1"
    using assms(6) by (auto simp: member_exists_def)
  obtain m2 where m2: "m2 \<in> set (members db)" "m_repo m2 = repo" "m_member m2 = p_repo p2"
      "\<And>m p. m \<in> set (members db) \<Longrightarrow> m_repo m = repo \<Longrightarrow> m_position m < m_position m2 \<Longrightarrow>
         p \<in> set (packages db) \<Longrightarrow> p_repo p = m_member m \<Longrightarrow> p_name p \<noteq> p_name p2"
    using assms(7) by (auto simp: member_exists_def)
  have "m_position m1 = m_position m2"
    using m1 m2 assms(3-5) by (metis linorder_neqE)
  then have "m1 = m2" using distinct_map_eqD[OF assms(1) m1(1) m2(1)] m1(2) m2(2) by simp
  then show ?thesis using distinct_map_eqD[OF assms(2-4)] m1(3) m2(3) assms(5) by simp
qed

lemma member_shadowing_witness:
  "\<not> member_exists (demo_db\<lparr>
       packages := [demo_package, demo_package\<lparr>p_id := 101, p_repo := 12\<rparr>],
       members := [\<lparr>m_repo = 11, m_member = 12, m_position = 1\<rparr>,
         \<lparr>m_repo = 11, m_member = 10, m_position = 0\<rparr>]\<rparr>) 11
     (demo_package\<lparr>p_id := 101, p_repo := 12\<rparr>)" (is "\<not> member_exists ?db 11 ?p2")
proof
  assume p2: "member_exists ?db 11 ?p2"
  have "demo_package = ?p2"
    by (rule member_shadowing[OF _ _ _ _ _ _ p2]) code_simp+
  then show False by (simp add: demo_package_def)
qed

text \<open>The fallback to string order for what does not parse makes the order cyclic, not total.\<close>

lemma fallback_order_cyclic:
  "map (\<lambda>(a, b). compare_normalized (\<lambda>s. if s = ''5x'' then None else Some (length s))
     (\<lambda>m n. if m < n then Less else if n < m then Greater else Equal) a b) [(''9'', ''10''), (''10'', ''5x''), (''5x'', ''9'')] = [Less, Less, Less]"
  by code_simp

end
