(* ===== verification/Blobs.thy ===== *)
theory Blobs
  imports Serving
begin

text \<open>
  Blob accounting and the immutable versions of \<open>crates/sconce-catalog/src/lib.rs\<close>: the triggers
  of migrations 0036 and 0045 that keep \<open>blobs.refcount\<close>, the inserts, updates and cascaded
  deletes of versions and snapshots that fire them, retention (\<open>prune_snapshots\<close>), the orphan
  scan and the guarded row delete the collector uses. The invariant \<open>refcount_ok\<close> says a
  blob's count is the number of rows that reference it, \<open>refs_present\<close> is the foreign keys.
\<close>

section \<open>The refcount triggers\<close>

definition bump :: "sha256 \<Rightarrow> int \<Rightarrow> blob_row list \<Rightarrow> blob_row list" where
  "bump sha delta bs = upd_where (\<lambda>b. b_sha b = sha) (\<lambda>b. b\<lparr>b_refcount := b_refcount b + delta\<rparr>) bs"

fun bump_opt :: "sha256 option \<Rightarrow> int \<Rightarrow> blob_row list \<Rightarrow> blob_row list" where
  "bump_opt None delta bs = bs"
| "bump_opt (Some sha) delta bs = bump sha delta bs"

definition on_update :: "sha256 option \<Rightarrow> sha256 option \<Rightarrow> blob_row list \<Rightarrow> blob_row list" where
  "on_update old new bs = (if new = old then bs else bump_opt new 1 (bump_opt old (-1) bs))"

definition on_deletes :: "sha256 option list \<Rightarrow> blob_row list \<Rightarrow> blob_row list" where
  "on_deletes olds bs = foldl (\<lambda>bs old. bump_opt old (-1) bs) bs olds"

definition blob_known :: "db \<Rightarrow> sha256 option \<Rightarrow> bool" where
  "blob_known db sha = (case sha of None \<Rightarrow> True | Some s \<Rightarrow> exists_where (\<lambda>b. b_sha b = s) (blobs db))"

section \<open>Row operations with their triggers\<close>

definition add_version :: "version_row \<Rightarrow> db \<Rightarrow> db" where
  "add_version v db = db\<lparr>versions := versions db @ [v], blobs := bump_opt (v_blob v) 1 (blobs db)\<rparr>"

definition update_versions :: "(version_row \<Rightarrow> bool) \<Rightarrow> (version_row \<Rightarrow> version_row) \<Rightarrow> db \<Rightarrow> db" where
  "update_versions P f db = db\<lparr>versions := upd_where P f (versions db),
     blobs := foldl (\<lambda>bs v. on_update (v_blob v) (v_blob (f v)) bs) (blobs db) (filter P (versions db))\<rparr>"

definition del_versions :: "(version_row \<Rightarrow> bool) \<Rightarrow> db \<Rightarrow> db" where
  "del_versions P db = db\<lparr>versions := del_where P (versions db),
     blobs := on_deletes (map v_blob (filter P (versions db))) (blobs db)\<rparr>"

definition del_snapshots :: "(snapshot_row \<Rightarrow> bool) \<Rightarrow> db \<Rightarrow> db" where
  "del_snapshots P db = db\<lparr>snapshots := del_where P (snapshots db),
     latests := del_where (\<lambda>l. exists_where (\<lambda>s. P s \<and> sn_id s = la_snapshot l) (snapshots db)) (latests db),
     blobs := on_deletes (map (\<lambda>s. Some (sn_blob s)) (filter P (snapshots db))) (blobs db)\<rparr>"

section \<open>Blobs\<close>

definition upsert_blob :: "time \<Rightarrow> db \<Rightarrow> sha256 \<Rightarrow> int \<Rightarrow> db" where
  "upsert_blob now db sha size_bytes =
     (if exists_where (\<lambda>b. b_sha b = sha) (blobs db)
      then db\<lparr>blobs := upd_where (\<lambda>b. b_sha b = sha) (\<lambda>b. b\<lparr>b_last_seen := now\<rparr>) (blobs db)\<rparr>
      else db\<lparr>blobs := blobs db @ [\<lparr>b_sha = sha, b_size = size_bytes, b_refcount = 0,
             b_created = now, b_last_seen = now\<rparr>]\<rparr>)"

record storage_stats =
  blob_count :: int
  total_bytes :: int
  orphan_bytes :: int
  orphan_count :: int

definition storage_stats_of :: "db \<Rightarrow> storage_stats" where
  "storage_stats_of db =
     (let orphans = filter (\<lambda>b. b_refcount b = 0) (blobs db)
      in \<lparr>blob_count = int (length (blobs db)), total_bytes = sum_list (map b_size (blobs db)),
          orphan_bytes = sum_list (map b_size orphans), orphan_count = int (length orphans)\<rparr>)"

definition collectable :: "time \<Rightarrow> int \<Rightarrow> blob_row \<Rightarrow> bool" where
  "collectable now grace_secs b \<longleftrightarrow> b_refcount b = 0 \<and> b_last_seen b < now - grace_secs"

text \<open>\<open>BlobRef::from_row\<close> drops a row whose key is not 32 bytes.\<close>

definition orphan_blobs :: "time \<Rightarrow> int \<Rightarrow> db \<Rightarrow> (sha256 \<times> int) list" where
  "orphan_blobs now grace_secs db =
     map (\<lambda>b. (b_sha b, b_size b)) (filter (\<lambda>b. length (b_sha b) = 32)
       (sort_key b_last_seen (filter (collectable now grace_secs) (blobs db))))"

definition delete_blob_if_orphan :: "time \<Rightarrow> int \<Rightarrow> db \<Rightarrow> sha256 \<Rightarrow> (sql_error, bool \<times> db) result" where
  "delete_blob_if_orphan now grace_secs db sha =
     (let P = (\<lambda>b. b_sha b = sha \<and> collectable now grace_secs b)
      in if \<not> exists_where P (blobs db) then Inr (False, db)
         else if exists_where (\<lambda>v. v_blob v = Some sha) (versions db)
              \<or> exists_where (\<lambda>s. sn_blob s = sha) (snapshots db)
         then Inl (ForeignKeyViolation ''blobs'')
         else Inr (True, db\<lparr>blobs := del_where P (blobs db)\<rparr>))"

definition org_blobs :: "db \<Rightarrow> uuid \<Rightarrow> sha256 list" where
  "org_blobs db org = remdups
     (List.map_filter (\<lambda>v. case package_of db v of None \<Rightarrow> None
        | Some p \<Rightarrow> if exists_where (\<lambda>r. r_id r = p_repo p \<and> r_org r = org) (repos db)
                    then v_blob v else None) (versions db)
      @ List.map_filter (\<lambda>s. if exists_where (\<lambda>r. r_id r = sn_repo s \<and> r_org r = org) (repos db)
            then Some (sn_blob s) else None) (snapshots db))"

definition org_storage :: "db \<Rightarrow> uuid \<Rightarrow> int \<times> int" where
  "org_storage db org =
     (let bs = filter (\<lambda>b. b_sha b \<in> set (org_blobs db org)) (blobs db)
      in (sum_list (map b_size bs), int (length bs)))"

section \<open>Versions\<close>

definition version_at :: "db \<Rightarrow> uuid \<Rightarrow> string \<Rightarrow> version_row option" where
  "version_at db package nv = select_one (\<lambda>v. v_package v = package \<and> v_normalized v = nv) (versions db)"

definition upsert_package_version :: "uuid \<Rightarrow> db \<Rightarrow> uuid \<Rightarrow> string \<Rightarrow> string \<Rightarrow> string \<Rightarrow> json
    \<Rightarrow> sha256 option \<Rightarrow> string option \<Rightarrow> string option \<Rightarrow> int option \<Rightarrow> (sql_error, uuid \<times> db) result" where
  "upsert_package_version newid db package version nv stability composer blob shasum source_ref released =
     (if \<not> exists_where (\<lambda>p. p_id p = package) (packages db) then Inl (ForeignKeyViolation ''package_id'')
      else if \<not> blob_known db blob then Inl (ForeignKeyViolation ''dist_blob_sha256'')
      else case version_at db package nv of
        None \<Rightarrow> Inr (newid, add_version \<lparr>v_id = newid, v_package = package, v_version = version,
            v_normalized = nv, v_stability = stability, v_composer = composer, v_blob = blob,
            v_shasum = shasum, v_source_ref = source_ref, v_released = released, v_yanked = None,
            v_held = None, v_approved = None, v_grace_days = 0, v_entitled_at = None,
            v_dist_path = None\<rparr> db)
      | Some v \<Rightarrow> Inr (v_id v, update_versions (\<lambda>v. v_package v = package \<and> v_normalized v = nv)
            (\<lambda>v. v\<lparr>v_version := version, v_stability := stability, v_composer := composer,
               v_blob := blob, v_shasum := shasum, v_source_ref := source_ref,
               v_released := released\<rparr>) db))"

datatype publish_outcome = Created | AlreadyPublished | Conflict

definition insert_version_once :: "uuid \<Rightarrow> db \<Rightarrow> uuid \<Rightarrow> string \<Rightarrow> string \<Rightarrow> string \<Rightarrow> json \<Rightarrow> sha256
    \<Rightarrow> string \<Rightarrow> string option \<Rightarrow> string option \<Rightarrow> int option \<Rightarrow> (sql_error, publish_outcome \<times> db) result"
where
  "insert_version_once newid db package version nv stability composer blob shasum source_ref dist_path released =
     (case version_at db package nv of
        None \<Rightarrow>
          if \<not> exists_where (\<lambda>p. p_id p = package) (packages db) then Inl (ForeignKeyViolation ''package_id'')
          else if \<not> blob_known db (Some blob) then Inl (ForeignKeyViolation ''dist_blob_sha256'')
          else Inr (Created, add_version \<lparr>v_id = newid, v_package = package, v_version = version,
            v_normalized = nv, v_stability = stability, v_composer = composer, v_blob = Some blob,
            v_shasum = Some shasum, v_source_ref = source_ref, v_released = released, v_yanked = None,
            v_held = None, v_approved = None, v_grace_days = 0, v_entitled_at = None,
            v_dist_path = dist_path\<rparr> db)
      | Some v \<Rightarrow> Inr (if v_blob v = Some blob then AlreadyPublished else Conflict, db))"

definition insert_pushed_version where
  "insert_pushed_version newid db package version nv stability composer blob shasum released =
     insert_version_once newid db package version nv stability composer blob shasum None None (Some released)"

definition insert_mirrored_version where
  "insert_mirrored_version newid db package version nv stability composer blob shasum source_ref dist_path =
     insert_version_once newid db package version nv stability composer blob shasum source_ref dist_path None"

definition backfill_upstream_dist_path :: "db \<Rightarrow> uuid \<Rightarrow> string \<Rightarrow> string \<Rightarrow> string \<Rightarrow> db" where
  "backfill_upstream_dist_path db repo name nv path =
     db\<lparr>versions := upd_where (\<lambda>v. own_version db repo name nv v \<and> v_dist_path v = None)
          (\<lambda>v. v\<lparr>v_dist_path := Some path\<rparr>) (versions db)\<rparr>"

definition dist_by_upstream_path :: "db \<Rightarrow> uuid \<Rightarrow> string \<Rightarrow> (string \<times> sha256) option" where
  "dist_by_upstream_path db repo path =
     (case repo_named db repo of None \<Rightarrow> None
      | Some r \<Rightarrow>
         (case sort_key v_id (filter (\<lambda>v. v_dist_path v = Some path \<and> v_yanked v = None \<and>
                 (case package_of db v of None \<Rightarrow> False
                  | Some p \<Rightarrow> (p_repo p = repo \<or> member_exists db repo p)
                      \<and> (r_allow_private r \<or> p_visibility p = Public))) (versions db)) of
            [] \<Rightarrow> None
          | v # _ \<Rightarrow> (case (package_of db v, v_blob v) of
               (Some p, Some b) \<Rightarrow> if length b = 32 then Some (p_name p, b) else None
             | _ \<Rightarrow> None)))"

record stored_dist =
  sd_shasum :: "string option"
  sd_reference :: "string option"
  sd_dist_path :: "string option"

definition stored_dists :: "db \<Rightarrow> uuid \<Rightarrow> string \<Rightarrow> (string \<times> stored_dist) list" where
  "stored_dists db repo name =
     map (\<lambda>v. (v_normalized v, \<lparr>sd_shasum = v_shasum v, sd_reference = v_source_ref v,
                                sd_dist_path = v_dist_path v\<rparr>))
       (filter (\<lambda>v. case package_of db v of None \<Rightarrow> False
           | Some p \<Rightarrow> p_repo p = repo \<and> p_name p = name) (versions db))"

section \<open>Snapshots\<close>

definition create_snapshot :: "uuid \<Rightarrow> time \<Rightarrow> db \<Rightarrow> uuid \<Rightarrow> string \<Rightarrow> string \<Rightarrow> sha256 \<Rightarrow> int
    \<Rightarrow> string option \<Rightarrow> (sql_error, uuid \<times> db) result" where
  "create_snapshot newid now db repo env profile blob size_bytes source_ref =
     (if \<not> exists_where (\<lambda>r. r_id r = repo) (repos db) then Inl (ForeignKeyViolation ''repo_id'')
      else if \<not> blob_known db (Some blob) then Inl (ForeignKeyViolation ''blob_sha256'')
      else Inr (newid, db\<lparr>snapshots := snapshots db @ [\<lparr>sn_id = newid, sn_repo = repo, sn_env = env,
          sn_profile = profile, sn_blob = blob, sn_size = size_bytes, sn_source_ref = source_ref,
          sn_created = now, sn_seq = Suc (foldr max (map sn_seq (snapshots db)) 0)\<rparr>],
        blobs := bump blob 1 (blobs db)\<rparr>))"

definition in_variant :: "uuid \<Rightarrow> string \<Rightarrow> string \<Rightarrow> snapshot_row \<Rightarrow> bool" where
  "in_variant repo env profile s \<longleftrightarrow> sn_repo s = repo \<and> sn_env s = env \<and> sn_profile s = profile"

definition is_latest_of :: "uuid \<Rightarrow> string \<Rightarrow> string \<Rightarrow> latest_row \<Rightarrow> bool" where
  "is_latest_of repo env profile l \<longleftrightarrow> la_repo l = repo \<and> la_env l = env \<and> la_profile l = profile"

definition advance_latest :: "db \<Rightarrow> uuid \<Rightarrow> string \<Rightarrow> string \<Rightarrow> uuid \<Rightarrow> (sql_error, db) result" where
  "advance_latest db repo env profile snapshot =
     (if \<not> exists_where (\<lambda>s. sn_id s = snapshot) (snapshots db) then Inl (ForeignKeyViolation ''snapshot_id'')
      else if exists_where (is_latest_of repo env profile) (latests db)
      then Inr (db\<lparr>latests := upd_where (is_latest_of repo env profile)
             (\<lambda>l. l\<lparr>la_snapshot := snapshot\<rparr>) (latests db)\<rparr>)
      else if \<not> exists_where (\<lambda>r. r_id r = repo) (repos db) then Inl (ForeignKeyViolation ''repo_id'')
      else Inr (db\<lparr>latests := latests db @
             [\<lparr>la_repo = repo, la_env = env, la_profile = profile, la_snapshot = snapshot\<rparr>]\<rparr>))"

definition resolve_latest :: "db \<Rightarrow> uuid \<Rightarrow> string \<Rightarrow> string \<Rightarrow> snapshot_row option" where
  "resolve_latest db repo env profile =
     (case select_one (is_latest_of repo env profile) (latests db) of None \<Rightarrow> None
      | Some l \<Rightarrow> select_one (\<lambda>s. sn_id s = la_snapshot l) (snapshots db))"

text \<open>\<open>order by created_at desc, seq desc\<close>\<close>

definition newer_cmp :: "snapshot_row \<Rightarrow> snapshot_row \<Rightarrow> ordering" where
  "newer_cmp a b = (if sn_created a > sn_created b then Less else if sn_created a < sn_created b then Greater
     else if sn_seq a > sn_seq b then Less else if sn_seq a < sn_seq b then Greater else Equal)"

definition newest_first :: "snapshot_row list \<Rightarrow> snapshot_row list" where
  "newest_first ss = sort_by newer_cmp ss"

definition resolve_snapshot_by_digest :: "db \<Rightarrow> uuid \<Rightarrow> string \<Rightarrow> string \<Rightarrow> sha256 \<Rightarrow> snapshot_row option" where
  "resolve_snapshot_by_digest db repo env profile blob =
     (case newest_first (filter (\<lambda>s. in_variant repo env profile s \<and> sn_blob s = blob) (snapshots db)) of
        [] \<Rightarrow> None | s # _ \<Rightarrow> Some s)"

definition list_snapshots :: "db \<Rightarrow> uuid \<Rightarrow> string \<Rightarrow> snapshot_row list" where
  "list_snapshots db repo env =
     newest_first (filter (\<lambda>s. sn_repo s = repo \<and> sn_env s = env) (snapshots db))"

definition prunable :: "db \<Rightarrow> uuid \<Rightarrow> string \<Rightarrow> string \<Rightarrow> int \<Rightarrow> snapshot_row \<Rightarrow> bool" where
  "prunable db repo env profile keep s \<longleftrightarrow>
     in_variant repo env profile s
     \<and> \<not> exists_where (\<lambda>l. is_latest_of repo env profile l \<and> la_snapshot l = sn_id s) (latests db)
     \<and> sn_id s \<notin> set (map sn_id (take (nat (max 0 keep))
          (newest_first (filter (in_variant repo env profile) (snapshots db)))))"

definition prune_snapshots :: "db \<Rightarrow> uuid \<Rightarrow> string \<Rightarrow> string \<Rightarrow> int \<Rightarrow> nat \<times> db" where
  "prune_snapshots db repo env profile keep =
     (count_where (prunable db repo env profile keep) (snapshots db),
      del_snapshots (prunable db repo env profile keep) db)"

section \<open>The accounting invariant\<close>

definition refs :: "db \<Rightarrow> sha256 \<Rightarrow> int" where
  "refs db s = int (count_where (\<lambda>v. v_blob v = Some s) (versions db))
     + int (count_where (\<lambda>n. sn_blob n = s) (snapshots db))"

definition refcount_ok :: "db \<Rightarrow> bool" where
  "refcount_ok db \<longleftrightarrow> distinct (map b_sha (blobs db)) \<and>
     (\<forall>b\<in>set (blobs db). b_refcount b = refs db (b_sha b))"

definition refs_present :: "db \<Rightarrow> bool" where
  "refs_present db \<longleftrightarrow> (\<forall>s. 0 < refs db s \<longrightarrow> s \<in> b_sha ` set (blobs db))"

definition blobs_ok :: "db \<Rightarrow> bool" where
  "blobs_ok db \<longleftrightarrow> refcount_ok db \<and> refs_present db"

text \<open>Every trigger shifts the counts by a function of the key.\<close>

definition shift :: "(sha256 \<Rightarrow> int) \<Rightarrow> blob_row list \<Rightarrow> blob_row list" where
  "shift f bs = map (\<lambda>b. b\<lparr>b_refcount := b_refcount b + f (b_sha b)\<rparr>) bs"

lemma shift_shift: "shift f (shift g bs) = shift (\<lambda>s. g s + f s) bs"
  by (simp add: shift_def)

lemma shift_0 [simp]: "shift (\<lambda>s. 0) bs = bs"
  by (simp add: shift_def)

lemma map_b_sha_shift [simp]: "map b_sha (shift f bs) = map b_sha bs"
  by (simp add: shift_def)

lemma b_sha_shift [simp]: "b_sha ` set (shift f bs) = b_sha ` set bs"
  by (simp add: shift_def image_image)

definition ind :: "sha256 option \<Rightarrow> sha256 \<Rightarrow> int" where
  "ind x s = (if x = Some s then 1 else 0)"

lemma bump_opt_shift: "bump_opt x d bs = shift (\<lambda>s. d * ind x s) bs"
  by (cases x) (auto simp: bump_def shift_def ind_def upd_where_def)

lemma on_update_shift: "on_update old new bs = shift (\<lambda>s. ind new s - ind old s) bs"
  by (auto simp: on_update_def bump_opt_shift shift_shift)

lemma on_deletes_shift: "on_deletes olds bs = shift (\<lambda>s. - (\<Sum>x\<leftarrow>olds. ind x s)) bs"
  unfolding on_deletes_def
  by (induction olds arbitrary: bs) (auto simp: bump_opt_shift shift_shift algebra_simps)

lemma updates_shift: "foldl (\<lambda>bs v. on_update (v_blob v) (v_blob (f v)) bs) bs vs =
    shift (\<lambda>s. \<Sum>v\<leftarrow>vs. ind (v_blob (f v)) s - ind (v_blob v) s) bs"
  by (induction vs arbitrary: bs) (auto simp: on_update_shift shift_shift algebra_simps)

lemma count_ind: "int (count_where (\<lambda>v. g v = Some s) t) = (\<Sum>v\<leftarrow>t. ind (g v) s)"
  by (induction t) (auto simp: count_where_Cons ind_def)

lemma count_ind_some: "int (count_where (\<lambda>v. g v = s) t) = (\<Sum>v\<leftarrow>t. ind (Some (g v)) s)"
  by (induction t) (auto simp: count_where_Cons ind_def)

lemma refs_eq: "refs db s = (\<Sum>v\<leftarrow>versions db. ind (v_blob v) s)
    + (\<Sum>n\<leftarrow>snapshots db. ind (Some (sn_blob n)) s)"
  by (simp add: refs_def count_ind count_ind_some)

lemma sum_filter_split:
  "(\<Sum>v\<leftarrow>del_where P t. (f v :: int)) = (\<Sum>v\<leftarrow>t. f v) - (\<Sum>v\<leftarrow>filter P t. f v)"
  unfolding del_where_def by (induction t) auto

lemma sum_upd_where:
  "(\<Sum>v\<leftarrow>upd_where P f t. (g v :: int)) = (\<Sum>v\<leftarrow>t. g v) + (\<Sum>v\<leftarrow>filter P t. g (f v) - g v)"
  by (induction t) (auto simp: upd_where_Cons)

lemma blobs_ok_shift:
  assumes "blobs_ok db" "blobs db' = shift f (blobs db)" "\<And>s. refs db' s = refs db s + f s"
    and "\<And>s. 0 < f s \<Longrightarrow> s \<in> b_sha ` set (blobs db)"
  shows "blobs_ok db'"
proof -
  have "refcount_ok db'" using assms(1-3) by (auto simp: blobs_ok_def refcount_ok_def shift_def o_def)
  moreover have "refs_present db'"
    unfolding refs_present_def
  proof (intro allI impI)
    fix s assume "0 < refs db' s"
    then have "0 < refs db s \<or> 0 < f s" using assms(3)[of s] by linarith
    then show "s \<in> b_sha ` set (blobs db')"
      using assms(1,2,4) by (auto simp: blobs_ok_def refs_present_def)
  qed
  ultimately show ?thesis by (simp add: blobs_ok_def)
qed

lemma blob_known_iff: "blob_known db x \<longleftrightarrow> (\<forall>s. x = Some s \<longrightarrow> s \<in> b_sha ` set (blobs db))"
  by (auto simp: blob_known_def split: option.splits)

lemma blobs_ok_add_version:
  assumes "blobs_ok db" "blob_known db (v_blob v)"
  shows "blobs_ok (add_version v db)"
proof (rule blobs_ok_shift[OF assms(1)])
  show "blobs (add_version v db) = shift (ind (v_blob v)) (blobs db)"
    by (simp add: add_version_def bump_opt_shift)
  show "refs (add_version v db) s = refs db s + ind (v_blob v) s" for s
    by (simp add: refs_eq add_version_def)
  show "0 < ind (v_blob v) s \<Longrightarrow> s \<in> b_sha ` set (blobs db)" for s
    using assms(2) by (simp add: blob_known_iff ind_def split: if_splits)
qed

lemma blobs_ok_update_versions:
  assumes "blobs_ok db" "\<And>v. P v \<Longrightarrow> v_blob (f v) = x" "blob_known db x"
  shows "blobs_ok (update_versions P f db)"
proof (rule blobs_ok_shift[OF assms(1)])
  show "blobs (update_versions P f db) = shift (\<lambda>s. \<Sum>v\<leftarrow>filter P (versions db). ind (v_blob (f v)) s
      - ind (v_blob v) s) (blobs db)"
    by (simp add: update_versions_def updates_shift)
  show "refs (update_versions P f db) s = refs db s + (\<Sum>v\<leftarrow>filter P (versions db).
      ind (v_blob (f v)) s - ind (v_blob v) s)" for s
    by (simp add: refs_eq update_versions_def sum_upd_where)
  fix s assume pos: "0 < (\<Sum>v\<leftarrow>filter P (versions db). ind (v_blob (f v)) s - ind (v_blob v) s)"
  have "x = Some s"
  proof (rule ccontr)
    assume "x \<noteq> Some s"
    then have "ind (v_blob (f v)) s - ind (v_blob v) s \<le> 0" if "v \<in> set (filter P (versions db))" for v
      using assms(2) that by (auto simp: ind_def)
    then have "(\<Sum>v\<leftarrow>filter P (versions db). ind (v_blob (f v)) s - ind (v_blob v) s) \<le> 0"
      by (intro sum_list_nonpos) auto
    with pos show False by simp
  qed
  then show "s \<in> b_sha ` set (blobs db)" using assms(3) by (simp add: blob_known_iff)
qed

lemma sum_ind_nonneg: "0 \<le> (\<Sum>v\<leftarrow>t. ind (g v) s)"
  by (rule sum_list_nonneg) (auto simp: ind_def)

lemma blobs_ok_del_versions:
  assumes "blobs_ok db" shows "blobs_ok (del_versions P db)"
  by (rule blobs_ok_shift[OF assms, where f = "\<lambda>s. - (\<Sum>v\<leftarrow>filter P (versions db). ind (v_blob v) s)"])
    (use sum_ind_nonneg[of v_blob _ "filter P (versions db)"] in
      \<open>auto simp: del_versions_def on_deletes_shift refs_eq sum_filter_split o_def not_less dest: leD\<close>)

lemma blobs_ok_del_snapshots:
  assumes "blobs_ok db" shows "blobs_ok (del_snapshots P db)"
  by (rule blobs_ok_shift[OF assms, where f = "\<lambda>s. - (\<Sum>n\<leftarrow>filter P (snapshots db). ind (Some (sn_blob n)) s)"])
    (use sum_ind_nonneg[of "\<lambda>n. Some (sn_blob n)" _ "filter P (snapshots db)"] in
      \<open>auto simp: del_snapshots_def on_deletes_shift refs_eq sum_filter_split o_def not_less dest: leD\<close>)

lemma refs_nonneg: "0 \<le> refs db s"
  by (simp add: refs_def)

lemma blobs_ok_cong:
  assumes "blobs_ok db" "blobs db' = blobs db" "\<And>s. refs db' s = refs db s"
  shows "blobs_ok db'"
  using assms by (simp add: blobs_ok_def refcount_ok_def refs_present_def)

lemma blobs_ok_upsert_blob:
  assumes "blobs_ok db" shows "blobs_ok (upsert_blob now db sha n)"
proof (cases "sha \<in> b_sha ` set (blobs db)")
  case True
  then have e: "upsert_blob now db sha n = db\<lparr>blobs := upd_where (\<lambda>b. b_sha b = sha)
      (\<lambda>b. b\<lparr>b_last_seen := now\<rparr>) (blobs db)\<rparr>" by (auto simp: upsert_blob_def)
  have k: "map b_sha (blobs (upsert_blob now db sha n)) = map b_sha (blobs db)"
    unfolding e by (simp add: map_upd_where_key)
  then have "b_sha ` set (blobs (upsert_blob now db sha n)) = b_sha ` set (blobs db)"
    by (metis list.set_map)
  then show ?thesis
    using assms k by (auto simp: blobs_ok_def refcount_ok_def refs_present_def refs_def e elim!: in_upd_whereE)
next
  case False
  then have e: "upsert_blob now db sha n = db\<lparr>blobs := blobs db @ [\<lparr>b_sha = sha, b_size = n,
      b_refcount = 0, b_created = now, b_last_seen = now\<rparr>]\<rparr>" by (auto simp: upsert_blob_def)
  have r: "refs (upsert_blob now db sha n) s = refs db s" for s by (simp add: refs_def e)
  have "refs db sha = 0"
    using False assms refs_nonneg[of db sha] unfolding blobs_ok_def refs_present_def
    by (metis order_le_less)
  then show ?thesis
    using assms False by (auto simp: blobs_ok_def refcount_ok_def refs_present_def r) (auto simp: e)
qed

lemma blobs_ok_upsert_version:
  assumes "blobs_ok db" "upsert_package_version newid db pkg ver nv stab js blob sh sr rel = Inr (i, db')"
  shows "blobs_ok db'"
  using assms blobs_ok_add_version blobs_ok_update_versions[where x = blob]
  by (auto simp: upsert_package_version_def split: if_splits option.splits)

lemma blobs_ok_insert_once:
  assumes "blobs_ok db" "insert_version_once newid db pkg ver nv stab js blob sh sr dp rel = Inr (o', db')"
  shows "blobs_ok db'"
  using assms blobs_ok_add_version
  by (auto simp: insert_version_once_def split: if_splits option.splits)

lemma blobs_ok_create_snapshot:
  assumes "blobs_ok db" "create_snapshot newid now db repo env profile blob n sr = Inr (i, db')"
  shows "blobs_ok db'"
proof (rule blobs_ok_shift[OF assms(1)])
  show "blobs db' = shift (ind (Some blob)) (blobs db)"
    using assms(2) bump_opt_shift[of "Some blob" 1 "blobs db"]
    by (auto simp: create_snapshot_def split: if_splits)
  show "refs db' s = refs db s + ind (Some blob) s" for s
    using assms(2) by (auto simp: create_snapshot_def refs_eq split: if_splits)
  show "0 < ind (Some blob) s \<Longrightarrow> s \<in> b_sha ` set (blobs db)" for s
    using assms(2) by (auto simp: create_snapshot_def blob_known_iff ind_def split: if_splits)
qed

lemma blobs_ok_set_timestamp:
  assumes "blobs_ok db" shows "blobs_ok (snd (set_version_timestamp c t db repo pkg nv))"
  by (rule blobs_ok_cong[OF assms]) (simp_all add: set_version_timestamp_def refs_eq sum_upd_where)

lemma blobs_ok_prune:
  assumes "blobs_ok db" shows "blobs_ok (snd (prune_snapshots db repo env profile keep))"
  using assms by (simp add: prune_snapshots_def blobs_ok_del_snapshots)

lemma blobs_ok_advance_latest:
  assumes "blobs_ok db" "advance_latest db repo env profile sn = Inr db'"
  shows "blobs_ok db'"
  by (rule blobs_ok_cong[OF assms(1)])
    (use assms(2) in \<open>auto simp: advance_latest_def refs_def split: if_splits\<close>)

lemma refs_zero: "refs db s = 0 \<longleftrightarrow> \<not> (\<exists>v\<in>set (versions db). v_blob v = Some s)
    \<and> \<not> (\<exists>n\<in>set (snapshots db). sn_blob n = s)"
proof -
  have "refs db s = 0 \<longleftrightarrow> count_where (\<lambda>v. v_blob v = Some s) (versions db) = 0
      \<and> count_where (\<lambda>n. sn_blob n = s) (snapshots db) = 0" unfolding refs_def by linarith
  then show ?thesis by (simp add: count_where_0)
qed

lemma blobs_ok_delete_orphan:
  assumes "blobs_ok db"
  shows "\<exists>d db'. delete_blob_if_orphan now grace db sha = Inr (d, db') \<and> blobs_ok db' \<and>
    refs db' = refs db \<and> (d \<longrightarrow> refs db sha = 0) \<and>
    (\<forall>b. b \<in> set (blobs db') \<longleftrightarrow> b \<in> set (blobs db) \<and> (d \<longrightarrow> b_sha b \<noteq> sha))"
proof (cases "\<exists>b\<in>set (blobs db). b_sha b = sha \<and> collectable now grace b")
  case True
  then obtain b where b: "b \<in> set (blobs db)" "b_sha b = sha" "collectable now grace b" by blast
  have z: "refs db sha = 0"
    using assms b by (auto simp: blobs_ok_def refcount_ok_def collectable_def)
  then have "\<not> (\<exists>v\<in>set (versions db). v_blob v = Some sha)" "\<not> (\<exists>s\<in>set (snapshots db). sn_blob s = sha)"
    by (simp_all add: refs_zero)
  then have e: "delete_blob_if_orphan now grace db sha = Inr (True, db\<lparr>blobs := del_where
      (\<lambda>b. b_sha b = sha \<and> collectable now grace b) (blobs db)\<rparr>)" (is "_ = Inr (True, ?db')")
    using True by (auto simp: delete_blob_if_orphan_def Let_def)
  have uniq: "c = b" if "c \<in> set (blobs db)" "b_sha c = sha" for c
    using assms b that by (auto simp: blobs_ok_def refcount_ok_def dest: distinct_map_eqD)
  have mem: "c \<in> set (blobs ?db') \<longleftrightarrow> c \<in> set (blobs db) \<and> b_sha c \<noteq> sha" for c
    using uniq b(3) by auto
  have r: "refs ?db' = refs db" by (rule ext) (simp add: refs_def)
  have "distinct (map b_sha (blobs ?db'))"
    using assms by (simp add: blobs_ok_def refcount_ok_def distinct_map_del_where)
  moreover have "\<forall>c\<in>set (blobs ?db'). b_refcount c = refs ?db' (b_sha c)"
    using assms mem unfolding r blobs_ok_def refcount_ok_def by blast
  moreover have "\<forall>s. 0 < refs ?db' s \<longrightarrow> s \<in> b_sha ` set (blobs ?db')"
  proof (intro allI impI)
    fix s assume pos: "0 < refs ?db' s"
    then obtain c where "c \<in> set (blobs db)" "b_sha c = s"
      using assms unfolding r blobs_ok_def refs_present_def by blast
    moreover have "s \<noteq> sha" using pos z unfolding r by auto
    ultimately show "s \<in> b_sha ` set (blobs ?db')" using mem by blast
  qed
  ultimately have "blobs_ok ?db'" by (simp add: blobs_ok_def refcount_ok_def refs_present_def)
  with e z r mem show ?thesis by blast
next
  case False
  then show ?thesis using assms by (auto simp: delete_blob_if_orphan_def Let_def)
qed
section \<open>Every operation that touches blobs, versions or snapshots\<close>

inductive blob_step :: "db \<Rightarrow> db \<Rightarrow> bool" where
  step_upsert_blob: "blob_step db (upsert_blob now db sha n)"
| step_upsert_version: "upsert_package_version newid db pkg ver nv stab js blob sh sr rel = Inr (i, db')
    \<Longrightarrow> blob_step db db'"
| step_insert_once: "insert_version_once newid db pkg ver nv stab js blob' sh' sr dp rel = Inr (out, db')
    \<Longrightarrow> blob_step db db'"
| step_timestamp: "blob_step db (snd (set_version_timestamp c t db repo pkg' nv))"
| step_cascade_versions: "blob_step db (del_versions P db)"
| step_cascade_snapshots: "blob_step db (del_snapshots Q db)"
| step_create_snapshot: "create_snapshot newid now db repo env profile blob' n sr = Inr (i, db')
    \<Longrightarrow> blob_step db db'"
| step_advance: "advance_latest db repo env profile sn = Inr db' \<Longrightarrow> blob_step db db'"
| step_prune: "blob_step db (snd (prune_snapshots db repo env profile keep))"
| step_collect: "delete_blob_if_orphan now grace db sha = Inr (d, db') \<Longrightarrow> blob_step db db'"
| step_other: "blobs db' = blobs db \<Longrightarrow> versions db' = versions db \<Longrightarrow> snapshots db' = snapshots db
    \<Longrightarrow> blob_step db db'"

lemma blob_step_ok: "blob_step db db' \<Longrightarrow> blobs_ok db \<Longrightarrow> blobs_ok db'"
proof (induction rule: blob_step.induct)
  case (step_collect now grace db sha d db')
  then show ?case using blobs_ok_delete_orphan[of db now grace sha] by auto
next
  case (step_other db' db)
  then show ?case using blobs_ok_cong[of db db'] by (simp add: refs_def)
qed (blast intro: blobs_ok_upsert_blob blobs_ok_upsert_version blobs_ok_insert_once
    blobs_ok_set_timestamp blobs_ok_del_versions blobs_ok_del_snapshots blobs_ok_create_snapshot
    blobs_ok_advance_latest blobs_ok_prune)+

lemma blobs_ok_empty: "blobs_ok empty_db"
  by (simp add: blobs_ok_def refcount_ok_def refs_present_def refs_def empty_db_def)

lemma version_at_add: "version_at (add_version v db) p nv =
    (case version_at db p nv of Some w \<Rightarrow> Some w
     | None \<Rightarrow> if v_package v = p \<and> v_normalized v = nv then Some v else None)"
proof -
  have "select_one P (xs @ [x]) = (case select_one P xs of Some w \<Rightarrow> Some w
      | None \<Rightarrow> if P x then Some x else None)" for P xs and x :: version_row
    by (induction xs) (auto simp: select_one_Cons)
  then show ?thesis by (simp add: version_at_def add_version_def)
qed

section \<open>Properties\<close>

text \<open>C2: from any state in which blob counts are exact and references point to known blobs, and
  whatever the order of uploads, re-mirrors, holds, cascaded deletes, snapshot retention and
  collection, every blob's refcount equals the number of version and snapshot rows that
  reference it, and every referenced blob has its row.\<close>

theorem blob_accounting:
  assumes "blob_step\<^sup>*\<^sup>* db db'" "blobs_ok db"
  shows "(\<forall>b\<in>set (blobs db'). b_refcount b =
       int (count_where (\<lambda>v. v_blob v = Some (b_sha b)) (versions db'))
       + int (count_where (\<lambda>n. sn_blob n = b_sha b) (snapshots db')))
     \<and> (\<forall>v\<in>set (versions db'). \<forall>s. v_blob v = Some s \<longrightarrow> (\<exists>b\<in>set (blobs db'). b_sha b = s))"
proof -
  have ok: "blobs_ok db'"
    using assms by (induction rule: rtranclp_induct) (auto intro: blob_step_ok)
  have "s \<in> b_sha ` set (blobs db')" if "v \<in> set (versions db')" "v_blob v = Some s" for v s
    using ok that refs_zero[of db' s] refs_nonneg[of db' s] unfolding blobs_ok_def refs_present_def
    by (metis order_le_less)
  then show ?thesis using ok by (force simp: blobs_ok_def refcount_ok_def refs_def)
qed

lemma blob_accounting_witness:
  "\<exists>db'. blob_step\<^sup>*\<^sup>* (empty_db\<lparr>packages := [demo_package]\<rparr>) db' \<and> versions db' \<noteq> []
     \<and> map b_refcount (blobs db') = [1]"
proof -
  let ?db0 = "empty_db\<lparr>packages := [demo_package]\<rparr>"
  let ?db1 = "upsert_blob 5 ?db0 [7] 3"
  obtain db2 where ins: "insert_version_once 1 ?db1 100 ''1.0'' ''1.0.0.0'' ''stable'' JNull [7] ''x'' None None None
      = Inr (Created, db2)"
    by (simp add: insert_version_once_def version_at_def upsert_blob_def empty_db_def blob_known_def
        demo_package_def)
  then have db2: "map b_sha (blobs db2) = [[7]]" "map v_blob (versions db2) = [Some [7]]" "snapshots db2 = []"
    by (auto simp: insert_version_once_def version_at_def upsert_blob_def empty_db_def blob_known_def
        demo_package_def add_version_def bump_def upd_where_def)
  have r: "blob_step\<^sup>*\<^sup>* ?db0 db2"
    using step_upsert_blob[of ?db0 5 "[7]" 3] step_insert_once[OF ins] by (meson rtranclp.simps)
  have ok: "blobs_ok ?db0"
    by (simp add: blobs_ok_def refcount_ok_def refs_present_def refs_def empty_db_def)
  have "map b_refcount (blobs db2) = [1]"
    using blob_accounting[OF r ok] db2 by (auto simp: map_eq_Cons_conv count_where_Cons)
  with r db2 show ?thesis by auto
qed

text \<open>C1: inserting a version is immutable: a row already stored for the package and normalized
  version is never changed by the insert, which answers \<open>AlreadyPublished\<close> exactly when the
  bytes are the stored ones and \<open>Conflict\<close> when they differ; a first insert stores the new bytes.
  Rows of other versions are untouched.\<close>

theorem insert_version_immutable:
  assumes "insert_version_once newid db package version nv stability composer blob shasum sref dpath rel
    = Inr (out, db')"
  shows "(\<forall>v\<in>set (versions db). v \<in> set (versions db'))
     \<and> (\<forall>p n w. version_at db p n = Some w \<longrightarrow> version_at db' p n = Some w)
     \<and> (out = Created \<longleftrightarrow> version_at db package nv = None)
     \<and> (out = AlreadyPublished \<longleftrightarrow> (\<exists>w. version_at db package nv = Some w \<and> v_blob w = Some blob))
     \<and> (out \<noteq> Conflict \<longrightarrow> (\<exists>w. version_at db' package nv = Some w \<and> v_blob w = Some blob))
     \<and> (out \<noteq> Created \<longrightarrow> db' = db)"
proof (cases "version_at db package nv")
  case None
  with assms show ?thesis
    by (auto simp: insert_version_once_def version_at_add split: if_splits)
      (simp_all add: add_version_def)
next
  case (Some w)
  with assms show ?thesis by (auto simp: insert_version_once_def split: if_splits)
qed

definition demo_blob :: "bytes \<Rightarrow> blob_row" where
  "demo_blob sha = \<lparr>b_sha = sha, b_size = 1, b_refcount = 0, b_created = 0, b_last_seen = 0\<rparr>"

lemma insert_version_immutable_witness:
  "\<exists>db'. insert_version_once 5 (demo_db\<lparr>blobs := [demo_blob [9]]\<rparr>) 100 ''1.0'' ''1.0.0.0'' ''stable'' JNull
       [9] ''x'' None None None = Inr (Conflict, db') \<and> version_at db' 100 ''1.0.0.0'' = Some demo_v1"
proof -
  let ?db = "demo_db\<lparr>blobs := [demo_blob [9]]\<rparr>"
  have ins: "insert_version_once 5 ?db 100 ''1.0'' ''1.0.0.0'' ''stable'' JNull [9] ''x'' None None None
      = Inr (Conflict, ?db)" by code_simp
  have "version_at ?db 100 ''1.0.0.0'' = Some demo_v1" by code_simp
  then have "version_at ?db 100 ''1.0.0.0'' = Some demo_v1"
    using insert_version_immutable[OF ins] by blast
  with ins show ?thesis by blast
qed

text \<open>Pruning a variant never removes the snapshot its latest pointer names, so \<open>latest\<close> still
  resolves to the same snapshot; it keeps the \<open>keep\<close> newest of the variant and every snapshot of
  other variants.\<close>

theorem prune_keeps_latest:
  assumes "prune_snapshots db repo env profile keep = (n, db')"
  shows "resolve_latest db' repo env profile = resolve_latest db repo env profile
     \<and> set (take (nat keep) (newest_first (filter (in_variant repo env profile) (snapshots db))))
         \<subseteq> set (snapshots db')
     \<and> (\<forall>s\<in>set (snapshots db). \<not> in_variant repo env profile s \<longrightarrow> s \<in> set (snapshots db'))"
proof -
  let ?P = "prunable db repo env profile keep"
  have db': "db' = del_snapshots ?P db" using assms by (auto simp: prune_snapshots_def)
  have keep: "\<not> ?P s" if "is_latest_of repo env profile l" "l \<in> set (latests db)" "sn_id s = la_snapshot l" for s l
    using that by (auto simp: prunable_def)
  have sel_del: "select_one Q (del_where R t) = select_one Q t" if "\<And>x. x \<in> set t \<Longrightarrow> Q x \<Longrightarrow> \<not> R x"
    for Q R and t :: "'z list"
    using that unfolding del_where_def by (induction t) (auto simp: select_one_Cons)
  have "select_one (is_latest_of repo env profile) (latests db') =
      select_one (is_latest_of repo env profile) (latests db)"
    unfolding db' del_snapshots_def by (simp, rule sel_del) (metis exists_where_iff keep)
  moreover have "select_one (\<lambda>s. sn_id s = la_snapshot l) (snapshots db') =
      select_one (\<lambda>s. sn_id s = la_snapshot l) (snapshots db)"
    if "select_one (is_latest_of repo env profile) (latests db) = Some l" for l
    unfolding db' del_snapshots_def using keep select_one_Some[OF that] by (simp, intro sel_del) blast
  ultimately have "resolve_latest db' repo env profile = resolve_latest db repo env profile"
    by (auto simp: resolve_latest_def split: option.splits)
  moreover have "s \<in> set (snapshots db')"
    if "s \<in> set (take (nat keep) (newest_first (filter (in_variant repo env profile) (snapshots db))))" for s
  proof -
    have "s \<in> set (snapshots db)" using in_set_takeD[OF that] by (simp add: newest_first_def)
    moreover have "max 0 keep = (if keep < 0 then 0 else keep)" by simp
    then have "nat (max 0 keep) = nat keep" by simp
    then have "\<not> ?P s" using that by (simp add: prunable_def)
    ultimately show ?thesis by (simp add: db' del_snapshots_def)
  qed
  moreover have "s \<in> set (snapshots db')" if "s \<in> set (snapshots db)" "\<not> in_variant repo env profile s" for s
    using that by (simp add: db' del_snapshots_def prunable_def)
  ultimately show ?thesis by blast
qed

definition demo_snapshot :: "nat \<Rightarrow> snapshot_row" where
  "demo_snapshot n = \<lparr>sn_id = n, sn_repo = 10, sn_env = ''prod'', sn_profile = ''full'', sn_blob = [7],
     sn_size = 1, sn_source_ref = None, sn_created = int n, sn_seq = n\<rparr>"

definition demo_snapshots :: db where
  "demo_snapshots = empty_db\<lparr>repos := [demo_repo], snapshots := map demo_snapshot [1, 2, 3],
     latests := [\<lparr>la_repo = 10, la_env = ''prod'', la_profile = ''full'', la_snapshot = 1\<rparr>]\<rparr>"

lemma prune_keeps_latest_witness:
  "\<exists>db'. prune_snapshots demo_snapshots 10 ''prod'' ''full'' 1 = (1, db')
     \<and> resolve_latest db' 10 ''prod'' ''full'' = Some (demo_snapshot 1)"
proof -
  obtain n db' where p: "prune_snapshots demo_snapshots 10 ''prod'' ''full'' 1 = (n, db')" by fastforce
  have "fst (prune_snapshots demo_snapshots 10 ''prod'' ''full'' 1) = 1" by code_simp
  moreover have "resolve_latest demo_snapshots 10 ''prod'' ''full'' = Some (demo_snapshot 1)" by code_simp
  ultimately show ?thesis using prune_keeps_latest[OF p] p by auto
qed

text \<open>The guarded row delete never fails on a foreign key, removes exactly the row of the
  given blob, and only when no version or snapshot references it.\<close>

theorem delete_orphan_safe:
  assumes "blobs_ok db"
  shows "\<exists>deleted db'. delete_blob_if_orphan now grace db sha = Inr (deleted, db') \<and> blobs_ok db'
     \<and> (deleted \<longrightarrow> (\<forall>v\<in>set (versions db). v_blob v \<noteq> Some sha) \<and> (\<forall>s\<in>set (snapshots db). sn_blob s \<noteq> sha))
     \<and> (\<forall>b. b \<in> set (blobs db') \<longleftrightarrow> b \<in> set (blobs db) \<and> (deleted \<longrightarrow> b_sha b \<noteq> sha))"
  using blobs_ok_delete_orphan[OF assms, of now grace sha] by (auto simp: refs_zero)

lemma delete_orphan_safe_witness:
  "\<exists>deleted db'. delete_blob_if_orphan 100 10 (empty_db\<lparr>blobs := [demo_blob [7]]\<rparr>) [7] = Inr (deleted, db')
     \<and> blobs_ok db'"
proof -
  have "blobs_ok (empty_db\<lparr>blobs := [demo_blob [7]]\<rparr>)"
    by (simp add: blobs_ok_def refcount_ok_def refs_present_def refs_def empty_db_def demo_blob_def)
  from delete_orphan_safe[OF this, of 100 10 "[7]"] show ?thesis by blast
qed

end
