(* ===== verification/SigV4.thy ===== *)
theory SigV4
  imports Text
begin

text \<open>
  AWS Signature Version 4 as \<open>crates/sconce-cas/src/sigv4.rs\<close> computes it: the canonical
  request, the credential scope, the HMAC chain, header and presigned-URL forms, the
  percent-encoding and the date. SHA-256 and HMAC-SHA256 come from external crates and are the
  parameters \<open>sha\<close> and \<open>hmac\<close> (key, message).
\<close>

unbundle bit_operations_syntax

record signing_params =
  access_key :: string
  secret_key :: string
  region :: string
  sp_amz_date :: string

definition hex_digit :: "string \<Rightarrow> byte \<Rightarrow> char" where
  "hex_digit digits b = digits ! unat b"

definition hex :: "bytes \<Rightarrow> string" where
  "hex bs = concat (map (\<lambda>b. [hex_digit ''0123456789abcdef'' (drop_bit 4 b),
                               hex_digit ''0123456789abcdef'' (b AND 0x0f)]) bs)"

definition hmac_sha256 :: "(bytes \<Rightarrow> bytes \<Rightarrow> bytes) \<Rightarrow> bytes \<Rightarrow> string \<Rightarrow> bytes" where
  "hmac_sha256 hmac key data = hmac key (str_bytes data)"

definition scope :: "signing_params \<Rightarrow> string" where
  "scope p = take 8 (sp_amz_date p) @ ''/'' @ region p @ ''/s3/aws4_request''"

definition nl :: string where "nl = [CHR 0x0A]"

definition sign :: "(bytes \<Rightarrow> bytes) \<Rightarrow> (bytes \<Rightarrow> bytes \<Rightarrow> bytes) \<Rightarrow> signing_params \<Rightarrow> string \<Rightarrow> string" where
  "sign sha hmac p canonical_request =
     (let string_to_sign = ''AWS4-HMAC-SHA256'' @ nl @ sp_amz_date p @ nl @ scope p @ nl
            @ hex (sha (str_bytes canonical_request));
          key = hmac_sha256 hmac (str_bytes (''AWS4'' @ secret_key p)) (take 8 (sp_amz_date p));
          key = foldl (hmac_sha256 hmac) key [region p, ''s3'', ''aws4_request'']
      in hex (hmac_sha256 hmac key string_to_sign))"

definition authorization_header :: "(bytes \<Rightarrow> bytes) \<Rightarrow> (bytes \<Rightarrow> bytes \<Rightarrow> bytes) \<Rightarrow> signing_params
    \<Rightarrow> string \<Rightarrow> string \<Rightarrow> string \<Rightarrow> string \<Rightarrow> string" where
  "authorization_header sha hmac p method host canonical_uri payload_sha256_hex =
     (let canonical_request = method @ nl @ canonical_uri @ nl @ nl @ ''host:'' @ host @ nl
            @ ''x-amz-content-sha256:'' @ payload_sha256_hex @ nl
            @ ''x-amz-date:'' @ sp_amz_date p @ nl @ nl
            @ ''host;x-amz-content-sha256;x-amz-date'' @ nl @ payload_sha256_hex;
          signature = sign sha hmac p canonical_request
      in ''AWS4-HMAC-SHA256 Credential='' @ access_key p @ ''/'' @ scope p
         @ '', SignedHeaders=host;x-amz-content-sha256;x-amz-date, Signature='' @ signature)"

definition unreserved :: "char \<Rightarrow> bool" where
  "unreserved c \<longleftrightarrow> is_alnum c \<or> c \<in> set ''-._~''"

definition percent :: "char \<Rightarrow> string" where
  "percent c = (let b = of_char c :: byte in
     [CHR ''%'', hex_digit ''0123456789ABCDEF'' (drop_bit 4 b),
      hex_digit ''0123456789ABCDEF'' (b AND 0x0f)])"

definition uri_encode :: "string \<Rightarrow> string" where
  "uri_encode s = concat (map (\<lambda>c. if unreserved c then [c] else percent c) s)"

definition presigned_get_url :: "(bytes \<Rightarrow> bytes) \<Rightarrow> (bytes \<Rightarrow> bytes \<Rightarrow> bytes) \<Rightarrow> signing_params
    \<Rightarrow> string \<Rightarrow> string \<Rightarrow> string \<Rightarrow> nat \<Rightarrow> string" where
  "presigned_get_url sha hmac p endpoint host canonical_uri expires_secs =
     (let query = ''X-Amz-Algorithm=AWS4-HMAC-SHA256&X-Amz-Credential=''
            @ uri_encode (access_key p @ ''/'' @ scope p)
            @ ''&X-Amz-Date='' @ sp_amz_date p
            @ ''&X-Amz-Expires='' @ show_nat expires_secs @ ''&X-Amz-SignedHeaders=host'';
          canonical_request = ''GET'' @ nl @ canonical_uri @ nl @ query @ nl
            @ ''host:'' @ host @ nl @ nl @ ''host'' @ nl @ ''UNSIGNED-PAYLOAD'';
          signature = sign sha hmac p canonical_request
      in endpoint @ canonical_uri @ ''?'' @ query @ ''&X-Amz-Signature='' @ signature)"

definition civil_from_days :: "nat \<Rightarrow> nat \<times> nat \<times> nat" where
  "civil_from_days ds =
     (let z = ds + 719468;
          era = z div 146097;
          doe = z mod 146097;
          yoe = (doe - doe div 1460 + doe div 36524 - doe div 146096) div 365;
          y = yoe + era * 400;
          doy = doe - (365 * yoe + yoe div 4 - yoe div 100);
          mp = (5 * doy + 2) div 153;
          d = doy - (153 * mp + 2) div 5 + 1;
          m = (if mp < 10 then mp + 3 else mp - 9)
      in (if m \<le> 2 then y + 1 else y, m, d))"

definition pad0 :: "nat \<Rightarrow> string \<Rightarrow> string" where
  "pad0 w s = replicate (w - length s) (CHR ''0'') @ s"

definition amz_date :: "nat \<Rightarrow> string" where
  "amz_date unix_secs =
     (let ds = unix_secs div 86400; tod = unix_secs mod 86400; (y, m, d) = civil_from_days ds
      in pad0 4 (show_nat y) @ pad0 2 (show_nat m) @ pad0 2 (show_nat d) @ ''T''
         @ pad0 2 (show_nat (tod div 3600)) @ pad0 2 (show_nat (tod mod 3600 div 60))
         @ pad0 2 (show_nat (tod mod 60)) @ ''Z'')"

section \<open>Percent-decoding\<close>

definition unhex :: "char \<Rightarrow> nat option" where
  "unhex c = (if is_digit c then Some (of_char c - 48)
     else if CHR ''A'' \<le> c \<and> c \<le> CHR ''F'' then Some (of_char c - 55)
     else if CHR ''a'' \<le> c \<and> c \<le> CHR ''f'' then Some (of_char c - 87)
     else None)"

fun uri_decode :: "string \<Rightarrow> string option" where
  "uri_decode [] = Some []"
| "uri_decode (c # s) =
     (if c = CHR ''%'' then
        (case s of a # b # s' \<Rightarrow>
           (case (unhex a, unhex b, uri_decode s') of
              (Some x, Some y, Some r) \<Rightarrow> Some (char_of (16 * x + y) # r)
            | _ \<Rightarrow> None)
         | _ \<Rightarrow> None)
      else map_option (Cons c) (uri_decode s))"

lemma nibble_values: "unat (drop_bit 4 (b :: byte)) = unat b div 16"
    "unat (b AND 0x0f :: byte) = unat b mod 16"
proof -
  have "b AND 0x0f = take_bit 4 b" by (simp add: take_bit_eq_mask mask_eq_exp_minus_1)
  then show "unat (b AND 0x0f) = unat b mod 16"
    by (simp add: take_bit_eq_mod unat_mod)
  show "unat (drop_bit 4 b) = unat b div 16"
    by (simp add: drop_bit_eq_div unat_div)
qed

lemma unat_byte_lt: "unat (b :: byte) < 256"
  using unsigned_less[of b] by simp

lemma nibble_lt: "unat (drop_bit 4 (b :: byte)) < 16" "unat (b AND 0x0f :: byte) < 16"
  using unat_byte_lt[of b] by (auto simp: nibble_values)

lemma nibbles: "16 * unat (drop_bit 4 b) + unat (b AND 0x0f) = unat (b :: byte)"
  by (simp add: nibble_values)

lemma unat_of_char_byte [simp]: "unat (of_char c :: byte) = of_char c"
proof -
  have "(of_char c :: byte) = of_nat (of_char c)" by (simp only: of_nat_of_char)
  then show ?thesis by (simp only: unat_of_nat) (simp add: take_bit_eq_mod)
qed

lemma unhex_upper: "n < 16 \<Longrightarrow> unhex (''0123456789ABCDEF'' ! n) = Some n"
proof -
  have "\<forall>n\<in>set [0..<16]. unhex (''0123456789ABCDEF'' ! n) = Some n" by code_simp
  then show "n < 16 \<Longrightarrow> ?thesis" by simp
qed

lemma unhex_lower: "n < 16 \<Longrightarrow> unhex (''0123456789abcdef'' ! n) = Some n"
proof -
  have "\<forall>n\<in>set [0..<16]. unhex (''0123456789abcdef'' ! n) = Some n" by code_simp
  then show "n < 16 \<Longrightarrow> ?thesis" by simp
qed

lemma uri_decode_percent: "uri_decode (percent c @ s) = map_option (Cons c) (uri_decode s)"
  by (simp add: percent_def Let_def hex_digit_def unhex_upper nibble_lt nibbles split: option.split)

lemma uri_decode_encode: "uri_decode (uri_encode s @ r) = map_option ((@) s) (uri_decode r)"
proof (induction s)
  case (Cons c s)
  have "c \<noteq> CHR ''%''" if "unreserved c"
    using that by (auto simp: unreserved_def is_alnum_def is_alpha_def is_upper_def is_lower_def
        is_digit_def less_eq_char_def)
  with Cons show ?case
    by (auto simp: uri_encode_def uri_decode_percent option.map_comp o_def)
qed (simp add: uri_encode_def option.map_ident)

lemma uri_encode_chars: "set (uri_encode s) \<subseteq> {c. unreserved c} \<union> {CHR ''%''}"
proof -
  have hexd: "unreserved (''0123456789ABCDEF'' ! n)" if "n < 16" for n
  proof -
    have "\<forall>n\<in>set [0..<16]. unreserved (''0123456789ABCDEF'' ! n)" by code_simp
    with that show ?thesis by simp
  qed
  show ?thesis
    by (induction s) (auto simp: uri_encode_def percent_def Let_def hex_digit_def hexd nibble_lt)
qed

section \<open>Hexadecimal\<close>

lemma hex_Cons: "hex (b # bs) = hex_digit ''0123456789abcdef'' (drop_bit 4 b)
    # hex_digit ''0123456789abcdef'' (b AND 0x0f) # hex bs"
  by (simp add: hex_def)

lemma hex_Nil [simp]: "hex [] = []"
  by (simp add: hex_def)

lemma length_hex [simp]: "length (hex bs) = 2 * length bs"
  by (induction bs) (auto simp: hex_Cons)

fun unhex_bytes :: "string \<Rightarrow> bytes option" where
  "unhex_bytes [] = Some []"
| "unhex_bytes [c] = None"
| "unhex_bytes (a # b # s) = (case (unhex a, unhex b, unhex_bytes s) of
     (Some x, Some y, Some r) \<Rightarrow> Some (of_nat (16 * x + y) # r) | _ \<Rightarrow> None)"

lemma unhex_bytes_hex [simp]: "unhex_bytes (hex bs) = Some bs"
proof (induction bs)
  case (Cons b bs)
  have "of_nat (16 * unat (drop_bit 4 b) + unat (b AND 0x0f)) = b"
    by (simp only: nibbles) simp
  with Cons show ?case by (simp add: hex_Cons hex_digit_def unhex_lower nibble_lt del: of_nat_add of_nat_mult)
qed simp

lemma hex_inject [simp]: "hex a = hex b \<longleftrightarrow> a = b"
  by (metis option.inject unhex_bytes_hex)

lemma hex_digit_in: "unat n < 16 \<Longrightarrow> length ds = 16 \<Longrightarrow> hex_digit ds n \<in> set ds"
  unfolding hex_digit_def by (rule nth_mem) simp

lemma hex_alphabet: "set (hex bs) \<subseteq> set ''0123456789abcdef''"
proof (induction bs)
  case (Cons b bs)
  have len: "length ''0123456789abcdef'' = 16" by simp
  have two: "set (x # y # zs) \<subseteq> S" if "x \<in> S" "y \<in> S" "set zs \<subseteq> S" for x y :: char and zs S
    using that by simp
  show ?case unfolding hex_Cons
    by (rule two[OF hex_digit_in[OF nibble_lt(1) len] hex_digit_in[OF nibble_lt(2) len] Cons.IH])
qed simp

section \<open>Properties\<close>

text \<open>Percent-encoding loses nothing and its output is made of unreserved characters and
  percent signs only, so a credential put in a presigned URL's query is read back unchanged.\<close>

theorem uri_encode_roundtrip:
  "uri_decode (uri_encode s) = Some s \<and> set (uri_encode s) \<subseteq> {c. unreserved c} \<union> {CHR ''%''}"
  using uri_decode_encode[of s "[]"] uri_encode_chars by simp

end
