(* ===== verification/Cas.thy ===== *)
theory Cas
  imports SigV4
begin

text \<open>
  The content-addressed blob store of \<open>crates/sconce-cas/src/lib.rs\<close> and \<open>s3.rs\<close>. The locale
  \<open>blob_store\<close> is the trait's contract as its users rely on it. The filesystem backend runs
  system calls against a map of files, any of which may fail (\<open>fault\<close>, a failing write also
  leaves a prefix behind, \<open>short\<close>); it meets the contract whatever fails. The S3 backend sends
  requests to a service given by \<open>http\<close>; it meets the contract over any service that keeps
  \<open>bucket_service\<close>, the documented behaviour of an object store. SHA-256 is the parameter \<open>sha\<close>.
\<close>

type_synonym io_error = string

section \<open>The contract\<close>

locale blob_store =
  fixes put :: "'s \<Rightarrow> bytes \<Rightarrow> (io_error, bytes) result \<times> 's"
    and exists :: "'s \<Rightarrow> bytes \<Rightarrow> (io_error, bool) result \<times> 's"
    and get :: "'s \<Rightarrow> bytes \<Rightarrow> (io_error, bytes option) result \<times> 's"
    and delete :: "'s \<Rightarrow> bytes \<Rightarrow> (io_error, unit) result \<times> 's"
    and digest :: "bytes \<Rightarrow> bytes"
    and contents :: "'s \<Rightarrow> bytes \<Rightarrow> bytes option"
  assumes put_ok: "put s b = (Inr i, s') \<Longrightarrow> i = digest b \<and> contents s' i \<noteq> None"
    and put_frame: "put s b = (r, s') \<Longrightarrow>
      contents s' j = contents s j \<or> j = digest b \<and> contents s' j = Some b"
    and exists_frame: "exists s i = (re, s') \<Longrightarrow> contents s' = contents s"
    and exists_ok: "exists s i = (Inr b0, s') \<Longrightarrow> b0 = (contents s i \<noteq> None)"
    and get_frame: "get s i = (rg, s') \<Longrightarrow> contents s' = contents s"
    and get_ok: "get s i = (Inr x, s') \<Longrightarrow> x = contents s i"
    and delete_frame: "delete s i = (rd, s') \<Longrightarrow>
      contents s' j = contents s j \<or> j = i \<and> contents s' j = None"
    and delete_ok: "delete s i = (Inr u, s') \<Longrightarrow> contents s' i = None"
begin

definition integrity :: "'s \<Rightarrow> bool" where
  "integrity s \<longleftrightarrow> (\<forall>i b. contents s i = Some b \<longrightarrow> digest b = i)"

lemma integrity_put: "put s b = (r, s') \<Longrightarrow> integrity s \<Longrightarrow> integrity s'"
  unfolding integrity_def using put_frame by (metis option.inject)

lemma integrity_exists: "exists s i = (r, s') \<Longrightarrow> integrity s \<Longrightarrow> integrity s'"
  unfolding integrity_def using exists_frame by metis

lemma integrity_get: "get s i = (r, s') \<Longrightarrow> integrity s \<Longrightarrow> integrity s'"
  unfolding integrity_def using get_frame by metis

lemma integrity_delete: "delete s i = (r, s') \<Longrightarrow> integrity s \<Longrightarrow> integrity s'"
  unfolding integrity_def using delete_frame by (metis option.distinct(1))

lemma get_after_put:
  assumes "integrity s" "put s b = (Inr i, s')" "get s' i = (Inr x, s'')"
  shows "\<exists>c. x = Some c \<and> digest c = digest b"
proof -
  have "integrity s'" by (rule integrity_put[OF assms(2,1)])
  moreover have "i = digest b" "contents s' i \<noteq> None" using put_ok[OF assms(2)] by auto
  ultimately show ?thesis using get_ok[OF assms(3)] by (auto simp: integrity_def)
qed

lemma get_after_delete:
  "delete s i = (Inr u, s') \<Longrightarrow> get s' i = (Inr x, s'') \<Longrightarrow> x = None"
  using delete_ok get_ok by metis

lemma put_keeps: "put s b = (r, s') \<Longrightarrow> contents s j \<noteq> None \<Longrightarrow> contents s' j \<noteq> None"
  using put_frame by (metis option.distinct(1))

end

section \<open>Blob ids\<close>

definition blob_id_of :: "(bytes \<Rightarrow> bytes) \<Rightarrow> bytes \<Rightarrow> bytes" where
  "blob_id_of sha bs = sha bs"

definition to_hex :: "bytes \<Rightarrow> string" where
  "to_hex blob = hex blob"

section \<open>Filesystem backend\<close>

record fs =
  fs_files :: "string \<Rightarrow> bytes option"
  fs_tick :: nat
  fs_tmp :: nat

text \<open>\<open>PathBuf::join\<close> with a relative component.\<close>

definition path_join :: "string \<Rightarrow> string \<Rightarrow> string" where
  "path_join p c = (if p = [] \<or> last p = CHR ''/'' then p @ c else p @ CHR ''/'' # c)"

definition paths_for :: "string \<Rightarrow> bytes \<Rightarrow> string \<times> string" where
  "paths_for root blob =
     (let h = to_hex blob;
          dir = path_join (path_join root (take 2 h)) (take 2 (drop 2 h))
      in (dir, path_join dir h))"

text \<open>One system call: does it fail, and the clock it advances.\<close>

definition syscall :: "(nat \<Rightarrow> bool) \<Rightarrow> fs \<Rightarrow> bool \<times> fs" where
  "syscall fault s = (fault (fs_tick s), s\<lparr>fs_tick := Suc (fs_tick s)\<rparr>)"

definition set_file :: "string \<Rightarrow> bytes option \<Rightarrow> fs \<Rightarrow> fs" where
  "set_file p c s = s\<lparr>fs_files := (fs_files s)(p := c)\<rparr>"

definition fs_rename :: "string \<Rightarrow> string \<Rightarrow> fs \<Rightarrow> fs" where
  "fs_rename from to s = s\<lparr>fs_files := (fs_files s)(to := fs_files s from, from := None)\<rparr>"

definition tmp_path :: "nat \<Rightarrow> string \<Rightarrow> nat \<Rightarrow> string" where
  "tmp_path pid dir n = path_join dir (''.tmp-'' @ show_nat pid @ ''-'' @ show_nat n)"

definition fs_put :: "(bytes \<Rightarrow> bytes) \<Rightarrow> (nat \<Rightarrow> bool) \<Rightarrow> (nat \<Rightarrow> nat) \<Rightarrow> nat \<Rightarrow> string \<Rightarrow> fs
    \<Rightarrow> bytes \<Rightarrow> (io_error, bytes) result \<times> fs" where
  "fs_put sha fault short pid root s bs =
     (let blob = blob_id_of sha bs;
          (dir, final) = paths_for root blob;
          (err, s) = syscall fault s
      in if \<not> err \<and> fs_files s final \<noteq> None then (Inr blob, s)
      else
     (let (err, s) = syscall fault s
      in if err then (Inl ''create_dir_all'', s)
      else
     (let n = fs_tmp s; s = s\<lparr>fs_tmp := Suc n\<rparr>;
          tmp = tmp_path pid dir n;
          (err, s) = syscall fault s
      in if err then (Inl ''create'', s)
      else
     (let s = set_file tmp (Some []) s;
          k = short (fs_tick s);
          (err, s) = syscall fault s
      in if err then (Inl ''write_all'', set_file tmp (Some (take k bs)) s)
      else
     (let s = set_file tmp (Some bs) s;
          (err, s) = syscall fault s
      in if err then (Inl ''sync_all'', s)
      else
     (let (err, s) = syscall fault s
      in if \<not> err then (Inr blob, fs_rename tmp final s)
      else
     (let (err, s) = syscall fault s
      in (Inl ''rename'', if err then s else set_file tmp None s))))))))"

definition fs_exists :: "(nat \<Rightarrow> bool) \<Rightarrow> string \<Rightarrow> fs \<Rightarrow> bytes \<Rightarrow> (io_error, bool) result \<times> fs" where
  "fs_exists fault root s blob =
     (let (err, s) = syscall fault s
      in (if err then Inl ''try_exists'' else Inr (fs_files s (snd (paths_for root blob)) \<noteq> None), s))"

definition fs_get :: "(nat \<Rightarrow> bool) \<Rightarrow> string \<Rightarrow> fs \<Rightarrow> bytes
    \<Rightarrow> (io_error, bytes option) result \<times> fs" where
  "fs_get fault root s blob =
     (let (err, s) = syscall fault s
      in (if err then Inl ''read'' else Inr (fs_files s (snd (paths_for root blob))), s))"

definition fs_delete :: "(nat \<Rightarrow> bool) \<Rightarrow> string \<Rightarrow> fs \<Rightarrow> bytes \<Rightarrow> (io_error, unit) result \<times> fs" where
  "fs_delete fault root s blob =
     (let (err, s) = syscall fault s; final = snd (paths_for root blob)
      in if err then (Inl ''remove_file'', s)
         else (Inr (), set_file final None s))"

definition fs_contents :: "string \<Rightarrow> fs \<Rightarrow> bytes \<Rightarrow> bytes option" where
  "fs_contents root s blob = fs_files s (snd (paths_for root blob))"

subsection \<open>Paths\<close>

lemma hex_no_slash: "CHR ''/'' \<notin> set (hex b)"
proof -
  have "CHR ''/'' \<notin> set ''0123456789abcdef''" by code_simp
  then show ?thesis using hex_alphabet by blast
qed

lemma hex_no_dot: "CHR ''.'' \<notin> set (hex b)"
proof -
  have "CHR ''.'' \<notin> set ''0123456789abcdef''" by code_simp
  then show ?thesis using hex_alphabet by blast
qed

definition file_name :: "string \<Rightarrow> string" where
  "file_name p = (case rsplit_once (CHR ''/'') p of None \<Rightarrow> p | Some (d, c) \<Rightarrow> c)"

lemma file_name_join [simp]:
  assumes "CHR ''/'' \<notin> set c"
  shows "file_name (path_join p c) = c"
proof (cases "p = []")
  case True
  then have "rsplit_once (CHR ''/'') c = None" using assms by (simp add: rsplit_once_None)
  then show ?thesis using True by (simp add: file_name_def path_join_def)
next
  case False
  have "\<exists>r. path_join p c = r @ CHR ''/'' # c"
  proof (cases "last p = CHR ''/''")
    case True
    then have "p = butlast p @ [CHR ''/'']" using False by (metis append_butlast_last_id)
    then have "path_join p c = butlast p @ CHR ''/'' # c"
      using True by (metis append.assoc append_Cons append_Nil path_join_def)
    then show ?thesis ..
  qed (simp add: path_join_def False)
  then obtain r where "rsplit_once (CHR ''/'') (path_join p c) = Some (r, c)"
    using assms by (auto simp: rsplit_once_Some)
  then show ?thesis by (simp add: file_name_def)
qed

lemma final_name [simp]: "file_name (snd (paths_for root b)) = hex b"
  by (simp add: paths_for_def Let_def to_hex_def hex_no_slash)

lemma final_inject [simp]: "snd (paths_for root b) = snd (paths_for root c) \<longleftrightarrow> b = c"
  by (metis final_name hex_inject)

lemma show_nat_digits: "set (show_nat n) \<subseteq> {c. is_digit c}"
proof (induction n rule: show_nat.induct)
  case (1 n)
  have d: "is_digit (char_of (48 + k))" if "k < 10" for k :: nat
  proof -
    have "\<forall>k\<in>set [0..<10]. is_digit (char_of (48 + k :: nat))" by code_simp
    with that show ?thesis by simp
  qed
  show ?case using 1 d by (subst show_nat.simps) auto
qed

lemma tmp_not_final [simp]: "tmp_path pid dir n \<noteq> snd (paths_for root b)"
proof
  assume eq: "tmp_path pid dir n = snd (paths_for root b)"
  have "CHR ''/'' \<notin> set (show_nat k)" for k
    using show_nat_digits[of k] by (auto simp: is_digit_def less_eq_char_def)
  then have "file_name (tmp_path pid dir n) = ''.tmp-'' @ show_nat pid @ ''-'' @ show_nat n"
    by (simp add: tmp_path_def)
  with eq have "hex b = ''.tmp-'' @ show_nat pid @ ''-'' @ show_nat n" by simp
  then show False using hex_no_dot[of b] by simp
qed

lemma final_not_tmp [simp]: "snd (paths_for root b) \<noteq> tmp_path pid dir n"
  using tmp_not_final by metis

lemmas fs_simps = Let_def syscall_def set_file_def fs_rename_def fs_contents_def

text \<open>A put leaves every object as it was, or adds the complete blob under its id.\<close>

lemma fs_put_contents:
  assumes "fs_put sha fault short pid root s bs = (r, s')"
  shows "fs_contents root s' j = fs_contents root s j \<or>
    j = sha bs \<and> fs_contents root s' j = Some bs"
  using assms unfolding fs_put_def
  by (auto simp: fs_simps split_def blob_id_of_def split: if_splits)

lemma fs_put_present:
  assumes "fs_put sha fault short pid root s bs = (Inr i, s')"
  shows "i = sha bs \<and> fs_contents root s' i \<noteq> None"
  using assms unfolding fs_put_def
  by (auto simp: fs_simps split_def blob_id_of_def split: if_splits)

interpretation fs: blob_store "fs_put sha fault short pid root" "fs_exists fault root"
    "fs_get fault root" "fs_delete fault root" sha "fs_contents root"
  for sha fault short pid root
proof unfold_locales
qed (auto dest: fs_put_present fs_put_contents
    simp: fs_exists_def fs_get_def fs_delete_def fs_simps split: if_splits)

section \<open>S3 backend\<close>

record s3_config =
  endpoint :: string
  cfg_region :: string
  bucket :: string
  cfg_prefix :: string
  cfg_access_key :: string
  cfg_secret_key :: string

definition env_var :: "(string \<Rightarrow> string option) \<Rightarrow> string \<Rightarrow> string option" where
  "env_var env name = (case env name of None \<Rightarrow> None | Some v \<Rightarrow> if trim v = [] then None else Some v)"

definition env_require :: "(string \<Rightarrow> string option) \<Rightarrow> string \<Rightarrow> (io_error, string) result" where
  "env_require env name = ok_or (''SCONCE_S3_BUCKET is set but '' @ name @ '' is missing'') (env_var env name)"

definition s3_from_env :: "(string \<Rightarrow> string option) \<Rightarrow> (io_error, s3_config option) result" where
  "s3_from_env env = (case env_var env ''SCONCE_S3_BUCKET'' of
     None \<Rightarrow> Inr None
   | Some b \<Rightarrow>
       and_then (env_require env ''SCONCE_S3_ENDPOINT'') (\<lambda>ep.
       and_then (env_require env ''SCONCE_S3_ACCESS_KEY'') (\<lambda>ak.
       and_then (env_require env ''SCONCE_S3_SECRET_KEY'') (\<lambda>sk.
         Inr (Some \<lparr>endpoint = trim_end_char (CHR ''/'') ep,
           cfg_region = (case env_var env ''SCONCE_S3_REGION'' of None \<Rightarrow> ''auto'' | Some r \<Rightarrow> r),
           bucket = b,
           cfg_prefix = (case env_var env ''SCONCE_S3_PREFIX'' of None \<Rightarrow> ''blobs/'' | Some r \<Rightarrow> r),
           cfg_access_key = ak, cfg_secret_key = sk\<rparr>)))))"

record s3_store =
  cfg :: s3_config
  s3_host :: string

definition s3_new :: "s3_config \<Rightarrow> (io_error, s3_store) result" where
  "s3_new c =
     (let stripped = (case strip_prefix ''https://'' (endpoint c) of
            Some h \<Rightarrow> Some h | None \<Rightarrow> strip_prefix ''http://'' (endpoint c))
      in case stripped of
           None \<Rightarrow> Inl ''SCONCE_S3_ENDPOINT must be scheme://host[:port] with no path''
         | Some h \<Rightarrow> if h \<noteq> [] \<and> CHR ''/'' \<notin> set h then Inr \<lparr>cfg = c, s3_host = h\<rparr>
             else Inl ''SCONCE_S3_ENDPOINT must be scheme://host[:port] with no path'')"

definition s3_canonical_uri :: "s3_store \<Rightarrow> bytes \<Rightarrow> string" where
  "s3_canonical_uri st blob = ''/'' @ bucket (cfg st) @ ''/'' @ cfg_prefix (cfg st) @ to_hex blob"

definition s3_url :: "s3_store \<Rightarrow> bytes \<Rightarrow> string" where
  "s3_url st blob = endpoint (cfg st) @ s3_canonical_uri st blob"

definition s3_params :: "s3_store \<Rightarrow> string \<Rightarrow> signing_params" where
  "s3_params st date = \<lparr>access_key = cfg_access_key (cfg st), secret_key = cfg_secret_key (cfg st),
     region = cfg_region (cfg st), sp_amz_date = date\<rparr>"

text \<open>A signed request and what the HTTP client answers: a success with its body, a success
  whose body cannot be read, a status of 400 or more, a transport failure.\<close>

record s3_request =
  rq_method :: string
  rq_url :: string
  rq_headers :: "(string \<times> string) list"

datatype http_reply = Reply bytes | Broken | Status nat string | Transport string

type_synonym 'w http = "'w \<Rightarrow> s3_request \<Rightarrow> bytes \<Rightarrow> http_reply \<times> 'w"

definition s3_request_for :: "(bytes \<Rightarrow> bytes) \<Rightarrow> (bytes \<Rightarrow> bytes \<Rightarrow> bytes) \<Rightarrow> nat \<Rightarrow> s3_store
    \<Rightarrow> string \<Rightarrow> bytes \<Rightarrow> string \<Rightarrow> s3_request" where
  "s3_request_for sha hmac now st method blob payload_hex =
     (let date = amz_date now;
          auth = authorization_header sha hmac (s3_params st date) method (s3_host st)
                   (s3_canonical_uri st blob) payload_hex
      in \<lparr>rq_method = method, rq_url = s3_url st blob,
          rq_headers = [(''x-amz-date'', date), (''x-amz-content-sha256'', payload_hex),
                        (''authorization'', auth)]\<rparr>)"

definition s3_presigned_get :: "(bytes \<Rightarrow> bytes) \<Rightarrow> (bytes \<Rightarrow> bytes \<Rightarrow> bytes) \<Rightarrow> nat \<Rightarrow> s3_store
    \<Rightarrow> bytes \<Rightarrow> nat \<Rightarrow> string" where
  "s3_presigned_get sha hmac now st blob expires_secs =
     presigned_get_url sha hmac (s3_params st (amz_date now)) (endpoint (cfg st)) (s3_host st)
       (s3_canonical_uri st blob) expires_secs"

definition EMPTY_PAYLOAD_SHA256 :: string where
  "EMPTY_PAYLOAD_SHA256 = ''e3b0c44298fc1c149afbf4c8996fb92427ae41e4649b934ca495991b7852b855''"

fun classify :: "string \<Rightarrow> http_reply \<Rightarrow> (io_error, unit) result" where
  "classify op (Status code body) = (if code = 404 then Inr ()
     else Inl (''S3 '' @ op @ '' failed with '' @ show_nat code @ '': '' @ trim body))"
| "classify op (Transport t) = Inl (''S3 '' @ op @ '' transport: '' @ t)"
| "classify op _ = Inr ()"

definition reply_ok :: "http_reply \<Rightarrow> bool" where
  "reply_ok r = (case r of Reply _ \<Rightarrow> True | Broken \<Rightarrow> True | _ \<Rightarrow> False)"

definition s3_exists :: "(bytes \<Rightarrow> bytes) \<Rightarrow> (bytes \<Rightarrow> bytes \<Rightarrow> bytes) \<Rightarrow> nat \<Rightarrow> 'w http \<Rightarrow> s3_store
    \<Rightarrow> 'w \<Rightarrow> bytes \<Rightarrow> (io_error, bool) result \<times> 'w" where
  "s3_exists sha hmac now http st w blob =
     (let (r, w) = http w (s3_request_for sha hmac now st ''HEAD'' blob EMPTY_PAYLOAD_SHA256) []
      in (if reply_ok r then Inr True else and_then (classify ''HEAD'' r) (\<lambda>_. Inr False), w))"

definition s3_put :: "(bytes \<Rightarrow> bytes) \<Rightarrow> (bytes \<Rightarrow> bytes \<Rightarrow> bytes) \<Rightarrow> nat \<Rightarrow> 'w http \<Rightarrow> s3_store
    \<Rightarrow> 'w \<Rightarrow> bytes \<Rightarrow> (io_error, bytes) result \<times> 'w" where
  "s3_put sha hmac now http st w bs =
     (let blob = blob_id_of sha bs; (e, w) = s3_exists sha hmac now http st w blob
      in case e of Inl err \<Rightarrow> (Inl err, w)
         | Inr True \<Rightarrow> (Inr blob, w)
         | Inr False \<Rightarrow>
            (let rq = s3_request_for sha hmac now st ''PUT'' blob (to_hex blob);
                 rq = rq\<lparr>rq_headers := rq_headers rq @ [(''content-type'', ''application/octet-stream'')]\<rparr>;
                 (r, w) = http w rq bs
             in (if reply_ok r then Inr blob
                 else and_then (classify ''PUT'' r)
                   (\<lambda>_. Inl ''S3 PUT returned 404 - does the bucket exist?''), w)))"

definition s3_get :: "(bytes \<Rightarrow> bytes) \<Rightarrow> (bytes \<Rightarrow> bytes \<Rightarrow> bytes) \<Rightarrow> nat \<Rightarrow> 'w http \<Rightarrow> s3_store
    \<Rightarrow> 'w \<Rightarrow> bytes \<Rightarrow> (io_error, bytes option) result \<times> 'w" where
  "s3_get sha hmac now http st w blob =
     (let (r, w) = http w (s3_request_for sha hmac now st ''GET'' blob EMPTY_PAYLOAD_SHA256) []
      in (case r of Reply bs \<Rightarrow> Inr (Some bs) | Broken \<Rightarrow> Inl ''read''
          | _ \<Rightarrow> and_then (classify ''GET'' r) (\<lambda>_. Inr None), w))"

definition s3_delete :: "(bytes \<Rightarrow> bytes) \<Rightarrow> (bytes \<Rightarrow> bytes \<Rightarrow> bytes) \<Rightarrow> nat \<Rightarrow> 'w http \<Rightarrow> s3_store
    \<Rightarrow> 'w \<Rightarrow> bytes \<Rightarrow> (io_error, unit) result \<times> 'w" where
  "s3_delete sha hmac now http st w blob =
     (let (r, w) = http w (s3_request_for sha hmac now st ''DELETE'' blob EMPTY_PAYLOAD_SHA256) []
      in (if reply_ok r then Inr () else classify ''DELETE'' r, w))"

subsection \<open>The documented service\<close>

definition bucket_service :: "'w http \<Rightarrow> ('w \<Rightarrow> string \<Rightarrow> bytes option) \<Rightarrow> bool" where
  "bucket_service http objs \<longleftrightarrow> (\<forall>w rq body r w'. http w rq body = (r, w') \<longrightarrow>
     (rq_method rq \<in> {''GET'', ''HEAD''} \<longrightarrow> objs w' = objs w \<and>
        (\<forall>bs. r = Reply bs \<and> rq_method rq = ''GET'' \<longrightarrow> objs w (rq_url rq) = Some bs) \<and>
        (reply_ok r \<longrightarrow> objs w (rq_url rq) \<noteq> None) \<and>
        (\<forall>m. r = Status 404 m \<longrightarrow> objs w (rq_url rq) = None)) \<and>
     (rq_method rq = ''PUT'' \<longrightarrow>
        (\<forall>u. objs w' u = objs w u \<or> u = rq_url rq \<and> objs w' u = Some body) \<and>
        (reply_ok r \<longrightarrow> objs w' (rq_url rq) = Some body)) \<and>
     (rq_method rq = ''DELETE'' \<longrightarrow>
        (\<forall>u. objs w' u = objs w u \<or> u = rq_url rq \<and> objs w' u = None) \<and>
        (reply_ok r \<or> (\<exists>m. r = Status 404 m) \<longrightarrow> objs w' (rq_url rq) = None)))"

lemma request_fields [simp]:
  "rq_method (s3_request_for sha hmac now st m b h) = m"
  "rq_url (s3_request_for sha hmac now st m b h) = s3_url st b"
  by (simp_all add: s3_request_for_def Let_def)

lemma s3_url_inject [simp]: "s3_url st b = s3_url st c \<longleftrightarrow> b = c"
  by (simp add: s3_url_def s3_canonical_uri_def to_hex_def)

lemma classify_ok: "classify op r = Inr u \<longleftrightarrow> reply_ok r \<or> (\<exists>m. r = Status 404 m)"
  by (cases r) (auto simp: reply_ok_def)

lemma bucket_read:
  assumes "bucket_service http objs" "http w rq body = (r, w')" "rq_method rq \<in> {''GET'', ''HEAD''}"
  shows "objs w' = objs w" "r = Reply bs \<Longrightarrow> rq_method rq = ''GET'' \<Longrightarrow> objs w (rq_url rq) = Some bs"
    "reply_ok r \<Longrightarrow> objs w (rq_url rq) \<noteq> None" "r = Status 404 m \<Longrightarrow> objs w (rq_url rq) = None"
  using assms unfolding bucket_service_def by blast+

lemma bucket_put:
  assumes "bucket_service http objs" "http w rq body = (r, w')" "rq_method rq = ''PUT''"
  shows "objs w' u = objs w u \<or> u = rq_url rq \<and> objs w' u = Some body"
    "reply_ok r \<Longrightarrow> objs w' (rq_url rq) = Some body"
  using assms unfolding bucket_service_def by blast+

lemma bucket_delete:
  assumes "bucket_service http objs" "http w rq body = (r, w')" "rq_method rq = ''DELETE''"
  shows "objs w' u = objs w u \<or> u = rq_url rq \<and> objs w' u = None"
    "reply_ok r \<Longrightarrow> objs w' (rq_url rq) = None" "r = Status 404 m \<Longrightarrow> objs w' (rq_url rq) = None"
  using assms unfolding bucket_service_def by blast+

lemma s3_exists_spec:
  assumes "bucket_service http objs" "s3_exists sha hmac now http st w i = (r, w')"
  shows "objs w' = objs w \<and> (\<forall>x. r = Inr x \<longrightarrow> x = (objs w (s3_url st i) \<noteq> None))"
proof -
  let ?rq = "s3_request_for sha hmac now st ''HEAD'' i EMPTY_PAYLOAD_SHA256"
  obtain p w1 where h: "http w ?rq [] = (p, w1)" by fastforce
  show ?thesis
    using assms(2) h bucket_read[OF assms(1) h]
    by (auto simp: s3_exists_def and_then_Inr_iff classify_ok split: if_splits)
qed

lemma s3_put_spec:
  assumes "bucket_service http objs" "s3_put sha hmac now http st w bs = (r, w')"
  shows "(objs w' u = objs w u \<or> u = s3_url st (sha bs) \<and> objs w' u = Some bs)
     \<and> (\<forall>i. r = Inr i \<longrightarrow> i = sha bs \<and> objs w' (s3_url st i) \<noteq> None)"
proof -
  obtain e w1 where e: "s3_exists sha hmac now http st w (sha bs) = (e, w1)" by fastforce
  note ex = s3_exists_spec[OF assms(1) e]
  consider err where "e = Inl err" | "e = Inr True" | "e = Inr False" by (cases e) auto
  then show ?thesis
  proof cases
    case 3
    define rq where "rq = (s3_request_for sha hmac now st ''PUT'' (sha bs) (to_hex (sha bs)))
      \<lparr>rq_headers := rq_headers (s3_request_for sha hmac now st ''PUT'' (sha bs) (to_hex (sha bs)))
         @ [(''content-type'', ''application/octet-stream'')]\<rparr>"
    have m: "rq_method rq = ''PUT''" "rq_url rq = s3_url st (sha bs)" by (simp_all add: rq_def)
    obtain p w2 where h: "http w1 rq bs = (p, w2)" by fastforce
    have "(r, w') = (if reply_ok p then Inr (sha bs) else and_then (classify ''PUT'' p)
        (\<lambda>_. Inl ''S3 PUT returned 404 - does the bucket exist?''), w2)"
      using assms(2) e 3 h by (simp add: s3_put_def blob_id_of_def Let_def rq_def)
    then show ?thesis
      using bucket_put[OF assms(1) h m(1)] ex m by (auto simp: and_then_Inr_iff split: if_splits)
  qed (use assms(2) e ex in \<open>auto simp: s3_put_def blob_id_of_def\<close>)
qed

lemma s3_get_spec:
  assumes "bucket_service http objs" "s3_get sha hmac now http st w i = (r, w')"
  shows "objs w' = objs w \<and> (\<forall>x. r = Inr x \<longrightarrow> x = objs w (s3_url st i))"
proof -
  let ?rq = "s3_request_for sha hmac now st ''GET'' i EMPTY_PAYLOAD_SHA256"
  obtain p w1 where h: "http w ?rq [] = (p, w1)" by fastforce
  show ?thesis
    using assms(2) h bucket_read[OF assms(1) h]
    by (cases p) (auto simp: s3_get_def and_then_Inr_iff split: if_splits)
qed

lemma s3_delete_spec:
  assumes "bucket_service http objs" "s3_delete sha hmac now http st w i = (r, w')"
  shows "(objs w' u = objs w u \<or> u = s3_url st i \<and> objs w' u = None)
    \<and> (\<forall>x. r = Inr x \<longrightarrow> objs w' (s3_url st i) = None)"
proof -
  let ?rq = "s3_request_for sha hmac now st ''DELETE'' i EMPTY_PAYLOAD_SHA256"
  obtain p w1 where h: "http w ?rq [] = (p, w1)" by fastforce
  show ?thesis
    using assms(2) h bucket_delete[OF assms(1) h]
    by (auto simp: s3_delete_def classify_ok split: if_splits)
qed

definition s3_contents :: "('w \<Rightarrow> string \<Rightarrow> bytes option) \<Rightarrow> s3_store \<Rightarrow> 'w \<Rightarrow> bytes \<Rightarrow> bytes option" where
  "s3_contents objs st w i = objs w (s3_url st i)"

lemma s3_blob_store:
  assumes "bucket_service http objs"
  shows "blob_store (s3_put sha hmac now http st) (s3_exists sha hmac now http st)
    (s3_get sha hmac now http st) (s3_delete sha hmac now http st) sha (s3_contents objs st)"
proof unfold_locales
  fix s i b r s' j
  show "s3_put sha hmac now http st s b = (Inr i, s') \<Longrightarrow> i = sha b \<and> s3_contents objs st s' i \<noteq> None"
    using s3_put_spec[OF assms] unfolding s3_contents_def by metis
  show "s3_put sha hmac now http st s b = (r, s') \<Longrightarrow> s3_contents objs st s' j = s3_contents objs st s j
      \<or> j = sha b \<and> s3_contents objs st s' j = Some b"
    using s3_put_spec[OF assms, of sha hmac now st s b r s' "s3_url st j"]
    unfolding s3_contents_def by simp
next
  fix s i r x s'
  show "s3_exists sha hmac now http st s i = (r, s') \<Longrightarrow> s3_contents objs st s' = s3_contents objs st s"
    using s3_exists_spec[OF assms] unfolding s3_contents_def by metis
  show "s3_exists sha hmac now http st s i = (Inr x, s') \<Longrightarrow> x = (s3_contents objs st s i \<noteq> None)"
    using s3_exists_spec[OF assms] unfolding s3_contents_def by metis
next
  fix s i r x s'
  show "s3_get sha hmac now http st s i = (r, s') \<Longrightarrow> s3_contents objs st s' = s3_contents objs st s"
    using s3_get_spec[OF assms] unfolding s3_contents_def by metis
  show "s3_get sha hmac now http st s i = (Inr x, s') \<Longrightarrow> x = s3_contents objs st s i"
    using s3_get_spec[OF assms] unfolding s3_contents_def by metis
next
  fix s i r s' j u
  show "s3_delete sha hmac now http st s i = (r, s') \<Longrightarrow> s3_contents objs st s' j = s3_contents objs st s j
      \<or> j = i \<and> s3_contents objs st s' j = None"
    using s3_delete_spec[OF assms, of sha hmac now st s i r s' "s3_url st j"]
    unfolding s3_contents_def by simp
  show "s3_delete sha hmac now http st s i = (Inr u, s') \<Longrightarrow> s3_contents objs st s' i = None"
    using s3_delete_spec[OF assms] unfolding s3_contents_def by metis
qed

section \<open>The backend picked at startup\<close>

datatype any_store = FsStore string | S3Store s3_store

record 'w world =
  w_fs :: fs
  w_net :: 'w

fun open_any :: "(string \<Rightarrow> string option) \<Rightarrow> bool \<Rightarrow> string option \<Rightarrow> (io_error, any_store) result" where
  "open_any env create_fails dir = and_then (s3_from_env env) (\<lambda>c. case c of
      Some c \<Rightarrow> and_then (s3_new c) (\<lambda>st. Inr (S3Store st))
    | None \<Rightarrow> (case dir of
        Some d \<Rightarrow> if create_fails then Inl ''create_dir_all'' else Inr (FsStore d)
      | None \<Rightarrow> Inl ''no blob store configured''))"

record 'w runtime =
  rt_sha :: "bytes \<Rightarrow> bytes"
  rt_hmac :: "bytes \<Rightarrow> bytes \<Rightarrow> bytes"
  rt_now :: nat
  rt_http :: "'w http"
  rt_fault :: "nat \<Rightarrow> bool"
  rt_short :: "nat \<Rightarrow> nat"
  rt_pid :: nat

text \<open>Run an operation of one part of the world and put the part back.\<close>

definition on_part :: "('w \<Rightarrow> 's) \<Rightarrow> ('s \<Rightarrow> 'w \<Rightarrow> 'w) \<Rightarrow> ('s \<Rightarrow> 'r \<times> 's) \<Rightarrow> 'w \<Rightarrow> 'r \<times> 'w" where
  "on_part rd wr f w = (let (r, s) = f (rd w) in (r, wr s w))"

definition on_fs :: "(fs \<Rightarrow> 'r \<times> fs) \<Rightarrow> 'w world \<Rightarrow> 'r \<times> 'w world" where
  "on_fs = on_part w_fs (\<lambda>s w. w\<lparr>w_fs := s\<rparr>)"

definition on_net :: "('w \<Rightarrow> 'r \<times> 'w) \<Rightarrow> 'w world \<Rightarrow> 'r \<times> 'w world" where
  "on_net = on_part w_net (\<lambda>s w. w\<lparr>w_net := s\<rparr>)"

fun any_put :: "'w runtime \<Rightarrow> any_store \<Rightarrow> 'w world \<Rightarrow> bytes \<Rightarrow> (io_error, bytes) result \<times> 'w world" where
  "any_put rt (FsStore root) w bs =
     on_fs (\<lambda>s. fs_put (rt_sha rt) (rt_fault rt) (rt_short rt) (rt_pid rt) root s bs) w"
| "any_put rt (S3Store st) w bs =
     on_net (\<lambda>s. s3_put (rt_sha rt) (rt_hmac rt) (rt_now rt) (rt_http rt) st s bs) w"

fun any_exists :: "'w runtime \<Rightarrow> any_store \<Rightarrow> 'w world \<Rightarrow> bytes \<Rightarrow> (io_error, bool) result \<times> 'w world" where
  "any_exists rt (FsStore root) w i = on_fs (\<lambda>s. fs_exists (rt_fault rt) root s i) w"
| "any_exists rt (S3Store st) w i =
     on_net (\<lambda>s. s3_exists (rt_sha rt) (rt_hmac rt) (rt_now rt) (rt_http rt) st s i) w"

fun any_get :: "'w runtime \<Rightarrow> any_store \<Rightarrow> 'w world \<Rightarrow> bytes
    \<Rightarrow> (io_error, bytes option) result \<times> 'w world" where
  "any_get rt (FsStore root) w i = on_fs (\<lambda>s. fs_get (rt_fault rt) root s i) w"
| "any_get rt (S3Store st) w i =
     on_net (\<lambda>s. s3_get (rt_sha rt) (rt_hmac rt) (rt_now rt) (rt_http rt) st s i) w"

fun any_delete :: "'w runtime \<Rightarrow> any_store \<Rightarrow> 'w world \<Rightarrow> bytes \<Rightarrow> (io_error, unit) result \<times> 'w world" where
  "any_delete rt (FsStore root) w i = on_fs (\<lambda>s. fs_delete (rt_fault rt) root s i) w"
| "any_delete rt (S3Store st) w i =
     on_net (\<lambda>s. s3_delete (rt_sha rt) (rt_hmac rt) (rt_now rt) (rt_http rt) st s i) w"

fun any_presigned :: "'w runtime \<Rightarrow> any_store \<Rightarrow> bytes \<Rightarrow> nat \<Rightarrow> string option" where
  "any_presigned rt (FsStore root) i secs = None"
| "any_presigned rt (S3Store st) i secs =
     Some (s3_presigned_get (rt_sha rt) (rt_hmac rt) (rt_now rt) st i secs)"

fun any_contents :: "('w \<Rightarrow> string \<Rightarrow> bytes option) \<Rightarrow> any_store \<Rightarrow> 'w world \<Rightarrow> bytes \<Rightarrow> bytes option" where
  "any_contents objs (FsStore root) w = fs_contents root (w_fs w)"
| "any_contents objs (S3Store st) w = s3_contents objs st (w_net w)"

lemma on_part_eq:
  "on_part rd wr f w = (r, w') \<longleftrightarrow> (\<exists>s. f (rd w) = (r, s) \<and> w' = wr s w)"
  by (auto simp: on_part_def split: prod.splits)

lemma blob_store_part:
  assumes b: "blob_store put ex get del d c" and rw: "\<And>s w. rd (wr s w) = s"
  shows "blob_store (\<lambda>w bs. on_part rd wr (\<lambda>s. put s bs) w) (\<lambda>w i. on_part rd wr (\<lambda>s. ex s i) w)
    (\<lambda>w i. on_part rd wr (\<lambda>s. get s i) w) (\<lambda>w i. on_part rd wr (\<lambda>s. del s i) w) d (\<lambda>w. c (rd w))"
proof unfold_locales
  fix w w' i bs r j u
  show "on_part rd wr (\<lambda>s. put s bs) w = (Inr i, w') \<Longrightarrow> i = d bs \<and> c (rd w') i \<noteq> None"
    unfolding on_part_eq using blob_store.put_ok[OF b] rw by metis
  show "on_part rd wr (\<lambda>s. put s bs) w = (r, w') \<Longrightarrow>
      c (rd w') j = c (rd w) j \<or> j = d bs \<and> c (rd w') j = Some bs"
    unfolding on_part_eq using blob_store.put_frame[OF b] rw by metis
next
  fix w w' i j rd' u
  show "on_part rd wr (\<lambda>s. del s i) w = (rd', w') \<Longrightarrow>
      c (rd w') j = c (rd w) j \<or> j = i \<and> c (rd w') j = None"
    unfolding on_part_eq using blob_store.delete_frame[OF b] rw by metis
  show "on_part rd wr (\<lambda>s. del s i) w = (Inr u, w') \<Longrightarrow> c (rd w') i = None"
    unfolding on_part_eq using blob_store.delete_ok[OF b] rw by metis
qed (unfold on_part_eq, insert rw, (metis blob_store.exists_frame[OF b] blob_store.exists_ok[OF b]
    blob_store.get_frame[OF b] blob_store.get_ok[OF b])+)

lemma any_blob_store:
  assumes "bucket_service (rt_http rt) objs"
  shows "blob_store (any_put rt st) (any_exists rt st) (any_get rt st) (any_delete rt st) (rt_sha rt)
    (any_contents objs st)"
proof (cases st)
  case (FsStore root)
  show ?thesis
    using blob_store_part[OF fs.blob_store_axioms[of "rt_sha rt" "rt_fault rt" "rt_short rt" "rt_pid rt" root],
        of w_fs "\<lambda>s w. w\<lparr>w_fs := s\<rparr>"]
    by (simp add: FsStore on_fs_def any_put.simps[abs_def] any_exists.simps[abs_def]
        any_get.simps[abs_def] any_delete.simps[abs_def] any_contents.simps[abs_def])
next
  case (S3Store st')
  show ?thesis
    using blob_store_part[OF s3_blob_store[OF assms, of "rt_sha rt" "rt_hmac rt" "rt_now rt" st'],
        of w_net "\<lambda>s w. w\<lparr>w_net := s\<rparr>"]
    by (simp add: S3Store on_net_def any_put.simps[abs_def] any_exists.simps[abs_def]
        any_get.simps[abs_def] any_delete.simps[abs_def] any_contents.simps[abs_def])
qed

section \<open>An object store for the concrete instances\<close>

definition demo_bucket :: "(string \<Rightarrow> bytes option) http" where
  "demo_bucket w rq body =
     (if rq_method rq = ''PUT'' then (Reply [], w(rq_url rq := Some body))
      else if rq_method rq = ''DELETE'' then (Reply [], w(rq_url rq := None))
      else (case w (rq_url rq) of None \<Rightarrow> Status 404 [] | Some b \<Rightarrow> Reply b, w))"

lemma demo_bucket_service: "bucket_service demo_bucket (\<lambda>w. w)"
  by (auto simp: bucket_service_def demo_bucket_def reply_ok_def split: if_splits option.splits)

definition demo_s3 :: s3_store where
  "demo_s3 = \<lparr>cfg = \<lparr>endpoint = ''https://s3.example'', cfg_region = ''auto'', bucket = ''b'',
     cfg_prefix = ''blobs/'', cfg_access_key = ''k'', cfg_secret_key = ''s''\<rparr>, s3_host = ''s3.example''\<rparr>"

definition demo_rt :: "(string \<Rightarrow> bytes option) runtime" where
  "demo_rt = \<lparr>rt_sha = (\<lambda>b. take 32 (b @ replicate 32 0)), rt_hmac = (\<lambda>k m. take 32 k), rt_now = 0,
     rt_http = demo_bucket, rt_fault = (\<lambda>_. False), rt_short = (\<lambda>_. 0), rt_pid = 1\<rparr>"

definition demo_world :: "(string \<Rightarrow> bytes option) world" where
  "demo_world = \<lparr>w_fs = \<lparr>fs_files = Map.empty, fs_tick = 0, fs_tmp = 0\<rparr>, w_net = Map.empty\<rparr>"

lemmas demo_s3_simps = demo_rt_def demo_world_def on_net_def on_part_def s3_exists_def s3_put_def
  s3_get_def s3_delete_def demo_bucket_def reply_ok_def blob_id_of_def Let_def

section \<open>Properties\<close>

text \<open>Over either backend, when every object already stored hashes to its id, a put that
  returns a blob id is followed by reads of that id that return bytes with that very digest,
  never absence, and the store still satisfies the same integrity.\<close>

theorem store_put_get:
  assumes "bucket_service (rt_http rt) objs"
    and "\<And>i c. any_contents objs st w i = Some c \<Longrightarrow> rt_sha rt c = i"
    and "any_put rt st w bs = (Inr i, w')" "any_get rt st w' i = (Inr x, w'')"
  shows "i = rt_sha rt bs \<and> (\<exists>c. x = Some c \<and> rt_sha rt c = rt_sha rt bs)
    \<and> (\<forall>j c. any_contents objs st w'' j = Some c \<longrightarrow> rt_sha rt c = j)"
proof -
  note bs = any_blob_store[OF assms(1), of st]
  have 0: "blob_store.integrity (rt_sha rt) (any_contents objs st) w"
    using assms(2) by (simp add: blob_store.integrity_def[OF bs])
  note 1 = blob_store.integrity_put[OF bs assms(3) 0]
  note 2 = blob_store.integrity_get[OF bs assms(4) 1]
  show ?thesis
    using blob_store.put_ok[OF bs assms(3)] blob_store.get_after_put[OF bs 0 assms(3,4)] 2
    by (simp add: blob_store.integrity_def[OF bs])
qed

lemma store_put_get_witness:
  "\<exists>w' w'' c. any_put demo_rt (S3Store demo_s3) demo_world [1, 2] = (Inr (rt_sha demo_rt [1, 2]), w')
     \<and> any_get demo_rt (S3Store demo_s3) w' (rt_sha demo_rt [1, 2]) = (Inr (Some c), w'')
     \<and> rt_sha demo_rt c = rt_sha demo_rt [1, 2]"
proof -
  obtain w' where put: "any_put demo_rt (S3Store demo_s3) demo_world [1, 2]
      = (Inr (rt_sha demo_rt [1, 2]), w')" by (simp add: demo_s3_simps)
  obtain x w'' where get: "any_get demo_rt (S3Store demo_s3) w' (rt_sha demo_rt [1, 2]) = (Inr x, w'')"
    using put by (auto simp: demo_s3_simps)
  have "bucket_service (rt_http demo_rt) (\<lambda>w. w)" by (simp add: demo_rt_def demo_bucket_service)
  from store_put_get[OF this _ put get] put get show ?thesis
    by (auto simp: s3_contents_def demo_world_def)
qed

text \<open>The filesystem put is atomic: whichever system calls fail, and however much of the
  temporary file was written, the object at every id is the one that was there or, at the id of
  the bytes being stored, those complete bytes; and success means the object is present.\<close>

theorem fs_put_atomic:
  assumes "fs_put sha fault short pid root s bs = (r, s')"
  shows "(fs_contents root s' j = fs_contents root s j \<or>
      j = sha bs \<and> fs_contents root s' j = Some bs)
     \<and> (\<forall>i. r = Inr i \<longrightarrow> i = sha bs \<and> fs_contents root s' i \<noteq> None)"
  using fs_put_contents[OF assms] fs_put_present[of sha fault short pid root s bs] assms by auto

lemma fs_put_atomic_witness:
  "\<exists>r s'. fs_put (\<lambda>b. b) (\<lambda>n. n = 3) (\<lambda>_. 1) 7 ''/cas''
       \<lparr>fs_files = Map.empty, fs_tick = 0, fs_tmp = 0\<rparr> [1, 2] = (r, s')
     \<and> fs_contents ''/cas'' s' [1, 2] \<in> {None, Some [1, 2]}" (is "\<exists>r s'. ?put = _ \<and> _")
proof -
  obtain r s' where put: "?put = (r, s')" by (cases ?put)
  show ?thesis using fs_put_atomic[OF put, of "[1, 2]"] put by (auto simp: fs_contents_def)
qed

text \<open>After a successful delete the blob is absent from reads, deleting again succeeds on the
  filesystem store as the first time did, and no other object is touched.\<close>

theorem store_delete:
  assumes "bucket_service (rt_http rt) objs" "any_delete rt st w i = (Inr u, w')"
    and "any_get rt st w' i = (Inr x, w'')"
  shows "x = None \<and> (\<forall>j. j \<noteq> i \<longrightarrow> any_contents objs st w'' j = any_contents objs st w j)"
proof -
  note bs = any_blob_store[OF assms(1), of st]
  show ?thesis
    using blob_store.get_after_delete[OF bs assms(2,3)] blob_store.delete_frame[OF bs assms(2)]
      blob_store.get_frame[OF bs assms(3)] by metis
qed

lemma store_delete_witness:
  "\<exists>w' w''. any_delete demo_rt (S3Store demo_s3) demo_world [7] = (Inr (), w')
     \<and> any_get demo_rt (S3Store demo_s3) w' [7] = (Inr None, w'')"
proof -
  obtain w' where del: "any_delete demo_rt (S3Store demo_s3) demo_world [7] = (Inr (), w')"
    by (simp add: demo_s3_simps)
  obtain x w'' where get: "any_get demo_rt (S3Store demo_s3) w' [7] = (Inr x, w'')"
    using del by (auto simp: demo_s3_simps)
  have "bucket_service (rt_http demo_rt) (\<lambda>w. w)" by (simp add: demo_rt_def demo_bucket_service)
  from store_delete[OF this del get] del get show ?thesis by auto
qed

end
