(* ===== verification/Gc.thy ===== *)
theory Gc
  imports Blobs Cas
begin

text \<open>
  The orphan collector, \<open>gc\<close> of \<open>crates/sconce/src/main.rs\<close>: scan, then per blob the guarded row
  delete and the object delete. It is a client of the \<open>blob_store\<close> contract: run without a
  concurrent publisher it never removes the object of a blob the catalog still knows. A
  second, interleaved model runs the collector's two deletes against a publisher's put,
  \<open>upsert_blob\<close> and insert, and reaches a referenced blob whose object is gone.
\<close>

section \<open>The collector\<close>

record gc_report =
  freed_blobs :: int
  freed_bytes :: int
  skipped :: int

definition gc_none :: gc_report where
  "gc_none = \<lparr>freed_blobs = 0, freed_bytes = 0, skipped = 0\<rparr>"

text \<open>\<open>clock n\<close> is the database's \<open>now()\<close> at the \<open>n\<close>-th statement.\<close>

fun gc_loop :: "('s \<Rightarrow> sha256 \<Rightarrow> (io_error, unit) result \<times> 's) \<Rightarrow> (nat \<Rightarrow> time) \<Rightarrow> nat \<Rightarrow> int
    \<Rightarrow> (sha256 \<times> int) list \<Rightarrow> db \<Rightarrow> 's \<Rightarrow> gc_report \<Rightarrow> (sql_error, gc_report \<times> db \<times> 's) result" where
  "gc_loop del clock n grace [] db s rep = Inr (rep, db, s)"
| "gc_loop del clock n grace ((sha, sz) # orphans) db s rep =
     (case delete_blob_if_orphan (clock n) grace db sha of
        Inl e \<Rightarrow> Inl e
      | Inr (False, db) \<Rightarrow>
          gc_loop del clock (Suc n) grace orphans db s (rep\<lparr>skipped := skipped rep + 1\<rparr>)
      | Inr (True, db) \<Rightarrow>
          (let (r, s) = del s sha
           in gc_loop del clock (Suc n) grace orphans db s
                (rep\<lparr>freed_blobs := freed_blobs rep + 1, freed_bytes := freed_bytes rep + sz\<rparr>)))"

definition gc :: "('s \<Rightarrow> sha256 \<Rightarrow> (io_error, unit) result \<times> 's) \<Rightarrow> (nat \<Rightarrow> time) \<Rightarrow> int \<Rightarrow> bool
    \<Rightarrow> db \<Rightarrow> 's \<Rightarrow> (sql_error, gc_report \<times> db \<times> 's) result" where
  "gc del clock grace_hours dry_run db s =
     (let grace = grace_hours * 3600; orphans = orphan_blobs (clock 0) grace db
      in if orphans = [] then Inr (gc_none, db, s)
         else if dry_run then Inr (gc_none, db, s)
         else gc_loop del clock 1 grace orphans db s gc_none)"

section \<open>Safety without interleaving\<close>

lemma delete_orphan_frame:
  "delete_blob_if_orphan now grace db sha = Inr (d, db') \<Longrightarrow>
   versions db' = versions db \<and> snapshots db' = snapshots db"
  by (auto simp: delete_blob_if_orphan_def Let_def split: if_splits)

context blob_store
begin

definition rows_stored :: "db \<Rightarrow> 's \<Rightarrow> bool" where
  "rows_stored db s \<longleftrightarrow> (\<forall>b\<in>set (blobs db). contents s (b_sha b) \<noteq> None)"

lemma gc_loop_safe:
  assumes "blobs_ok db" "rows_stored db s"
  shows "\<exists>rep' db' s'. gc_loop delete clock n grace os db s rep = Inr (rep', db', s') \<and> blobs_ok db'
    \<and> rows_stored db' s' \<and> versions db' = versions db \<and> snapshots db' = snapshots db"
  using assms
proof (induction os arbitrary: n db s rep)
  case (Cons o' os)
  obtain sha sz where o': "o' = (sha, sz)" by fastforce
  obtain d db1 where del: "delete_blob_if_orphan (clock n) grace db sha = Inr (d, db1)" "blobs_ok db1"
      "\<And>b. b \<in> set (blobs db1) \<longleftrightarrow> b \<in> set (blobs db) \<and> (d \<longrightarrow> b_sha b \<noteq> sha)"
    using blobs_ok_delete_orphan[OF Cons.prems(1), of "clock n" grace sha] by blast
  obtain r s1 where s1: "delete s sha = (r, s1)" by fastforce
  have keep: "contents s1 j \<noteq> None" if "contents s j \<noteq> None" "j \<noteq> sha" for j
    using delete_frame[OF s1] that by metis
  note fr = delete_orphan_frame[OF del(1)]
  show ?case
  proof (cases d)
    case True
    have "rows_stored db1 s1" using Cons.prems(2) del(3) True keep by (simp add: rows_stored_def)
    from Cons.IH[OF del(2) this, of "Suc n" "rep\<lparr>freed_blobs := freed_blobs rep + 1,
        freed_bytes := freed_bytes rep + sz\<rparr>"] show ?thesis
      using del(1) fr True s1 by (auto simp: o')
  next
    case False
    have "rows_stored db1 s" using Cons.prems(2) del(3) False by (simp add: rows_stored_def)
    from Cons.IH[OF del(2) this, of "Suc n" "rep\<lparr>skipped := skipped rep + 1\<rparr>"] show ?thesis
      using del(1) fr False by (auto simp: o')
  qed
qed auto

text \<open>Only rows that were old orphans when their turn came go, and no object but theirs.\<close>

definition only_orphans_go :: "(nat \<Rightarrow> time) \<Rightarrow> int \<Rightarrow> db \<Rightarrow> 's \<Rightarrow> db \<Rightarrow> 's \<Rightarrow> bool" where
  "only_orphans_go clock grace db s db' s' \<longleftrightarrow> set (blobs db') \<subseteq> set (blobs db)
     \<and> (\<forall>b\<in>set (blobs db) - set (blobs db'). \<exists>n. collectable (clock n) grace b)
     \<and> (\<forall>j. contents s' j = contents s j \<or> (\<exists>b\<in>set (blobs db) - set (blobs db'). b_sha b = j))"

lemma gc_loop_frame:
  "gc_loop delete clock n grace os db s rep = Inr (rep', db', s') \<Longrightarrow> only_orphans_go clock grace db s db' s'"
proof (induction os arbitrary: n db s rep)
  case Nil
  then show ?case by (simp add: only_orphans_go_def)
next
  case (Cons o' os)
  obtain sha sz where o': "o' = (sha, sz)" by fastforce
  let ?P = "\<lambda>b. b_sha b = sha \<and> collectable (clock n) grace b"
  from Cons.prems obtain d db1 where del: "delete_blob_if_orphan (clock n) grace db sha = Inr (d, db1)"
    by (auto simp: o' split: sum.splits)
  show ?case
  proof (cases d)
    case True
    obtain r s1 where s1: "delete s sha = (r, s1)" by fastforce
    have db1: "db1 = db\<lparr>blobs := del_where ?P (blobs db)\<rparr>" "\<exists>b\<in>set (blobs db). ?P b"
      using del True by (auto simp: delete_blob_if_orphan_def Let_def split: if_splits)
    from Cons.prems del s1 True have "only_orphans_go clock grace db1 s1 db' s'"
      by (auto simp: o' intro: Cons.IH)
    then have rest: "set (blobs db') \<subseteq> set (blobs db1)" "\<And>b. b \<in> set (blobs db1) \<Longrightarrow> b \<notin> set (blobs db') \<Longrightarrow> \<exists>n. collectable (clock n) grace b"
        "\<And>j. contents s' j = contents s1 j \<or> (\<exists>b\<in>set (blobs db1) - set (blobs db'). b_sha b = j)"
      by (auto simp: only_orphans_go_def)
    have rows: "b \<in> set (blobs db1) \<longleftrightarrow> b \<in> set (blobs db) \<and> \<not> ?P b" for b by (auto simp: db1(1))
    have "contents s' j = contents s j \<or> (\<exists>b\<in>set (blobs db) - set (blobs db'). b_sha b = j)" for j
    proof (cases "j = sha")
      case True
      then show ?thesis using db1(2) rest(1) rows by blast
    next
      case False
      then show ?thesis using delete_frame[OF s1, of j] rest(3)[of j] rows by auto
    qed
    moreover have "\<exists>n. collectable (clock n) grace b" if "b \<in> set (blobs db) - set (blobs db')" for b
      using that rest(2)[of b] rows[of b] by blast
    ultimately show ?thesis using rest(1) rows unfolding only_orphans_go_def by blast
  next
    case False
    then have "db1 = db" using del by (auto simp: delete_blob_if_orphan_def Let_def split: if_splits)
    then show ?thesis using Cons.prems del False by (auto simp: o' intro: Cons.IH)
  qed
qed

lemma gc_safe:
  assumes "blobs_ok db" "rows_stored db s"
  shows "\<exists>rep db' s'. gc delete clock grace_hours dry_run db s = Inr (rep, db', s') \<and> blobs_ok db'
    \<and> rows_stored db' s' \<and> versions db' = versions db \<and> snapshots db' = snapshots db
    \<and> only_orphans_go clock (grace_hours * 3600) db s db' s'"
proof (cases "orphan_blobs (clock 0) (grace_hours * 3600) db = [] \<or> dry_run")
  case True
  then show ?thesis using assms by (auto simp: gc_def Let_def only_orphans_go_def)
next
  case False
  then have "gc delete clock grace_hours dry_run db s
      = gc_loop delete clock 1 (grace_hours * 3600) (orphan_blobs (clock 0) (grace_hours * 3600) db) db s gc_none"
    by (simp add: gc_def Let_def)
  with gc_loop_safe[OF assms, of clock 1 "grace_hours * 3600"] gc_loop_frame show ?thesis by metis
qed

end

section \<open>The collector beside a publisher\<close>

datatype publisher = Putting | Upserting | Inserting | PublishedDone

datatype collector = Scanning | Collecting "(sha256 \<times> int) list" | Deleting sha256 "(sha256 \<times> int) list"

record race =
  rc_db :: db
  rc_store :: "sha256 \<Rightarrow> bytes option"
  rc_pub :: publisher
  rc_gc :: collector

text \<open>One publisher storing \<open>bs\<close> (put-if-absent, then \<open>upsert_blob\<close>, then the version row of
  package \<open>pkg\<close>) beside one collector, each statement a step; \<open>now\<close> is the current time.\<close>

inductive race_step :: "(bytes \<Rightarrow> sha256) \<Rightarrow> bytes \<Rightarrow> uuid \<Rightarrow> int \<Rightarrow> race \<Rightarrow> race \<Rightarrow> bool"
  for sha :: "bytes \<Rightarrow> sha256" and bs :: bytes and pkg :: uuid and grace :: int where
  pub_put: "rc_pub st = Putting \<Longrightarrow> race_step sha bs pkg grace st
     (st\<lparr>rc_store := (rc_store st)(sha bs \<mapsto> (case rc_store st (sha bs) of None \<Rightarrow> bs | Some c \<Rightarrow> c)),
         rc_pub := Upserting\<rparr>)"
| pub_upsert: "rc_pub st = Upserting \<Longrightarrow> race_step sha bs pkg grace st
     (st\<lparr>rc_db := upsert_blob now (rc_db st) (sha bs) (int (length bs)), rc_pub := Inserting\<rparr>)"
| pub_insert: "rc_pub st = Inserting \<Longrightarrow>
     insert_version_once newid (rc_db st) pkg ver nv stab js (sha bs) sh None None rel = Inr (out, db')
     \<Longrightarrow> race_step sha bs pkg grace st (st\<lparr>rc_db := db', rc_pub := PublishedDone\<rparr>)"
| gc_scan: "rc_gc st = Scanning \<Longrightarrow> race_step sha bs pkg grace st
     (st\<lparr>rc_gc := Collecting (orphan_blobs now grace (rc_db st))\<rparr>)"
| gc_row: "rc_gc st = Collecting ((x, n) # os) \<Longrightarrow>
     delete_blob_if_orphan now grace (rc_db st) x = Inr (d, db')
     \<Longrightarrow> race_step sha bs pkg grace st
       (st\<lparr>rc_db := db', rc_gc := (if d then Deleting x os else Collecting os)\<rparr>)"
| gc_object: "rc_gc st = Deleting x os \<Longrightarrow> race_step sha bs pkg grace st
     (st\<lparr>rc_store := (rc_store st)(x := None), rc_gc := Collecting os\<rparr>)"

section \<open>Properties\<close>

text \<open>C3: a collection that no publisher overlaps, on either backend: when blob counts are exact and every blob row has its
  object, it completes without a database error, whatever deletes of objects fail; afterwards the counts are still
  exact, no version or snapshot row changed, and every blob the catalog knows still has its object, in particular every blob a version
  or snapshot references. Only rows that were unreferenced and past the grace period go, and no object but theirs
  changes. That no publisher overlaps is needed: see \<open>gc_race_loses_object\<close>.\<close>

theorem gc_keeps_referenced:
  assumes "bucket_service (rt_http rt) objs" "blobs_ok db"
    and "\<forall>b\<in>set (blobs db). any_contents objs st w (b_sha b) \<noteq> None"
  shows "\<exists>rep db' w'. gc (any_delete rt st) clock grace_hours dry_run db w = Inr (rep, db', w')
     \<and> blobs_ok db' \<and> versions db' = versions db \<and> snapshots db' = snapshots db
     \<and> (\<forall>b\<in>set (blobs db'). any_contents objs st w' (b_sha b) \<noteq> None)
     \<and> (\<forall>v\<in>set (versions db'). \<forall>s. v_blob v = Some s \<longrightarrow> any_contents objs st w' s \<noteq> None)
     \<and> (\<forall>n\<in>set (snapshots db'). any_contents objs st w' (sn_blob n) \<noteq> None)
     \<and> set (blobs db') \<subseteq> set (blobs db)
     \<and> (\<forall>b\<in>set (blobs db) - set (blobs db'). b_refcount b = 0 \<and> (\<exists>n. collectable (clock n) (grace_hours * 3600) b))
     \<and> (\<forall>j. any_contents objs st w' j = any_contents objs st w j \<or> (\<exists>b\<in>set (blobs db) - set (blobs db'). b_sha b = j))"
proof -
  note bs = any_blob_store[OF assms(1), of st]
  have 0: "blob_store.rows_stored (any_contents objs st) db w"
    using assms(3) by (simp add: blob_store.rows_stored_def[OF bs])
  obtain rep db' w' where g: "gc (any_delete rt st) clock grace_hours dry_run db w = Inr (rep, db', w')"
      "blobs_ok db'" "blob_store.rows_stored (any_contents objs st) db' w'"
      "versions db' = versions db" "snapshots db' = snapshots db"
      and gone: "blob_store.only_orphans_go (any_contents objs st) clock (grace_hours * 3600) db w db' w'"
    using blob_store.gc_safe[OF bs assms(2) 0, of clock grace_hours dry_run] by blast
  have rows: "\<forall>b\<in>set (blobs db'). any_contents objs st w' (b_sha b) \<noteq> None"
    using g(3) by (simp add: blob_store.rows_stored_def[OF bs])
  then have "any_contents objs st w' s \<noteq> None" if "0 < refs db' s" for s
    using that g(2) by (auto simp: blobs_ok_def refs_present_def)
  moreover have "0 < refs db' s" if "v \<in> set (versions db')" "v_blob v = Some s" for v s
    using that refs_zero[of db' s] refs_nonneg[of db' s] by fastforce
  moreover have "0 < refs db' (sn_blob n)" if "n \<in> set (snapshots db')" for n
    using that refs_zero[of db' "sn_blob n"] refs_nonneg[of db' "sn_blob n"] by fastforce
  moreover have "b_refcount b = 0 \<and> (\<exists>n. collectable (clock n) (grace_hours * 3600) b)" if "b \<in> set (blobs db) - set (blobs db')" for b
    using gone that by (auto simp: blob_store.only_orphans_go_def[OF bs] collectable_def)
  moreover have "set (blobs db') \<subseteq> set (blobs db)"
      "\<forall>j. any_contents objs st w' j = any_contents objs st w j \<or> (\<exists>b\<in>set (blobs db) - set (blobs db'). b_sha b = j)"
    using gone by (simp_all add: blob_store.only_orphans_go_def[OF bs])
  ultimately show ?thesis using g(1,2,4,5) rows by blast
qed

definition demo_orphan :: bytes where
  "demo_orphan = replicate 32 0"

lemma gc_keeps_referenced_witness:
  "\<exists>rep db' w'. gc (any_delete demo_rt (FsStore ''/cas'')) (\<lambda>_. 100) 0 False
       (empty_db\<lparr>blobs := [demo_blob demo_orphan]\<rparr>)
       (demo_world\<lparr>w_fs := set_file (snd (paths_for ''/cas'' demo_orphan)) (Some []) (w_fs demo_world)\<rparr>)
     = Inr (rep, db', w') \<and> blobs_ok db' \<and> versions db' = []"
proof -
  let ?db = "empty_db\<lparr>blobs := [demo_blob demo_orphan]\<rparr>"
  have ok: "blobs_ok ?db"
    by (simp add: blobs_ok_def refcount_ok_def refs_present_def refs_def empty_db_def demo_blob_def)
  have "bucket_service (rt_http demo_rt) (\<lambda>w. w)" by (simp add: demo_rt_def demo_bucket_service)
  from gc_keeps_referenced[OF this ok, of "FsStore ''/cas''"
      "demo_world\<lparr>w_fs := set_file (snd (paths_for ''/cas'' demo_orphan)) (Some []) (w_fs demo_world)\<rparr>"
      "\<lambda>_. 100" 0 False]
  show ?thesis by (auto simp: fs_contents_def set_file_def demo_blob_def empty_db_def)
qed

definition race_start :: race where
  "race_start = \<lparr>rc_db = demo_db\<lparr>versions := [], blobs := [demo_blob demo_orphan]\<rparr>,
     rc_store = [demo_orphan \<mapsto> []], rc_pub = Putting, rc_gc = Scanning\<rparr>"

text \<open>The guard does not protect a publisher that overlaps the collector. From a consistent
  state with one old orphan blob, the collector removes the row, the publisher finds the object
  still in the store, records the blob again and inserts its version, and the collector then
  deletes the object: the catalog references a blob whose bytes are gone.\<close>

theorem gc_race_loses_object:
  "\<exists>st. (race_step (\<lambda>_. demo_orphan) [] 100 3600)\<^sup>*\<^sup>* race_start st
     \<and> blobs_ok (rc_db race_start) \<and> rc_store race_start demo_orphan \<noteq> None
     \<and> map v_blob (versions (rc_db st)) = [Some demo_orphan] \<and> rc_store st demo_orphan = None"
proof -
  let ?o = demo_orphan and ?R = "race_step (\<lambda>_. demo_orphan) [] 100 3600"
  let ?db1 = "(rc_db race_start)\<lparr>blobs := []\<rparr>"
  let ?db2 = "upsert_blob 10000 ?db1 ?o 0"
  let ?db3 = "case insert_version_once 1 ?db2 100 ''1.0'' ''1.0.0.0'' ''stable'' JNull ?o ''x'' None None None
    of Inr (_, db) \<Rightarrow> db"
  have scan: "orphan_blobs 10000 3600 (rc_db race_start) = [(?o, 1)]" by code_simp
  have row: "delete_blob_if_orphan 10000 3600 (rc_db race_start) ?o = Inr (True, ?db1)" by code_simp
  have ins: "insert_version_once 1 ?db2 100 ''1.0'' ''1.0.0.0'' ''stable'' JNull ?o ''x'' None None None
    = Inr (Created, ?db3)" by code_simp
  have last: "map v_blob (versions ?db3) = [Some ?o]" by code_simp
  let ?s1 = "race_start\<lparr>rc_gc := Collecting [(?o, 1)]\<rparr>"
  let ?s2 = "?s1\<lparr>rc_db := ?db1, rc_gc := Deleting ?o []\<rparr>"
  let ?s3 = "?s2\<lparr>rc_store := (rc_store ?s2)(?o \<mapsto> []), rc_pub := Upserting\<rparr>"
  let ?s4 = "?s3\<lparr>rc_db := ?db2, rc_pub := Inserting\<rparr>"
  let ?s5 = "?s4\<lparr>rc_db := ?db3, rc_pub := PublishedDone\<rparr>"
  let ?s6 = "?s5\<lparr>rc_store := (rc_store ?s5)(?o := None), rc_gc := Collecting []\<rparr>"
  have "?R race_start ?s1"
    using gc_scan[of race_start "\<lambda>_. ?o" "[]" 100 3600 10000] scan by (simp add: race_start_def)
  moreover have "?R ?s1 ?s2"
    using gc_row[of ?s1 ?o 1 "[]" 10000 3600 True ?db1 "\<lambda>_. ?o" "[]" 100] row by simp
  moreover have "?R ?s2 ?s3"
    using pub_put[of ?s2 "\<lambda>_. ?o" "[]" 100 3600] by (simp add: race_start_def)
  moreover have "?R ?s3 ?s4"
    using pub_upsert[of ?s3 "\<lambda>_. ?o" "[]" 100 3600 10000] by simp
  moreover have "?R ?s4 ?s5"
    by (rule pub_insert) (use ins in simp_all)
  moreover have "?R ?s5 ?s6"
    by (rule gc_object) simp
  ultimately have r: "?R\<^sup>*\<^sup>* race_start ?s6"
    by (meson converse_rtranclp_into_rtranclp rtranclp.rtrancl_refl)
  have ok: "blobs_ok (rc_db race_start)"
    by (simp add: race_start_def demo_db_def blobs_ok_def refcount_ok_def refs_present_def refs_def
        empty_db_def demo_blob_def)
  have st: "rc_store race_start ?o \<noteq> None" by (simp add: race_start_def)
  have l: "map v_blob (versions (rc_db ?s6)) = [Some ?o]" using last by simp
  have e: "rc_store ?s6 ?o = None" by simp
  show ?thesis by (rule exI[of _ ?s6], intro conjI) (rule r ok st l e)+
qed

end
