(* ===== verification/Repos.thy ===== *)
theory Repos
  imports Blobs
begin

text \<open>
  Organizations, repositories and the names that lead to them
  (\<open>crates/sconce-catalog/src/lib.rs\<close>): creation as the CLI and the web UI guard it, renames with
  their \<open>slug_history\<close>, deletion with its foreign-key cascades, canonical resolution, custom
  domains, member repositories, and the packages a repository owns with their visibility. The
  lemmas show that a URL is never re-pointed and that the member rules are an invariant.
\<close>

section \<open>Organizations and repositories\<close>

definition org_by_slug :: "db \<Rightarrow> string \<Rightarrow> org_row option" where
  "org_by_slug db slug = select_one (\<lambda>ro. o_slug ro = slug) (orgs db)"

definition org_id_by_slug :: "db \<Rightarrow> string \<Rightarrow> uuid option" where
  "org_id_by_slug db slug = map_option o_id (org_by_slug db slug)"

definition create_org :: "uuid \<Rightarrow> db \<Rightarrow> string \<Rightarrow> string option \<Rightarrow> uuid \<times> db" where
  "create_org newid db slug nm = (case org_by_slug db slug of
     Some r \<Rightarrow> (o_id r, db\<lparr>orgs := upd_where (\<lambda>r. o_slug r = slug)
         (\<lambda>r. r\<lparr>o_name := (case nm of Some n \<Rightarrow> Some n | None \<Rightarrow> o_name r)\<rparr>) (orgs db)\<rparr>)
   | None \<Rightarrow> (newid, db\<lparr>orgs := orgs db @ [\<lparr>o_id = newid, o_slug = slug, o_name = nm\<rparr>]\<rparr>))"

definition repo_by_slug :: "db \<Rightarrow> uuid \<Rightarrow> string \<Rightarrow> repo_row option" where
  "repo_by_slug db org slug = select_one (\<lambda>r. r_org r = org \<and> r_slug r = slug) (repos db)"

definition new_repo :: "uuid \<Rightarrow> uuid \<Rightarrow> string \<Rightarrow> repo_row" where
  "new_repo newid org slug = \<lparr>r_id = newid, r_org = org, r_slug = slug, r_update_mode = ''auto'',
     r_cooldown = 0, r_allow_raw = None, r_max_ttl = None, r_allow_private = True,
     r_anonymous = False, r_domain = None\<rparr>"

definition create_repo :: "uuid \<Rightarrow> db \<Rightarrow> string \<Rightarrow> string \<Rightarrow> (sql_error, uuid \<times> db) result" where
  "create_repo newid db org_slug repo_slug = (case org_by_slug db org_slug of
     None \<Rightarrow> Inl RowNotFound
   | Some r \<Rightarrow> (case repo_by_slug db (o_id r) repo_slug of
        Some old \<Rightarrow> Inr (r_id old, db)
      | None \<Rightarrow> Inr (newid, db\<lparr>repos := repos db @ [new_repo newid (o_id r) repo_slug]\<rparr>)))"

definition resolve_repo :: "db \<Rightarrow> string \<Rightarrow> string \<Rightarrow> uuid option" where
  "resolve_repo db org_slug repo_slug = (case org_by_slug db org_slug of None \<Rightarrow> None
     | Some r \<Rightarrow> map_option r_id (repo_by_slug db (o_id r) repo_slug))"

section \<open>Canonical resolution\<close>

record repo_location =
  loc_repo_id :: uuid
  loc_org_slug :: string
  loc_repo_slug :: string
  loc_moved :: bool

definition is_org_slug :: "string \<Rightarrow> slug_row \<Rightarrow> bool" where
  "is_org_slug slug h \<longleftrightarrow> sl_kind h = OrgSlug \<and> sl_old h = slug"

definition is_repo_slug :: "uuid \<Rightarrow> string \<Rightarrow> slug_row \<Rightarrow> bool" where
  "is_repo_slug org slug h \<longleftrightarrow> sl_kind h = RepoSlug \<and> sl_org h = Some org \<and> sl_old h = slug"

definition org_with_id :: "db \<Rightarrow> uuid \<Rightarrow> org_row option" where
  "org_with_id db i = select_one (\<lambda>ro. o_id ro = i) (orgs db)"

definition locate_org :: "db \<Rightarrow> string \<Rightarrow> (uuid \<times> string \<times> bool) option" where
  "locate_org db org = (case org_by_slug db org of
     Some r \<Rightarrow> Some (o_id r, o_slug r, False)
   | None \<Rightarrow> (case select_one (\<lambda>h. is_org_slug org h \<and> org_with_id db (sl_entity h) \<noteq> None) (slugs db) of
        None \<Rightarrow> None
      | Some h \<Rightarrow> map_option (\<lambda>r. (o_id r, o_slug r, True)) (org_with_id db (sl_entity h))))"

definition locate_repo :: "db \<Rightarrow> uuid \<Rightarrow> string \<Rightarrow> (uuid \<times> string \<times> bool) option" where
  "locate_repo db org_id repo = (case repo_by_slug db org_id repo of
     Some r \<Rightarrow> Some (r_id r, r_slug r, False)
   | None \<Rightarrow> (case select_one (\<lambda>h. is_repo_slug org_id repo h \<and> repo_named db (sl_entity h) \<noteq> None) (slugs db) of
        None \<Rightarrow> None
      | Some h \<Rightarrow> map_option (\<lambda>r. (r_id r, r_slug r, True)) (repo_named db (sl_entity h))))"

definition resolve_repo_canonical :: "db \<Rightarrow> string \<Rightarrow> string \<Rightarrow> repo_location option" where
  "resolve_repo_canonical db org repo = (case locate_org db org of
     None \<Rightarrow> None
   | Some (org_id, org_slug, org_moved) \<Rightarrow> (case locate_repo db org_id repo of
        None \<Rightarrow> None
      | Some (repo_id, repo_slug, repo_moved) \<Rightarrow>
          Some \<lparr>loc_repo_id = repo_id, loc_org_slug = org_slug, loc_repo_slug = repo_slug,
                loc_moved = (org_moved \<or> repo_moved)\<rparr>))"

definition former_slugs :: "db \<Rightarrow> slug_entity \<Rightarrow> uuid \<Rightarrow> string list" where
  "former_slugs db kind entity =
     rev (map sl_old (filter (\<lambda>h. sl_kind h = kind \<and> sl_entity h = entity) (slugs db)))"

definition org_slug_retired :: "db \<Rightarrow> string \<Rightarrow> bool" where
  "org_slug_retired db slug \<longleftrightarrow> exists_where (is_org_slug slug) (slugs db)"

definition repo_slug_retired :: "db \<Rightarrow> uuid \<Rightarrow> string \<Rightarrow> bool" where
  "repo_slug_retired db org slug \<longleftrightarrow> exists_where (is_repo_slug org slug) (slugs db)"

definition org_slug_unavailable :: "db \<Rightarrow> string \<Rightarrow> bool" where
  "org_slug_unavailable db slug \<longleftrightarrow>
     exists_where (\<lambda>ro. o_slug ro = slug) (orgs db) \<or> exists_where (is_org_slug slug) (slugs db)"

definition repo_slug_unavailable :: "db \<Rightarrow> uuid \<Rightarrow> string \<Rightarrow> bool" where
  "repo_slug_unavailable db org slug \<longleftrightarrow>
     exists_where (\<lambda>r. r_org r = org \<and> r_slug r = slug) (repos db) \<or> exists_where (is_repo_slug org slug) (slugs db)"

section \<open>Creation as the CLI and the web UI guard it\<close>

definition cli_org_create :: "uuid \<Rightarrow> db \<Rightarrow> string \<Rightarrow> string option \<Rightarrow> (string, db) result" where
  "cli_org_create newid db slug nm =
     (if org_slug_retired db slug then Inl ''was previously used and is retired''
      else Inr (snd (create_org newid db slug nm)))"

definition cli_repo_create :: "uuid \<Rightarrow> db \<Rightarrow> string \<Rightarrow> string \<Rightarrow> (string, db) result" where
  "cli_repo_create newid db org repo =
     (case org_by_slug db org of
        Some r \<Rightarrow> if repo_slug_retired db (o_id r) repo then Inl ''was previously used and is retired''
          else (case create_repo newid db org repo of Inl _ \<Rightarrow> Inl ''creating repo'' | Inr (_, db) \<Rightarrow> Inr db)
      | None \<Rightarrow> (case create_repo newid db org repo of Inl _ \<Rightarrow> Inl ''creating repo'' | Inr (_, db) \<Rightarrow> Inr db))"

text \<open>The web forms: the check reads the trimmed name, the insert stores the name as typed.\<close>

definition ui_org_create :: "uuid \<Rightarrow> bool \<Rightarrow> db \<Rightarrow> string \<Rightarrow> string option \<Rightarrow> (string, db) result" where
  "ui_org_create newid superadmin db slug nm =
     (if \<not> superadmin then Inl ''403''
      else if org_slug_retired db (trim slug) then Inl ''permanently retired''
      else Inr (snd (create_org newid db slug (case nm of Some [] \<Rightarrow> None | _ \<Rightarrow> nm))))"

definition ui_repo_create :: "uuid \<Rightarrow> (uuid \<Rightarrow> bool) \<Rightarrow> db \<Rightarrow> string \<Rightarrow> string \<Rightarrow> (string, db) result" where
  "ui_repo_create newid can_admin db org repo =
     (case org_by_slug db org of
        None \<Rightarrow> Inl ''400''
      | Some r \<Rightarrow> if \<not> can_admin (o_id r) then Inl ''403''
          else if repo_slug_retired db (o_id r) (trim repo) then Inl ''permanently retired''
          else (case create_repo newid db org repo of Inl _ \<Rightarrow> Inl ''400'' | Inr (_, db) \<Rightarrow> Inr db))"

section \<open>Renames\<close>

datatype rename_error = RenameDb sql_error | Taken | Retired | InvalidName

definition retire_slug :: "slug_entity \<Rightarrow> string \<Rightarrow> uuid option \<Rightarrow> uuid \<Rightarrow> db \<Rightarrow> (sql_error, db) result" where
  "retire_slug kind old org entity db =
     (if exists_where (\<lambda>h. sl_kind h = kind \<and> sl_old h = old \<and> (kind = OrgSlug \<or> sl_org h = org)) (slugs db)
      then Inl (UniqueViolation ''slug_history'')
      else Inr (db\<lparr>slugs := slugs db @ [\<lparr>sl_kind = kind, sl_old = old, sl_org = org, sl_entity = entity\<rparr>]\<rparr>))"

definition rename_org :: "db \<Rightarrow> uuid \<Rightarrow> string \<Rightarrow> (rename_error, db) result" where
  "rename_org db org_id raw =
     (let new_slug = trim raw in
      if new_slug = [] then Inl InvalidName
      else case org_with_id db org_id of
        None \<Rightarrow> Inl InvalidName
      | Some r \<Rightarrow>
          if o_slug r = new_slug then Inr db
          else if org_slug_unavailable db new_slug then
            Inl (if exists_where (\<lambda>ro. o_slug ro = new_slug) (orgs db) then Taken else Retired)
          else case retire_slug OrgSlug (o_slug r) None org_id db of
              Inl e \<Rightarrow> Inl (RenameDb e)
            | Inr db \<Rightarrow> Inr (db\<lparr>orgs := upd_where (\<lambda>ro. o_id ro = org_id) (\<lambda>ro. ro\<lparr>o_slug := new_slug\<rparr>) (orgs db)\<rparr>))"

definition rename_repo :: "db \<Rightarrow> uuid \<Rightarrow> string \<Rightarrow> (rename_error, db) result" where
  "rename_repo db repo_id raw =
     (let new_slug = trim raw in
      if new_slug = [] then Inl InvalidName
      else case repo_named db repo_id of
        None \<Rightarrow> Inl InvalidName
      | Some r \<Rightarrow>
          if r_slug r = new_slug then Inr db
          else if repo_slug_unavailable db (r_org r) new_slug then
            Inl (if exists_where (\<lambda>q. r_org q = r_org r \<and> r_slug q = new_slug) (repos db) then Taken else Retired)
          else case retire_slug RepoSlug (r_slug r) (Some (r_org r)) repo_id db of
              Inl e \<Rightarrow> Inl (RenameDb e)
            | Inr db \<Rightarrow> Inr (db\<lparr>repos := upd_where (\<lambda>q. r_id q = repo_id) (\<lambda>q. q\<lparr>r_slug := new_slug\<rparr>) (repos db)\<rparr>))"

section \<open>Deletion\<close>

text \<open>The \<open>on delete cascade\<close> and \<open>on delete set null\<close> references of the schema, per table.\<close>

definition del_packages :: "(package_row \<Rightarrow> bool) \<Rightarrow> db \<Rightarrow> db" where
  "del_packages P db =
     (let gone = (\<lambda>i. exists_where (\<lambda>p. P p \<and> p_id p = i) (packages db));
          db = del_versions (\<lambda>v. gone (v_package v)) db
      in db\<lparr>packages := del_where P (packages db),
           grants := del_where (\<lambda>g. gone (g_package g)) (grants db),
           set_members := del_where (\<lambda>m. gone (sm_package m)) (set_members db),
           ents := del_where (\<lambda>e. gone (en_package e)) (ents db)\<rparr>)"

definition del_licenses :: "(license_row \<Rightarrow> bool) \<Rightarrow> db \<Rightarrow> db" where
  "del_licenses P db =
     (let gone = (\<lambda>i. exists_where (\<lambda>l. P l \<and> l_id l = i) (licenses db))
      in db\<lparr>licenses := del_where P (licenses db),
           ents := del_where (\<lambda>e. gone (en_license e)) (ents db),
           set_ents := del_where (\<lambda>e. gone (ls_license e)) (set_ents db),
           renewals := del_where (\<lambda>n. gone (rn_license n)) (renewals db)\<rparr>)"

definition del_upstreams :: "(upstream_row \<Rightarrow> bool) \<Rightarrow> db \<Rightarrow> db" where
  "del_upstreams P db =
     (let gone = (\<lambda>x. case x of None \<Rightarrow> False | Some i \<Rightarrow> exists_where (\<lambda>u. P u \<and> ur_id u = i) (upstreams db))
      in db\<lparr>upstreams := del_where P (upstreams db),
           jobs := del_where (\<lambda>j. gone (j_upstream j)) (jobs db),
           requires_t := del_where (\<lambda>q. gone (Some (uq_upstream q))) (requires_t db),
           source_paths_t := del_where (\<lambda>q. gone (Some (sp_upstream q))) (source_paths_t db),
           packages := upd_where (\<lambda>p. gone (p_upstream p)) (\<lambda>p. p\<lparr>p_upstream := None\<rparr>) (packages db),
           plans := upd_where (\<lambda>d. gone (dp_resolver d)) (\<lambda>d. d\<lparr>dp_resolver := None\<rparr>) (plans db)\<rparr>)"

definition del_editions :: "(edition_row \<Rightarrow> bool) \<Rightarrow> db \<Rightarrow> db" where
  "del_editions P db =
     (let gone = (\<lambda>x. case x of None \<Rightarrow> False | Some i \<Rightarrow> exists_where (\<lambda>e. P e \<and> ed_id e = i) (editions db))
      in db\<lparr>editions := del_where P (editions db),
           licenses := upd_where (\<lambda>l. gone (l_edition l)) (\<lambda>l. l\<lparr>l_edition := None\<rparr>) (licenses db)\<rparr>)"

definition del_uploads :: "(upload_row \<Rightarrow> bool) \<Rightarrow> db \<Rightarrow> db" where
  "del_uploads P db = db\<lparr>uploads := del_where P (uploads db),
     parts := del_where (\<lambda>p. exists_where (\<lambda>u. P u \<and> us_id u = up_session p) (uploads db)) (parts db)\<rparr>"

definition delete_repo_row :: "uuid \<Rightarrow> db \<Rightarrow> db" where
  "delete_repo_row repo db =
     (let db = del_packages (\<lambda>p. p_repo p = repo) db;
          db = del_licenses (\<lambda>l. l_repo l = repo) db;
          db = del_upstreams (\<lambda>u. ur_repo u = repo) db;
          db = del_editions (\<lambda>e. ed_repo e = repo) db;
          db = del_uploads (\<lambda>u. us_repo u = repo) db;
          db = del_snapshots (\<lambda>s. sn_repo s = repo) db
      in db\<lparr>repos := del_where (\<lambda>r. r_id r = repo) (repos db),
           latests := del_where (\<lambda>l. la_repo l = repo) (latests db),
           grants := del_where (\<lambda>g. g_repo g = repo) (grants db),
           grant_rules := del_where (\<lambda>g. gr_target g = repo) (grant_rules db),
           members := del_where (\<lambda>m. m_repo m = repo \<or> m_member m = repo) (members db),
           tokens := del_where (\<lambda>t. t_repo t = Some repo) (tokens db),
           service_tokens := del_where (\<lambda>t. c_repo t = repo) (service_tokens db),
           publish_tokens := del_where (\<lambda>t. c_repo t = repo) (publish_tokens db),
           jobs := del_where (\<lambda>j. j_repo j = Some repo) (jobs db),
           ci_policies_t := del_where (\<lambda>c. ci_repo c = repo) (ci_policies_t db),
           plans := del_where (\<lambda>d. dp_repo d = repo) (plans db),
           remotes_t := upd_where (\<lambda>m. rm_snap_repo m = Some repo) (\<lambda>m. m\<lparr>rm_snap_repo := None\<rparr>) (remotes_t db)\<rparr>)"

definition delete_repo :: "db \<Rightarrow> uuid \<Rightarrow> (sql_error, bool \<times> db) result" where
  "delete_repo db repo = (case repo_named db repo of
     None \<Rightarrow> Inr (False, db)
   | Some r \<Rightarrow> and_then (retire_slug RepoSlug (r_slug r) (Some (r_org r)) repo db)
       (\<lambda>db. Inr (True, delete_repo_row repo db)))"

section \<open>Custom domains\<close>

definition label_ok :: "string \<Rightarrow> bool" where
  "label_ok l \<longleftrightarrow> l \<noteq> [] \<and> length l \<le> 63 \<and> list_all (\<lambda>b. is_alnum b \<or> b = CHR ''-'') l
     \<and> \<not> starts_with ''-'' l \<and> \<not> ends_with ''-'' l"

definition normalize_custom_domain :: "string \<Rightarrow> string option" where
  "normalize_custom_domain raw =
     (let host = ascii_lower (trim_end_char (CHR ''.'') (trim raw));
          labels = split_on (CHR ''.'') host;
          tld_alpha = list_ex is_alpha (last labels)
      in if length host \<le> 253 \<and> length labels \<ge> 2 \<and> list_all label_ok labels \<and> tld_alpha
         then Some host else None)"

datatype custom_domain_error = DomainDb sql_error | DomainTaken | DomainInvalid

definition set_custom_domain :: "db \<Rightarrow> uuid \<Rightarrow> string option
    \<Rightarrow> (custom_domain_error, string option \<times> db) result" where
  "set_custom_domain db repo raw =
     and_then (case raw of None \<Rightarrow> Inr None
         | Some s \<Rightarrow> (case normalize_custom_domain s of None \<Rightarrow> Inl DomainInvalid | Some d \<Rightarrow> Inr (Some d)))
       (\<lambda>domain.
          if \<not> exists_where (\<lambda>r. r_id r = repo) (repos db) then Inl (DomainDb RowNotFound)
          else if domain \<noteq> None \<and> exists_where (\<lambda>r. r_id r \<noteq> repo \<and> r_domain r = domain) (repos db)
          then Inl DomainTaken
          else Inr (domain, db\<lparr>repos := upd_where (\<lambda>r. r_id r = repo) (\<lambda>r. r\<lparr>r_domain := domain\<rparr>) (repos db)\<rparr>))"

definition repo_by_custom_domain :: "db \<Rightarrow> string \<Rightarrow> repo_location option" where
  "repo_by_custom_domain db raw =
     (let host = ascii_lower (trim_end_char (CHR ''.'') raw)
      in case select_one (\<lambda>r. r_domain r = Some host \<and> org_with_id db (r_org r) \<noteq> None) (repos db) of
           None \<Rightarrow> None
         | Some r \<Rightarrow> map_option (\<lambda>o'. \<lparr>loc_repo_id = r_id r, loc_org_slug = o_slug o',
               loc_repo_slug = r_slug r, loc_moved = False\<rparr>) (org_with_id db (r_org r)))"

section \<open>What a name is bound to\<close>

text \<open>The repository or organization a slug denotes, live or retired, whether it still exists.\<close>

definition bind_org :: "db \<Rightarrow> string \<Rightarrow> uuid option" where
  "bind_org db slug = (case org_by_slug db slug of Some r \<Rightarrow> Some (o_id r)
     | None \<Rightarrow> map_option sl_entity (select_one (is_org_slug slug) (slugs db)))"

definition bind_repo :: "db \<Rightarrow> uuid \<times> string \<Rightarrow> uuid option" where
  "bind_repo db k = (case repo_by_slug db (fst k) (snd k) of Some r \<Rightarrow> Some (r_id r)
     | None \<Rightarrow> map_option sl_entity (select_one (is_repo_slug (fst k) (snd k)) (slugs db)))"

definition slug_key :: "slug_row \<Rightarrow> slug_entity \<times> uuid option \<times> string" where
  "slug_key h = (sl_kind h, if sl_kind h = OrgSlug then None else sl_org h, sl_old h)"

definition names_ok :: "db \<Rightarrow> bool" where
  "names_ok db \<longleftrightarrow> distinct (map o_id (orgs db)) \<and> distinct (map o_slug (orgs db))
     \<and> distinct (map r_id (repos db)) \<and> distinct (map (\<lambda>r. (r_org r, r_slug r)) (repos db))
     \<and> distinct (map slug_key (slugs db))"

lemma select_one_key:
  assumes "distinct (map k t)" "r \<in> set t" "P r" "\<And>s. s \<in> set t \<Longrightarrow> P s \<Longrightarrow> k s = k r"
  shows "select_one P t = Some r"
proof -
  obtain s where s: "select_one P t = Some s"
    using assms(2,3) by (cases "select_one P t") (auto simp: select_one_None)
  have "s \<in> set t" "P s" using select_one_Some[OF s] by auto
  then have "s = r" using distinct_map_eqD[OF assms(1)] assms(2,4) by blast
  with s show ?thesis by simp
qed

lemma select_slug:
  assumes "names_ok db" "h \<in> set (slugs db)"
  shows "is_org_slug s h \<Longrightarrow> select_one (is_org_slug s) (slugs db) = Some h"
    "is_repo_slug i s h \<Longrightarrow> select_one (is_repo_slug i s) (slugs db) = Some h"
  using assms
  by (auto intro!: select_one_key[where k = slug_key]
      simp: names_ok_def is_org_slug_def is_repo_slug_def slug_key_def)

lemma locate_org_bind:
  assumes "names_ok db" "locate_org db slug = Some (i, c, m)"
  shows "bind_org db slug = Some i"
proof (cases "org_by_slug db slug")
  case None
  then obtain h where h: "select_one (\<lambda>h. is_org_slug slug h \<and> org_with_id db (sl_entity h) \<noteq> None) (slugs db)
      = Some h" "map_option (\<lambda>r. (o_id r, o_slug r, True)) (org_with_id db (sl_entity h)) = Some (i, c, m)"
    using assms(2) by (auto simp: locate_org_def split: option.splits)
  then have "h \<in> set (slugs db)" "is_org_slug slug h" using select_one_Some by force+
  moreover have "sl_entity h = i"
    using h(2) by (auto simp: org_with_id_def dest: select_one_Some)
  ultimately show ?thesis using None select_slug(1)[OF assms(1)] by (simp add: bind_org_def)
qed (use assms in \<open>auto simp: locate_org_def bind_org_def\<close>)

lemma locate_repo_bind:
  assumes "names_ok db" "locate_repo db org slug = Some (i, c, m)"
  shows "bind_repo db (org, slug) = Some i"
proof (cases "repo_by_slug db org slug")
  case None
  then obtain h where h: "select_one (\<lambda>h. is_repo_slug org slug h \<and> repo_named db (sl_entity h) \<noteq> None) (slugs db)
      = Some h" "map_option (\<lambda>r. (r_id r, r_slug r, True)) (repo_named db (sl_entity h)) = Some (i, c, m)"
    using assms(2) by (auto simp: locate_repo_def split: option.splits)
  then have "h \<in> set (slugs db)" "is_repo_slug org slug h" using select_one_Some by force+
  moreover have "sl_entity h = i"
    using h(2) by (auto dest: repo_namedD)
  ultimately show ?thesis using None select_slug(2)[OF assms(1)] by (simp add: bind_repo_def)
qed (use assms in \<open>auto simp: locate_repo_def bind_repo_def\<close>)

section \<open>Steps that change names\<close>

definition same_names :: "db \<Rightarrow> db \<Rightarrow> bool" where
  "same_names db db' \<longleftrightarrow> map (\<lambda>r. (o_id r, o_slug r)) (orgs db') = map (\<lambda>r. (o_id r, o_slug r)) (orgs db)
     \<and> map (\<lambda>r. (r_id r, r_org r, r_slug r)) (repos db') = map (\<lambda>r. (r_id r, r_org r, r_slug r)) (repos db)
     \<and> slugs db' = slugs db"

inductive name_step :: "db \<Rightarrow> db \<Rightarrow> bool" where
  name_org_create: "cli_org_create i db slug nm = Inr db' \<Longrightarrow> i \<notin> o_id ` set (orgs db) \<Longrightarrow> name_step db db'"
| name_repo_create: "cli_repo_create i db org repo = Inr db' \<Longrightarrow> i \<notin> r_id ` set (repos db) \<Longrightarrow> name_step db db'"
| name_rename_org: "rename_org db i slug = Inr db' \<Longrightarrow> name_step db db'"
| name_rename_repo: "rename_repo db i slug = Inr db' \<Longrightarrow> name_step db db'"
| name_delete: "delete_repo db i = Inr (d, db') \<Longrightarrow> name_step db db'"
| name_other: "same_names db db' \<Longrightarrow> name_step db db'"

definition binds_more :: "db \<Rightarrow> db \<Rightarrow> bool" where
  "binds_more db db' \<longleftrightarrow> (\<forall>s i. bind_org db s = Some i \<longrightarrow> bind_org db' s = Some i)
     \<and> (\<forall>k i. bind_repo db k = Some i \<longrightarrow> bind_repo db' k = Some i)"

text \<open>Bindings as relations: live names \<open>L\<close> first, retired names \<open>H\<close> otherwise.\<close>

definition bnd :: "('k \<times> uuid) set \<Rightarrow> ('k \<times> uuid) set \<Rightarrow> 'k \<Rightarrow> uuid \<Rightarrow> bool" where
  "bnd L H k i \<longleftrightarrow> (k, i) \<in> L \<or> k \<notin> fst ` L \<and> (k, i) \<in> H"

lemma bnd_step:
  assumes "\<And>k i. (k, i) \<in> L \<Longrightarrow> (k, i) \<in> L' \<or> k \<notin> fst ` L' \<and> (k, i) \<in> H'" "H \<subseteq> H'"
    and "\<And>k. k \<in> fst ` L' \<Longrightarrow> k \<in> fst ` L \<or> k \<notin> fst ` H" "bnd L H k i"
  shows "bnd L' H' k i"
proof (cases "(k, i) \<in> L")
  case True
  then show ?thesis using assms(1) by (auto simp: bnd_def)
next
  case False
  then have "k \<notin> fst ` L" "(k, i) \<in> H" using assms(4) by (auto simp: bnd_def)
  moreover from this have "k \<notin> fst ` L'" using assms(3)[of k] by force
  ultimately show ?thesis using assms(2) by (auto simp: bnd_def)
qed

definition org_live :: "db \<Rightarrow> (string \<times> uuid) set" where
  "org_live db = set (map (\<lambda>r. (o_slug r, o_id r)) (orgs db))"

definition org_hist :: "db \<Rightarrow> (string \<times> uuid) set" where
  "org_hist db = {(sl_old h, sl_entity h) | h. h \<in> set (slugs db) \<and> sl_kind h = OrgSlug}"

definition repo_live :: "db \<Rightarrow> ((uuid \<times> string) \<times> uuid) set" where
  "repo_live db = set (map (\<lambda>r. ((r_org r, r_slug r), r_id r)) (repos db))"

definition repo_hist :: "db \<Rightarrow> ((uuid \<times> string) \<times> uuid) set" where
  "repo_hist db = {((g, sl_old h), sl_entity h) | h g. h \<in> set (slugs db) \<and> sl_kind h = RepoSlug \<and> sl_org h = Some g}"

lemma in_hist:
  "(s, i) \<in> org_hist db \<longleftrightarrow> (\<exists>h\<in>set (slugs db). is_org_slug s h \<and> sl_entity h = i)"
  "((g, s), i) \<in> repo_hist db \<longleftrightarrow> (\<exists>h\<in>set (slugs db). is_repo_slug g s h \<and> sl_entity h = i)"
  by (auto simp: org_hist_def is_org_slug_def repo_hist_def is_repo_slug_def)

lemma bind_org_bnd:
  assumes "names_ok db"
  shows "bind_org db s = Some i \<longleftrightarrow> bnd (org_live db) (org_hist db) s i"
proof (cases "org_by_slug db s")
  case None
  then have n: "s \<notin> fst ` org_live db" by (auto simp: org_by_slug_def select_one_None org_live_def)
  have "bind_org db s = Some i \<longleftrightarrow> (\<exists>h. select_one (is_org_slug s) (slugs db) = Some h \<and> sl_entity h = i)"
    using None by (auto simp: bind_org_def)
  also have "\<dots> \<longleftrightarrow> (s, i) \<in> org_hist db"
    using select_slug(1)[OF assms] select_one_Some[of "is_org_slug s" "slugs db"]
    unfolding in_hist by blast
  finally show ?thesis using n by (force simp: bnd_def)
next
  case (Some r)
  then have r: "r \<in> set (orgs db)" "o_slug r = s" by (auto simp: org_by_slug_def dest: select_one_Some)
  have "r' = r" if "r' \<in> set (orgs db)" "o_slug r' = s" for r'
    using assms r that by (auto simp: names_ok_def dest: distinct_map_eqD)
  then have "(s, i) \<in> org_live db \<longleftrightarrow> o_id r = i" using r by (force simp: org_live_def)
  moreover have "s \<in> fst ` org_live db" using r by (force simp: org_live_def)
  ultimately show ?thesis using Some by (simp add: bind_org_def bnd_def)
qed

lemma bind_repo_bnd:
  assumes "names_ok db"
  shows "bind_repo db k = Some i \<longleftrightarrow> bnd (repo_live db) (repo_hist db) k i"
proof -
  obtain g s where k: "k = (g, s)" by fastforce
  show ?thesis
  proof (cases "repo_by_slug db g s")
    case None
    then have n: "k \<notin> fst ` repo_live db" by (auto simp: repo_by_slug_def select_one_None repo_live_def k)
    have "bind_repo db k = Some i \<longleftrightarrow> (\<exists>h. select_one (is_repo_slug g s) (slugs db) = Some h \<and> sl_entity h = i)"
      using None by (auto simp: bind_repo_def k)
    also have "\<dots> \<longleftrightarrow> (k, i) \<in> repo_hist db"
      using select_slug(2)[OF assms] select_one_Some[of "is_repo_slug g s" "slugs db"]
      unfolding in_hist k by blast
    finally show ?thesis using n by (force simp: bnd_def)
  next
    case (Some r)
    then have r: "r \<in> set (repos db)" "(r_org r, r_slug r) = k"
      by (auto simp: repo_by_slug_def k dest: select_one_Some)
    have "r' = r" if "r' \<in> set (repos db)" "(r_org r', r_slug r') = k" for r'
      using assms r that unfolding names_ok_def by (meson distinct_map_eqD)
    then have "(k, i) \<in> repo_live db \<longleftrightarrow> r_id r = i" using r by (force simp: repo_live_def)
    moreover have "k \<in> fst ` repo_live db" using r by (force simp: repo_live_def)
    ultimately show ?thesis using Some by (simp add: bind_repo_def bnd_def k)
  qed
qed

lemma binds_moreI:
  assumes "names_ok db" "names_ok db'"
    and "\<And>k i. (k, i) \<in> org_live db \<Longrightarrow> (k, i) \<in> org_live db' \<or> k \<notin> fst ` org_live db' \<and> (k, i) \<in> org_hist db'"
    and "org_hist db \<subseteq> org_hist db'"
    and "\<And>k. k \<in> fst ` org_live db' \<Longrightarrow> k \<in> fst ` org_live db \<or> k \<notin> fst ` org_hist db"
    and "\<And>k i. (k, i) \<in> repo_live db \<Longrightarrow> (k, i) \<in> repo_live db' \<or> k \<notin> fst ` repo_live db' \<and> (k, i) \<in> repo_hist db'"
    and "repo_hist db \<subseteq> repo_hist db'"
    and "\<And>k. k \<in> fst ` repo_live db' \<Longrightarrow> k \<in> fst ` repo_live db \<or> k \<notin> fst ` repo_hist db"
  shows "binds_more db db'"
  unfolding binds_more_def bind_org_bnd[OF assms(1)] bind_org_bnd[OF assms(2)]
    bind_repo_bnd[OF assms(1)] bind_repo_bnd[OF assms(2)]
  using bnd_step[OF assms(3-5)] bnd_step[OF assms(6-8)] by blast

lemma name_sets_cong:
  "map (\<lambda>r. (o_slug r, o_id r)) (orgs db') = map (\<lambda>r. (o_slug r, o_id r)) (orgs db) \<Longrightarrow> org_live db' = org_live db"
  "map (\<lambda>r. ((r_org r, r_slug r), r_id r)) (repos db') = map (\<lambda>r. ((r_org r, r_slug r), r_id r)) (repos db)
    \<Longrightarrow> repo_live db' = repo_live db"
  "slugs db' = slugs db \<Longrightarrow> org_hist db' = org_hist db" "slugs db' = slugs db \<Longrightarrow> repo_hist db' = repo_hist db"
  by (simp_all add: org_live_def repo_live_def org_hist_def repo_hist_def)

lemma binds_more_sets:
  assumes "names_ok db" "names_ok db'" "org_live db' = org_live db" "repo_live db' = repo_live db"
    "org_hist db' = org_hist db" "repo_hist db' = repo_hist db"
  shows "binds_more db db'"
  by (rule binds_moreI[OF assms(1,2)]) (simp_all add: assms(3-))

lemma retire_slugE:
  assumes "retire_slug kind old org i db = Inr db'"
  obtains h where "db' = db\<lparr>slugs := slugs db @ [h]\<rparr>" "sl_kind h = kind" "sl_old h = old" "sl_org h = org"
    "sl_entity h = i" "slug_key h \<notin> slug_key ` set (slugs db)"
proof (rule that)
  let ?h = "\<lparr>sl_kind = kind, sl_old = old, sl_org = org, sl_entity = i\<rparr>"
  show "db' = db\<lparr>slugs := slugs db @ [?h]\<rparr>"
    using assms by (auto simp: retire_slug_def split: if_splits)
  show "slug_key ?h \<notin> slug_key ` set (slugs db)"
    using assms by (auto simp: retire_slug_def slug_key_def split: if_splits)
qed simp_all

lemma names_org_create:
  assumes ok: "names_ok db" and i: "i \<notin> o_id ` set (orgs db)" and c: "cli_org_create i db slug nm = Inr db'"
  shows "names_ok db' \<and> binds_more db db'"
proof (cases "org_by_slug db slug")
  case None
  then have db': "db' = db\<lparr>orgs := orgs db @ [\<lparr>o_id = i, o_slug = slug, o_name = nm\<rparr>]\<rparr>"
    and free: "(slug, b) \<notin> org_hist db" for b
    using c by (auto simp: cli_org_create_def create_org_def org_slug_retired_def in_hist split: if_splits)
  have "slug \<notin> o_slug ` set (orgs db)" using None by (auto simp: org_by_slug_def select_one_None)
  then have ok': "names_ok db'" using ok i by (auto simp: db' names_ok_def)
  have l: "org_live db' = insert (slug, i) (org_live db)" by (simp add: org_live_def db')
  have "repo_live db' = repo_live db" "org_hist db' = org_hist db" "repo_hist db' = repo_hist db"
    by (simp_all add: repo_live_def org_hist_def repo_hist_def db')
  then have "binds_more db db'" by (intro binds_moreI[OF ok ok']) (auto simp: l free)
  with ok' show ?thesis by simp
next
  case (Some r)
  then have db': "db' = db\<lparr>orgs := upd_where (\<lambda>r. o_slug r = slug)
      (\<lambda>r. r\<lparr>o_name := (case nm of Some n \<Rightarrow> Some n | None \<Rightarrow> o_name r)\<rparr>) (orgs db)\<rparr>"
    using c by (auto simp: cli_org_create_def create_org_def split: if_splits)
  have "map o_id (orgs db') = map o_id (orgs db)" "map o_slug (orgs db') = map o_slug (orgs db)"
    by (simp_all add: db' map_upd_where_key)
  then have ok': "names_ok db'" using ok by (simp add: names_ok_def db')
  have "org_live db' = org_live db" by (rule name_sets_cong) (simp add: db' map_upd_where_key)
  then have "binds_more db db'"
    by (rule binds_more_sets[OF ok ok']) (auto simp: repo_live_def org_hist_def repo_hist_def db')
  with ok' show ?thesis by simp
qed

lemma names_repo_create:
  assumes ok: "names_ok db" and i: "i \<notin> r_id ` set (repos db)" and c: "cli_repo_create i db org slug = Inr db'"
  shows "names_ok db' \<and> binds_more db db'"
proof -
  obtain g where g: "org_by_slug db org = Some g"
    using c by (auto simp: cli_repo_create_def create_repo_def split: option.splits)
  show ?thesis
  proof (cases "repo_by_slug db (o_id g) slug")
    case None
    then have db': "db' = db\<lparr>repos := repos db @ [new_repo i (o_id g) slug]\<rparr>"
      and free: "((o_id g, slug), b) \<notin> repo_hist db" for b
      using c g by (auto simp: cli_repo_create_def create_repo_def repo_slug_retired_def in_hist
          split: if_splits)
    have "(o_id g, slug) \<notin> (\<lambda>r. (r_org r, r_slug r)) ` set (repos db)"
      using None by (auto simp: repo_by_slug_def select_one_None)
    then have ok': "names_ok db'" using ok i by (auto simp: db' names_ok_def new_repo_def)
    have l: "repo_live db' = insert ((o_id g, slug), i) (repo_live db)"
      by (simp add: repo_live_def db' new_repo_def)
    have "org_live db' = org_live db" "org_hist db' = org_hist db" "repo_hist db' = repo_hist db"
      by (simp_all add: org_live_def org_hist_def repo_hist_def db')
    then have "binds_more db db'" by (intro binds_moreI[OF ok ok']) (auto simp: l free)
    with ok' show ?thesis by simp
  next
    case (Some r)
    then have "db' = db" using c g by (auto simp: cli_repo_create_def create_repo_def split: if_splits)
    with ok show ?thesis by (simp add: binds_more_def)
  qed
qed

lemma hist_retire:
  assumes "db' = db\<lparr>slugs := slugs db @ [h]\<rparr>"
  shows "org_hist db' = (if sl_kind h = OrgSlug then insert (sl_old h, sl_entity h) (org_hist db) else org_hist db)"
    "repo_hist db' = (case sl_org h of Some g \<Rightarrow> if sl_kind h = RepoSlug
       then insert ((g, sl_old h), sl_entity h) (repo_hist db) else repo_hist db | None \<Rightarrow> repo_hist db)"
  by (auto simp: org_hist_def repo_hist_def assms split: option.splits)

lemma distinct_map_upd_one:
  assumes "distinct (map k t)" "distinct (map g t)" "\<And>r. P r \<longleftrightarrow> k r = c" "\<And>r. g (f r) = n"
    "n \<notin> g ` set t"
  shows "distinct (map g (upd_where P f t))"
  using assms
proof (induction t)
  case (Cons r t)
  show ?case
  proof (cases "P r")
    case True
    then have "\<not> P q" if "q \<in> set t" for q
      using Cons.prems(1) that unfolding Cons.prems(3) by (auto simp: image_iff)
    then have "upd_where P f t = t" by (rule upd_where_none)
    then show ?thesis using True Cons.prems(2,4,5) by (simp add: upd_where_Cons)
  next
    case False
    have n: "g r \<notin> g ` set (upd_where P f t)"
      using Cons.prems(2,4,5) by (auto elim!: in_upd_whereE)
    have "distinct (map g (upd_where P f t))"
      by (rule Cons.IH) (use Cons.prems(1,2,5) in \<open>simp_all add: assms(3,4)\<close>)
    with n show ?thesis using False by (simp add: upd_where_Cons)
  qed
qed simp

lemma pairs_upd_where:
  assumes "\<And>r. P r \<longleftrightarrow> k r = i" "\<And>r. k (f r) = k r" "\<And>r. r \<in> set t \<Longrightarrow> P r \<Longrightarrow> g (f r) = n"
  shows "(a, j) \<in> set (map (\<lambda>r. (g r, k r)) (upd_where P f t)) \<longleftrightarrow>
    (a, j) \<in> set (map (\<lambda>r. (g r, k r)) t) \<and> j \<noteq> i \<or> a = n \<and> j = i \<and> (\<exists>r\<in>set t. P r)"
  using assms by (induction t) (auto simp: upd_where_Cons)

lemma names_ok_retire:
  assumes "names_ok db" "retire_slug kind old org i db = Inr db'"
  shows "names_ok db'"
proof -
  obtain h where "db' = db\<lparr>slugs := slugs db @ [h]\<rparr>" "slug_key h \<notin> slug_key ` set (slugs db)"
    using retire_slugE[OF assms(2)] by metis
  then show ?thesis using assms(1) by (simp add: names_ok_def)
qed

lemma moved_name:
  assumes live': "\<And>k j. (k, j) \<in> L' \<longleftrightarrow> (k, j) \<in> L \<and> j \<noteq> i \<or> k = new \<and> j = i \<and> keep"
    and inj: "\<And>k j j'. (k, j) \<in> L \<Longrightarrow> (k, j') \<in> L \<Longrightarrow> j = j'" "\<And>k k'. (k, i) \<in> L \<Longrightarrow> (k', i) \<in> L \<Longrightarrow> k = k'"
    and cur: "(old, i) \<in> L" and new: "keep \<Longrightarrow> new \<notin> fst ` L \<and> new \<notin> fst ` H"
    and H': "H' = insert (old, i) H"
  shows "\<And>k j. (k, j) \<in> L \<Longrightarrow> (k, j) \<in> L' \<or> k \<notin> fst ` L' \<and> (k, j) \<in> H'" "H \<subseteq> H'"
    "\<And>k. k \<in> fst ` L' \<Longrightarrow> k \<in> fst ` L \<or> k \<notin> fst ` H"
proof -
  fix k j assume kj: "(k, j) \<in> L"
  show "(k, j) \<in> L' \<or> k \<notin> fst ` L' \<and> (k, j) \<in> H'"
  proof (cases "j = i")
    case True
    then have "k = old" using inj(2) cur kj by blast
    moreover have "k \<notin> fst ` L'"
    proof
      assume "k \<in> fst ` L'"
      then obtain j' where "(k, j') \<in> L'" by force
      then consider "(k, j') \<in> L" "j' \<noteq> i" | "k = new" keep using live' by blast
      then show False
      proof cases
        case 1
        then show ?thesis using inj(1)[OF kj] True by blast
      next
        case 2
        then show ?thesis using new kj by (metis fst_conv image_eqI)
      qed
    qed
    ultimately show ?thesis using True H' by simp
  qed (use kj live' in blast)
next
  show "H \<subseteq> H'" using H' by blast
  fix k assume "k \<in> fst ` L'"
  then obtain j where "(k, j) \<in> L'" by force
  then consider "(k, j) \<in> L" | "k = new" keep using live' by blast
  then show "k \<in> fst ` L \<or> k \<notin> fst ` H"
    by cases (force, use new in blast)
qed

lemma live_fun:
  assumes "names_ok db"
  shows "(k, j) \<in> org_live db \<Longrightarrow> (k, j') \<in> org_live db \<Longrightarrow> j = j'"
    "(k, j) \<in> org_live db \<Longrightarrow> (k', j) \<in> org_live db \<Longrightarrow> k = k'"
    "(q, j) \<in> repo_live db \<Longrightarrow> (q, j') \<in> repo_live db \<Longrightarrow> j = j'"
    "(q, j) \<in> repo_live db \<Longrightarrow> (q', j) \<in> repo_live db \<Longrightarrow> q = q'"
proof -
  note d = assms[unfolded names_ok_def]
  show "(k, j) \<in> org_live db \<Longrightarrow> (k, j') \<in> org_live db \<Longrightarrow> j = j'"
    using d distinct_map_eqD[of o_slug "orgs db"] by (force simp: org_live_def)
  show "(k, j) \<in> org_live db \<Longrightarrow> (k', j) \<in> org_live db \<Longrightarrow> k = k'"
    using d distinct_map_eqD[of o_id "orgs db"] by (force simp: org_live_def)
  show "(q, j) \<in> repo_live db \<Longrightarrow> (q, j') \<in> repo_live db \<Longrightarrow> j = j'"
    using d distinct_map_eqD[of "\<lambda>r. (r_org r, r_slug r)" "repos db"] by (force simp: repo_live_def)
  show "(q, j) \<in> repo_live db \<Longrightarrow> (q', j) \<in> repo_live db \<Longrightarrow> q = q'"
    using d distinct_map_eqD[of r_id "repos db"] by (force simp: repo_live_def)
qed

lemma rename_orgE:
  assumes "rename_org db i raw = Inr db'"
  obtains "db' = db" | r db1 where "org_with_id db i = Some r" "\<not> org_slug_unavailable db (trim raw)"
    "retire_slug OrgSlug (o_slug r) None i db = Inr db1"
    "db' = db1\<lparr>orgs := upd_where (\<lambda>ro. o_id ro = i) (\<lambda>ro. ro\<lparr>o_slug := trim raw\<rparr>) (orgs db1)\<rparr>"
  using assms by (auto simp: rename_org_def Let_def split: if_splits option.splits sum.splits)

lemma rename_repoE:
  assumes "rename_repo db i raw = Inr db'"
  obtains "db' = db" | r db1 where "repo_named db i = Some r" "\<not> repo_slug_unavailable db (r_org r) (trim raw)"
    "retire_slug RepoSlug (r_slug r) (Some (r_org r)) i db = Inr db1"
    "db' = db1\<lparr>repos := upd_where (\<lambda>q. r_id q = i) (\<lambda>q. q\<lparr>r_slug := trim raw\<rparr>) (repos db1)\<rparr>"
  using assms by (auto simp: rename_repo_def Let_def split: if_splits option.splits sum.splits)

lemma names_rename_org:
  assumes ok: "names_ok db" and c: "rename_org db i raw = Inr db'"
  shows "names_ok db' \<and> binds_more db db'"
  using c
proof (cases rule: rename_orgE)
  case (2 r db1)
  obtain h where h: "db1 = db\<lparr>slugs := slugs db @ [h]\<rparr>" "sl_kind h = OrgSlug" "sl_old h = o_slug r"
      "sl_org h = None" "sl_entity h = i" using retire_slugE[OF 2(3)] by metis
  have r: "r \<in> set (orgs db)" "o_id r = i" using 2(1) by (auto simp: org_with_id_def dest: select_one_Some)
  have new: "trim raw \<notin> o_slug ` set (orgs db)" "trim raw \<notin> fst ` org_hist db"
    using 2(2) by (auto simp: org_slug_unavailable_def in_hist)
  have ok1: "names_ok db1" by (rule names_ok_retire[OF ok 2(3)])
  have "distinct (map o_slug (orgs db'))"
    unfolding 2(4) using ok1 new(1) h(1)
    by (auto intro!: distinct_map_upd_one[where k = o_id and c = i] simp: names_ok_def)
  then have ok': "names_ok db'" using ok1 by (simp add: names_ok_def 2(4) map_upd_where_key)
  have live: "(k, j) \<in> org_live db' \<longleftrightarrow> (k, j) \<in> org_live db \<and> j \<noteq> i \<or> k = trim raw \<and> j = i \<and> True" for k j
    using r pairs_upd_where[of "\<lambda>ro. o_id ro = i" o_id i _ "orgs db" o_slug "trim raw"]
    by (auto simp: org_live_def 2(4) h(1))
  have H': "org_hist db' = insert (o_slug r, i) (org_hist db)"
    using hist_retire(1)[OF h(1)] h(2,3,5) by (simp add: org_hist_def 2(4))
  have same: "repo_live db' = repo_live db" "repo_hist db' = repo_hist db"
    using hist_retire(2)[OF h(1)] h(4) by (simp_all add: repo_live_def repo_hist_def 2(4) h(1))
  have cur: "(o_slug r, i) \<in> org_live db" using r by (force simp: org_live_def)
  have nw: "trim raw \<notin> fst ` org_live db \<and> trim raw \<notin> fst ` org_hist db"
    using new by (auto simp: org_live_def)
  note m = moved_name[OF live live_fun(1,2)[OF ok] cur nw H']
  have "binds_more db db'"
    by (rule binds_moreI[OF ok ok' m(1) m(2) m(3)]) (simp_all add: same)
  with ok' show ?thesis by simp
qed (use ok in \<open>simp add: binds_more_def\<close>)

lemma names_rename_repo:
  assumes ok: "names_ok db" and c: "rename_repo db i raw = Inr db'"
  shows "names_ok db' \<and> binds_more db db'"
  using c
proof (cases rule: rename_repoE)
  case (2 r db1)
  obtain h where h: "db1 = db\<lparr>slugs := slugs db @ [h]\<rparr>" "sl_kind h = RepoSlug" "sl_old h = r_slug r"
      "sl_org h = Some (r_org r)" "sl_entity h = i" using retire_slugE[OF 2(3)] by metis
  have r: "r \<in> set (repos db)" "r_id r = i" using repo_namedD[OF 2(1)] by auto
  let ?new = "(r_org r, trim raw)"
  have new: "?new \<notin> (\<lambda>r. (r_org r, r_slug r)) ` set (repos db)" "?new \<notin> fst ` repo_hist db"
    using 2(2) by (auto simp: repo_slug_unavailable_def in_hist)
  have ok1: "names_ok db1" by (rule names_ok_retire[OF ok 2(3)])
  have only: "q = r" if "q \<in> set (repos db)" "r_id q = i" for q
    using ok r that by (auto simp: names_ok_def dest: distinct_map_eqD)
  have "upd_where (\<lambda>q. r_id q = i) (\<lambda>q. q\<lparr>r_slug := trim raw\<rparr>) (repos db) =
      upd_where (\<lambda>q. r_id q = i) (\<lambda>q. q\<lparr>r_slug := trim raw, r_org := r_org r\<rparr>) (repos db)"
    unfolding upd_where_def using only by auto
  then have "distinct (map (\<lambda>r. (r_org r, r_slug r)) (repos db'))"
    unfolding 2(4) using ok1 new(1) h(1)
    by (auto intro!: distinct_map_upd_one[where k = r_id and c = i and n = ?new] simp: names_ok_def)
  then have ok': "names_ok db'" using ok1 by (simp add: names_ok_def 2(4) map_upd_where_key)
  have rs: "repos db' = upd_where (\<lambda>q. r_id q = i) (\<lambda>q. q\<lparr>r_slug := trim raw\<rparr>) (repos db)"
    by (simp add: 2(4) h(1))
  have live: "(k, j) \<in> repo_live db' \<longleftrightarrow> (k, j) \<in> repo_live db \<and> j \<noteq> i \<or> k = ?new \<and> j = i \<and> True" for k j
  proof -
    have "(k, j) \<in> repo_live db' \<longleftrightarrow> (k, j) \<in> repo_live db \<and> j \<noteq> i \<or>
        k = ?new \<and> j = i \<and> (\<exists>q\<in>set (repos db). r_id q = i)"
      unfolding repo_live_def rs
      by (rule pairs_upd_where) (use only in auto)
    then show ?thesis using r by blast
  qed
  have H': "repo_hist db' = insert ((r_org r, r_slug r), i) (repo_hist db)"
    using hist_retire(2)[OF h(1)] h(2-5) by (simp add: repo_hist_def 2(4))
  have same: "org_live db' = org_live db" "org_hist db' = org_hist db"
    using hist_retire(1)[OF h(1)] h(2) by (simp_all add: org_live_def org_hist_def 2(4) h(1))
  have cur: "((r_org r, r_slug r), i) \<in> repo_live db" using r by (force simp: repo_live_def)
  have nw: "?new \<notin> fst ` repo_live db \<and> ?new \<notin> fst ` repo_hist db"
    using new by (auto simp: repo_live_def)
  note m = moved_name[OF live live_fun(3,4)[OF ok] cur nw H']
  have "binds_more db db'"
    by (rule binds_moreI[OF ok ok' _ _ _ m(1) m(2) m(3)]) (simp_all add: same)
  with ok' show ?thesis by simp
qed (use ok in \<open>simp add: binds_more_def\<close>)

lemma delete_repo_row_frame [simp]:
  "orgs (delete_repo_row i db) = orgs db" "slugs (delete_repo_row i db) = slugs db"
  "repos (delete_repo_row i db) = del_where (\<lambda>r. r_id r = i) (repos db)"
  "members (delete_repo_row i db) = del_where (\<lambda>m. m_repo m = i \<or> m_member m = i) (members db)"
  by (simp_all add: delete_repo_row_def Let_def del_packages_def del_licenses_def del_upstreams_def
      del_editions_def del_uploads_def del_snapshots_def del_versions_def)

lemma names_delete_repo:
  assumes ok: "names_ok db" and c: "delete_repo db i = Inr (d, db')"
  shows "names_ok db' \<and> binds_more db db'"
proof (cases "repo_named db i")
  case None
  then show ?thesis using assms by (auto simp: delete_repo_def binds_more_def)
next
  case (Some r)
  then obtain db1 where ret: "retire_slug RepoSlug (r_slug r) (Some (r_org r)) i db = Inr db1"
      and db': "db' = delete_repo_row i db1"
    using c by (auto simp: delete_repo_def and_then_Inr_iff)
  obtain h where h: "db1 = db\<lparr>slugs := slugs db @ [h]\<rparr>" "sl_kind h = RepoSlug" "sl_old h = r_slug r"
      "sl_org h = Some (r_org r)" "sl_entity h = i" using retire_slugE[OF ret] by metis
  have r: "r \<in> set (repos db)" "r_id r = i" using repo_namedD[OF Some] by auto
  have ok1: "names_ok db1" by (rule names_ok_retire[OF ok ret])
  then have ok': "names_ok db'" by (simp add: names_ok_def db' distinct_map_del_where)
  let ?new = "(r_org r, r_slug r)"
  have live: "(k, j) \<in> repo_live db' \<longleftrightarrow> (k, j) \<in> repo_live db \<and> j \<noteq> i \<or> k = ?new \<and> j = i \<and> False" for k j
    by (auto simp: repo_live_def db' h(1))
  have H': "repo_hist db' = insert ((r_org r, r_slug r), i) (repo_hist db)"
    using hist_retire(2)[OF h(1)] h(2-5) by (simp add: repo_hist_def db')
  have same: "org_live db' = org_live db" "org_hist db' = org_hist db"
    using hist_retire(1)[OF h(1)] h(2) by (simp_all add: org_live_def org_hist_def db' h(1))
  have cur: "((r_org r, r_slug r), i) \<in> repo_live db" using r by (force simp: repo_live_def)
  have nw: "False \<Longrightarrow> ?new \<notin> fst ` repo_live db \<and> ?new \<notin> fst ` repo_hist db" by simp
  note m = moved_name[OF live live_fun(3,4)[OF ok] cur nw H']
  have "binds_more db db'"
    by (rule binds_moreI[OF ok ok' _ _ _ m(1) m(2) m(3)]) (simp_all add: same)
  with ok' show ?thesis by simp
qed

lemma name_step_ok:
  assumes "name_step db db'" "names_ok db"
  shows "names_ok db' \<and> binds_more db db'"
  using assms
proof (induction rule: name_step.induct)
  case (name_other db db')
  note n = name_other(1)[unfolded same_names_def]
  have o: "map o_id (orgs db') = map o_id (orgs db)" "map o_slug (orgs db') = map o_slug (orgs db)"
    "map (\<lambda>r. (o_slug r, o_id r)) (orgs db') = map (\<lambda>r. (o_slug r, o_id r)) (orgs db)"
    using n[THEN conjunct1, THEN arg_cong[where f = "map fst"]]
      n[THEN conjunct1, THEN arg_cong[where f = "map snd"]]
      n[THEN conjunct1, THEN arg_cong[where f = "map (\<lambda>(a, b). (b, a))"]] by (simp_all add: o_def)
  have r: "map r_id (repos db') = map r_id (repos db)"
    "map (\<lambda>r. (r_org r, r_slug r)) (repos db') = map (\<lambda>r. (r_org r, r_slug r)) (repos db)"
    "map (\<lambda>r. ((r_org r, r_slug r), r_id r)) (repos db') = map (\<lambda>r. ((r_org r, r_slug r), r_id r)) (repos db)"
    using n[THEN conjunct2, THEN conjunct1, THEN arg_cong[where f = "map fst"]]
      n[THEN conjunct2, THEN conjunct1, THEN arg_cong[where f = "map snd"]]
      n[THEN conjunct2, THEN conjunct1, THEN arg_cong[where f = "map (\<lambda>(a, b, c). ((b, c), a))"]]
    by (simp_all add: o_def)
  have ok': "names_ok db'" using name_other(2) n by (simp add: names_ok_def o r)
  then show ?case
    using binds_more_sets[OF name_other(2) ok'] name_sets_cong(1)[OF o(3)] name_sets_cong(2)[OF r(3)] n
      name_sets_cong(3,4)[of db' db] by blast
next
  case (name_org_create i db slug nm db')
  then show ?case using names_org_create by metis
next
  case (name_repo_create i db org repo db')
  then show ?case using names_repo_create by metis
next
  case (name_rename_org db i slug db')
  then show ?case using names_rename_org by metis
next
  case (name_rename_repo db i slug db')
  then show ?case using names_rename_repo by metis
next
  case (name_delete db i d db')
  then show ?case using names_delete_repo by metis
qed

lemma name_steps_ok:
  assumes "name_step\<^sup>*\<^sup>* db db'" "names_ok db"
  shows "names_ok db' \<and> binds_more db db'"
  using assms
proof (induction rule: rtranclp_induct)
  case base
  then show ?case by (simp add: binds_more_def)
next
  case (step y z)
  then have "names_ok y" "binds_more db y" "names_ok z" "binds_more y z" using name_step_ok by blast+
  then show ?case by (simp add: binds_more_def)
qed

lemma resolve_bind:
  assumes "names_ok db" "resolve_repo_canonical db org repo = Some L"
  shows "\<exists>g. bind_org db org = Some g \<and> bind_repo db (g, repo) = Some (loc_repo_id L)"
proof -
  obtain g gs gm i rs rm where "locate_org db org = Some (g, gs, gm)" "locate_repo db g repo = Some (i, rs, rm)"
      "L = \<lparr>loc_repo_id = i, loc_org_slug = gs, loc_repo_slug = rs, loc_moved = (gm \<or> rm)\<rparr>"
    using assms(2) by (auto simp: resolve_repo_canonical_def split: option.splits)
  then show ?thesis using locate_org_bind[OF assms(1)] locate_repo_bind[OF assms(1)] by auto
qed

section \<open>Properties\<close>

text \<open>C6: a repository URL is never re-pointed. Whatever organizations and repositories are later
  created through the guarded commands, renamed or deleted, if an \<open>org/repo\<close> pair that resolved
  to a repository still resolves, it resolves to that same repository.\<close>

theorem urls_never_repointed:
  assumes "names_ok db" "resolve_repo_canonical db org repo = Some L" "name_step\<^sup>*\<^sup>* db db'"
    and "resolve_repo_canonical db' org repo = Some L'"
  shows "loc_repo_id L' = loc_repo_id L"
proof -
  have ok': "names_ok db'" and more: "binds_more db db'" using name_steps_ok[OF assms(3,1)] by auto
  obtain g where "bind_org db org = Some g" "bind_repo db (g, repo) = Some (loc_repo_id L)"
    using resolve_bind[OF assms(1,2)] by blast
  moreover obtain g' where "bind_org db' org = Some g'" "bind_repo db' (g', repo) = Some (loc_repo_id L')"
    using resolve_bind[OF ok' assms(4)] by blast
  ultimately show ?thesis using more by (metis binds_more_def option.inject)
qed

definition demo_names :: db where
  "demo_names = empty_db\<lparr>orgs := [\<lparr>o_id = 1, o_slug = ''acme'', o_name = None\<rparr>],
     repos := [new_repo 10 1 ''main'']\<rparr>"

definition demo_moved :: "string \<Rightarrow> bool \<Rightarrow> repo_location" where
  "demo_moved slug moved = \<lparr>loc_repo_id = 10, loc_org_slug = ''acme'', loc_repo_slug = slug, loc_moved = moved\<rparr>"

definition demo_renamed :: db where
  "demo_renamed = (case rename_repo demo_names 10 ''core'' of Inr db \<Rightarrow> db | Inl _ \<Rightarrow> empty_db)"

lemma urls_never_repointed_witness:
  "loc_repo_id (demo_moved ''core'' True) = loc_repo_id (demo_moved ''main'' False)"
proof -
  have "name_step demo_names demo_renamed"
    by (rule name_rename_repo[where i = 10 and slug = "''core''"]) code_simp
  moreover have "name_step demo_renamed (case cli_repo_create 11 demo_renamed ''acme'' ''new'' of Inr db \<Rightarrow> db | Inl _ \<Rightarrow> empty_db)"
    (is "name_step _ ?db2")
    by (rule name_repo_create[where i = 11 and org = "''acme''" and repo = "''new''"]) code_simp+
  ultimately have "name_step\<^sup>*\<^sup>* demo_names ?db2" by simp
  then show ?thesis
    by (rule urls_never_repointed[where org = "''acme''" and repo = "''main''", rotated 2]) code_simp+
qed

text \<open>After a rename the old URL still leads to the repository, flagged as moved with the new
  canonical slug, and the new URL leads to it directly.\<close>

theorem rename_redirects:
  assumes "names_ok db" "org_by_slug db org = Some g" "repo_by_slug db (o_id g) old = Some r"
    and "rename_repo db (r_id r) new = Inr db'" "trim new \<noteq> old"
  shows "resolve_repo_canonical db' org old = Some \<lparr>loc_repo_id = r_id r, loc_org_slug = org,
      loc_repo_slug = trim new, loc_moved = True\<rparr>
    \<and> resolve_repo_canonical db' org (trim new) = Some \<lparr>loc_repo_id = r_id r, loc_org_slug = org,
      loc_repo_slug = trim new, loc_moved = False\<rparr>"
proof -
  note ok = assms(1)
  have g: "g \<in> set (orgs db)" "o_slug g = org" using assms(2) by (auto simp: org_by_slug_def dest: select_one_Some)
  have r: "r \<in> set (repos db)" "r_org r = o_id g" "r_slug r = old"
    using assms(3) by (auto simp: repo_by_slug_def dest: select_one_Some)
  have rn: "repo_named db (r_id r) = Some r"
    unfolding repo_named_def using ok r by (auto simp: names_ok_def intro: select_one_key)
  obtain db1 where 2: "retire_slug RepoSlug old (Some (o_id g)) (r_id r) db = Inr db1"
      "\<not> repo_slug_unavailable db (o_id g) (trim new)"
      "db' = db1\<lparr>repos := upd_where (\<lambda>q. r_id q = r_id r) (\<lambda>q. q\<lparr>r_slug := trim new\<rparr>) (repos db1)\<rparr>"
    using assms(4,5) rn r by (auto simp: rename_repo_def Let_def split: if_splits sum.splits)
  obtain h where h: "db1 = db\<lparr>slugs := slugs db @ [h]\<rparr>" "sl_kind h = RepoSlug" "sl_old h = old"
      "sl_org h = Some (o_id g)" "sl_entity h = r_id r" using retire_slugE[OF 2(1)] by metis
  have ok': "names_ok db'" using names_rename_repo[OF ok assms(4)] by simp
  have og: "org_by_slug db' org = Some g" using assms(2) by (simp add: org_by_slug_def 2(3) h(1))
  have lo: "locate_org db' org = Some (o_id g, org, False)" using og g by (simp add: locate_org_def)
  let ?r = "r\<lparr>r_slug := trim new\<rparr>"
  have r': "?r \<in> set (repos db')" using r by (auto simp: 2(3) h(1) in_upd_where)
  have key: "distinct (map (\<lambda>r. (r_org r, r_slug r)) (repos db'))" "distinct (map r_id (repos db'))"
    using ok' by (auto simp: names_ok_def)
  have new: "repo_by_slug db' (o_id g) (trim new) = Some ?r"
    unfolding repo_by_slug_def by (rule select_one_key[OF key(1) r']) (use r in auto)
  have "r_id q \<noteq> r_id r" if "q \<in> set (repos db)" "r_org q = o_id g" "r_slug q = old" "q \<noteq> r" for q
    using ok that r(1) by (auto simp: names_ok_def dest: distinct_map_eqD)
  moreover have "q = r" if "q \<in> set (repos db)" "r_org q = o_id g" "r_slug q = old" for q
  proof -
    have "distinct (map (\<lambda>r. (r_org r, r_slug r)) (repos db))" using ok by (simp add: names_ok_def)
    from distinct_map_eqD[OF this that(1) r(1)] that r show ?thesis by simp
  qed
  ultimately have gone: "repo_by_slug db' (o_id g) old = None"
    unfolding repo_by_slug_def select_one_None 2(3) h(1) using assms(5) by (auto elim!: in_upd_whereE)
  have rn': "repo_named db' (r_id r) = Some ?r"
    unfolding repo_named_def by (rule select_one_key[OF key(2) r']) simp_all
  have "h \<in> set (slugs db')" by (simp add: 2(3) h(1))
  moreover have "distinct (map slug_key (slugs db'))" using ok' by (simp add: names_ok_def)
  ultimately have "select_one (\<lambda>h. is_repo_slug (o_id g) old h \<and> repo_named db' (sl_entity h) \<noteq> None) (slugs db') = Some h"
    by (intro select_one_key[where k = slug_key])
      (use h rn' in \<open>auto simp: is_repo_slug_def slug_key_def\<close>)
  then have "locate_repo db' (o_id g) old = Some (r_id r, trim new, True)"
    using gone rn' h(5) by (simp add: locate_repo_def)
  moreover have "locate_repo db' (o_id g) (trim new) = Some (r_id r, trim new, False)"
    using new by (simp add: locate_repo_def)
  ultimately show ?thesis using lo by (simp add: resolve_repo_canonical_def)
qed

lemma rename_redirects_witness:
  "resolve_repo_canonical demo_renamed ''acme'' ''main'' = Some (demo_moved ''core'' True)"
proof -
  have t: "trim ''core'' = ''core''" by code_simp
  have "resolve_repo_canonical demo_renamed ''acme'' ''main'' = Some \<lparr>loc_repo_id = r_id (new_repo 10 1 ''main''),
      loc_org_slug = ''acme'', loc_repo_slug = trim ''core'', loc_moved = True\<rparr>"
    by (rule rename_redirects[THEN conjunct1, of demo_names _ "\<lparr>o_id = 1, o_slug = ''acme'', o_name = None\<rparr>"])
      code_simp+
  then show ?thesis by (simp add: demo_moved_def new_repo_def t)
qed

text \<open>The web form for a new repository checks the trimmed name against the retired ones but
  stores the name as typed, so a retired name with a space around it can be taken again: a URL that
  redirected to one repository then opens another. The command line refuses the same name.\<close>

theorem ui_create_repoints:
  "\<exists>db db'. names_ok db \<and> ui_repo_create 12 (\<lambda>_. True) db ''acme'' '' main'' = Inr db'
     \<and> map_option loc_repo_id (resolve_repo_canonical db ''acme'' '' main'') = Some 10
     \<and> map_option loc_repo_id (resolve_repo_canonical db' ''acme'' '' main'') = Some 12
     \<and> cli_repo_create 12 db ''acme'' '' main'' = Inl ''was previously used and is retired''"
proof -
  let ?db0 = "empty_db\<lparr>orgs := [\<lparr>o_id = 1, o_slug = ''acme'', o_name = None\<rparr>],
     repos := [new_repo 10 1 '' main'']\<rparr>"
  let ?db = "case rename_repo ?db0 10 ''core'' of Inr db \<Rightarrow> db | Inl _ \<Rightarrow> empty_db"
  let ?db' = "case ui_repo_create 12 (\<lambda>_. True) ?db ''acme'' '' main'' of Inr db \<Rightarrow> db | Inl _ \<Rightarrow> empty_db"
  have "names_ok ?db" by code_simp
  moreover have "ui_repo_create 12 (\<lambda>_. True) ?db ''acme'' '' main'' = Inr ?db'" by code_simp
  moreover have "map_option loc_repo_id (resolve_repo_canonical ?db ''acme'' '' main'') = Some 10" by code_simp
  moreover have "map_option loc_repo_id (resolve_repo_canonical ?db' ''acme'' '' main'') = Some 12" by code_simp
  moreover have "cli_repo_create 12 ?db ''acme'' '' main'' = Inl ''was previously used and is retired''" by code_simp
  ultimately show ?thesis by blast
qed

section \<open>Custom domains are unique and resolve to their repository\<close>

definition domains_ok :: "db \<Rightarrow> bool" where
  "domains_ok db \<longleftrightarrow> (\<forall>r\<in>set (repos db). \<forall>q\<in>set (repos db).
     r_domain r \<noteq> None \<longrightarrow> r_domain q = r_domain r \<longrightarrow> r_id q = r_id r)"

lemma set_custom_domainE:
  assumes "set_custom_domain db repo raw = Inr (dn, db')"
  obtains "dn = (case raw of None \<Rightarrow> None | Some s \<Rightarrow> normalize_custom_domain s)" "raw \<noteq> None \<Longrightarrow> dn \<noteq> None"
    "db' = db\<lparr>repos := upd_where (\<lambda>r. r_id r = repo) (\<lambda>r. r\<lparr>r_domain := dn\<rparr>) (repos db)\<rparr>"
    "\<And>r. r \<in> set (repos db) \<Longrightarrow> dn \<noteq> None \<Longrightarrow> r_domain r = dn \<Longrightarrow> r_id r = repo"
proof (rule that)
  show "dn = (case raw of None \<Rightarrow> None | Some s \<Rightarrow> normalize_custom_domain s)" "raw \<noteq> None \<Longrightarrow> dn \<noteq> None"
    "db' = db\<lparr>repos := upd_where (\<lambda>r. r_id r = repo) (\<lambda>r. r\<lparr>r_domain := dn\<rparr>) (repos db)\<rparr>"
    using assms by (auto simp: set_custom_domain_def and_then_Inr_iff split: option.splits if_splits dest: sym)
  show "r_id r = repo" if "r \<in> set (repos db)" "dn \<noteq> None" "r_domain r = dn" for r
    using assms that by (auto simp: set_custom_domain_def and_then_Inr_iff split: option.splits if_splits)
qed

lemma domains_ok_set:
  assumes "domains_ok db" "set_custom_domain db repo raw = Inr (dn, db')"
  shows "domains_ok db'"
  using assms(2)
proof (cases rule: set_custom_domainE)
  case 1
  show ?thesis
    unfolding domains_ok_def
  proof (intro ballI impI)
    fix r q assume a: "r \<in> set (repos db')" "q \<in> set (repos db')" "r_domain r \<noteq> None" "r_domain q = r_domain r"
    have k: "r_id x = repo \<and> r_domain x = dn \<or> x \<in> set (repos db) \<and> r_id x \<noteq> repo"
      if "x \<in> set (repos db')" for x
      using that unfolding 1(3) by (auto elim!: in_upd_whereE)
    show "r_id q = r_id r"
      using k[OF a(1)] k[OF a(2)] a(3,4) 1(4)[of r] 1(4)[of q] assms(1) unfolding domains_ok_def by metis
  qed
qed

lemma normalize_canonical:
  assumes "normalize_custom_domain raw = Some d"
  shows "ascii_lower (trim_end_char (CHR ''.'') (trim raw)) = d" "ascii_lower (trim_end_char (CHR ''.'') d) = d"
proof -
  show d: "ascii_lower (trim_end_char (CHR ''.'') (trim raw)) = d"
    using assms by (auto simp: normalize_custom_domain_def Let_def split: if_splits)
  have dot: "ascii_lower_char c = CHR ''.'' \<longleftrightarrow> c = CHR ''.''" for c
  proof -
    have n: "of_char (ascii_lower_char c) \<noteq> (46 :: nat)" if "is_upper c"
      using that by (auto simp: ascii_lower_char_def is_upper_def less_eq_char_def)
    show ?thesis
    proof (cases "is_upper c")
      case True
      then show ?thesis using n by (auto simp: is_upper_def less_eq_char_def)
    qed (simp add: ascii_lower_char_def)
  qed
  have "trim_end_char (CHR ''.'') (ascii_lower s) = ascii_lower (trim_end_char (CHR ''.'') s)" for s
    by (simp add: trim_end_char_def ascii_lower_def rev_map dropWhile_map comp_def dot)
  moreover have "trim_end_char c (trim_end_char c s) = trim_end_char c s" for c s
    by (simp add: trim_end_char_def)
  ultimately show "ascii_lower (trim_end_char (CHR ''.'') d) = d"
    using d by (metis ascii_lower_idem)
qed

text \<open>A stored custom domain leads to its repository: the name as typed (less surrounding space) and
  its canonical form both resolve to the repository it was set on, every other repository keeps the
  host it had, and no two repositories ever share one.\<close>

theorem custom_domain_resolves:
  assumes "domains_ok db" "distinct (map r_id (repos db))" "repo_named db repo = Some r"
    and "org_with_id db (r_org r) = Some g" "set_custom_domain db repo (Some raw) = Inr (dn, db')"
  shows "domains_ok db' \<and> (\<exists>d. dn = Some d
     \<and> repo_by_custom_domain db' (trim raw) = Some \<lparr>loc_repo_id = repo, loc_org_slug = o_slug g,
         loc_repo_slug = r_slug r, loc_moved = False\<rparr>
     \<and> repo_by_custom_domain db' d = repo_by_custom_domain db' (trim raw))
     \<and> (\<forall>q\<in>set (repos db). r_id q \<noteq> repo \<longrightarrow> q \<in> set (repos db'))"
  using assms(5)
proof (cases rule: set_custom_domainE)
  case 1
  obtain d where d: "dn = Some d" "normalize_custom_domain raw = Some d" using 1(1,2) by auto
  note c = normalize_canonical[OF d(2)]
  have r: "r \<in> set (repos db)" "r_id r = repo" using repo_namedD[OF assms(3)] by auto
  let ?r = "r\<lparr>r_domain := dn\<rparr>"
  have r': "?r \<in> set (repos db')" using r by (auto simp: 1(3) in_upd_where)
  have dist: "distinct (map r_id (repos db'))" using assms(2) by (simp add: 1(3) map_upd_where_key)
  have org: "org_with_id db' i = org_with_id db i" for i by (simp add: org_with_id_def 1(3))
  have "select_one (\<lambda>r. r_domain r = Some d \<and> org_with_id db' (r_org r) \<noteq> None) (repos db') = Some ?r"
  proof (rule select_one_key[OF dist r'])
    fix s assume "s \<in> set (repos db')" "r_domain s = Some d \<and> org_with_id db' (r_org s) \<noteq> None"
    then show "r_id s = r_id ?r" using 1(4) r d(1) by (auto simp: 1(3) elim!: in_upd_whereE)
  qed (use assms(4) d in \<open>simp add: org\<close>)
  then have "repo_by_custom_domain db' h = Some \<lparr>loc_repo_id = repo, loc_org_slug = o_slug g,
         loc_repo_slug = r_slug r, loc_moved = False\<rparr>" if "ascii_lower (trim_end_char (CHR ''.'') h) = d" for h
    using that assms(4) r by (simp add: repo_by_custom_domain_def org)
  then show ?thesis
    using c d domains_ok_set[OF assms(1,5)] by (auto simp: 1(3) in_upd_where)
qed

lemma custom_domain_resolves_witness:
  "(case set_custom_domain demo_names 10 (Some '' Packages.Acme.test. '') of
      Inr (dn, db') \<Rightarrow> dn = Some ''packages.acme.test'' \<and> domains_ok db' | Inl _ \<Rightarrow> False)"
proof -
  let ?db' = "demo_names\<lparr>repos := [(new_repo 10 1 ''main'')\<lparr>r_domain := Some ''packages.acme.test''\<rparr>]\<rparr>"
  have s: "set_custom_domain demo_names 10 (Some '' Packages.Acme.test. '') = Inr (Some ''packages.acme.test'', ?db')"
    by code_simp
  have "domains_ok ?db'"
    by (rule custom_domain_resolves[where g = "\<lparr>o_id = 1, o_slug = ''acme'', o_name = None\<rparr>"
          and r = "new_repo 10 1 ''main''", THEN conjunct1, OF _ _ _ _ s]) code_simp+
  with s show ?thesis by simp
qed

end
