(* ===== verification/Access.thy ===== *)
theory Access
  imports Repos SigV4
begin

text \<open>
  Accounts of the admin UI: users and their tenant memberships, login sessions, password resets
  and changes, SCIM provisioning and offboarding (\<open>crates/sconce-catalog/src/lib.rs\<close>), and the
  guards every UI handler starts with (\<open>auth\<close>, \<open>lookup\<close>, \<open>lookup_admin\<close>, \<open>lookup_org\<close>,
  \<open>lookup_org_admin\<close> in \<open>crates/sconce-server/src/ui.rs\<close>).

  SHA-256 is the parameter \<open>sha\<close>, argon2 the parameters \<open>hashpw\<close> (salt, then password) and
  \<open>verify\<close>; fresh ids, salts and secrets are arguments.
\<close>

datatype status = BadRequest | Unauthorized | Forbidden | NotFound | StatusConflict | TooManyRequests | ServerError

definition token_hash :: "(bytes \<Rightarrow> bytes) \<Rightarrow> string \<Rightarrow> bytes" where
  "token_hash sha token = sha (str_bytes token)"

section \<open>Users and memberships\<close>

definition user_by_email :: "db \<Rightarrow> string \<Rightarrow> user_row option" where
  "user_by_email db email = select_one (\<lambda>u. u_email u = email) (users db)"

definition insert_user :: "uuid \<Rightarrow> string \<Rightarrow> string \<Rightarrow> bool \<Rightarrow> (user_row \<Rightarrow> user_row) \<Rightarrow> db \<Rightarrow> uuid \<times> db" where
  "insert_user newid email phc super on_conflict db = (case user_by_email db email of
     None \<Rightarrow> (newid, db\<lparr>users := users db @ [\<lparr>u_id = newid, u_email = email, u_password = phc, u_superadmin = super\<rparr>]\<rparr>)
   | Some u \<Rightarrow> (u_id u, db\<lparr>users := upd_where (\<lambda>u. u_email u = email) on_conflict (users db)\<rparr>))"

definition create_user :: "uuid \<Rightarrow> (string \<Rightarrow> string) \<Rightarrow> db \<Rightarrow> string \<Rightarrow> string \<Rightarrow> bool \<Rightarrow> uuid \<times> db" where
  "create_user newid hashpw db email password super =
     insert_user newid email (hashpw password) super
       (\<lambda>u. u\<lparr>u_password := hashpw password, u_superadmin := super\<rparr>) db"

definition find_or_create_sso_user :: "uuid \<Rightarrow> string \<Rightarrow> db \<Rightarrow> string \<Rightarrow> bool \<Rightarrow> uuid \<times> db" where
  "find_or_create_sso_user newid unusable db email super =
     insert_user newid email unusable super (\<lambda>u. u\<lparr>u_superadmin := super\<rparr>) db"

definition is_tenant :: "uuid \<Rightarrow> uuid \<Rightarrow> tenant_row \<Rightarrow> bool" where
  "is_tenant user org t \<longleftrightarrow> ut_user t = user \<and> ut_org t = org"

definition put_tenant :: "uuid \<Rightarrow> uuid \<Rightarrow> string \<Rightarrow> (tenant_row \<Rightarrow> tenant_row) \<Rightarrow> db \<Rightarrow> db" where
  "put_tenant user org role on_conflict db =
     (if exists_where (is_tenant user org) (tenants db)
      then db\<lparr>tenants := upd_where (is_tenant user org) on_conflict (tenants db)\<rparr>
      else db\<lparr>tenants := tenants db @ [\<lparr>ut_user = user, ut_org = org, ut_role = role, ut_active = True\<rparr>]\<rparr>)"

definition add_user_to_tenant :: "db \<Rightarrow> string \<Rightarrow> string \<Rightarrow> string \<Rightarrow> (sql_error, bool \<times> db) result" where
  "add_user_to_tenant db email org_slug role = (case (user_by_email db email, org_by_slug db org_slug) of
     (Some u, Some g) \<Rightarrow>
       if role \<notin> {''member'', ''admin''} then Inl (CheckViolation ''user_tenants_role'')
       else Inr (True, put_tenant (u_id u) (o_id g) role (\<lambda>t. t\<lparr>ut_role := role, ut_active := True\<rparr>) db)
   | _ \<Rightarrow> Inr (False, db))"

definition remove_from_tenant :: "db \<Rightarrow> string \<Rightarrow> string \<Rightarrow> bool \<times> db" where
  "remove_from_tenant db email org_slug =
     (let gone = (\<lambda>t. exists_where (\<lambda>u. u_id u = ut_user t \<and> u_email u = email) (users db)
                    \<and> exists_where (\<lambda>g. o_id g = ut_org t \<and> o_slug g = org_slug) (orgs db))
      in (exists_where gone (tenants db), db\<lparr>tenants := del_where gone (tenants db)\<rparr>))"

definition verify_credentials :: "(string \<Rightarrow> string \<Rightarrow> bool) \<Rightarrow> db \<Rightarrow> string \<Rightarrow> string \<Rightarrow> uuid option" where
  "verify_credentials verify db email password = (case user_by_email db email of
     None \<Rightarrow> None
   | Some u \<Rightarrow> if verify password (u_password u) then Some (u_id u) else None)"

definition user_count :: "db \<Rightarrow> nat" where
  "user_count db = length (users db)"

section \<open>Sessions\<close>

record auth_user =
  au_id :: uuid
  au_superadmin :: bool
  au_tenants :: "uuid list"
  au_admin :: "uuid list"

text \<open>\<open>i32::try_from(x).unwrap_or(i32::MAX)\<close>\<close>

definition clamp_i32 :: "int \<Rightarrow> int" where
  "clamp_i32 x = (if -2147483648 \<le> x \<and> x \<le> 2147483647 then x else 2147483647)"

definition create_session :: "(bytes \<Rightarrow> bytes) \<Rightarrow> string \<Rightarrow> time \<Rightarrow> db \<Rightarrow> uuid \<Rightarrow> int \<Rightarrow> (sql_error, string \<times> db) result" where
  "create_session sha token now db user ttl_days =
     (if exists_where (\<lambda>s. se_hash s = token_hash sha token) (sessions db) then Inl (UniqueViolation ''sessions'')
      else if \<not> exists_where (\<lambda>u. u_id u = user) (users db) then Inl (ForeignKeyViolation ''sessions'')
      else Inr (token, db\<lparr>sessions := sessions db @
        [\<lparr>se_hash = token_hash sha token, se_user = user, se_expires = now + days (clamp_i32 ttl_days)\<rparr>]\<rparr>))"

definition user_by_id :: "db \<Rightarrow> uuid \<Rightarrow> user_row option" where
  "user_by_id db i = select_one (\<lambda>u. u_id u = i) (users db)"

definition resolve_session :: "(bytes \<Rightarrow> bytes) \<Rightarrow> time \<Rightarrow> db \<Rightarrow> string \<Rightarrow> auth_user option" where
  "resolve_session sha now db token =
     (case select_one (\<lambda>s. se_hash s = token_hash sha token \<and> se_expires s > now
          \<and> user_by_id db (se_user s) \<noteq> None) (sessions db) of
        None \<Rightarrow> None
      | Some s \<Rightarrow> map_option (\<lambda>u.
          let rows = filter (\<lambda>t. ut_user t = u_id u \<and> ut_active t) (tenants db)
          in \<lparr>au_id = u_id u, au_superadmin = u_superadmin u, au_tenants = map ut_org rows,
              au_admin = map ut_org (filter (\<lambda>t. ut_role t = ''admin'') rows)\<rparr>) (user_by_id db (se_user s)))"

definition delete_session :: "(bytes \<Rightarrow> bytes) \<Rightarrow> db \<Rightarrow> string \<Rightarrow> db" where
  "delete_session sha db token = db\<lparr>sessions := del_where (\<lambda>s. se_hash s = token_hash sha token) (sessions db)\<rparr>"

definition delete_user_sessions :: "db \<Rightarrow> uuid \<Rightarrow> nat \<times> db" where
  "delete_user_sessions db user =
     (count_where (\<lambda>s. se_user s = user) (sessions db), db\<lparr>sessions := del_where (\<lambda>s. se_user s = user) (sessions db)\<rparr>)"

definition revoke_session_for_user :: "db \<Rightarrow> uuid \<Rightarrow> string \<Rightarrow> bool \<times> db" where
  "revoke_session_for_user db user hash_hex =
     (let P = (\<lambda>s. se_user s = user \<and> hex (se_hash s) = hash_hex)
      in (exists_where P (sessions db), db\<lparr>sessions := del_where P (sessions db)\<rparr>))"

section \<open>Password reset and change\<close>

definition create_password_reset :: "(bytes \<Rightarrow> bytes) \<Rightarrow> string \<Rightarrow> time \<Rightarrow> db \<Rightarrow> string \<Rightarrow> int \<Rightarrow> (uuid \<times> string) option \<times> db" where
  "create_password_reset sha token now db email ttl_minutes = (case user_by_email db email of
     None \<Rightarrow> (None, db)
   | Some u \<Rightarrow> (Some (u_id u, token), db\<lparr>resets := del_where (\<lambda>p. pr_user p = u_id u) (resets db) @
       [\<lparr>pr_hash = token_hash sha token, pr_user = u_id u, pr_created = now,
         pr_expires = now + 60 * clamp_i32 ttl_minutes, pr_used = None\<rparr>]\<rparr>))"

definition reset_live :: "(bytes \<Rightarrow> bytes) \<Rightarrow> time \<Rightarrow> string \<Rightarrow> reset_row \<Rightarrow> bool" where
  "reset_live sha now token p \<longleftrightarrow> pr_hash p = token_hash sha token \<and> pr_used p = None \<and> pr_expires p > now"

definition password_reset_valid :: "(bytes \<Rightarrow> bytes) \<Rightarrow> time \<Rightarrow> db \<Rightarrow> string \<Rightarrow> bool" where
  "password_reset_valid sha now db token \<longleftrightarrow> exists_where (reset_live sha now token) (resets db)"

definition set_password :: "uuid \<Rightarrow> string \<Rightarrow> db \<Rightarrow> db" where
  "set_password user phc db = db\<lparr>users := upd_where (\<lambda>u. u_id u = user) (\<lambda>u. u\<lparr>u_password := phc\<rparr>) (users db)\<rparr>"

definition reset_password :: "(bytes \<Rightarrow> bytes) \<Rightarrow> (string \<Rightarrow> string) \<Rightarrow> time \<Rightarrow> db \<Rightarrow> string \<Rightarrow> string \<Rightarrow> uuid option \<times> db" where
  "reset_password sha hashpw now db token new_password =
     (case select_one (reset_live sha now token) (resets db) of
        None \<Rightarrow> (None, db)
      | Some p \<Rightarrow>
         let db = db\<lparr>resets := upd_where (reset_live sha now token) (\<lambda>p. p\<lparr>pr_used := Some now\<rparr>) (resets db)\<rparr>;
             db = set_password (pr_user p) (hashpw new_password) db
         in (Some (pr_user p), db\<lparr>sessions := del_where (\<lambda>s. se_user s = pr_user p) (sessions db)\<rparr>))"

datatype password_change = Changed | WrongCurrent

definition change_password :: "(bytes \<Rightarrow> bytes) \<Rightarrow> (string \<Rightarrow> string) \<Rightarrow> (string \<Rightarrow> string \<Rightarrow> bool)
    \<Rightarrow> db \<Rightarrow> uuid \<Rightarrow> string \<Rightarrow> string \<Rightarrow> string option \<Rightarrow> password_change \<times> db" where
  "change_password sha hashpw verify db user current new_password keep = (case user_by_id db user of
     None \<Rightarrow> (WrongCurrent, db)
   | Some u \<Rightarrow>
      if \<not> verify current (u_password u) then (WrongCurrent, db)
      else let db = set_password user (hashpw new_password) db
        in (Changed, db\<lparr>sessions := del_where (\<lambda>s. se_user s = user
             \<and> (case keep of None \<Rightarrow> True | Some t \<Rightarrow> se_hash s \<noteq> token_hash sha t)) (sessions db)\<rparr>))"

section \<open>SCIM\<close>

definition resolve_scim_token :: "(bytes \<Rightarrow> bytes) \<Rightarrow> db \<Rightarrow> string \<Rightarrow> uuid option" where
  "resolve_scim_token sha db token = map_option sc_org (select_one (\<lambda>s. sc_hash s = token_hash sha token) (scim_tokens db))"

definition scim_provision :: "uuid \<Rightarrow> string \<Rightarrow> db \<Rightarrow> uuid \<Rightarrow> string \<Rightarrow> uuid \<times> db" where
  "scim_provision newid unusable db org email =
     (let (user, db) = insert_user newid email unusable False (\<lambda>u. u\<lparr>u_email := email\<rparr>) db
      in (user, put_tenant user org ''member'' (\<lambda>t. t\<lparr>ut_active := True\<rparr>) db))"

definition scim_set_active :: "db \<Rightarrow> uuid \<Rightarrow> uuid \<Rightarrow> bool \<Rightarrow> bool \<times> db" where
  "scim_set_active db org user active =
     (exists_where (is_tenant user org) (tenants db),
      db\<lparr>tenants := upd_where (is_tenant user org) (\<lambda>t. t\<lparr>ut_active := active\<rparr>) (tenants db)\<rparr>)"

definition scim_member :: "db \<Rightarrow> uuid \<Rightarrow> uuid \<Rightarrow> (string \<times> bool) option" where
  "scim_member db org user = (case select_one (is_tenant user org) (tenants db) of
     None \<Rightarrow> None
   | Some t \<Rightarrow> map_option (\<lambda>u. (u_email u, ut_active t)) (user_by_id db user))"

definition scim_member_by_email :: "db \<Rightarrow> uuid \<Rightarrow> string \<Rightarrow> (uuid \<times> bool) option" where
  "scim_member_by_email db org email =
     map_option (\<lambda>t. (ut_user t, ut_active t)) (select_one (\<lambda>t. ut_org t = org \<and>
       exists_where (\<lambda>u. u_id u = ut_user t \<and> ascii_lower (u_email u) = ascii_lower email) (users db)) (tenants db))"

definition scim_bool :: "json \<Rightarrow> bool option" where
  "scim_bool v = (case v of JBool b \<Rightarrow> Some b
     | JStr s \<Rightarrow> if s = ''true'' then Some True else if s = ''false'' then Some False else None
     | _ \<Rightarrow> None)"

definition op_active :: "json \<Rightarrow> bool option" where
  "op_active op =
     (let direct = (if map_option ascii_lower (json_str (json_get ''path'' op)) = Some ''active''
                    then Option.bind (json_get ''value'' op) scim_bool else None)
      in case direct of Some b \<Rightarrow> Some b
       | None \<Rightarrow> Option.bind (Option.bind (json_get ''value'' op) (json_get ''active'')) scim_bool)"

fun first_active :: "json list \<Rightarrow> bool option" where
  "first_active [] = None"
| "first_active (op # ops) = (case op_active op of Some b \<Rightarrow> Some b | None \<Rightarrow> first_active ops)"

definition extract_active :: "json \<Rightarrow> bool option" where
  "extract_active body = (case json_get ''Operations'' body of
     Some (JArr ops) \<Rightarrow> first_active ops
   | _ \<Rightarrow> Option.bind (json_get ''active'' body) scim_bool)"

definition scim_org :: "(bytes \<Rightarrow> bytes) \<Rightarrow> db \<Rightarrow> string option \<Rightarrow> (status, uuid) result" where
  "scim_org sha db bearer = and_then (ok_or Unauthorized bearer) (\<lambda>t. ok_or Unauthorized (resolve_scim_token sha db t))"

definition scim_apply_active :: "db \<Rightarrow> uuid \<Rightarrow> uuid \<Rightarrow> bool \<Rightarrow> (status, string \<times> bool) result \<times> db" where
  "scim_apply_active db org user active = (case scim_set_active db org user active of
     (False, db) \<Rightarrow> (Inl NotFound, db)
   | (True, db) \<Rightarrow>
      let db = (if \<not> active then snd (delete_user_sessions db user) else db)
      in (ok_or ServerError (scim_member db org user), db))"

definition scim_get_user :: "(bytes \<Rightarrow> bytes) \<Rightarrow> db \<Rightarrow> string option \<Rightarrow> uuid \<Rightarrow> (status, string \<times> bool) result" where
  "scim_get_user sha db bearer user =
     and_then (scim_org sha db bearer) (\<lambda>org. ok_or NotFound (scim_member db org user))"

definition scim_patch_user :: "(bytes \<Rightarrow> bytes) \<Rightarrow> db \<Rightarrow> string option \<Rightarrow> uuid option \<Rightarrow> json option
    \<Rightarrow> (status, string \<times> bool) result \<times> db" where
  "scim_patch_user sha db bearer user_id body = (case scim_org sha db bearer of
     Inl e \<Rightarrow> (Inl e, db)
   | Inr org \<Rightarrow> (case (user_id, body) of
        (Some user, Some v) \<Rightarrow> (case extract_active v of
            Some active \<Rightarrow> scim_apply_active db org user active
          | None \<Rightarrow> (scim_get_user sha db bearer user, db))
      | _ \<Rightarrow> (Inl BadRequest, db)))"

definition scim_delete_user :: "(bytes \<Rightarrow> bytes) \<Rightarrow> db \<Rightarrow> string option \<Rightarrow> uuid option \<Rightarrow> (status, unit) result \<times> db" where
  "scim_delete_user sha db bearer user_id = (case scim_org sha db bearer of
     Inl e \<Rightarrow> (Inl e, db)
   | Inr org \<Rightarrow> (case user_id of
        None \<Rightarrow> (Inl NotFound, db)
      | Some user \<Rightarrow> (case scim_set_active db org user False of
           (False, db) \<Rightarrow> (Inl NotFound, db)
         | (True, db) \<Rightarrow> (Inr (), snd (delete_user_sessions db user)))))"

definition scim_create_user :: "uuid \<Rightarrow> string \<Rightarrow> (bytes \<Rightarrow> bytes) \<Rightarrow> db \<Rightarrow> string option \<Rightarrow> json option
    \<Rightarrow> (status, uuid \<times> string) result \<times> db" where
  "scim_create_user newid unusable sha db bearer body = (case scim_org sha db bearer of
     Inl e \<Rightarrow> (Inl e, db)
   | Inr org \<Rightarrow> (case body of
        None \<Rightarrow> (Inl BadRequest, db)
      | Some v \<Rightarrow> (case json_str (json_get ''userName'' v) of
           None \<Rightarrow> (Inl BadRequest, db)
         | Some email \<Rightarrow> if scim_member_by_email db org email \<noteq> None then (Inl StatusConflict, db)
             else let (user, db) = scim_provision newid unusable db org email in (Inr (user, email), db))))"

text \<open>The text between the first two double quotes of the filter.\<close>

fun contains_sub :: "string \<Rightarrow> string \<Rightarrow> bool" where
  "contains_sub p [] \<longleftrightarrow> p = []"
| "contains_sub p (c # s) \<longleftrightarrow> starts_with p (c # s) \<or> contains_sub p s"

definition parse_username_filter :: "string \<Rightarrow> string option" where
  "parse_username_filter flt =
     (let lower = ascii_lower flt
      in if \<not> contains_sub ''username'' lower \<or> \<not> contains_sub '' eq '' lower then None
         else Option.bind (split_once (CHR 0x22) flt) (\<lambda>(_, rest). map_option fst (split_once (CHR 0x22) rest)))"

section \<open>The guards of the UI handlers\<close>

record current_user =
  cu_id :: "uuid option"
  cu_superadmin :: bool
  cu_tenants :: "uuid set"
  cu_admin :: "uuid set"

definition all_access :: current_user where
  "all_access = \<lparr>cu_id = None, cu_superadmin = True, cu_tenants = {}, cu_admin = {}\<rparr>"

definition user_can :: "current_user \<Rightarrow> uuid \<Rightarrow> bool" where
  "user_can u org \<longleftrightarrow> cu_superadmin u \<or> org \<in> cu_tenants u"

definition user_can_admin :: "current_user \<Rightarrow> uuid \<Rightarrow> bool" where
  "user_can_admin u org \<longleftrightarrow> cu_superadmin u \<or> org \<in> cu_admin u"

text \<open>The account a multi-tenant request acts as: the session cookie's, or none (a redirect to the
  login page).\<close>

definition session_user :: "(bytes \<Rightarrow> bytes) \<Rightarrow> time \<Rightarrow> db \<Rightarrow> string option \<Rightarrow> current_user option" where
  "session_user sha now db cookie = (case cookie of None \<Rightarrow> None
     | Some t \<Rightarrow> map_option (\<lambda>u. \<lparr>cu_id = Some (au_id u), cu_superadmin = au_superadmin u,
         cu_tenants = set (au_tenants u), cu_admin = set (au_admin u)\<rparr>) (resolve_session sha now db t))"

definition list_organizations :: "db \<Rightarrow> org_row list" where
  "list_organizations db = sort_by (\<lambda>a b. text_cmp (o_slug a) (o_slug b)) (orgs db)"

record repo_summary =
  rs_org :: string
  rs_org_id :: uuid
  rs_repo :: string
  rs_id :: uuid
  rs_update_mode :: string
  rs_cooldown :: int

definition summary_of :: "db \<Rightarrow> repo_row \<Rightarrow> repo_summary option" where
  "summary_of db r = map_option (\<lambda>g. \<lparr>rs_org = o_slug g, rs_org_id = o_id g, rs_repo = r_slug r, rs_id = r_id r,
     rs_update_mode = r_update_mode r, rs_cooldown = r_cooldown r\<rparr>) (org_with_id db (r_org r))"

definition list_repositories :: "db \<Rightarrow> repo_summary list" where
  "list_repositories db =
     sort_by (\<lambda>a b. then_with (text_cmp (rs_org a) (rs_org b)) (text_cmp (rs_repo a) (rs_repo b)))
       (List.map_filter (summary_of db) (repos db))"

definition lookup :: "db \<Rightarrow> current_user \<Rightarrow> string \<Rightarrow> string \<Rightarrow> (status, repo_summary) result" where
  "lookup db user org repo =
     and_then (ok_or NotFound (List.find (\<lambda>r. rs_org r = org \<and> rs_repo r = repo) (list_repositories db)))
       (\<lambda>s. if user_can user (rs_org_id s) then Inr s else Inl NotFound)"

definition lookup_admin :: "db \<Rightarrow> current_user \<Rightarrow> string \<Rightarrow> string \<Rightarrow> (status, repo_summary) result" where
  "lookup_admin db user org repo =
     and_then (lookup db user org repo)
       (\<lambda>s. if user_can_admin user (rs_org_id s) then Inr s else Inl Forbidden)"

definition lookup_org :: "db \<Rightarrow> current_user \<Rightarrow> string \<Rightarrow> (status, org_row) result" where
  "lookup_org db user org =
     and_then (ok_or NotFound (List.find (\<lambda>g. o_slug g = org) (list_organizations db)))
       (\<lambda>g. if user_can user (o_id g) then Inr g else Inl NotFound)"

definition lookup_org_admin :: "db \<Rightarrow> current_user \<Rightarrow> string \<Rightarrow> (status, org_row) result" where
  "lookup_org_admin db user org =
     and_then (lookup_org db user org) (\<lambda>g. if user_can_admin user (o_id g) then Inr g else Inl Forbidden)"

definition lookup_set :: "db \<Rightarrow> uuid \<Rightarrow> uuid option \<Rightarrow> (status, uuid \<times> string) result" where
  "lookup_set db org parsed =
     and_then (ok_or BadRequest parsed) (\<lambda>set_id.
       and_then (ok_or NotFound (select_one (\<lambda>s. ps_id s = set_id) (sets db))) (\<lambda>s.
         if ps_org s \<noteq> org then Inl NotFound else Inr (set_id, ps_name s)))"

section \<open>What the guards establish\<close>

lemma session_user_Some:
  assumes "session_user sha now db cookie = Some cu"
  obtains s u where "s \<in> set (sessions db)" "se_expires s > now" "u \<in> set (users db)" "u_id u = se_user s"
    "user_by_id db (se_user s) = Some u" "cu_id cu = Some (u_id u)" "cu_superadmin cu = u_superadmin u"
    "cu_tenants cu = {ut_org t | t. t \<in> set (tenants db) \<and> ut_user t = u_id u \<and> ut_active t}"
    "cu_admin cu = {ut_org t | t. t \<in> set (tenants db) \<and> ut_user t = u_id u \<and> ut_active t \<and> ut_role t = ''admin''}"
proof -
  obtain tok s u where d: "cookie = Some tok"
      "select_one (\<lambda>s. se_hash s = token_hash sha tok \<and> se_expires s > now \<and> user_by_id db (se_user s) \<noteq> None)
        (sessions db) = Some s" "user_by_id db (se_user s) = Some u"
      "cu = \<lparr>cu_id = Some (u_id u), cu_superadmin = u_superadmin u,
         cu_tenants = set (map ut_org (filter (\<lambda>t. ut_user t = u_id u \<and> ut_active t) (tenants db))),
         cu_admin = set (map ut_org (filter (\<lambda>t. ut_role t = ''admin'')
           (filter (\<lambda>t. ut_user t = u_id u \<and> ut_active t) (tenants db))))\<rparr>"
    using assms by (auto simp: session_user_def resolve_session_def Let_def split: option.splits)
  have "s \<in> set (sessions db)" "se_expires s > now" using select_one_Some[OF d(2)] by auto
  moreover have "u \<in> set (users db)" "u_id u = se_user s"
    using d(3) by (auto simp: user_by_id_def dest: select_one_Some)
  ultimately show ?thesis using that d(3,4) by (auto simp: image_def)
qed

lemma session_user_token:
  assumes "session_user sha now db cookie = Some cu"
  shows "\<exists>tok s u. cookie = Some tok \<and> s \<in> set (sessions db) \<and> se_hash s = token_hash sha tok \<and> now < se_expires s
    \<and> u \<in> set (users db) \<and> u_id u = se_user s \<and> cu_superadmin cu = u_superadmin u
    \<and> cu_tenants cu = {ut_org t | t. t \<in> set (tenants db) \<and> ut_user t = u_id u \<and> ut_active t}
    \<and> cu_admin cu = {ut_org t | t. t \<in> set (tenants db) \<and> ut_user t = u_id u \<and> ut_active t \<and> ut_role t = ''admin''}"
proof -
  obtain tok s u where d: "cookie = Some tok"
      "select_one (\<lambda>s. se_hash s = token_hash sha tok \<and> se_expires s > now \<and> user_by_id db (se_user s) \<noteq> None)
        (sessions db) = Some s" "user_by_id db (se_user s) = Some u"
      "cu = \<lparr>cu_id = Some (u_id u), cu_superadmin = u_superadmin u,
         cu_tenants = set (map ut_org (filter (\<lambda>t. ut_user t = u_id u \<and> ut_active t) (tenants db))),
         cu_admin = set (map ut_org (filter (\<lambda>t. ut_role t = ''admin'')
           (filter (\<lambda>t. ut_user t = u_id u \<and> ut_active t) (tenants db))))\<rparr>"
    using assms by (auto simp: session_user_def resolve_session_def Let_def split: option.splits)
  have "s \<in> set (sessions db)" "se_hash s = token_hash sha tok" "now < se_expires s" using select_one_Some[OF d(2)] by auto
  moreover have "u \<in> set (users db)" "u_id u = se_user s"
    using d(3) by (auto simp: user_by_id_def dest: select_one_Some)
  ultimately show ?thesis using d(1,4) by (intro exI[of _ tok] exI[of _ s] exI[of _ u]) (auto simp: image_def)
qed

lemma session_user_account:
  assumes "session_user sha now db cookie = Some cu"
  shows "\<exists>u. user_by_id db (u_id u) = Some u \<and> cu_id cu = Some (u_id u) \<and> cu_superadmin cu = u_superadmin u
    \<and> cu_tenants cu = {ut_org t | t. t \<in> set (tenants db) \<and> ut_user t = u_id u \<and> ut_active t}"
proof -
  obtain s u where "s \<in> set (sessions db)" "se_expires s > now" "u \<in> set (users db)" "u_id u = se_user s"
    "user_by_id db (se_user s) = Some u" "cu_id cu = Some (u_id u)" "cu_superadmin cu = u_superadmin u"
    "cu_tenants cu = {ut_org t | t. t \<in> set (tenants db) \<and> ut_user t = u_id u \<and> ut_active t}"
    "cu_admin cu = {ut_org t | t. t \<in> set (tenants db) \<and> ut_user t = u_id u \<and> ut_active t \<and> ut_role t = ''admin''}"
    using assms by (rule session_user_Some)
  then show ?thesis by (intro exI[of _ u]) simp
qed

lemma lookup_Inr:
  assumes "lookup db user org repo = Inr s"
  shows "user_can user (rs_org_id s)" "rs_org s = org" "rs_repo s = repo"
    "\<exists>r\<in>set (repos db). r_id r = rs_id s \<and> r_slug r = repo \<and> r_org r = rs_org_id s"
proof -
  obtain f: "List.find (\<lambda>r. rs_org r = org \<and> rs_repo r = repo) (list_repositories db) = Some s"
    and can: "user_can user (rs_org_id s)"
    using assms by (auto simp: lookup_def and_then_Inr_iff split: if_splits)
  show "user_can user (rs_org_id s)" by (rule can)
  show n: "rs_org s = org" "rs_repo s = repo" using find_SomeD[OF f] by auto
  have "s \<in> set (List.map_filter (summary_of db) (repos db))"
    using find_SomeD[OF f] by (simp add: list_repositories_def)
  then obtain r where "r \<in> set (repos db)" "summary_of db r = Some s"
    by (auto simp: List.map_filter_def)
  moreover from this have "r_id r = rs_id s" "r_slug r = rs_repo s" "r_org r = rs_org_id s"
    by (auto simp: summary_of_def org_with_id_def dest: select_one_Some)
  ultimately show "\<exists>r\<in>set (repos db). r_id r = rs_id s \<and> r_slug r = repo \<and> r_org r = rs_org_id s"
    using n by blast
qed

lemma lookup_named:
  assumes "lookup db user org repo = Inr s"
  shows "\<exists>g r. g \<in> set (orgs db) \<and> o_slug g = org \<and> r \<in> set (repos db) \<and> r_slug r = repo \<and> r_org r = o_id g \<and> rs_org_id s = o_id g"
proof -
  obtain f: "List.find (\<lambda>r. rs_org r = org \<and> rs_repo r = repo) (list_repositories db) = Some s"
    using assms by (auto simp: lookup_def and_then_Inr_iff split: if_splits)
  then have n: "rs_org s = org" "rs_repo s = repo" using find_SomeD[OF f] by auto
  have "s \<in> set (List.map_filter (summary_of db) (repos db))"
    using find_SomeD[OF f] by (simp add: list_repositories_def)
  then obtain r where r: "r \<in> set (repos db)" "summary_of db r = Some s" by (auto simp: List.map_filter_def)
  then obtain g where g: "g \<in> set (orgs db)" "o_id g = r_org r" "rs_org s = o_slug g" "rs_repo s = r_slug r" "rs_org_id s = o_id g"
    by (auto simp: summary_of_def org_with_id_def dest!: select_one_Some)
  with r g n show ?thesis by metis
qed

lemma lookup_admin_Inr:
  "lookup_admin db user org repo = Inr s \<longleftrightarrow> lookup db user org repo = Inr s \<and> user_can_admin user (rs_org_id s)"
  by (auto simp: lookup_admin_def and_then_Inr_iff)

lemma lookup_org_Inr:
  assumes "lookup_org db user org = Inr g"
  shows "g \<in> set (orgs db)" "o_slug g = org" "user_can user (o_id g)"
proof -
  obtain f: "List.find (\<lambda>g. o_slug g = org) (list_organizations db) = Some g" and "user_can user (o_id g)"
    using assms by (auto simp: lookup_org_def and_then_Inr_iff split: if_splits)
  then show "g \<in> set (orgs db)" "o_slug g = org" "user_can user (o_id g)"
    using find_SomeD[OF f] by (auto simp: list_organizations_def)
qed

lemma resolve_session_user:
  assumes "resolve_session sha now db t = Some au"
  shows "\<exists>s\<in>set (sessions db). se_user s = au_id au"
  using assms
  by (auto simp: resolve_session_def Let_def user_by_id_def split: option.splits dest!: select_one_Some)

section \<open>Properties\<close>

text \<open>In multi-tenant mode the guard of a managing handler passes only with a live session of an existing account that is a
  superadmin or an active administrator of the organization owning the repository, and the repository it returns is the
  one the URL names.\<close>

theorem admin_guard_sound:
  assumes "session_user sha now db cookie = Some cu" "lookup_admin db cu org repo = Inr s"
  shows "\<exists>sess u r. sess \<in> set (sessions db) \<and> se_expires sess > now \<and> u \<in> set (users db) \<and> se_user sess = u_id u
     \<and> (u_superadmin u \<or> (\<exists>t. t \<in> set (tenants db) \<and> ut_user t = u_id u \<and> ut_org t = rs_org_id s
           \<and> ut_active t \<and> ut_role t = ''admin''))
     \<and> r \<in> set (repos db) \<and> r_id r = rs_id s \<and> r_slug r = repo \<and> r_org r = rs_org_id s"
proof -
  obtain sess u where su: "sess \<in> set (sessions db)" "se_expires sess > now" "u \<in> set (users db)"
      "u_id u = se_user sess" "cu_superadmin cu = u_superadmin u"
      "cu_admin cu = {ut_org t | t. t \<in> set (tenants db) \<and> ut_user t = u_id u \<and> ut_active t \<and> ut_role t = ''admin''}"
    using assms(1) by (rule session_user_Some)
  have "lookup db cu org repo = Inr s" "user_can_admin cu (rs_org_id s)"
    using assms(2) by (auto simp: lookup_admin_Inr)
  moreover from this obtain r where "r \<in> set (repos db)" "r_id r = rs_id s" "r_slug r = repo" "r_org r = rs_org_id s"
    using lookup_Inr(4) by blast
  moreover have "u_superadmin u \<or> (\<exists>t. t \<in> set (tenants db) \<and> ut_user t = u_id u \<and> ut_org t = rs_org_id s
      \<and> ut_active t \<and> ut_role t = ''admin'')"
    using calculation su(5,6) by (auto simp: user_can_admin_def)
  moreover have "se_user sess = u_id u" using su(4) by simp
  ultimately show ?thesis using su(1-3) by blast
qed

definition demo_accounts :: db where
  "demo_accounts = demo_names\<lparr>users := [\<lparr>u_id = 5, u_email = ''a@x'', u_password = ''old'', u_superadmin = False\<rparr>],
     tenants := [\<lparr>ut_user = 5, ut_org = 1, ut_role = ''admin'', ut_active = True\<rparr>],
     sessions := [\<lparr>se_hash = [1], se_user = 5, se_expires = 100\<rparr>],
     resets := [\<lparr>pr_hash = [2], pr_user = 5, pr_created = 0, pr_expires = 100, pr_used = None\<rparr>]\<rparr>"

definition demo_sha :: "bytes \<Rightarrow> bytes" where
  "demo_sha b = (if b = str_bytes ''sess'' then [1] else if b = str_bytes ''link'' then [2] else 0 # b)"

definition demo_user :: current_user where
  "demo_user = \<lparr>cu_id = Some 5, cu_superadmin = False, cu_tenants = {1}, cu_admin = {1}\<rparr>"

lemma demo_session: "session_user demo_sha 50 demo_accounts (Some ''sess'') = Some demo_user"
  by code_simp

lemma admin_guard_sound_witness:
  "\<exists>s r. lookup_admin demo_accounts demo_user ''acme'' ''main'' = Inr s \<and> r \<in> set (repos demo_accounts) \<and> r_id r = rs_id s"
proof -
  let ?s = "\<lparr>rs_org = ''acme'', rs_org_id = 1, rs_repo = ''main'', rs_id = 10, rs_update_mode = ''auto'', rs_cooldown = 0\<rparr>"
  have l: "lookup_admin demo_accounts demo_user ''acme'' ''main'' = Inr ?s" by code_simp
  show ?thesis using admin_guard_sound[OF demo_session l] l by blast
qed

text \<open>What may happen after an offboarding of \<open>user\<close> from \<open>org\<close> without a new grant of that membership (an
  administrator's, SCIM's or single sign-on's) and without making the account a superadmin: sign-ins and sign-outs,
  password resets and changes, grants to and removals of others, directory calls, new accounts, and whatever
  leaves accounts and memberships alone.\<close>

inductive account_step :: "uuid \<Rightarrow> uuid \<Rightarrow> db \<Rightarrow> db \<Rightarrow> bool" for user org where
  opened: "create_session sha tok now db who ttl = Inr (t, db') \<Longrightarrow> account_step user org db db'"
| left: "account_step user org db (delete_session sha db tok)"
| ended: "account_step user org db (snd (delete_user_sessions db who))"
| revoked: "account_step user org db (snd (revoke_session_for_user db who h))"
| link_sent: "create_password_reset sha tok now db email ttl = (r, db') \<Longrightarrow> account_step user org db db'"
| link_used: "reset_password sha hashpw now db tok pw = (r', db') \<Longrightarrow> account_step user org db db'"
| password: "change_password sha hashpw verify db who cur pw keep = (r'', db') \<Longrightarrow> account_step user org db db'"
| granted_other: "add_user_to_tenant db email slug role = Inr (b, db')
    \<Longrightarrow> \<not> (\<exists>u g. user_by_email db email = Some u \<and> u_id u = user \<and> org_by_slug db slug = Some g \<and> o_id g = org)
    \<Longrightarrow> account_step user org db db'"
| removed: "account_step user org db (snd (remove_from_tenant db email slug))"
| directory: "scim_apply_active db g who active = (r4, db') \<Longrightarrow> \<not> (active \<and> who = user \<and> g = org) \<Longrightarrow> account_step user org db db'"
| provisioned: "scim_provision newid phc db g email = (who, db') \<Longrightarrow> \<not> (who = user \<and> g = org) \<Longrightarrow> newid \<noteq> user \<Longrightarrow> account_step user org db db'"
| account: "create_user newid hashpw db email pw super = (who, db') \<Longrightarrow> newid \<noteq> user
    \<Longrightarrow> \<not> (super \<and> (\<exists>u\<in>set (users db). u_id u = user \<and> u_email u = email)) \<Longrightarrow> account_step user org db db'"
| sso_account: "find_or_create_sso_user newid phc db email super = (who, db') \<Longrightarrow> newid \<noteq> user
    \<Longrightarrow> \<not> (super \<and> (\<exists>u\<in>set (users db). u_id u = user \<and> u_email u = email)) \<Longrightarrow> account_step user org db db'"
| elsewise: "users db' = users db \<Longrightarrow> tenants db' = tenants db \<Longrightarrow> account_step user org db db'"

definition locked :: "uuid \<Rightarrow> uuid \<Rightarrow> db \<Rightarrow> bool" where
  "locked user org db \<longleftrightarrow> (\<forall>t\<in>set (tenants db). is_tenant user org t \<longrightarrow> \<not> ut_active t) \<and> (\<forall>u\<in>set (users db). u_id u = user \<longrightarrow> \<not> u_superadmin u)"

lemma locked_same: "users db' = users db \<Longrightarrow> tenants db' = tenants db \<Longrightarrow> locked user org db \<Longrightarrow> locked user org db'"
  by (simp add: locked_def)

lemma locked_password: "locked user org db \<Longrightarrow> tenants db' = tenants db \<Longrightarrow> users db' = users (set_password who phc db) \<Longrightarrow> locked user org db'"
  by (auto simp: locked_def set_password_def elim!: in_upd_whereE)

lemma locked_put:
  "locked user org db \<Longrightarrow> \<not> (who = user \<and> g = org) \<Longrightarrow> (\<And>t. ut_user (f t) = ut_user t \<and> ut_org (f t) = ut_org t)
    \<Longrightarrow> locked user org (put_tenant who g role f db)"
  by (auto simp: locked_def put_tenant_def is_tenant_def elim!: in_upd_whereE)

lemma locked_insert:
  assumes "locked user org db" "insert_user newid email phc super f db = (who, db')" "newid \<noteq> user \<or> \<not> super"
    and "\<And>u. u_id (f u) = u_id u" "\<And>u. u \<in> set (users db) \<Longrightarrow> u_id u = user \<Longrightarrow> u_email u = email \<Longrightarrow> \<not> u_superadmin u \<Longrightarrow> \<not> u_superadmin (f u)"
  shows "locked user org db'"
proof -
  have "\<not> u_superadmin x" if "x \<in> set (upd_where (\<lambda>u. u_email u = email) f (users db))" "u_id x = user" for x
    using that(1)
  proof (rule in_upd_whereE)
    fix y assume y: "y \<in> set (users db)" "u_email y = email" "x = f y"
    then have "u_id y = user" using that(2) assms(4) by simp
    then show ?thesis using y assms(1,5) by (simp add: locked_def)
  next
    assume "x \<in> set (users db)" "\<not> u_email x = email"
    then show ?thesis using that(2) assms(1) by (simp add: locked_def)
  qed
  then show ?thesis using assms(1-3) by (auto simp: insert_user_def locked_def split: option.splits)
qed

lemma locked_step: "account_step user org db db' \<Longrightarrow> locked user org db \<Longrightarrow> locked user org db'"
proof (induction rule: account_step.induct)
  case (link_used sha hashpw now db tok pw r db')
  then show ?case
    by (auto simp: reset_password_def Let_def split: option.splits elim!: locked_password simp: set_password_def)
next
  case (password sha hashpw verify db who cur pw keep r db')
  then show ?case
    by (auto simp: change_password_def Let_def split: option.splits if_splits elim!: locked_password simp: set_password_def)
next
  case (granted_other db email slug role b db')
  then show ?case by (auto simp: add_user_to_tenant_def split: option.splits if_splits intro!: locked_put)
next
  case (directory db g who active r db')
  have "locked user org (db\<lparr>tenants := upd_where (is_tenant who g) (\<lambda>t. t\<lparr>ut_active := active\<rparr>) (tenants db)\<rparr>)"
    using directory.prems directory.hyps(2) by (auto simp: locked_def is_tenant_def elim!: in_upd_whereE)
  then show ?case
    using directory.hyps(1) by (auto simp: scim_apply_active_def scim_set_active_def delete_user_sessions_def Let_def split: bool.splits
        elim!: locked_same[rotated 2])
next
  case (provisioned newid phc db g email who db')
  obtain db1 where i: "insert_user newid email phc False (\<lambda>u. u\<lparr>u_email := email\<rparr>) db = (who, db1)"
      and db': "db' = put_tenant who g ''member'' (\<lambda>t. t\<lparr>ut_active := True\<rparr>) db1"
    using provisioned.hyps(1) by (auto simp: scim_provision_def split: prod.splits)
  have "locked user org db1" by (rule locked_insert[OF provisioned.prems i]) simp_all
  then show ?case unfolding db' using provisioned.hyps(2) by (intro locked_put) auto
next
  case (account newid hashpw db email pw super who db')
  then show ?case unfolding create_user_def by (elim locked_insert[rotated]) auto
next
  case (sso_account newid phc db email super who db')
  then show ?case unfolding find_or_create_sso_user_def by (elim locked_insert[rotated]) auto
qed (auto simp: locked_def create_session_def delete_session_def delete_user_sessions_def revoke_session_for_user_def Let_def
    create_password_reset_def remove_from_tenant_def split: if_splits option.splits)

lemma locked_run: "(account_step user org)\<^sup>*\<^sup>* db db' \<Longrightarrow> locked user org db \<Longrightarrow> locked user org db'"
  by (induction rule: rtranclp_induct) (auto intro: locked_step)

lemma locked_refuses:
  assumes "locked user org db" "session_user sha now db cookie = Some cu" "cu_id cu = Some user"
  shows "\<not> user_can cu org \<and> \<not> user_can_admin cu org"
proof -
  obtain s u where su: "u \<in> set (users db)" "cu_id cu = Some (u_id u)" "cu_superadmin cu = u_superadmin u"
    "cu_tenants cu = {ut_org t | t. t \<in> set (tenants db) \<and> ut_user t = u_id u \<and> ut_active t}"
    "cu_admin cu = {ut_org t | t. t \<in> set (tenants db) \<and> ut_user t = u_id u \<and> ut_active t \<and> ut_role t = ''admin''}"
    using assms(2) by (elim session_user_Some)
  then show ?thesis using assms(1,3) by (auto simp: user_can_def user_can_admin_def locked_def is_tenant_def)
qed

text \<open>C11: offboarding through SCIM takes effect at once and lasts. After a successful deactivation of an account that is not a
  superadmin, no session of the account resolves; and whatever happens later short of a new grant of that membership
  or the superadmin flag (see \<open>account_step\<close>), no session of the account, also one opened afterwards, gives it access to
  the organization. A later single sign-on is such a grant (see \<open>sso_login_resets_membership\<close>), and device
  tokens are not sessions (see \<open>offboarding_keeps_device_token\<close>).\<close>

theorem offboarded_locked_out:
  assumes "scim_apply_active db org user False = (Inr m, db1)" "\<forall>u\<in>set (users db). u_id u = user \<longrightarrow> \<not> u_superadmin u"
    and "(account_step user org)\<^sup>*\<^sup>* db1 db2"
  shows "(\<nexists>tok au. resolve_session sha now db1 tok = Some au \<and> au_id au = user)
    \<and> (\<nexists>cookie cu. session_user sha now' db2 cookie = Some cu \<and> cu_id cu = Some user \<and> (user_can cu org \<or> user_can_admin cu org))"
proof -
  have db1: "db1 = db\<lparr>tenants := upd_where (is_tenant user org) (\<lambda>t. t\<lparr>ut_active := False\<rparr>) (tenants db),
      sessions := del_where (\<lambda>s. se_user s = user) (sessions db)\<rparr>"
    using assms(1) by (auto simp: scim_apply_active_def scim_set_active_def delete_user_sessions_def Let_def split: bool.splits)
  have "locked user org db1" using assms(2) by (auto simp: locked_def db1 is_tenant_def elim!: in_upd_whereE)
  from locked_refuses[OF locked_run[OF assms(3) this]] have "\<nexists>cookie cu. session_user sha now' db2 cookie = Some cu \<and> cu_id cu = Some user
      \<and> (user_can cu org \<or> user_can_admin cu org)" by blast
  moreover have "au_id au \<noteq> user" if "resolve_session sha now db1 tok = Some au" for tok au
    using resolve_session_user[OF that] by (auto simp: db1)
  ultimately show ?thesis by blast
qed

lemma offboarded_locked_out_witness:
  "(case scim_apply_active demo_accounts 1 5 False of (Inr m, db1) \<Rightarrow>
      (case create_session demo_sha ''again'' 50 db1 5 7 of Inr (t, db2) \<Rightarrow>
        (case session_user demo_sha 60 db2 (Some ''again'') of Some cu \<Rightarrow> cu_id cu = Some 5 \<and> \<not> user_can cu 1 | None \<Rightarrow> False) | _ \<Rightarrow> False) | _ \<Rightarrow> False)"
proof -
  let ?off = "scim_apply_active demo_accounts 1 5 False"
  let ?db2 = "\<lambda>db1. case create_session demo_sha ''again'' 50 db1 5 7 of Inr (t, db2) \<Rightarrow> db2 | Inl _ \<Rightarrow> db1"
  have "fst ?off = Inr (''a@x'', False)" by code_simp
  then have off: "?off = (Inr (''a@x'', False), snd ?off)" by (simp add: prod_eq_iff)
  have some: "map_option cu_id (session_user demo_sha 60 (?db2 (snd ?off)) (Some ''again'')) = Some (Some 5)" by code_simp
  have "create_session demo_sha ''again'' 50 (snd ?off) 5 7 = Inr (''again'', ?db2 (snd ?off))" by code_simp
  then obtain db2 where in_again: "create_session demo_sha ''again'' 50 (snd ?off) 5 7 = Inr (''again'', db2)" ..
  have plain: "\<forall>u\<in>set (users demo_accounts). u_id u = 5 \<longrightarrow> \<not> u_superadmin u" by code_simp
  have run: "(account_step 5 1)\<^sup>*\<^sup>* (snd ?off) db2" using opened[OF in_again] by blast
  obtain cu where cu: "session_user demo_sha 60 db2 (Some ''again'') = Some cu" "cu_id cu = Some 5"
    using some unfolding in_again by auto
  then have no: "\<not> user_can cu 1" using offboarded_locked_out[OF off plain run, of demo_sha 60 60] by blast
  show ?thesis
    by (subst off) (simp only: prod.case sum.case in_again cu option.case no HOL.simp_thms)
qed

text \<open>A password-reset link works once: consuming it sets the new password, ends every session of
  the account, leaves the other accounts alone, and no later attempt with the link does anything.\<close>

theorem reset_link_single_use:
  assumes "reset_password sha hashpw now db link pw = (Some user, db')" "now \<le> now'"
    and "distinct (map u_email (users db))" "distinct (map u_id (users db))" "u \<in> set (users db)" "u_id u = user"
    and "verify pw (hashpw pw)"
  shows "reset_password sha hashpw now' db' link pw' = (None, db')
    \<and> verify_credentials verify db' (u_email u) pw = Some user
    \<and> (\<nexists>tok au. resolve_session sha now' db' tok = Some au \<and> au_id au = user)
    \<and> filter (\<lambda>x. u_id x \<noteq> user) (users db') = filter (\<lambda>x. u_id x \<noteq> user) (users db)"
proof -
  let ?rs = "upd_where (reset_live sha now link) (\<lambda>p. p\<lparr>pr_used := Some now\<rparr>) (resets db)"
  have db': "db' = (set_password user (hashpw pw) (db\<lparr>resets := ?rs\<rparr>))\<lparr>sessions :=
      del_where (\<lambda>s. se_user s = user) (sessions db)\<rparr>"
    using assms(1) by (auto simp: reset_password_def Let_def set_password_def split: option.splits)
  have "\<not> reset_live sha now' link p" if "p \<in> set ?rs" for p
    using that assms(2) by (auto simp: reset_live_def elim!: in_upd_whereE)
  then have "select_one (reset_live sha now' link) (resets db') = None"
    by (simp add: select_one_None db' set_password_def)
  then have 1: "reset_password sha hashpw now' db' link pw' = (None, db')"
    by (simp add: reset_password_def)
  have us: "users db' = upd_where (\<lambda>u. u_id u = user) (\<lambda>u. u\<lparr>u_password := hashpw pw\<rparr>) (users db)"
    by (simp add: db' set_password_def)
  have "distinct (map u_email (users db'))" using assms(3) by (simp add: us map_upd_where_key)
  moreover have "u\<lparr>u_password := hashpw pw\<rparr> \<in> set (users db')" using assms(5,6) by (auto simp: us in_upd_where)
  ultimately have "user_by_email db' (u_email u) = Some (u\<lparr>u_password := hashpw pw\<rparr>)"
    unfolding user_by_email_def by (rule select_one_key) simp_all
  then have 2: "verify_credentials verify db' (u_email u) pw = Some user"
    using assms(6,7) by (simp add: verify_credentials_def)
  have 3: "\<nexists>tok au. resolve_session sha now' db' tok = Some au \<and> au_id au = user"
    using resolve_session_user by (fastforce simp: db')
  have "filter (\<lambda>x. u_id x \<noteq> i) (upd_where (\<lambda>u. u_id u = i) (\<lambda>u. u\<lparr>u_password := ph\<rparr>) t) =
      filter (\<lambda>x. u_id x \<noteq> i) t" for i ph t by (induction t) (simp_all add: upd_where_Cons)
  with 1 2 3 show ?thesis by (simp add: us)
qed

lemma reset_link_single_use_witness:
  "(case reset_password demo_sha id 50 demo_accounts ''link'' ''new'' of (r, db') \<Rightarrow>
      r = Some 5 \<and> reset_password demo_sha id 60 db' ''link'' ''evil'' = (None, db')
      \<and> verify_credentials (=) db' ''a@x'' ''new'' = Some 5)"
proof -
  let ?u = "\<lparr>u_id = 5, u_email = ''a@x'', u_password = ''old'', u_superadmin = False\<rparr>"
  obtain r db' where s: "reset_password demo_sha id 50 demo_accounts ''link'' ''new'' = (r, db')" by fastforce
  have "fst (reset_password demo_sha id 50 demo_accounts ''link'' ''new'') = Some 5" by code_simp
  then have s': "reset_password demo_sha id 50 demo_accounts ''link'' ''new'' = (Some 5, db')" "r = Some 5"
    using s by simp_all
  have us: "users demo_accounts = [?u]" by (simp add: demo_accounts_def)
  show ?thesis unfolding s
    using reset_link_single_use[OF s'(1), of 60 ?u "(=)" "''evil''"] s'(2) by (simp add: us)
qed

text \<open>Changing the password needs the current one (a wrong one changes nothing), and a change ends
  exactly the account's other sessions.\<close>

theorem change_password_sessions:
  "case change_password sha hashpw verify db user cur new keep of
     (WrongCurrent, db') \<Rightarrow> db' = db \<and> (case user_by_id db user of None \<Rightarrow> True | Some u \<Rightarrow> \<not> verify cur (u_password u))
   | (Changed, db') \<Rightarrow> (\<exists>u. user_by_id db user = Some u \<and> verify cur (u_password u))
       \<and> set (sessions db') = set (sessions db) - {s. se_user s = user
            \<and> (case keep of None \<Rightarrow> True | Some t \<Rightarrow> se_hash s \<noteq> token_hash sha t)}"
  by (auto simp: change_password_def Let_def set_password_def split: option.splits)

end
