(* ===== verification/Entitle.thy ===== *)
theory Entitle
  imports Access
begin

text \<open>
  The plan of an organization: features and limits (\<open>Feature\<close>, \<open>Entitlements\<close>, \<open>entitlements\<close>,
  \<open>require_feature\<close>, \<open>set_org_entitlements\<close> in \<open>crates/sconce-catalog/src/lib.rs\<close>) and the
  \<open>entitlements set\<close> and \<open>clear\<close> commands of \<open>crates/sconce/src/main.rs\<close>.
\<close>

datatype feature = Agency | Sso | MultiOidc | RepoAccess | Scim | AuditLog | CustomHostname | WhiteLabel

text \<open>Features are enumerable, in the order of \<open>Feature::all\<close>.\<close>

instantiation feature :: enum
begin

definition enum_feature :: "feature list" where
  "enum_feature = [Agency, Sso, MultiOidc, RepoAccess, Scim, AuditLog, CustomHostname, WhiteLabel]"

definition enum_all_feature :: "(feature \<Rightarrow> bool) \<Rightarrow> bool" where
  "enum_all_feature P \<longleftrightarrow> list_all P enum_class.enum"

definition enum_ex_feature :: "(feature \<Rightarrow> bool) \<Rightarrow> bool" where
  "enum_ex_feature P \<longleftrightarrow> list_ex P enum_class.enum"

instance
proof
  show u: "(UNIV :: feature set) = set enum_class.enum"
    using feature.exhaust by (auto simp: enum_feature_def)
  show "enum_class.enum_all P = Ball UNIV P" "enum_class.enum_ex P = Bex UNIV P" for P :: "feature \<Rightarrow> bool"
    unfolding u enum_all_feature_def enum_ex_feature_def list_all_iff list_ex_iff by auto
qed (simp add: enum_feature_def)

end

fun feature_str :: "feature \<Rightarrow> string" where
  "feature_str Agency = ''agency''"
| "feature_str Sso = ''sso''"
| "feature_str MultiOidc = ''multi_oidc''"
| "feature_str RepoAccess = ''repo_access''"
| "feature_str Scim = ''scim''"
| "feature_str AuditLog = ''audit_log''"
| "feature_str CustomHostname = ''custom_hostname''"
| "feature_str WhiteLabel = ''white_label''"

definition feature_parse :: "string \<Rightarrow> feature option" where
  "feature_parse s = (let t = trim s in
     if t = ''agency'' then Some Agency
     else if t = ''sso'' then Some Sso
     else if t = ''multi_oidc'' then Some MultiOidc
     else if t = ''repo_access'' then Some RepoAccess
     else if t = ''scim'' then Some Scim
     else if t = ''audit_log'' then Some AuditLog
     else if t = ''custom_hostname'' then Some CustomHostname
     else if t = ''white_label'' then Some WhiteLabel
     else None)"

record entitlements =
  ee_soft_bytes :: "int option"
  ee_max_skus :: "int option"
  ee_agency :: bool
  ee_sso :: bool
  ee_multi_oidc :: bool
  ee_repo_access :: bool
  ee_scim :: bool
  ee_audit_log :: bool
  ee_custom_hostname :: bool
  ee_white_label :: bool

definition unlimited :: entitlements where
  "unlimited = \<lparr>ee_soft_bytes = None, ee_max_skus = None, ee_agency = True, ee_sso = True, ee_multi_oidc = True,
     ee_repo_access = True, ee_scim = True, ee_audit_log = True, ee_custom_hostname = True, ee_white_label = True\<rparr>"

fun allows :: "entitlements \<Rightarrow> feature \<Rightarrow> bool" where
  "allows e Agency = ee_agency e"
| "allows e Sso = ee_sso e"
| "allows e MultiOidc = ee_multi_oidc e"
| "allows e RepoAccess = ee_repo_access e"
| "allows e Scim = ee_scim e"
| "allows e AuditLog = ee_audit_log e"
| "allows e CustomHostname = ee_custom_hostname e"
| "allows e WhiteLabel = ee_white_label e"

fun set_feature :: "entitlements \<Rightarrow> feature \<Rightarrow> bool \<Rightarrow> entitlements" where
  "set_feature e Agency b = e\<lparr>ee_agency := b\<rparr>"
| "set_feature e Sso b = e\<lparr>ee_sso := b\<rparr>"
| "set_feature e MultiOidc b = e\<lparr>ee_multi_oidc := b\<rparr>"
| "set_feature e RepoAccess b = e\<lparr>ee_repo_access := b\<rparr>"
| "set_feature e Scim b = e\<lparr>ee_scim := b\<rparr>"
| "set_feature e AuditLog b = e\<lparr>ee_audit_log := b\<rparr>"
| "set_feature e CustomHostname b = e\<lparr>ee_custom_hostname := b\<rparr>"
| "set_feature e WhiteLabel b = e\<lparr>ee_white_label := b\<rparr>"

datatype entitlement_error = Denied feature | SkuCapReached int | EntSqlx sql_error

definition ents_of_row :: "org_ent_row \<Rightarrow> entitlements" where
  "ents_of_row r = \<lparr>ee_soft_bytes = oe_soft_bytes r, ee_max_skus = oe_max_skus r, ee_agency = oe_agency r,
     ee_sso = oe_sso r, ee_multi_oidc = oe_multi_oidc r, ee_repo_access = oe_repo_access r, ee_scim = oe_scim r,
     ee_audit_log = oe_audit_log r, ee_custom_hostname = oe_custom_hostname r, ee_white_label = oe_white_label r\<rparr>"

definition org_entitlements :: "db \<Rightarrow> uuid \<Rightarrow> entitlements" where
  "org_entitlements db org = (case select_one (\<lambda>r. oe_org r = org) (org_ents db) of
     None \<Rightarrow> unlimited | Some r \<Rightarrow> ents_of_row r)"

definition has_entitlements :: "db \<Rightarrow> uuid \<Rightarrow> bool" where
  "has_entitlements db org \<longleftrightarrow> exists_where (\<lambda>r. oe_org r = org) (org_ents db)"

definition row_of_ents :: "uuid \<Rightarrow> entitlements \<Rightarrow> org_ent_row" where
  "row_of_ents org e = \<lparr>oe_org = org, oe_soft_bytes = ee_soft_bytes e, oe_max_skus = ee_max_skus e,
     oe_agency = ee_agency e, oe_sso = ee_sso e, oe_multi_oidc = ee_multi_oidc e, oe_repo_access = ee_repo_access e,
     oe_scim = ee_scim e, oe_audit_log = ee_audit_log e, oe_custom_hostname = ee_custom_hostname e,
     oe_white_label = ee_white_label e\<rparr>"

definition set_org_entitlements :: "db \<Rightarrow> uuid \<Rightarrow> entitlements \<Rightarrow> db" where
  "set_org_entitlements db org e =
     (if has_entitlements db org
      then db\<lparr>org_ents := upd_where (\<lambda>r. oe_org r = org) (\<lambda>_. row_of_ents org e) (org_ents db)\<rparr>
      else db\<lparr>org_ents := org_ents db @ [row_of_ents org e]\<rparr>)"

definition clear_org_entitlements :: "db \<Rightarrow> uuid \<Rightarrow> bool \<times> db" where
  "clear_org_entitlements db org =
     (has_entitlements db org, db\<lparr>org_ents := del_where (\<lambda>r. oe_org r = org) (org_ents db)\<rparr>)"

definition require_feature :: "db \<Rightarrow> uuid \<Rightarrow> feature \<Rightarrow> (entitlement_error, unit) result" where
  "require_feature db org f = (if allows (org_entitlements db org) f then Inr () else Inl (Denied f))"

section \<open>The command line\<close>

text \<open>\<open>i64::saturating_mul\<close>\<close>

definition saturating_mul_i64 :: "int \<Rightarrow> int \<Rightarrow> int" where
  "saturating_mul_i64 a b = max (- (2 ^ 63)) (min (2 ^ 63 - 1) (a * b))"

fun enable_all :: "string list \<Rightarrow> entitlements \<Rightarrow> (string, entitlements) result" where
  "enable_all [] e = Inr e"
| "enable_all (name # names) e = (case feature_parse name of
     None \<Rightarrow> Inl (''unknown feature: '' @ name)
   | Some f \<Rightarrow> enable_all names (set_feature e f True))"

definition feature_names :: "string \<Rightarrow> string list" where
  "feature_names features = filter (\<lambda>s. s \<noteq> []) (map trim (split_on (CHR '','') features))"

definition cli_entitlements_set :: "db \<Rightarrow> string \<Rightarrow> string \<Rightarrow> int option \<Rightarrow> int option \<Rightarrow> (string, db) result" where
  "cli_entitlements_set db org features max_skus soft_gb = (case org_by_slug db org of
     None \<Rightarrow> Inl (''no such org: '' @ org)
   | Some g \<Rightarrow>
      and_then (enable_all (feature_names features) (fold (\<lambda>f e. set_feature e f False) enum_class.enum unlimited))
        (\<lambda>e. Inr (set_org_entitlements db (o_id g) (e\<lparr>ee_max_skus := max_skus,
           ee_soft_bytes := map_option (\<lambda>gb. saturating_mul_i64 gb (1024 * 1024 * 1024)) soft_gb\<rparr>))))"

definition cli_entitlements_clear :: "db \<Rightarrow> string \<Rightarrow> (string, db) result" where
  "cli_entitlements_clear db org = (case org_by_slug db org of
     None \<Rightarrow> Inl (''no such org: '' @ org) | Some g \<Rightarrow> Inr (snd (clear_org_entitlements db (o_id g))))"

section \<open>Lemmas\<close>

lemma ents_of_row_of_ents [simp]: "ents_of_row (row_of_ents org e) = e"
  by (simp add: ents_of_row_def row_of_ents_def)

lemma oe_org_row_of_ents [simp]: "oe_org (row_of_ents org e) = org"
  by (simp add: row_of_ents_def)

lemma org_entitlements_set:
  "org_entitlements (set_org_entitlements db org e) org' = (if org' = org then e else org_entitlements db org')"
proof -
  have u: "select_one (\<lambda>r. oe_org r = x) (upd_where (\<lambda>r. oe_org r = org) (\<lambda>_. row_of_ents org e) t) =
      (if x = org \<and> (\<exists>r\<in>set t. oe_org r = org) then Some (row_of_ents org e)
       else select_one (\<lambda>r. oe_org r = x) t)" for t x
    by (induction t) (auto simp: table_simps)
  have a: "select_one (\<lambda>r. oe_org r = x) (t @ [row_of_ents org e]) =
      (case select_one (\<lambda>r. oe_org r = x) t of Some r \<Rightarrow> Some r
       | None \<Rightarrow> if x = org then Some (row_of_ents org e) else None)" for t x
    by (induction t) (auto simp: table_simps)
  show ?thesis
  proof (cases "has_entitlements db org")
    case True
    then show ?thesis by (simp add: org_entitlements_def set_org_entitlements_def has_entitlements_def u)
  next
    case False
    then have "select_one (\<lambda>r. oe_org r = org) (org_ents db) = None"
      by (simp add: has_entitlements_def select_one_None)
    with False show ?thesis
      by (simp add: org_entitlements_def set_org_entitlements_def a split: option.splits)
  qed
qed

lemma org_entitlements_clear:
  "org_entitlements (snd (clear_org_entitlements db org)) org' = (if org' = org then unlimited else org_entitlements db org')"
proof -
  have "select_one (\<lambda>r. oe_org r = org') (del_where (\<lambda>r. oe_org r = org) t) =
      (if org' = org then None else select_one (\<lambda>r. oe_org r = org') t)" for t :: "org_ent_row list"
    by (induction t) (auto simp: table_simps del_where_def)
  then show ?thesis by (simp add: org_entitlements_def clear_org_entitlements_def)
qed

lemma allows_set_feature [simp]: "allows (set_feature e f b) g = (if g = f then b else allows e g)"
  by (cases f; cases g) simp_all

lemma allows_limits [simp]: "allows (e\<lparr>ee_max_skus := m, ee_soft_bytes := s\<rparr>) f = allows e f"
  by (cases f) simp_all

lemma allows_enable_all:
  "enable_all names e = Inr e' \<Longrightarrow> allows e' f \<longleftrightarrow> allows e f \<or> Some f \<in> feature_parse ` set names"
  by (induction names arbitrary: e) (auto split: option.splits)

lemma allows_all_off [simp]: "\<not> allows (fold (\<lambda>f e. set_feature e f False) enum_class.enum unlimited) f"
  by (cases f) (simp_all add: enum_feature_def)

lemma feature_parse_str [simp]: "feature_parse (feature_str f) = Some f"
  by (cases f) (hypsubst, code_simp)+

section \<open>Properties\<close>

text \<open>Setting an organization's plan enables exactly the listed features there, leaves every other
  organization's plan alone, and clearing it makes every feature available again; the names the
  command reads are the names the program prints.\<close>

theorem plan_set_exact:
  assumes "org_by_slug db org = Some g" "cli_entitlements_set db org features skus gb = Inr db'"
    and "cli_entitlements_clear db' org = Inr db''" "other \<noteq> o_id g"
  shows "(require_feature db' (o_id g) f = Inr ()) = (Some f \<in> feature_parse ` set (feature_names features))
    \<and> ee_max_skus (org_entitlements db' (o_id g)) = skus
    \<and> org_entitlements db' other = org_entitlements db other
    \<and> require_feature db'' (o_id g) f = Inr () \<and> feature_parse (feature_str f) = Some f"
proof -
  obtain e where e: "enable_all (feature_names features) (fold (\<lambda>f e. set_feature e f False) enum_class.enum unlimited) = Inr e"
      "db' = set_org_entitlements db (o_id g) (e\<lparr>ee_max_skus := skus,
         ee_soft_bytes := map_option (\<lambda>gb. saturating_mul_i64 gb (1024 * 1024 * 1024)) gb\<rparr>)"
    using assms(1,2) by (auto simp: cli_entitlements_set_def and_then_Inr_iff)
  have "org_by_slug db' org = Some g"
    using assms(1) by (simp add: e(2) org_by_slug_def set_org_entitlements_def)
  then have c: "db'' = snd (clear_org_entitlements db' (o_id g))" using assms(3) by (simp add: cli_entitlements_clear_def)
  have "allows unlimited f" by (cases f) (simp_all add: unlimited_def)
  then have "require_feature db'' (o_id g) f = Inr ()"
    by (simp add: require_feature_def c org_entitlements_clear)
  moreover have "allows e f \<longleftrightarrow> Some f \<in> feature_parse ` set (feature_names features)"
    using allows_enable_all[OF e(1)] allows_all_off by blast
  ultimately show ?thesis
    using assms(4) by (simp add: require_feature_def e(2) org_entitlements_set)
qed

lemma plan_set_exact_witness:
  "(case cli_entitlements_set demo_names ''acme'' ''sso, scim'' (Some 3) None of
     Inr db' \<Rightarrow> require_feature db' 1 Sso = Inr () \<and> require_feature db' 1 Agency \<noteq> Inr ()
       \<and> ee_max_skus (org_entitlements db' 1) = Some 3 | Inl _ \<Rightarrow> False)"
proof -
  let ?g = "\<lparr>o_id = 1, o_slug = ''acme'', o_name = None\<rparr>"
  have n: "feature_parse ` set (feature_names ''sso, scim'') = {Some Sso, Some Scim}" by code_simp
  have "\<not> isl (cli_entitlements_set demo_names ''acme'' ''sso, scim'' (Some 3) None)" by code_simp
  then obtain db' where s: "cli_entitlements_set demo_names ''acme'' ''sso, scim'' (Some 3) None = Inr db'"
    by (metis isl_def sum.exhaust)
  have g: "org_by_slug demo_names ''acme'' = Some ?g" by code_simp
  have "org_by_slug db' ''acme'' = Some ?g" using s g
    by (auto simp: cli_entitlements_set_def and_then_Inr_iff org_by_slug_def set_org_entitlements_def)
  then obtain db'' where c: "cli_entitlements_clear db' ''acme'' = Inr db''" by (simp add: cli_entitlements_clear_def)
  note p = plan_set_exact[OF g s c, of 2]
  show ?thesis unfolding s using p[of Sso] p[of Agency] by (simp add: n)
qed
end
