(* ===== verification/Packages.thy ===== *)
theory Packages
  imports Entitle
begin

text \<open>
  Packages of a repository, repositories made of members, repository settings, package sets and
  autogrant rules: \<open>upsert_package\<close>, \<open>set_package_visibility\<close>, \<open>set_repo_members\<close>,
  \<open>set_repo_settings\<close>, \<open>mark_package_broken\<close>, \<open>archive_package\<close>, \<open>resolve_set\<close>, \<open>add_grant_rule\<close> and
  their neighbours in \<open>crates/sconce-catalog/src/lib.rs\<close>, and the set handlers of
  \<open>crates/sconce-server/src/ui.rs\<close>.
\<close>

section \<open>Repository settings and members\<close>

record repo_settings =
  st_allow_raw :: "bool option"
  st_max_ttl :: "int option"
  st_allow_private :: bool
  st_anonymous :: bool

definition repo_settings_of :: "db \<Rightarrow> uuid \<Rightarrow> (sql_error, repo_settings) result" where
  "repo_settings_of db repo = ok_or RowNotFound (map_option
     (\<lambda>r. \<lparr>st_allow_raw = r_allow_raw r, st_max_ttl = r_max_ttl r, st_allow_private = r_allow_private r,
        st_anonymous = r_anonymous r\<rparr>) (repo_named db repo))"

definition set_repo_settings :: "db \<Rightarrow> uuid \<Rightarrow> repo_settings \<Rightarrow> db" where
  "set_repo_settings db repo s = db\<lparr>repos := upd_where (\<lambda>r. r_id r = repo)
     (\<lambda>r. r\<lparr>r_allow_raw := st_allow_raw s, r_max_ttl := st_max_ttl s, r_allow_private := st_allow_private s,
        r_anonymous := st_anonymous s\<rparr>) (repos db)\<rparr>"

definition has_members :: "db \<Rightarrow> uuid \<Rightarrow> bool" where
  "has_members db repo \<longleftrightarrow> exists_where (\<lambda>m. m_repo m = repo) (members db)"

definition int_cmp :: "int \<Rightarrow> int \<Rightarrow> ordering" where
  "int_cmp a b = (if a < b then Less else if a = b then Equal else Greater)"

definition repo_members :: "db \<Rightarrow> uuid \<Rightarrow> (uuid \<times> string) list" where
  "repo_members db repo = List.map_filter (\<lambda>m. Option.bind (repo_named db (m_member m)) (\<lambda>r.
       map_option (\<lambda>g. (r_id r, o_slug g @ ''/'' @ r_slug r)) (org_with_id db (r_org r))))
     (sort_by (\<lambda>a b. int_cmp (m_position a) (m_position b)) (filter (\<lambda>m. m_repo m = repo) (members db)))"

datatype repo_members_error = MembersDb sql_error | MembersInvalid string

fun check_listed :: "uuid \<Rightarrow> uuid set \<Rightarrow> uuid list \<Rightarrow> (repo_members_error, unit) result" where
  "check_listed repo seen [] = Inr ()"
| "check_listed repo seen (m # ms) =
     (if m = repo then Inl (MembersInvalid ''a repository cannot be its own member'')
      else if m \<in> seen then Inl (MembersInvalid ''a member is listed twice'')
      else check_listed repo (insert m seen) ms)"

text \<open>The inserts of the loop: the foreign keys of \<open>repository_members\<close> are checked per row, positions
  count from 0 and are clamped to 32 bits.\<close>

fun insert_members :: "uuid \<Rightarrow> nat \<Rightarrow> uuid list \<Rightarrow> db \<Rightarrow> (repo_members_error, db) result" where
  "insert_members repo n [] db = Inr db"
| "insert_members repo n (m # ms) db =
     (if repo_named db repo = None \<or> repo_named db m = None
      then Inl (MembersDb (ForeignKeyViolation ''repository_members''))
      else insert_members repo (Suc n) ms (db\<lparr>members := members db @
        [\<lparr>m_repo = repo, m_member = m, m_position = clamp_i32 (int n)\<rparr>]\<rparr>))"

definition other_org :: "db \<Rightarrow> uuid \<Rightarrow> uuid list \<Rightarrow> bool" where
  "other_org db repo ms \<longleftrightarrow>
     exists_where (\<lambda>m. r_id m \<in> set ms \<and> exists_where (\<lambda>r. r_id r = repo \<and> r_org m \<noteq> r_org r) (repos db)) (repos db)
     \<or> count_where (\<lambda>m. r_id m \<in> set ms) (repos db) \<noteq> length ms"

definition set_repo_members :: "db \<Rightarrow> uuid \<Rightarrow> uuid list \<Rightarrow> (repo_members_error, db) result" where
  "set_repo_members db repo ms =
     and_then
       (if ms = [] then Inr ()
        else and_then (check_listed repo {} ms) (\<lambda>_.
          if other_org db repo ms
          then Inl (MembersInvalid ''members must be repositories of the same organization'')
          else if exists_where (\<lambda>m. m_repo m \<in> set ms) (members db) \<or> exists_where (\<lambda>m. m_member m = repo) (members db)
          then Inl (MembersInvalid ''only one level'')
          else if exists_where (\<lambda>p. p_repo p = repo) (packages db)
          then Inl (MembersInvalid ''the repository owns packages'')
          else Inr ()))
       (\<lambda>_. insert_members repo 0 ms (db\<lparr>members := del_where (\<lambda>m. m_repo m = repo) (members db)\<rparr>))"

section \<open>Packages\<close>

datatype upsert_error = UpsertDb sql_error | UpsertPolicy string

definition package_at :: "db \<Rightarrow> uuid \<Rightarrow> string \<Rightarrow> package_row option" where
  "package_at db repo name = select_one (\<lambda>p. p_repo p = repo \<and> p_name p = name) (packages db)"

text \<open>The visibility and whether it was declared (\<open>PackageVisibility\<close>).\<close>

record package_visibility =
  pv_visibility :: visibility
  pv_declared :: bool

definition package_visibility_of :: "db \<Rightarrow> uuid \<Rightarrow> string \<Rightarrow> package_visibility option" where
  "package_visibility_of db repo name =
     map_option (\<lambda>p. \<lparr>pv_visibility = p_visibility p, pv_declared = (p_declared p \<noteq> None)\<rparr>) (package_at db repo name)"

definition ensure_private_allowed :: "db \<Rightarrow> uuid \<Rightarrow> (upsert_error, unit) result" where
  "ensure_private_allowed db repo = (case repo_named db repo of
     None \<Rightarrow> Inl (UpsertDb RowNotFound)
   | Some r \<Rightarrow> if r_allow_private r then Inr ()
       else Inl (UpsertPolicy ''this repository is public-only and does not allow private packages''))"

definition new_package :: "uuid \<Rightarrow> uuid \<Rightarrow> string \<Rightarrow> string \<Rightarrow> json option \<Rightarrow> visibility \<Rightarrow> package_row" where
  "new_package newid repo name kind source vis = \<lparr>p_id = newid, p_name = name, p_kind = kind, p_source = source,
     p_repo = repo, p_visibility = vis, p_declared = None, p_upstream = None, p_source_path = [],
     p_sync_health = ''ok'', p_broken_reason = None, p_broken_at = None, p_last_success = None,
     p_archived_at = None\<rparr>"

definition upsert_package :: "uuid \<Rightarrow> db \<Rightarrow> uuid \<Rightarrow> string \<Rightarrow> string \<Rightarrow> json option \<Rightarrow> visibility
    \<Rightarrow> (upsert_error, uuid \<times> db) result" where
  "upsert_package newid db repo name kind source vis =
     (let effective = (case package_visibility_of db repo name of
            Some pv \<Rightarrow> if pv_declared pv then pv_visibility pv else vis
          | None \<Rightarrow> vis)
      in and_then (if effective = Private then ensure_private_allowed db repo else Inr ()) (\<lambda>_.
         if has_members db repo
         then Inl (UpsertPolicy ''this repository is made of member repositories'')
         else case package_at db repo name of
           Some p \<Rightarrow> Inr (p_id p, db\<lparr>packages := upd_where (\<lambda>p. p_repo p = repo \<and> p_name p = name)
             (\<lambda>p. p\<lparr>p_kind := kind, p_source := source,
                p_visibility := (if p_declared p = None then vis else p_visibility p)\<rparr>) (packages db)\<rparr>)
         | None \<Rightarrow> if repo_named db repo = None then Inl (UpsertDb (ForeignKeyViolation ''packages''))
             else Inr (newid, db\<lparr>packages := packages db @ [new_package newid repo name kind source vis]\<rparr>)))"

definition upd_package :: "uuid \<Rightarrow> string \<Rightarrow> (package_row \<Rightarrow> package_row) \<Rightarrow> db \<Rightarrow> bool \<times> db" where
  "upd_package repo name f db =
     (exists_where (\<lambda>p. p_repo p = repo \<and> p_name p = name) (packages db),
      db\<lparr>packages := upd_where (\<lambda>p. p_repo p = repo \<and> p_name p = name) f (packages db)\<rparr>)"

definition set_package_visibility :: "time \<Rightarrow> db \<Rightarrow> uuid \<Rightarrow> string \<Rightarrow> visibility \<Rightarrow> (upsert_error, bool \<times> db) result" where
  "set_package_visibility now db repo name vis =
     and_then (if vis = Private then ensure_private_allowed db repo else Inr ())
       (\<lambda>_. Inr (upd_package repo name (\<lambda>p. p\<lparr>p_visibility := vis, p_declared := Some now\<rparr>) db))"

definition mark_package_synced :: "time \<Rightarrow> db \<Rightarrow> uuid \<Rightarrow> string \<Rightarrow> db" where
  "mark_package_synced now db repo name = snd (upd_package repo name
     (\<lambda>p. p\<lparr>p_last_success := Some now, p_sync_health := ''ok'', p_broken_reason := None, p_broken_at := None\<rparr>) db)"

definition coalesce :: "'a option \<Rightarrow> 'a \<Rightarrow> 'a" where
  "coalesce x d = (case x of None \<Rightarrow> d | Some y \<Rightarrow> y)"

definition mark_package_broken :: "time \<Rightarrow> db \<Rightarrow> uuid \<Rightarrow> string \<Rightarrow> string \<Rightarrow> bool \<times> db" where
  "mark_package_broken now db repo name reason =
     (let P = (\<lambda>p. p_repo p = repo \<and> p_name p = name \<and> p_archived_at p = None)
      in (exists_where P (packages db), db\<lparr>packages := upd_where P
        (\<lambda>p. p\<lparr>p_sync_health := ''broken'', p_broken_reason := Some reason,
               p_broken_at := Some (coalesce (p_broken_at p) now)\<rparr>) (packages db)\<rparr>))"

definition archive_package :: "time \<Rightarrow> db \<Rightarrow> uuid \<Rightarrow> string \<Rightarrow> bool \<times> db" where
  "archive_package now db repo name =
     (let (found, db) = upd_package repo name (\<lambda>p. p\<lparr>p_archived_at := Some (coalesce (p_archived_at p) now)\<rparr>) db
      in (found, db\<lparr>jobs := del_where (\<lambda>j. j_kind j = ''mirror_package'' \<and> j_status j = ''pending''
           \<and> j_package j = Some name
           \<and> exists_where (\<lambda>u. j_upstream j = Some (ur_id u) \<and> ur_repo u = repo) (upstreams db)) (jobs db)\<rparr>))"

definition unarchive_package :: "db \<Rightarrow> uuid \<Rightarrow> string \<Rightarrow> bool \<times> db" where
  "unarchive_package db repo name = upd_package repo name (\<lambda>p. p\<lparr>p_archived_at := None\<rparr>) db"

definition upstream_package_names :: "db \<Rightarrow> uuid \<Rightarrow> string list" where
  "upstream_package_names db upstream = sort_by text_cmp (map p_name
     (filter (\<lambda>p. p_upstream p = Some upstream \<and> p_archived_at p = None) (packages db)))"

definition needs_attention :: "package_row \<Rightarrow> bool" where
  "needs_attention p \<longleftrightarrow> p_sync_health p = ''broken'' \<and> p_archived_at p = None"

definition attention_counts :: "db \<Rightarrow> (uuid \<times> nat) list" where
  "attention_counts db = map (\<lambda>i. (i, count_where (\<lambda>p. needs_attention p \<and> p_repo p = i) (packages db)))
     (remdups (map p_repo (filter needs_attention (packages db))))"

definition set_package_upstream :: "db \<Rightarrow> uuid \<Rightarrow> uuid \<Rightarrow> (sql_error, db) result" where
  "set_package_upstream db package upstream =
     (if exists_where (\<lambda>p. p_id p = package) (packages db) \<and> \<not> exists_where (\<lambda>u. ur_id u = upstream) (upstreams db)
      then Inl (ForeignKeyViolation ''packages_upstream_id'')
      else Inr (db\<lparr>packages := upd_where (\<lambda>p. p_id p = package) (\<lambda>p. p\<lparr>p_upstream := Some upstream\<rparr>) (packages db)\<rparr>))"

definition set_package_source_path :: "db \<Rightarrow> uuid \<Rightarrow> string \<Rightarrow> db" where
  "set_package_source_path db package path =
     db\<lparr>packages := upd_where (\<lambda>p. p_id p = package) (\<lambda>p. p\<lparr>p_source_path := path\<rparr>) (packages db)\<rparr>"

section \<open>Package sets\<close>

definition list_package_sets :: "db \<Rightarrow> uuid \<Rightarrow> (uuid \<times> string) list" where
  "list_package_sets db org = map (\<lambda>s. (ps_id s, ps_name s))
     (sort_by (\<lambda>a b. text_cmp (ps_name a) (ps_name b)) (filter (\<lambda>s. ps_org s = org) (sets db)))"

definition create_package_set :: "uuid \<Rightarrow> db \<Rightarrow> uuid \<Rightarrow> string \<Rightarrow> (sql_error, uuid \<times> db) result" where
  "create_package_set newid db org name =
     (if exists_where (\<lambda>s. ps_org s = org \<and> ps_name s = trim name) (sets db) then Inl (UniqueViolation ''package_sets'')
      else if org_with_id db org = None then Inl (ForeignKeyViolation ''package_sets'')
      else Inr (newid, db\<lparr>sets := sets db @ [\<lparr>ps_id = newid, ps_org = org, ps_name = trim name\<rparr>]\<rparr>))"

text \<open>Deleting a set takes its members, rules, subscriptions and license edges with it; an edition that
  sells it forbids the delete (\<open>on delete restrict\<close>).\<close>

definition delete_package_set :: "db \<Rightarrow> uuid \<Rightarrow> uuid \<Rightarrow> (sql_error, bool \<times> db) result" where
  "delete_package_set db org set_id =
     (if \<not> exists_where (\<lambda>s. ps_id s = set_id \<and> ps_org s = org) (sets db) then Inr (False, db)
      else if exists_where (\<lambda>e. ed_set e = set_id) (editions db) then Inl (ForeignKeyViolation ''editions_set_id'')
      else Inr (True, db\<lparr>sets := del_where (\<lambda>s. ps_id s = set_id \<and> ps_org s = org) (sets db),
        set_members := del_where (\<lambda>m. sm_set m = set_id) (set_members db),
        set_rules := del_where (\<lambda>r. sr_set r = set_id) (set_rules db),
        grant_rules := del_where (\<lambda>g. gr_set g = set_id) (grant_rules db),
        set_ents := del_where (\<lambda>e. ls_set e = set_id) (set_ents db)\<rparr>))"

definition resolve_set :: "db \<Rightarrow> uuid \<Rightarrow> string list" where
  "resolve_set db set_id =
     sort_by text_cmp (remdups (map p_name (filter (\<lambda>p.
       exists_where (\<lambda>m. sm_set m = set_id \<and> sm_package m = p_id p) (set_members db)
       \<or> exists_where (\<lambda>r. r_id r = p_repo p \<and> exists_where (\<lambda>s. ps_id s = set_id \<and> ps_org s = r_org r) (sets db)) (repos db)
         \<and> exists_where (\<lambda>sr. sr_set sr = set_id \<and> like (star_to_percent (sr_glob sr)) (p_name p)) (set_rules db))
       (packages db))))"

definition find_package_in_org :: "db \<Rightarrow> uuid \<Rightarrow> string \<Rightarrow> uuid option" where
  "find_package_in_org db org name = map_option p_id (select_one
     (\<lambda>p. p_name p = name \<and> exists_where (\<lambda>r. r_id r = p_repo p \<and> r_org r = org) (repos db)) (packages db))"

definition add_set_member :: "db \<Rightarrow> uuid \<Rightarrow> uuid \<Rightarrow> (sql_error, db) result" where
  "add_set_member db set_id package =
     (if exists_where (\<lambda>m. sm_set m = set_id \<and> sm_package m = package) (set_members db) then Inr db
      else if \<not> exists_where (\<lambda>s. ps_id s = set_id) (sets db) \<or> \<not> exists_where (\<lambda>p. p_id p = package) (packages db)
      then Inl (ForeignKeyViolation ''package_set_members'')
      else Inr (db\<lparr>set_members := set_members db @ [\<lparr>sm_set = set_id, sm_package = package\<rparr>]\<rparr>))"

definition remove_set_member :: "db \<Rightarrow> uuid \<Rightarrow> uuid \<Rightarrow> db" where
  "remove_set_member db set_id package =
     db\<lparr>set_members := del_where (\<lambda>m. sm_set m = set_id \<and> sm_package m = package) (set_members db)\<rparr>"

definition add_set_rule :: "uuid \<Rightarrow> db \<Rightarrow> uuid \<Rightarrow> string \<Rightarrow> (sql_error, uuid \<times> db) result" where
  "add_set_rule newid db set_id glob =
     (if \<not> exists_where (\<lambda>s. ps_id s = set_id) (sets db) then Inl (ForeignKeyViolation ''package_set_rules'')
      else Inr (newid, db\<lparr>set_rules := set_rules db @ [\<lparr>sr_id = newid, sr_set = set_id, sr_glob = trim glob\<rparr>]\<rparr>))"

definition remove_set_rule :: "db \<Rightarrow> uuid \<Rightarrow> db" where
  "remove_set_rule db rule_id = db\<lparr>set_rules := del_where (\<lambda>r. sr_id r = rule_id) (set_rules db)\<rparr>"

section \<open>Autogrant rules\<close>

definition add_grant_rule :: "uuid \<Rightarrow> db \<Rightarrow> uuid \<Rightarrow> uuid \<Rightarrow> (entitlement_error, db) result" where
  "add_grant_rule newid db target set_id = (case org_of_repo db target of
     Inl e \<Rightarrow> Inl (EntSqlx e)
   | Inr org \<Rightarrow> and_then (require_feature db org Agency) (\<lambda>_.
       if exists_where (\<lambda>g. gr_target g = target \<and> gr_set g = set_id) (grant_rules db) then Inr db
       else if \<not> exists_where (\<lambda>s. ps_id s = set_id) (sets db)
       then Inl (EntSqlx (ForeignKeyViolation ''repository_grant_rules''))
       else Inr (db\<lparr>grant_rules := grant_rules db @ [\<lparr>gr_id = newid, gr_target = target, gr_set = set_id\<rparr>]\<rparr>)))"

section \<open>The handlers of the set pages\<close>

text \<open>A request body carries ids as text; \<open>parse\<close> failing is the \<open>None\<close> of the argument.\<close>

definition set_handler :: "db \<Rightarrow> current_user \<Rightarrow> string \<Rightarrow> uuid option \<Rightarrow> (uuid \<Rightarrow> uuid \<Rightarrow> (status, db) result)
    \<Rightarrow> (status, db) result" where
  "set_handler db user org set_id k =
     and_then (lookup_org_admin db user org) (\<lambda>g. and_then (lookup_set db (o_id g) set_id) (\<lambda>(sid, _). k (o_id g) sid))"

definition or_500 :: "('e, 'a) result \<Rightarrow> (status, 'a) result" where
  "or_500 r = (case r of Inl _ \<Rightarrow> Inl ServerError | Inr x \<Rightarrow> Inr x)"

definition ui_delete_set :: "db \<Rightarrow> current_user \<Rightarrow> string \<Rightarrow> uuid option \<Rightarrow> (status, db) result" where
  "ui_delete_set db user org set_id = set_handler db user org set_id
     (\<lambda>g sid. or_500 (and_then (delete_package_set db g sid) (\<lambda>(_, db). Inr db)))"

definition ui_add_set_member :: "db \<Rightarrow> current_user \<Rightarrow> string \<Rightarrow> uuid option \<Rightarrow> string \<Rightarrow> (status, db) result" where
  "ui_add_set_member db user org set_id package = set_handler db user org set_id
     (\<lambda>g sid. case find_package_in_org db g (trim package) of
        Some pid \<Rightarrow> or_500 (add_set_member db sid pid) | None \<Rightarrow> Inr db)"

definition ui_remove_set_member :: "db \<Rightarrow> current_user \<Rightarrow> string \<Rightarrow> uuid option \<Rightarrow> uuid option \<Rightarrow> (status, db) result" where
  "ui_remove_set_member db user org set_id package = set_handler db user org set_id
     (\<lambda>g sid. and_then (ok_or BadRequest package) (\<lambda>pid. Inr (remove_set_member db sid pid)))"

definition ui_add_set_rule :: "uuid \<Rightarrow> db \<Rightarrow> current_user \<Rightarrow> string \<Rightarrow> uuid option \<Rightarrow> string \<Rightarrow> (status, db) result" where
  "ui_add_set_rule newid db user org set_id glob = set_handler db user org set_id
     (\<lambda>g sid. or_500 (and_then (add_set_rule newid db sid (trim glob)) (\<lambda>(_, db). Inr db)))"

definition ui_remove_set_rule :: "db \<Rightarrow> current_user \<Rightarrow> string \<Rightarrow> uuid option \<Rightarrow> uuid option \<Rightarrow> (status, db) result" where
  "ui_remove_set_rule db user org set_id rule = set_handler db user org set_id
     (\<lambda>g sid. and_then (ok_or BadRequest rule) (\<lambda>rid. Inr (remove_set_rule db rid)))"

definition ui_add_autogrant :: "uuid \<Rightarrow> db \<Rightarrow> current_user \<Rightarrow> string \<Rightarrow> string \<Rightarrow> uuid option \<Rightarrow> (status, db) result" where
  "ui_add_autogrant newid db user org repo set_id =
     and_then (lookup_admin db user org repo) (\<lambda>s. and_then (ok_or BadRequest set_id) (\<lambda>sid.
       case select_one (\<lambda>x. ps_id x = sid) (sets db) of
         Some x \<Rightarrow> if ps_org x = rs_org_id s
           then (case add_grant_rule newid db (rs_id s) sid of
               Inr db \<Rightarrow> Inr db
             | Inl (Denied _) \<Rightarrow> Inl Forbidden | Inl (SkuCapReached _) \<Rightarrow> Inl Forbidden | Inl (EntSqlx _) \<Rightarrow> Inl ServerError)
           else Inl BadRequest
       | None \<Rightarrow> Inl BadRequest))"

section \<open>The composition of repositories\<close>

definition same_org :: "db \<Rightarrow> uuid \<Rightarrow> uuid \<Rightarrow> bool" where
  "same_org db a b \<longleftrightarrow> (\<exists>r\<in>set (repos db). \<exists>q\<in>set (repos db). r_id r = a \<and> r_id q = b \<and> r_org r = r_org q)"

definition member_ok :: "db \<Rightarrow> member_row \<Rightarrow> bool" where
  "member_ok db m \<longleftrightarrow> m_repo m \<noteq> m_member m \<and> same_org db (m_repo m) (m_member m)
     \<and> (\<forall>m'\<in>set (members db). m_repo m' \<noteq> m_member m) \<and> (\<forall>p\<in>set (packages db). p_repo p \<noteq> m_repo m)"

definition members_ok :: "db \<Rightarrow> bool" where
  "members_ok db \<longleftrightarrow> (\<forall>m\<in>set (members db). member_ok db m)"

inductive composition_step :: "db \<Rightarrow> db \<Rightarrow> bool" where
  step_members: "set_repo_members db repo ms = Inr db' \<Longrightarrow> composition_step db db'"
| step_upsert: "upsert_package i db repo name kind source vis = Inr (j, db') \<Longrightarrow> composition_step db db'"
| step_visibility: "set_package_visibility now db repo name vis = Inr (b, db') \<Longrightarrow> composition_step db db'"
| step_settings: "composition_step db (set_repo_settings db repo s)"
| step_create: "cli_repo_create i db org repo = Inr db' \<Longrightarrow> composition_step db db'"
| step_rename: "rename_repo db i slug = Inr db' \<Longrightarrow> composition_step db db'"
| step_delete: "delete_repo db i = Inr (b, db') \<Longrightarrow> composition_step db db'"

inductive_cases composition_stepE: "composition_step db db'"

lemma insert_members_Inr:
  assumes "insert_members repo n ms db = Inr db'"
  shows "\<exists>rows. db' = db\<lparr>members := members db @ rows\<rparr> \<and> map m_member rows = ms
    \<and> (\<forall>r\<in>set rows. m_repo r = repo \<and> repo_named db repo \<noteq> None \<and> repo_named db (m_member r) \<noteq> None)"
  using assms
proof (induction ms arbitrary: n db)
  case (Cons m ms)
  let ?row = "\<lparr>m_repo = repo, m_member = m, m_position = clamp_i32 (int n)\<rparr>"
  have n: "repo_named db repo \<noteq> None" "repo_named db m \<noteq> None"
    and i: "insert_members repo (Suc n) ms (db\<lparr>members := members db @ [?row]\<rparr>) = Inr db'"
    using Cons.prems by (auto split: if_splits)
  obtain rows where "db' = db\<lparr>members := members db @ [?row] @ rows\<rparr>" "map m_member rows = ms"
      "\<forall>r\<in>set rows. m_repo r = repo \<and> repo_named db repo \<noteq> None \<and> repo_named db (m_member r) \<noteq> None"
    using Cons.IH[OF i] by (auto simp: repo_named_def)
  then show ?case using n by (intro exI[of _ "?row # rows"]) simp
qed (auto intro: exI[of _ "[]"])

lemma check_listed_Inr: "check_listed repo seen ms = Inr x \<Longrightarrow> repo \<notin> set ms \<and> distinct ms \<and> set ms \<inter> seen = {}"
  by (induction repo seen ms rule: check_listed.induct) (auto split: if_splits)

lemma set_repo_membersE:
  assumes "set_repo_members db repo ms = Inr db'"
  obtains rows where "db' = db\<lparr>members := del_where (\<lambda>m. m_repo m = repo) (members db) @ rows\<rparr>"
    "map m_member rows = ms" "\<And>r. r \<in> set rows \<Longrightarrow> m_repo r = repo \<and> m_member r \<in> set ms"
    "ms \<noteq> [] \<Longrightarrow> repo_named db repo \<noteq> None \<and> repo \<notin> set ms \<and> distinct ms \<and> \<not> other_org db repo ms
       \<and> (\<forall>m\<in>set (members db). m_repo m \<notin> set ms \<and> m_member m \<noteq> repo) \<and> (\<forall>p\<in>set (packages db). p_repo p \<noteq> repo)"
    "\<And>m. m \<in> set ms \<Longrightarrow> repo_named db m \<noteq> None"
proof -
  have i: "insert_members repo 0 ms (db\<lparr>members := del_where (\<lambda>m. m_repo m = repo) (members db)\<rparr>) = Inr db'"
    and c: "ms \<noteq> [] \<Longrightarrow> check_listed repo {} ms = Inr () \<and> \<not> other_org db repo ms
      \<and> (\<forall>m\<in>set (members db). m_repo m \<notin> set ms \<and> m_member m \<noteq> repo) \<and> (\<forall>p\<in>set (packages db). p_repo p \<noteq> repo)"
    using assms by (auto simp: set_repo_members_def and_then_Inr_iff split: if_splits)
  obtain rows where r: "db' = db\<lparr>members := del_where (\<lambda>m. m_repo m = repo) (members db) @ rows\<rparr>"
      "map m_member rows = ms"
      "\<forall>r\<in>set rows. m_repo r = repo \<and> repo_named db repo \<noteq> None \<and> repo_named db (m_member r) \<noteq> None"
    using insert_members_Inr[OF i] by (auto simp: repo_named_def)
  have named: "m \<in> set ms \<Longrightarrow> repo_named db repo \<noteq> None \<and> repo_named db m \<noteq> None" for m
    using r(2,3) by (metis (no_types, lifting) imageE list.set_map)
  show ?thesis
  proof (rule that[OF r(1,2)])
    show "m_repo x = repo \<and> m_member x \<in> set ms" if "x \<in> set rows" for x using r(2,3) that by auto
    show "repo_named db repo \<noteq> None \<and> repo \<notin> set ms \<and> distinct ms \<and> \<not> other_org db repo ms
       \<and> (\<forall>m\<in>set (members db). m_repo m \<notin> set ms \<and> m_member m \<noteq> repo) \<and> (\<forall>p\<in>set (packages db). p_repo p \<noteq> repo)"
      if "ms \<noteq> []"
      using c[OF that] check_listed_Inr[of repo "{}" ms] named[of "hd ms"] that by auto
    show "repo_named db m \<noteq> None" if "m \<in> set ms" for m using named[OF that] by simp
  qed
qed

lemma members_ok_set_members:
  assumes ok: "members_ok db" and c: "set_repo_members db repo ms = Inr db'"
  shows "members_ok db'"
  using c
proof (cases rule: set_repo_membersE)
  case (1 rows)
  have mem: "set (members db') = {m \<in> set (members db). m_repo m \<noteq> repo} \<union> set rows" by (auto simp: 1(1))
  have "member_ok db' m" if m: "m \<in> set (members db')" for m
  proof (cases "m \<in> set rows")
    case True
    then have r: "m_repo m = repo" "m_member m \<in> set ms" "ms \<noteq> []" using 1(3) by auto
    note g = 1(4)[OF r(3)]
    obtain a b where ab: "repo_named db repo = Some a" "repo_named db (m_member m) = Some b"
      using g 1(5)[OF r(2)] by auto
    have "a \<in> set (repos db)" "r_id a = repo" "b \<in> set (repos db)" "r_id b = m_member m"
      using repo_namedD[OF ab(1)] repo_namedD[OF ab(2)] by auto
    moreover from this have "r_org a = r_org b"
      using g r(2) unfolding other_org_def exists_where_iff by metis
    ultimately have "same_org db repo (m_member m)" unfolding same_org_def by metis
    then have "same_org db' (m_repo m) (m_member m)" by (simp add: same_org_def 1(1) r(1))
    moreover have "m_repo m \<noteq> m_member m" using g r by auto
    moreover have "m_repo m' \<noteq> m_member m" if "m' \<in> set (members db')" for m'
      using that mem g r 1(3) by auto
    moreover have "p_repo p \<noteq> m_repo m" if "p \<in> set (packages db')" for p using that g r by (simp add: 1(1))
    ultimately show ?thesis by (simp add: member_ok_def)
  next
    case False
    then have old: "m \<in> set (members db)" "m_repo m \<noteq> repo" using m mem by auto
    have "m_repo m' \<noteq> m_member m" if "m' \<in> set (members db')" for m'
    proof (cases "m' \<in> set rows")
      case True
      then have "m_repo m' = repo" "ms \<noteq> []" using 1(3)[of m'] by auto
      then show ?thesis using 1(4) old by auto
    qed (use that mem old ok in \<open>auto simp: members_ok_def member_ok_def\<close>)
    then show ?thesis using ok old by (simp add: members_ok_def member_ok_def same_org_def 1(1))
  qed
  then show ?thesis by (simp add: members_ok_def)
qed

text \<open>A step that keeps the member rows, keeps every repository's id and organization and adds no package
  to a repository with members keeps the invariant.\<close>

lemma members_ok_frame:
  assumes "members_ok db" "set (members db') \<subseteq> set (members db)"
    and "\<And>r m. r \<in> set (repos db) \<Longrightarrow> m \<in> set (members db') \<Longrightarrow> r_id r \<in> {m_repo m, m_member m}
       \<Longrightarrow> \<exists>r'\<in>set (repos db'). r_id r' = r_id r \<and> r_org r' = r_org r"
    and "\<And>p. p \<in> set (packages db') \<Longrightarrow> (\<exists>q\<in>set (packages db). p_repo q = p_repo p) \<or> \<not> has_members db (p_repo p)"
  shows "members_ok db'"
proof -
  have "member_ok db' m" if m: "m \<in> set (members db')" for m
  proof -
    have mo: "member_ok db m" using assms(1,2) m by (auto simp: members_ok_def)
    then obtain r q where rq: "r \<in> set (repos db)" "q \<in> set (repos db)" "r_id r = m_repo m" "r_id q = m_member m" "r_org r = r_org q"
      by (auto simp: member_ok_def same_org_def)
    obtain r' where r': "r' \<in> set (repos db')" "r_id r' = r_id r" "r_org r' = r_org r"
      using assms(3)[OF rq(1) m] rq(3) by auto
    obtain q' where q': "q' \<in> set (repos db')" "r_id q' = r_id q" "r_org q' = r_org q"
      using assms(3)[OF rq(2) m] rq(4) by auto
    have "same_org db' (m_repo m) (m_member m)" unfolding same_org_def using rq r' q' by metis
    moreover have "p_repo p \<noteq> m_repo m" if "p \<in> set (packages db')" for p
    proof
      assume "p_repo p = m_repo m"
      moreover have "has_members db (m_repo m)" using m assms(2) by (auto simp: has_members_def)
      ultimately show False using assms(4)[OF that] mo by (auto simp: member_ok_def)
    qed
    moreover have "m_repo m' \<noteq> m_member m" if "m' \<in> set (members db')" for m'
      using mo assms(2) that by (auto simp: member_ok_def)
    ultimately show ?thesis using mo by (simp add: member_ok_def)
  qed
  then show ?thesis by (simp add: members_ok_def)
qed

lemma upsert_packageE:
  assumes "upsert_package i db repo name kind source vis = Inr (j, db')"
  obtains ps where "db' = db\<lparr>packages := ps\<rparr>" "\<not> has_members db repo"
    "\<And>p. p \<in> set ps \<Longrightarrow> p \<in> set (packages db) \<or> p_repo p = repo \<and> p_name p = name"
proof -
  have "\<not> has_members db repo"
    using assms by (auto simp: upsert_package_def Let_def and_then_Inr_iff split: if_splits)
  moreover have "db' = db\<lparr>packages := packages db'\<rparr>"
    using assms by (auto simp: upsert_package_def Let_def and_then_Inr_iff split: if_splits option.splits)
  moreover have "p \<in> set (packages db) \<or> p_repo p = repo \<and> p_name p = name" if "p \<in> set (packages db')" for p
    using assms that by (auto simp: upsert_package_def Let_def and_then_Inr_iff new_package_def
        split: if_splits option.splits elim!: in_upd_whereE)
  ultimately show ?thesis using that by blast
qed

lemma packages_delete_repo_row:
  "p \<in> set (packages (delete_repo_row i db)) \<Longrightarrow> \<exists>q\<in>set (packages db). p_repo q = p_repo p"
  by (auto simp: delete_repo_row_def Let_def del_packages_def del_licenses_def del_upstreams_def
      del_editions_def del_uploads_def del_snapshots_def del_versions_def elim!: in_upd_whereE)

lemma composition_step_ok:
  assumes "composition_step db db'" "members_ok db"
  shows "members_ok db'"
  using assms
proof (induction rule: composition_step.induct)
  case (step_members db repo ms db')
  then show ?case using members_ok_set_members by blast
next
  case (step_upsert i db repo name kind source vis j db')
  obtain ps where u: "db' = db\<lparr>packages := ps\<rparr>" "\<not> has_members db repo"
    "\<And>p. p \<in> set ps \<Longrightarrow> p \<in> set (packages db) \<or> p_repo p = repo \<and> p_name p = name"
    using upsert_packageE[OF step_upsert(1)] by metis
  show ?case by (rule members_ok_frame[OF step_upsert(2)]) (use u in \<open>auto simp: u(1)\<close>)
next
  case (step_visibility now db repo name vis b db')
  then have "db' = db\<lparr>packages := upd_where (\<lambda>p. p_repo p = repo \<and> p_name p = name)
      (\<lambda>p. p\<lparr>p_visibility := vis, p_declared := Some now\<rparr>) (packages db)\<rparr>"
    by (auto simp: set_package_visibility_def and_then_Inr_iff upd_package_def split: if_splits)
  then show ?case by (intro members_ok_frame[OF step_visibility(2)]) (auto elim!: in_upd_whereE)
next
  case (step_settings db repo s)
  show ?case
    by (rule members_ok_frame[OF step_settings]) (auto simp: set_repo_settings_def bex_upd_where)
next
  case (step_create i db org repo db')
  have f: "members db' = members db" "packages db' = packages db" "set (repos db) \<subseteq> set (repos db')"
    using step_create(1) by (auto simp: cli_repo_create_def create_repo_def split: option.splits if_splits)
  show ?case by (rule members_ok_frame[OF step_create(2)]) (use f in auto)
next
  case (step_rename db i slug db')
  from step_rename(1) show ?case
  proof (cases rule: rename_repoE)
    case (2 r db1)
    obtain h where "db1 = db\<lparr>slugs := slugs db @ [h]\<rparr>" using retire_slugE[OF 2(3)] by metis
    then show ?thesis using 2(4)
      by (intro members_ok_frame[OF step_rename(2)]) (auto simp: bex_upd_where)
  qed (use step_rename(2) in simp)
next
  case (step_delete db i b db')
  show ?case
  proof (cases "repo_named db i")
    case None
    then show ?thesis using step_delete by (simp add: delete_repo_def)
  next
    case (Some r)
    then obtain db1 where d: "retire_slug RepoSlug (r_slug r) (Some (r_org r)) i db = Inr db1" "db' = delete_repo_row i db1"
      using step_delete(1) by (auto simp: delete_repo_def and_then_Inr_iff)
    obtain h where h: "db1 = db\<lparr>slugs := slugs db @ [h]\<rparr>" using retire_slugE[OF d(1)] by metis
    show ?thesis
    proof (rule members_ok_frame[OF step_delete(2)])
      show "(\<exists>q\<in>set (packages db). p_repo q = p_repo p) \<or> \<not> has_members db (p_repo p)"
        if "p \<in> set (packages db')" for p
        using packages_delete_repo_row[of p i db1] that by (auto simp: d(2) h)
    qed (auto simp: d(2) h)
  qed
qed

text \<open>C7: repositories made of members stay one level deep: whatever sequence of member lists, package
  uploads and syncs, visibility changes, creations, renames and deletions is applied, a member is
  another repository of the same organization, has no members itself, and a repository with members
  owns no package.\<close>

theorem composition_invariant:
  assumes "members_ok db" "composition_step\<^sup>*\<^sup>* db db'"
  shows "members_ok db'"
  using assms(2,1) by (induction rule: rtranclp_induct) (auto intro: composition_step_ok)

lemma composition_invariant_witness:
  "\<exists>db'. composition_step\<^sup>*\<^sup>* (demo_names\<lparr>repos := [new_repo 10 1 ''all'', new_repo 11 1 ''a'']\<rparr>) db'
     \<and> members db' \<noteq> [] \<and> members_ok db'"
proof -
  let ?db = "demo_names\<lparr>repos := [new_repo 10 1 ''all'', new_repo 11 1 ''a'']\<rparr>"
  have "\<not> isl (set_repo_members ?db 10 [11])" by code_simp
  then obtain db' where s: "set_repo_members ?db 10 [11] = Inr db'" by (metis isl_def sum.exhaust)
  then have st: "composition_step\<^sup>*\<^sup>* ?db db'" by (blast intro: step_members)
  moreover have "members db' \<noteq> []" using set_repo_membersE[OF s] by fastforce
  moreover have "members_ok db'"
    by (rule composition_invariant[OF _ st]) (simp add: members_ok_def demo_names_def empty_db_def)
  ultimately show ?thesis by blast
qed

section \<open>Visibility\<close>

definition private_ok :: "db \<Rightarrow> bool" where
  "private_ok db \<longleftrightarrow> (\<forall>p\<in>set (packages db). \<forall>r\<in>set (repos db).
     p_repo p = r_id r \<longrightarrow> p_visibility p = Private \<longrightarrow> r_allow_private r)"

lemma ensure_private_allowed_Inr:
  "ensure_private_allowed db repo = Inr u \<longleftrightarrow> (\<exists>r. repo_named db repo = Some r \<and> r_allow_private r)"
  by (auto simp: ensure_private_allowed_def split: option.splits if_splits)

lemma allowed_unique:
  "distinct (map r_id (repos db)) \<Longrightarrow> ensure_private_allowed db repo = Inr u \<Longrightarrow> r \<in> set (repos db) \<Longrightarrow> r_id r = repo
    \<Longrightarrow> r_allow_private r"
  unfolding ensure_private_allowed_Inr using repo_namedD distinct_map_eqD[of r_id "repos db"] by metis

definition sync_row :: "string \<Rightarrow> json option \<Rightarrow> visibility \<Rightarrow> package_row \<Rightarrow> package_row" where
  "sync_row kind source vis p = p\<lparr>p_kind := kind, p_source := source,
     p_visibility := (if p_declared p = None then vis else p_visibility p)\<rparr>"

lemma sync_row_simps [simp]:
  "p_repo (sync_row k s v p) = p_repo p" "p_name (sync_row k s v p) = p_name p"
  "p_declared (sync_row k s v p) = p_declared p"
  "p_visibility (sync_row k s v p) = (if p_declared p = None then v else p_visibility p)"
  by (simp_all add: sync_row_def)

lemma upsert_package_Inr:
  assumes "upsert_package i db repo name kind source vis = Inr (j, db')"
  shows "case package_at db repo name of
      Some p \<Rightarrow> db' = db\<lparr>packages := upd_where (\<lambda>p. p_repo p = repo \<and> p_name p = name) (sync_row kind source vis) (packages db)\<rparr>
        \<and> (p_visibility (sync_row kind source vis p) = Private \<longrightarrow> ensure_private_allowed db repo = Inr ())
    | None \<Rightarrow> db' = db\<lparr>packages := packages db @ [new_package i repo name kind source vis]\<rparr>
        \<and> (vis = Private \<longrightarrow> ensure_private_allowed db repo = Inr ())"
proof (cases "package_at db repo name")
  case None
  then show ?thesis using assms
    by (auto simp: upsert_package_def Let_def and_then_Inr_iff package_visibility_of_def split: if_splits)
next
  case (Some p)
  then show ?thesis using assms
    by (auto simp: upsert_package_def Let_def and_then_Inr_iff package_visibility_of_def sync_row_def[abs_def]
        split: if_splits)
qed

lemma upsert_declared:
  assumes "upsert_package i db repo name kind source vis = Inr (j, db')"
    and "package_visibility_of db repo' name' = Some pv" "pv_declared pv"
  shows "package_visibility_of db' repo' name' = Some pv"
proof -
  obtain p where p: "package_at db repo' name' = Some p" "p_declared p \<noteq> None"
      "pv = \<lparr>pv_visibility = p_visibility p, pv_declared = True\<rparr>"
    using assms(2,3) by (auto simp: package_visibility_of_def)
  show ?thesis
  proof (cases "package_at db repo name")
    case None
    then have "package_at db' repo' name' = Some p"
      using upsert_package_Inr[OF assms(1)] p(1) by (simp add: package_at_def select_one_append)
    then show ?thesis using p by (simp add: package_visibility_of_def)
  next
    case (Some q)
    then have "package_at db' repo' name' = Some (if p_repo p = repo \<and> p_name p = name then sync_row kind source vis p else p)"
      using upsert_package_Inr[OF assms(1)] p(1) by (simp add: package_at_def select_one_upd_where)
    then show ?thesis using p by (auto simp: package_visibility_of_def)
  qed
qed

lemma private_ok_upsert:
  assumes ok: "private_ok db" and d: "distinct (map r_id (repos db))" "distinct (map (\<lambda>p. (p_repo p, p_name p)) (packages db))"
    and c: "upsert_package i db repo name kind source vis = Inr (j, db')"
  shows "private_ok db'"
proof (cases "package_at db repo name")
  case None
  then have n: "db' = db\<lparr>packages := packages db @ [new_package i repo name kind source vis]\<rparr>"
      "vis = Private \<Longrightarrow> ensure_private_allowed db repo = Inr ()"
    using upsert_package_Inr[OF c] by auto
  have "r_allow_private r" if "vis = Private" "r \<in> set (repos db)" "r_id r = repo" for r
    using allowed_unique[OF d(1) n(2)[OF that(1)]] that by blast
  then show ?thesis using ok by (auto simp: private_ok_def n(1) new_package_def)
next
  case (Some p)
  then have u: "db' = db\<lparr>packages := upd_where (\<lambda>p. p_repo p = repo \<and> p_name p = name) (sync_row kind source vis) (packages db)\<rparr>"
      "p_visibility (sync_row kind source vis p) = Private \<Longrightarrow> ensure_private_allowed db repo = Inr ()"
    using upsert_package_Inr[OF c] by auto
  have p: "p \<in> set (packages db)" "p_repo p = repo" "p_name p = name"
    using Some by (auto simp: package_at_def dest: select_one_Some)
  have "r_allow_private r" if q: "q \<in> set (packages db')" and "r \<in> set (repos db)" "p_repo q = r_id r" "p_visibility q = Private" for q r
  proof (cases "q \<in> set (packages db)")
    case True
    then show ?thesis using ok that by (auto simp: private_ok_def)
  next
    case False
    then obtain q0 where q0: "q0 \<in> set (packages db)" "p_repo q0 = repo" "p_name q0 = name" "q = sync_row kind source vis q0"
      using q by (auto simp: u(1) elim!: in_upd_whereE)
    then have "q0 = p" using distinct_map_eqD[OF d(2) q0(1) p(1)] p by simp
    then show ?thesis using allowed_unique[OF d(1) u(2)] q0 that by simp
  qed
  then show ?thesis by (simp add: private_ok_def u(1))
qed

lemma private_ok_declare:
  assumes "private_ok db" "distinct (map r_id (repos db))" "set_package_visibility now db repo name vis = Inr (b, db')"
  shows "private_ok db'"
proof -
  have c: "db' = db\<lparr>packages := upd_where (\<lambda>p. p_repo p = repo \<and> p_name p = name)
      (\<lambda>p. p\<lparr>p_visibility := vis, p_declared := Some now\<rparr>) (packages db)\<rparr>"
      "vis = Private \<Longrightarrow> ensure_private_allowed db repo = Inr ()"
    using assms(3) by (auto simp: set_package_visibility_def and_then_Inr_iff upd_package_def split: if_splits)
  have "r_allow_private r" if q: "q \<in> set (packages db')" and "r \<in> set (repos db)" "p_repo q = r_id r" "p_visibility q = Private" for q r
  proof (cases "q \<in> set (packages db)")
    case True
    then show ?thesis using assms(1) that by (auto simp: private_ok_def)
  next
    case False
    then have "p_repo q = repo" "p_visibility q = vis" using that(1) by (auto simp: c(1) elim!: in_upd_whereE)
    then show ?thesis using allowed_unique[OF assms(2) c(2)] that by simp
  qed
  then show ?thesis by (simp add: private_ok_def c(1))
qed

section \<open>Properties of packages and sets\<close>

text \<open>Visibility: a sync never changes a visibility the owner declared, and neither a sync nor a
  declaration puts a private package into a public-only repository.\<close>

theorem visibility_respected:
  assumes "private_ok db" "distinct (map r_id (repos db))" "distinct (map (\<lambda>p. (p_repo p, p_name p)) (packages db))"
    and "upsert_package i db repo name kind source vis = Inr (j, db')"
    and "package_visibility_of db repo' name' = Some pv" "pv_declared pv"
    and "set_package_visibility now db r n v = Inr (b, db'')"
  shows "package_visibility_of db' repo' name' = Some pv \<and> private_ok db' \<and> private_ok db''"
  using upsert_declared[OF assms(4-6)] private_ok_upsert[OF assms(1-4)] private_ok_declare[OF assms(1,2,7)] by blast

definition demo_public :: db where
  "demo_public = demo_names\<lparr>repos := [(new_repo 10 1 ''main'')\<lparr>r_allow_private := False\<rparr>],
     packages := [(new_package 100 10 ''a/b'' ''library'' None Public)\<lparr>p_declared := Some 1\<rparr>]\<rparr>"

lemma visibility_respected_witness:
  "(case upsert_package 101 demo_public 10 ''a/b'' ''library'' None Private of
      Inr (j, db') \<Rightarrow> j = 100 \<and> private_ok db' \<and> map_option pv_visibility (package_visibility_of db' 10 ''a/b'') = Some Public
    | Inl _ \<Rightarrow> False)"
proof -
  let ?pv = "\<lparr>pv_visibility = Public, pv_declared = True\<rparr>"
  let ?u = "upsert_package 101 demo_public 10 ''a/b'' ''library'' None Private"
  have "\<not> isl ?u" "fst (projr ?u) = 100" by code_simp+
  then obtain db' where u: "?u = Inr (100, db')" by (metis prod.collapse sum.collapse(2))
  have "\<not> isl (set_package_visibility 5 demo_public 10 ''a/b'' Public)" by code_simp
  then obtain b db'' where v: "set_package_visibility 5 demo_public 10 ''a/b'' Public = Inr (b, db'')"
    by (metis isl_def sum.exhaust surj_pair)
  have "package_visibility_of db' 10 ''a/b'' = Some ?pv \<and> private_ok db' \<and> private_ok db''"
    by (rule visibility_respected[OF _ _ _ u _ _ v]) code_simp+
  then show ?thesis by (simp add: u)
qed

text \<open>A set rule reaches further than its glob says: in \<open>LIKE\<close> an underscore matches any character, so
  the rule \<open>my_shop/*\<close> also takes \<open>my-shop/x\<close>, which the glob does not match.\<close>

theorem set_rule_underscore:
  "\<exists>db. resolve_set db 7 = [''my-shop/x''] \<and> map sr_glob (set_rules db) = [''my_shop/*'']
     \<and> \<not> glob_match ''my_shop/*'' ''my-shop/x''"
proof (intro exI conjI)
  let ?db = "demo_names\<lparr>packages := [new_package 100 10 ''my-shop/x'' ''library'' None Private],
     sets := [\<lparr>ps_id = 7, ps_org = 1, ps_name = ''s''\<rparr>], set_rules := [\<lparr>sr_id = 8, sr_set = 7, sr_glob = ''my_shop/*''\<rparr>]\<rparr>"
  show "resolve_set ?db 7 = [''my-shop/x'']" by code_simp
  show "map sr_glob (set_rules ?db) = [''my_shop/*'']" by code_simp
  show "\<not> glob_match ''my_shop/*'' ''my-shop/x''" by code_simp
qed

text \<open>The handler that removes a set rule checks the set in the URL, not the rule: an administrator of one
  organization alone can delete a rule of another organization's set, which then loses its packages.\<close>

theorem set_rule_cross_tenant:
  "\<exists>db user db'. cu_superadmin user = False \<and> cu_admin user = {1} \<and> cu_tenants user = {1}
     \<and> map ps_org (filter (\<lambda>s. ps_id s = 9) (sets db)) = [2] \<and> resolve_set db 9 = [''b/x'']
     \<and> ui_remove_set_rule db user ''acme'' (Some 7) (Some 8) = Inr db' \<and> resolve_set db' 9 = []"
proof (intro exI conjI)
  let ?db = "demo_names\<lparr>orgs := [\<lparr>o_id = 1, o_slug = ''acme'', o_name = None\<rparr>, \<lparr>o_id = 2, o_slug = ''other'', o_name = None\<rparr>],
     repos := [new_repo 20 2 ''shop''], packages := [new_package 100 20 ''b/x'' ''library'' None Private],
     sets := [\<lparr>ps_id = 7, ps_org = 1, ps_name = ''mine''\<rparr>, \<lparr>ps_id = 9, ps_org = 2, ps_name = ''theirs''\<rparr>],
     set_rules := [\<lparr>sr_id = 8, sr_set = 9, sr_glob = ''b/*''\<rparr>]\<rparr>"
  let ?user = "\<lparr>cu_id = Some 5, cu_superadmin = False, cu_tenants = {1}, cu_admin = {1}\<rparr>"
  show "cu_superadmin ?user = False" "cu_admin ?user = {1}" "cu_tenants ?user = {1}" by simp_all
  show "map ps_org (filter (\<lambda>s. ps_id s = 9) (sets ?db)) = [2]" by simp
  show "resolve_set ?db 9 = [''b/x'']" by code_simp
  show "ui_remove_set_rule ?db ?user ''acme'' (Some 7) (Some 8) = Inr (?db\<lparr>set_rules := []\<rparr>)" by code_simp
  show "resolve_set (?db\<lparr>set_rules := []\<rparr>) 9 = []" by code_simp
qed

end
