(* ===== verification/Licenses.thy ===== *)
theory Licenses
  imports Packages
begin

text \<open>
  License keys and editions (\<open>crates/sconce-catalog/src/lib.rs\<close>): issuing keys ad hoc and against an
  edition, resolving a key, the update bound each entitled package is served under, attaching,
  detaching, merging, renewing and revoking, editions and their plan limit, and the handler of
  \<open>ui.rs\<close> that removes a set from a license.

  SHA-256 is \<open>sha\<close>, the optional at-rest encryption \<open>enc\<close> and \<open>dec\<close>, calendar arithmetic
  (\<open>timestamptz + make_interval(months => n)\<close>) the function \<open>add_months\<close>; fresh ids and secrets are
  arguments. A bound is its point in time; the display strings of \<open>to_char\<close> are left out.
\<close>

record license_bound =
  lb_until :: "time option"
  lb_major :: "int option"

section \<open>Editions\<close>

datatype edition_bound = Perpetual | TimeBound int | VersionBound int

fun bound_columns :: "edition_bound \<Rightarrow> string \<times> int option \<times> int option" where
  "bound_columns Perpetual = (''perpetual'', None, None)"
| "bound_columns (TimeBound n) = (''time'', Some n, None)"
| "bound_columns (VersionBound m) = (''version'', None, Some m)"

definition bound_from_columns :: "string \<Rightarrow> int option \<Rightarrow> int option \<Rightarrow> edition_bound" where
  "bound_from_columns kind months major =
     (if kind = ''time'' then TimeBound (coalesce months 0)
      else if kind = ''version'' then VersionBound (coalesce major 0) else Perpetual)"

definition parse_months :: "string \<Rightarrow> int option" where
  "parse_months v = (case parse_int 32 (trim (trim_end_char (CHR ''m'') v)) of
     Some n \<Rightarrow> if n > 0 then Some n else None | None \<Rightarrow> None)"

definition parse_major :: "string \<Rightarrow> int option" where
  "parse_major v = (case parse_int 32 (trim v) of Some n \<Rightarrow> if n \<ge> 0 then Some n else None | None \<Rightarrow> None)"

definition or_else :: "'a option \<Rightarrow> 'a option \<Rightarrow> 'a option" where
  "or_else x y = (case x of Some _ \<Rightarrow> x | None \<Rightarrow> y)"

definition bound_parse :: "string \<Rightarrow> (string, edition_bound) result" where
  "bound_parse spec =
     (let s = ascii_lower (trim spec)
      in if s = [] \<or> s = ''perpetual'' then Inr Perpetual
         else case or_else (strip_prefix ''time:'' s)
             (case strip_suffix ''m'' s of Some r \<Rightarrow> if list_all is_digit r then Some s else None | None \<Rightarrow> None) of
           Some v \<Rightarrow> ok_or ''invalid time bound'' (map_option TimeBound (parse_months v))
         | None \<Rightarrow> (case or_else (strip_prefix ''version:'' s) (strip_prefix ''v'' s) of
             Some v \<Rightarrow> ok_or ''invalid version bound'' (map_option VersionBound (parse_major v))
           | None \<Rightarrow> Inl ''unknown bound''))"

definition active_editions :: "db \<Rightarrow> uuid \<Rightarrow> edition_row \<Rightarrow> bool" where
  "active_editions db org e \<longleftrightarrow> ed_active e \<and> exists_where (\<lambda>r. r_id r = ed_repo e \<and> r_org r = org) (repos db)"

definition count_active_editions :: "db \<Rightarrow> uuid \<Rightarrow> nat" where
  "count_active_editions db org = count_where (active_editions db org) (editions db)"

definition require_sku_capacity :: "db \<Rightarrow> uuid \<Rightarrow> uuid option \<Rightarrow> (entitlement_error, unit) result" where
  "require_sku_capacity db org exclude = (case ee_max_skus (org_entitlements db org) of
     None \<Rightarrow> Inr ()
   | Some cap \<Rightarrow> if int (count_where (\<lambda>e. active_editions db org e
          \<and> (case exclude of None \<Rightarrow> True | Some x \<Rightarrow> ed_id e \<noteq> x)) (editions db)) \<ge> cap
        then Inl (SkuCapReached cap) else Inr ())"

datatype singleton_result = SingleSet uuid | UnknownPackage | NameCollision

definition singleton_set :: "uuid \<Rightarrow> db \<Rightarrow> uuid \<Rightarrow> string \<Rightarrow> (sql_error, singleton_result \<times> db) result" where
  "singleton_set newid db org package = (case find_package_in_org db org package of
     None \<Rightarrow> Inr (UnknownPackage, db)
   | Some pid \<Rightarrow> (case select_one (\<lambda>s. ps_org s = org \<and> ps_name s = trim package) (sets db) of
        Some s \<Rightarrow>
          if \<not> exists_where (\<lambda>r. sr_set r = ps_id s) (set_rules db)
             \<and> \<not> exists_where (\<lambda>m. sm_set m = ps_id s \<and> sm_package m \<noteq> pid) (set_members db)
          then and_then (add_set_member db (ps_id s) pid) (\<lambda>db. Inr (SingleSet (ps_id s), db))
          else Inr (NameCollision, db)
      | None \<Rightarrow> and_then (create_package_set newid db org (trim package)) (\<lambda>(sid, db).
          and_then (add_set_member db sid pid) (\<lambda>db. Inr (SingleSet sid, db)))))"

definition blank_to_none :: "string option \<Rightarrow> string option" where
  "blank_to_none s = (case map_option trim s of Some [] \<Rightarrow> None | t \<Rightarrow> t)"

definition edition_checks :: "edition_row \<Rightarrow> bool" where
  "edition_checks e \<longleftrightarrow> ed_mode e \<in> {None, Some ''auto'', Some ''manual'', Some ''delayed''}
     \<and> (case ed_cooldown e of None \<Rightarrow> True | Some c \<Rightarrow> 0 \<le> c)"

definition insert_edition :: "edition_row \<Rightarrow> db \<Rightarrow> (sql_error, db) result" where
  "insert_edition e db =
     (if \<not> edition_checks e then Inl (CheckViolation ''editions'')
      else if exists_where (\<lambda>x. ed_repo x = ed_repo e \<and> ed_name x = ed_name e) (editions db)
      then Inl (UniqueViolation ''editions_repo_id_name_key'')
      else if ed_slug e \<noteq> None \<and> exists_where (\<lambda>x. ed_repo x = ed_repo e \<and> ed_slug x = ed_slug e) (editions db)
      then Inl (UniqueViolation ''editions_repo_slug'')
      else Inr (db\<lparr>editions := editions db @ [e]\<rparr>))"

definition new_edition :: "uuid \<Rightarrow> uuid \<Rightarrow> string \<Rightarrow> string option \<Rightarrow> uuid \<Rightarrow> edition_bound \<Rightarrow> bool \<Rightarrow> policy_override \<Rightarrow> edition_row" where
  "new_edition newid repo name slug set_id bound snapshot policy =
     (let (kind, months, major) = bound_columns bound
      in \<lparr>ed_id = newid, ed_repo = repo, ed_name = trim name, ed_slug = blank_to_none slug, ed_set = set_id,
         ed_bound_kind = kind, ed_bound_months = months, ed_bound_major = major, ed_snapshot = snapshot,
         ed_mode = po_mode policy, ed_cooldown = po_cooldown policy, ed_active = True\<rparr>)"

definition create_edition :: "uuid \<Rightarrow> db \<Rightarrow> uuid \<Rightarrow> string \<Rightarrow> string option \<Rightarrow> uuid \<Rightarrow> edition_bound \<Rightarrow> bool
    \<Rightarrow> policy_override \<Rightarrow> (entitlement_error, uuid option \<times> db) result" where
  "create_edition newid db repo name slug set_id bound snapshot policy = (case org_of_repo db repo of
     Inl e \<Rightarrow> Inl (EntSqlx e)
   | Inr org \<Rightarrow> and_then (require_sku_capacity db org None) (\<lambda>_.
       if \<not> exists_where (\<lambda>s. ps_id s = set_id \<and> ps_org s = org) (sets db) then Inr (None, db)
       else case insert_edition (new_edition newid repo name slug set_id bound snapshot policy) db of
          Inl e \<Rightarrow> Inl (EntSqlx e) | Inr db \<Rightarrow> Inr (Some newid, db)))"

definition edition_at :: "db \<Rightarrow> uuid \<Rightarrow> uuid \<Rightarrow> edition_row option" where
  "edition_at db repo ed = select_one (\<lambda>e. ed_id e = ed \<and> ed_repo e = repo) (editions db)"

definition find_edition :: "db \<Rightarrow> uuid \<Rightarrow> string \<Rightarrow> uuid option" where
  "find_edition db repo key =
     (let k = trim key in map_option ed_id (or_else
       (select_one (\<lambda>e. ed_repo e = repo \<and> ed_slug e = Some k) (editions db))
       (select_one (\<lambda>e. ed_repo e = repo \<and> ed_name e = k) (editions db))))"

definition set_edition_flag :: "uuid \<Rightarrow> uuid \<Rightarrow> bool \<Rightarrow> db \<Rightarrow> bool \<times> db" where
  "set_edition_flag repo ed active db =
     (exists_where (\<lambda>e. ed_id e = ed \<and> ed_repo e = repo) (editions db),
      db\<lparr>editions := upd_where (\<lambda>e. ed_id e = ed \<and> ed_repo e = repo) (\<lambda>e. e\<lparr>ed_active := active\<rparr>) (editions db)\<rparr>)"

definition set_edition_active :: "db \<Rightarrow> uuid \<Rightarrow> uuid \<Rightarrow> bool \<Rightarrow> (entitlement_error, bool \<times> db) result" where
  "set_edition_active db repo ed active =
     (if \<not> active then Inr (set_edition_flag repo ed False db)
      else case org_of_repo db repo of
        Inl e \<Rightarrow> Inl (EntSqlx e)
      | Inr org \<Rightarrow> and_then (require_sku_capacity db org (Some ed)) (\<lambda>_. Inr (set_edition_flag repo ed True db)))"

definition delete_edition :: "db \<Rightarrow> uuid \<Rightarrow> uuid \<Rightarrow> bool \<times> db" where
  "delete_edition db repo ed =
     (exists_where (\<lambda>e. ed_id e = ed \<and> ed_repo e = repo) (editions db),
      del_editions (\<lambda>e. ed_id e = ed \<and> ed_repo e = repo) db)"

section \<open>Keys\<close>

definition mint_license_key :: "(bytes \<Rightarrow> bytes) \<Rightarrow> (bytes \<Rightarrow> bytes) option \<Rightarrow> string \<Rightarrow> string \<times> bytes \<times> bytes option" where
  "mint_license_key sha enc secret = (secret, token_hash sha secret, map_option (\<lambda>f. f (str_bytes secret)) enc)"

definition insert_license :: "license_row \<Rightarrow> db \<Rightarrow> (sql_error, db) result" where
  "insert_license l db =
     (if exists_where (\<lambda>x. l_hash x = l_hash l) (licenses db) then Inl (UniqueViolation ''license_keys_key_hash_key'')
      else if l_idem l \<noteq> None \<and> l_edition l \<noteq> None
         \<and> exists_where (\<lambda>x. l_repo x = l_repo l \<and> l_edition x = l_edition l \<and> l_idem x = l_idem l) (licenses db)
      then Inl (UniqueViolation ''license_keys_idem'')
      else Inr (db\<lparr>licenses := licenses db @ [l]\<rparr>))"

definition blank_license :: "uuid \<Rightarrow> uuid \<Rightarrow> bytes \<Rightarrow> string option \<Rightarrow> bytes option \<Rightarrow> license_row" where
  "blank_license newid repo hash buyer cipher = \<lparr>l_id = newid, l_repo = repo, l_hash = hash, l_buyer = buyer,
     l_status = ''active'', l_expires = None, l_mode = None, l_cooldown = None, l_until = None, l_major = None,
     l_edition = None, l_idem = None, l_cipher = cipher\<rparr>"

definition create_license_key :: "uuid \<Rightarrow> (bytes \<Rightarrow> bytes) \<Rightarrow> (bytes \<Rightarrow> bytes) option \<Rightarrow> string \<Rightarrow> db \<Rightarrow> uuid
    \<Rightarrow> string option \<Rightarrow> (sql_error, (string \<times> uuid) \<times> db) result" where
  "create_license_key newid sha enc secret db repo buyer =
     (case mint_license_key sha enc secret of (key, hash, cipher) \<Rightarrow>
        and_then (insert_license (blank_license newid repo hash buyer cipher) db) (\<lambda>db. Inr ((key, newid), db)))"

definition add_ent :: "uuid \<Rightarrow> time option \<Rightarrow> int option \<Rightarrow> uuid \<Rightarrow> db \<Rightarrow> db" where
  "add_ent lic until major package db =
     (if exists_where (\<lambda>e. en_license e = lic \<and> en_package e = package) (ents db) then db
      else db\<lparr>ents := ents db @ [\<lparr>en_license = lic, en_package = package, en_until = until, en_major = major\<rparr>]\<rparr>)"

definition add_set_ent :: "uuid \<Rightarrow> time option \<Rightarrow> int option \<Rightarrow> uuid \<Rightarrow> db \<Rightarrow> db" where
  "add_set_ent lic until major set_id db =
     (if exists_where (\<lambda>e. ls_license e = lic \<and> ls_set e = set_id) (set_ents db) then db
      else db\<lparr>set_ents := set_ents db @ [\<lparr>ls_license = lic, ls_set = set_id, ls_until = until, ls_major = major\<rparr>]\<rparr>)"

fun package_ids :: "db \<Rightarrow> uuid \<Rightarrow> string list \<Rightarrow> uuid list option" where
  "package_ids db repo [] = Some []"
| "package_ids db repo (n # ns) = (case package_at db repo n of
     None \<Rightarrow> None
   | Some p \<Rightarrow> map_option (\<lambda>is. p_id p # is) (package_ids db repo ns))"

definition issue_license :: "uuid \<Rightarrow> (bytes \<Rightarrow> bytes) \<Rightarrow> (bytes \<Rightarrow> bytes) option \<Rightarrow> string \<Rightarrow> db \<Rightarrow> uuid \<Rightarrow> string option
    \<Rightarrow> string list \<Rightarrow> (sql_error, string option \<times> db) result" where
  "issue_license newid sha enc secret db repo buyer names = (case package_ids db repo names of
     None \<Rightarrow> Inr (None, db)
   | Some ids \<Rightarrow> and_then (create_license_key newid sha enc secret db repo buyer)
       (\<lambda>((key, lic), db). Inr (Some key, fold (add_ent lic None None) ids db)))"

definition entitle_package :: "db \<Rightarrow> uuid \<Rightarrow> uuid \<Rightarrow> string \<Rightarrow> bool \<times> db" where
  "entitle_package db lic repo name = (case package_at db repo name of
     None \<Rightarrow> (False, db) | Some p \<Rightarrow> (True, add_ent lic None None (p_id p) db))"

definition resolve_license :: "(bytes \<Rightarrow> bytes) \<Rightarrow> time \<Rightarrow> db \<Rightarrow> uuid \<Rightarrow> string \<Rightarrow> uuid option" where
  "resolve_license sha now db repo key = map_option l_id (select_one (\<lambda>l. l_repo l = repo
     \<and> l_hash l = token_hash sha key \<and> l_status l = ''active''
     \<and> (case l_expires l of None \<Rightarrow> True | Some t \<Rightarrow> t > now)) (licenses db))"

definition license_at :: "db \<Rightarrow> uuid \<Rightarrow> license_row option" where
  "license_at db lic = select_one (\<lambda>l. l_id l = lic) (licenses db)"

definition license_policy :: "db \<Rightarrow> uuid \<Rightarrow> (sql_error, policy_override) result" where
  "license_policy db lic = ok_or RowNotFound
     (map_option (\<lambda>l. \<lparr>po_mode = l_mode l, po_cooldown = l_cooldown l\<rparr>) (license_at db lic))"

definition license_bound_of :: "db \<Rightarrow> uuid \<Rightarrow> (sql_error, license_bound) result" where
  "license_bound_of db lic = ok_or RowNotFound
     (map_option (\<lambda>l. \<lparr>lb_until = l_until l, lb_major = l_major l\<rparr>) (license_at db lic))"

definition upd_license :: "uuid \<Rightarrow> uuid \<Rightarrow> (license_row \<Rightarrow> license_row) \<Rightarrow> db \<Rightarrow> bool \<times> db" where
  "upd_license repo lic f db =
     (exists_where (\<lambda>l. l_id l = lic \<and> l_repo l = repo) (licenses db),
      db\<lparr>licenses := upd_where (\<lambda>l. l_id l = lic \<and> l_repo l = repo) f (licenses db)\<rparr>)"

definition set_license_bound :: "db \<Rightarrow> uuid \<Rightarrow> uuid \<Rightarrow> time option \<Rightarrow> int option \<Rightarrow> bool \<times> db" where
  "set_license_bound db repo lic until major = upd_license repo lic (\<lambda>l. l\<lparr>l_until := until, l_major := major\<rparr>) db"

definition set_license_policy :: "db \<Rightarrow> uuid \<Rightarrow> uuid \<Rightarrow> policy_override \<Rightarrow> bool \<times> db" where
  "set_license_policy db repo lic p = upd_license repo lic (\<lambda>l. l\<lparr>l_mode := po_mode p, l_cooldown := po_cooldown p\<rparr>) db"

definition revoke_license :: "db \<Rightarrow> uuid \<Rightarrow> uuid \<Rightarrow> bool \<times> db" where
  "revoke_license db repo lic = upd_license repo lic (\<lambda>l. l\<lparr>l_status := ''revoked''\<rparr>) db"

section \<open>What a key unlocks, and under which bound\<close>

text \<open>\<open>coalesce(edge, key)\<close>: an edge's own value, or the key's.\<close>

definition set_covers :: "db \<Rightarrow> uuid \<Rightarrow> package_row \<Rightarrow> bool" where
  "set_covers db set_id p \<longleftrightarrow> exists_where (\<lambda>s. ps_id s = set_id \<and> set_has db set_id (ps_org s) p) (sets db)"

definition direct_edges :: "db \<Rightarrow> uuid \<Rightarrow> (string \<times> license_bound) list" where
  "direct_edges db lic = concat (map (\<lambda>e. concat (map (\<lambda>l. map (\<lambda>p. (p_name p,
        \<lparr>lb_until = or_else (en_until e) (l_until l), lb_major = or_else (en_major e) (l_major l)\<rparr>))
        (filter (\<lambda>p. p_id p = en_package e) (packages db)))
      (filter (\<lambda>l. l_id l = lic) (licenses db))))
    (filter (\<lambda>e. en_license e = lic) (ents db)))"

definition set_edges :: "db \<Rightarrow> uuid \<Rightarrow> (string \<times> license_bound) list" where
  "set_edges db lic = concat (map (\<lambda>e. concat (map (\<lambda>l. map (\<lambda>p. (p_name p,
        \<lparr>lb_until = or_else (ls_until e) (l_until l), lb_major = or_else (ls_major e) (l_major l)\<rparr>))
        (filter (set_covers db (ls_set e)) (packages db)))
      (filter (\<lambda>l. l_id l = lic) (licenses db))))
    (filter (\<lambda>e. ls_license e = lic) (set_ents db)))"

text \<open>\<open>case when bool_or(x is null) then null else max(x) end\<close>\<close>

definition widest :: "int option list \<Rightarrow> int option" where
  "widest xs = (if None \<in> set xs then None else Some (Max (set (map the xs))))"

definition entitled_package_bounds :: "db \<Rightarrow> uuid \<Rightarrow> (string \<times> license_bound) list" where
  "entitled_package_bounds db lic =
     (let edges = direct_edges db lic @ set_edges db lic
      in map (\<lambda>n. let bs = map snd (filter (\<lambda>e. fst e = n) edges)
          in (n, \<lparr>lb_until = widest (map lb_until bs), lb_major = widest (map lb_major bs)\<rparr>))
        (sort_by text_cmp (remdups (map fst edges))))"

definition entitled_package_names :: "db \<Rightarrow> uuid \<Rightarrow> string list" where
  "entitled_package_names db lic = sort_by text_cmp (remdups
     (map p_name (filter (\<lambda>p. exists_where (\<lambda>e. en_license e = lic \<and> en_package e = p_id p) (ents db)) (packages db))
      @ map p_name (filter (\<lambda>p. exists_where (\<lambda>e. ls_license e = lic \<and> set_covers db (ls_set e) p) (set_ents db)) (packages db))))"

definition entitle_set :: "db \<Rightarrow> uuid \<Rightarrow> uuid \<Rightarrow> (sql_error, db) result" where
  "entitle_set db lic set_id =
     (if license_at db lic = None \<or> \<not> exists_where (\<lambda>s. ps_id s = set_id) (sets db)
      then Inl (ForeignKeyViolation ''license_set_entitlements'') else Inr (add_set_ent lic None None set_id db))"

definition remove_set_entitlement :: "db \<Rightarrow> uuid \<Rightarrow> uuid \<Rightarrow> db" where
  "remove_set_entitlement db lic set_id =
     db\<lparr>set_ents := del_where (\<lambda>e. ls_license e = lic \<and> ls_set e = set_id) (set_ents db)\<rparr>"

definition entitled_sets :: "db \<Rightarrow> uuid \<Rightarrow> (uuid \<times> string) list" where
  "entitled_sets db lic = map (\<lambda>s. (ps_id s, ps_name s)) (sort_by (\<lambda>a b. text_cmp (ps_name a) (ps_name b))
     (filter (\<lambda>s. exists_where (\<lambda>e. ls_license e = lic \<and> ls_set e = ps_id s) (set_ents db)) (sets db)))"

definition ui_remove_license_set :: "db \<Rightarrow> current_user \<Rightarrow> string \<Rightarrow> string \<Rightarrow> uuid option \<Rightarrow> uuid option \<Rightarrow> (status, db) result" where
  "ui_remove_license_set db user org repo lic set_id =
     and_then (lookup_admin db user org repo) (\<lambda>_. and_then (ok_or BadRequest lic) (\<lambda>l.
       and_then (ok_or BadRequest set_id) (\<lambda>s. Inr (remove_set_entitlement db l s))))"

section \<open>Issuing against an edition\<close>

record issued_license =
  il_id :: uuid
  il_key :: "string option"
  il_created :: bool

definition edition_until :: "(int \<Rightarrow> time \<Rightarrow> time) \<Rightarrow> time \<Rightarrow> edition_row \<Rightarrow> time option" where
  "edition_until add_months now e =
     (if ed_bound_kind e = ''time'' then map_option (\<lambda>n. add_months n now) (ed_bound_months e) else None)"

definition edition_major :: "edition_row \<Rightarrow> int option" where
  "edition_major e = (if ed_bound_kind e = ''version'' then ed_bound_major e else None)"

definition license_id_for_idempotency :: "db \<Rightarrow> uuid \<Rightarrow> uuid \<Rightarrow> string \<Rightarrow> uuid option" where
  "license_id_for_idempotency db repo ed idem = map_option l_id
     (select_one (\<lambda>l. l_repo l = repo \<and> l_edition l = Some ed \<and> l_idem l = Some idem) (licenses db))"

definition license_key_plaintext :: "(bytes \<Rightarrow> string option) option \<Rightarrow> db \<Rightarrow> uuid \<Rightarrow> uuid \<Rightarrow> string option" where
  "license_key_plaintext dec db repo lic = (case dec of None \<Rightarrow> None
     | Some d \<Rightarrow> Option.bind (Option.bind (select_one (\<lambda>l. l_id l = lic \<and> l_repo l = repo) (licenses db)) l_cipher) d)"

definition attach_edition_set :: "(int \<Rightarrow> time \<Rightarrow> time) \<Rightarrow> time \<Rightarrow> uuid \<Rightarrow> uuid \<Rightarrow> bool \<Rightarrow> edition_row option \<Rightarrow> db \<Rightarrow> db" where
  "attach_edition_set add_months now lic set_id snapshot bound_from db =
     (let until = Option.bind bound_from (edition_until add_months now);
          major = Option.bind bound_from edition_major
      in if snapshot then fold (add_ent lic until major) (map p_id (filter (set_covers db set_id) (packages db))) db
         else add_set_ent lic until major set_id db)"

definition edition_license :: "(int \<Rightarrow> time \<Rightarrow> time) \<Rightarrow> time \<Rightarrow> license_row \<Rightarrow> edition_row \<Rightarrow> string option \<Rightarrow> bool \<Rightarrow> license_row" where
  "edition_license add_months now l e idem bound_on_edge = l\<lparr>l_edition := Some (ed_id e), l_idem := idem,
     l_until := (if bound_on_edge then None else edition_until add_months now e),
     l_major := (if bound_on_edge then None else edition_major e),
     l_mode := ed_mode e, l_cooldown := ed_cooldown e\<rparr>"

text \<open>The transaction after the fast path; a lost race on the idempotency index answers with the winner.\<close>

definition issue_insert :: "uuid \<Rightarrow> (bytes \<Rightarrow> bytes) \<Rightarrow> (bytes \<Rightarrow> bytes) option \<Rightarrow> (bytes \<Rightarrow> string option) option
    \<Rightarrow> (int \<Rightarrow> time \<Rightarrow> time) \<Rightarrow> string \<Rightarrow> time \<Rightarrow> db \<Rightarrow> uuid \<Rightarrow> uuid \<Rightarrow> string option \<Rightarrow> string option \<Rightarrow> bool
    \<Rightarrow> (sql_error, issued_license option \<times> db) result" where
  "issue_insert newid sha enc dec add_months secret now db repo ed buyer idem bound_on_edge =
     (case select_one (\<lambda>e. ed_id e = ed \<and> ed_repo e = repo \<and> ed_active e) (editions db) of
        None \<Rightarrow> Inr (None, db)
      | Some e \<Rightarrow> (case mint_license_key sha enc secret of (key, hash, cipher) \<Rightarrow>
          (case insert_license (edition_license add_months now (blank_license newid repo hash buyer cipher) e idem bound_on_edge) db of
               Inr db \<Rightarrow> Inr (Some \<lparr>il_id = newid, il_key = Some key, il_created = True\<rparr>,
                 attach_edition_set add_months now newid (ed_set e) (ed_snapshot e)
                   (if bound_on_edge then Some e else None) db)
             | Inl (UniqueViolation u) \<Rightarrow> (case idem of
                   None \<Rightarrow> Inl (UniqueViolation u)
                 | Some i \<Rightarrow> (case license_id_for_idempotency db repo ed i of
                      None \<Rightarrow> Inr (None, db)
                    | Some lic \<Rightarrow> Inr (Some \<lparr>il_id = lic, il_key = license_key_plaintext dec db repo lic, il_created = False\<rparr>, db)))
             | Inl err \<Rightarrow> Inl err)))"

definition issue_from_edition :: "uuid \<Rightarrow> (bytes \<Rightarrow> bytes) \<Rightarrow> (bytes \<Rightarrow> bytes) option \<Rightarrow> (bytes \<Rightarrow> string option) option
    \<Rightarrow> (int \<Rightarrow> time \<Rightarrow> time) \<Rightarrow> string \<Rightarrow> time \<Rightarrow> db \<Rightarrow> uuid \<Rightarrow> uuid \<Rightarrow> string option \<Rightarrow> string option \<Rightarrow> bool
    \<Rightarrow> (sql_error, issued_license option \<times> db) result" where
  "issue_from_edition newid sha enc dec add_months secret now db repo ed buyer idem bound_on_edge =
     (case Option.bind idem (license_id_for_idempotency db repo ed) of
        Some lic \<Rightarrow> Inr (Some \<lparr>il_id = lic, il_key = license_key_plaintext dec db repo lic, il_created = False\<rparr>, db)
      | None \<Rightarrow> issue_insert newid sha enc dec add_months secret now db repo ed buyer idem bound_on_edge)"

section \<open>Accumulating, merging, detaching\<close>

datatype edition_add = Added | Standalone | NoKey | NoEdition

definition active_key :: "db \<Rightarrow> uuid \<Rightarrow> uuid \<Rightarrow> license_row option" where
  "active_key db repo lic =
     select_one (\<lambda>l. l_id l = lic \<and> l_repo l = repo \<and> l_status l = ''active'') (licenses db)"

definition perpetual_key :: "license_row \<Rightarrow> bool" where
  "perpetual_key l \<longleftrightarrow> l_until l = None \<and> l_major l = None"

definition add_edition_to_license :: "(int \<Rightarrow> time \<Rightarrow> time) \<Rightarrow> time \<Rightarrow> db \<Rightarrow> uuid \<Rightarrow> uuid \<Rightarrow> uuid \<Rightarrow> edition_add \<times> db" where
  "add_edition_to_license add_months now db repo lic ed = (case active_key db repo lic of
     None \<Rightarrow> (NoKey, db)
   | Some l \<Rightarrow> (case select_one (\<lambda>e. ed_id e = ed \<and> ed_repo e = repo \<and> ed_active e) (editions db) of
        None \<Rightarrow> (NoEdition, db)
      | Some e \<Rightarrow> if \<not> perpetual_key l \<or> ed_snapshot e then (Standalone, db)
          else (Added, attach_edition_set add_months now lic (ed_set e) False (Some e) db)))"

definition edition_edge_bound :: "db \<Rightarrow> uuid \<Rightarrow> uuid \<Rightarrow> license_bound" where
  "edition_edge_bound db lic ed = (case select_one (\<lambda>s. ls_license s = lic
       \<and> exists_where (\<lambda>e. ed_id e = ed \<and> ed_set e = ls_set s) (editions db)) (set_ents db) of
     None \<Rightarrow> \<lparr>lb_until = None, lb_major = None\<rparr> | Some s \<Rightarrow> \<lparr>lb_until = ls_until s, lb_major = ls_major s\<rparr>)"

datatype license_merge = Merged | NoSource | NoTarget | TargetBounded | SameKey

text \<open>The axis of a colliding edge: null if either is null, else the greatest.\<close>

fun axis_union :: "int option \<Rightarrow> int option \<Rightarrow> int option" where
  "axis_union (Some a) (Some b) = Some (max a b)"
| "axis_union _ _ = None"

definition put_set_ent :: "uuid \<Rightarrow> uuid \<Rightarrow> time option \<Rightarrow> int option \<Rightarrow> set_ent_row list \<Rightarrow> set_ent_row list" where
  "put_set_ent lic set_id until major t =
     (if exists_where (\<lambda>e. ls_license e = lic \<and> ls_set e = set_id) t
      then upd_where (\<lambda>e. ls_license e = lic \<and> ls_set e = set_id)
        (\<lambda>e. e\<lparr>ls_until := axis_union (ls_until e) until, ls_major := axis_union (ls_major e) major\<rparr>) t
      else t @ [\<lparr>ls_license = lic, ls_set = set_id, ls_until = until, ls_major = major\<rparr>])"

definition put_ent :: "uuid \<Rightarrow> uuid \<Rightarrow> time option \<Rightarrow> int option \<Rightarrow> ent_row list \<Rightarrow> ent_row list" where
  "put_ent lic package until major t =
     (if exists_where (\<lambda>e. en_license e = lic \<and> en_package e = package) t
      then upd_where (\<lambda>e. en_license e = lic \<and> en_package e = package)
        (\<lambda>e. e\<lparr>en_until := axis_union (en_until e) until, en_major := axis_union (en_major e) major\<rparr>) t
      else t @ [\<lparr>en_license = lic, en_package = package, en_until = until, en_major = major\<rparr>])"

definition merge_license_keys :: "db \<Rightarrow> uuid \<Rightarrow> uuid \<Rightarrow> uuid \<Rightarrow> license_merge \<times> db" where
  "merge_license_keys db repo source target =
     (if source = target then (SameKey, db)
      else case active_key db repo source of
        None \<Rightarrow> (NoSource, db)
      | Some l \<Rightarrow> (case active_key db repo target of
           None \<Rightarrow> (NoTarget, db)
         | Some t \<Rightarrow> if \<not> perpetual_key t then (TargetBounded, db)
             else (Merged, db\<lparr>
               set_ents := fold (\<lambda>e. put_set_ent target (ls_set e) (or_else (ls_until e) (l_until l)) (or_else (ls_major e) (l_major l)))
                 (filter (\<lambda>e. ls_license e = source) (set_ents db)) (set_ents db),
               ents := fold (\<lambda>e. put_ent target (en_package e) (or_else (en_until e) (l_until l)) (or_else (en_major e) (l_major l)))
                 (filter (\<lambda>e. en_license e = source) (ents db)) (ents db),
               licenses := upd_where (\<lambda>l. l_id l = source) (\<lambda>l. l\<lparr>l_status := ''revoked''\<rparr>) (licenses db)\<rparr>)))"

definition remove_edition_from_license :: "db \<Rightarrow> uuid \<Rightarrow> uuid \<Rightarrow> uuid \<Rightarrow> bool \<times> db" where
  "remove_edition_from_license db repo lic ed =
     (let found = exists_where (\<lambda>l. l_id l = lic \<and> l_repo l = repo) (licenses db)
      in (found, db\<lparr>set_ents := del_where (\<lambda>s. found \<and> ls_license s = lic
           \<and> map_option ed_set (edition_at db repo ed) = Some (ls_set s)) (set_ents db)\<rparr>))"

section \<open>Renewal\<close>

definition later :: "time option \<Rightarrow> time \<Rightarrow> time" where
  "later t now = (case t of None \<Rightarrow> now | Some u \<Rightarrow> max u now)"

text \<open>\<open>RENEW_SQL\<close>; \<open>greatest\<close> ignores nulls.\<close>

definition renewing_edition :: "db \<Rightarrow> uuid \<Rightarrow> uuid \<Rightarrow> license_row \<Rightarrow> edition_row option" where
  "renewing_edition db repo lic l =
     (if l_id l = lic \<and> l_repo l = repo \<and> l_status l = ''active''
      then select_one (\<lambda>e. l_edition l = Some (ed_id e) \<and> ed_bound_kind e = ''time'') (editions db) else None)"

definition extended :: "(int \<Rightarrow> time \<Rightarrow> time) \<Rightarrow> time \<Rightarrow> edition_row \<Rightarrow> time option \<Rightarrow> time option" where
  "extended add_months now e until = map_option (\<lambda>n. add_months n (later until now)) (ed_bound_months e)"

definition extend_time_bound :: "(int \<Rightarrow> time \<Rightarrow> time) \<Rightarrow> time \<Rightarrow> db \<Rightarrow> uuid \<Rightarrow> uuid \<Rightarrow> time option \<times> db" where
  "extend_time_bound add_months now db repo lic =
     (let db' = db\<lparr>licenses := map (\<lambda>l. case renewing_edition db repo lic l of None \<Rightarrow> l
            | Some e \<Rightarrow> l\<lparr>l_until := extended add_months now e (l_until l)\<rparr>) (licenses db)\<rparr>
      in (Option.bind (select_one (\<lambda>l. renewing_edition db repo lic l \<noteq> None) (licenses db')) l_until, db'))"

definition record_renewal :: "db \<Rightarrow> uuid \<Rightarrow> uuid \<Rightarrow> string \<Rightarrow> bool \<times> db" where
  "record_renewal db repo lic idem =
     (if exists_where (\<lambda>l. l_id l = lic \<and> l_repo l = repo) (licenses db)
        \<and> \<not> exists_where (\<lambda>r. rn_license r = lic \<and> rn_idem r = idem) (renewals db)
      then (True, db\<lparr>renewals := renewals db @ [\<lparr>rn_license = lic, rn_idem = idem\<rparr>]\<rparr>) else (False, db))"

definition renew_license :: "(int \<Rightarrow> time \<Rightarrow> time) \<Rightarrow> time \<Rightarrow> db \<Rightarrow> uuid \<Rightarrow> uuid \<Rightarrow> string option \<Rightarrow> time option \<times> db" where
  "renew_license add_months now db repo lic idem = (case idem of
     None \<Rightarrow> extend_time_bound add_months now db repo lic
   | Some i \<Rightarrow> (case record_renewal db repo lic i of
        (True, db) \<Rightarrow> extend_time_bound add_months now db repo lic
      | (False, db) \<Rightarrow> (Option.bind (select_one (\<lambda>l. renewing_edition db repo lic l \<noteq> None) (licenses db)) l_until, db)))"

definition renewing_edge :: "db \<Rightarrow> uuid \<Rightarrow> uuid \<Rightarrow> uuid \<Rightarrow> set_ent_row \<Rightarrow> edition_row option" where
  "renewing_edge db repo lic ed s =
     (if ls_license s = lic \<and> ls_until s \<noteq> None \<and> active_key db repo lic \<noteq> None
      then select_one (\<lambda>e. ed_id e = ed \<and> ed_repo e = repo \<and> ed_bound_kind e = ''time'' \<and> ed_set e = ls_set s) (editions db)
      else None)"

definition extend_edge :: "(int \<Rightarrow> time \<Rightarrow> time) \<Rightarrow> time \<Rightarrow> db \<Rightarrow> uuid \<Rightarrow> uuid \<Rightarrow> uuid \<Rightarrow> time option \<times> db" where
  "extend_edge add_months now db repo lic ed =
     (let db' = db\<lparr>set_ents := map (\<lambda>s. case renewing_edge db repo lic ed s of None \<Rightarrow> s
            | Some e \<Rightarrow> s\<lparr>ls_until := extended add_months now e (ls_until s)\<rparr>) (set_ents db)\<rparr>
      in (Option.bind (select_one (\<lambda>(s, s'). renewing_edge db repo lic ed s \<noteq> None) (zip (set_ents db) (set_ents db')))
            (\<lambda>(_, s'). ls_until s'), db'))"

definition renew_license_edition :: "(int \<Rightarrow> time \<Rightarrow> time) \<Rightarrow> time \<Rightarrow> db \<Rightarrow> uuid \<Rightarrow> uuid \<Rightarrow> uuid \<Rightarrow> string option \<Rightarrow> time option \<times> db" where
  "renew_license_edition add_months now db repo lic ed idem = (case idem of
     None \<Rightarrow> extend_edge add_months now db repo lic ed
   | Some i \<Rightarrow> (case record_renewal db repo lic i of
        (True, db) \<Rightarrow> extend_edge add_months now db repo lic ed
      | (False, db) \<Rightarrow> (Option.bind (select_one (\<lambda>s. renewing_edge db repo lic ed s \<noteq> None) (set_ents db)) ls_until, db)))"

record license_detail =
  ld_id :: uuid
  ld_buyer :: "string option"
  ld_status :: string
  ld_edition :: "string option"
  ld_packages :: "string list"
  ld_bound :: license_bound
  ld_key :: "string option"

definition license_detail_of :: "(bytes \<Rightarrow> string option) option \<Rightarrow> db \<Rightarrow> uuid \<Rightarrow> uuid \<Rightarrow> license_detail option" where
  "license_detail_of dec db repo lic = map_option (\<lambda>l. \<lparr>ld_id = lic, ld_buyer = l_buyer l, ld_status = l_status l,
       ld_edition = map_option ed_name (select_one (\<lambda>e. l_edition l = Some (ed_id e)) (editions db)),
       ld_packages = entitled_package_names db lic, ld_bound = \<lparr>lb_until = l_until l, lb_major = l_major l\<rparr>,
       ld_key = license_key_plaintext dec db repo lic\<rparr>)
     (select_one (\<lambda>l. l_id l = lic \<and> l_repo l = repo) (licenses db))"

section \<open>Bounds as a join\<close>

text \<open>The bound of a package covered by several edges is a join: \<open>None\<close> is not entitled, and a null axis
  (unbounded) is above every value.\<close>

fun combine :: "license_bound option \<Rightarrow> license_bound option \<Rightarrow> license_bound option" where
  "combine None b = b"
| "combine a None = a"
| "combine (Some a) (Some b) =
     Some \<lparr>lb_until = axis_union (lb_until a) (lb_until b), lb_major = axis_union (lb_major a) (lb_major b)\<rparr>"

definition bound_of :: "db \<Rightarrow> uuid \<Rightarrow> string \<Rightarrow> license_bound option" where
  "bound_of db lic n = map_of (entitled_package_bounds db lic) n"

definition joined :: "license_bound list \<Rightarrow> license_bound option" where
  "joined bs = (if bs = [] then None
     else Some \<lparr>lb_until = widest (map lb_until bs), lb_major = widest (map lb_major bs)\<rparr>)"

lemma axis_union_comm: "axis_union a b = axis_union b a"
  by (cases a; cases b) simp_all

lemma axis_union_assoc: "axis_union (axis_union a b) c = axis_union a (axis_union b c)"
  by (cases a; cases b; cases c) simp_all

lemma axis_union_idem: "axis_union a (axis_union a b) = axis_union a b" "axis_union a a = a"
  by (cases a; cases b; simp)+

lemma combine_None [simp]: "combine a None = a"
  by (cases a) simp_all

lemma combine_comm: "combine a b = combine b a"
  by (cases a; cases b) (simp_all add: axis_union_comm)

lemma combine_assoc: "combine (combine a b) c = combine a (combine b c)"
  by (cases a; cases b; cases c) (simp_all add: axis_union_assoc)

lemma combine_left_comm: "combine a (combine b c) = combine b (combine a c)"
  by (metis combine_assoc combine_comm)

lemma combine_idem [simp]: "combine a (combine a b) = combine a b" "combine a a = a"
  by (cases a; cases b; simp add: axis_union_idem)+

lemma combine_Some:
  "Some \<lparr>lb_until = axis_union a u, lb_major = axis_union b m\<rparr> =
   combine (Some \<lparr>lb_until = a, lb_major = b\<rparr>) (Some \<lparr>lb_until = u, lb_major = m\<rparr>)"
  by simp

lemmas combine_ac = combine_comm combine_assoc combine_left_comm

lemma widest_Cons: "xs \<noteq> [] \<Longrightarrow> widest (x # xs) = axis_union x (widest xs)"
  by (cases x) (auto simp: widest_def)

lemma widest_single: "widest [x] = x"
  by (cases x) (auto simp: widest_def)

lemma joined_Nil [simp]: "joined [] = None"
  by (simp add: joined_def)

lemma joined_Cons [simp]: "joined (b # bs) = combine (Some b) (joined bs)"
  by (cases "bs = []") (simp_all add: joined_def widest_single widest_Cons)

lemma joined_append: "joined (as @ bs) = combine (joined as) (joined bs)"
  by (induction as) (simp_all add: combine_assoc)

lemma joined_cong: "set as = set bs \<Longrightarrow> joined as = joined bs"
  unfolding joined_def widest_def by (metis (no_types, lifting) list.set_map set_empty)

lemma bound_of_joined:
  "bound_of db lic n = joined (map snd (filter (\<lambda>e. fst e = n) (direct_edges db lic @ set_edges db lic)))"
proof -
  let ?es = "direct_edges db lic @ set_edges db lic"
  let ?f = "\<lambda>n. let bs = map snd (filter (\<lambda>e. fst e = n) ?es)
    in \<lparr>lb_until = widest (map lb_until bs), lb_major = widest (map lb_major bs)\<rparr>"
  have "map_of (map (\<lambda>n. (n, f n)) xs) n = (if n \<in> set xs then Some (f n) else None)" for f :: "string \<Rightarrow> license_bound" and xs
    by (induction xs) auto
  then have "bound_of db lic n = (if n \<in> fst ` set ?es then Some (?f n) else None)"
    unfolding bound_of_def entitled_package_bounds_def Let_def by (simp add: image_Un)
  moreover have "filter (\<lambda>e. fst e = n) ?es = [] \<longleftrightarrow> n \<notin> fst ` set ?es" by (auto simp: filter_empty_conv)
  ultimately show ?thesis by (auto simp: joined_def Let_def)
qed

section \<open>Edges of one key\<close>

definition covers_name :: "db \<Rightarrow> string \<Rightarrow> uuid \<Rightarrow> bool" where
  "covers_name db n set_id \<longleftrightarrow> (\<exists>p\<in>set (packages db). set_covers db set_id p \<and> p_name p = n)"

definition is_named :: "db \<Rightarrow> string \<Rightarrow> uuid \<Rightarrow> bool" where
  "is_named db n package \<longleftrightarrow> (\<exists>p\<in>set (packages db). p_id p = package \<and> p_name p = n)"

definition set_bounds :: "license_row \<Rightarrow> uuid \<Rightarrow> (uuid \<Rightarrow> bool) \<Rightarrow> set_ent_row list \<Rightarrow> license_bound list" where
  "set_bounds l lic C t = map (\<lambda>e. \<lparr>lb_until = or_else (ls_until e) (l_until l), lb_major = or_else (ls_major e) (l_major l)\<rparr>)
     (filter (\<lambda>e. ls_license e = lic \<and> C (ls_set e)) t)"

definition direct_bounds :: "license_row \<Rightarrow> uuid \<Rightarrow> (uuid \<Rightarrow> bool) \<Rightarrow> ent_row list \<Rightarrow> license_bound list" where
  "direct_bounds l lic C t = map (\<lambda>e. \<lparr>lb_until = or_else (en_until e) (l_until l), lb_major = or_else (en_major e) (l_major l)\<rparr>)
     (filter (\<lambda>e. en_license e = lic \<and> C (en_package e)) t)"

lemma bound_of_edges:
  assumes "filter (\<lambda>l. l_id l = lic) (licenses db) = [l]"
  shows "bound_of db lic n = combine (joined (direct_bounds l lic (is_named db n) (ents db)))
      (joined (set_bounds l lic (covers_name db n) (set_ents db)))"
proof -
  have "set (map snd (filter (\<lambda>e. fst e = n) (direct_edges db lic))) = set (direct_bounds l lic (is_named db n) (ents db))"
    by (force simp: direct_edges_def direct_bounds_def assms is_named_def image_iff)
  moreover have "set (map snd (filter (\<lambda>e. fst e = n) (set_edges db lic))) = set (set_bounds l lic (covers_name db n) (set_ents db))"
    by (force simp: set_edges_def set_bounds_def assms covers_name_def image_iff)
  ultimately show ?thesis unfolding bound_of_joined filter_append map_append joined_append
    using joined_cong by metis
qed

lemma or_else_None [simp]: "or_else x None = x"
  by (cases x) (simp_all add: or_else_def)

lemma set_bounds_put:
  assumes "perpetual_key k"
  shows "joined (set_bounds k lic C (put_set_ent lic s u m t)) =
    (if C s then combine (joined (set_bounds k lic C t)) (Some \<lparr>lb_until = u, lb_major = m\<rparr>)
     else joined (set_bounds k lic C t))"
proof -
  have k: "l_until k = None" "l_major k = None" using assms by (simp_all add: perpetual_key_def)
  have upd: "joined (set_bounds k lic C (upd_where (\<lambda>e. ls_license e = lic \<and> ls_set e = s)
        (\<lambda>e. e\<lparr>ls_until := axis_union (ls_until e) u, ls_major := axis_union (ls_major e) m\<rparr>) t)) =
      (if C s \<and> (\<exists>e\<in>set t. ls_license e = lic \<and> ls_set e = s)
       then combine (joined (set_bounds k lic C t)) (Some \<lparr>lb_until = u, lb_major = m\<rparr>)
       else joined (set_bounds k lic C t))"
  proof (induction t)
    case (Cons e t)
    show ?case
    proof (cases "ls_license e = lic \<and> ls_set e = s")
      case True
      then show ?thesis using Cons
        by (simp add: set_bounds_def upd_where_Cons k combine_Some combine_ac del: combine.simps(3))
    next
      case False
      then show ?thesis using Cons
        by (auto simp: set_bounds_def upd_where_Cons k combine_assoc simp del: combine.simps(3))
    qed
  qed (simp add: set_bounds_def)
  show ?thesis
    unfolding put_set_ent_def using upd
    by (auto simp: set_bounds_def joined_append k)
qed

lemma direct_bounds_put:
  assumes "perpetual_key k"
  shows "joined (direct_bounds k lic C (put_ent lic s u m t)) =
    (if C s then combine (joined (direct_bounds k lic C t)) (Some \<lparr>lb_until = u, lb_major = m\<rparr>)
     else joined (direct_bounds k lic C t))"
proof -
  have k: "l_until k = None" "l_major k = None" using assms by (simp_all add: perpetual_key_def)
  have upd: "joined (direct_bounds k lic C (upd_where (\<lambda>e. en_license e = lic \<and> en_package e = s)
        (\<lambda>e. e\<lparr>en_until := axis_union (en_until e) u, en_major := axis_union (en_major e) m\<rparr>) t)) =
      (if C s \<and> (\<exists>e\<in>set t. en_license e = lic \<and> en_package e = s)
       then combine (joined (direct_bounds k lic C t)) (Some \<lparr>lb_until = u, lb_major = m\<rparr>)
       else joined (direct_bounds k lic C t))"
  proof (induction t)
    case (Cons e t)
    show ?case
    proof (cases "en_license e = lic \<and> en_package e = s")
      case True
      then show ?thesis using Cons
        by (simp add: direct_bounds_def upd_where_Cons k combine_Some combine_ac del: combine.simps(3))
    next
      case False
      then show ?thesis using Cons
        by (auto simp: direct_bounds_def upd_where_Cons k combine_assoc simp del: combine.simps(3))
    qed
  qed (simp add: direct_bounds_def)
  show ?thesis
    unfolding put_ent_def using upd
    by (auto simp: direct_bounds_def joined_append k)
qed

lemma set_bounds_fold:
  assumes "perpetual_key k" "\<And>e. e \<in> set es \<Longrightarrow> ls_license e = src"
  shows "joined (set_bounds k lic C (fold (\<lambda>e. put_set_ent lic (ls_set e) (or_else (ls_until e) (l_until l))
        (or_else (ls_major e) (l_major l))) es t)) =
    combine (joined (set_bounds k lic C t)) (joined (set_bounds l src C es))"
  using assms(2)
proof (induction es arbitrary: t)
  case (Cons e es)
  then show ?case
    by (simp add: set_bounds_put[OF assms(1)]) (simp add: set_bounds_def combine_ac)
qed (simp add: set_bounds_def)
lemma direct_bounds_fold:
  assumes "perpetual_key k" "\<And>e. e \<in> set es \<Longrightarrow> en_license e = src"
  shows "joined (direct_bounds k lic C (fold (\<lambda>e. put_ent lic (en_package e) (or_else (en_until e) (l_until l))
        (or_else (en_major e) (l_major l))) es t)) =
    combine (joined (direct_bounds k lic C t)) (joined (direct_bounds l src C es))"
  using assms(2)
proof (induction es arbitrary: t)
  case (Cons e es)
  then show ?case
    by (simp add: direct_bounds_put[OF assms(1)]) (simp add: direct_bounds_def combine_ac)
qed (simp add: direct_bounds_def)

lemma put_other_license:
  assumes "x \<noteq> lic"
  shows "filter (\<lambda>e. ls_license e = x) (put_set_ent lic s u m t) = filter (\<lambda>e. ls_license e = x) t"
    "filter (\<lambda>e. en_license e = x) (put_ent lic p u m t') = filter (\<lambda>e. en_license e = x) t'"
proof -
  have "filter (\<lambda>e. ls_license e = x) (upd_where (\<lambda>e. ls_license e = lic \<and> ls_set e = s)
      (\<lambda>e. e\<lparr>ls_until := axis_union (ls_until e) u, ls_major := axis_union (ls_major e) m\<rparr>) t) =
      filter (\<lambda>e. ls_license e = x) t"
    using assms by (induction t) (auto simp: upd_where_Cons)
  then show "filter (\<lambda>e. ls_license e = x) (put_set_ent lic s u m t) = filter (\<lambda>e. ls_license e = x) t"
    using assms by (simp add: put_set_ent_def)
  have "filter (\<lambda>e. en_license e = x) (upd_where (\<lambda>e. en_license e = lic \<and> en_package e = p)
      (\<lambda>e. e\<lparr>en_until := axis_union (en_until e) u, en_major := axis_union (en_major e) m\<rparr>) t') =
      filter (\<lambda>e. en_license e = x) t'"
    using assms by (induction t') (auto simp: upd_where_Cons)
  then show "filter (\<lambda>e. en_license e = x) (put_ent lic p u m t') = filter (\<lambda>e. en_license e = x) t'"
    using assms by (simp add: put_ent_def)
qed

lemma fold_put_other_license:
  assumes "x \<noteq> lic"
  shows "filter (\<lambda>e. ls_license e = x) (fold (\<lambda>e. put_set_ent lic (S e) (U e) (M e)) es t) = filter (\<lambda>e. ls_license e = x) t"
    "filter (\<lambda>e. en_license e = x) (fold (\<lambda>e. put_ent lic (S' e) (U' e) (M' e)) es' t') = filter (\<lambda>e. en_license e = x) t'"
proof -
  show "filter (\<lambda>e. ls_license e = x) (fold (\<lambda>e. put_set_ent lic (S e) (U e) (M e)) es t) = filter (\<lambda>e. ls_license e = x) t"
    by (induction es arbitrary: t) (simp_all add: put_other_license[OF assms])
  show "filter (\<lambda>e. en_license e = x) (fold (\<lambda>e. put_ent lic (S' e) (U' e) (M' e)) es' t') = filter (\<lambda>e. en_license e = x) t'"
    by (induction es' arbitrary: t') (simp_all add: put_other_license[OF assms])
qed

lemma bounds_filter:
  "set_bounds l lic C (filter (\<lambda>e. ls_license e = lic) t) = set_bounds l lic C t"
  "direct_bounds l lic D (filter (\<lambda>e. en_license e = lic) t') = direct_bounds l lic D t'"
  by (simp_all add: set_bounds_def direct_bounds_def conj_commute cong: conj_cong)

lemma bounds_cong:
  assumes "filter (\<lambda>e. ls_license e = lic) t = filter (\<lambda>e. ls_license e = lic) u"
    "filter (\<lambda>e. en_license e = lic) t' = filter (\<lambda>e. en_license e = lic) u'"
  shows "set_bounds l lic C t = set_bounds l lic C u" "direct_bounds l lic D t' = direct_bounds l lic D u'"
  using assms bounds_filter by metis+

lemma the_license:
  assumes "distinct (map l_id (licenses db))" "l \<in> set (licenses db)" "l_id l = lic"
  shows "filter (\<lambda>l. l_id l = lic) (licenses db) = [l]"
proof -
  have "filter (\<lambda>x. l_id x = lic) t = [l]" if "distinct (map l_id t)" "l \<in> set t" for t
    using that assms(3) by (induction t) (auto simp: filter_empty_conv image_iff)
  then show ?thesis using assms by blast
qed

lemma active_keyD: "active_key db repo lic = Some l \<Longrightarrow> l \<in> set (licenses db) \<and> l_id l = lic \<and> l_status l = ''active''"
  unfolding active_key_def using select_one_Some by fastforce

lemma covers_cong:
  "packages db' = packages db \<Longrightarrow> sets db' = sets db \<Longrightarrow> set_members db' = set_members db \<Longrightarrow>
   set_rules db' = set_rules db \<Longrightarrow> repos db' = repos db \<Longrightarrow>
   covers_name db' = covers_name db \<and> is_named db' = is_named db"
  by (auto simp: fun_eq_iff covers_name_def is_named_def set_covers_def set_has_def)

lemma revoked_unresolved:
  "select_one (\<lambda>l. P l \<and> Q l \<and> l_status l = ''active'' \<and> R l)
     (upd_where (\<lambda>l. l_id l = lic) (\<lambda>l. l\<lparr>l_status := ''revoked''\<rparr>) t) = Some x \<Longrightarrow> l_id x \<noteq> lic"
  by (induction t) (auto simp: table_simps split: if_splits)

section \<open>Properties of licenses\<close>

text \<open>C35: merging a key into an account key gives the account key exactly the union: every package is then
  entitled as far as either key went, per axis (no time or version limit wins, else the later one),
  nothing more; the merged key stops resolving and no other key changes.\<close>

theorem merge_exact:
  assumes "distinct (map l_id (licenses db))" "merge_license_keys db repo source target = (Merged, db')"
    and "l \<in> set (licenses db)" "l_id l \<notin> {source, target}"
  shows "bound_of db' target n = combine (bound_of db target n) (bound_of db source n)
    \<and> bound_of db' (l_id l) n = bound_of db (l_id l) n
    \<and> resolve_license sha now db' repo' key \<noteq> Some source"
proof -
  obtain s t where st: "source \<noteq> target" "active_key db repo source = Some s" "active_key db repo target = Some t"
      "perpetual_key t" and db': "db' = db\<lparr>
        set_ents := fold (\<lambda>e. put_set_ent target (ls_set e) (or_else (ls_until e) (l_until s)) (or_else (ls_major e) (l_major s)))
          (filter (\<lambda>e. ls_license e = source) (set_ents db)) (set_ents db),
        ents := fold (\<lambda>e. put_ent target (en_package e) (or_else (en_until e) (l_until s)) (or_else (en_major e) (l_major s)))
          (filter (\<lambda>e. en_license e = source) (ents db)) (ents db),
        licenses := upd_where (\<lambda>l. l_id l = source) (\<lambda>l. l\<lparr>l_status := ''revoked''\<rparr>) (licenses db)\<rparr>"
    using assms(2) unfolding merge_license_keys_def
    by (simp split: if_split_asm option.split_asm)
  have d': "distinct (map l_id (licenses db'))" using assms(1) by (simp add: db' map_upd_where_key)
  have keep: "x \<in> set (licenses db')" if "x \<in> set (licenses db)" "l_id x \<noteq> source" for x
    using that by (auto simp: db' in_upd_where)
  have cov: "covers_name db' = covers_name db" "is_named db' = is_named db"
    using covers_cong[of db' db] by (simp_all add: db')
  note sk = active_keyD[OF st(2)] and tk = active_keyD[OF st(3)]
  have fs: "filter (\<lambda>l. l_id l = source) (licenses db) = [s]" using the_license[OF assms(1)] sk by blast
  have ft: "filter (\<lambda>l. l_id l = target) (licenses db) = [t]" using the_license[OF assms(1)] tk by blast
  have ft': "filter (\<lambda>l. l_id l = target) (licenses db') = [t]" using the_license[OF d' keep] tk st(1) by auto
  have fl: "filter (\<lambda>k. l_id k = l_id l) (licenses db) = [l]" using the_license[OF assms(1,3)] by simp
  have fl': "filter (\<lambda>k. l_id k = l_id l) (licenses db') = [l]" using the_license[OF d' keep] assms(3,4) by auto
  have "joined (set_bounds t target (covers_name db n) (set_ents db')) =
      combine (joined (set_bounds t target (covers_name db n) (set_ents db))) (joined (set_bounds s source (covers_name db n) (set_ents db)))"
    using set_bounds_fold[OF st(4), of "filter (\<lambda>e. ls_license e = source) (set_ents db)" source target "covers_name db n" s "set_ents db"]
    by (simp add: db' bounds_filter)
  moreover have "joined (direct_bounds t target (is_named db n) (ents db')) =
      combine (joined (direct_bounds t target (is_named db n) (ents db))) (joined (direct_bounds s source (is_named db n) (ents db)))"
    using direct_bounds_fold[OF st(4), of "filter (\<lambda>e. en_license e = source) (ents db)" source target "is_named db n" s "ents db"]
    by (simp add: db' bounds_filter)
  ultimately have 1: "bound_of db' target n = combine (bound_of db target n) (bound_of db source n)"
    unfolding bound_of_edges[OF ft] bound_of_edges[OF fs] bound_of_edges[OF ft'] cov
    by (simp only: combine_ac)
  have ne: "l_id l \<noteq> target" using assms(4) by simp
  have 2: "bound_of db' (l_id l) n = bound_of db (l_id l) n"
    unfolding bound_of_edges[OF fl] bound_of_edges[OF fl'] cov
    by (simp add: db' bounds_cong[OF fold_put_other_license[OF ne]])
  have "licenses db' = upd_where (\<lambda>l. l_id l = source) (\<lambda>l. l\<lparr>l_status := ''revoked''\<rparr>) (licenses db)" by (simp only: db') simp
  then have "resolve_license sha now db' repo' key \<noteq> Some source" by (simp add: resolve_license_def revoked_unresolved)
  with 1 2 show ?thesis by blast
qed

text \<open>One repository with packages \<open>acme/one\<close> and \<open>acme/two\<close>, each in a set of its own, a yearly and a
  perpetual edition, an account key holding the first set and a second key holding both bounded.\<close>

definition demo_edition :: "uuid \<Rightarrow> uuid \<Rightarrow> edition_bound \<Rightarrow> edition_row" where
  "demo_edition newid set_id bound = new_edition newid 10 (show_nat newid) None set_id bound False \<lparr>po_mode = None, po_cooldown = None\<rparr>"

definition demo_shop :: db where
  "demo_shop = demo_names\<lparr>packages := [new_package 100 10 ''acme/one'' ''library'' None Private,
       new_package 101 10 ''acme/two'' ''library'' None Private],
     sets := [\<lparr>ps_id = 30, ps_org = 1, ps_name = ''one''\<rparr>, \<lparr>ps_id = 31, ps_org = 1, ps_name = ''two''\<rparr>],
     set_members := [\<lparr>sm_set = 30, sm_package = 100\<rparr>, \<lparr>sm_set = 31, sm_package = 101\<rparr>],
     editions := [demo_edition 40 30 (TimeBound 12), demo_edition 41 31 Perpetual],
     licenses := [blank_license 50 10 [1] None None, (blank_license 51 10 [2] None None)\<lparr>l_until := Some 900\<rparr>,
       blank_license 52 10 [3] None None],
     set_ents := [\<lparr>ls_license = 50, ls_set = 30, ls_until = Some 500, ls_major = None\<rparr>,
       \<lparr>ls_license = 51, ls_set = 30, ls_until = None, ls_major = None\<rparr>,
       \<lparr>ls_license = 51, ls_set = 31, ls_until = None, ls_major = None\<rparr>]\<rparr>"

lemma merge_exact_witness:
  "bound_of (snd (merge_license_keys demo_shop 10 51 50)) 50 ''acme/one'' =
   combine (bound_of demo_shop 50 ''acme/one'') (bound_of demo_shop 51 ''acme/one'')"
proof -
  have "bound_of (snd (merge_license_keys demo_shop 10 51 50)) 50 ''acme/one'' =
       combine (bound_of demo_shop 50 ''acme/one'') (bound_of demo_shop 51 ''acme/one'')
    \<and> bound_of (snd (merge_license_keys demo_shop 10 51 50)) (l_id (blank_license 52 10 [3] None None)) ''acme/one'' =
       bound_of demo_shop (l_id (blank_license 52 10 [3] None None)) ''acme/one''
    \<and> resolve_license (\<lambda>b. b) 0 (snd (merge_license_keys demo_shop 10 51 50)) 10 [] \<noteq> Some 51"
    by (rule merge_exact[where repo = 10 and source = 51]) code_simp+
  then show ?thesis ..
qed

subsection \<open>The plan's edition limit\<close>

definition editions_ok :: "db \<Rightarrow> bool" where
  "editions_ok db \<longleftrightarrow> distinct (map ed_id (editions db)) \<and> distinct (map r_id (repos db))"

inductive edition_step :: "db \<Rightarrow> db \<Rightarrow> bool" where
  edition_created: "create_edition i db repo name slug set_id b snap pol = Inr (r, db') \<Longrightarrow> i \<notin> ed_id ` set (editions db)
    \<Longrightarrow> edition_step db db'"
| edition_switched: "set_edition_active db repo ed active = Inr (found, db') \<Longrightarrow> edition_step db db'"
| edition_deleted: "edition_step db (snd (delete_edition db repo ed))"

inductive_cases edition_stepE: "edition_step db db'"

lemma count_where_cong: "(\<And>r. r \<in> set t \<Longrightarrow> P r = Q r) \<Longrightarrow> count_where P t = count_where Q t"
  by (induction t) (simp_all add: table_simps)

lemma count_where_del: "count_where P (del_where Q t) \<le> count_where P t"
  by (induction t) (auto simp: table_simps del_where_def)

lemma org_of_repo_iff:
  assumes "distinct (map r_id (repos db))" "org_of_repo db repo = Inr org"
  shows "exists_where (\<lambda>r. r_id r = repo \<and> r_org r = org') (repos db) \<longleftrightarrow> org' = org"
proof -
  obtain r where r: "select_one (\<lambda>r. r_id r = repo) (repos db) = Some r" "r_org r = org"
    using assms(2) by (auto simp: org_of_repo_def)
  have "r \<in> set (repos db)" "r_id r = repo" using select_one_Some[OF r(1)] by auto
  then show ?thesis using r(2) distinct_map_eqD[OF assms(1)] by auto
qed

lemma edition_step_frame:
  assumes "edition_step db db'"
  shows "repos db' = repos db" "org_ents db' = org_ents db"
  using assms by (auto elim!: edition_stepE simp: create_edition_def insert_edition_def set_edition_active_def
      set_edition_flag_def delete_edition_def del_editions_def Let_def and_then_Inr_iff split: if_splits sum.splits)

lemma count_activated:
  assumes "distinct (map ed_id t)"
  shows "count_where (active_editions db org) (upd_where (\<lambda>e. ed_id e = ed \<and> ed_repo e = repo) f t)
    \<le> Suc (count_where (\<lambda>e. active_editions db org e \<and> ed_id e \<noteq> ed) t)"
  using assms
proof (induction t)
  case (Cons e t)
  show ?case
  proof (cases "ed_id e = ed")
    case True
    with Cons.prems have none: "\<And>r. r \<in> set t \<Longrightarrow> ed_id r \<noteq> ed" by (force simp: image_iff)
    then have "upd_where (\<lambda>e. ed_id e = ed \<and> ed_repo e = repo) f t = t"
      "count_where (\<lambda>e. active_editions db org e \<and> ed_id e \<noteq> ed) t = count_where (active_editions db org) t"
      by (auto intro!: upd_where_none count_where_cong)
    then show ?thesis using True by (simp add: table_simps)
  next
    case False
    then show ?thesis using Cons by (simp add: table_simps)
  qed
qed simp

lemma count_elsewhere:
  assumes "\<not> exists_where (\<lambda>r. r_id r = repo \<and> r_org r = org) (repos db)"
  shows "count_where (active_editions db org) (upd_where (\<lambda>e. ed_id e = ed \<and> ed_repo e = repo) (\<lambda>e. e\<lparr>ed_active := a\<rparr>) t)
    = count_where (active_editions db org) t"
  using assms by (induction t) (auto simp: table_simps active_editions_def)

lemma count_deactivated:
  "count_where (active_editions db org) (upd_where P (\<lambda>e. e\<lparr>ed_active := False\<rparr>) t) \<le> count_where (active_editions db org) t"
  by (induction t) (auto simp: table_simps active_editions_def)

lemma active_editions_cong: "repos db' = repos db \<Longrightarrow> active_editions db' = active_editions db"
  by (simp add: fun_eq_iff active_editions_def)

lemma capacity_left:
  "require_sku_capacity db org ex = Inr u \<Longrightarrow> ee_max_skus (org_entitlements db org) = Some cap \<Longrightarrow>
   int (count_where (\<lambda>e. active_editions db org e \<and> (case ex of None \<Rightarrow> True | Some x \<Rightarrow> ed_id e \<noteq> x)) (editions db)) < cap"
  by (auto simp: require_sku_capacity_def split: if_splits)

lemma create_edition_cap:
  assumes "create_edition i db repo name slug set_id b snap pol = Inr (r, db')" "i \<notin> ed_id ` set (editions db)"
    "editions_ok db" "ee_max_skus (org_entitlements db org) = Some cap" "int (count_active_editions db org) \<le> cap"
  shows "editions_ok db' \<and> int (count_active_editions db' org) \<le> cap"
proof -
  obtain o' where o': "org_of_repo db repo = Inr o'" "require_sku_capacity db o' None = Inr ()"
      and db': "db' = db \<or> db' = db\<lparr>editions := editions db @ [new_edition i repo name slug set_id b snap pol]\<rparr>"
    using assms(1) by (auto simp: create_edition_def insert_edition_def and_then_Inr_iff split: sum.splits if_splits)
  have d: "distinct (map r_id (repos db))" using assms(3) by (simp add: editions_ok_def)
  let ?e = "new_edition i repo name slug set_id b snap pol"
  have e: "ed_repo ?e = repo" "ed_id ?e = i" by (simp_all add: new_edition_def Let_def split: prod.splits)
  have "active_editions db org ?e \<Longrightarrow> org = o'" using org_of_repo_iff[OF d o'(1)] by (simp add: active_editions_def e(1))
  then have "active_editions db org ?e \<Longrightarrow> int (count_where (active_editions db org) (editions db)) < cap"
    using capacity_left[OF o'(2)] assms(4) by simp
  moreover have "count_active_editions (db\<lparr>editions := editions db @ [?e]\<rparr>) org =
      count_where (active_editions db org) (editions db) + (if active_editions db org ?e then 1 else 0)"
    by (simp add: count_active_editions_def table_simps active_editions_cong[of "db\<lparr>editions := _\<rparr>"])
  ultimately have "int (count_active_editions (db\<lparr>editions := editions db @ [?e]\<rparr>) org) \<le> cap"
    using assms(5) by (auto simp: count_active_editions_def)
  moreover have "editions_ok (db\<lparr>editions := editions db @ [?e]\<rparr>)" using assms(2,3) e(2) by (simp add: editions_ok_def)
  ultimately show ?thesis using db' assms(3,5) by auto
qed

lemma set_edition_active_cap:
  assumes "set_edition_active db repo ed a = Inr (found, db')"
    "editions_ok db" "ee_max_skus (org_entitlements db org) = Some cap" "int (count_active_editions db org) \<le> cap"
  shows "editions_ok db' \<and> int (count_active_editions db' org) \<le> cap"
proof -
  have db': "db' = db\<lparr>editions := upd_where (\<lambda>e. ed_id e = ed \<and> ed_repo e = repo) (\<lambda>e. e\<lparr>ed_active := a\<rparr>) (editions db)\<rparr>"
    using assms(1) by (auto simp: set_edition_active_def set_edition_flag_def and_then_Inr_iff split: sum.splits if_splits)
  have count: "count_active_editions db' org = count_where (active_editions db org)
      (upd_where (\<lambda>e. ed_id e = ed \<and> ed_repo e = repo) (\<lambda>e. e\<lparr>ed_active := a\<rparr>) (editions db))"
    unfolding count_active_editions_def db' by (subst active_editions_cong[of _ db]) simp_all
  have "int (count_active_editions db' org) \<le> cap"
  proof (cases "a \<and> exists_where (\<lambda>r. r_id r = repo \<and> r_org r = org) (repos db)")
    case True
    obtain o' where o': "org_of_repo db repo = Inr o'" "require_sku_capacity db o' (Some ed) = Inr ()"
      using assms(1) True by (auto simp: set_edition_active_def and_then_Inr_iff split: sum.splits)
    then have "o' = org" using True assms(2) org_of_repo_iff by (auto simp: editions_ok_def)
    then show ?thesis using capacity_left[OF o'(2)] assms(2,3) count_activated[of "editions db" db org ed repo "\<lambda>e. e\<lparr>ed_active := a\<rparr>"]
      by (simp add: count editions_ok_def)
  next
    case False
    then show ?thesis
    proof (cases a)
      case True
      with False show ?thesis using assms(4) unfolding count by (subst count_elsewhere) (simp_all add: count_active_editions_def)
    next
      case False
      then have "count_active_editions db' org \<le> count_active_editions db org"
        using count_deactivated by (simp add: count) (simp add: count_active_editions_def)
      then show ?thesis using assms(4) by linarith
    qed
  qed
  moreover have "editions_ok db'" using assms(2) by (simp add: db' editions_ok_def map_upd_where_key)
  ultimately show ?thesis by blast
qed

lemma delete_edition_cap:
  assumes "editions_ok db" "int (count_active_editions db org) \<le> cap"
  shows "editions_ok (snd (delete_edition db repo ed)) \<and> int (count_active_editions (snd (delete_edition db repo ed)) org) \<le> cap"
proof -
  have "count_active_editions (snd (delete_edition db repo ed)) org =
      count_where (active_editions db org) (del_where (\<lambda>e. ed_id e = ed \<and> ed_repo e = repo) (editions db))"
    unfolding count_active_editions_def by (subst active_editions_cong[of _ db]) (simp_all add: delete_edition_def del_editions_def Let_def)
  then show ?thesis using assms count_where_del[of "active_editions db org" "\<lambda>e. ed_id e = ed \<and> ed_repo e = repo" "editions db"]
    by (simp add: count_active_editions_def editions_ok_def delete_edition_def del_editions_def Let_def distinct_map_del_where)
qed

lemma edition_step_cap:
  assumes "edition_step db db'" "editions_ok db" "ee_max_skus (org_entitlements db org) = Some cap"
    "int (count_active_editions db org) \<le> cap"
  shows "editions_ok db' \<and> ee_max_skus (org_entitlements db' org) = Some cap \<and> int (count_active_editions db' org) \<le> cap"
proof -
  have "org_entitlements db' org = org_entitlements db org" using edition_step_frame[OF assms(1)] by (simp add: org_entitlements_def)
  moreover have "editions_ok db' \<and> int (count_active_editions db' org) \<le> cap" using assms(1)
  proof cases
    case edition_created
    then show ?thesis using create_edition_cap assms(2-4) by blast
  next
    case edition_switched
    then show ?thesis using set_edition_active_cap assms(2-4) by blast
  next
    case edition_deleted
    then show ?thesis using delete_edition_cap assms(2,4) by blast
  qed
  ultimately show ?thesis using assms(3) by simp
qed

text \<open>C37: under an edition limit of \<open>cap\<close>, no sequence of creating, switching on and off and deleting
  editions, in any order and whatever is refused, leaves an organization with more than \<open>cap\<close> active ones.\<close>

theorem sku_cap_invariant:
  assumes "edition_step\<^sup>*\<^sup>* db db'" "editions_ok db" "ee_max_skus (org_entitlements db org) = Some cap"
    "int (count_active_editions db org) \<le> cap"
  shows "int (count_active_editions db' org) \<le> cap"
proof -
  have "editions_ok db' \<and> ee_max_skus (org_entitlements db' org) = Some cap \<and> int (count_active_editions db' org) \<le> cap"
    using assms by (induction rule: rtranclp_induct) (auto dest: edition_step_cap)
  then show ?thesis by blast
qed

definition demo_capped :: db where
  "demo_capped = demo_shop\<lparr>org_ents := [row_of_ents 1 (unlimited\<lparr>ee_max_skus := Some 2\<rparr>)]\<rparr>"

lemma sku_cap_invariant_witness:
  "int (count_active_editions (snd (delete_edition demo_capped 10 40)) 1) \<le> 2
    \<and> create_edition 42 demo_capped 10 ''Pro'' None 30 Perpetual False \<lparr>po_mode = None, po_cooldown = None\<rparr> = Inl (SkuCapReached 2)"
proof
  have "edition_step\<^sup>*\<^sup>* demo_capped (snd (delete_edition demo_capped 10 40))" by (simp add: edition_deleted r_into_rtranclp)
  then show "int (count_active_editions (snd (delete_edition demo_capped 10 40)) 1) \<le> 2"
    by (rule sku_cap_invariant) code_simp+
qed code_simp

subsection \<open>Issuing and renewing\<close>

lemma attach_edition_set_frame [simp]:
  "licenses (attach_edition_set am now lic s sn b db) = licenses db"
  "editions (attach_edition_set am now lic s sn b db) = editions db"
proof -
  have "licenses (fold (add_ent lic u m) ps db) = licenses db \<and> editions (fold (add_ent lic u m) ps db) = editions db" for u m ps
    by (induction ps arbitrary: db) (simp_all add: add_ent_def)
  then show "licenses (attach_edition_set am now lic s sn b db) = licenses db"
    "editions (attach_edition_set am now lic s sn b db) = editions db"
    by (simp_all add: attach_edition_set_def add_set_ent_def Let_def)
qed

text \<open>C36: issuing is idempotent: once a request with an idempotency key has created a license, every
  repetition, also one that lost the race past the fast path, changes nothing and returns the same
  license, with its key recovered when keys are stored encrypted.\<close>

theorem issue_idempotent:
  assumes first: "issue_from_edition i sha enc dec am secret now db repo ed buyer (Some k) edge = Inr (Some r, db')"
    and created: "il_created r" and fresh: "i \<notin> l_id ` set (licenses db)"
  shows "issue_from_edition i' sha enc dec am secret' now' db' repo ed buyer' (Some k) edge' = Inr (Some
      \<lparr>il_id = i, il_key = (case (enc, dec) of (Some f, Some d) \<Rightarrow> d (f (str_bytes secret)) | _ \<Rightarrow> None), il_created = False\<rparr>, db')
    \<and> issue_insert i' sha enc dec am secret' now' db' repo ed buyer' (Some k) edge' =
      issue_from_edition i' sha enc dec am secret' now' db' repo ed buyer' (Some k) edge'"
proof -
  have miss: "license_id_for_idempotency db repo ed k = None"
    and ins: "issue_insert i sha enc dec am secret now db repo ed buyer (Some k) edge = Inr (Some r, db')"
    using first created by (auto simp: issue_from_edition_def split: option.splits)
  obtain e where e: "select_one (\<lambda>e. ed_id e = ed \<and> ed_repo e = repo \<and> ed_active e) (editions db) = Some e"
    using ins created by (cases "select_one (\<lambda>e. ed_id e = ed \<and> ed_repo e = repo \<and> ed_active e) (editions db)") (simp_all add: issue_insert_def)
  have ed: "ed_id e = ed" using select_one_Some[OF e] by simp
  define l where "l = edition_license am now (blank_license i repo (token_hash sha secret) buyer
      (map_option (\<lambda>f. f (str_bytes secret)) enc)) e (Some k) edge"
  have l: "l_id l = i" "l_repo l = repo" "l_edition l = Some ed" "l_idem l = Some k"
      "l_cipher l = map_option (\<lambda>f. f (str_bytes secret)) enc" by (simp_all add: l_def edition_license_def blank_license_def ed)
  have "\<exists>db1. insert_license l db = Inr db1 \<and> db' = attach_edition_set am now i (ed_set e) (ed_snapshot e) (if edge then Some e else None) db1"
    using ins created by (auto simp: issue_insert_def e mint_license_key_def l_def[symmetric]
        split: sum.splits sql_error.splits option.splits)
  then have db': "licenses db' = licenses db @ [l]" "editions db' = editions db"
    by (auto simp: insert_license_def split: if_splits)
  have "select_one (\<lambda>l. l_repo l = repo \<and> l_edition l = Some ed \<and> l_idem l = Some k) (licenses db) = None"
    using miss by (simp add: license_id_for_idempotency_def)
  then have hit: "license_id_for_idempotency db' repo ed k = Some i"
    by (simp add: license_id_for_idempotency_def db' select_one_append select_one_Cons l)
  have none: "select_one (\<lambda>l. l_id l = i \<and> l_repo l = repo) (licenses db) = None" using fresh by (auto simp: table_simps)
  have plain: "license_key_plaintext dec db' repo i =
      (case (enc, dec) of (Some f, Some d) \<Rightarrow> d (f (str_bytes secret)) | _ \<Rightarrow> None)"
    by (simp add: license_key_plaintext_def db' select_one_append none select_one_Cons l split: option.splits)
  have dup: "\<exists>u. insert_license l2 db' = Inl (UniqueViolation u)" if "l_repo l2 = repo" "l_edition l2 = Some ed" "l_idem l2 = Some k" for l2
    using that l by (auto simp: insert_license_def db')
  have "issue_from_edition i' sha enc dec am secret' now' db' repo ed buyer' (Some k) edge' =
      Inr (Some \<lparr>il_id = i, il_key = license_key_plaintext dec db' repo i, il_created = False\<rparr>, db')"
    by (simp add: issue_from_edition_def hit)
  moreover have "issue_insert i' sha enc dec am secret' now' db' repo ed buyer' (Some k) edge' =
      Inr (Some \<lparr>il_id = i, il_key = license_key_plaintext dec db' repo i, il_created = False\<rparr>, db')"
  proof -
    obtain u where "insert_license (edition_license am now' (blank_license i' repo (token_hash sha secret') buyer'
        (map_option (\<lambda>f. f (str_bytes secret')) enc)) e (Some k) edge') db' = Inl (UniqueViolation u)"
      using dup[of "edition_license am now' (blank_license i' repo (token_hash sha secret') buyer'
        (map_option (\<lambda>f. f (str_bytes secret')) enc)) e (Some k) edge'"]
      by (auto simp: edition_license_def blank_license_def ed)
    then show ?thesis by (simp add: issue_insert_def db' e mint_license_key_def hit)
  qed
  ultimately show ?thesis by (simp only: plain)
qed

lemma issue_idempotent_witness:
  "\<exists>db'. issue_from_edition 60 (\<lambda>b. b) None None (\<lambda>n t. t + n) ''s2'' 7 db' 10 40 None (Some ''order-1'') True =
    Inr (Some \<lparr>il_id = 55, il_key = None, il_created = False\<rparr>, db')"
proof -
  let ?r = "issue_from_edition 55 (\<lambda>b. b) None None (\<lambda>n t. t + n) ''s1'' 5 demo_shop 10 40 None (Some ''order-1'') True"
  have "\<not> isl ?r \<and> map_option il_created (fst (projr ?r)) = Some True" by code_simp
  then obtain r db' where r: "?r = Inr (Some r, db')" "il_created r" by (cases ?r) auto
  have "55 \<notin> l_id ` set (licenses demo_shop)" by code_simp
  then show ?thesis using issue_idempotent[OF r, where i' = 60 and secret' = "''s2''" and now' = 7 and buyer' = None and edge' = True] by auto
qed

lemma record_renewal_again: "record_renewal (snd (record_renewal db repo lic k)) repo lic k = (False, snd (record_renewal db repo lic k))"
  by (cases "exists_where (\<lambda>l. l_id l = lic \<and> l_repo l = repo) (licenses db)
      \<and> \<not> exists_where (\<lambda>r. rn_license r = lic \<and> rn_idem r = k) (renewals db)")
    (simp_all only: record_renewal_def if_True if_False snd_conv, simp_all)

lemma extend_renewals [simp]:
  "renewals (snd (extend_time_bound am now db repo lic)) = renewals db"
  "renewals (snd (extend_edge am now db repo lic ed)) = renewals db"
  "licenses (snd (extend_edge am now db repo lic ed)) = licenses db"
  by (simp_all add: extend_time_bound_def extend_edge_def Let_def)

lemma record_renewal_seen: "exists_where (\<lambda>r. rn_license r = lic \<and> rn_idem r = k) (renewals db) \<Longrightarrow> record_renewal db repo lic k = (False, db)"
  by (auto simp: record_renewal_def)

lemma renewal_recorded:
  assumes "record_renewal db repo lic k = (True, db')"
  shows "exists_where (\<lambda>r. rn_license r = lic \<and> rn_idem r = k) (renewals db')"
  using assms by (auto simp: record_renewal_def split: if_splits)

lemma renew_same_key:
  "snd (renew_license am now' (snd (renew_license am now db repo lic (Some k))) repo lic (Some k)) = snd (renew_license am now db repo lic (Some k))"
  "snd (renew_license_edition am now' (snd (renew_license_edition am now db repo lic ed (Some k))) repo lic ed (Some k)) = snd (renew_license_edition am now db repo lic ed (Some k))"
proof -
  obtain fresh db1 where r: "record_renewal db repo lic k = (fresh, db1)" by fastforce
  show "snd (renew_license am now' (snd (renew_license am now db repo lic (Some k))) repo lic (Some k)) = snd (renew_license am now db repo lic (Some k))"
    "snd (renew_license_edition am now' (snd (renew_license_edition am now db repo lic ed (Some k))) repo lic ed (Some k)) = snd (renew_license_edition am now db repo lic ed (Some k))"
    using renewal_recorded[of db repo lic k] record_renewal_again[of db repo lic k]
    by (cases fresh; simp add: renew_license_def renew_license_edition_def r record_renewal_seen)+
qed

text \<open>What a renewal under a new idempotency key, or under none, makes of a key's own row and of the edges to a set: the bound
  is one term of the edition later than the old bound or the present, whichever is later; other rows stay. A key without a
  bound of its own gets one (see \<open>renew_account_key_shrinks\<close>), an edge without one does not.\<close>

definition renewed_row :: "(int \<Rightarrow> time \<Rightarrow> time) \<Rightarrow> time \<Rightarrow> db \<Rightarrow> uuid \<Rightarrow> uuid \<Rightarrow> license_row \<Rightarrow> license_row \<Rightarrow> bool" where
  "renewed_row am now db repo lic l l' \<longleftrightarrow>
     (if l_id l = lic \<and> l_repo l = repo \<and> l_status l = ''active'' \<and> list_ex (\<lambda>e. l_edition l = Some (ed_id e) \<and> ed_bound_kind e = ''time'') (editions db)
      then \<exists>e n v. e \<in> set (editions db) \<and> l_edition l = Some (ed_id e) \<and> ed_bound_kind e = ''time'' \<and> ed_bound_months e = Some n
        \<and> l' = l\<lparr>l_until := Some v\<rparr> \<and> v = am n (later (l_until l) now) \<and> now < v \<and> (case l_until l of None \<Rightarrow> True | Some t \<Rightarrow> t < v)
      else l' = l)"

definition renewed_edge :: "(int \<Rightarrow> time \<Rightarrow> time) \<Rightarrow> time \<Rightarrow> db \<Rightarrow> uuid \<Rightarrow> uuid \<Rightarrow> uuid \<Rightarrow> set_ent_row \<Rightarrow> set_ent_row \<Rightarrow> bool" where
  "renewed_edge am now db repo lic ed s s' \<longleftrightarrow>
     (if ls_license s = lic \<and> ls_until s \<noteq> None \<and> active_key db repo lic \<noteq> None
         \<and> list_ex (\<lambda>e. ed_id e = ed \<and> ed_repo e = repo \<and> ed_bound_kind e = ''time'' \<and> ed_set e = ls_set s) (editions db)
      then \<exists>e n t v. e \<in> set (editions db) \<and> ed_id e = ed \<and> ed_repo e = repo \<and> ed_bound_kind e = ''time'' \<and> ed_set e = ls_set s
        \<and> ed_bound_months e = Some n \<and> ls_until s = Some t \<and> s' = s\<lparr>ls_until := Some v\<rparr> \<and> v = am n (max t now) \<and> now < v \<and> t < v
      else s' = s)"

lemma extended_later:
  assumes "\<And>n t. 0 < n \<Longrightarrow> t < am n t" "0 < n" "v = am n (later u now)"
  shows "now < v \<and> (case u of None \<Rightarrow> True | Some t \<Rightarrow> t < v)"
proof -
  have "later u now < v" using assms by blast
  then show ?thesis by (cases u) (auto simp: later_def)
qed

lemma select_one_ex: "select_one P t = None \<longleftrightarrow> \<not> list_ex P t"
  by (auto simp: select_one_None list_ex_iff)

lemma renewed_key:
  assumes am: "\<And>n t. 0 < n \<Longrightarrow> t < am n t"
    and terms: "\<And>e. e \<in> set (editions db) \<Longrightarrow> ed_bound_kind e = ''time'' \<Longrightarrow> \<exists>n>0. ed_bound_months e = Some n"
  shows "renewed_row am now db repo lic l (case renewing_edition db repo lic l of None \<Rightarrow> l
        | Some e \<Rightarrow> l\<lparr>l_until := extended am now e (l_until l)\<rparr>)"
proof (cases "renewing_edition db repo lic l")
  case None
  then show ?thesis by (auto simp: renewed_row_def renewing_edition_def select_one_ex)
next
  case (Some e)
  then have e: "l_id l = lic" "l_repo l = repo" "l_status l = ''active''" "e \<in> set (editions db)" "l_edition l = Some (ed_id e)" "ed_bound_kind e = ''time''"
    by (auto simp: renewing_edition_def dest: select_one_Some split: if_splits)
  then obtain n where n: "0 < n" "ed_bound_months e = Some n" using terms by blast
  have "list_ex (\<lambda>e. l_edition l = Some (ed_id e) \<and> ed_bound_kind e = ''time'') (editions db)" using e by (auto simp: list_ex_iff)
  with e n extended_later[where am = am and now = now and u = "l_until l", OF am n(1) refl] Some show ?thesis
    unfolding renewed_row_def by (auto simp: extended_def)
qed

lemma renewed_set_edge:
  assumes am: "\<And>n t. 0 < n \<Longrightarrow> t < am n t"
    and terms: "\<And>e. e \<in> set (editions db) \<Longrightarrow> ed_bound_kind e = ''time'' \<Longrightarrow> \<exists>n>0. ed_bound_months e = Some n"
  shows "renewed_edge am now db repo lic ed s (case renewing_edge db repo lic ed s of None \<Rightarrow> s
        | Some e \<Rightarrow> s\<lparr>ls_until := extended am now e (ls_until s)\<rparr>)"
proof (cases "renewing_edge db repo lic ed s")
  case None
  then show ?thesis by (auto simp: renewed_edge_def renewing_edge_def select_one_ex)
next
  case (Some e)
  then have e: "ls_license s = lic" "active_key db repo lic \<noteq> None" "e \<in> set (editions db)" "ed_id e = ed" "ed_repo e = repo"
      "ed_bound_kind e = ''time''" "ed_set e = ls_set s" and "ls_until s \<noteq> None"
    by (auto simp: renewing_edge_def dest: select_one_Some split: if_splits)
  then obtain n t where n: "0 < n" "ed_bound_months e = Some n" and t: "ls_until s = Some t" using terms by blast
  have "list_ex (\<lambda>e. ed_id e = ed \<and> ed_repo e = repo \<and> ed_bound_kind e = ''time'' \<and> ed_set e = ls_set s) (editions db)" using e by (auto simp: list_ex_iff)
  with e n t extended_later[where am = am and now = now and u = "ls_until s", OF am n(1) refl] Some show ?thesis
    unfolding renewed_edge_def by (auto simp: extended_def later_def)
qed

text \<open>C38: a renewal repeated under the same idempotency key, at any later time, changes nothing, on the key
  as on the edge of one edition. A renewal under a new key or none changes exactly the row (the edges) it names, moving the
  bound one term past the old bound and the present, and nothing of the other kind: a key's renewal leaves the edges, an
  edge's renewal the keys. A key that had no bound of its own is bounded by it; an edge that had none stays.
  Editions bounded in time have a positive term, and adding a positive term moves time forward.\<close>

theorem renewal_once_and_forward:
  assumes "\<And>n t. 0 < n \<Longrightarrow> t < am n t" "\<And>e. e \<in> set (editions db) \<Longrightarrow> ed_bound_kind e = ''time'' \<Longrightarrow> \<exists>n>0. ed_bound_months e = Some n"
    and "case idem of None \<Rightarrow> True | Some k \<Rightarrow> \<not> exists_where (\<lambda>r. rn_license r = lic \<and> rn_idem r = k) (renewals db)"
  shows "snd (renew_license am now' (snd (renew_license am now db repo lic (Some k))) repo lic (Some k)) = snd (renew_license am now db repo lic (Some k))
    \<and> snd (renew_license_edition am now' (snd (renew_license_edition am now db repo lic ed (Some k))) repo lic ed (Some k))
      = snd (renew_license_edition am now db repo lic ed (Some k))
    \<and> list_all2 (renewed_row am now db repo lic) (licenses db) (licenses (snd (renew_license am now db repo lic idem)))
    \<and> set_ents (snd (renew_license am now db repo lic idem)) = set_ents db
    \<and> list_all2 (renewed_edge am now db repo lic ed) (set_ents db) (set_ents (snd (renew_license_edition am now db repo lic ed idem)))
    \<and> licenses (snd (renew_license_edition am now db repo lic ed idem)) = licenses db"
proof -
  have key: "list_all2 (renewed_row am now db repo lic) (licenses db) (licenses (snd (extend_time_bound am now db1 repo lic)))"
      "list_all2 (renewed_edge am now db repo lic ed) (set_ents db) (set_ents (snd (extend_edge am now db1 repo lic ed)))"
      "set_ents (snd (extend_time_bound am now db1 repo lic)) = set_ents db"
      "licenses (snd (extend_edge am now db1 repo lic ed)) = licenses db"
    if same: "editions db1 = editions db" "licenses db1 = licenses db" "set_ents db1 = set_ents db" for db1
  proof -
    have e: "renewing_edition db1 repo lic = renewing_edition db repo lic" "renewing_edge db1 repo lic ed = renewing_edge db repo lic ed"
      unfolding renewing_edition_def[abs_def] renewing_edge_def[abs_def] active_key_def same by (rule refl)+
    show "list_all2 (renewed_row am now db repo lic) (licenses db) (licenses (snd (extend_time_bound am now db1 repo lic)))"
      using renewed_key[OF assms(1,2)] by (simp add: extend_time_bound_def Let_def list_all2_map2 list_all2_same e same)
    show "list_all2 (renewed_edge am now db repo lic ed) (set_ents db) (set_ents (snd (extend_edge am now db1 repo lic ed)))"
      using renewed_set_edge[OF assms(1,2)] by (simp add: extend_edge_def Let_def list_all2_map2 list_all2_same e same)
    show "set_ents (snd (extend_time_bound am now db1 repo lic)) = set_ents db" "licenses (snd (extend_edge am now db1 repo lic ed)) = licenses db"
      by (simp_all add: extend_time_bound_def extend_edge_def Let_def same)
  qed
  have "list_all2 (renewed_row am now db repo lic) (licenses db) (licenses (snd (renew_license am now db repo lic idem)))
    \<and> set_ents (snd (renew_license am now db repo lic idem)) = set_ents db
    \<and> list_all2 (renewed_edge am now db repo lic ed) (set_ents db) (set_ents (snd (renew_license_edition am now db repo lic ed idem)))
    \<and> licenses (snd (renew_license_edition am now db repo lic ed idem)) = licenses db"
  proof (cases idem)
    case None
    then show ?thesis using key[OF refl refl refl] by (simp add: renew_license_def renew_license_edition_def)
  next
    case (Some i)
    obtain fresh db1 where r: "record_renewal db repo lic i = (fresh, db1)" by fastforce
    then have same: "editions db1 = editions db" "licenses db1 = licenses db" "set_ents db1 = set_ents db"
      by (auto simp: record_renewal_def split: if_splits)
    show ?thesis
    proof (cases fresh)
      case True
      then show ?thesis using key[OF same] by (simp add: Some renew_license_def renew_license_edition_def r)
    next
      case False
      then have none: "\<not> exists_where (\<lambda>l. l_id l = lic \<and> l_repo l = repo) (licenses db)"
        using r assms(3) Some by (auto simp: record_renewal_def split: if_splits)
      have "active_key db repo lic = None" using none by (auto simp: active_key_def select_one_None)
      then have "list_all2 (renewed_row am now db repo lic) (licenses db) (licenses db)"
          "list_all2 (renewed_edge am now db repo lic ed) (set_ents db) (set_ents db)"
        using none by (auto simp: list_all2_same renewed_row_def renewed_edge_def)
      then show ?thesis using False by (simp add: Some renew_license_def renew_license_edition_def r same)
    qed
  qed
  with renew_same_key show ?thesis by blast
qed

definition demo_account :: db where
  "demo_account = demo_shop\<lparr>licenses := [(blank_license 50 10 [1] None None)\<lparr>l_edition := Some 40\<rparr>],
     set_ents := [\<lparr>ls_license = 50, ls_set = 30, ls_until = Some 500, ls_major = None\<rparr>,
       \<lparr>ls_license = 50, ls_set = 31, ls_until = None, ls_major = None\<rparr>]\<rparr>"

lemma renewal_once_and_forward_witness:
  "let am = (\<lambda>n t. t + n); db = snd (renew_license am 600 demo_account 10 50 (Some ''ren-1'')) in
    map l_until (licenses db) = [Some 612] \<and> snd (renew_license am 700 db 10 50 (Some ''ren-1'')) = db"
proof -
  have terms: "\<exists>n>0. ed_bound_months e = Some n" if "e \<in> set (editions demo_account)" "ed_bound_kind e = ''time''" for e
    using that by (auto simp: demo_account_def demo_shop_def demo_edition_def new_edition_def)
  have "snd (renew_license (\<lambda>n t. t + n) 700 (snd (renew_license (\<lambda>n t. t + n) 600 demo_account 10 50 (Some ''ren-1''))) 10 50 (Some ''ren-1''))
      = snd (renew_license (\<lambda>n t. t + n) 600 demo_account 10 50 (Some ''ren-1''))"
    by (rule renewal_once_and_forward[where idem = "None", THEN conjunct1]) (use terms in auto)
  moreover have "map l_until (licenses (snd (renew_license (\<lambda>n t. t + n) 600 demo_account 10 50 (Some ''ren-1'')))) = [Some 612]" by code_simp
  ultimately show ?thesis by (simp add: Let_def)
qed

text \<open>Renewing an account key at the key level shortens what it unlocks: \<open>greatest\<close> ignores the null
  bound of the key, so a key that held one yearly and one perpetual edition is afterwards bounded as a
  whole, the perpetual edition with it, and takes no further edition.\<close>

theorem renew_account_key_shrinks:
  "let (bound, db) = renew_license (\<lambda>n t. t + n) 600 demo_account 10 50 None in
    bound_of demo_account 50 ''acme/two'' = Some \<lparr>lb_until = None, lb_major = None\<rparr>
    \<and> bound = Some 612 \<and> bound_of db 50 ''acme/two'' = Some \<lparr>lb_until = Some 612, lb_major = None\<rparr>
    \<and> fst (add_edition_to_license (\<lambda>n t. t + n) 600 demo_account 10 50 41) = Added
    \<and> fst (add_edition_to_license (\<lambda>n t. t + n) 600 db 10 50 41) = Standalone"
  by code_simp

text \<open>The renewal ledger is kept per key, not per edition: when one order renews two editions of an
  account key under the same idempotency key, only the first is extended, and the second call answers
  as if it had been.\<close>

theorem renewal_ledger_shared:
  "let db = demo_shop\<lparr>editions := [demo_edition 40 30 (TimeBound 12), demo_edition 41 31 (TimeBound 12)],
        set_ents := [\<lparr>ls_license = 50, ls_set = 30, ls_until = Some 500, ls_major = None\<rparr>,
          \<lparr>ls_license = 50, ls_set = 31, ls_until = Some 500, ls_major = None\<rparr>]\<rparr>;
      (first, db1) = renew_license_edition (\<lambda>n t. t + n) 400 db 10 50 40 (Some ''order-1'');
      (second, db2) = renew_license_edition (\<lambda>n t. t + n) 400 db1 10 50 41 (Some ''order-1'')
    in first = Some 512 \<and> second = Some 500 \<and> map ls_until (set_ents db2) = [Some 512, Some 500]"
  by code_simp

text \<open>Removing a set from a license takes the license and the set from the form without relating either to
  the repository of the URL, so an administrator of one organization strips another's keys.\<close>

theorem remove_license_set_cross_tenant:
  "let admin = \<lparr>cu_id = Some 5, cu_superadmin = False, cu_tenants = {1}, cu_admin = {1}\<rparr>;
      db = demo_names\<lparr>orgs := [\<lparr>o_id = 1, o_slug = ''acme'', o_name = None\<rparr>, \<lparr>o_id = 2, o_slug = ''other'', o_name = None\<rparr>],
        repos := [new_repo 10 1 ''main'', new_repo 20 2 ''shop''],
        sets := [\<lparr>ps_id = 33, ps_org = 2, ps_name = ''pro''\<rparr>],
        licenses := [blank_license 60 20 [9] None None],
        set_ents := [\<lparr>ls_license = 60, ls_set = 33, ls_until = None, ls_major = None\<rparr>]\<rparr>
    in map_option set_ents (case ui_remove_license_set db admin ''acme'' ''main'' (Some 60) (Some 33) of Inr db \<Rightarrow> Some db | Inl _ \<Rightarrow> None) = Some []"
  by code_simp

end
