(* ===== verification/Tokens.thy ===== *)
theory Tokens
  imports Entitle
begin

text \<open>
  Credentials of machines (\<open>crates/sconce-catalog/src/lib.rs\<close>): read tokens of a repository or an
  organization under the token policy, service tokens of the management API, publish tokens, the CI
  policies that mint short-lived ones, and the device-login flow; with the handlers of \<open>ui.rs\<close> that
  create, revoke and configure them.

  Secrets and ids drawn by the server are arguments. A \<open>days => n::int\<close> cast outside 32 bits is
  \<open>CastError\<close>; timestamps have no upper end.
\<close>

section \<open>Generated secrets\<close>

definition generate_secret :: "string \<Rightarrow> bytes \<Rightarrow> bytes \<Rightarrow> string" where
  "generate_secret prefix a b = prefix @ hex (a @ b)"

definition generate_token :: "bytes \<Rightarrow> bytes \<Rightarrow> string" where
  "generate_token a b = generate_secret ''sconce_'' a b"

definition ascii_upper_char :: "char \<Rightarrow> char" where
  "ascii_upper_char c = (if is_lower c then char_of (of_char c - 32 :: nat) else c)"

text \<open>\<open>to_uppercase\<close>, of bytes in UTF-8. The characters beyond ASCII whose capitals are ASCII (the sharp s, the
  dotless i, the long s and the Latin ligatures) are written out; the capitals of every other character beyond
  ASCII contain a character beyond ASCII, and here such a character stays as it is: either way it equals no code.\<close>

definition ascii_capitals :: "(string \<times> string) list" where
  "ascii_capitals = [([CHR 0xC3, CHR 0x9F], ''SS''), ([CHR 0xC4, CHR 0xB1], ''I''), ([CHR 0xC5, CHR 0xBF], ''S''),
     ([CHR 0xEF, CHR 0xAC, CHR 0x80], ''FF''), ([CHR 0xEF, CHR 0xAC, CHR 0x81], ''FI''), ([CHR 0xEF, CHR 0xAC, CHR 0x82], ''FL''),
     ([CHR 0xEF, CHR 0xAC, CHR 0x83], ''FFI''), ([CHR 0xEF, CHR 0xAC, CHR 0x84], ''FFL''), ([CHR 0xEF, CHR 0xAC, CHR 0x85], ''ST''),
     ([CHR 0xEF, CHR 0xAC, CHR 0x86], ''ST'')]"

fun to_upper :: "string \<Rightarrow> string" where
  "to_upper [] = []"
| "to_upper (c # s) = (case find (\<lambda>(p, _). starts_with p (c # s)) ascii_capitals of
     Some (p, u) \<Rightarrow> u @ to_upper (drop (length p - 1) s)
   | None \<Rightarrow> ascii_upper_char c # to_upper s)"

definition generate_user_code :: "bytes \<Rightarrow> string" where
  "generate_user_code uuid = to_upper (take 4 (hex uuid) @ ''-'' @ take 4 (drop 4 (hex uuid)))"

section \<open>Token policy\<close>

record org_settings =
  os_allow_raw_tokens :: bool
  os_max_token_ttl_days :: "int option"

definition default_org_settings :: org_settings where
  "default_org_settings = \<lparr>os_allow_raw_tokens = True, os_max_token_ttl_days = None\<rparr>"

definition org_settings_of :: "db \<Rightarrow> uuid \<Rightarrow> org_settings" where
  "org_settings_of db org = (case select_one (\<lambda>s. os_org s = org) (org_settings_t db) of
     None \<Rightarrow> default_org_settings
   | Some s \<Rightarrow> \<lparr>os_allow_raw_tokens = os_allow_raw s, os_max_token_ttl_days = os_max_ttl s\<rparr>)"

definition set_org_settings :: "db \<Rightarrow> uuid \<Rightarrow> org_settings \<Rightarrow> (sql_error, db) result" where
  "set_org_settings db org s =
     (let row = \<lparr>os_org = org, os_allow_raw = os_allow_raw_tokens s, os_max_ttl = os_max_token_ttl_days s\<rparr>
      in if \<not> exists_where (\<lambda>g. o_id g = org) (orgs db) then Inl (ForeignKeyViolation ''org_settings'')
         else if exists_where (\<lambda>r. os_org r = org) (org_settings_t db)
         then Inr (db\<lparr>org_settings_t := upd_where (\<lambda>r. os_org r = org) (\<lambda>_. row) (org_settings_t db)\<rparr>)
         else Inr (db\<lparr>org_settings_t := org_settings_t db @ [row]\<rparr>))"

fun min_cap :: "int option \<Rightarrow> int option \<Rightarrow> int option" where
  "min_cap (Some x) (Some y) = Some (min x y)"
| "min_cap a None = a"
| "min_cap None b = b"

definition effective_token_policy :: "db \<Rightarrow> uuid \<Rightarrow> (sql_error, org_settings) result" where
  "effective_token_policy db repo = ok_or RowNotFound (map_option (\<lambda>r.
     let s = select_one (\<lambda>s. os_org s = r_org r) (org_settings_t db)
     in \<lparr>os_allow_raw_tokens = (case s of None \<Rightarrow> True | Some s \<Rightarrow> os_allow_raw s)
            \<and> (case r_allow_raw r of None \<Rightarrow> True | Some a \<Rightarrow> a),
         os_max_token_ttl_days = min_cap (Option.bind s os_max_ttl) (r_max_ttl r)\<rparr>) (repo_named db repo))"

section \<open>Read tokens\<close>

definition token_checks :: "token_row \<Rightarrow> bool" where
  "token_checks t \<longleftrightarrow> t_origin t \<in> {''manual'', ''session'', ''ci''} \<and> (t_repo t = None) \<noteq> (t_org t = None)
     \<and> t_mode t \<in> {None, Some ''auto'', Some ''manual'', Some ''delayed''}"

definition insert_token :: "token_row \<Rightarrow> db \<Rightarrow> (sql_error, db) result" where
  "insert_token t db =
     (if \<not> token_checks t then Inl (CheckViolation ''tokens'')
      else if exists_where (\<lambda>x. t_hash x = t_hash t) (tokens db) then Inl (UniqueViolation ''tokens_token_hash_key'')
      else if (case t_repo t of None \<Rightarrow> False | Some r \<Rightarrow> repo_named db r = None)
         \<or> (case t_org t of None \<Rightarrow> False | Some g \<Rightarrow> \<not> exists_where (\<lambda>o'. o_id o' = g) (orgs db))
      then Inl (ForeignKeyViolation ''tokens'')
      else Inr (db\<lparr>tokens := tokens db @ [t]\<rparr>))"

definition new_token :: "uuid \<Rightarrow> bytes \<Rightarrow> string option \<Rightarrow> uuid option \<Rightarrow> uuid option \<Rightarrow> string \<Rightarrow> time \<Rightarrow> time option \<Rightarrow> token_row" where
  "new_token newid hash label repo org origin now expires = \<lparr>t_id = newid, t_hash = hash, t_label = label,
     t_repo = repo, t_org = org, t_origin = origin, t_created = now, t_last_used = None, t_expires = expires,
     t_mode = None, t_cooldown = None\<rparr>"

text \<open>\<open>case when $4 is null then null else now() + make_interval(days => $4::int) end\<close>\<close>

definition expiry_in_days :: "time \<Rightarrow> int option \<Rightarrow> (sql_error, time option) result" where
  "expiry_in_days now n = (case n of None \<Rightarrow> Inr None
     | Some d \<Rightarrow> if -2147483648 \<le> d \<and> d \<le> 2147483647 then Inr (Some (now + days d)) else Inl CastError)"

datatype create_token_error = TokenPolicy string | TokenDb sql_error

fun lift_db :: "(sql_error, 'a) result \<Rightarrow> (create_token_error, 'a) result" where
  "lift_db (Inl e) = Inl (TokenDb e)"
| "lift_db (Inr x) = Inr x"

definition check_token_policy :: "org_settings \<Rightarrow> int option \<Rightarrow> (create_token_error, unit) result" where
  "check_token_policy s expires_in_days =
     (if \<not> os_allow_raw_tokens s then Inl (TokenPolicy ''raw tokens are disabled for this repository'')
      else case os_max_token_ttl_days s of None \<Rightarrow> Inr ()
      | Some cap \<Rightarrow> (case expires_in_days of
           None \<Rightarrow> Inl (TokenPolicy (''this organization requires an expiry of at most '' @ show_int cap @ '' day(s)''))
         | Some d \<Rightarrow> if d > cap then Inl (TokenPolicy (''expiry '' @ show_int d
              @ '' day(s) exceeds the organization limit of '' @ show_int cap @ '' day(s)'')) else Inr ()))"

definition create_token :: "uuid \<Rightarrow> (bytes \<Rightarrow> bytes) \<Rightarrow> string \<Rightarrow> time \<Rightarrow> db \<Rightarrow> uuid \<Rightarrow> string option \<Rightarrow> int option
    \<Rightarrow> (create_token_error, string \<times> db) result" where
  "create_token newid sha secret now db repo label expires_in_days =
     and_then (lift_db (effective_token_policy db repo)) (\<lambda>s. and_then (check_token_policy s expires_in_days) (\<lambda>_.
       lift_db (and_then (expiry_in_days now expires_in_days) (\<lambda>e.
         and_then (insert_token (new_token newid (token_hash sha secret) label (Some repo) None ''manual'' now e) db)
           (\<lambda>db. Inr (secret, db))))))"

definition create_ci_token :: "uuid \<Rightarrow> (bytes \<Rightarrow> bytes) \<Rightarrow> string \<Rightarrow> time \<Rightarrow> db \<Rightarrow> uuid \<Rightarrow> string \<Rightarrow> int
    \<Rightarrow> (sql_error, string \<times> db) result" where
  "create_ci_token newid sha secret now db repo label ttl = and_then
     (insert_token (new_token newid (token_hash sha secret) (Some label) (Some repo) None ''ci'' now (Some (now + ttl))) db)
     (\<lambda>db. Inr (secret, db))"

definition create_org_ci_token :: "uuid \<Rightarrow> (bytes \<Rightarrow> bytes) \<Rightarrow> string \<Rightarrow> time \<Rightarrow> db \<Rightarrow> uuid \<Rightarrow> string \<Rightarrow> int
    \<Rightarrow> (sql_error, string \<times> db) result" where
  "create_org_ci_token newid sha secret now db org label ttl = and_then
     (insert_token (new_token newid (token_hash sha secret) (Some label) None (Some org) ''ci'' now (Some (now + ttl))) db)
     (\<lambda>db. Inr (secret, db))"

definition create_session_token :: "uuid \<Rightarrow> (bytes \<Rightarrow> bytes) \<Rightarrow> string \<Rightarrow> time \<Rightarrow> db \<Rightarrow> uuid \<Rightarrow> string \<Rightarrow> int
    \<Rightarrow> (sql_error, string \<times> db) result" where
  "create_session_token newid sha secret now db org label ttl = and_then
     (insert_token (new_token newid (token_hash sha secret) (Some label) None (Some org) ''session'' now (Some (now + ttl))) db)
     (\<lambda>db. Inr (secret, db))"

definition live :: "time \<Rightarrow> time option \<Rightarrow> bool" where
  "live now e \<longleftrightarrow> (case e of None \<Rightarrow> True | Some t \<Rightarrow> t > now)"

definition token_covers :: "db \<Rightarrow> uuid \<Rightarrow> token_row \<Rightarrow> bool" where
  "token_covers db repo t \<longleftrightarrow> exists_where (\<lambda>r. r_id r = repo \<and> (t_repo t = Some (r_id r) \<or> t_org t = Some (r_org r))) (repos db)"

definition token_matches :: "(bytes \<Rightarrow> bytes) \<Rightarrow> time \<Rightarrow> db \<Rightarrow> uuid \<Rightarrow> string \<Rightarrow> token_row \<Rightarrow> bool" where
  "token_matches sha now db repo token t \<longleftrightarrow>
     t_hash t = token_hash sha token \<and> live now (t_expires t) \<and> token_covers db repo t"

definition stamp_tokens :: "time \<Rightarrow> (token_row \<Rightarrow> bool) \<Rightarrow> db \<Rightarrow> db" where
  "stamp_tokens now P db = db\<lparr>tokens := upd_where P (\<lambda>t. t\<lparr>t_last_used := Some now\<rparr>) (tokens db)\<rparr>"

definition token_valid :: "(bytes \<Rightarrow> bytes) \<Rightarrow> time \<Rightarrow> db \<Rightarrow> uuid \<Rightarrow> string \<Rightarrow> bool \<times> db" where
  "token_valid sha now db repo token =
     (exists_where (token_matches sha now db repo token) (tokens db), stamp_tokens now (token_matches sha now db repo token) db)"

definition resolve_token_policy :: "(bytes \<Rightarrow> bytes) \<Rightarrow> time \<Rightarrow> db \<Rightarrow> uuid \<Rightarrow> string \<Rightarrow> policy_override option \<times> db" where
  "resolve_token_policy sha now db repo token =
     (map_option (\<lambda>t. \<lparr>po_mode = t_mode t, po_cooldown = t_cooldown t\<rparr>)
        (select_one (token_matches sha now db repo token) (tokens db)),
      stamp_tokens now (token_matches sha now db repo token) db)"

definition org_session_matches :: "(bytes \<Rightarrow> bytes) \<Rightarrow> time \<Rightarrow> string \<Rightarrow> token_row \<Rightarrow> bool" where
  "org_session_matches sha now token t \<longleftrightarrow> t_hash t = token_hash sha token \<and> t_org t \<noteq> None \<and> live now (t_expires t)"

definition resolve_org_session_token :: "(bytes \<Rightarrow> bytes) \<Rightarrow> time \<Rightarrow> db \<Rightarrow> string \<Rightarrow> (uuid \<times> time option) option \<times> db" where
  "resolve_org_session_token sha now db token =
     (map_option (\<lambda>t. (the (t_org t), t_expires t)) (select_one (org_session_matches sha now token) (tokens db)),
      stamp_tokens now (org_session_matches sha now token) db)"

record token_summary =
  ts_id :: uuid
  ts_label :: "string option"
  ts_origin :: string
  ts_created :: time
  ts_last_used :: "time option"
  ts_expires :: "time option"
  ts_expired :: bool
  ts_policy :: policy_override

definition int_cmp :: "int \<Rightarrow> int \<Rightarrow> ordering" where
  "int_cmp a b = (if a < b then Less else if a > b then Greater else Equal)"

definition list_tokens :: "time \<Rightarrow> db \<Rightarrow> uuid \<Rightarrow> token_summary list" where
  "list_tokens now db repo = map (\<lambda>t. \<lparr>ts_id = t_id t, ts_label = t_label t, ts_origin = t_origin t,
       ts_created = t_created t, ts_last_used = t_last_used t, ts_expires = t_expires t,
       ts_expired = \<not> live now (t_expires t), ts_policy = \<lparr>po_mode = t_mode t, po_cooldown = t_cooldown t\<rparr>\<rparr>)
     (sort_by (\<lambda>a b. int_cmp (t_created b) (t_created a)) (filter (\<lambda>t. t_repo t = Some repo) (tokens db)))"

definition repo_token_count :: "db \<Rightarrow> uuid \<Rightarrow> nat" where
  "repo_token_count db repo = count_where (\<lambda>t. t_repo t = Some repo) (tokens db)"

definition revoke_token :: "db \<Rightarrow> uuid \<Rightarrow> uuid \<Rightarrow> bool \<times> db" where
  "revoke_token db repo token =
     (exists_where (\<lambda>t. t_repo t = Some repo \<and> t_id t = token) (tokens db),
      db\<lparr>tokens := del_where (\<lambda>t. t_repo t = Some repo \<and> t_id t = token) (tokens db)\<rparr>)"

definition set_token_policy :: "db \<Rightarrow> uuid \<Rightarrow> string \<Rightarrow> policy_override \<Rightarrow> (sql_error, bool \<times> db) result" where
  "set_token_policy db repo label p =
     (let P = (\<lambda>t. t_repo t = Some repo \<and> t_label t = Some label)
      in if \<not> exists_where P (tokens db) then Inr (False, db)
         else if po_mode p \<notin> {None, Some ''auto'', Some ''manual'', Some ''delayed''} then Inl (CheckViolation ''tokens_update_mode_chk'')
         else Inr (True, db\<lparr>tokens := upd_where P (\<lambda>t. t\<lparr>t_mode := po_mode p, t_cooldown := po_cooldown p\<rparr>) (tokens db)\<rparr>))"

section \<open>Service and publish tokens\<close>

definition insert_cred :: "string \<Rightarrow> cred_row \<Rightarrow> db \<Rightarrow> cred_row list \<Rightarrow> (sql_error, cred_row list) result" where
  "insert_cred table c db t =
     (if exists_where (\<lambda>x. c_hash x = c_hash c) t then Inl (UniqueViolation table)
      else if repo_named db (c_repo c) = None then Inl (ForeignKeyViolation table)
      else Inr (t @ [c]))"

definition cred_matches :: "(bytes \<Rightarrow> bytes) \<Rightarrow> time \<Rightarrow> string \<Rightarrow> cred_row \<Rightarrow> bool" where
  "cred_matches sha now token c \<longleftrightarrow> c_hash c = token_hash sha token \<and> live now (c_expires c)"

definition resolve_cred :: "(bytes \<Rightarrow> bytes) \<Rightarrow> time \<Rightarrow> string \<Rightarrow> cred_row list \<Rightarrow> uuid option \<times> cred_row list" where
  "resolve_cred sha now token t = (map_option c_repo (select_one (cred_matches sha now token) t),
     upd_where (cred_matches sha now token) (\<lambda>c. c\<lparr>c_last_used := Some now\<rparr>) t)"

definition new_cred :: "uuid \<Rightarrow> uuid \<Rightarrow> bytes \<Rightarrow> string option \<Rightarrow> time option \<Rightarrow> cred_row" where
  "new_cred newid repo hash label expires =
     \<lparr>c_id = newid, c_repo = repo, c_hash = hash, c_label = label, c_last_used = None, c_expires = expires\<rparr>"

definition create_service_token :: "uuid \<Rightarrow> (bytes \<Rightarrow> bytes) \<Rightarrow> string \<Rightarrow> time \<Rightarrow> db \<Rightarrow> uuid \<Rightarrow> string option \<Rightarrow> int option
    \<Rightarrow> (sql_error, (string \<times> uuid) \<times> db) result" where
  "create_service_token newid sha secret now db repo label expires_days =
     and_then (expiry_in_days now expires_days) (\<lambda>e.
       and_then (insert_cred ''service_tokens'' (new_cred newid repo (token_hash sha secret) label e) db (service_tokens db))
         (\<lambda>t. Inr ((secret, newid), db\<lparr>service_tokens := t\<rparr>)))"

definition resolve_service_token :: "(bytes \<Rightarrow> bytes) \<Rightarrow> time \<Rightarrow> db \<Rightarrow> string \<Rightarrow> uuid option \<times> db" where
  "resolve_service_token sha now db token =
     (case resolve_cred sha now token (service_tokens db) of (r, t) \<Rightarrow> (r, db\<lparr>service_tokens := t\<rparr>))"

definition create_publish_token :: "uuid \<Rightarrow> (bytes \<Rightarrow> bytes) \<Rightarrow> string \<Rightarrow> time \<Rightarrow> db \<Rightarrow> uuid \<Rightarrow> string \<Rightarrow> int
    \<Rightarrow> (sql_error, string \<times> db) result" where
  "create_publish_token newid sha secret now db repo label ttl =
     and_then (insert_cred ''publish_tokens'' (new_cred newid repo (token_hash sha secret) (Some label) (Some (now + ttl))) db (publish_tokens db))
       (\<lambda>t. Inr (secret, db\<lparr>publish_tokens := t\<rparr>))"

definition resolve_publish_token :: "(bytes \<Rightarrow> bytes) \<Rightarrow> time \<Rightarrow> db \<Rightarrow> string \<Rightarrow> uuid option \<times> db" where
  "resolve_publish_token sha now db token =
     (case resolve_cred sha now token (publish_tokens db) of (r, t) \<Rightarrow> (r, db\<lparr>publish_tokens := t\<rparr>))"

definition list_service_tokens :: "db \<Rightarrow> uuid \<Rightarrow> cred_row list" where
  "list_service_tokens db repo = rev (filter (\<lambda>c. c_repo c = repo) (service_tokens db))"

definition revoke_service_token :: "db \<Rightarrow> uuid \<Rightarrow> uuid \<Rightarrow> bool \<times> db" where
  "revoke_service_token db repo token =
     (exists_where (\<lambda>c. c_id c = token \<and> c_repo c = repo) (service_tokens db),
      db\<lparr>service_tokens := del_where (\<lambda>c. c_id c = token \<and> c_repo c = repo) (service_tokens db)\<rparr>)"

section \<open>Handlers and commands\<close>

text \<open>\<open>.map(trim).filter(nonempty)\<close> of an optional form field.\<close>

definition form_field :: "string option \<Rightarrow> string option" where
  "form_field x = (case map_option trim x of Some [] \<Rightarrow> None | t \<Rightarrow> t)"

text \<open>\<open>.map(parse::<i64>).transpose()?.filter(|d| d > 0)\<close>\<close>

definition positive_i64 :: "string option \<Rightarrow> (status, int option) result" where
  "positive_i64 x = (case form_field x of None \<Rightarrow> Inr None
     | Some t \<Rightarrow> (case parse_int 64 t of None \<Rightarrow> Inl BadRequest | Some d \<Rightarrow> Inr (if d > 0 then Some d else None)))"

fun token_status :: "(create_token_error, 'a) result \<Rightarrow> (status, (string, 'a) result) result" where
  "token_status (Inr x) = Inr (Inr x)"
| "token_status (Inl (TokenPolicy m)) = Inr (Inl m)"
| "token_status (Inl (TokenDb _)) = Inl ServerError"

definition ui_create_token :: "uuid \<Rightarrow> (bytes \<Rightarrow> bytes) \<Rightarrow> string \<Rightarrow> time \<Rightarrow> db \<Rightarrow> current_user \<Rightarrow> string \<Rightarrow> string
    \<Rightarrow> string option \<Rightarrow> string option \<Rightarrow> (status, (string, string \<times> db) result) result" where
  "ui_create_token newid sha secret now db user org repo label expires_days =
     and_then (lookup_admin db user org repo) (\<lambda>r. and_then (positive_i64 expires_days) (\<lambda>d.
       token_status (create_token newid sha secret now db (rs_id r) (form_field label) d)))"

definition ui_revoke_token :: "db \<Rightarrow> current_user \<Rightarrow> string \<Rightarrow> string \<Rightarrow> uuid option \<Rightarrow> (status, db) result" where
  "ui_revoke_token db user org repo parsed =
     and_then (lookup_admin db user org repo) (\<lambda>r. and_then (ok_or BadRequest parsed) (\<lambda>t. Inr (snd (revoke_token db (rs_id r) t))))"

definition parse_cooldown :: "string option \<Rightarrow> (status, int option) result" where
  "parse_cooldown x = (case form_field x of None \<Rightarrow> Inr None
     | Some d \<Rightarrow> (case parse_int 32 d of None \<Rightarrow> Inl BadRequest | Some n \<Rightarrow> Inr (Some n)))"

definition ui_set_token_policy :: "db \<Rightarrow> current_user \<Rightarrow> string \<Rightarrow> string \<Rightarrow> string \<Rightarrow> string \<Rightarrow> string option \<Rightarrow> (status, db) result" where
  "ui_set_token_policy db user org repo label mode cooldown =
     and_then (lookup_admin db user org repo) (\<lambda>r.
       if mode \<notin> {''auto'', ''manual'', ''delayed'', []} then Inl BadRequest
       else and_then (parse_cooldown cooldown) (\<lambda>c.
         case set_token_policy db (rs_id r) label \<lparr>po_mode = (if mode = [] then None else Some mode), po_cooldown = c\<rparr> of
           Inl _ \<Rightarrow> Inl ServerError | Inr (_, db) \<Rightarrow> Inr db))"

definition ui_save_org_settings :: "db \<Rightarrow> current_user \<Rightarrow> string \<Rightarrow> bool \<Rightarrow> string option \<Rightarrow> (status, db) result" where
  "ui_save_org_settings db user org allow cap =
     and_then (lookup_org_admin db user org) (\<lambda>g. and_then (positive_i64 cap) (\<lambda>m.
       case set_org_settings db (o_id g) \<lparr>os_allow_raw_tokens = allow, os_max_token_ttl_days = m\<rparr> of
         Inl _ \<Rightarrow> Inl ServerError | Inr db \<Rightarrow> Inr db))"

definition cli_org_settings :: "db \<Rightarrow> string \<Rightarrow> bool option \<Rightarrow> int option \<Rightarrow> (string, db) result" where
  "cli_org_settings db org allow cap =
     and_then (ok_or (''no such org: '' @ org) (List.find (\<lambda>g. o_slug g = org) (list_organizations db))) (\<lambda>g.
       let s = org_settings_of db (o_id g);
           s = (case allow of None \<Rightarrow> s | Some v \<Rightarrow> s\<lparr>os_allow_raw_tokens := v\<rparr>);
           s = (case cap of None \<Rightarrow> s | Some d \<Rightarrow> s\<lparr>os_max_token_ttl_days := (if d > 0 then Some d else None)\<rparr>)
       in if allow = None \<and> cap = None then Inr db
          else case set_org_settings db (o_id g) s of Inl _ \<Rightarrow> Inl ''saving settings'' | Inr db \<Rightarrow> Inr db)"

definition cli_token_create :: "uuid \<Rightarrow> (bytes \<Rightarrow> bytes) \<Rightarrow> string \<Rightarrow> time \<Rightarrow> db \<Rightarrow> uuid \<Rightarrow> string option \<Rightarrow> int option \<Rightarrow> (string, string \<times> db) result" where
  "cli_token_create newid sha secret now db repo label expires_days =
     (case create_token newid sha secret now db repo label expires_days of Inl _ \<Rightarrow> Inl ''creating token'' | Inr x \<Rightarrow> Inr x)"

definition cli_token_policy :: "db \<Rightarrow> uuid \<Rightarrow> string \<Rightarrow> string option \<Rightarrow> int option \<Rightarrow> (string, db) result" where
  "cli_token_policy db repo label mode cooldown =
     (if mode \<notin> {None, Some ''auto'', Some ''manual'', Some ''delayed''} then Inl ''--mode must be auto, manual, or delayed''
      else case set_token_policy db repo label \<lparr>po_mode = mode, po_cooldown = cooldown\<rparr> of
          Inl _ \<Rightarrow> Inl ''setting token policy''
        | Inr (changed, db) \<Rightarrow> if changed then Inr db else Inl (''no token labelled `'' @ label @ ''`''))"

definition cli_token_revoke :: "db \<Rightarrow> uuid \<Rightarrow> uuid \<Rightarrow> (string, db) result" where
  "cli_token_revoke db repo token =
     (case revoke_token db repo token of (True, db) \<Rightarrow> Inr db | (False, _) \<Rightarrow> Inl ''no such token'')"

section \<open>The contract of a bearer credential\<close>

text \<open>
  Several tables hold bearer credentials: a random secret is issued for an owner with an expiry, stored
  by its hash, and later presented. \<open>who\<close> authenticates a secret and stamps its use, \<open>issue\<close> stores one,
  \<open>same\<close> says that two secrets have one hash, \<open>ok\<close> is what the table needs for its owner to resolve.
\<close>

locale bearer =
  fixes who :: "time \<Rightarrow> 's \<Rightarrow> string \<Rightarrow> 'w option \<times> 's"
    and issue :: "'m \<Rightarrow> string \<Rightarrow> 'w \<Rightarrow> time option \<Rightarrow> 's \<Rightarrow> 's"
    and known :: "string \<Rightarrow> 's \<Rightarrow> bool"
    and same :: "string \<Rightarrow> string \<Rightarrow> bool"
    and ok :: "'s \<Rightarrow> bool"
  assumes who_issued: "ok s \<Longrightarrow> \<not> known k s \<Longrightarrow> fst (who now (issue m k w e s) k) = (if live now e then Some w else None)"
    and who_other: "\<not> same k k' \<Longrightarrow> fst (who now (issue m k w e s) k') = fst (who now s k')"
    and who_keeps: "fst (who now' (snd (who now s k)) k') = fst (who now' s k')"
    and who_unknown: "\<not> known k s \<Longrightarrow> fst (who now s k) = None"
begin

definition uses :: "(time \<times> string) list \<Rightarrow> 's \<Rightarrow> 's" where
  "uses us s = fold (\<lambda>(t, k) s. snd (who t s k)) us s"

definition issues :: "('m \<times> string \<times> 'w \<times> time option) list \<Rightarrow> 's \<Rightarrow> 's" where
  "issues is s = fold (\<lambda>(m, k, w, e). issue m k w e) is s"

lemma who_uses: "fst (who now (uses us s) k) = fst (who now s k)"
  by (induction us arbitrary: s) (auto simp: uses_def who_keeps split: prod.splits)

text \<open>An issued credential authenticates its owner until it expires, however often credentials are used.\<close>

lemma valid_until_expiry:
  "ok s \<Longrightarrow> \<not> known k s \<Longrightarrow> fst (who now (uses us (issue m k w e s)) k) = (if live now e then Some w else None)"
  by (simp add: who_uses who_issued)

text \<open>A secret that hashes to none of the issued ones authenticates nobody.\<close>

lemma who_issues:
  "(\<And>m k w e. (m, k, w, e) \<in> set is \<Longrightarrow> \<not> same k k') \<Longrightarrow> fst (who now (issues is s) k') = fst (who now s k')"
proof (induction "is" arbitrary: s)
  case (Cons i "is")
  obtain m k w e where i: "i = (m, k, w, e)" by (cases i)
  have "fst (who now (issues is (issue m k w e s)) k') = fst (who now (issue m k w e s) k')"
    using Cons.prems by (intro Cons.IH) auto
  moreover have "\<not> same k k'" using Cons.prems i by auto
  ultimately show ?case by (simp add: issues_def i who_other)
qed (simp add: issues_def)

lemma unguessed:
  assumes "\<not> known k' s" "fst (who now (uses us (issues is s)) k') = Some w"
  shows "\<exists>(m, k, w, e)\<in>set is. same k k'"
  using assms who_issues[of "is" k' now s] by (auto simp: who_uses who_unknown)

end

lemma select_one_hash:
  assumes "\<not> exists_where (\<lambda>x. h x = k) t" "h r = k"
  shows "select_one (\<lambda>x. h x = k \<and> P x) (t @ [r]) = (if P r then Some r else None)"
proof -
  have none: "select_one (\<lambda>x. h x = k \<and> P x) t = None" using assms(1) by (auto simp: select_one_None)
  show ?thesis using assms(2) by (simp add: select_one_append none select_one_Cons)
qed

lemma select_one_skip: "\<not> P r \<Longrightarrow> select_one P (t @ [r]) = select_one P t"
  by (induction t) (auto simp: select_one_Cons)

lemma select_stamped_cred:
  "map_option c_repo (select_one (\<lambda>c. c_hash c = h \<and> live now (c_expires c)) (upd_where Q (\<lambda>c. c\<lparr>c_last_used := u\<rparr>) t)) =
   map_option c_repo (select_one (\<lambda>c. c_hash c = h \<and> live now (c_expires c)) t)"
  by (induction t) (auto simp: table_simps)

definition issue_service :: "(bytes \<Rightarrow> bytes) \<Rightarrow> uuid \<times> string option \<Rightarrow> string \<Rightarrow> uuid \<Rightarrow> time option \<Rightarrow> db \<Rightarrow> db" where
  "issue_service sha m k w e db = db\<lparr>service_tokens := service_tokens db @ [new_cred (fst m) w (token_hash sha k) (snd m) e]\<rparr>"

definition issue_publish :: "(bytes \<Rightarrow> bytes) \<Rightarrow> uuid \<times> string option \<Rightarrow> string \<Rightarrow> uuid \<Rightarrow> time option \<Rightarrow> db \<Rightarrow> db" where
  "issue_publish sha m k w e db = db\<lparr>publish_tokens := publish_tokens db @ [new_cred (fst m) w (token_hash sha k) (snd m) e]\<rparr>"

interpretation service: bearer "resolve_service_token sha" "issue_service sha"
    "\<lambda>k db. exists_where (\<lambda>c. c_hash c = token_hash sha k) (service_tokens db)"
    "\<lambda>k k'. token_hash sha k = token_hash sha k'" "\<lambda>_. True" for sha
  by unfold_locales
    (auto simp: resolve_service_token_def resolve_cred_def issue_service_def select_stamped_cred
      cred_matches_def[abs_def] new_cred_def select_one_hash select_one_skip select_one_None)

interpretation publish: bearer "resolve_publish_token sha" "issue_publish sha"
    "\<lambda>k db. exists_where (\<lambda>c. c_hash c = token_hash sha k) (publish_tokens db)"
    "\<lambda>k k'. token_hash sha k = token_hash sha k'" "\<lambda>_. True" for sha
  by unfold_locales
    (auto simp: resolve_publish_token_def resolve_cred_def issue_publish_def select_stamped_cred
      cred_matches_def[abs_def] new_cred_def select_one_hash select_one_skip select_one_None)

definition read_who :: "(bytes \<Rightarrow> bytes) \<Rightarrow> uuid \<Rightarrow> time \<Rightarrow> db \<Rightarrow> string \<Rightarrow> unit option \<times> db" where
  "read_who sha repo now db k = (case token_valid sha now db repo k of (b, db) \<Rightarrow> (if b then Some () else None, db))"

definition issue_read :: "(bytes \<Rightarrow> bytes) \<Rightarrow> uuid \<Rightarrow> token_row \<Rightarrow> string \<Rightarrow> unit \<Rightarrow> time option \<Rightarrow> db \<Rightarrow> db" where
  "issue_read sha repo m k w e db =
     db\<lparr>tokens := tokens db @ [m\<lparr>t_hash := token_hash sha k, t_repo := Some repo, t_org := None, t_expires := e\<rparr>]\<rparr>"

lemma token_covers_cong: "repos db' = repos db \<Longrightarrow> token_covers db' repo t = token_covers db repo t"
  by (simp add: token_covers_def)

lemma exists_stamped:
  "(\<And>t. P (t\<lparr>t_last_used := u\<rparr>) = P t) \<Longrightarrow>
   exists_where P (upd_where Q (\<lambda>t. t\<lparr>t_last_used := u\<rparr>) ts) = exists_where P ts"
  by (induction ts) (auto simp: table_simps)

interpretation read_token: bearer "read_who sha repo" "issue_read sha repo"
    "\<lambda>k db. exists_where (\<lambda>t. t_hash t = token_hash sha k) (tokens db)"
    "\<lambda>k k'. token_hash sha k = token_hash sha k'" "\<lambda>db. repo_named db repo \<noteq> None" for sha repo
proof
  fix s :: db and k k' m w e and now now' :: time
  show "fst (read_who sha repo now (issue_read sha repo m k w e s) k) = (if live now e then Some w else None)"
    if "repo_named s repo \<noteq> None" "\<not> exists_where (\<lambda>t. t_hash t = token_hash sha k) (tokens s)"
    using that by (auto simp: read_who_def token_valid_def issue_read_def token_matches_def token_covers_def repo_named_def dest!: select_one_Some)
  show "fst (read_who sha repo now (issue_read sha repo m k w e s) k') = fst (read_who sha repo now s k')"
    if "token_hash sha k \<noteq> token_hash sha k'"
    using that by (auto simp: read_who_def token_valid_def issue_read_def token_matches_def token_covers_def)
  show "fst (read_who sha repo now' (snd (read_who sha repo now s k)) k') = fst (read_who sha repo now' s k')"
    by (simp add: read_who_def token_valid_def stamp_tokens_def exists_stamped token_matches_def[abs_def] token_covers_def
        del: exists_where_iff)
  show "fst (read_who sha repo now s k) = None" if "\<not> exists_where (\<lambda>t. t_hash t = token_hash sha k) (tokens s)"
    using that by (auto simp: read_who_def token_valid_def token_matches_def)
qed

section \<open>Properties of machine credentials\<close>

lemma insert_token_Inr:
  "insert_token t db = Inr db' \<Longrightarrow> db' = db\<lparr>tokens := tokens db @ [t]\<rparr> \<and> \<not> exists_where (\<lambda>x. t_hash x = t_hash t) (tokens db)"
  by (simp add: insert_token_def split: if_split_asm)

lemma lift_db_Inr [simp]: "lift_db r = Inr x \<longleftrightarrow> r = Inr x"
  by (cases r) simp_all

lemma min_cap_le:
  assumes "min_cap a b = Some c" "x = a \<or> x = b" "x = Some y"
  shows "c \<le> y"
  using assms by (cases a; cases b) auto

lemma min_cap_Some: "a \<noteq> None \<or> b \<noteq> None \<longleftrightarrow> min_cap a b \<noteq> None"
  by (cases a; cases b) auto

text \<open>C39: a token created by hand exists only where both the organization and the repository allow raw
  tokens, and expires within every limit either of them sets; a repository can tighten the
  organization's policy and never loosen it.\<close>

theorem manual_token_policy:
  assumes "create_token i sha secret now db repo label d = Inr (k, db')"
  shows "\<exists>r t. repo_named db repo = Some r \<and> tokens db' = tokens db @ [t] \<and> t_repo t = Some repo \<and> t_hash t = token_hash sha k
    \<and> os_allow_raw_tokens (org_settings_of db (r_org r)) \<and> r_allow_raw r \<noteq> Some False
    \<and> (\<forall>cap. cap = os_max_token_ttl_days (org_settings_of db (r_org r)) \<or> cap = r_max_ttl r \<longrightarrow>
        (case cap of None \<Rightarrow> True | Some n \<Rightarrow> \<exists>e. t_expires t = Some e \<and> e \<le> now + days n))"
proof -
  obtain r where r: "repo_named db repo = Some r"
    using assms by (auto simp: create_token_def effective_token_policy_def and_then_Inr_iff)
  define s where "s = org_settings_of db (r_org r)"
  have eff: "effective_token_policy db repo = Inr \<lparr>os_allow_raw_tokens = os_allow_raw_tokens s \<and> r_allow_raw r \<noteq> Some False,
      os_max_token_ttl_days = min_cap (os_max_token_ttl_days s) (r_max_ttl r)\<rparr>"
    by (auto simp: effective_token_policy_def r s_def org_settings_of_def default_org_settings_def split: option.splits)
  obtain e where pol: "check_token_policy \<lparr>os_allow_raw_tokens = os_allow_raw_tokens s \<and> r_allow_raw r \<noteq> Some False,
      os_max_token_ttl_days = min_cap (os_max_token_ttl_days s) (r_max_ttl r)\<rparr> d = Inr ()"
    and e: "expiry_in_days now d = Inr e" and k: "k = secret"
    and ins: "insert_token (new_token i (token_hash sha secret) label (Some repo) None ''manual'' now e) db = Inr db'"
    using assms by (auto simp: create_token_def eff and_then_Inr_iff)
  have allow: "os_allow_raw_tokens s" "r_allow_raw r \<noteq> Some False" using pol by (auto simp: check_token_policy_def split: if_splits)
  have "\<exists>x. e = Some x \<and> x \<le> now + days n" if q: "c = os_max_token_ttl_days s \<or> c = r_max_ttl r" "c = Some n" for c n
  proof -
    obtain m where m: "min_cap (os_max_token_ttl_days s) (r_max_ttl r) = Some m"
      using q min_cap_Some[of "os_max_token_ttl_days s" "r_max_ttl r"] by fastforce
    then obtain x where "d = Some x" "x \<le> m" using pol by (auto simp: check_token_policy_def split: if_splits option.splits)
    moreover have "m \<le> n" using min_cap_le[OF m q] .
    ultimately show ?thesis using e by (auto simp: expiry_in_days_def days_def split: if_splits)
  qed
  then show ?thesis using insert_token_Inr[OF ins] allow r k unfolding s_def
    by (intro exI[of _ r] exI[of _ "new_token i (token_hash sha secret) label (Some repo) None ''manual'' now e"])
      (auto simp: new_token_def split: option.splits)
qed

definition demo_strict :: db where
  "demo_strict = demo_names\<lparr>org_settings_t := [\<lparr>os_org = 1, os_allow_raw = True, os_max_ttl = Some 90\<rparr>],
     repos := [(new_repo 10 1 ''main'')\<lparr>r_max_ttl := Some 30\<rparr>]\<rparr>"

lemma manual_token_policy_witness:
  "(\<exists>r (t :: token_row). repo_named demo_strict 10 = Some r \<and> t_repo t = Some 10 \<and> t_hash t = str_bytes ''s'' \<and> r_allow_raw r \<noteq> Some False)
    \<and> isl (create_token 7 (\<lambda>b. b) ''s'' 0 demo_strict 10 None (Some 60))"
proof
  have "\<not> isl (create_token 7 (\<lambda>b. b) ''s'' 0 demo_strict 10 None (Some 20))" by code_simp
  then obtain x where x: "create_token 7 (\<lambda>b. b) ''s'' 0 demo_strict 10 None (Some 20) = Inr x" by (rule not_islE)
  obtain k db' where kd: "x = (k, db')" by (cases x)
  have "k = ''s''" using x by (auto simp: kd create_token_def and_then_Inr_iff)
  moreover obtain r and t :: token_row where h: "repo_named demo_strict 10 = Some r" "t_repo t = Some 10" "t_hash t = token_hash (\<lambda>b. b) k"
      "r_allow_raw r \<noteq> Some False"
    using manual_token_policy[OF x[unfolded kd]] by (elim exE conjE) (rule that, assumption+)
  ultimately have "t_hash t = str_bytes ''s''" by (simp add: token_hash_def)
  with h show "\<exists>r (t :: token_row). repo_named demo_strict 10 = Some r \<and> t_repo t = Some 10 \<and> t_hash t = str_bytes ''s'' \<and> r_allow_raw r \<noteq> Some False"
    by (intro exI conjI)
qed code_simp

text \<open>A service token authenticates its repository until it expires, whatever credentials are used in
  between, and issuing one changes nothing about which read or publish tokens are accepted.\<close>

theorem service_token_lifetime:
  assumes "create_service_token i sha secret now db repo label d = Inr ((k, i'), db')"
  shows "fst (resolve_service_token sha t (fold (\<lambda>(t, k) db. snd (resolve_service_token sha t db k)) us db') k)
      = (if (case d of None \<Rightarrow> True | Some n \<Rightarrow> t < now + days n) then Some repo else None)
    \<and> fst (token_valid sha t db' r key) = fst (token_valid sha t db r key)
    \<and> fst (resolve_publish_token sha t db' key) = fst (resolve_publish_token sha t db key)"
proof -
  obtain e where e: "expiry_in_days now d = Inr e" and k: "k = secret"
    and fresh: "\<not> exists_where (\<lambda>c. c_hash c = token_hash sha secret) (service_tokens db)"
    and db': "db' = issue_service sha (i, label) secret repo e db"
    using assms by (auto simp: create_service_token_def insert_cred_def and_then_Inr_iff issue_service_def new_cred_def split: if_splits)
  have "live t e = (case d of None \<Rightarrow> True | Some n \<Rightarrow> t < now + days n)"
    using e by (auto simp: expiry_in_days_def live_def split: option.splits if_splits)
  moreover have "fst (token_valid sha t db' r key) = fst (token_valid sha t db r key)"
    by (simp add: db' issue_service_def token_valid_def token_matches_def token_covers_def)
  moreover have "fst (resolve_publish_token sha t db' key) = fst (resolve_publish_token sha t db key)"
    by (simp add: db' issue_service_def resolve_publish_token_def split: prod.splits)
  ultimately show ?thesis
    using service.valid_until_expiry[OF TrueI fresh, of t us "(i, label)" repo e] by (simp add: service.uses_def db' k)
qed

lemma service_token_lifetime_witness:
  "\<exists>db'. create_service_token 7 (\<lambda>b. b) ''s'' 0 demo_names 10 None (Some 1) = Inr ((''s'', 7), db')
    \<and> fst (resolve_service_token (\<lambda>b. b) 86399 (snd (resolve_service_token (\<lambda>b. b) 5 db' ''x'')) ''s'') = Some 10"
proof -
  have "map_option fst (case create_service_token 7 (\<lambda>b. b) ''s'' 0 demo_names 10 None (Some 1) of Inl _ \<Rightarrow> None | Inr x \<Rightarrow> Some x)
    = Some (''s'', 7)" by code_simp
  then obtain db' where d: "create_service_token 7 (\<lambda>b. b) ''s'' 0 demo_names 10 None (Some 1) = Inr ((''s'', 7), db')"
    by (auto split: sum.splits)
  from service_token_lifetime[OF this, of 86399 "[(5, ''x'')]"] have
    "fst (resolve_service_token (\<lambda>b. b) 86399 (snd (resolve_service_token (\<lambda>b. b) 5 db' ''x'')) ''s'') = Some 10"
    by (simp add: days_def)
  with d show ?thesis by blast
qed

end
