(* ===== verification/Login.thy ===== *)
theory Login
  imports Tokens Packages "HOL-Library.AList"
begin

text \<open>
  How machines and people obtain credentials over HTTP: the CI token exchange (\<open>ci.rs\<close>, \<open>ci_match\<close>,
  \<open>oauth_ci\<close>), device login (\<open>start_device_flow\<close> to \<open>poll_device_flow\<close>, \<open>oauth_device_token\<close>, the
  dashboard's \<open>device_approve\<close>), token introspection for a relay, and single sign-on (\<open>auth_start\<close>,
  \<open>auth_callback\<close>, \<open>save_oidc\<close> of \<open>ui.rs\<close> over the catalog's connections and flows).

  Fetching JWKS and checking a JWT (\<open>jsonwebtoken\<close>) are \<open>fetch\<close> and \<open>verify\<close>; an identity provider is
  \<open>finish\<close>, from a connection, client secret, code, nonce and verifier to the email it asserts; the
  at-rest cipher is \<open>dec\<close>.
\<close>

section \<open>CI exchange\<close>

definition ci_checks :: "ci_policy_row \<Rightarrow> bool" where
  "ci_checks c \<longleftrightarrow> ci_capability c \<in> {''read'', ''publish''} \<and> ci_scope c \<in> {''repo'', ''org''}"

definition add_ci_policy :: "db \<Rightarrow> ci_policy_row \<Rightarrow> (sql_error, db) result" where
  "add_ci_policy db c =
     (if \<not> ci_checks c then Inl (CheckViolation ''ci_oidc_policies'')
      else if repo_named db (ci_repo c) = None then Inl (ForeignKeyViolation ''ci_oidc_policies'')
      else Inr (db\<lparr>ci_policies_t := ci_policies_t db @ [c]\<rparr>))"

definition ci_policies :: "db \<Rightarrow> uuid \<Rightarrow> ci_policy_row list" where
  "ci_policies db repo = filter (\<lambda>c. ci_repo c = repo) (ci_policies_t db)"

definition org_id_for_repo :: "db \<Rightarrow> uuid \<Rightarrow> uuid option" where
  "org_id_for_repo db repo = map_option r_org (repo_named db repo)"

definition delete_ci_policy :: "db \<Rightarrow> uuid \<Rightarrow> uuid \<Rightarrow> bool \<times> db" where
  "delete_ci_policy db repo i =
     (exists_where (\<lambda>c. ci_repo c = repo \<and> ci_id c = i) (ci_policies_t db),
      db\<lparr>ci_policies_t := del_where (\<lambda>c. ci_repo c = repo \<and> ci_id c = i) (ci_policies_t db)\<rparr>)"

text \<open>\<open>serde_json::Map::insert\<close>\<close>

definition claim_pair :: "string \<Rightarrow> (string \<times> json) list \<Rightarrow> (string \<times> json) list" where
  "claim_pair pair m = (case split_once (CHR ''='') pair of None \<Rightarrow> m
     | Some (k, v) \<Rightarrow> if trim k = [] then m else AList.update (trim k) (JStr (trim v)) m)"

definition parse_claims :: "string \<Rightarrow> json" where
  "parse_claims raw = JObj (fold claim_pair (split_on (CHR '','') raw) [])"

definition ui_add_ci :: "uuid \<Rightarrow> db \<Rightarrow> current_user \<Rightarrow> string \<Rightarrow> string \<Rightarrow> string \<Rightarrow> string \<Rightarrow> string
    \<Rightarrow> string option \<Rightarrow> string option \<Rightarrow> string option \<Rightarrow> (status, db) result" where
  "ui_add_ci newid db user org repo provider issuer audience claims ttl capability =
     and_then (lookup_admin db user org repo) (\<lambda>r.
       if provider \<notin> {''github'', ''gitlab''} then Inl BadRequest
       else and_then (case coalesce capability ''read'' of c \<Rightarrow>
           if c \<in> {[], ''read''} then Inr ''read'' else if c = ''publish'' then Inr ''publish'' else Inl BadRequest) (\<lambda>cap.
         and_then (case form_field ttl of None \<Rightarrow> Inr 900
             | Some t \<Rightarrow> ok_or BadRequest (map_option (max 60) (parse_int 64 t))) (\<lambda>secs.
           case add_ci_policy db \<lparr>ci_id = newid, ci_repo = rs_id r, ci_provider = provider, ci_issuer = trim issuer,
               ci_audience = trim audience, ci_claims = parse_claims (coalesce claims []), ci_ttl = secs,
               ci_capability = cap, ci_scope = ''repo''\<rparr> of
             Inl _ \<Rightarrow> Inl ServerError | Inr db \<Rightarrow> Inr db)))"

definition ui_remove_ci :: "db \<Rightarrow> current_user \<Rightarrow> string \<Rightarrow> string \<Rightarrow> uuid option \<Rightarrow> (status, db) result" where
  "ui_remove_ci db user org repo parsed =
     and_then (lookup_admin db user org repo) (\<lambda>r. and_then (ok_or BadRequest parsed) (\<lambda>i. Inr (snd (delete_ci_policy db (rs_id r) i))))"

definition cli_ci_policy_add :: "uuid \<Rightarrow> db \<Rightarrow> uuid \<Rightarrow> string \<Rightarrow> string \<Rightarrow> string \<Rightarrow> (string \<times> string) list \<Rightarrow> int
    \<Rightarrow> string \<Rightarrow> string \<Rightarrow> (string, db) result" where
  "cli_ci_policy_add newid db repo provider issuer audience claims ttl capability token_scope =
     (if capability \<notin> {''read'', ''publish''} then Inl ''--capability must be read or publish''
      else if token_scope \<notin> {''repo'', ''org''} then Inl ''--scope must be repo or org''
      else if token_scope = ''org'' \<and> capability \<noteq> ''read'' then Inl ''--scope org is only valid for --capability read''
      else case add_ci_policy db \<lparr>ci_id = newid, ci_repo = repo, ci_provider = provider, ci_issuer = issuer,
          ci_audience = audience, ci_claims = JObj (fold (\<lambda>(k, v). AList.update k (JStr v)) claims []), ci_ttl = ttl,
          ci_capability = capability, ci_scope = token_scope\<rparr> of
        Inl _ \<Rightarrow> Inl ''adding CI policy'' | Inr db \<Rightarrow> Inr db)"

fun claims_match :: "json \<Rightarrow> json \<Rightarrow> bool" where
  "claims_match claims (JObj m) = list_all (\<lambda>(k, want). json_get k claims = Some want) m"
| "claims_match claims _ = True"

record ci_match =
  cm_repo :: uuid
  cm_label :: string
  cm_ttl :: int
  cm_scope :: string

type_synonym 'j jwt_check = "(string \<Rightarrow> 'j option) \<times> (string \<Rightarrow> 'j \<Rightarrow> string \<Rightarrow> string \<Rightarrow> json option)"

definition ci_accepts :: "'j jwt_check \<Rightarrow> string \<Rightarrow> string \<Rightarrow> ci_policy_row \<Rightarrow> json option" where
  "ci_accepts jc capability jwt p =
     (if ci_capability p \<noteq> capability then None
      else case fst jc (ci_issuer p) of None \<Rightarrow> None
      | Some jwks \<Rightarrow> (case snd jc jwt jwks (ci_issuer p) (ci_audience p) of None \<Rightarrow> None
         | Some claims \<Rightarrow> if claims_match claims (ci_claims p) then Some claims else None))"

fun first_match :: "'j jwt_check \<Rightarrow> string \<Rightarrow> string \<Rightarrow> uuid \<Rightarrow> ci_policy_row list \<Rightarrow> ci_match option" where
  "first_match jc capability jwt repo [] = None"
| "first_match jc capability jwt repo (p # ps) = (case ci_accepts jc capability jwt p of
     None \<Rightarrow> first_match jc capability jwt repo ps
   | Some claims \<Rightarrow> Some \<lparr>cm_repo = repo, cm_label = coalesce (json_str (json_get ''sub'' claims)) ''ci'',
       cm_ttl = ci_ttl p, cm_scope = ci_scope p\<rparr>)"

definition ci_match_of :: "'j jwt_check \<Rightarrow> db \<Rightarrow> string \<Rightarrow> string \<Rightarrow> string \<Rightarrow> (status, ci_match option) result" where
  "ci_match_of jc db repository jwt capability =
     and_then (ok_or NotFound (split_once (CHR ''/'') repository)) (\<lambda>(org, repo).
       and_then (ok_or NotFound (resolve_repo db org repo)) (\<lambda>repo_id.
         Inr (first_match jc capability jwt repo_id (ci_policies db repo_id))))"

fun db_status :: "(sql_error, 'a) result \<Rightarrow> (status, 'a) result" where
  "db_status (Inl _) = Inl ServerError"
| "db_status (Inr x) = Inr x"

definition oauth_ci :: "'j jwt_check \<Rightarrow> uuid \<Rightarrow> (bytes \<Rightarrow> bytes) \<Rightarrow> string \<Rightarrow> time \<Rightarrow> db \<Rightarrow> string \<Rightarrow> string
    \<Rightarrow> (status, (string \<times> int) \<times> db) result" where
  "oauth_ci jc newid sha secret now db repository jwt = and_then (ci_match_of jc db repository jwt ''read'') (\<lambda>m. case m of
     None \<Rightarrow> Inl Unauthorized
   | Some m \<Rightarrow> and_then (if cm_scope m = ''org''
        then and_then (ok_or NotFound (org_id_for_repo db (cm_repo m))) (\<lambda>g.
          db_status (create_org_ci_token newid sha secret now db g (cm_label m) (cm_ttl m)))
        else db_status (create_ci_token newid sha secret now db (cm_repo m) (cm_label m) (cm_ttl m)))
      (\<lambda>(token, db). Inr ((token, cm_ttl m), db)))"

definition oauth_ci_publish :: "'j jwt_check \<Rightarrow> uuid \<Rightarrow> (bytes \<Rightarrow> bytes) \<Rightarrow> string \<Rightarrow> time \<Rightarrow> db \<Rightarrow> string \<Rightarrow> string
    \<Rightarrow> (status, (string \<times> int) \<times> db) result" where
  "oauth_ci_publish jc newid sha secret now db repository jwt = and_then (ci_match_of jc db repository jwt ''publish'') (\<lambda>m. case m of
     None \<Rightarrow> Inl Unauthorized
   | Some m \<Rightarrow> and_then (db_status (create_publish_token newid sha secret now db (cm_repo m) (cm_label m) (cm_ttl m)))
      (\<lambda>(token, db). Inr ((token, cm_ttl m), db)))"

section \<open>Device login\<close>

definition DEVICE_FLOW_TTL_SECS :: int where "DEVICE_FLOW_TTL_SECS = 600"
definition DEVICE_TOKEN_TTL_SECS :: int where "DEVICE_TOKEN_TTL_SECS = 90 * 24 * 60 * 60"

definition start_device_flow :: "(bytes \<Rightarrow> bytes) \<Rightarrow> string \<Rightarrow> string \<Rightarrow> time \<Rightarrow> db \<Rightarrow> int \<Rightarrow> (sql_error, db) result" where
  "start_device_flow sha device_code user_code now db ttl =
     (if exists_where (\<lambda>d. df_hash d = token_hash sha device_code) (devices db) then Inl (UniqueViolation ''device_flows_pkey'')
      else if exists_where (\<lambda>d. df_user_code d = user_code) (devices db) then Inl (UniqueViolation ''device_flows_user_code_key'')
      else Inr (db\<lparr>devices := devices db @ [\<lparr>df_hash = token_hash sha device_code, df_user_code = user_code,
        df_status = ''pending'', df_org = None, df_approved_by = None, df_expires = now + ttl\<rparr>]\<rparr>))"

definition awaiting :: "time \<Rightarrow> string \<Rightarrow> device_row \<Rightarrow> bool" where
  "awaiting now user_code d \<longleftrightarrow> df_user_code d = user_code \<and> df_status d = ''pending'' \<and> df_expires d > now"

definition device_flow_pending :: "time \<Rightarrow> db \<Rightarrow> string \<Rightarrow> bool" where
  "device_flow_pending now db user_code \<longleftrightarrow> exists_where (awaiting now user_code) (devices db)"

definition approve_device_flow :: "time \<Rightarrow> db \<Rightarrow> string \<Rightarrow> uuid \<Rightarrow> uuid option \<Rightarrow> bool \<times> db" where
  "approve_device_flow now db user_code org by =
     (exists_where (awaiting now user_code) (devices db),
      db\<lparr>devices := upd_where (awaiting now user_code)
        (\<lambda>d. d\<lparr>df_status := ''approved'', df_org := Some org, df_approved_by := by\<rparr>) (devices db)\<rparr>)"

definition deny_device_flow :: "time \<Rightarrow> db \<Rightarrow> string \<Rightarrow> db" where
  "deny_device_flow now db user_code =
     db\<lparr>devices := upd_where (awaiting now user_code) (\<lambda>d. d\<lparr>df_status := ''denied''\<rparr>) (devices db)\<rparr>"

datatype device_poll = Approved uuid | Pending | DeniedByUser | Expired

definition claimable :: "(bytes \<Rightarrow> bytes) \<Rightarrow> time \<Rightarrow> string \<Rightarrow> device_row \<Rightarrow> bool" where
  "claimable sha now device_code d \<longleftrightarrow> df_hash d = token_hash sha device_code \<and> df_status d = ''approved'' \<and> df_expires d > now"

definition poll_device_flow :: "(bytes \<Rightarrow> bytes) \<Rightarrow> time \<Rightarrow> db \<Rightarrow> string \<Rightarrow> (sql_error, device_poll \<times> db) result" where
  "poll_device_flow sha now db device_code =
     (case select_one (claimable sha now device_code) (devices db) of
        Some d \<Rightarrow> (case df_org d of None \<Rightarrow> Inl CastError
          | Some org \<Rightarrow> Inr (Approved org, db\<lparr>devices := del_where (claimable sha now device_code) (devices db)\<rparr>))
      | None \<Rightarrow> (case select_one (\<lambda>d. df_hash d = token_hash sha device_code) (devices db) of
           None \<Rightarrow> Inr (Expired, db)
         | Some d \<Rightarrow> Inr (if \<not> df_expires d > now then Expired
             else if df_status d = ''denied'' then DeniedByUser else Pending, db)))"

record device_start =
  dv_code :: string
  dv_user_code :: string
  dv_uri :: string
  dv_uri_complete :: string
  dv_expires_in :: int
  dv_interval :: int

definition oauth_device :: "(bytes \<Rightarrow> bytes) \<Rightarrow> string \<Rightarrow> string \<Rightarrow> string option \<Rightarrow> string \<Rightarrow> time \<Rightarrow> db
    \<Rightarrow> (status, device_start \<times> db) result" where
  "oauth_device sha device_code user_code ui_base base_url now db =
     and_then (db_status (start_device_flow sha device_code user_code now db DEVICE_FLOW_TTL_SECS)) (\<lambda>db.
       let dashboard = trim_end_char (CHR ''/'') (case ui_base of None \<Rightarrow> base_url
             | Some v \<Rightarrow> if trim v = [] then base_url else v)
       in Inr (\<lparr>dv_code = device_code, dv_user_code = user_code, dv_uri = dashboard @ ''/device'',
         dv_uri_complete = dashboard @ ''/device?code='' @ user_code, dv_expires_in = DEVICE_FLOW_TTL_SECS, dv_interval = 5\<rparr>, db))"

datatype device_reply = DeviceToken string int | DeviceError status string

definition oauth_device_token :: "uuid \<Rightarrow> (bytes \<Rightarrow> bytes) \<Rightarrow> string \<Rightarrow> time \<Rightarrow> db \<Rightarrow> string \<Rightarrow> device_reply \<times> db" where
  "oauth_device_token newid sha secret now db device_code = (case poll_device_flow sha now db device_code of
     Inr (Approved org, db) \<Rightarrow> (case create_session_token newid sha secret now db org ''bougie login'' DEVICE_TOKEN_TTL_SECS of
         Inr (token, db) \<Rightarrow> (DeviceToken token DEVICE_TOKEN_TTL_SECS, db)
       | Inl _ \<Rightarrow> (DeviceError ServerError ''server_error'', db))
   | Inr (Pending, db) \<Rightarrow> (DeviceError BadRequest ''authorization_pending'', db)
   | Inr (DeniedByUser, db) \<Rightarrow> (DeviceError BadRequest ''access_denied'', db)
   | Inr (Expired, db) \<Rightarrow> (DeviceError BadRequest ''expired_token'', db)
   | Inl _ \<Rightarrow> (DeviceError ServerError ''server_error'', db))"

datatype approval = ApprovalDenied | ApprovalBound | ApprovalStale

definition ui_device_approve :: "time \<Rightarrow> db \<Rightarrow> current_user \<Rightarrow> string \<Rightarrow> string \<Rightarrow> string \<Rightarrow> (status, approval \<times> db) result" where
  "ui_device_approve now db user code org action =
     (let code = to_upper (trim code)
      in if action = ''deny'' then Inr (ApprovalDenied, deny_device_flow now db code)
         else and_then (ok_or NotFound (org_id_by_slug db (trim org))) (\<lambda>org_id.
           if \<not> user_can user org_id then Inl Forbidden
           else case approve_device_flow now db code org_id (cu_id user) of
             (True, db) \<Rightarrow> Inr (ApprovalBound, db) | (False, db) \<Rightarrow> Inr (ApprovalStale, db)))"

section \<open>Introspection\<close>

definition secret_digest :: "(bytes \<Rightarrow> bytes) \<Rightarrow> string \<Rightarrow> bytes" where
  "secret_digest sha s = sha (str_bytes s)"

text \<open>\<open>diff |= a[i] ^ b[i]\<close> over the 32 bytes, no early exit.\<close>

definition ct_eq :: "bytes \<Rightarrow> bytes \<Rightarrow> bool" where
  "ct_eq a b \<longleftrightarrow> fold (\<lambda>i diff. or diff (xor (a ! i) (b ! i))) [0..<32] 0 = 0"

function split_seps :: "string list \<Rightarrow> string \<Rightarrow> string \<Rightarrow> string list" where
  "split_seps seps acc [] = [rev acc]"
| "split_seps seps acc (c # s) = (case find (\<lambda>w. w \<noteq> [] \<and> starts_with w (c # s)) seps of
     None \<Rightarrow> split_seps seps (c # acc) s
   | Some w \<Rightarrow> rev acc # split_seps seps [] (drop (length w) (c # s)))"
  by pat_completeness auto
termination
  by (relation "measure (\<lambda>(_, _, s). length s)") (auto dest!: find_SomeD simp: starts_with_iff)

declare split_seps.simps [simp del]

definition parse_introspect_secrets :: "(bytes \<Rightarrow> bytes) \<Rightarrow> string \<Rightarrow> bytes list" where
  "parse_introspect_secrets sha raw = map (secret_digest sha) (filter (\<lambda>s. s \<noteq> []) (split_seps ('','' # utf8_ws) [] raw))"

datatype introspection = IntrospectRefused | Inactive | Active uuid "time option"

definition oauth_introspect :: "(bytes \<Rightarrow> bytes) \<Rightarrow> bytes list \<Rightarrow> time \<Rightarrow> db \<Rightarrow> string option \<Rightarrow> string \<Rightarrow> introspection \<times> db" where
  "oauth_introspect sha secrets now db header token =
     (if secrets = [] then (IntrospectRefused, db)
      else case map_option trim (Option.bind header (strip_prefix ''Bearer '')) of
        None \<Rightarrow> (IntrospectRefused, db)
      | Some presented \<Rightarrow>
          let got = secret_digest sha presented
          in if \<not> fold (\<lambda>expected matched. matched \<or> ct_eq got expected) secrets False then (IntrospectRefused, db)
             else case resolve_org_session_token sha now db token of
                (Some (org, e), db) \<Rightarrow> (Active org e, db) | (None, db) \<Rightarrow> (Inactive, db))"

section \<open>Single sign-on\<close>

definition set_oidc_connection :: "db \<Rightarrow> string option \<Rightarrow> oidc_row \<Rightarrow> (entitlement_error, db) result" where
  "set_oidc_connection db org_slug c =
     (let put = (\<lambda>org. db\<lparr>oidc_flows := del_where (\<lambda>f. exists_where (\<lambda>x. oc_org x = org \<and> of_conn f = Some (oc_id x)) (oidc_conns db)) (oidc_flows db),
           oidc_conns := del_where (\<lambda>x. oc_org x = org) (oidc_conns db) @ [c\<lparr>oc_org := org\<rparr>]\<rparr>)
      in case org_slug of None \<Rightarrow> Inr (put None)
         | Some slug \<Rightarrow> (case org_id_by_slug db slug of None \<Rightarrow> Inl (EntSqlx RowNotFound)
             | Some i \<Rightarrow> and_then (require_feature db i Sso) (\<lambda>_. Inr (put (Some i)))))"

definition oidc_connection :: "db \<Rightarrow> oidc_row option" where
  "oidc_connection db = select_one (\<lambda>c. oc_org c = None) (oidc_conns db)"

definition oidc_connection_for_org :: "db \<Rightarrow> uuid \<Rightarrow> oidc_row option" where
  "oidc_connection_for_org db org = select_one (\<lambda>c. oc_org c = Some org) (oidc_conns db)"

definition oidc_connection_by_id :: "db \<Rightarrow> uuid \<Rightarrow> oidc_row option" where
  "oidc_connection_by_id db i = select_one (\<lambda>c. oc_id c = i) (oidc_conns db)"

definition email_domain :: "string \<Rightarrow> string" where
  "email_domain email = last (split_on (CHR ''@'') email)"

definition oidc_connection_for_email :: "db \<Rightarrow> string \<Rightarrow> uuid option" where
  "oidc_connection_for_email db email = map_option oc_id (case
     select_one (\<lambda>c. oc_org c \<noteq> None \<and> (case oc_allowed c of None \<Rightarrow> False
       | Some ds \<Rightarrow> list_ex (\<lambda>d. ascii_lower d = ascii_lower (email_domain email)) ds)) (oidc_conns db) of
     Some c \<Rightarrow> Some c | None \<Rightarrow> oidc_connection db)"

definition create_oidc_flow :: "time \<Rightarrow> db \<Rightarrow> string \<Rightarrow> uuid option \<Rightarrow> string \<Rightarrow> string \<Rightarrow> string \<Rightarrow> int \<Rightarrow> (sql_error, db) result" where
  "create_oidc_flow now db state conn nonce verifier redirect_to ttl =
     (if exists_where (\<lambda>f. of_state f = state) (oidc_flows db) then Inl (UniqueViolation ''oidc_flows_pkey'')
      else Inr (db\<lparr>oidc_flows := oidc_flows db @ [\<lparr>of_state = state, of_conn = conn, of_nonce = nonce,
        of_verifier = verifier, of_redirect = redirect_to, of_expires = now + ttl\<rparr>]\<rparr>))"

definition consume_oidc_flow :: "time \<Rightarrow> db \<Rightarrow> string \<Rightarrow> oidc_flow_row option \<times> db" where
  "consume_oidc_flow now db state =
     (case select_one (\<lambda>f. of_state f = state) (oidc_flows db) of None \<Rightarrow> None
      | Some f \<Rightarrow> if of_expires f > now then Some f else None,
      db\<lparr>oidc_flows := del_where (\<lambda>f. of_state f = state) (oidc_flows db)\<rparr>)"

definition domain_matches :: "string \<Rightarrow> string list option \<Rightarrow> bool" where
  "domain_matches email domains = (case domains of None \<Rightarrow> False
     | Some ds \<Rightarrow> list_ex (\<lambda>d. ascii_lower d = ascii_lower (email_domain email)) ds)"

definition split_domains :: "string option \<Rightarrow> string list option" where
  "split_domains x = (case x of None \<Rightarrow> None
     | Some v \<Rightarrow> (case filter (\<lambda>d. d \<noteq> []) (map trim (split_on (CHR '','') v)) of [] \<Rightarrow> None | ds \<Rightarrow> Some ds))"

fun ent_status :: "entitlement_error \<Rightarrow> status" where
  "ent_status (Denied _) = Forbidden"
| "ent_status (SkuCapReached _) = Forbidden"
| "ent_status (EntSqlx _) = ServerError"

fun map_err :: "('e \<Rightarrow> 'f) \<Rightarrow> ('e, 'a) result \<Rightarrow> ('f, 'a) result" where
  "map_err f (Inl e) = Inl (f e)"
| "map_err f (Inr x) = Inr x"

record oidc_form =
  fm_issuer :: string
  fm_client :: string
  fm_secret :: "string option"
  fm_redirect :: string
  fm_scopes :: string
  fm_allowed :: "string option"
  fm_admin :: "string option"

definition save_oidc :: "uuid \<Rightarrow> db \<Rightarrow> current_user \<Rightarrow> string \<Rightarrow> oidc_form \<Rightarrow> (status, db) result" where
  "save_oidc newid db user org f = and_then (lookup_org_admin db user org) (\<lambda>g.
     let secret = (case form_field (fm_secret f) of Some s \<Rightarrow> Some (str_bytes s)
           | None \<Rightarrow> Option.bind (oidc_connection_for_org db (o_id g)) oc_secret)
     in map_err ent_status (set_oidc_connection db (Some org) \<lparr>oc_id = newid, oc_org = None, oc_issuer = trim (fm_issuer f),
       oc_client = trim (fm_client f), oc_secret = secret, oc_redirect = trim (fm_redirect f), oc_scopes = trim (fm_scopes f),
       oc_allowed = split_domains (fm_allowed f), oc_admin = split_domains (fm_admin f)\<rparr>))"

definition cli_oidc_config :: "uuid \<Rightarrow> (bytes \<Rightarrow> bytes) option \<Rightarrow> db \<Rightarrow> string option \<Rightarrow> oidc_form \<Rightarrow> (string, db) result" where
  "cli_oidc_config newid enc db org f =
     and_then (case fm_secret f of None \<Rightarrow> Inr None
       | Some s \<Rightarrow> ok_or ''a client secret was given but SCONCE_SECRET_KEY is not set'' (map_option (\<lambda>e. Some (e (str_bytes s))) enc)) (\<lambda>secret.
     let split = map_option (\<lambda>v. filter (\<lambda>d. d \<noteq> []) (map trim (split_on (CHR '','') v)))
     in map_err (\<lambda>_. ''saving OIDC connection'') (set_oidc_connection db org \<lparr>oc_id = newid, oc_org = None, oc_issuer = fm_issuer f,
       oc_client = fm_client f, oc_secret = secret, oc_redirect = fm_redirect f, oc_scopes = fm_scopes f,
       oc_allowed = split (fm_allowed f), oc_admin = split (fm_admin f)\<rparr>))"

definition create_scim_token :: "(bytes \<Rightarrow> bytes) \<Rightarrow> string \<Rightarrow> db \<Rightarrow> string \<Rightarrow> (entitlement_error, string option \<times> db) result" where
  "create_scim_token sha secret db org_slug = (case org_id_by_slug db org_slug of
     None \<Rightarrow> Inr (None, db)
   | Some i \<Rightarrow> and_then (require_feature db i Scim) (\<lambda>_. Inr (Some secret,
       db\<lparr>scim_tokens := (if exists_where (\<lambda>s. sc_org s = i) (scim_tokens db)
         then upd_where (\<lambda>s. sc_org s = i) (\<lambda>s. s\<lparr>sc_hash := token_hash sha secret\<rparr>) (scim_tokens db)
         else scim_tokens db @ [\<lparr>sc_org = i, sc_hash = token_hash sha secret\<rparr>])\<rparr>)))"

definition gen_scim_token :: "(bytes \<Rightarrow> bytes) \<Rightarrow> string \<Rightarrow> db \<Rightarrow> current_user \<Rightarrow> string \<Rightarrow> (status, string \<times> db) result" where
  "gen_scim_token sha secret db user org = and_then (lookup_org_admin db user org) (\<lambda>_.
     and_then (map_err ent_status (create_scim_token sha secret db org)) (\<lambda>(t, db).
       case t of None \<Rightarrow> Inl NotFound | Some t \<Rightarrow> Inr (t, db)))"

definition oidc_secret :: "(bytes \<Rightarrow> string option) option \<Rightarrow> oidc_row \<Rightarrow> (status, string option) result" where
  "oidc_secret dec c = (case oc_secret c of None \<Rightarrow> Inr None
     | Some ct \<Rightarrow> (case dec of None \<Rightarrow> Inl ServerError | Some d \<Rightarrow> ok_or ServerError (map_option Some (d ct))))"

definition find_connection :: "db \<Rightarrow> uuid option \<Rightarrow> (status, oidc_row) result" where
  "find_connection db conn = ok_or NotFound (case conn of Some i \<Rightarrow> oidc_connection_by_id db i | None \<Rightarrow> oidc_connection db)"

record oidc_begin =
  bg_url :: string
  bg_state :: string
  bg_nonce :: string
  bg_verifier :: string

datatype 'a login_reply = LoginPage string | LoginDone 'a

definition auth_start :: "(oidc_row \<Rightarrow> string option \<Rightarrow> (string, oidc_begin) result) \<Rightarrow> (bytes \<Rightarrow> string option) option \<Rightarrow> time \<Rightarrow> db
    \<Rightarrow> uuid option \<Rightarrow> (status, string login_reply \<times> db) result" where
  "auth_start begin_login dec now db conn = and_then (find_connection db conn) (\<lambda>c. and_then (oidc_secret dec c) (\<lambda>secret.
     case begin_login c secret of Inl e \<Rightarrow> Inr (LoginPage (''SSO unavailable: '' @ e), db)
     | Inr b \<Rightarrow> and_then (db_status (create_oidc_flow now db (bg_state b) (Some (oc_id c)) (bg_nonce b) (bg_verifier b) ''/'' 600))
         (\<lambda>db. Inr (LoginDone (bg_url b), db))))"

record sso_login =
  sl_token :: string
  sl_dest :: string

type_synonym idp = "oidc_row \<Rightarrow> string option \<Rightarrow> string \<Rightarrow> string \<Rightarrow> string \<Rightarrow> (string, string) result"

definition sso_session :: "uuid \<Rightarrow> string \<Rightarrow> (bytes \<Rightarrow> bytes) \<Rightarrow> string \<Rightarrow> time \<Rightarrow> db \<Rightarrow> oidc_row \<Rightarrow> string
    \<Rightarrow> (status, string) result \<times> db" where
  "sso_session newid phc sha secret now db c email =
     (case find_or_create_sso_user newid phc db email (domain_matches email (oc_admin c)) of (uid, db) \<Rightarrow>
        (case (case Option.bind (oc_org c) (\<lambda>g. map_option o_slug (select_one (\<lambda>o'. o_id o' = g) (orgs db))) of
            None \<Rightarrow> Inr db
          | Some slug \<Rightarrow> db_status (and_then (add_user_to_tenant db email slug ''member'') (\<lambda>(_, db). Inr db))) of
            Inl e \<Rightarrow> (Inl e, db)
          | Inr db \<Rightarrow> (case db_status (create_session sha secret now db uid 7) of
              Inl e \<Rightarrow> (Inl e, db) | Inr (token, db) \<Rightarrow> (Inr token, db))))"

text \<open>Every call commits on its own: an error later in the handler leaves the flow consumed, and the account
  and membership that were made.\<close>

definition auth_callback :: "uuid \<Rightarrow> string \<Rightarrow> (bytes \<Rightarrow> bytes) \<Rightarrow> string \<Rightarrow> idp \<Rightarrow> (bytes \<Rightarrow> string option) option \<Rightarrow> time \<Rightarrow> db
    \<Rightarrow> string option \<Rightarrow> string option \<Rightarrow> string option \<Rightarrow> (status, sso_login login_reply) result \<times> db" where
  "auth_callback newid phc sha secret finish dec now db code state err =
     (case err of Some e \<Rightarrow> (Inr (LoginPage (''IdP returned an error: '' @ e)), db)
      | None \<Rightarrow> (case (code, state) of
          (Some code, Some state) \<Rightarrow> (case consume_oidc_flow now db state of
             (None, db) \<Rightarrow> (Inr (LoginPage (''login session expired or invalid '' @ [CHR 0xE2, CHR 0x80, CHR 0x94] @ '' try again'')), db)
           | (Some f, db) \<Rightarrow> (case and_then (find_connection db (of_conn f)) (\<lambda>c. and_then (oidc_secret dec c) (\<lambda>cs. Inr (c, cs))) of
               Inl e \<Rightarrow> (Inl e, db)
             | Inr (c, cs) \<Rightarrow> (case finish c cs code (of_nonce f) (of_verifier f) of
                 Inl e \<Rightarrow> (Inr (LoginPage (''SSO failed: '' @ e)), db)
               | Inr email \<Rightarrow>
                   if (case oc_allowed c of None \<Rightarrow> False | Some ds \<Rightarrow> ds \<noteq> []) \<and> \<not> domain_matches email (oc_allowed c)
                   then (Inr (LoginPage ''your email domain is not allowed to sign in''), db)
                   else (case sso_session newid phc sha secret now db c email of
                       (Inl e, db) \<Rightarrow> (Inl e, db)
                     | (Inr token, db) \<Rightarrow>
                         (Inr (LoginDone \<lparr>sl_token = token, sl_dest = (if starts_with ''/'' (of_redirect f) then of_redirect f else ''/'')\<rparr>), db)))))
        | _ \<Rightarrow> (Inl BadRequest, db)))"

section \<open>Device login\<close>

inductive device_run :: "(bytes \<Rightarrow> bytes) \<Rightarrow> db \<Rightarrow> (string \<times> current_user \<times> uuid) list \<Rightarrow> bool" for sha where
  run_empty: "devices db = [] \<Longrightarrow> device_run sha db []"
| run_started: "device_run sha db log \<Longrightarrow> start_device_flow sha code user_code now db ttl = Inr db' \<Longrightarrow> device_run sha db' log"
| run_decided: "device_run sha db log \<Longrightarrow> ui_device_approve now db user code org action = Inr (r, db') \<Longrightarrow>
    log' = (case org_id_by_slug db (trim org) of None \<Rightarrow> log
      | Some i \<Rightarrow> if action \<noteq> ''deny'' \<and> user_can user i then (to_upper (trim code), user, i) # log else log) \<Longrightarrow>
    device_run sha db' log'"
| run_polled: "device_run sha db log \<Longrightarrow> oauth_device_token newid sha secret now db code = (r, db') \<Longrightarrow> device_run sha db' log"

inductive_cases device_runE: "device_run sha db log"

definition approved_by_log :: "(string \<times> current_user \<times> uuid) list \<Rightarrow> device_row \<Rightarrow> bool" where
  "approved_by_log log d \<longleftrightarrow> (df_status d = ''approved'' \<longrightarrow>
     (\<exists>u i. df_org d = Some i \<and> df_approved_by d = cu_id u \<and> user_can u i \<and> (df_user_code d, u, i) \<in> set log))"

definition flows_ok :: "db \<Rightarrow> (string \<times> current_user \<times> uuid) list \<Rightarrow> bool" where
  "flows_ok db log \<longleftrightarrow> distinct (map df_hash (devices db)) \<and> (\<forall>d\<in>set (devices db). approved_by_log log d)"

lemma create_session_token_frame [simp]:
  "create_session_token newid sha secret now db org label ttl = Inr (k, db') \<Longrightarrow> devices db' = devices db"
  by (auto simp: create_session_token_def and_then_Inr_iff dest: insert_token_Inr)

lemma devices_polled:
  assumes "oauth_device_token newid sha secret now db code = (r, db')"
  shows "devices db' = devices db \<or> devices db' = del_where (claimable sha now code) (devices db)"
  using assms by (auto simp: oauth_device_token_def poll_device_flow_def split: sum.splits option.splits device_poll.splits if_splits)

lemma flows_ok_run: "device_run sha db log \<Longrightarrow> flows_ok db log"
proof (induction rule: device_run.induct)
  case (run_empty db)
  then show ?case by (simp add: flows_ok_def)
next
  case (run_started db log code user_code now ttl db')
  have n: "\<not> exists_where (\<lambda>d. df_hash d = token_hash sha code) (devices db)"
    and d: "devices db' = devices db @ [\<lparr>df_hash = token_hash sha code, df_user_code = user_code, df_status = ''pending'',
      df_org = None, df_approved_by = None, df_expires = now + ttl\<rparr>]"
    using run_started.hyps(2) unfolding start_device_flow_def by (simp_all del: exists_where_iff split: if_split_asm) auto
  have "token_hash sha code \<notin> df_hash ` set (devices db)" using n by auto
  then show ?case using run_started.IH unfolding flows_ok_def d by (simp add: approved_by_log_def)
next
  case (run_decided db log now user code org action r db' log')
  let ?code = "to_upper (trim code)"
  have weaken: "approved_by_log log d \<Longrightarrow> approved_by_log log' d" for d
    using run_decided.hyps(3) by (auto simp: approved_by_log_def split: option.splits if_splits)
  have "devices db' = upd_where (awaiting now ?code) (\<lambda>d. d\<lparr>df_status := ''denied''\<rparr>) (devices db) \<or>
    (\<exists>i. action \<noteq> ''deny'' \<and> org_id_by_slug db (trim org) = Some i \<and> user_can user i \<and> devices db' = upd_where (awaiting now ?code)
      (\<lambda>d. d\<lparr>df_status := ''approved'', df_org := Some i, df_approved_by := cu_id user\<rparr>) (devices db))"
    using run_decided.hyps(2)
    by (auto simp: ui_device_approve_def deny_device_flow_def approve_device_flow_def Let_def and_then_Inr_iff split: if_splits bool.splits)
  then show ?case
  proof (elim disjE exE conjE)
    assume d: "devices db' = upd_where (awaiting now ?code) (\<lambda>d. d\<lparr>df_status := ''denied''\<rparr>) (devices db)"
    then show ?thesis using run_decided.IH weaken
      by (auto simp: flows_ok_def map_upd_where_key approved_by_log_def elim!: in_upd_whereE)
  next
    fix i assume a: "action \<noteq> ''deny''" "org_id_by_slug db (trim org) = Some i" "user_can user i"
      and d: "devices db' = upd_where (awaiting now ?code)
        (\<lambda>d. d\<lparr>df_status := ''approved'', df_org := Some i, df_approved_by := cu_id user\<rparr>) (devices db)"
    have "(?code, user, i) \<in> set log'" using run_decided.hyps(3) a by simp
    then show ?thesis using run_decided.IH weaken a(3) d
      by (auto simp: flows_ok_def map_upd_where_key approved_by_log_def awaiting_def elim!: in_upd_whereE)
  qed
next
  case (run_polled db log newid secret now code r db')
  then show ?case using devices_polled[OF run_polled.hyps(2)] by (auto simp: flows_ok_def distinct_map_del_where)
qed

lemma poll_again:
  assumes "distinct (map df_hash t)" "select_one (claimable sha now code) t = Some d"
  shows "\<not> exists_where (\<lambda>d. df_hash d = token_hash sha code) (del_where (claimable sha now code) t)"
proof -
  have d: "d \<in> set t" "claimable sha now code d" using select_one_Some[OF assms(2)] by auto
  have "claimable sha now code x" if "x \<in> set t" "df_hash x = token_hash sha code" for x
  proof -
    have "x = d" using distinct_map_eqD[OF assms(1) that(1) d(1)] that(2) d(2) by (simp add: claimable_def)
    then show ?thesis using d(2) by simp
  qed
  then show ?thesis by auto
qed

text \<open>C13: a device code is traded for a token only while a flow is open that a signed-in user who belongs to
  the organization approved under the code shown to them; the token covers that organization only, for
  90 days, and the code is spent: every later poll, at any time, is told it expired.\<close>

theorem device_login_authorized:
  assumes "device_run sha db log" "oauth_device_token i sha secret now db code = (DeviceToken k ttl, db')"
  shows "(\<exists>d u g. d \<in> set (devices db) \<and> df_hash d = token_hash sha code \<and> df_expires d > now
      \<and> (df_user_code d, u, g) \<in> set log \<and> user_can u g
      \<and> tokens db' = tokens db @ [new_token i (token_hash sha k) (Some ''bougie login'') None (Some g) ''session'' now (Some (now + 90 * 86400))])
    \<and> oauth_device_token i2 sha secret2 later db' code = (DeviceError BadRequest ''expired_token'', db')"
proof -
  have ok: "flows_ok db log" using flows_ok_run[OF assms(1)] .
  obtain g db1 where p: "poll_device_flow sha now db code = Inr (Approved g, db1)"
      and m: "create_session_token i sha secret now db1 g ''bougie login'' DEVICE_TOKEN_TTL_SECS = Inr (k, db')"
    using assms(2) by (auto simp: oauth_device_token_def split: sum.splits device_poll.splits)
  obtain d where d: "select_one (claimable sha now code) (devices db) = Some d" "df_org d = Some g"
      and db1: "db1 = db\<lparr>devices := del_where (claimable sha now code) (devices db)\<rparr>"
    using p by (auto simp: poll_device_flow_def split: option.splits if_splits)
  have dm: "d \<in> set (devices db)" "df_hash d = token_hash sha code" "df_status d = ''approved''" "df_expires d > now"
    using select_one_Some[OF d(1)] by (auto simp: claimable_def)
  then obtain u where u: "user_can u g" "(df_user_code d, u, g) \<in> set log"
    using ok d(2) by (auto simp: flows_ok_def approved_by_log_def)
  have t: "tokens db' = tokens db @ [new_token i (token_hash sha k) (Some ''bougie login'') None (Some g) ''session'' now (Some (now + 90 * 86400))]"
    and dv: "devices db' = del_where (claimable sha now code) (devices db)"
    using m by (auto simp: create_session_token_def and_then_Inr_iff db1 DEVICE_TOKEN_TTL_SECS_def dest: insert_token_Inr)
  have gone: "\<not> exists_where (\<lambda>d. df_hash d = token_hash sha code) (devices db')"
    using poll_again[OF _ d(1)] ok unfolding dv flows_ok_def by blast
  then have "select_one (claimable sha later code) (devices db') = None" "select_one (\<lambda>d. df_hash d = token_hash sha code) (devices db') = None"
    by (auto simp: select_one_None claimable_def)
  then have "oauth_device_token i2 sha secret2 later db' code = (DeviceError BadRequest ''expired_token'', db')"
    by (simp add: oauth_device_token_def poll_device_flow_def)
  then show ?thesis using dm u t by blast
qed

text \<open>C14: device login completes: a flow that is started, approved within ten minutes by a member typing the
  code in any letter case and polled within ten minutes ends with a token that every repository of the
  organization accepts for 90 days.\<close>

theorem device_login_completes:
  assumes "start_device_flow sha code user_code t0 db DEVICE_FLOW_TTL_SECS = Inr db1"
    and "org_id_by_slug db (trim org) = Some g" "user_can user g" "to_upper (trim typed) = user_code" "action \<noteq> ''deny''"
    and "t1 < t0 + 600" "t2 < t0 + 600" "\<not> exists_where (\<lambda>t. t_hash t = token_hash sha secret) (tokens db)"
    and "repo_named db repo = Some r" "r_org r = g" "t < t2 + 90 * 86400"
  shows "\<exists>db2 db3. ui_device_approve t1 db1 user typed org action = Inr (ApprovalBound, db2)
    \<and> oauth_device_token i sha secret t2 db2 code = (DeviceToken secret (90 * 86400), db3)
    \<and> fst (token_valid sha t db3 repo secret)"
proof -
  let ?d = "\<lparr>df_hash = token_hash sha code, df_user_code = user_code, df_status = ''pending'', df_org = None,
    df_approved_by = None, df_expires = t0 + 600\<rparr>"
  let ?f = "\<lambda>d. d\<lparr>df_status := ''approved'', df_org := Some g, df_approved_by := cu_id user\<rparr>"
  have fresh: "\<And>d. d \<in> set (devices db) \<Longrightarrow> df_hash d \<noteq> token_hash sha code"
      "\<And>d. d \<in> set (devices db) \<Longrightarrow> df_user_code d \<noteq> user_code"
    and db1: "db1 = db\<lparr>devices := devices db @ [?d]\<rparr>"
    using assms(1) by (auto simp: start_device_flow_def DEVICE_FLOW_TTL_SECS_def split: if_splits)
  define db2 where "db2 = db\<lparr>devices := devices db @ [?f ?d]\<rparr>"
  have "upd_where (awaiting t1 user_code) ?f (devices db) = devices db"
    using fresh(2) by (intro upd_where_none) (auto simp: awaiting_def)
  then have "approve_device_flow t1 db1 user_code g (cu_id user) = (True, db2)"
    using assms(6) by (simp add: approve_device_flow_def db1 db2_def upd_where_append upd_where_Cons awaiting_def)
  moreover have "org_id_by_slug db1 (trim org) = Some g" using assms(2) by (simp add: db1 org_id_by_slug_def org_by_slug_def)
  ultimately have 2: "ui_device_approve t1 db1 user typed org action = Inr (ApprovalBound, db2)"
    using assms(3-5) by (simp add: ui_device_approve_def)
  have "select_one (claimable sha t2 code) (devices db) = None" using fresh(1) by (auto simp: select_one_None claimable_def)
  then have s: "select_one (claimable sha t2 code) (devices db2) = Some (?f ?d)"
    using assms(7) by (simp add: db2_def select_one_append select_one_Cons claimable_def)
  have "exists_where (\<lambda>g'. o_id g' = g) (orgs db)"
    using assms(2) by (auto simp: org_id_by_slug_def org_by_slug_def dest: select_one_Some)
  then have "create_session_token i sha secret t2 (db2\<lparr>devices := del_where (claimable sha t2 code) (devices db2)\<rparr>) g ''bougie login'' DEVICE_TOKEN_TTL_SECS
      = Inr (secret, db2\<lparr>devices := del_where (claimable sha t2 code) (devices db2), tokens := tokens db @
          [new_token i (token_hash sha secret) (Some ''bougie login'') None (Some g) ''session'' t2 (Some (t2 + 90 * 86400))]\<rparr>)" (is "_ = Inr (_, ?db3)")
    using assms(8) by (auto simp: create_session_token_def insert_token_def token_checks_def new_token_def db2_def DEVICE_TOKEN_TTL_SECS_def)
  then have 3: "oauth_device_token i sha secret t2 db2 code = (DeviceToken secret (90 * 86400), ?db3)"
    by (simp add: oauth_device_token_def poll_device_flow_def s DEVICE_TOKEN_TTL_SECS_def)
  have "fst (token_valid sha t ?db3 repo secret)"
    using assms(9-11) by (auto simp: token_valid_def token_matches_def new_token_def live_def token_covers_def repo_named_def db2_def dest: select_one_Some)
  with 2 3 show ?thesis by blast
qed

definition demo_flow :: "string \<Rightarrow> uuid option \<Rightarrow> db" where
  "demo_flow status org = demo_accounts\<lparr>devices := [\<lparr>df_hash = demo_sha (str_bytes ''scdv_1''), df_user_code = ''AB12-CD34'',
     df_status = status, df_org = org, df_approved_by = (if org = None then None else Some 5), df_expires = 600\<rparr>]\<rparr>"

lemma device_login_authorized_witness:
  "\<exists>db'. fst (oauth_device_token 9 demo_sha ''t2'' 50 db' ''scdv_1'') = DeviceError BadRequest ''expired_token''"
proof -
  have "device_run demo_sha demo_accounts []" by (rule run_empty) code_simp
  then have "device_run demo_sha (demo_flow ''pending'' None) []"
    by (rule run_started[where code = "''scdv_1''" and user_code = "''AB12-CD34''" and now = 0 and ttl = 600]) code_simp
  then have run: "device_run demo_sha (demo_flow ''approved'' (Some 1)) [(''AB12-CD34'', demo_user, 1)]"
    by (rule run_decided[where now = 5 and user = demo_user and code = "'' ab12-cd34''" and org = "''acme''" and action = "''approve''"
        and r = ApprovalBound]) code_simp+
  have "fst (oauth_device_token 8 demo_sha ''t1'' 9 (demo_flow ''approved'' (Some 1)) ''scdv_1'') = DeviceToken ''t1'' (90 * 86400)"
    by code_simp
  then have "oauth_device_token 8 demo_sha ''t1'' 9 (demo_flow ''approved'' (Some 1)) ''scdv_1''
      = (DeviceToken ''t1'' (90 * 86400), snd (oauth_device_token 8 demo_sha ''t1'' 9 (demo_flow ''approved'' (Some 1)) ''scdv_1''))"
    by (metis prod.collapse)
  from device_login_authorized[OF run this, of 9 "''t2''" 50] show ?thesis by (metis fst_conv)
qed

lemma device_login_completes_witness:
  "\<exists>db3. fst (token_valid demo_sha 7000000 db3 10 ''sconce_1'')"
proof -
  let ?f = "case start_device_flow demo_sha ''scdv_1'' ''AB12-CD34'' 0 demo_accounts DEVICE_FLOW_TTL_SECS of Inr db \<Rightarrow> db | Inl _ \<Rightarrow> empty_db"
  have "\<exists>db2 db3. ui_device_approve 30 ?f demo_user '' ab12-cd34 '' ''acme'' ''approve'' = Inr (ApprovalBound, db2)
    \<and> oauth_device_token 8 demo_sha ''sconce_1'' 35 db2 ''scdv_1'' = (DeviceToken ''sconce_1'' (90 * 86400), db3)
    \<and> fst (token_valid demo_sha 7000000 db3 10 ''sconce_1'')"
    by (rule device_login_completes[where db = demo_accounts and user_code = "''AB12-CD34''" and ?t0.0 = 0 and g = 1
        and r = "new_repo 10 1 ''main''" and sha = demo_sha and code = "''scdv_1''" and org = "''acme''" and ?db1.0 = ?f
        and user = demo_user and typed = "'' ab12-cd34 ''" and action = "''approve''" and ?t1.0 = 30 and ?t2.0 = 35
        and secret = "''sconce_1''" and repo = 10 and t = 7000000 and i = 8]) code_simp+
  then show ?thesis by blast
qed

section \<open>Exchanging a CI identity\<close>

lemma db_status_Inr [simp]: "db_status r = Inr x \<longleftrightarrow> r = Inr x"
  by (cases r) simp_all

lemma first_match_Some:
  "first_match jc cap jwt repo ps = Some m \<Longrightarrow>
   \<exists>p\<in>set ps. \<exists>claims. ci_accepts jc cap jwt p = Some claims \<and> cm_repo m = repo \<and> cm_ttl m = ci_ttl p \<and> cm_scope m = ci_scope p"
  by (induction ps) (auto split: option.splits)

lemma ci_accepts_Some:
  "ci_accepts jc cap jwt p = Some claims \<longleftrightarrow> ci_capability p = cap \<and> (\<exists>jwks. fst jc (ci_issuer p) = Some jwks
     \<and> snd jc jwt jwks (ci_issuer p) (ci_audience p) = Some claims) \<and> claims_match claims (ci_claims p)"
  by (auto simp: ci_accepts_def split: if_splits option.splits)

definition ci_granted :: "'j jwt_check \<Rightarrow> db \<Rightarrow> string \<Rightarrow> string \<Rightarrow> string \<Rightarrow> uuid \<Rightarrow> ci_policy_row \<Rightarrow> bool" where
  "ci_granted jc db repository jwt capability repo p \<longleftrightarrow>
     (\<exists>org name jwks claims. split_once (CHR ''/'') repository = Some (org, name) \<and> resolve_repo db org name = Some repo
       \<and> p \<in> set (ci_policies_t db) \<and> ci_repo p = repo \<and> ci_capability p = capability \<and> fst jc (ci_issuer p) = Some jwks
       \<and> snd jc jwt jwks (ci_issuer p) (ci_audience p) = Some claims \<and> claims_match claims (ci_claims p))"

lemma ci_match_granted:
  assumes "ci_match_of jc db repository jwt cap = Inr (Some m)"
  shows "\<exists>p. ci_granted jc db repository jwt cap (cm_repo m) p \<and> cm_ttl m = ci_ttl p \<and> cm_scope m = ci_scope p"
proof -
  obtain org name repo where h: "split_once (CHR ''/'') repository = Some (org, name)" "resolve_repo db org name = Some repo"
      "first_match jc cap jwt repo (ci_policies db repo) = Some m"
    using assms by (auto simp: ci_match_of_def and_then_Inr_iff)
  obtain p claims where p: "p \<in> set (ci_policies db repo)" "ci_accepts jc cap jwt p = Some claims"
      "cm_repo m = repo" "cm_ttl m = ci_ttl p" "cm_scope m = ci_scope p"
    using first_match_Some[OF h(3)] by blast
  then have "ci_granted jc db repository jwt cap (cm_repo m) p"
    using h by (auto simp: ci_granted_def ci_accepts_Some ci_policies_def)
  with p show ?thesis by blast
qed

text \<open>C15: the CI exchange hands out a read token only under a policy of that repository with the \<open>read\<close>
  capability whose issuer verified the JWT and whose every claim matcher holds; the token covers the
  repository, or its organization when the policy says so, for the policy's lifetime. The publish
  exchange does the same under \<open>publish\<close> policies and never leaves the repository.\<close>

theorem ci_exchange_sound:
  "(oauth_ci jc i sha secret now db repository jwt = Inr ((k, ttl), db') \<longrightarrow>
      (\<exists>repo p t. ci_granted jc db repository jwt ''read'' repo p \<and> tokens db' = tokens db @ [t] \<and> t_hash t = token_hash sha k
        \<and> t_expires t = Some (now + ci_ttl p)
        \<and> (if ci_scope p = ''org'' then t_repo t = None \<and> t_org t = org_id_for_repo db repo else t_repo t = Some repo \<and> t_org t = None)))
    \<and> (oauth_ci_publish jc i sha secret now db repository jwt = Inr ((k, ttl), db') \<longrightarrow>
      (\<exists>repo p c. ci_granted jc db repository jwt ''publish'' repo p \<and> tokens db' = tokens db
        \<and> publish_tokens db' = publish_tokens db @ [c] \<and> c_repo c = repo \<and> c_hash c = token_hash sha k
        \<and> c_expires c = Some (now + ci_ttl p)))"
proof (intro conjI impI)
  assume "oauth_ci jc i sha secret now db repository jwt = Inr ((k, ttl), db')"
  then obtain m where m: "ci_match_of jc db repository jwt ''read'' = Inr (Some m)"
    and mint: "(if cm_scope m = ''org'' then \<exists>g. org_id_for_repo db (cm_repo m) = Some g
        \<and> create_org_ci_token i sha secret now db g (cm_label m) (cm_ttl m) = Inr (k, db')
      else create_ci_token i sha secret now db (cm_repo m) (cm_label m) (cm_ttl m) = Inr (k, db'))"
    by (auto simp: oauth_ci_def and_then_Inr_iff split: option.splits if_splits)
  obtain p where p: "ci_granted jc db repository jwt ''read'' (cm_repo m) p" "cm_ttl m = ci_ttl p" "cm_scope m = ci_scope p"
    using ci_match_granted[OF m] by blast
  define t where "t = new_token i (token_hash sha secret) (Some (cm_label m)) (if ci_scope p = ''org'' then None else Some (cm_repo m))
    (if ci_scope p = ''org'' then org_id_for_repo db (cm_repo m) else None) ''ci'' now (Some (now + ci_ttl p))"
  have "k = secret \<and> tokens db' = tokens db @ [t]"
    using mint by (auto simp: p(2,3) create_org_ci_token_def create_ci_token_def and_then_Inr_iff t_def dest!: insert_token_Inr split: if_splits)
  then show "\<exists>repo p t. ci_granted jc db repository jwt ''read'' repo p \<and> tokens db' = tokens db @ [t] \<and> t_hash t = token_hash sha k
      \<and> t_expires t = Some (now + ci_ttl p)
      \<and> (if ci_scope p = ''org'' then t_repo t = None \<and> t_org t = org_id_for_repo db repo else t_repo t = Some repo \<and> t_org t = None)"
    using p(1) by (intro exI[of _ "cm_repo m"] exI[of _ p] exI[of _ t]) (simp add: t_def new_token_def)
next
  assume "oauth_ci_publish jc i sha secret now db repository jwt = Inr ((k, ttl), db')"
  then obtain m where m: "ci_match_of jc db repository jwt ''publish'' = Inr (Some m)"
    and mint: "create_publish_token i sha secret now db (cm_repo m) (cm_label m) (cm_ttl m) = Inr (k, db')"
    by (auto simp: oauth_ci_publish_def and_then_Inr_iff split: option.splits)
  obtain p where p: "ci_granted jc db repository jwt ''publish'' (cm_repo m) p" "cm_ttl m = ci_ttl p"
    using ci_match_granted[OF m] by blast
  have "k = secret \<and> tokens db' = tokens db \<and> publish_tokens db' = publish_tokens db
      @ [new_cred i (cm_repo m) (token_hash sha secret) (Some (cm_label m)) (Some (now + ci_ttl p))]"
    using mint by (auto simp: p(2) create_publish_token_def insert_cred_def and_then_Inr_iff split: if_splits)
  then show "\<exists>repo p c. ci_granted jc db repository jwt ''publish'' repo p \<and> tokens db' = tokens db
      \<and> publish_tokens db' = publish_tokens db @ [c] \<and> c_repo c = repo \<and> c_hash c = token_hash sha k \<and> c_expires c = Some (now + ci_ttl p)"
    using p(1) by (intro exI[of _ "cm_repo m"] exI[of _ p] exI[of _ "new_cred i (cm_repo m) (token_hash sha secret) (Some (cm_label m)) (Some (now + ci_ttl p))"])
      (simp add: new_cred_def)
qed

definition demo_ci :: "unit jwt_check" where
  "demo_ci = (\<lambda>_. Some (), \<lambda>jwt _ iss aud. if jwt = ''good'' \<and> aud = ''sconce'' then Some (JObj [(''ref'', JStr ''main'')]) else None)"

definition demo_ci_db :: db where
  "demo_ci_db = demo_names\<lparr>ci_policies_t := [\<lparr>ci_id = 3, ci_repo = 10, ci_provider = ''github'', ci_issuer = ''idp'',
     ci_audience = ''sconce'', ci_claims = parse_claims ''ref = main'', ci_ttl = 900, ci_capability = ''read'', ci_scope = ''org''\<rparr>]\<rparr>"

lemma ci_exchange_sound_witness:
  "oauth_ci_publish demo_ci 7 (\<lambda>b. b) ''s'' 0 demo_ci_db ''acme/main'' ''good'' = Inl Unauthorized
    \<and> (\<exists>repo p (t :: token_row). ci_granted demo_ci demo_ci_db ''acme/main'' ''good'' ''read'' repo p \<and> t_expires t = Some (0 + ci_ttl p))"
proof
  have "\<not> isl (oauth_ci demo_ci 7 (\<lambda>b. b) ''s'' 0 demo_ci_db ''acme/main'' ''good'')" by code_simp
  then obtain x where "oauth_ci demo_ci 7 (\<lambda>b. b) ''s'' 0 demo_ci_db ''acme/main'' ''good'' = Inr x" by (rule not_islE)
  then obtain k ttl db' where "oauth_ci demo_ci 7 (\<lambda>b. b) ''s'' 0 demo_ci_db ''acme/main'' ''good'' = Inr ((k, ttl), db')"
    by (metis prod.exhaust)
  from ci_exchange_sound[THEN conjunct1, rule_format, OF this]
  show "\<exists>repo p (t :: token_row). ci_granted demo_ci demo_ci_db ''acme/main'' ''good'' ''read'' repo p \<and> t_expires t = Some (0 + ci_ttl p)"
    by blast
qed code_simp

section \<open>Introspection\<close>

lemma or_eq_0_iff: "or a b = 0 \<longleftrightarrow> a = 0 \<and> (b :: byte) = 0"
  by (auto simp: bit_eq_iff bit_simps)

lemma fold_or_eq_0: "fold (\<lambda>i d. or d (f i)) xs (d :: byte) = 0 \<longleftrightarrow> d = 0 \<and> (\<forall>i\<in>set xs. f i = 0)"
  by (induction xs arbitrary: d) (auto simp: or_eq_0_iff)

lemma xor_eq_0_iff: "xor a b = 0 \<longleftrightarrow> a = (b :: byte)"
  by (auto simp: bit_eq_iff bit_simps)

lemma ct_eq_iff:
  assumes "length a = 32" "length b = 32"
  shows "ct_eq a b \<longleftrightarrow> a = b"
  unfolding ct_eq_def fold_or_eq_0 by (auto simp: xor_eq_0_iff intro!: nth_equalityI simp: assms)

lemma fold_or_iff: "fold (\<lambda>e m. m \<or> P e) xs m \<longleftrightarrow> m \<or> (\<exists>e\<in>set xs. P e)"
  by (induction xs arbitrary: m) auto

text \<open>Introspection answers a relay exactly when it presents, as a bearer token, a secret whose digest is
  that of one of the configured ones: the branch-free comparison agrees with equality on digests, and
  with nothing configured every call is refused.\<close>

theorem introspect_exact:
  assumes "\<And>b. length (sha b) = 32"
  shows "fst (oauth_introspect sha (parse_introspect_secrets sha raw) now db header token) \<noteq> IntrospectRefused \<longleftrightarrow>
    (\<exists>s c. header = Some (''Bearer '' @ s) \<and> c \<in> set (split_seps ('','' # utf8_ws) [] raw) \<and> c \<noteq> []
      \<and> secret_digest sha c = secret_digest sha (trim s))"
proof -
  have len: "length (secret_digest sha c) = 32" for c by (simp add: secret_digest_def assms)
  have ct: "ct_eq (secret_digest sha a) x \<longleftrightarrow> secret_digest sha a = x" if "x \<in> set (parse_introspect_secrets sha raw)" for a x
    using that len by (auto simp: parse_introspect_secrets_def ct_eq_iff)
  have ans: "fst (case resolve_org_session_token sha now db token of (Some (org, e), db) \<Rightarrow> (Active org e, db) | (None, db) \<Rightarrow> (Inactive, db))
      \<noteq> IntrospectRefused"
    by (auto split: prod.splits option.splits)
  show ?thesis
  proof (cases "Option.bind header (strip_prefix ''Bearer '')")
    case None
    then show ?thesis by (auto simp: oauth_introspect_def strip_prefix_def starts_with_def split: if_splits)
  next
    case (Some s)
    then have h: "header = Some (''Bearer '' @ s)"
      by (cases header) (auto simp: strip_prefix_Some)
    define S where "S = parse_introspect_secrets sha raw"
    have acc: "fold (\<lambda>e m. m \<or> ct_eq (secret_digest sha (trim s)) e) S False \<longleftrightarrow> secret_digest sha (trim s) \<in> set S"
      using ct unfolding fold_or_iff S_def by auto
    have "fst (oauth_introspect sha S now db header token) \<noteq> IntrospectRefused \<longleftrightarrow> secret_digest sha (trim s) \<in> set S"
      unfolding oauth_introspect_def using ans by (auto simp: Some acc Let_def)
    also have "\<dots> \<longleftrightarrow> (\<exists>c. c \<in> set (split_seps ('','' # utf8_ws) [] raw) \<and> c \<noteq> [] \<and> secret_digest sha c = secret_digest sha (trim s))"
      unfolding S_def parse_introspect_secrets_def by (simp add: image_iff) metis
    finally show ?thesis by (simp add: S_def h)
  qed
qed

lemma introspect_exact_witness:
  "fst (oauth_introspect (\<lambda>b. take 32 (b @ replicate 32 0)) (parse_introspect_secrets (\<lambda>b. take 32 (b @ replicate 32 0)) ''old, new'')
      0 demo_names (Some ''Bearer new'') ''x'') \<noteq> IntrospectRefused"
proof (rule iffD2[OF introspect_exact])
  show "\<exists>s c. Some ''Bearer new'' = Some (''Bearer '' @ s) \<and> c \<in> set (split_seps ('','' # utf8_ws) [] ''old, new'') \<and> c \<noteq> []
      \<and> secret_digest (\<lambda>b. take 32 (b @ replicate 32 0)) c = secret_digest (\<lambda>b. take 32 (b @ replicate 32 0)) (trim s)"
    by (intro exI[of _ "''new''"] conjI) code_simp+
qed simp

section \<open>Single sign-on\<close>

lemma find_connection_cong: "oidc_conns db' = oidc_conns db \<Longrightarrow> find_connection db' c = find_connection db c"
  by (simp add: find_connection_def oidc_connection_by_id_def oidc_connection_def split: option.splits)

lemma consume_oidc_flow_Some:
  assumes "consume_oidc_flow now db state = (Some f, db')"
  shows "f \<in> set (oidc_flows db)" "of_state f = state" "now < of_expires f"
    "db' = db\<lparr>oidc_flows := del_where (\<lambda>f. of_state f = state) (oidc_flows db)\<rparr>"
  using assms by (auto simp: consume_oidc_flow_def dest!: select_one_Some split: option.splits if_splits)

lemma sso_user:
  assumes "find_or_create_sso_user newid phc db email super = (uid, db1)"
  shows "\<exists>u. user_by_email db1 email = Some u \<and> u_id u = uid \<and> u_superadmin u = super"
    "oidc_flows db1 = oidc_flows db"
proof -
  show "oidc_flows db1 = oidc_flows db"
    using assms by (auto simp: find_or_create_sso_user_def insert_user_def split: option.splits)
  show "\<exists>u. user_by_email db1 email = Some u \<and> u_id u = uid \<and> u_superadmin u = super"
  proof (cases "user_by_email db email")
    case None
    then show ?thesis using assms
      by (auto simp: find_or_create_sso_user_def insert_user_def user_by_email_def select_one_append select_one_Cons)
  next
    case (Some u)
    then show ?thesis using assms
      by (auto simp: find_or_create_sso_user_def insert_user_def user_by_email_def select_one_upd_where dest: select_one_Some)
  qed
qed

lemma add_user_to_tenant_frame:
  assumes "add_user_to_tenant db email slug role = Inr (b, db')"
  shows "users db' = users db" "oidc_flows db' = oidc_flows db"
  using assms by (auto simp: add_user_to_tenant_def put_tenant_def split: option.splits if_splits)

lemma sso_session_flows:
  assumes "sso_session newid phc sha secret now db c email = (r, db')" shows "oidc_flows db' = oidc_flows db"
proof -
  obtain uid db1 where f: "find_or_create_sso_user newid phc db email (domain_matches email (oc_admin c)) = (uid, db1)" by fastforce
  have cs: "oidc_flows d' = oidc_flows d" if "create_session sha secret now d uid 7 = Inr (k, d')" for d d' k
    using that by (auto simp: create_session_def clamp_i32_def split: if_splits)
  show ?thesis
    using assms sso_user(2)[OF f]
    by (auto simp: sso_session_def f and_then_Inr_iff split: option.splits sum.splits prod.splits dest!: cs add_user_to_tenant_frame(2))
qed

lemma sso_session_user:
  assumes "sso_session newid phc sha secret now db c email = (Inr k, db')"
  shows "\<exists>u. user_by_email db' email = Some u \<and> u_superadmin u = domain_matches email (oc_admin c)
      \<and> (\<exists>s\<in>set (sessions db'). se_hash s = token_hash sha k \<and> se_user s = u_id u \<and> se_expires s = now + days 7)"
proof -
  obtain uid db1 where f: "find_or_create_sso_user newid phc db email (domain_matches email (oc_admin c)) = (uid, db1)" by fastforce
  obtain db2 where m: "users db2 = users db1" and s: "create_session sha secret now db2 uid 7 = Inr (k, db')"
    using assms
    by (auto simp: sso_session_def f and_then_Inr_iff split: option.splits sum.splits prod.splits dest!: add_user_to_tenant_frame(1))
  have cs: "k = secret" "db' = db2\<lparr>sessions := sessions db2 @ [\<lparr>se_hash = token_hash sha secret, se_user = uid, se_expires = now + days 7\<rparr>]\<rparr>"
    using s by (auto simp: create_session_def clamp_i32_def split: if_splits)
  obtain u where "user_by_email db1 email = Some u" "u_id u = uid" "u_superadmin u = domain_matches email (oc_admin c)"
    using sso_user(1)[OF f] by blast
  then show ?thesis by (auto simp: cs user_by_email_def m)
qed

text \<open>Whatever a callback with a code and a state ends in, the flow is spent.\<close>

lemma callback_spends_flow:
  assumes "auth_callback newid phc sha secret finish dec now db (Some code) (Some st) None = (r, db')"
  shows "select_one (\<lambda>f. of_state f = st) (oidc_flows db') = None"
proof -
  obtain m db1 where c: "consume_oidc_flow now db st = (m, db1)" by fastforce
  have gone: "select_one (\<lambda>f. of_state f = st) (oidc_flows db1) = None"
    using c by (auto simp: consume_oidc_flow_def select_one_None split: option.splits)
  have "oidc_flows db' = oidc_flows db1"
    using assms by (auto simp: auth_callback_def c dest!: sso_session_flows split: option.splits sum.splits prod.splits if_splits)
  with gone show ?thesis by simp
qed

text \<open>C16: single sign-on signs in only the address that the connection's own identity provider asserted, for
  an unexpired flow started with that connection and checked against its nonce and verifier, within the
  connection's allowed domains; the account is a superadmin exactly when the connection says so; the
  flow is spent, so a replayed callback only shows the login page.\<close>

theorem sso_login_sound:
  assumes "auth_callback newid phc sha secret finish dec now db code state err = (Inr (LoginDone l), db')"
  shows "(\<exists>f c cs cd email u. err = None \<and> code = Some cd \<and> f \<in> set (oidc_flows db) \<and> state = Some (of_state f) \<and> now < of_expires f
      \<and> find_connection db (of_conn f) = Inr c \<and> oidc_secret dec c = Inr cs \<and> finish c cs cd (of_nonce f) (of_verifier f) = Inr email
      \<and> (oc_allowed c \<in> {None, Some []} \<or> domain_matches email (oc_allowed c))
      \<and> user_by_email db' email = Some u \<and> u_superadmin u = domain_matches email (oc_admin c)
      \<and> (\<exists>s\<in>set (sessions db'). se_hash s = token_hash sha (sl_token l) \<and> se_user s = u_id u \<and> se_expires s = now + days 7))
    \<and> (\<exists>m. fst (auth_callback newid2 phc2 sha secret2 finish dec later db' code2 state None) = Inr (LoginPage m) \<or> code2 = None)"
proof -
  obtain cd st f db1 where e: "err = None" "code = Some cd" "state = Some st" "consume_oidc_flow now db st = (Some f, db1)"
    using assms by (auto simp: auth_callback_def split: option.splits prod.splits)
  note fl = consume_oidc_flow_Some[OF e(4)]
  have conns: "find_connection db1 x = find_connection db x" for x by (rule find_connection_cong) (simp add: fl(4))
  obtain c cs where c: "find_connection db (of_conn f) = Inr c" "oidc_secret dec c = Inr cs"
    using assms by (auto simp: auth_callback_def e conns and_then_Inr_iff split: sum.splits prod.splits)
  obtain email where em: "finish c cs cd (of_nonce f) (of_verifier f) = Inr email"
    using assms by (cases "finish c cs cd (of_nonce f) (of_verifier f)") (simp_all add: auth_callback_def e conns c)
  have al: "oc_allowed c \<in> {None, Some []} \<or> domain_matches email (oc_allowed c)"
    using assms by (auto simp: auth_callback_def e conns c em split: option.splits if_splits)
  have s: "sso_session newid phc sha secret now db1 c email = (Inr (sl_token l), db')"
    using assms al by (auto simp: auth_callback_def e conns c em split: option.splits if_splits prod.splits sum.splits)
  have "select_one (\<lambda>f. of_state f = st) (oidc_flows db') = None"
    using callback_spends_flow[OF assms[unfolded e(1-3)]] .
  then have "\<exists>m. fst (auth_callback newid2 phc2 sha secret2 finish dec later db' code2 state None) = Inr (LoginPage m) \<or> code2 = None"
    by (cases code2) (simp_all add: auth_callback_def e(3) consume_oidc_flow_def)
  then show ?thesis using sso_session_user[OF s] e fl c em al by blast
qed

definition demo_conn :: "uuid option \<Rightarrow> string list option \<Rightarrow> oidc_row" where
  "demo_conn org admin = \<lparr>oc_id = 70, oc_org = org, oc_issuer = ''https://idp'', oc_client = ''c'', oc_secret = None,
     oc_redirect = ''https://ui/cb'', oc_scopes = ''openid'', oc_allowed = None, oc_admin = admin\<rparr>"

definition demo_sso :: "oidc_row \<Rightarrow> db" where
  "demo_sso c = demo_accounts\<lparr>oidc_conns := [c], oidc_flows := [\<lparr>of_state = ''st'', of_conn = Some 70, of_nonce = ''n'',
     of_verifier = ''v'', of_redirect = ''/'', of_expires = 600\<rparr>]\<rparr>"

lemma sso_login_sound_witness:
  "\<exists>u db'. user_by_email db' ''b@x'' = Some u \<and> \<not> u_superadmin u"
proof -
  let ?r = "auth_callback 8 ''phc'' demo_sha ''sess2'' (\<lambda>_ _ _ _ _. Inr ''b@x'') None 50 (demo_sso (demo_conn (Some 1) None)) (Some ''code'') (Some ''st'') None"
  have "(case fst ?r of Inr (LoginDone _) \<Rightarrow> True | _ \<Rightarrow> False)" by code_simp
  then obtain l db' where r: "?r = (Inr (LoginDone l), db')" by (cases ?r) (auto split: sum.splits login_reply.splits)
  have "\<exists>u. user_by_email db' ''b@x'' = Some u \<and> \<not> u_superadmin u" using sso_login_sound[OF r, THEN conjunct1]
    by (auto simp: demo_sso_def find_connection_def oidc_connection_by_id_def select_one_Cons demo_conn_def domain_matches_def)
  then show ?thesis by blast
qed

text \<open>An organization's administrator can become superadmin of the instance: the form of the
  organization's own sign-on stores the \<open>admin_domains\<close> it is given, and a login through the provider the
  administrator runs then returns a superadmin.\<close>

theorem sso_escalation:
  "let form = \<lparr>fm_issuer = ''https://idp'', fm_client = ''c'', fm_secret = None, fm_redirect = ''https://ui/cb'',
        fm_scopes = ''openid'', fm_allowed = None, fm_admin = Some ''evil.example''\<rparr>;
      idp = (\<lambda>_ _ _ _ _. Inr ''mallory@evil.example'');
      db1 = projr (save_oidc 70 demo_accounts demo_user ''acme'' form);
      db2 = db1\<lparr>oidc_flows := oidc_flows (demo_sso (demo_conn None None))\<rparr>;
      db3 = snd (auth_callback 8 ''phc'' demo_sha ''sess2'' idp None 50 db2 (Some ''code'') (Some ''st'') None)
    in \<not> cu_superadmin demo_user \<and> map_option cu_superadmin (session_user demo_sha 60 db3 (Some ''sess2'')) = Some True"
  by code_simp

text \<open>Signing in through the organization's provider rewrites the membership: an administrator of the
  organization becomes a plain member, and a membership that SCIM deactivated is active again.\<close>

theorem sso_login_resets_membership:
  "let idp = (\<lambda>_ _ _ _ _. Inr ''a@x'');
      login = (\<lambda>db. snd (auth_callback 8 ''phc'' demo_sha ''sess2'' idp None 50 db (Some ''code'') (Some ''st'') None));
      db = demo_sso (demo_conn (Some 1) None);
      off = snd (scim_apply_active db 1 5 False)
    in map (\<lambda>t. (ut_role t, ut_active t)) (tenants db) = [(''admin'', True)]
      \<and> map (\<lambda>t. (ut_role t, ut_active t)) (tenants (login db)) = [(''member'', True)]
      \<and> map (\<lambda>t. (ut_role t, ut_active t)) (tenants off) = [(''admin'', False)]
      \<and> map (\<lambda>t. (ut_role t, ut_active t)) (tenants (login off)) = [(''member'', True)]"
  by code_simp

text \<open>Offboarding leaves device logins alone: SCIM deactivation ends the sessions of the account, but the
  organization-wide read token it approved from a terminal is accepted until its 90 days are over.\<close>

theorem offboarding_keeps_device_token:
  "let db = snd (oauth_device_token 9 demo_sha ''sconce_1'' 50 (demo_flow ''approved'' (Some 1)) ''scdv_1'');
      off = snd (scim_apply_active db 1 5 False)
    in session_user demo_sha 60 off (Some ''sess'') = None \<and> fst (token_valid demo_sha 7000000 off 10 ''sconce_1'')"
  by code_simp

text \<open>The secret typed into the form is stored as it is and then decrypted: a blob shorter than the 24 bytes
  of a nonce is no ciphertext, so sign-on through such a connection always fails.\<close>

lemma saved_secret_unusable:
  assumes "\<And>b. length b < 24 \<Longrightarrow> d b = None"
  shows "let db = projr (save_oidc 70 demo_accounts demo_user ''acme'' \<lparr>fm_issuer = ''i'', fm_client = ''c'', fm_secret = Some ''hunter2'',
        fm_redirect = ''r'', fm_scopes = ''openid'', fm_allowed = None, fm_admin = None\<rparr>)
    in map oc_secret (oidc_conns db) = [Some (str_bytes ''hunter2'')] \<and> auth_start b (Some d) 0 db (Some 70) = Inl ServerError"
proof -
  have c: "oidc_conns (projr (save_oidc 70 demo_accounts demo_user ''acme'' \<lparr>fm_issuer = ''i'', fm_client = ''c'', fm_secret = Some ''hunter2'',
        fm_redirect = ''r'', fm_scopes = ''openid'', fm_allowed = None, fm_admin = None\<rparr>)) =
      [\<lparr>oc_id = 70, oc_org = Some 1, oc_issuer = ''i'', oc_client = ''c'', oc_secret = Some (str_bytes ''hunter2''),
        oc_redirect = ''r'', oc_scopes = ''openid'', oc_allowed = None, oc_admin = None\<rparr>]" by code_simp
  then show ?thesis using assms
    by (simp add: Let_def auth_start_def find_connection_def oidc_connection_by_id_def select_one_Cons oidc_secret_def)
qed

end
