(* ===== verification/Reads.thy ===== *)
theory Reads
  imports Licenses Login Blobs Cas
begin

text \<open>
  The Composer read routes of \<open>crates/sconce-server/src/lib.rs\<close>: who may read (\<open>authorize\<close>, \<open>Access\<close>),
  the documents (\<open>packages.json\<close>, \<open>p2\<close>, rendered by \<open>crates/sconce-metadata\<close>), the downloads (\<open>dist\<close> and
  the imported registry's own paths), the routing of custom domains (\<open>by_host\<close>), and the caching
  middleware of \<open>cache.rs\<close>. A handler returns its answer or an \<open>AppError\<close>, with the database (a credential's
  use is stamped) and the world the blob store lives in. Base64, the semver crate and the two document
  types of \<open>composer_wire\<close> are fields of \<open>app\<close>.
\<close>

section \<open>Errors, headers, answers\<close>

text \<open>\<open>AppError\<close>; \<open>Panicked\<close> is not one of its variants but a handler that unwinds: the connection is
  dropped without an answer.\<close>

datatype app_error = AppNotFound | AppUnauthorized | AppForbidden | AppBadRequest string | AppConflict string
  | AppPayloadTooLarge | AppGone | AppCatalog sql_error | AppStorage io_error | Panicked

fun error_code :: "app_error \<Rightarrow> nat option" where
  "error_code AppNotFound = Some 404"
| "error_code AppUnauthorized = Some 401"
| "error_code AppForbidden = Some 403"
| "error_code (AppBadRequest m) = Some 400"
| "error_code (AppConflict m) = Some 409"
| "error_code AppPayloadTooLarge = Some 413"
| "error_code AppGone = Some 410"
| "error_code (AppCatalog e) = Some 500"
| "error_code (AppStorage e) = Some 500"
| "error_code Panicked = None"

datatype response = Moved string | Json json | Found string | Zip bytes

record request =
  rq_authorization :: "string option"
  rq_if_none_match :: "string option"
  rq_uri_authority :: "string option"
  rq_host :: "string option"

text \<open>\<open>HeaderValue::to_str\<close>: visible ASCII and tabs only.\<close>

definition header_str :: "string \<Rightarrow> string option" where
  "header_str s = (if list_all (\<lambda>c. (32 :: nat) \<le> of_char c \<and> of_char c < (127 :: nat) \<or> of_char c = (9 :: nat)) s then Some s else None)"

text \<open>\<open>String::from_utf8\<close>\<close>

definition cont :: "nat \<Rightarrow> bool" where
  "cont b \<longleftrightarrow> 128 \<le> b \<and> b < 192"

fun valid_utf8 :: "nat list \<Rightarrow> bool" where
  "valid_utf8 [] = True"
| "valid_utf8 (a # s) =
     (if a < 128 then valid_utf8 s
      else if 194 \<le> a \<and> a < 224 then (case s of b # s' \<Rightarrow> cont b \<and> valid_utf8 s' | _ \<Rightarrow> False)
      else if 224 \<le> a \<and> a < 240 then (case s of b # c # s' \<Rightarrow> cont b \<and> cont c \<and> (a = 224 \<longrightarrow> 160 \<le> b)
          \<and> (a = 237 \<longrightarrow> b < 160) \<and> valid_utf8 s' | _ \<Rightarrow> False)
      else if 240 \<le> a \<and> a < 245 then (case s of b # c # d # s' \<Rightarrow> cont b \<and> cont c \<and> cont d \<and> (a = 240 \<longrightarrow> 144 \<le> b)
          \<and> (a = 244 \<longrightarrow> b < 144) \<and> valid_utf8 s' | _ \<Rightarrow> False)
      else False)"

definition from_utf8 :: "bytes \<Rightarrow> string option" where
  "from_utf8 bs = (if valid_utf8 (map unat bs) then Some (map (\<lambda>b. char_of (unat b)) bs) else None)"

text \<open>\<open>unauthorized\<close> also sends \<open>WWW-Authenticate\<close>.\<close>

definition extract_token :: "(string \<Rightarrow> bytes option) \<Rightarrow> request \<Rightarrow> string option" where
  "extract_token b64 rq = Option.bind (Option.bind (rq_authorization rq) header_str) (\<lambda>v.
     case strip_prefix ''Bearer '' v of Some t \<Rightarrow> Some (trim t)
     | None \<Rightarrow> (case strip_prefix ''Basic '' v of
         None \<Rightarrow> None
       | Some t \<Rightarrow> Option.bind (Option.bind (b64 (trim t)) from_utf8) (\<lambda>creds. map_option snd (split_once (CHR '':'') creds))))"

section \<open>Parameters of the handlers\<close>

text \<open>\<open>AppState\<close>, with what a handler calls outside the repository: the object store runtime, base64, the
  semver crate, and the two document types of \<open>composer_wire\<close>.\<close>

record ('v, 'w) app =
  app_store :: any_store
  app_base_url :: string
  app_rt :: "'w runtime"
  app_now :: time
  app_b64 :: "string \<Rightarrow> bytes option"
  app_parse :: "string \<Rightarrow> 'v option"
  app_vcmp :: "'v \<Rightarrow> 'v \<Rightarrow> ordering"
  app_root :: "string \<Rightarrow> string list \<Rightarrow> json"
  app_flat :: "(string \<times> json list) list \<Rightarrow> json"

section \<open>Documents\<close>

text \<open>\<open>Map::insert\<close>: the map is ordered by key.\<close>

fun obj_insert :: "string \<Rightarrow> json \<Rightarrow> (string \<times> json) list \<Rightarrow> (string \<times> json) list" where
  "obj_insert k v [] = [(k, v)]"
| "obj_insert k v ((k', v') # m) = (if k < k' then (k, v) # (k', v') # m
     else if k = k' then (k, v) # m else (k', v') # obj_insert k v m)"

text \<open>\<open>row_to_version\<close>: a blob id is cut or zero-filled to 32 bytes.\<close>

definition pad32 :: "bytes \<Rightarrow> bytes" where
  "pad32 bs = take 32 (bs @ replicate 32 0)"

definition version_entry :: "string \<Rightarrow> version_row \<Rightarrow> string \<Rightarrow> json" where
  "version_entry name v base =
     (let obj = (case v_composer v of JObj m \<Rightarrow> m | _ \<Rightarrow> []);
          obj = obj_insert ''name'' (JStr name) obj;
          obj = obj_insert ''version'' (JStr (v_version v)) obj;
          obj = obj_insert ''version_normalized'' (JStr (v_normalized v)) obj
      in JObj (case map_option pad32 (v_blob v) of
           None \<Rightarrow> obj
         | Some sha \<Rightarrow>
             let dist = obj_insert ''type'' (JStr ''zip'') [];
                 dist = obj_insert ''url'' (JStr (base @ ''/dist/'' @ name @ ''/'' @ hex sha @ ''.zip'')) dist;
                 dist = (case v_shasum v of None \<Rightarrow> dist | Some s \<Rightarrow> obj_insert ''shasum'' (JStr s) dist)
             in obj_insert ''dist'' (JObj dist) obj))"

definition render_root :: "(string \<Rightarrow> string list \<Rightarrow> json) \<Rightarrow> string list \<Rightarrow> string \<Rightarrow> json" where
  "render_root root_v2 names base = root_v2 base names"

definition render_package :: "((string \<times> json list) list \<Rightarrow> json) \<Rightarrow> string \<Rightarrow> version_row list \<Rightarrow> string \<Rightarrow> json" where
  "render_package flat name vs base =
     (let base = trim_end_char (CHR ''/'') base in flat [(name, map (\<lambda>v. version_entry name v base) vs)])"

section \<open>Access\<close>

datatype access = Full | Licensed "(string \<times> license_bound) list" | Anonymous

definition access_allows :: "db \<Rightarrow> access \<Rightarrow> uuid \<Rightarrow> string \<Rightarrow> bool" where
  "access_allows db acc repo package = (case acc of
     Full \<Rightarrow> True
   | Licensed entitled \<Rightarrow> map_of entitled package \<noteq> None
   | Anonymous \<Rightarrow> anonymous_package_names db repo (Some package) \<noteq> [])"

definition no_bound :: license_bound where
  "no_bound = \<lparr>lb_until = None, lb_major = None\<rparr>"

definition bound_for :: "access \<Rightarrow> string \<Rightarrow> license_bound" where
  "bound_for acc package = (case acc of
     Licensed entitled \<Rightarrow> (case map_of entitled package of None \<Rightarrow> no_bound | Some b \<Rightarrow> b)
   | _ \<Rightarrow> no_bound)"

definition authorize :: "('v, 'w) app \<Rightarrow> db \<Rightarrow> uuid \<Rightarrow> request
    \<Rightarrow> (app_error, access \<times> policy_override) result \<times> db" where
  "authorize a db repo rq =
     (if rq_authorization rq = None
      then (and_then (map_err AppCatalog (repo_settings_of db repo)) (\<lambda>st.
              if st_anonymous st then Inr (Anonymous, no_override) else Inl AppUnauthorized), db)
      else (case extract_token (app_b64 a) rq of
          None \<Rightarrow> (Inl AppUnauthorized, db)
        | Some cred \<Rightarrow> (case resolve_token_policy (rt_sha (app_rt a)) (app_now a) db repo cred of
            (Some policy, db) \<Rightarrow> (Inr (Full, policy), db)
          | (None, db) \<Rightarrow> (case resolve_license (rt_sha (app_rt a)) (app_now a) db repo cred of
              None \<Rightarrow> (Inl AppUnauthorized, db)
            | Some lic \<Rightarrow> (and_then (map_err AppCatalog (license_policy db lic)) (\<lambda>policy.
                Inr (Licensed (entitled_package_bounds db lic), policy)), db)))))"

definition locate :: "db \<Rightarrow> string \<Rightarrow> string \<Rightarrow> string \<Rightarrow> (app_error, string + repo_location) result" where
  "locate db org repo suffix = and_then (ok_or AppNotFound (resolve_repo_canonical db org repo)) (\<lambda>loc.
     if loc_moved loc then Inr (Inl (''/'' @ loc_org_slug loc @ ''/'' @ loc_repo_slug loc @ ''/'' @ suffix))
     else Inr (Inr loc))"

definition repo_base :: "string \<Rightarrow> string \<Rightarrow> string \<Rightarrow> string" where
  "repo_base base_url org repo = trim_end_char (CHR ''/'') base_url @ ''/'' @ org @ ''/'' @ repo"

section \<open>The root and package documents\<close>

definition listed_names :: "db \<Rightarrow> access \<Rightarrow> uuid \<Rightarrow> string list" where
  "listed_names db acc repo = (case acc of
     Full \<Rightarrow> all_package_names db repo
   | Licensed entitled \<Rightarrow> sort (map fst entitled)
   | Anonymous \<Rightarrow> anonymous_package_names db repo None)"

definition serve_root :: "('v, 'w) app \<Rightarrow> db \<Rightarrow> repo_location \<Rightarrow> string \<Rightarrow> request
    \<Rightarrow> (app_error, response) result \<times> db" where
  "serve_root a db loc base rq = (case authorize a db (loc_repo_id loc) rq of (r, db) \<Rightarrow>
     (and_then r (\<lambda>(acc, _). Inr (Json (render_root (app_root a) (listed_names db acc (loc_repo_id loc)) base))), db))"

text \<open>The versions of a package a credential resolves: the repository's policy, tightened by the
  credential's override and then by the package's grant, under the credential's bound.\<close>

definition served_versions :: "('v, 'w) app \<Rightarrow> db \<Rightarrow> uuid \<Rightarrow> access \<Rightarrow> policy_override \<Rightarrow> string
    \<Rightarrow> (sql_error, version_row list) result" where
  "served_versions a db repo acc policy package = and_then (update_policy db repo) (\<lambda>(repo_mode, repo_cooldown).
     case effective policy repo_mode repo_cooldown of (mode, cooldown) \<Rightarrow>
     (case effective (grant_policy db repo package) mode cooldown of (mode, cooldown) \<Rightarrow>
        visible_versions (app_parse a) (app_vcmp a) db (app_now a) repo package mode cooldown
          (lb_until (bound_for acc package)) (lb_major (bound_for acc package))))"

definition split_p2 :: "string \<Rightarrow> (string \<times> bool) option" where
  "split_p2 rest = map_option (\<lambda>stem. case strip_suffix ''~dev'' stem of Some p \<Rightarrow> (p, True) | None \<Rightarrow> (stem, False))
     (strip_suffix ''.json'' rest)"

definition serve_p2 :: "('v, 'w) app \<Rightarrow> db \<Rightarrow> repo_location \<Rightarrow> string \<Rightarrow> string \<Rightarrow> request
    \<Rightarrow> (app_error, response) result \<times> db" where
  "serve_p2 a db loc base rest rq = (case authorize a db (loc_repo_id loc) rq of (r, db) \<Rightarrow>
     (and_then r (\<lambda>(acc, policy). and_then (ok_or AppNotFound (split_p2 rest)) (\<lambda>(package, is_dev).
        if is_dev \<or> \<not> access_allows db acc (loc_repo_id loc) package
        then Inr (Json (JObj [(''packages'', JObj [(package, JArr [])])]))
        else and_then (map_err AppCatalog (served_versions a db (loc_repo_id loc) acc policy package)) (\<lambda>vs.
          Inr (Json (render_package (app_flat a) package vs base))))), db))"

section \<open>Downloads\<close>

definition DIST_PRESIGN_SECS :: nat where
  "DIST_PRESIGN_SECS = 300"

text \<open>A slice of a \<open>str\<close> panics off a character boundary; \<open>u8::from_str_radix\<close> admits a plus sign.\<close>

definition is_char_boundary :: "string \<Rightarrow> nat \<Rightarrow> bool" where
  "is_char_boundary s i \<longleftrightarrow> i = 0 \<or> i = length s \<or> i < length s \<and> \<not> cont (of_char (s ! i))"

fun hex_u8 :: "string \<Rightarrow> byte option" where
  "hex_u8 [c, d] = (if c = CHR ''+'' then map_option of_nat (unhex d)
     else (case (unhex c, unhex d) of (Some h, Some l) \<Rightarrow> Some (of_nat (16 * h + l)) | _ \<Rightarrow> None))"
| "hex_u8 _ = None"

fun hex_pairs :: "string \<Rightarrow> nat \<Rightarrow> nat \<Rightarrow> (app_error, bytes option) result" where
  "hex_pairs s i 0 = Inr (Some [])"
| "hex_pairs s i (Suc n) =
     (if \<not> is_char_boundary s (i * 2) \<or> \<not> is_char_boundary s (i * 2 + 2) then Inl Panicked
      else (case hex_u8 (take 2 (drop (i * 2) s)) of
          None \<Rightarrow> Inr None
        | Some b \<Rightarrow> and_then (hex_pairs s (Suc i) n) (\<lambda>r. Inr (map_option (Cons b) r))))"

definition parse_hex32 :: "string \<Rightarrow> (app_error, bytes option) result" where
  "parse_hex32 s = (if length s \<noteq> 64 then Inr None else hex_pairs s 0 32)"

definition serve_blob :: "('v, 'w) app \<Rightarrow> 'w world \<Rightarrow> bytes \<Rightarrow> (app_error, response) result \<times> 'w world" where
  "serve_blob a w blob = (case any_presigned (app_rt a) (app_store a) blob DIST_PRESIGN_SECS of
     Some url \<Rightarrow> (case any_exists (app_rt a) (app_store a) w blob of (r, w) \<Rightarrow>
       (and_then (map_err AppStorage r) (\<lambda>there. if there then Inr (Found url) else Inl AppNotFound), w))
   | None \<Rightarrow> (case any_get (app_rt a) (app_store a) w blob of (r, w) \<Rightarrow>
       (and_then (map_err AppStorage r) (\<lambda>x. case x of Some bs \<Rightarrow> Inr (Zip bs) | None \<Rightarrow> Inl AppNotFound), w)))"

text \<open>What a download opens: the blob, or the error that answers it.\<close>

definition upstream_blob :: "db \<Rightarrow> uuid \<Rightarrow> access \<Rightarrow> string \<Rightarrow> (app_error, bytes) result" where
  "upstream_blob db repo acc path = and_then (ok_or AppNotFound (dist_by_upstream_path db repo path)) (\<lambda>(name, sha).
     if access_allows db acc repo name then Inr sha else Inl AppNotFound)"

definition dist_ref :: "string \<Rightarrow> (app_error, (string \<times> bytes) option) result" where
  "dist_ref rest = (case rsplit_once (CHR ''/'') rest of
     None \<Rightarrow> Inr None
   | Some (package, file) \<Rightarrow> (case strip_suffix ''.zip'' file of
       None \<Rightarrow> Inr None
     | Some h \<Rightarrow> and_then (parse_hex32 h) (\<lambda>sha. Inr (map_option (Pair package) sha))))"

definition dist_blob :: "db \<Rightarrow> uuid \<Rightarrow> access \<Rightarrow> string \<Rightarrow> (app_error, bytes) result" where
  "dist_blob db repo acc rest = and_then (dist_ref rest) (\<lambda>x. case x of
     None \<Rightarrow> upstream_blob db repo acc (''dist/'' @ rest)
   | Some (package, sha) \<Rightarrow>
       if \<not> access_allows db acc repo package \<or> \<not> repo_serves_dist db repo package sha then Inl AppNotFound
       else Inr sha)"

definition serve_resolved :: "('v, 'w) app \<Rightarrow> 'w world \<Rightarrow> (app_error, bytes) result
    \<Rightarrow> (app_error, response) result \<times> 'w world" where
  "serve_resolved a w r = (case r of Inl e \<Rightarrow> (Inl e, w) | Inr blob \<Rightarrow> serve_blob a w blob)"

definition serve_dist :: "('v, 'w) app \<Rightarrow> db \<Rightarrow> 'w world \<Rightarrow> repo_location \<Rightarrow> string \<Rightarrow> request
    \<Rightarrow> (app_error, response) result \<times> db \<times> 'w world" where
  "serve_dist a db w loc rest rq = (case authorize a db (loc_repo_id loc) rq of (r, db) \<Rightarrow>
     (case serve_resolved a w (and_then r (\<lambda>(acc, _). dist_blob db (loc_repo_id loc) acc rest)) of (r, w) \<Rightarrow> (r, db, w)))"

definition serve_upstream_path :: "('v, 'w) app \<Rightarrow> db \<Rightarrow> 'w world \<Rightarrow> uuid \<Rightarrow> string \<Rightarrow> request
    \<Rightarrow> (app_error, response) result \<times> db \<times> 'w world" where
  "serve_upstream_path a db w repo path rq = (case authorize a db repo rq of (r, db) \<Rightarrow>
     (case serve_resolved a w (and_then r (\<lambda>(acc, _). upstream_blob db repo acc path)) of (r, w) \<Rightarrow> (r, db, w)))"

section \<open>The handlers by slug\<close>

definition at_location :: "(app_error, string + repo_location) result \<Rightarrow> 's
    \<Rightarrow> (repo_location \<Rightarrow> (app_error, response) result \<times> 's) \<Rightarrow> (app_error, response) result \<times> 's" where
  "at_location r s k = (case r of Inl e \<Rightarrow> (Inl e, s) | Inr (Inl to) \<Rightarrow> (Inr (Moved to), s) | Inr (Inr loc) \<Rightarrow> k loc)"

definition loc_base :: "('v, 'w) app \<Rightarrow> repo_location \<Rightarrow> string" where
  "loc_base a loc = repo_base (app_base_url a) (loc_org_slug loc) (loc_repo_slug loc)"

definition packages_json where
  "packages_json a db org repo rq =
     at_location (locate db org repo ''packages.json'') db (\<lambda>loc. serve_root a db loc (loc_base a loc) rq)"

definition p2 where
  "p2 a db org repo rest rq =
     at_location (locate db org repo (''p2/'' @ rest)) db (\<lambda>loc. serve_p2 a db loc (loc_base a loc) rest rq)"

definition dist where
  "dist a db w org repo rest rq =
     at_location (locate db org repo (''dist/'' @ rest)) (db, w) (\<lambda>loc. serve_dist a db w loc rest rq)"

definition upstream_dist where
  "upstream_dist a db w org repo path rq =
     at_location (locate db org repo path) (db, w) (\<lambda>loc. serve_upstream_path a db w (loc_repo_id loc) path rq)"

section \<open>Custom domains\<close>

definition request_authority :: "request \<Rightarrow> string option" where
  "request_authority rq = (case rq_uri_authority rq of Some a \<Rightarrow> Some a | None \<Rightarrow> Option.bind (rq_host rq) header_str)"

definition domain_part :: "string \<Rightarrow> string option" where
  "domain_part authority =
     (if starts_with ''['' authority then None
      else Some (ascii_lower (trim_end_char (CHR ''.'')
             (case rsplit_once (CHR '':'') authority of None \<Rightarrow> authority | Some (h, _) \<Rightarrow> h))))"

fun split_str :: "string \<Rightarrow> string \<Rightarrow> (string \<times> string) option" where
  "split_str p [] = None"
| "split_str p (c # s) = (case strip_prefix p (c # s) of Some r \<Rightarrow> Some ([], r)
     | None \<Rightarrow> map_option (\<lambda>(a, b). (c # a, b)) (split_str p s))"

definition base_scheme_and_host :: "string \<Rightarrow> string \<times> string option" where
  "base_scheme_and_host base_url =
     (let (scheme, rest) = (case split_str ''://'' base_url of Some sr \<Rightarrow> sr | None \<Rightarrow> (''https'', base_url))
      in (if ascii_lower scheme = ''http'' then ''http'' else ''https'', domain_part (split_part1 (CHR ''/'') rest)))"

datatype routed = MainHost | Domain repo_location string

definition by_host :: "('v, 'w) app \<Rightarrow> db \<Rightarrow> request \<Rightarrow> routed" where
  "by_host a db rq =
     (let (scheme, main_host) = base_scheme_and_host (app_base_url a)
      in case request_authority rq of None \<Rightarrow> MainHost
       | Some authority \<Rightarrow> (case domain_part authority of None \<Rightarrow> MainHost
          | Some host \<Rightarrow> if main_host = Some host then MainHost
              else (case repo_by_custom_domain db host of None \<Rightarrow> MainHost
                 | Some loc \<Rightarrow> Domain loc (scheme @ ''://'' @ authority))))"

definition domain_packages_json where
  "domain_packages_json a db loc base rq = serve_root a db loc base rq"

definition domain_p2 where
  "domain_p2 a db loc base rest rq = serve_p2 a db loc base rest rq"

definition domain_dist where
  "domain_dist a db w loc rest rq = serve_dist a db w loc rest rq"

definition domain_upstream_dist where
  "domain_upstream_dist a db w loc path rq = serve_upstream_path a db w (loc_repo_id loc) path rq"

section \<open>What a credential's stamp leaves alone\<close>

lemma tokens_scope [simp]:
  "package_of (db\<lparr>tokens := ts\<rparr>) = package_of db"
  "reaches (db\<lparr>tokens := ts\<rparr>) = reaches db"
  "member_exists (db\<lparr>tokens := ts\<rparr>) = member_exists db"
  "served_scope (db\<lparr>tokens := ts\<rparr>) = served_scope db"
  "repo_named (db\<lparr>tokens := ts\<rparr>) = repo_named db"
  by (auto intro!: ext simp: package_of_def reaches_def granted_def grant_rule_exists_def set_has_def
      member_exists_def served_scope_def repo_named_def)

lemma tokens_serving [simp]:
  "in_package (db\<lparr>tokens := ts\<rparr>) = in_package db"
  "repo_serves_dist (db\<lparr>tokens := ts\<rparr>) = repo_serves_dist db"
  "anonymous_package_names (db\<lparr>tokens := ts\<rparr>) = anonymous_package_names db"
  "all_package_names (db\<lparr>tokens := ts\<rparr>) = all_package_names db"
  "dist_by_upstream_path (db\<lparr>tokens := ts\<rparr>) = dist_by_upstream_path db"
  "access_allows (db\<lparr>tokens := ts\<rparr>) = access_allows db"
  by (intro ext; simp add: in_package_def repo_serves_dist_def anonymous_package_names_def
      all_package_names_def dist_by_upstream_path_def access_allows_def
      cong: option.case_cong list.case_cong if_cong split: access.split)+

lemma tokens_set_covers [simp]: "set_covers (db\<lparr>tokens := ts\<rparr>) = set_covers db"
  by (intro ext) (simp add: set_covers_def set_has_def)

lemma tokens_credentials [simp]:
  "token_covers (db\<lparr>tokens := ts\<rparr>) = token_covers db"
  "repo_settings_of (db\<lparr>tokens := ts\<rparr>) = repo_settings_of db"
  "resolve_license sha now (db\<lparr>tokens := ts\<rparr>) = resolve_license sha now db"
  "license_policy (db\<lparr>tokens := ts\<rparr>) = license_policy db"
  "entitled_package_bounds (db\<lparr>tokens := ts\<rparr>) = entitled_package_bounds db"
  by (intro ext; simp add: token_covers_def repo_settings_of_def resolve_license_def license_policy_def
      license_at_def entitled_package_bounds_def direct_edges_def set_edges_def set_covers_def)+

lemma dist_blob_tokens [simp]: "dist_blob (db\<lparr>tokens := ts\<rparr>) = dist_blob db"
  by (intro ext) (simp add: dist_blob_def upstream_blob_def cong: option.case_cong)

lemma stamp_matches:
  "token_matches sha now db repo k (t\<lparr>t_last_used := x\<rparr>) = token_matches sha now db repo k t"
  "token_matches sha now (db\<lparr>tokens := ts\<rparr>) = token_matches sha now db"
  by (auto intro!: ext simp: token_matches_def token_covers_def)

lemma resolve_token_policy_again:
  assumes "resolve_token_policy sha now db repo k = (p, db')"
  shows "fst (resolve_token_policy sha now db' repo k) = p"
proof -
  have "db' = db\<lparr>tokens := upd_where (token_matches sha now db repo k) (\<lambda>t. t\<lparr>t_last_used := Some now\<rparr>) (tokens db)\<rparr>"
    using assms by (auto simp: resolve_token_policy_def stamp_tokens_def)
  then show ?thesis
    using assms by (auto simp: resolve_token_policy_def stamp_matches select_one_upd_where
        option.map_comp o_def intro!: option.map_cong)
qed

lemma authorize_cases:
  assumes "authorize a db repo rq = (r, db')"
  obtains (anonymous) "rq_authorization rq = None" "db' = db"
      "r = and_then (map_err AppCatalog (repo_settings_of db repo))
        (\<lambda>st. if st_anonymous st then Inr (Anonymous, no_override) else Inl AppUnauthorized)"
  | (malformed) "rq_authorization rq \<noteq> None" "extract_token (app_b64 a) rq = None" "db' = db" "r = Inl AppUnauthorized"
  | (credential) k p where "rq_authorization rq \<noteq> None" "extract_token (app_b64 a) rq = Some k"
      "resolve_token_policy (rt_sha (app_rt a)) (app_now a) db repo k = (p, db')"
      "r = (case p of Some policy \<Rightarrow> Inr (Full, policy)
         | None \<Rightarrow> (case resolve_license (rt_sha (app_rt a)) (app_now a) db' repo k of
             None \<Rightarrow> Inl AppUnauthorized
           | Some lic \<Rightarrow> and_then (map_err AppCatalog (license_policy db' lic))
               (\<lambda>policy. Inr (Licensed (entitled_package_bounds db' lic), policy))))"
  using assms by (auto simp: authorize_def split: if_splits option.splits prod.splits)

lemma resolve_token_policy_frame:
  "resolve_token_policy sha now db repo k = (p, db') \<Longrightarrow> \<exists>ts. db' = db\<lparr>tokens := ts\<rparr>"
  by (auto simp: resolve_token_policy_def stamp_tokens_def)

lemma authorize_frame:
  assumes "authorize a db repo rq = (r, db')" shows "\<exists>ts. db' = db\<lparr>tokens := ts\<rparr>"
proof -
  have same: "\<exists>ts. db = db\<lparr>tokens := ts\<rparr>" by (rule exI[where x = "tokens db"]) simp
  show ?thesis using assms by (cases rule: authorize_cases) (auto simp: same dest: resolve_token_policy_frame)
qed

lemma authorize_again:
  assumes "authorize a db repo rq = (r, db')" shows "fst (authorize a db' repo rq) = r"
  using assms
proof (cases rule: authorize_cases)
  case (credential k p)
  obtain ts where ts: "db' = db\<lparr>tokens := ts\<rparr>" using resolve_token_policy_frame[OF credential(3)] by blast
  obtain db2 where r2: "resolve_token_policy (rt_sha (app_rt a)) (app_now a) db' repo k = (p, db2)"
    using resolve_token_policy_again[OF credential(3)] by (metis prod.collapse)
  obtain ts2 where "db2 = db'\<lparr>tokens := ts2\<rparr>" using resolve_token_policy_frame[OF r2] by blast
  with credential r2 show ?thesis by (auto simp: authorize_def split: option.splits)
qed (auto simp: authorize_def)

section \<open>Digests in URLs\<close>

definition hex_pair :: "byte \<Rightarrow> string" where
  "hex_pair b = [''0123456789abcdef'' ! unat (drop_bit 4 b), ''0123456789abcdef'' ! unat (b AND 0x0f)]"

lemma hex_byte_Cons: "hex (b # bs) = hex_pair b @ hex bs"
  by (simp add: hex_def hex_pair_def hex_digit_def)

lemma hex_u8_pair: "hex_u8 (hex_pair b) = Some b"
proof -
  have p: "''0123456789abcdef'' ! n \<noteq> CHR ''+''" if "n < 16" for n :: nat
  proof -
    have "\<forall>n\<in>set [0..<16]. ''0123456789abcdef'' ! n \<noteq> CHR ''+''" by code_simp
    with that show ?thesis by simp
  qed
  have "(of_nat (16 * unat (drop_bit 4 b) + unat (b AND 0x0f)) :: byte) = b"
    by (simp only: nibbles) simp
  then show ?thesis by (simp add: hex_pair_def unhex_lower nibble_lt p)
qed

lemma hex_ascii: "c \<in> set (hex bs) \<Longrightarrow> \<not> cont (of_char c)"
proof (induction bs)
  case (Cons b bs)
  have "\<forall>n\<in>set [0..<16]. \<not> cont (of_char (''0123456789abcdef'' ! n))" by code_simp
  then have p: "\<not> cont (of_char (''0123456789abcdef'' ! n))" if "n < 16" for n :: nat
    using that by simp
  from Cons p[OF nibble_lt(1)[of b]] p[OF nibble_lt(2)[of b]] show ?case
    unfolding hex_byte_Cons hex_pair_def by (simp del: nth_Cons_numeral) blast
qed (simp add: hex_def)

lemma hex_boundary: "i \<le> length (hex bs) \<Longrightarrow> is_char_boundary (hex bs) i"
  using hex_ascii[OF nth_mem, of i bs] by (auto simp: is_char_boundary_def simp del: length_hex)

lemma hex_append: "hex (as @ bs) = hex as @ hex bs"
  by (simp add: hex_def)

lemma hex_pairs_hex: "hex_pairs (hex (as @ bs)) (length as) (length bs) = Inr (Some bs)"
proof (induction bs arbitrary: as)
  case (Cons b bs)
  have "take 2 (drop (length as * 2) (hex (as @ b # bs))) = hex_pair b"
    by (simp add: hex_append hex_byte_Cons hex_pair_def mult.commute)
  moreover have "is_char_boundary (hex (as @ b # bs)) (length as * 2)"
    "is_char_boundary (hex (as @ b # bs)) (length as * 2 + 2)"
    by (rule hex_boundary; simp)+
  moreover have "hex_pairs (hex (as @ b # bs)) (Suc (length as)) (length bs) = Inr (Some bs)"
    using Cons.IH[of "as @ [b]"] by simp
  ultimately show ?case by (simp add: hex_u8_pair)
qed simp

lemma parse_hex32_hex: "length b = 32 \<Longrightarrow> parse_hex32 (hex b) = Inr (Some b)"
  using hex_pairs_hex[of "[]" b] by (simp add: parse_hex32_def)

lemma dist_ref_url:
  assumes "length b = 32" shows "dist_ref (package @ ''/'' @ hex b @ ''.zip'') = Inr (Some (package, b))"
proof -
  have "rsplit_once (CHR ''/'') (package @ ''/'' @ hex b @ ''.zip'') = Some (package, hex b @ ''.zip'')"
    using hex_no_slash[of b] by (simp add: rsplit_once_Some)
  moreover have "strip_suffix ''.zip'' (hex b @ ''.zip'') = Some (hex b)" by (simp add: strip_suffix_Some)
  ultimately show ?thesis using parse_hex32_hex[OF assms] by (simp add: dist_ref_def)
qed

lemma json_get_insert: "map_of (obj_insert k v m) k' = (if k' = k then Some v else map_of m k')"
  by (induction m) auto

lemma version_entry_url:
  assumes "v_blob v = Some b" "length b = 32"
  shows "\<exists>d. json_get ''dist'' (version_entry name v base) = Some d
    \<and> json_get ''url'' d = Some (JStr (base @ ''/dist/'' @ name @ ''/'' @ hex b @ ''.zip''))"
  using assms by (auto simp: version_entry_def Let_def json_get_insert pad32_def split: option.split)

lemma map_err_Inr: "map_err f r = Inr x \<longleftrightarrow> r = Inr x"
  by (cases r) auto

section \<open>What a download opens\<close>

lemma serve_blob_Inr:
  assumes "bucket_service (rt_http (app_rt a)) objs" "serve_blob a w blob = (Inr x, w')"
  shows "(\<exists>bs. x = Zip bs \<and> any_contents objs (app_store a) w blob = Some bs)
    \<or> (\<exists>url. x = Found url \<and> any_presigned (app_rt a) (app_store a) blob DIST_PRESIGN_SECS = Some url
         \<and> any_contents objs (app_store a) w blob \<noteq> None)"
proof -
  note st = any_blob_store[OF assms(1), of "app_store a"]
  show ?thesis
    using assms(2) blob_store.exists_ok[OF st] blob_store.get_ok[OF st]
    by (fastforce simp: serve_blob_def and_then_Inr_iff map_err_Inr split: option.splits prod.splits if_splits)
qed


lemma serve_resolved_Inr:
  assumes "bucket_service (rt_http (app_rt a)) objs" "serve_resolved a w r = (Inr x, w')"
  shows "\<exists>blob. r = Inr blob \<and> ((\<exists>bs. x = Zip bs \<and> any_contents objs (app_store a) w blob = Some bs)
    \<or> (\<exists>url. x = Found url \<and> any_presigned (app_rt a) (app_store a) blob DIST_PRESIGN_SECS = Some url
         \<and> any_contents objs (app_store a) w blob \<noteq> None))"
proof (cases r)
  case (Inr blob)
  with assms(2) have "serve_blob a w blob = (Inr x, w')" by (simp add: serve_resolved_def)
  from serve_blob_Inr[OF assms(1) this] Inr show ?thesis by simp
qed (use assms(2) in \<open>simp add: serve_resolved_def\<close>)

lemma serve_dist_Inr:
  assumes "serve_dist a db w loc rest rq = (Inr x, db', w')"
  shows "\<exists>acc policy. authorize a db (loc_repo_id loc) rq = (Inr (acc, policy), db')
    \<and> serve_resolved a w (dist_blob db (loc_repo_id loc) acc rest) = (Inr x, w')"
proof -
  obtain r db1 where a: "authorize a db (loc_repo_id loc) rq = (r, db1)" by fastforce
  then obtain ts where "db1 = db\<lparr>tokens := ts\<rparr>" using authorize_frame by blast
  with assms a show ?thesis
    by (cases r) (auto simp: serve_dist_def serve_resolved_def split: prod.splits)
qed

lemma dist_blob_Inr:
  assumes "dist_blob db repo acc rest = Inr blob"
  shows "\<exists>package. access_allows db acc repo package \<and>
    (dist_ref rest = Inr (Some (package, blob)) \<and> repo_serves_dist db repo package blob
     \<or> dist_ref rest = Inr None \<and> dist_by_upstream_path db repo (''dist/'' @ rest) = Some (package, blob))"
proof -
  obtain x where x: "dist_ref rest = Inr x" using assms by (auto simp: dist_blob_def and_then_Inr_iff)
  show ?thesis
  proof (cases x)
    case None
    with assms x show ?thesis by (auto simp: dist_blob_def upstream_blob_def and_then_Inr_iff split: if_splits)
  next
    case (Some y)
    then obtain package sha where y: "x = Some (package, sha)" by (cases y) simp
    with assms x show ?thesis by (auto simp: dist_blob_def split: if_splits)
  qed
qed

text \<open>A blob either route opens is the dist of a version that has not been withdrawn, of a package of that
  name that the repository serves.\<close>

definition opens :: "db \<Rightarrow> uuid \<Rightarrow> string \<Rightarrow> bytes \<Rightarrow> version_row \<Rightarrow> package_row \<Rightarrow> bool" where
  "opens db repo package blob v p \<longleftrightarrow> v \<in> set (versions db) \<and> v_blob v = Some blob \<and> v_yanked v = None
     \<and> package_of db v = Some p \<and> p \<in> set (packages db) \<and> p_name p = package \<and> reaches db repo p"

lemma repo_serves_dist_opens:
  assumes "repo_serves_dist db repo package blob" shows "\<exists>v p. opens db repo package blob v p"
proof -
  obtain r v where r: "repo_named db repo = Some r" and v: "v \<in> set (versions db)" "in_package db r package v"
      "v_blob v = Some blob" "v_yanked v = None"
    using assms by (auto simp: repo_serves_dist_def split: option.splits)
  obtain p where "package_of db v = Some p" "p \<in> set (packages db)" "p_name p = package" "served_scope db r p"
    using in_packageD[OF v(2)] by blast
  with v repo_namedD[OF r] show ?thesis by (auto simp: opens_def served_scope_def)
qed

lemma upstream_path_opens:
  assumes "dist_by_upstream_path db repo path = Some (package, blob)"
  shows "\<exists>v p. opens db repo package blob v p"
proof -
  obtain r where r: "repo_named db repo = Some r"
    using assms unfolding dist_by_upstream_path_def by (cases "repo_named db repo") simp_all
  define P where "P v \<longleftrightarrow> v_dist_path v = Some path \<and> v_yanked v = None \<and> (case package_of db v of None \<Rightarrow> False
      | Some p \<Rightarrow> (p_repo p = repo \<or> member_exists db repo p) \<and> (r_allow_private r \<or> p_visibility p = Public))" for v
  define f where "f v = (case (package_of db v, v_blob v) of (Some p, Some b) \<Rightarrow> if length b = 32 then Some (p_name p, b) else None
     | _ \<Rightarrow> None)" for v
  have e: "(case sort_key v_id (filter P (versions db)) of [] \<Rightarrow> None | v # _ \<Rightarrow> f v) = Some (package, blob)"
    using assms unfolding dist_by_upstream_path_def r P_def f_def by simp
  then obtain v vs where s: "sort_key v_id (filter P (versions db)) = v # vs" and f: "f v = Some (package, blob)"
    by (cases "sort_key v_id (filter P (versions db))") auto
  have "v \<in> set (filter P (versions db))" using s by (metis list.set_intros(1) set_sort)
  then have v: "v \<in> set (versions db)" "P v" by auto
  then obtain p where p: "package_of db v = Some p" by (cases "package_of db v") (auto simp: P_def)
  have "p_name p = package" "v_blob v = Some blob"
    using f p by (auto simp: f_def split: option.splits if_splits)
  with v p show ?thesis using package_of_SomeD[OF p] by (auto simp: opens_def reaches_def P_def)
qed

lemma dist_blob_opens:
  assumes "dist_blob db repo acc rest = Inr blob"
  shows "\<exists>package v p. access_allows db acc repo package \<and> opens db repo package blob v p"
  using dist_blob_Inr[OF assms] repo_serves_dist_opens upstream_path_opens by blast

lemma anonymous_opens_public:
  assumes "access_allows db Anonymous repo package" "opens db repo package blob v p"
  shows "p_visibility p = Public"
proof -
  obtain n where n: "n \<in> set (anonymous_package_names db repo (Some package))"
    using assms(1) by (auto simp: access_allows_def) (metis list.set_intros(1) neq_Nil_conv)
  then have "n = package" by (auto simp: anonymous_package_names_def Let_def)
  with assms(2) n show ?thesis using anonymous_name_public by (auto simp: opens_def)
qed

lemma no_header_anonymous:
  assumes "authorize a db repo rq = (Inr (acc, policy), db')" "rq_authorization rq = None"
  shows "acc = Anonymous \<and> db' = db \<and> (\<exists>r. repo_named db repo = Some r \<and> r_anonymous r)"
  using assms by (auto simp: authorize_def and_then_Inr_iff map_err_Inr repo_settings_of_def split: if_splits)

section \<open>Answers and the caching middleware\<close>

record http_response =
  hr_status :: nat
  hr_location :: "string option"
  hr_content_type :: "string option"
  hr_vary :: "string list"
  hr_cache_control :: "string option"
  hr_etag :: "string option"
  hr_body :: "bytes option"

definition plain_response :: "nat \<Rightarrow> bytes \<Rightarrow> http_response" where
  "plain_response code body = \<lparr>hr_status = code, hr_location = None, hr_content_type = None, hr_vary = [],
     hr_cache_control = None, hr_etag = None, hr_body = Some body\<rparr>"

text \<open>\<open>IntoResponse\<close>, with \<open>ser\<close> the JSON serializer; \<open>Redirect::permanent\<close> answers 308. A panic
  answers nothing.\<close>

fun into_response :: "(json \<Rightarrow> bytes) \<Rightarrow> (app_error, response) result \<Rightarrow> http_response option" where
  "into_response ser (Inl e) = map_option (\<lambda>c. plain_response c []) (error_code e)"
| "into_response ser (Inr (Moved to)) = Some ((plain_response 308 [])\<lparr>hr_location := Some to\<rparr>)"
| "into_response ser (Inr (Json j)) = Some ((plain_response 200 (ser j))\<lparr>hr_content_type := Some ''application/json''\<rparr>)"
| "into_response ser (Inr (Found url)) = Some ((plain_response 302 [])\<lparr>hr_location := Some url\<rparr>)"
| "into_response ser (Inr (Zip bs)) = Some ((plain_response 200 bs)\<lparr>hr_content_type := Some ''application/zip''\<rparr>)"

datatype cache_kind = Metadata | Dist

definition METADATA_MAX_AGE :: nat where "METADATA_MAX_AGE = 60"
definition DIST_MAX_AGE :: nat where "DIST_MAX_AGE = 86400"
definition REDIRECT_MAX_AGE :: nat where "REDIRECT_MAX_AGE = 60"

definition matches_etag :: "string \<Rightarrow> string \<Rightarrow> bool" where
  "matches_etag header etag = (case header_str header of None \<Rightarrow> False
     | Some l \<Rightarrow> list_ex (\<lambda>c. c = ''*'' \<or> (case strip_prefix ''W/'' c of Some r \<Rightarrow> r | None \<Rightarrow> c) = etag)
         (map trim (split_on (CHR '','') l)))"

definition etag_of :: "(bytes \<Rightarrow> bytes) \<Rightarrow> bytes \<Rightarrow> string" where
  "etag_of sha body = CHR 0x22 # hex (take 16 (sha body)) @ [CHR 0x22]"

definition with_etag :: "(bytes \<Rightarrow> bytes) \<Rightarrow> http_response \<Rightarrow> string option \<Rightarrow> http_response" where
  "with_etag sha resp if_none_match = (case hr_body resp of
     None \<Rightarrow> plain_response 500 []
   | Some bs \<Rightarrow>
       let etag = etag_of sha bs; resp = resp\<lparr>hr_etag := Some etag\<rparr>
       in if (case if_none_match of None \<Rightarrow> False | Some v \<Rightarrow> matches_etag v etag)
          then resp\<lparr>hr_status := 304, hr_content_type := None, hr_body := Some []\<rparr> else resp)"

definition max_age_of :: "cache_kind \<Rightarrow> nat \<Rightarrow> nat option" where
  "max_age_of k code = (case k of
     Metadata \<Rightarrow> if code = 200 then Some METADATA_MAX_AGE else None
   | Dist \<Rightarrow> if code = 200 then Some DIST_MAX_AGE else if code = 302 then Some REDIRECT_MAX_AGE else None)"

definition cache :: "(bytes \<Rightarrow> bytes) \<Rightarrow> cache_kind \<Rightarrow> request \<Rightarrow> http_response \<Rightarrow> http_response" where
  "cache sha k rq resp =
     (let code = hr_status resp;
          resp = resp\<lparr>hr_vary := hr_vary resp @ [''Authorization'']\<rparr>;
          scp = (if rq_authorization rq = None then ''public'' else ''private'')
      in if code < 200 \<or> 400 \<le> code then resp\<lparr>hr_cache_control := Some ''no-store''\<rparr>
         else (case max_age_of k code of
             None \<Rightarrow> resp
           | Some n \<Rightarrow>
               let resp = resp\<lparr>hr_cache_control := Some (scp @ '', max-age='' @ show_nat n)\<rparr>
               in if k = Metadata \<and> code = 200 then with_etag sha resp (rq_if_none_match rq) else resp))"

lemma cache_public:
  assumes "hr_cache_control (cache sha k rq resp) = Some cc" "starts_with ''public'' cc" "hr_cache_control resp = None"
  shows "rq_authorization rq = None \<and> hr_status resp \<in> {200, 302}"
  using assms
  by (auto simp: cache_def with_etag_def plain_response_def max_age_of_def Let_def starts_with_def
      split: if_splits option.splits cache_kind.splits)

section \<open>A small registry, for the concrete instances\<close>

definition demo_headers :: "string option \<Rightarrow> request" where
  "demo_headers auth = \<lparr>rq_authorization = auth, rq_if_none_match = None, rq_uri_authority = None, rq_host = Some ''acme.test:443''\<rparr>"

definition demo_app :: "(unit, string \<Rightarrow> bytes option) app" where
  "demo_app = \<lparr>app_store = FsStore ''s'', app_base_url = ''https://r.test'', app_rt = demo_rt, app_now = 200000,
     app_b64 = (\<lambda>s. if s = ''OmtleQ=='' then Some (str_bytes '':key'') else None), app_parse = (\<lambda>_. None), app_vcmp = (\<lambda>_ _. Equal),
     app_root = (\<lambda>b ns. JArr (map JStr ns)), app_flat = (\<lambda>ps. JObj (map (\<lambda>(n, vs). (n, JArr vs)) ps))\<rparr>"

definition demo_bytes :: bytes where "demo_bytes = [7, 7]"

definition demo_sha32 :: bytes where "demo_sha32 = rt_sha demo_rt demo_bytes"

definition demo_store :: "(string \<Rightarrow> bytes option) world" where
  "demo_store = demo_world\<lparr>w_fs := (w_fs demo_world)\<lparr>fs_files :=
     (\<lambda>p. if p = snd (paths_for ''s'' demo_sha32) then Some demo_bytes else None)\<rparr>\<rparr>"

definition demo_registry :: db where
  "demo_registry = demo_db\<lparr>orgs := [\<lparr>o_id = 1, o_slug = ''acme'', o_name = None\<rparr>],
     repos := [demo_repo\<lparr>r_domain := Some ''acme.test''\<rparr>],
     versions := [demo_v1\<lparr>v_blob := Some demo_sha32\<rparr>, demo_v2\<lparr>v_dist_path := Some ''archive/b.zip''\<rparr>],
     tokens := [\<lparr>t_id = 70, t_hash = rt_sha demo_rt (str_bytes ''key''), t_label = None, t_repo = Some 10, t_org = None,
        t_origin = ''manual'', t_created = 0, t_last_used = None, t_expires = None, t_mode = None, t_cooldown = None\<rparr>]\<rparr>"

definition demo_loc :: repo_location where
  "demo_loc = \<lparr>loc_repo_id = 10, loc_org_slug = ''acme'', loc_repo_slug = ''main'', loc_moved = False\<rparr>"

section \<open>Properties\<close>

text \<open>What is public in a repository: a name, and a version.\<close>

definition public_name :: "db \<Rightarrow> uuid \<Rightarrow> string \<Rightarrow> bool" where
  "public_name db repo n \<longleftrightarrow> (\<exists>p\<in>set (packages db). p_name p = n \<and> p_visibility p = Public \<and> reaches db repo p)"

definition public_version :: "db \<Rightarrow> uuid \<Rightarrow> string \<Rightarrow> version_row \<Rightarrow> bool" where
  "public_version db repo package v \<longleftrightarrow> v \<in> set (versions db) \<and> v_yanked v = None
     \<and> (\<exists>p. package_of db v = Some p \<and> p_name p = package \<and> p_visibility p = Public \<and> reaches db repo p)"

lemma anonymous_names_public: "list_all (public_name db repo) (anonymous_package_names db repo only)"
proof -
  have "public_name db repo n" if n: "n \<in> set (anonymous_package_names db repo only)" for n
  proof -
    obtain p where "p \<in> set (packages db)" "reaches db repo p" "p_name p = n"
      using n by (auto simp: anonymous_package_names_def Let_def)
    with anonymous_name_public[OF n] show ?thesis unfolding public_name_def by blast
  qed
  then show ?thesis by (simp add: list_all_iff)
qed

lemma access_allows_anonymous:
  "access_allows db Anonymous repo package \<Longrightarrow> package \<in> set (anonymous_package_names db repo (Some package))"
  using list.set_sel(1)[of "anonymous_package_names db repo (Some package)"]
  by (auto simp: access_allows_def anonymous_package_names_def Let_def)

lemma anonymous_versions_public:
  assumes "access_allows db Anonymous repo package" "served_versions a db repo acc policy package = Inr vs"
  shows "list_all (public_version db repo package) vs"
proof -
  note n = access_allows_anonymous[OF assms(1)]
  have "public_version db repo package v" if v: "v \<in> set vs" for v
  proof -
    obtain mode cd u m where "visible_versions (app_parse a) (app_vcmp a) db (app_now a) repo package mode cd u m = Inr vs"
      using assms(2) unfolding served_versions_def and_then_Inr_iff by (clarsimp split: prod.splits) (metis surj_pair)
    from visible_versions_mem[OF this] v obtain r where r: "repo_named db repo = Some r" "in_package db r package v"
        and v: "v \<in> set (versions db)" "v_yanked v = None"
      by (auto simp: policy_gate_def)
    from r(2) obtain p where p: "package_of db v = Some p" "p \<in> set (packages db)" "p_name p = package" "served_scope db r p"
      by (rule in_packageD)
    then have re: "reaches db repo p" using repo_namedD[OF r(1)] by (auto simp: served_scope_def)
    show ?thesis using anonymous_name_public[OF n re p(2,3)] v p re by (auto simp: public_version_def)
  qed
  then show ?thesis by (simp add: list_all_iff)
qed

text \<open>The four routes, once the repository is found.\<close>

definition served_at :: "('v, 'w) app \<Rightarrow> db \<Rightarrow> 'w world \<Rightarrow> repo_location \<Rightarrow> string \<Rightarrow> request \<Rightarrow> response \<Rightarrow> db \<Rightarrow> 'w world \<Rightarrow> bool" where
  "served_at a db w loc rest rq x db' w' \<longleftrightarrow> serve_dist a db w loc rest rq = (Inr x, db', w')
     \<or> serve_upstream_path a db w (loc_repo_id loc) rest rq = (Inr x, db', w')
     \<or> serve_root a db loc (loc_base a loc) rq = (Inr x, db') \<or> serve_p2 a db loc (loc_base a loc) rest rq = (Inr x, db')"

lemma at_location_served:
  assumes "at_location (locate db org repo suffix) s k = (Inr x, s')" "\<And>to. x \<noteq> Moved to"
  shows "\<exists>loc. resolve_repo_canonical db org repo = Some loc \<and> k loc = (Inr x, s')"
  using assms by (auto simp: at_location_def locate_def and_then_Inr_iff split: sum.splits option.splits if_splits)

lemma route_served:
  assumes "kind = Dist \<and> (dist a db w org repo rest rq = (Inr x, db', w') \<or> upstream_dist a db w org repo rest rq = (Inr x, db', w'))
      \<or> kind = Metadata \<and> (packages_json a db org repo rq = (Inr x, db') \<or> p2 a db org repo rest rq = (Inr x, db'))"
    and "\<And>to. x \<noteq> Moved to"
  shows "\<exists>loc. resolve_repo_canonical db org repo = Some loc \<and> served_at a db w loc rest rq x db' w'"
  using assms(1) unfolding dist_def upstream_dist_def packages_json_def p2_def served_at_def
  by (elim disjE conjE) (drule at_location_served[OF _ assms(2)], blast)+

lemma serve_upstream_path_Inr:
  assumes "serve_upstream_path a db w repo path rq = (Inr x, db', w')"
  shows "\<exists>acc policy. authorize a db repo rq = (Inr (acc, policy), db')
    \<and> serve_resolved a w (upstream_blob db repo acc path) = (Inr x, w')"
proof -
  obtain r db1 where a: "authorize a db repo rq = (r, db1)" by fastforce
  then obtain ts where "db1 = db\<lparr>tokens := ts\<rparr>" using authorize_frame by blast
  with assms a show ?thesis
    by (cases r) (auto simp: serve_upstream_path_def serve_resolved_def upstream_blob_def split: prod.splits)
qed

lemma served_at_authorized:
  assumes "served_at a db w loc rest rq x db' w'" shows "\<exists>acc policy. authorize a db (loc_repo_id loc) rq = (Inr (acc, policy), db')"
  using assms unfolding served_at_def
  by (auto dest!: serve_dist_Inr serve_upstream_path_Inr simp: serve_root_def serve_p2_def and_then_Inr_iff split: prod.splits)

lemma upstream_blob_opens:
  assumes "upstream_blob db repo acc path = Inr blob"
  shows "\<exists>package v p. access_allows db acc repo package \<and> opens db repo package blob v p"
  using assms upstream_path_opens by (fastforce simp: upstream_blob_def and_then_Inr_iff split: if_splits option.splits)

lemma anonymous_blob_public:
  assumes "\<exists>package v p. access_allows db Anonymous repo package \<and> opens db repo package blob v p"
  shows "\<exists>package v. public_version db repo package v \<and> v_blob v = Some blob"
  using assms anonymous_opens_public unfolding public_version_def opens_def by blast

lemma resolved_publicly:
  assumes "bucket_service (rt_http (app_rt a)) objs"
    and "\<forall>i b. any_contents objs (app_store a) w i = Some b \<longrightarrow> rt_sha (app_rt a) b = i"
    and "serve_resolved a w b = (Inr x, w')"
    and "\<And>blob. b = Inr blob \<Longrightarrow> \<exists>package v p. access_allows db Anonymous repo package \<and> opens db repo package blob v p"
  shows "case x of Moved to \<Rightarrow> False | Json j \<Rightarrow> False
    | Zip bs \<Rightarrow> (\<exists>package v. public_version db repo package v \<and> v_blob v = Some (rt_sha (app_rt a) bs))
    | Found url \<Rightarrow> (\<exists>package v blob. public_version db repo package v \<and> v_blob v = Some blob
        \<and> any_presigned (app_rt a) (app_store a) blob DIST_PRESIGN_SECS = Some url)"
proof -
  obtain blob where b: "b = Inr blob"
      and x: "(\<exists>bs. x = Zip bs \<and> any_contents objs (app_store a) w blob = Some bs)
       \<or> (\<exists>url. x = Found url \<and> any_presigned (app_rt a) (app_store a) blob DIST_PRESIGN_SECS = Some url
         \<and> any_contents objs (app_store a) w blob \<noteq> None)"
    using serve_resolved_Inr[OF assms(1,3)] by blast
  obtain package v where "public_version db repo package v" "v_blob v = Some blob"
    using anonymous_blob_public[OF assms(4)[OF b]] by blast
  with x assms(2) show ?thesis by fastforce
qed

lemma served_publicly:
  assumes "bucket_service (rt_http (app_rt a)) objs"
    and "\<forall>i b. any_contents objs (app_store a) w i = Some b \<longrightarrow> rt_sha (app_rt a) b = i"
    and "served_at a db w loc rest rq x db' w'"
    and "authorize a db (loc_repo_id loc) rq = (Inr (Anonymous, policy), db)" "\<And>to. x \<noteq> Moved to"
  shows "case x of
          Moved to \<Rightarrow> False
        | Json j \<Rightarrow> (\<exists>names. j = render_root (app_root a) names (loc_base a loc) \<and> list_all (public_name db (loc_repo_id loc)) names)
            \<or> (\<exists>package. j = JObj [(''packages'', JObj [(package, JArr [])])])
            \<or> (\<exists>package vs. j = render_package (app_flat a) package vs (loc_base a loc)
                 \<and> list_all (public_version db (loc_repo_id loc) package) vs)
        | Zip bs \<Rightarrow> (\<exists>package v. public_version db (loc_repo_id loc) package v \<and> v_blob v = Some (rt_sha (app_rt a) bs))
        | Found url \<Rightarrow> (\<exists>package v blob. public_version db (loc_repo_id loc) package v \<and> v_blob v = Some blob
            \<and> any_presigned (app_rt a) (app_store a) blob DIST_PRESIGN_SECS = Some url)"
  using assms(3)[unfolded served_at_def]
proof (elim disjE)
  assume "serve_dist a db w loc rest rq = (Inr x, db', w')"
  from serve_dist_Inr[OF this] assms(4) have "serve_resolved a w (dist_blob db (loc_repo_id loc) Anonymous rest) = (Inr x, w')" by auto
  note R = resolved_publicly[OF assms(1,2) this, of db "loc_repo_id loc"]
  have "case x of Moved to \<Rightarrow> False | Json j \<Rightarrow> False
    | Zip bs \<Rightarrow> (\<exists>package v. public_version db (loc_repo_id loc) package v \<and> v_blob v = Some (rt_sha (app_rt a) bs))
    | Found url \<Rightarrow> (\<exists>package v blob. public_version db (loc_repo_id loc) package v \<and> v_blob v = Some blob
        \<and> any_presigned (app_rt a) (app_store a) blob DIST_PRESIGN_SECS = Some url)"
    by (rule R) (erule dist_blob_opens)
  then show ?thesis by (cases x) auto
next
  assume "serve_upstream_path a db w (loc_repo_id loc) rest rq = (Inr x, db', w')"
  from serve_upstream_path_Inr[OF this] assms(4)
  have "serve_resolved a w (upstream_blob db (loc_repo_id loc) Anonymous rest) = (Inr x, w')" by auto
  note R = resolved_publicly[OF assms(1,2) this, of db "loc_repo_id loc"]
  have "case x of Moved to \<Rightarrow> False | Json j \<Rightarrow> False
    | Zip bs \<Rightarrow> (\<exists>package v. public_version db (loc_repo_id loc) package v \<and> v_blob v = Some (rt_sha (app_rt a) bs))
    | Found url \<Rightarrow> (\<exists>package v blob. public_version db (loc_repo_id loc) package v \<and> v_blob v = Some blob
        \<and> any_presigned (app_rt a) (app_store a) blob DIST_PRESIGN_SECS = Some url)"
    by (rule R) (erule upstream_blob_opens)
  then show ?thesis by (cases x) auto
next
  assume "serve_root a db loc (loc_base a loc) rq = (Inr x, db')"
  then have "x = Json (render_root (app_root a) (anonymous_package_names db (loc_repo_id loc) None) (loc_base a loc))"
    using assms(4) by (auto simp: serve_root_def listed_names_def)
  then show ?thesis using anonymous_names_public by auto
next
  assume "serve_p2 a db loc (loc_base a loc) rest rq = (Inr x, db')"
  then show ?thesis using assms(4) anonymous_versions_public
    by (fastforce simp: serve_p2_def and_then_Inr_iff map_err_Inr split: if_splits option.splits)
qed

text \<open>C17: what a shared cache may keep is public: an answer of the Composer read routes (the documents and
  the downloads) that is marked \<open>public\<close> went to a request without a credential, in a repository with
  anonymous access. A root document so marked is the one over the names open to anonymous readers, each the
  name of a public package the repository serves; a package document is the empty one or lists only versions,
  not withdrawn, of public packages the repository serves under that name; a download carries (or redirects
  to) the blob of such a version, and bytes sent are the bytes of that digest.\<close>

theorem shared_cache_only_public:
  assumes "bucket_service (rt_http (app_rt a)) objs"
    and "\<forall>i b. any_contents objs (app_store a) w i = Some b \<longrightarrow> rt_sha (app_rt a) b = i"
    and route: "kind = Dist \<and> (dist a db w org repo rest rq = (Inr x, db', w') \<or> upstream_dist a db w org repo rest rq = (Inr x, db', w'))
      \<or> kind = Metadata \<and> (packages_json a db org repo rq = (Inr x, db') \<or> p2 a db org repo rest rq = (Inr x, db'))"
    and "into_response ser (Inr x) = Some resp"
    and "hr_cache_control (cache (rt_sha (app_rt a)) kind rq resp) = Some cc" "starts_with ''public'' cc"
  shows "rq_authorization rq = None \<and> (\<exists>loc r. resolve_repo_canonical db org repo = Some loc
     \<and> repo_named db (loc_repo_id loc) = Some r \<and> r_anonymous r
     \<and> (case x of
          Moved to \<Rightarrow> False
        | Json j \<Rightarrow> (\<exists>names. j = render_root (app_root a) names (loc_base a loc) \<and> list_all (public_name db (loc_repo_id loc)) names)
            \<or> (\<exists>package. j = JObj [(''packages'', JObj [(package, JArr [])])])
            \<or> (\<exists>package vs. j = render_package (app_flat a) package vs (loc_base a loc)
                 \<and> list_all (public_version db (loc_repo_id loc) package) vs)
        | Zip bs \<Rightarrow> (\<exists>package v. public_version db (loc_repo_id loc) package v \<and> v_blob v = Some (rt_sha (app_rt a) bs))
        | Found url \<Rightarrow> (\<exists>package v blob. public_version db (loc_repo_id loc) package v \<and> v_blob v = Some blob
            \<and> any_presigned (app_rt a) (app_store a) blob DIST_PRESIGN_SECS = Some url)))"
proof -
  have "hr_cache_control resp = None" using assms(4) by (cases x) (auto simp: plain_response_def)
  note pub = cache_public[OF assms(5,6) this]
  have m: "x \<noteq> Moved to" for to using pub assms(4) by (auto simp: plain_response_def)
  obtain loc where loc: "resolve_repo_canonical db org repo = Some loc"
      and d: "served_at a db w loc rest rq x db' w'"
    using route_served[OF route m] by blast
  obtain acc policy where acc: "authorize a db (loc_repo_id loc) rq = (Inr (acc, policy), db')"
    using served_at_authorized[OF d] by blast
  obtain r where r: "repo_named db (loc_repo_id loc) = Some r" "r_anonymous r" and an: "acc = Anonymous" "db' = db"
    using no_header_anonymous[OF acc conjunct1[OF pub]] by blast
  note pubs = served_publicly[OF assms(1,2) d acc[unfolded an] m]
  show ?thesis using pub loc r pubs by blast
qed

text \<open>C19: a package document and the download route agree: every dist URL a credential is shown is one that
  the same credential can fetch, and it opens exactly the blob of that version.\<close>

theorem p2_dist_downloadable:
  assumes "authorize a db (loc_repo_id loc) rq = (Inr (acc, policy), db1)"
    and "split_p2 rest = Some (package, False)" "access_allows db1 acc (loc_repo_id loc) package"
    and "served_versions a db1 (loc_repo_id loc) acc policy package = Inr vs"
    and "v \<in> set vs" "v_blob v = Some b" "length b = 32"
  shows "serve_p2 a db loc base rest rq = (Inr (Json (render_package (app_flat a) package vs base)), db1)
     \<and> (\<exists>d. json_get ''dist'' (version_entry package v root) = Some d
         \<and> json_get ''url'' d = Some (JStr (root @ ''/dist/'' @ package @ ''/'' @ hex b @ ''.zip'')))
     \<and> fst (serve_dist a db1 w loc (package @ ''/'' @ hex b @ ''.zip'') rq) = fst (serve_blob a w b)"
proof -
  obtain mode cooldown where "visible_versions (app_parse a) (app_vcmp a) db1 (app_now a) (loc_repo_id loc) package mode cooldown
      (lb_until (bound_for acc package)) (lb_major (bound_for acc package)) = Inr vs"
    using assms(4) unfolding served_versions_def split_def by (auto simp: and_then_Inr_iff)
  then have served: "repo_serves_dist db1 (loc_repo_id loc) package b"
    using assms(5,6) by (auto simp: visible_versions_mem repo_serves_dist_def policy_gate_def)
  obtain r db2 where a2: "authorize a db1 (loc_repo_id loc) rq = (r, db2)" by fastforce
  have r: "r = Inr (acc, policy)" using authorize_again[OF assms(1)] a2 by simp
  obtain ts where ts: "db2 = db1\<lparr>tokens := ts\<rparr>" using authorize_frame[OF a2] by blast
  have "dist_blob db2 (loc_repo_id loc) acc (package @ ''/'' @ hex b @ ''.zip'') = Inr b"
    unfolding ts dist_blob_tokens unfolding dist_blob_def dist_ref_url[OF assms(7)] using served assms(3) by simp
  then have "fst (serve_dist a db1 w loc (package @ ''/'' @ hex b @ ''.zip'') rq) = fst (serve_blob a w b)"
    using a2 r by (simp add: serve_dist_def serve_resolved_def split: prod.split)
  moreover have "serve_p2 a db loc base rest rq = (Inr (Json (render_package (app_flat a) package vs base)), db1)"
    using assms(1-4) by (simp add: serve_p2_def)
  ultimately show ?thesis using version_entry_url[OF assms(6,7)] by blast
qed

text \<open>The license keys a credential opens a repository with.\<close>

definition key_opens :: "('v, 'w) app \<Rightarrow> uuid \<Rightarrow> string \<Rightarrow> license_row \<Rightarrow> bool" where
  "key_opens a repo k l \<longleftrightarrow> l_repo l = repo \<and> l_hash l = token_hash (rt_sha (app_rt a)) k \<and> l_status l = ''active''
     \<and> live (app_now a) (l_expires l)"

lemma resolve_token_policy_exact:
  assumes "resolve_token_policy sha now db repo k = (p, db')"
  shows "db' = db\<lparr>tokens := upd_where (token_matches sha now db repo k) (\<lambda>t. t\<lparr>t_last_used := Some now\<rparr>) (tokens db)\<rparr>
    \<and> (if \<exists>t\<in>set (tokens db). token_matches sha now db repo k t
       then \<exists>t\<in>set (tokens db). token_matches sha now db repo k t \<and> p = Some \<lparr>po_mode = t_mode t, po_cooldown = t_cooldown t\<rparr>
       else p = None)"
proof (cases "select_one (token_matches sha now db repo k) (tokens db)")
  case None
  then show ?thesis using assms by (auto simp: resolve_token_policy_def stamp_tokens_def select_one_None)
next
  case (Some t)
  then show ?thesis using assms select_one_Some[OF Some] by (auto simp: resolve_token_policy_def stamp_tokens_def)
qed

lemma resolve_license_exact:
  assumes "distinct (map l_id (licenses db))"
  shows "if \<exists>l\<in>set (licenses db). key_opens a repo k l
    then \<exists>l\<in>set (licenses db). key_opens a repo k l \<and> resolve_license (rt_sha (app_rt a)) (app_now a) db repo k = Some (l_id l)
      \<and> license_policy db (l_id l) = Inr \<lparr>po_mode = l_mode l, po_cooldown = l_cooldown l\<rparr>
    else resolve_license (rt_sha (app_rt a)) (app_now a) db repo k = None"
proof -
  have res: "resolve_license (rt_sha (app_rt a)) (app_now a) db repo k = map_option l_id (select_one (key_opens a repo k) (licenses db))"
    unfolding resolve_license_def key_opens_def live_def by simp
  show ?thesis
  proof (cases "select_one (key_opens a repo k) (licenses db)")
    case None
    then show ?thesis by (auto simp: res select_one_None)
  next
    case (Some l)
    note l = select_one_Some[OF Some]
    have "license_at db (l_id l) = Some l"
      using select_one_key[OF assms conjunct1[OF l], of "\<lambda>x. l_id x = l_id l"] by (simp add: license_at_def)
    then have "license_policy db (l_id l) = Inr \<lparr>po_mode = l_mode l, po_cooldown = l_cooldown l\<rparr>"
      by (simp add: license_policy_def)
    then show ?thesis using l Some by (auto simp: res)
  qed
qed

text \<open>C18: what a request may read, decided exactly. Without a header the repository's anonymous flag decides,
  and nothing is written. A header that carries no token is refused. A token is stamped as used where it
  matches, and gives full access under its own policy exactly if a live token row of the repository or its
  organization has its hash; otherwise it gives what its license lists exactly if an active, unexpired key of
  the repository has its hash; otherwise it is refused.\<close>

theorem authorize_exact:
  assumes "distinct (map l_id (licenses db))" and "authorize a db repo rq = (r, db')"
  shows "case rq_authorization rq of
     None \<Rightarrow> db' = db \<and> (case repo_named db repo of
         None \<Rightarrow> r = Inl (AppCatalog RowNotFound)
       | Some row \<Rightarrow> r = (if r_anonymous row then Inr (Anonymous, no_override) else Inl AppUnauthorized))
   | Some h \<Rightarrow> (case extract_token (app_b64 a) rq of
         None \<Rightarrow> db' = db \<and> r = Inl AppUnauthorized
       | Some k \<Rightarrow>
           db' = db\<lparr>tokens := upd_where (token_matches (rt_sha (app_rt a)) (app_now a) db repo k)
                              (\<lambda>t. t\<lparr>t_last_used := Some (app_now a)\<rparr>) (tokens db)\<rparr>
           \<and> (if \<exists>t\<in>set (tokens db). token_matches (rt_sha (app_rt a)) (app_now a) db repo k t
              then \<exists>t\<in>set (tokens db). token_matches (rt_sha (app_rt a)) (app_now a) db repo k t
                 \<and> r = Inr (Full, \<lparr>po_mode = t_mode t, po_cooldown = t_cooldown t\<rparr>)
              else if \<exists>l\<in>set (licenses db). key_opens a repo k l
              then \<exists>l\<in>set (licenses db). key_opens a repo k l
                 \<and> r = Inr (Licensed (entitled_package_bounds db (l_id l)), \<lparr>po_mode = l_mode l, po_cooldown = l_cooldown l\<rparr>)
              else r = Inl AppUnauthorized))"
  using assms(2)
proof (cases rule: authorize_cases)
  case anonymous
  then show ?thesis by (cases "repo_named db repo") (auto simp: repo_settings_of_def)
next
  case (credential k p)
  note tok = resolve_token_policy_exact[OF credential(3)]
  note lic = resolve_license_exact[OF assms(1), of a repo k]
  from credential(1) obtain h where h: "rq_authorization rq = Some h" by blast
  have lic': "and_then (map_err AppCatalog (license_policy db' i)) g = and_then (map_err AppCatalog (license_policy db i)) g"
    "resolve_license sha now db' repo k = resolve_license sha now db repo k"
    "entitled_package_bounds db' = entitled_package_bounds db" for g i sha now
    using tok by simp_all
  show ?thesis
  proof (cases "\<exists>t\<in>set (tokens db). token_matches (rt_sha (app_rt a)) (app_now a) db repo k t")
    case True
    with tok obtain t where t: "t \<in> set (tokens db)" "token_matches (rt_sha (app_rt a)) (app_now a) db repo k t"
        "p = Some \<lparr>po_mode = t_mode t, po_cooldown = t_cooldown t\<rparr>" by auto
    then show ?thesis using True tok credential(2,4) h by auto
  next
    case False
    then have p: "p = None" using tok by simp
    show ?thesis
    proof (cases "\<exists>l\<in>set (licenses db). key_opens a repo k l")
      case True
      with lic obtain l where l: "l \<in> set (licenses db)" "key_opens a repo k l"
          "resolve_license (rt_sha (app_rt a)) (app_now a) db repo k = Some (l_id l)"
          "license_policy db (l_id l) = Inr \<lparr>po_mode = l_mode l, po_cooldown = l_cooldown l\<rparr>" by auto
      have r: "r = Inr (Licensed (entitled_package_bounds db (l_id l)), \<lparr>po_mode = l_mode l, po_cooldown = l_cooldown l\<rparr>)"
        using credential(4) p l(3,4) by (simp add: lic')
      show ?thesis using False True l(1,2) r tok credential(2) h by auto
    next
      case n: False
      then have "r = Inl AppUnauthorized" using credential(4) p lic by (simp add: lic')
      then show ?thesis using False n tok credential(2) h by auto
    qed
  qed
qed (auto)

lemma serve_root_base:
  "\<exists>answer db'. (\<forall>base. serve_root a db loc base rq = (answer base, db'))
     \<and> ((\<exists>e. answer = (\<lambda>_. Inl e)) \<or> (\<exists>names. answer = (\<lambda>b. Inr (Json (render_root (app_root a) names b)))))"
proof -
  obtain r db' where "authorize a db (loc_repo_id loc) rq = (r, db')" by fastforce
  then show ?thesis
    by (cases r) (auto simp: serve_root_def intro!: exI[where x = "\<lambda>b. fst (serve_root a db loc b rq)"])
qed

lemma serve_p2_base:
  "\<exists>answer db'. (\<forall>base. serve_p2 a db loc base rest rq = (answer base, db'))
     \<and> ((\<exists>r. answer = (\<lambda>_. r)) \<or> (\<exists>package vs. answer = (\<lambda>b. Inr (Json (render_package (app_flat a) package vs b)))))"
proof -
  obtain r db' where a: "authorize a db (loc_repo_id loc) rq = (r, db')" by fastforce
  have eq: "serve_p2 a db loc b rest rq = (fst (serve_p2 a db loc b rest rq), db')" for b by (simp add: serve_p2_def a)
  have "(\<exists>r. (\<lambda>b. fst (serve_p2 a db loc b rest rq)) = (\<lambda>_. r))
     \<or> (\<exists>package vs. (\<lambda>b. fst (serve_p2 a db loc b rest rq)) = (\<lambda>b. Inr (Json (render_package (app_flat a) package vs b))))"
  proof (cases r)
    case (Inr x)
    obtain acc policy where x: "x = (acc, policy)" by fastforce
    show ?thesis
    proof (cases "split_p2 rest")
      case (Some y)
      obtain package is_dev where y: "y = (package, is_dev)" by fastforce
      show ?thesis
        using a Inr x Some y by (cases "is_dev \<or> \<not> access_allows db' acc (loc_repo_id loc) package";
          cases "served_versions a db' (loc_repo_id loc) acc policy package") (auto simp: serve_p2_def)
    qed (use a Inr in \<open>auto simp: serve_p2_def split_def\<close>)
  qed (use a in \<open>auto simp: serve_p2_def\<close>)
  then show ?thesis
    by (intro exI[where x = "\<lambda>b. fst (serve_p2 a db loc b rest rq)"] exI[where x = db'] conjI allI eq)
qed

text \<open>C20: a custom domain serves what the repository's own URL serves: the root document, a package document
  and the two download routes of a domain answer every request, state included, exactly as the routes under
  the current slugs do; only the base of the URLs in the documents is the domain's.\<close>

theorem domain_same_as_slug:
  assumes "distinct (map o_id (orgs db))" "distinct (map o_slug (orgs db))"
    and "distinct (map (\<lambda>r. (r_org r, r_slug r)) (repos db))"
    and "by_host a db rq = Domain loc base"
  shows "domain_dist a db w loc rest rq = dist a db w (loc_org_slug loc) (loc_repo_slug loc) rest rq
     \<and> domain_upstream_dist a db w loc path rq = upstream_dist a db w (loc_org_slug loc) (loc_repo_slug loc) path rq
     \<and> packages_json a db (loc_org_slug loc) (loc_repo_slug loc) rq = domain_packages_json a db loc (loc_base a loc) rq
     \<and> p2 a db (loc_org_slug loc) (loc_repo_slug loc) rest rq = domain_p2 a db loc (loc_base a loc) rest rq
     \<and> (\<exists>answer db'. domain_packages_json a db loc base rq = (answer base, db')
          \<and> packages_json a db (loc_org_slug loc) (loc_repo_slug loc) rq = (answer (loc_base a loc), db')
          \<and> ((\<exists>e. answer = (\<lambda>_. Inl e)) \<or> (\<exists>names. answer = (\<lambda>b. Inr (Json (render_root (app_root a) names b))))))
     \<and> (\<exists>answer db'. domain_p2 a db loc base rest rq = (answer base, db')
          \<and> p2 a db (loc_org_slug loc) (loc_repo_slug loc) rest rq = (answer (loc_base a loc), db')
          \<and> ((\<exists>r. answer = (\<lambda>_. r)) \<or> (\<exists>package vs. answer = (\<lambda>b. Inr (Json (render_package (app_flat a) package vs b))))))"
proof -
  obtain host where h: "repo_by_custom_domain db host = Some loc"
    using assms(4) by (auto simp: by_host_def Let_def split: option.splits if_splits prod.splits)
  then obtain r g where r: "r \<in> set (repos db)" and g: "org_with_id db (r_org r) = Some g"
      and loc: "loc = \<lparr>loc_repo_id = r_id r, loc_org_slug = o_slug g, loc_repo_slug = r_slug r, loc_moved = False\<rparr>"
    by (auto simp: repo_by_custom_domain_def Let_def split: option.splits dest!: select_one_Some)
  have g': "g \<in> set (orgs db)" "o_id g = r_org r" using g by (auto simp: org_with_id_def dest!: select_one_Some)
  have "resolve_repo_canonical db (o_slug g) (r_slug r) = Some loc"
    using select_one_key[OF assms(2) g'(1), of "\<lambda>x. o_slug x = o_slug g"]
      select_one_key[OF assms(3) r, of "\<lambda>x. r_org x = r_org r \<and> r_slug x = r_slug r"] g'(2)
    by (simp add: resolve_repo_canonical_def locate_org_def locate_repo_def org_by_slug_def repo_by_slug_def loc)
  then have l: "locate db (loc_org_slug loc) (loc_repo_slug loc) s = Inr (Inr loc)" for s by (simp add: locate_def loc)
  note routes = domain_packages_json_def domain_p2_def packages_json_def p2_def at_location_def l
  show ?thesis using serve_root_base[of a db loc rq] serve_p2_base[of a db loc rest rq]
    by (simp add: routes domain_dist_def dist_def domain_upstream_dist_def upstream_dist_def) metis
qed

lemma demo_integrity:
  "\<forall>i b. any_contents (\<lambda>w. w) (app_store demo_app) demo_store i = Some b \<longrightarrow> rt_sha (app_rt demo_app) b = i"
  by (auto simp: demo_app_def demo_store_def fs_contents_def demo_sha32_def split: if_splits)

lemma demo_app_rt: "rt_http demo_rt = demo_bucket" "app_rt demo_app = demo_rt"
  by (simp_all add: demo_app_def demo_rt_def)

lemma fst_pair: "fst x = r \<Longrightarrow> x = (r, snd x)"
  by auto

lemma fst_triple: "fst x = r \<Longrightarrow> x = (r, fst (snd x), snd (snd x))"
  by auto

abbreviation "demo_url \<equiv> ''a/b'' @ ''/'' @ hex demo_sha32 @ ''.zip''"

lemma shared_cache_only_public_witness:
  "\<exists>package v. public_version demo_registry 10 package v \<and> v_blob v = Some (rt_sha demo_rt demo_bytes)"
proof -
  have "fst (dist demo_app demo_registry demo_store ''acme'' ''main'' demo_url (demo_headers None)) = Inr (Zip demo_bytes)"
    by code_simp
  note d = fst_triple[OF this]
  have c: "hr_cache_control (cache (rt_sha demo_rt) Dist (demo_headers None)
        ((plain_response 200 demo_bytes)\<lparr>hr_content_type := Some ''application/zip''\<rparr>))
      = Some (''public'' @ '', max-age='' @ show_nat DIST_MAX_AGE)"
    by (simp add: cache_def plain_response_def max_age_of_def demo_headers_def)
  have "starts_with ''public'' (''public'' @ '', max-age='' @ show_nat DIST_MAX_AGE)" by (simp add: starts_with_def)
  note h = shared_cache_only_public[where ser = "\<lambda>_. []" and objs = "\<lambda>w. w" and a = demo_app and w = demo_store
      and db = demo_registry and kind = Dist, OF _ demo_integrity _ into_response.simps(5), unfolded demo_app_rt, OF demo_bucket_service _ c this]
  have l: "resolve_repo_canonical demo_registry ''acme'' ''main'' = Some demo_loc" by code_simp
  show ?thesis using h[OF disjI1, OF conjI, OF refl disjI1, OF d] l by (auto simp: demo_loc_def)
qed

lemma p2_dist_downloadable_witness:
  "fst (serve_dist demo_app (snd (authorize demo_app demo_registry 10 (demo_headers (Some ''Bearer key'')))) demo_store demo_loc
      demo_url (demo_headers (Some ''Bearer key''))) = fst (serve_blob demo_app demo_store demo_sha32)"
proof -
  let ?rq = "demo_headers (Some ''Bearer key'')"
  let ?db1 = "snd (authorize demo_app demo_registry 10 ?rq)"
  let ?v = "demo_v1\<lparr>v_blob := Some demo_sha32\<rparr>"
  have l: "loc_repo_id demo_loc = 10" by (simp add: demo_loc_def)
  have "fst (authorize demo_app demo_registry 10 ?rq) = Inr (Full, no_override)" by code_simp
  note 1 = fst_pair[OF this, folded l]
  have 2: "split_p2 ''a/b.json'' = Some (''a/b'', False)" by code_simp
  have 3: "access_allows ?db1 Full (loc_repo_id demo_loc) ''a/b''" by (simp add: access_allows_def)
  have 4: "served_versions demo_app ?db1 (loc_repo_id demo_loc) Full no_override ''a/b''
      = Inr [?v, demo_v2\<lparr>v_dist_path := Some ''archive/b.zip''\<rparr>]" by code_simp
  have 5: "v_blob ?v = Some demo_sha32" "length demo_sha32 = 32" by code_simp+
  note h = p2_dist_downloadable[where w = demo_store, OF 1 2 3[folded l] 4[folded l] _ 5, THEN conjunct2, THEN conjunct2]
  show ?thesis using h by (simp add: l)
qed

lemma authorize_exact_witness:
  "\<exists>t. t \<in> set (tokens demo_registry) \<and> t_hash t = token_hash (rt_sha demo_rt) ''key''
     \<and> fst (authorize demo_app demo_registry 10 (demo_headers (Some ''Basic OmtleQ=='')))
       = Inr (Full, \<lparr>po_mode = t_mode t, po_cooldown = t_cooldown t\<rparr>)"
proof -
  let ?rq = "demo_headers (Some ''Basic OmtleQ=='')"
  have 1: "distinct (map l_id (licenses demo_registry))" by code_simp
  have x: "extract_token (app_b64 demo_app) ?rq = Some ''key''" by code_simp
  have m: "list_ex (token_matches (rt_sha demo_rt) (app_now demo_app) demo_registry 10 ''key'') (tokens demo_registry)" by code_simp
  have h: "rq_authorization ?rq = Some ''Basic OmtleQ==''" by (simp add: demo_headers_def)
  have m': "\<exists>t\<in>set (tokens demo_registry). token_matches (rt_sha demo_rt) (app_now demo_app) demo_registry 10 ''key'' t"
    using m by (simp add: list_ex_iff)
  from authorize_exact[OF 1 prod.collapse[symmetric], of demo_app 10 ?rq]
  show ?thesis using m' by (auto simp: h x demo_app_rt token_matches_def)
qed

lemma domain_same_as_slug_witness:
  "domain_dist demo_app demo_registry demo_store demo_loc demo_url (demo_headers (Some ''Bearer key''))
     = dist demo_app demo_registry demo_store ''acme'' ''main'' demo_url (demo_headers (Some ''Bearer key''))
   \<and> snd (domain_packages_json demo_app demo_registry demo_loc ''https://acme.test:443'' (demo_headers (Some ''Bearer key'')))
     = snd (packages_json demo_app demo_registry ''acme'' ''main'' (demo_headers (Some ''Bearer key'')))"
proof -
  have "distinct (map o_id (orgs demo_registry))" "distinct (map o_slug (orgs demo_registry))"
    "distinct (map (\<lambda>r. (r_org r, r_slug r)) (repos demo_registry))"
    "by_host demo_app demo_registry (demo_headers (Some ''Bearer key'')) = Domain demo_loc ''https://acme.test:443''" by code_simp+
  from domain_same_as_slug[OF this, of demo_store demo_url "[]"] show ?thesis by (simp add: demo_loc_def) (metis snd_conv)
qed

text \<open>A digest segment of 64 bytes with a multi-byte character across its third byte is not a bad
  request: slicing it panics, so the download handler dies without an answer for anyone it lets in.\<close>

theorem dist_panics_off_boundary:
  assumes "length h = 64" "cont (of_char (h ! 2))" "CHR ''/'' \<notin> set h"
    and "fst (authorize a db (loc_repo_id loc) rq) = Inr (acc, policy)"
  shows "fst (serve_dist a db w loc (package @ ''/'' @ h @ ''.zip'') rq) = Inl Panicked"
proof -
  have "parse_hex32 h = Inl Panicked"
    using assms(1,2) by (simp add: parse_hex32_def numeral_eq_Suc is_char_boundary_def)
  moreover have "rsplit_once (CHR ''/'') (package @ ''/'' @ h @ ''.zip'') = Some (package, h @ ''.zip'')"
    using assms(3) by (simp add: rsplit_once_Some)
  moreover have "strip_suffix ''.zip'' (h @ ''.zip'') = Some h" by (simp add: strip_suffix_Some)
  ultimately have "dist_ref (package @ ''/'' @ h @ ''.zip'') = Inl Panicked" by (simp add: dist_ref_def)
  then have "dist_blob db' repo acc (package @ ''/'' @ h @ ''.zip'') = Inl Panicked" for db' repo
    by (simp add: dist_blob_def)
  with assms(4) show ?thesis by (cases "authorize a db (loc_repo_id loc) rq") (simp add: serve_dist_def serve_resolved_def)
qed

lemma dist_panics_off_boundary_witness:
  "fst (serve_dist demo_app demo_registry demo_store demo_loc
      (''a/b'' @ ''/'' @ (CHR ''a'' # concat (replicate 21 [CHR 0xE2, CHR 0x82, CHR 0xAC])) @ ''.zip'') (demo_headers None)) = Inl Panicked
   \<and> valid_utf8 (map of_char (CHR ''a'' # concat (replicate 21 [CHR 0xE2, CHR 0x82, CHR 0xAC])))"
proof
  let ?h = "CHR ''a'' # concat (replicate 21 [CHR 0xE2, CHR 0x82, CHR 0xAC])"
  have h: "length ?h = 64" "cont (of_char (?h ! 2))" "CHR ''/'' \<notin> set ?h" by code_simp+
  have "fst (authorize demo_app demo_registry (loc_repo_id demo_loc) (demo_headers None)) = Inr (Anonymous, no_override)"
    by code_simp
  from dist_panics_off_boundary[OF h this]
  show "fst (serve_dist demo_app demo_registry demo_store demo_loc (''a/b'' @ ''/'' @ ?h @ ''.zip'') (demo_headers None)) = Inl Panicked" .
  show "valid_utf8 (map of_char ?h)" by code_simp
qed

section \<open>The human index\<close>

record index_package =
  ip_name :: string
  ip_latest :: "string option"
  ip_description :: "string option"
  ip_search_text :: string
  ip_hidden :: bool

record index_page =
  ix_title :: string
  ix_url :: string
  ix_key :: string
  ix_host :: string
  ix_anonymous :: bool
  ix_listed :: bool
  ix_total :: nat
  ix_shown :: nat
  ix_q :: string
  ix_packages :: "index_package list"

text \<open>\<open>lower\<close> is \<open>str::to_lowercase\<close>, whose Unicode tables are left out. The groups of the \<open>BTreeMap\<close> come in
  name order and keep the order of their versions.\<close>

definition newest_of :: "version_summary list \<Rightarrow> version_summary option" where
  "newest_of vs = (case find (\<lambda>v. vs_stability v = ''stable'') (rev vs) of Some v \<Rightarrow> Some v
     | None \<Rightarrow> if vs = [] then None else Some (last vs))"

definition summarize :: "(string \<Rightarrow> string) \<Rightarrow> version_summary list \<Rightarrow> index_package list" where
  "summarize lower vs = map (\<lambda>name.
     let newest = newest_of (filter (\<lambda>v. vs_name v = name) vs);
         description = (case Option.bind newest vs_description of Some d \<Rightarrow> if trim d = [] then None else Some d | None \<Rightarrow> None)
     in \<lparr>ip_name = name, ip_latest = map_option vs_version newest, ip_description = description,
         ip_search_text = lower (name @ '' '' @ (case description of Some d \<Rightarrow> d | None \<Rightarrow> [])), ip_hidden = False\<rparr>)
     (sorted_names (map vs_name vs))"

definition serve_index :: "('v, 'w) app \<Rightarrow> (string \<Rightarrow> string) \<Rightarrow> db \<Rightarrow> repo_location \<Rightarrow> string \<Rightarrow> string
    \<Rightarrow> request \<Rightarrow> string option \<Rightarrow> (app_error, index_page) result \<times> db" where
  "serve_index a lower db loc base title rq q =
     (case map_err AppCatalog (repo_settings_of db (loc_repo_id loc)) of
        Inl e \<Rightarrow> (Inl e, db)
      | Inr st \<Rightarrow>
         (case (if rq_authorization rq \<noteq> None \<or> st_anonymous st then Some (authorize a db (loc_repo_id loc) rq) else None) of
            Some (Inl e, db) \<Rightarrow> (Inl e, db)
          | acc \<Rightarrow>
             let (acc, db) = (case acc of Some (Inr x, db) \<Rightarrow> (Some x, db) | _ \<Rightarrow> (None, db))
             in (and_then (case acc of
                  None \<Rightarrow> Inr []
                | Some (acc, policy) \<Rightarrow> and_then (map_err AppCatalog (update_policy db (loc_repo_id loc))) (\<lambda>(repo_mode, repo_cooldown).
                    case effective policy repo_mode repo_cooldown of (mode, cooldown) \<Rightarrow>
                    Inr (summarize lower (filter (\<lambda>v. vs_name v \<in> set (listed_names db acc (loc_repo_id loc)))
                      (served_version_summaries (app_parse a) (app_vcmp a) db (app_now a) (loc_repo_id loc) mode cooldown)))))
                (\<lambda>packages.
                 let q = trim (case q of Some s \<Rightarrow> s | None \<Rightarrow> []);
                     terms = filter (\<lambda>t. t \<noteq> []) (split_seps utf8_ws [] (lower q));
                     packages = map (\<lambda>p. p\<lparr>ip_hidden := \<not> list_all (\<lambda>t. contains_sub t (ip_search_text p)) terms\<rparr>) packages
                 in Inr \<lparr>ix_title = title, ix_url = trim_end_char (CHR ''/'') base, ix_key = loc_repo_slug loc,
                     ix_host = split_part1 (CHR ''/'') (case split_str ''://'' base of Some (_, r) \<Rightarrow> r | None \<Rightarrow> base),
                     ix_anonymous = st_anonymous st, ix_listed = (acc \<noteq> None), ix_total = length packages,
                     ix_shown = length (filter (\<lambda>p. \<not> ip_hidden p) packages), ix_q = q, ix_packages = packages\<rparr>), db)))"

definition repo_index :: "('v, 'w) app \<Rightarrow> (string \<Rightarrow> string) \<Rightarrow> db \<Rightarrow> string \<Rightarrow> string \<Rightarrow> request
    \<Rightarrow> string option \<Rightarrow> (app_error, string + index_page) result \<times> db" where
  "repo_index a lower db org repo rq q = (case locate db org repo [] of
     Inl e \<Rightarrow> (Inl e, db)
   | Inr (Inl to) \<Rightarrow> (Inr (Inl to), db)
   | Inr (Inr loc) \<Rightarrow> (case serve_index a lower db loc (loc_base a loc) (loc_org_slug loc @ ''/'' @ loc_repo_slug loc) rq q of
       (r, db) \<Rightarrow> (and_then r (\<lambda>p. Inr (Inr p)), db)))"

definition domain_index where
  "domain_index a lower db loc base rq q = serve_index a lower db loc base
     (case domain_part (case split_str ''://'' base of Some (_, r) \<Rightarrow> r | None \<Rightarrow> base) of
        Some d \<Rightarrow> d | None \<Rightarrow> loc_repo_slug loc) rq q"

text \<open>The index names only packages the viewer may read.\<close>

lemma served_version_summaries_name:
  "v \<in> set (served_version_summaries parse vcmp db now repo mode cd) \<Longrightarrow> vs_name v \<in> set (all_package_names db repo)"
  by (force simp: served_version_summaries_def all_package_names_def map_filter_def
      dest: package_of_SomeD split: option.splits if_splits)

end
