(* ===== verification/Remotes.thy ===== *)
theory Remotes
  imports Reads
begin

text \<open>
  Team manifests: the git remotes registered to an organization and the snapshot source, database
  sources and recipe tasks configured on them (\<open>crates/sconce-catalog/src/lib.rs\<close>,
  \<open>normalize_git_remote\<close> and the \<open>*_remote_*\<close> operations), the commands that set them
  (\<open>crates/sconce/src/main.rs\<close>), and the two endpoints an organization's session token reads
  (\<open>list_org_repos\<close>, \<open>get_manifest\<close> in \<open>crates/sconce-server/src/lib.rs\<close>).
\<close>

section \<open>Normal form of a remote\<close>

definition authority :: "string \<Rightarrow> string" where
  "authority s = takeWhile (\<lambda>c. c \<noteq> CHR ''/'') s"

definition after_authority :: "string \<Rightarrow> string" where
  "after_authority s = dropWhile (\<lambda>c. c \<noteq> CHR ''/'') s"

definition is_port :: "string \<Rightarrow> bool" where
  "is_port s \<longleftrightarrow> (case s of [] \<Rightarrow> False | c # _ \<Rightarrow> is_digit c) \<and> list_all is_digit (authority s)"

definition normalize_git_remote :: "string \<Rightarrow> string" where
  "normalize_git_remote remote =
     (let s = ascii_lower (trim remote);
          s = (case split_str ''://'' s of Some (_, rest) \<Rightarrow> rest | None \<Rightarrow> s);
          s = (case split_once (CHR ''@'') (authority s) of Some (_, b) \<Rightarrow> b @ after_authority s | None \<Rightarrow> s);
          s = (case split_once (CHR '':'') (authority s) of
                 Some (a, b) \<Rightarrow> if is_port (b @ after_authority s) then s else a @ ''/'' @ b @ after_authority s
               | None \<Rightarrow> s);
          trimmed = (case strip_suffix ''.git'' s of Some t \<Rightarrow> t | None \<Rightarrow> s)
      in trim_end_char (CHR ''/'') (trim_start_char (CHR ''/'') trimmed))"

section \<open>The catalog\<close>

definition has_remote :: "string \<Rightarrow> remote_row \<Rightarrow> bool" where
  "has_remote remote m \<longleftrightarrow> rm_remote m = remote"

definition set_org_remote :: "uuid \<Rightarrow> db \<Rightarrow> string \<Rightarrow> string \<Rightarrow> (sql_error, uuid \<times> db) result" where
  "set_org_remote newid db org_slug remote = (case org_by_slug db org_slug of
     None \<Rightarrow> Inl RowNotFound
   | Some g \<Rightarrow> (case select_one (has_remote remote) (remotes_t db) of
       Some m \<Rightarrow> Inr (rm_id m, db\<lparr>remotes_t := upd_where (has_remote remote) (\<lambda>m. m\<lparr>rm_org := o_id g\<rparr>) (remotes_t db)\<rparr>)
     | None \<Rightarrow> Inr (newid, db\<lparr>remotes_t := remotes_t db @ [\<lparr>rm_id = newid, rm_org = o_id g, rm_remote = remote,
         rm_snap_repo = None, rm_snap_env = None, rm_snap_profile = None\<rparr>]\<rparr>)))"

definition org_for_remote :: "db \<Rightarrow> string \<Rightarrow> uuid option" where
  "org_for_remote db remote = map_option rm_org (select_one (has_remote remote) (remotes_t db))"

definition remotes_for_org :: "db \<Rightarrow> uuid \<Rightarrow> string list" where
  "remotes_for_org db org = sort (map rm_remote (filter (\<lambda>m. rm_org m = org) (remotes_t db)))"

definition of_remote :: "db \<Rightarrow> string \<Rightarrow> uuid \<Rightarrow> bool" where
  "of_remote db remote i \<longleftrightarrow> exists_where (\<lambda>m. rm_id m = i \<and> rm_remote m = remote) (remotes_t db)"

text \<open>\<open>on delete cascade\<close> drops the sources and the recipe tasks with the registration.\<close>

definition delete_org_remote :: "db \<Rightarrow> string \<Rightarrow> bool \<times> db" where
  "delete_org_remote db remote =
     (exists_where (has_remote remote) (remotes_t db),
      db\<lparr>remotes_t := del_where (has_remote remote) (remotes_t db),
         remote_sources := del_where (\<lambda>s. of_remote db remote (rsr_remote s)) (remote_sources db),
         remote_recipes := del_where (\<lambda>r. of_remote db remote (rr_remote r)) (remote_recipes db)\<rparr>)"

definition upd_remote :: "db \<Rightarrow> string \<Rightarrow> (remote_row \<Rightarrow> remote_row) \<Rightarrow> bool \<times> db" where
  "upd_remote db remote f =
     (exists_where (has_remote remote) (remotes_t db), db\<lparr>remotes_t := upd_where (has_remote remote) f (remotes_t db)\<rparr>)"

definition set_remote_snapshot :: "db \<Rightarrow> string \<Rightarrow> uuid \<Rightarrow> string \<Rightarrow> string option \<Rightarrow> (sql_error, bool \<times> db) result" where
  "set_remote_snapshot db remote snapshot_repo env profile =
     (if exists_where (has_remote remote) (remotes_t db) \<and> repo_named db snapshot_repo = None
      then Inl (ForeignKeyViolation ''org_remotes'')
      else Inr (upd_remote db remote (\<lambda>m. m\<lparr>rm_snap_repo := Some snapshot_repo, rm_snap_env := Some env, rm_snap_profile := profile\<rparr>)))"

definition clear_remote_snapshot :: "db \<Rightarrow> string \<Rightarrow> bool \<times> db" where
  "clear_remote_snapshot db remote =
     upd_remote db remote (\<lambda>m. m\<lparr>rm_snap_repo := None, rm_snap_env := None, rm_snap_profile := None\<rparr>)"

definition snapshot_for_remote :: "db \<Rightarrow> string \<Rightarrow> (string \<times> string \<times> string \<times> string) option" where
  "snapshot_for_remote db remote =
     Option.bind (select_one (has_remote remote) (remotes_t db)) (\<lambda>m.
     Option.bind (rm_snap_repo m) (\<lambda>i.
     Option.bind (repo_named db i) (\<lambda>r.
     Option.bind (org_with_id db (r_org r)) (\<lambda>g.
       Some (o_slug g, r_slug r, coalesce (rm_snap_env m) ''production'', coalesce (rm_snap_profile m) ''full'')))))"

definition sources_for_remote :: "db \<Rightarrow> string \<Rightarrow> remote_source_row list" where
  "sources_for_remote db remote = sort_by (\<lambda>a b. text_cmp (rsr_name a) (rsr_name b))
     (filter (\<lambda>s. of_remote db remote (rsr_remote s)) (remote_sources db))"

definition set_remote_source :: "db \<Rightarrow> string \<Rightarrow> string \<Rightarrow> string \<Rightarrow> string option \<Rightarrow> string option \<Rightarrow> int option \<Rightarrow> bool \<times> db" where
  "set_remote_source db remote name host remote_mysql identity port = (case select_one (has_remote remote) (remotes_t db) of
     None \<Rightarrow> (False, db)
   | Some m \<Rightarrow>
       let new = \<lparr>rsr_remote = rm_id m, rsr_name = name, rsr_host = host, rsr_mysql = remote_mysql, rsr_identity = identity, rsr_port = port\<rparr>;
           key = (\<lambda>s. rsr_remote s = rm_id m \<and> rsr_name s = name)
       in (True, db\<lparr>remote_sources := (if exists_where key (remote_sources db) then upd_where key (\<lambda>_. new) (remote_sources db)
              else remote_sources db @ [new])\<rparr>))"

definition clear_remote_source :: "db \<Rightarrow> string \<Rightarrow> string \<Rightarrow> bool \<times> db" where
  "clear_remote_source db remote name =
     (let P = (\<lambda>s. of_remote db remote (rsr_remote s) \<and> rsr_name s = name)
      in (exists_where P (remote_sources db), db\<lparr>remote_sources := del_where P (remote_sources db)\<rparr>))"

definition recipes_for_remote :: "db \<Rightarrow> string \<Rightarrow> remote_recipe_row list" where
  "recipes_for_remote db remote = sort_by (\<lambda>a b. text_cmp (rr_name a) (rr_name b))
     (filter (\<lambda>r. of_remote db remote (rr_remote r)) (remote_recipes db))"

definition set_remote_recipe :: "db \<Rightarrow> string \<Rightarrow> string \<Rightarrow> string option \<Rightarrow> string option \<Rightarrow> string list \<Rightarrow> string list \<Rightarrow> bool \<times> db" where
  "set_remote_recipe db remote name run check deps creates = (case select_one (has_remote remote) (remotes_t db) of
     None \<Rightarrow> (False, db)
   | Some m \<Rightarrow>
       let new = \<lparr>rr_remote = rm_id m, rr_name = name, rr_run = run, rr_check = check, rr_deps = deps, rr_creates = creates\<rparr>;
           key = (\<lambda>r. rr_remote r = rm_id m \<and> rr_name r = name)
       in (True, db\<lparr>remote_recipes := (if exists_where key (remote_recipes db) then upd_where key (\<lambda>_. new) (remote_recipes db)
              else remote_recipes db @ [new])\<rparr>))"

definition clear_remote_recipe :: "db \<Rightarrow> string \<Rightarrow> string \<Rightarrow> bool \<times> db" where
  "clear_remote_recipe db remote name =
     (let P = (\<lambda>r. of_remote db remote (rr_remote r) \<and> rr_name r = name)
      in (exists_where P (remote_recipes db), db\<lparr>remote_recipes := del_where P (remote_recipes db)\<rparr>))"

definition repos_for_org :: "db \<Rightarrow> uuid \<Rightarrow> repo_summary list" where
  "repos_for_org db org = sort_by (\<lambda>a b. text_cmp (rs_repo a) (rs_repo b))
     (List.map_filter (summary_of db) (filter (\<lambda>r. r_org r = org) (repos db)))"

definition org_slug_by_id :: "db \<Rightarrow> uuid \<Rightarrow> string option" where
  "org_slug_by_id db org = map_option o_slug (org_with_id db org)"

section \<open>The commands\<close>

text \<open>The left side is the message of the failure; what a command prints is left out.\<close>

definition git_remote_arg :: "string \<Rightarrow> (string, string) result" where
  "git_remote_arg remote = (if normalize_git_remote remote = [] then Inl ''does not look like a git remote URL''
     else Inr (normalize_git_remote remote))"

definition remote_add :: "uuid \<Rightarrow> db \<Rightarrow> string \<Rightarrow> string \<Rightarrow> (string, db) result" where
  "remote_add newid db org remote = and_then (git_remote_arg remote) (\<lambda>n.
     map_err (\<lambda>_. ''registering remote'') (and_then (set_org_remote newid db org n) (\<lambda>(_, db). Inr db)))"

definition remote_list :: "db \<Rightarrow> string \<Rightarrow> (string, string list) result" where
  "remote_list db org = and_then (ok_or ''no such org'' (org_id_by_slug db org)) (\<lambda>i. Inr (remotes_for_org db i))"

definition remote_remove :: "db \<Rightarrow> string \<Rightarrow> db" where
  "remote_remove db remote = snd (delete_org_remote db (normalize_git_remote remote))"

definition registered :: "bool \<times> db \<Rightarrow> (string, db) result" where
  "registered r = (if fst r then Inr (snd r) else Inl ''remote is not registered'')"

text \<open>\<open>repo\<close> is an \<open>org/repo\<close> path.\<close>

definition cli_resolve_repo :: "db \<Rightarrow> string \<Rightarrow> (string, uuid) result" where
  "cli_resolve_repo db repo = and_then (ok_or ''repo must be org/repo'' (split_once (CHR ''/'') repo)) (\<lambda>(org, repo).
     ok_or ''no such repository'' (resolve_repo db org repo))"

definition remote_snapshot :: "db \<Rightarrow> string \<Rightarrow> string option \<Rightarrow> string \<Rightarrow> string option \<Rightarrow> bool \<Rightarrow> (string, db) result" where
  "remote_snapshot db remote repo env profile clear = and_then (git_remote_arg remote) (\<lambda>n.
     if clear then Inr (snd (clear_remote_snapshot db n))
     else and_then (ok_or ''pass --repo'' repo) (\<lambda>repo. and_then (cli_resolve_repo db repo) (\<lambda>i.
       and_then (map_err (\<lambda>_. ''setting snapshot config'') (set_remote_snapshot db n i env profile)) registered)))"

definition remote_source :: "db \<Rightarrow> string \<Rightarrow> string \<Rightarrow> string option \<Rightarrow> string option \<Rightarrow> string option
    \<Rightarrow> int option \<Rightarrow> bool \<Rightarrow> (string, db) result" where
  "remote_source db remote name host remote_mysql identity port clear = and_then (git_remote_arg remote) (\<lambda>n.
     if clear then Inr (snd (clear_remote_source db n name))
     else and_then (ok_or ''pass --host'' host) (\<lambda>host. registered (set_remote_source db n name host remote_mysql identity port)))"

definition remote_recipe :: "db \<Rightarrow> string \<Rightarrow> string \<Rightarrow> string option \<Rightarrow> string option \<Rightarrow> string list \<Rightarrow> string list
    \<Rightarrow> bool \<Rightarrow> (string, db) result" where
  "remote_recipe db remote name run check deps creates clear = and_then (git_remote_arg remote) (\<lambda>n.
     if clear then Inr (snd (clear_remote_recipe db n name))
     else if run = None then Inl ''pass --run''
     else registered (set_remote_recipe db n name run check deps creates))"

section \<open>The endpoints\<close>

definition obj :: "(string \<times> json) list \<Rightarrow> json" where
  "obj kvs = JObj (fold (\<lambda>(k, v). obj_insert k v) kvs [])"

definition opt_field :: "string \<Rightarrow> ('a \<Rightarrow> json) \<Rightarrow> 'a option \<Rightarrow> (string \<times> json) list" where
  "opt_field k f x = (case x of None \<Rightarrow> [] | Some v \<Rightarrow> [(k, f v)])"

definition repo_entries :: "('v, 'w) app \<Rightarrow> db \<Rightarrow> uuid \<Rightarrow> json" where
  "repo_entries a db org = JArr (map (\<lambda>r. obj [(''org'', JStr (rs_org r)), (''repo'', JStr (rs_repo r)),
     (''url'', JStr (repo_base (app_base_url a) (rs_org r) (rs_repo r)))]) (repos_for_org db org))"

definition org_session :: "('v, 'w) app \<Rightarrow> db \<Rightarrow> request \<Rightarrow> (app_error, uuid) result \<times> db" where
  "org_session a db rq = (case extract_token (app_b64 a) rq of
     None \<Rightarrow> (Inl AppUnauthorized, db)
   | Some cred \<Rightarrow> (case resolve_org_session_token (rt_sha (app_rt a)) (app_now a) db cred of
       (tok, db) \<Rightarrow> (ok_or AppUnauthorized (map_option fst tok), db)))"

definition list_org_repos :: "('v, 'w) app \<Rightarrow> db \<Rightarrow> request \<Rightarrow> (app_error, json) result \<times> db" where
  "list_org_repos a db rq = (case org_session a db rq of (r, db) \<Rightarrow>
     (and_then r (\<lambda>org. Inr (obj [(''repositories'', repo_entries a db org)])), db))"

definition source_json :: "remote_source_row \<Rightarrow> string \<times> json" where
  "source_json s = (rsr_name s, obj ((''host'', JStr (rsr_host s)) # opt_field ''remote_mysql'' JStr (rsr_mysql s)
     @ opt_field ''identity'' JStr (rsr_identity s) @ opt_field ''port'' JNum (rsr_port s)))"

definition recipe_json :: "remote_recipe_row \<Rightarrow> string \<times> json" where
  "recipe_json r = (rr_name r, obj (opt_field ''run'' JStr (rr_run r) @ opt_field ''check'' JStr (rr_check r)
     @ [(''deps'', JArr (map JStr (rr_deps r))), (''creates'', JArr (map JStr (rr_creates r)))]))"

definition manifest_body :: "('v, 'w) app \<Rightarrow> db \<Rightarrow> uuid \<Rightarrow> string \<Rightarrow> string \<Rightarrow> json" where
  "manifest_body a db org slug remote =
     (let sources = sources_for_remote db remote; recipes = recipes_for_remote db remote
      in obj ([(''schema_version'', JNum 1), (''org'', JStr slug), (''remote'', JStr remote), (''repositories'', repo_entries a db org)]
        @ opt_field ''snapshot'' (\<lambda>(o', r, env, profile). obj [(''repo'', JStr (o' @ ''/'' @ r)), (''env'', JStr env),
            (''profile'', JStr profile)]) (snapshot_for_remote db remote)
        @ (if sources = [] then [] else [(''sources'', obj (map source_json sources))])
        @ (if recipes = [] then [] else [(''recipes'', obj (map recipe_json recipes))])))"

definition get_manifest :: "('v, 'w) app \<Rightarrow> db \<Rightarrow> request \<Rightarrow> string \<Rightarrow> (app_error, json) result \<times> db" where
  "get_manifest a db rq q_remote = (case org_session a db rq of (r, db) \<Rightarrow>
     (and_then r (\<lambda>org.
        let remote = normalize_git_remote q_remote
        in if org_for_remote db remote \<noteq> Some org then Inl AppNotFound
           else and_then (ok_or AppNotFound (org_slug_by_id db org)) (\<lambda>slug. Inr (manifest_body a db org slug remote))), db))"

section \<open>Clone URLs\<close>

definition plain_char :: "char \<Rightarrow> bool" where
  "plain_char c \<longleftrightarrow> is_lower c \<or> is_digit c \<or> c \<in> set ''-_.''"

definition plain_path :: "string \<Rightarrow> bool" where
  "plain_path p \<longleftrightarrow> p \<noteq> [] \<and> list_all (\<lambda>c. plain_char c \<or> c = CHR ''/'') p \<and> hd p \<noteq> CHR ''/'' \<and> last p \<noteq> CHR ''/''
     \<and> \<not> ends_with ''.git'' p \<and> \<not> list_all is_digit (authority p)"

definition plain_host :: "string \<Rightarrow> bool" where
  "plain_host h \<longleftrightarrow> h \<noteq> [] \<and> list_all plain_char h"

lemma plain_char_facts:
  assumes "plain_char c"
  shows "\<not> is_upper c" "c \<noteq> CHR '':''" "c \<noteq> CHR ''@''" "c \<noteq> CHR ''/''" "(33::nat) \<le> of_char c" "of_char c < (127::nat)"
  using assms by (auto simp: plain_char_def is_upper_def is_lower_def is_digit_def less_eq_char_def)

lemma starts_with_ascii:
  assumes "s \<noteq> []" "33 \<le> (of_char (hd s) :: nat)" "of_char (hd s) < (127::nat)"
  shows "trim_free utf8_ws s"
  unfolding trim_free_def
proof (intro ballI impI notI)
  fix w assume w: "w \<in> set utf8_ws" "w \<noteq> []" "starts_with w s"
  then have "hd s = hd w" by (auto simp: starts_with_iff)
  moreover have "\<forall>w\<in>set utf8_ws. (of_char (hd w) :: nat) < 33 \<or> 127 \<le> (of_char (hd w) :: nat)" by code_simp
  ultimately show False using w(1) assms(2,3) by fastforce
qed

lemma ends_with_ascii:
  assumes "s \<noteq> []" "33 \<le> (of_char (last s) :: nat)" "of_char (last s) < (127::nat)"
  shows "trim_free (map rev utf8_ws) (rev s)"
  unfolding trim_free_def
proof (intro ballI impI notI)
  fix w assume w: "w \<in> set (map rev utf8_ws)" "w \<noteq> []" "starts_with w (rev s)"
  then obtain r where "rev s = w @ r" using starts_with_iff by blast
  then have "hd (rev s) = hd w" using w(2) by simp
  then have "last s = hd w" using assms(1) by (simp add: hd_rev)
  moreover have "\<forall>w\<in>set (map rev utf8_ws). (of_char (hd w) :: nat) < 33 \<or> 127 \<le> (of_char (hd w) :: nat)" by code_simp
  ultimately show False using w(1) assms(2,3) by fastforce
qed

lemma trim_ascii:
  assumes "s \<noteq> []" "33 \<le> (of_char (hd s) :: nat)" "of_char (hd s) < (127::nat)"
    "33 \<le> (of_char (last s) :: nat)" "of_char (last s) < (127::nat)"
  shows "trim s = s"
  by (simp add: trim_def trim_start_def trim_end_def trim_list_id starts_with_ascii ends_with_ascii assms)

lemma ascii_lower_id: "list_all (\<lambda>c. \<not> is_upper c) s \<Longrightarrow> ascii_lower s = s"
  unfolding ascii_lower_def by (induction s) (auto simp: ascii_lower_char_def)

lemma split_str_skip:
  "CHR '':'' \<notin> set a \<Longrightarrow> split_str ''://'' (a @ s) = map_option (\<lambda>(x, y). (a @ x, y)) (split_str ''://'' s)"
proof (induction a)
  case Nil
  show ?case by (cases "split_str ''://'' s") auto
next
  case (Cons c a)
  then have "strip_prefix ''://'' (c # a @ s) = None" by (auto simp: strip_prefix_def starts_with_def)
  with Cons show ?case by (cases "split_str ''://'' s") (auto split: option.split)
qed

lemma split_str_none: "CHR '':'' \<notin> set a \<Longrightarrow> split_str ''://'' a = None"
  using split_str_skip[of a "[]"] by simp

lemma split_str_here: "split_str ''://'' (''://'' @ s) = Some ([], s)"
  by (simp add: strip_prefix_def starts_with_def)

lemma authority_app: "CHR ''/'' \<notin> set h \<Longrightarrow> authority (h @ CHR ''/'' # p) = h"
    "CHR ''/'' \<notin> set h \<Longrightarrow> after_authority (h @ CHR ''/'' # p) = CHR ''/'' # p"
  unfolding authority_def after_authority_def by (induction h) auto

lemma authority_app2: "CHR ''/'' \<notin> set h \<Longrightarrow> authority (h @ p) = h @ authority p"
    "CHR ''/'' \<notin> set h \<Longrightarrow> after_authority (h @ p) = after_authority p"
  unfolding authority_def after_authority_def by (induction h) auto

lemma authority_parts: "authority p @ after_authority p = p"
  by (simp add: authority_def after_authority_def)

lemma split_once_app: "d \<notin> set a \<Longrightarrow> split_once d (a @ d # b) = Some (a, b)"
  by (simp add: split_once_Some)

lemma trim_slashes:
  assumes "h \<noteq> []" "hd h \<noteq> CHR ''/''" "p \<noteq> []" "last p \<noteq> CHR ''/''"
  shows "trim_end_char (CHR ''/'') (trim_start_char (CHR ''/'') (h @ p @ replicate n (CHR ''/''))) = h @ p"
proof -
  obtain c h' where h: "h = c # h'" "c \<noteq> CHR ''/''" using assms(1,2) by (cases h) auto
  obtain q d where p: "p = q @ [d]" "d \<noteq> CHR ''/''" using assms(3,4) by (cases p rule: rev_cases) auto
  have "dropWhile (\<lambda>x. x = CHR ''/'') (replicate n (CHR ''/'') @ d # ys) = d # ys" for ys
    using p(2) by (induction n) auto
  then show ?thesis using h p by (simp add: trim_end_char_def trim_start_char_def)
qed

text \<open>What is left after the scheme: the host and the path, in one of four shapes.\<close>

definition finish :: "string \<Rightarrow> string" where
  "finish s = trim_end_char (CHR ''/'') (trim_start_char (CHR ''/'') (case strip_suffix ''.git'' s of Some t \<Rightarrow> t | None \<Rightarrow> s))"

lemma plain_path_not_port: "plain_path p \<Longrightarrow> \<not> list_all is_digit (authority (p @ s))"
proof -
  assume p: "plain_path p"
  show ?thesis
  proof (cases "CHR ''/'' \<in> set p")
    case True
    then have "authority (p @ s) = authority p" unfolding authority_def by (metis (mono_tags, lifting) takeWhile_append1)
    with p show ?thesis by (simp add: plain_path_def)
  next
    case False
    then have "authority p = p" "authority (p @ s) = p @ authority s"
      using authority_app2(1)[of p s] authority_app2(1)[of p "[]"] by (simp_all add: authority_def)
    with p show ?thesis by (simp add: plain_path_def)
  qed
qed

lemma finish_forms:
  assumes "plain_host h" "plain_path p"
  shows "finish (h @ ''/'' @ p @ ''.git'') = h @ ''/'' @ p" "finish (h @ ''/'' @ p) = h @ ''/'' @ p"
    "finish (h @ ''/'' @ p @ ''/'') = h @ ''/'' @ p"
proof -
  have h: "h \<noteq> []" "hd h \<noteq> CHR ''/''"
    using assms(1) plain_char_facts(4) by (auto simp: plain_host_def list_all_iff)
  have p: "''/'' @ p \<noteq> []" "last (''/'' @ p) \<noteq> CHR ''/''" "\<not> ends_with ''.git'' p" "p \<noteq> []"
    using assms(2) by (auto simp: plain_path_def)
  note t = trim_slashes[OF h p(1,2)]
  show "finish (h @ ''/'' @ p @ ''.git'') = h @ ''/'' @ p"
    using t[of 0] strip_suffix_Some[of "''.git''" "(h @ ''/'' @ p) @ ''.git''" "h @ ''/'' @ p"] by (simp add: finish_def)
  have "strip_suffix ''.git'' (h @ ''/'' @ p) = None"
  proof -
    obtain q where q: "p = rev q" by (metis rev_rev_ident)
    from p(3) have "\<not> ends_with ''.git'' (h @ ''/'' @ p)"
      unfolding q ends_with_def starts_with_def
      by (cases q; cases "tl q"; cases "tl (tl q)"; cases "tl (tl (tl q))") auto
    then show ?thesis by (simp add: strip_suffix_def)
  qed
  then show "finish (h @ ''/'' @ p) = h @ ''/'' @ p" using t[of 0] by (simp add: finish_def)
  have "strip_suffix ''.git'' (h @ ''/'' @ p @ ''/'') = None" by (simp add: strip_suffix_def ends_with_def starts_with_def)
  then show "finish (h @ ''/'' @ p @ ''/'') = h @ ''/'' @ p" using t[of 1] by (simp add: finish_def)
qed


definition drop_user :: "string \<Rightarrow> string" where
  "drop_user s = (case split_once (CHR ''@'') (authority s) of Some (_, b) \<Rightarrow> b @ after_authority s | None \<Rightarrow> s)"

definition scp_colon :: "string \<Rightarrow> string" where
  "scp_colon s = (case split_once (CHR '':'') (authority s) of
     Some (a, b) \<Rightarrow> if is_port (b @ after_authority s) then s else a @ ''/'' @ b @ after_authority s | None \<Rightarrow> s)"

lemma normalize_steps:
  assumes "trim r = r" "ascii_lower r = r"
  shows "normalize_git_remote r = finish (scp_colon (drop_user (case split_str ''://'' r of Some (_, rest) \<Rightarrow> rest | None \<Rightarrow> r)))"
  using assms by (simp add: normalize_git_remote_def Let_def finish_def scp_colon_def drop_user_def)

lemma clean_url:
  assumes "list_all (\<lambda>c. \<not> is_upper c \<and> 33 \<le> (of_char c :: nat) \<and> of_char c < (127 :: nat)) r" "r \<noteq> []"
  shows "trim r = r" "ascii_lower r = r"
  using assms by (auto simp: list_all_iff intro!: trim_ascii ascii_lower_id)

lemma plain_slash_chars:
  assumes "plain_path p" shows "list_all (\<lambda>c. \<not> is_upper c \<and> 33 \<le> (of_char c :: nat) \<and> of_char c < (127 :: nat)) p"
    "CHR '':'' \<notin> set p" "CHR ''@'' \<notin> set p"
proof -
  have p: "\<forall>c\<in>set p. plain_char c \<or> c = CHR ''/''" using assms by (simp add: plain_path_def list_all_iff)
  have s: "\<not> is_upper (CHR ''/'')" by code_simp
  show "list_all (\<lambda>c. \<not> is_upper c \<and> 33 \<le> (of_char c :: nat) \<and> of_char c < (127 :: nat)) p"
    unfolding list_all_iff using p s plain_char_facts by fastforce
  show "CHR '':'' \<notin> set p" "CHR ''@'' \<notin> set p" using p plain_char_facts(2,3) by fastforce+
qed

lemma plain_host_chars:
  assumes "plain_host h" shows "list_all (\<lambda>c. \<not> is_upper c \<and> 33 \<le> (of_char c :: nat) \<and> of_char c < (127 :: nat)) h"
    "CHR '':'' \<notin> set h" "CHR ''@'' \<notin> set h" "CHR ''/'' \<notin> set h" "h \<noteq> []"
proof -
  have h: "h \<noteq> []" "\<forall>c\<in>set h. plain_char c" using assms by (auto simp: plain_host_def list_all_iff)
  show "h \<noteq> []" by (rule h(1))
  show "list_all (\<lambda>c. \<not> is_upper c \<and> 33 \<le> (of_char c :: nat) \<and> of_char c < (127 :: nat)) h"
    unfolding list_all_iff using h(2) by (auto dest: plain_char_facts)
  have "\<not> plain_char (CHR '':'')" "\<not> plain_char (CHR ''@'')" "\<not> plain_char (CHR ''/'')" by code_simp+
  with h(2) show "CHR '':'' \<notin> set h" "CHR ''@'' \<notin> set h" "CHR ''/'' \<notin> set h" by auto
qed

lemma host_path_steps:
  assumes "plain_host h"
  shows "drop_user (h @ ''/'' @ x) = h @ ''/'' @ x" "drop_user (''git@'' @ h @ ''/'' @ x) = h @ ''/'' @ x"
    "scp_colon (h @ ''/'' @ x) = h @ ''/'' @ x"
proof -
  note h = plain_host_chars[OF assms]
  have none: "split_once d h = None" if "d \<notin> set h" for d using that by (simp add: split_once_None)
  show "drop_user (h @ ''/'' @ x) = h @ ''/'' @ x" "scp_colon (h @ ''/'' @ x) = h @ ''/'' @ x"
    using h by (simp_all add: drop_user_def scp_colon_def authority_app none)
  have "CHR ''/'' \<notin> set (''git@'' @ h)" using h(4) by simp
  from authority_app[OF this, of x] show "drop_user (''git@'' @ h @ ''/'' @ x) = h @ ''/'' @ x"
    using split_once_app[of "CHR ''@''" "''git''" h] by (simp add: drop_user_def)
qed

lemma scp_steps:
  assumes "plain_host h" "plain_path p"
  shows "scp_colon (drop_user (''git@'' @ h @ '':'' @ p @ s)) = h @ ''/'' @ p @ s"
proof -
  note h = plain_host_chars[OF assms(1)]
  have "CHR ''/'' \<notin> set (''git@'' @ h @ '':'')" "CHR ''/'' \<notin> set (h @ '':'')" using h(4) by simp_all
  note a = authority_app2[OF this(1), of "p @ s"] authority_app2[OF this(2), of "p @ s"]
  have d: "drop_user (''git@'' @ h @ '':'' @ p @ s) = h @ '':'' @ p @ s"
    using a(1,2) split_once_app[of "CHR ''@''" "''git''" "h @ '':'' @ authority (p @ s)"]
    by (simp add: drop_user_def authority_parts)
  have "\<not> is_port (p @ s)" using plain_path_not_port[OF assms(2)] by (simp add: is_port_def)
  then have "scp_colon (h @ '':'' @ p @ s) = h @ ''/'' @ p @ s"
    using a(3,4) split_once_app[OF h(2), of "authority (p @ s)"] by (simp add: scp_colon_def authority_parts)
  with d show ?thesis by simp
qed

text \<open>The clone URLs a host shows for one repository, over https with or without \<open>.git\<close> or a trailing
  slash, over ssh and in scp form, all name the same registration, \<open>host/path\<close>.\<close>

theorem clone_forms_agree:
  assumes "plain_host h" "plain_path p"
  shows "map normalize_git_remote [''https://'' @ h @ ''/'' @ p @ ''.git'', ''https://'' @ h @ ''/'' @ p,
      ''https://'' @ h @ ''/'' @ p @ ''/'', ''ssh://git@'' @ h @ ''/'' @ p, ''git@'' @ h @ '':'' @ p @ ''.git'']
    = replicate 5 (h @ ''/'' @ p)"
proof -
  note h = plain_host_chars[OF assms(1)] and p = plain_slash_chars[OF assms(2)]
  note f = finish_forms[OF assms] and st = host_path_steps[OF assms(1)]
  have up: "\<not> is_upper c" if "c \<in> set ''https://git@.:/''" for c
  proof -
    have "\<forall>c\<in>set ''https://git@.:/''. \<not> is_upper c" by code_simp
    with that show ?thesis by blast
  qed
  have here: "split_str ''://'' (''https'' @ ''://'' @ x) = Some (''https'', x)"
    "split_str ''://'' (''ssh'' @ ''://'' @ x) = Some (''ssh'', x)" for x
    by (simp_all add: strip_prefix_def starts_with_def)
  have "split_str ''://'' (''git@'' @ h @ '':'' @ p @ ''.git'') = None"
  proof -
    have n: "CHR '':'' \<notin> set (''git@'' @ h)" "CHR '':'' \<notin> set (p @ ''.git'')" using h(2) p(2) by simp_all
    have "strip_prefix ''://'' ('':'' @ p @ ''.git'') = None"
      using assms(2) by (cases p) (auto simp: plain_path_def strip_prefix_def starts_with_def)
    then have "split_str ''://'' ('':'' @ p @ ''.git'') = None" using split_str_none[OF n(2)] by simp
    with split_str_skip[OF n(1), of "'':'' @ p @ ''.git''"] show ?thesis by simp
  qed
  note s = this here
  have c1: "normalize_git_remote (''https'' @ ''://'' @ x) = finish (scp_colon (drop_user x))"
    "normalize_git_remote (''ssh'' @ ''://'' @ x) = finish (scp_colon (drop_user x))"
    if "list_all (\<lambda>c. \<not> is_upper c \<and> 33 \<le> (of_char c :: nat) \<and> of_char c < (127 :: nat)) x" for x
    using normalize_steps[OF clean_url, of "''https'' @ ''://'' @ x"] normalize_steps[OF clean_url, of "''ssh'' @ ''://'' @ x"]
      that s(2,3) up by simp_all
  have c2: "normalize_git_remote (''git@'' @ h @ '':'' @ p @ ''.git'') = finish (h @ ''/'' @ p @ ''.git'')"
    using normalize_steps[OF clean_url, of "''git@'' @ h @ '':'' @ p @ ''.git''"] h(1) p(1) s(1) up
      scp_steps[OF assms, of "''.git''"] by simp
  show ?thesis
    using c1(1)[of "h @ ''/'' @ p @ ''.git''"] c1(1)[of "h @ ''/'' @ p"] c1(1)[of "h @ ''/'' @ p @ ''/''"]
      c1(2)[of "''git@'' @ h @ ''/'' @ p"] c2 h(1) p(1) f st up
    by (simp add: numeral_eq_Suc)
qed


lemma clone_forms_agree_witness:
  "normalize_git_remote ''git@github.com:acme/shop.git'' = normalize_git_remote ''https://github.com/acme/shop/''"
proof -
  have "plain_host ''github.com''" "plain_path ''acme/shop''" by code_simp+
  from clone_forms_agree[OF this] show ?thesis by (simp add: numeral_eq_Suc)
qed

text \<open>A \<open>.git\<close> before a trailing slash is not stripped, so this form names another registration.\<close>

lemma git_slash_differs:
  "normalize_git_remote ''https://github.com/acme/shop.git/'' = ''github.com/acme/shop.git''"
  by code_simp

text \<open>A team manifest is served to the team that owns the remote only: the token is a live session of the
  organization the queried remote, in whatever form it was written, is registered to, and the answer names
  that organization's repositories.\<close>

theorem manifest_only_own_org:
  assumes "get_manifest a db rq q = (Inr body, db')"
  shows "\<exists>k t m slug. extract_token (app_b64 a) rq = Some k \<and> t \<in> set (tokens db)
     \<and> org_session_matches (rt_sha (app_rt a)) (app_now a) k t
     \<and> m \<in> set (remotes_t db) \<and> rm_remote m = normalize_git_remote q \<and> t_org t = Some (rm_org m)
     \<and> org_slug_by_id db (rm_org m) = Some slug
     \<and> body = manifest_body a db' (rm_org m) slug (normalize_git_remote q)"
proof -
  obtain org where s: "org_session a db rq = (Inr org, db')" and o: "org_for_remote db' (normalize_git_remote q) = Some org"
      and "\<exists>slug. org_slug_by_id db' org = Some slug \<and> body = manifest_body a db' org slug (normalize_git_remote q)"
    using assms by (auto simp: get_manifest_def and_then_Inr_iff Let_def split: prod.splits if_splits)
  then obtain slug where slug: "org_slug_by_id db' org = Some slug" "body = manifest_body a db' org slug (normalize_git_remote q)"
    by blast
  obtain k where k: "extract_token (app_b64 a) rq = Some k"
      and r: "map_option fst (fst (resolve_org_session_token (rt_sha (app_rt a)) (app_now a) db k)) = Some org"
      and db': "db' = snd (resolve_org_session_token (rt_sha (app_rt a)) (app_now a) db k)"
    using s by (auto simp: org_session_def split: option.splits prod.splits)
  obtain t where t: "select_one (org_session_matches (rt_sha (app_rt a)) (app_now a) k) (tokens db) = Some t" "the (t_org t) = org"
    using r by (auto simp: resolve_org_session_token_def)
  obtain ts where ts: "db' = db\<lparr>tokens := ts\<rparr>"
    using db' by (simp add: resolve_org_session_token_def stamp_tokens_def)
  obtain m where "m \<in> set (remotes_t db)" "rm_remote m = normalize_git_remote q" "rm_org m = org"
    using o ts by (auto simp: org_for_remote_def has_remote_def dest!: select_one_Some)
  moreover have "t_org t = Some org" "t \<in> set (tokens db)" "org_session_matches (rt_sha (app_rt a)) (app_now a) k t"
    using select_one_Some[OF t(1)] t(2) by (auto simp: org_session_matches_def)
  moreover have "org_slug_by_id db org = Some slug" using slug(1) ts by (simp add: org_slug_by_id_def org_with_id_def)
  ultimately show ?thesis using k slug(2) by blast
qed

definition demo_team :: db where
  "demo_team = demo_registry\<lparr>tokens := map (\<lambda>t. t\<lparr>t_repo := None, t_org := Some 1\<rparr>) (tokens demo_registry),
     remotes_t := [\<lparr>rm_id = 90, rm_org = 1, rm_remote = ''github.com/acme/shop'', rm_snap_repo = None, rm_snap_env = None,
        rm_snap_profile = None\<rparr>]\<rparr>"

lemma manifest_only_own_org_witness:
  "\<exists>m. m \<in> set (remotes_t demo_team) \<and> rm_remote m = normalize_git_remote ''git@github.com:acme/shop.git'' \<and> rm_org m = 1"
proof -
  let ?rq = "demo_headers (Some ''Bearer key'')"
  have "\<not> isl (fst (get_manifest demo_app demo_team ?rq ''git@github.com:acme/shop.git''))" by code_simp
  then obtain b where b: "fst (get_manifest demo_app demo_team ?rq ''git@github.com:acme/shop.git'') = Inr b" by (rule not_islE)
  from manifest_only_own_org[OF fst_pair[OF b]] show ?thesis
    by (auto simp: demo_team_def)
qed

end
