(* ===== verification/Jobs.thy ===== *)
theory Jobs
  imports Remotes
begin

text \<open>
  Upstreams and the background queue: where a repository mirrors from, the require-list that scopes a
  registry (\<open>UpstreamRequire\<close>), the job queue with its one-pending-job index, the stored dependency
  plan (\<open>crates/sconce-catalog/src/lib.rs\<close>), the handlers and commands that edit them
  (\<open>crates/sconce-server/src/ui.rs\<close>, \<open>crates/sconce/src/main.rs\<close>) and the worker's drain loop
  (\<open>run_worker_loop\<close>). What a job does is the parameter \<open>run\<close> here, and \<open>Mirror\<close> gives it.
\<close>

section \<open>Require entries\<close>

record upstream_require =
  q_kind :: string
  q_pattern :: string
  q_floor :: "string option"

datatype require_error = EmptyRegex string | EmptyMatch string

definition split_floor :: "string \<Rightarrow> string \<times> string option" where
  "split_floor spec = (case split_once (CHR ''@'') spec of
     Some (m, f) \<Rightarrow> if trim f \<noteq> [] then (trim m, Some (trim f)) else (trim (trim_end_char (CHR ''@'') spec), None)
   | None \<Rightarrow> (trim (trim_end_char (CHR ''@'') spec), None))"

definition parse_matcher :: "string \<Rightarrow> string \<Rightarrow> (require_error, string \<times> string) result" where
  "parse_matcher spec matcher =
     (if matcher = ''*'' then Inr (''all'', [])
      else case strip_prefix ''re:'' matcher of
        Some re \<Rightarrow> if re = [] then Inl (EmptyRegex spec) else Inr (''regex'', re)
      | None \<Rightarrow> if matcher = [] then Inl (EmptyMatch spec)
          else (case strip_suffix ''*'' matcher of
              Some stem \<Rightarrow> Inr (''prefix'', stem)
            | None \<Rightarrow> if ends_with ''/'' matcher then Inr (''prefix'', matcher) else Inr (''exact'', matcher)))"

definition parse_require :: "string \<Rightarrow> (require_error, upstream_require) result" where
  "parse_require spec = (let spec = trim spec; (matcher, floor) = split_floor spec
     in and_then (parse_matcher spec matcher) (\<lambda>(kind, pattern). Inr \<lparr>q_kind = kind, q_pattern = pattern, q_floor = floor\<rparr>))"

definition matcher_spec :: "upstream_require \<Rightarrow> string" where
  "matcher_spec q = (if q_kind q = ''all'' then ''*''
     else if q_kind q = ''regex'' then ''re:'' @ q_pattern q
     else if q_kind q = ''prefix'' then (if ends_with ''/'' (q_pattern q) then q_pattern q else q_pattern q @ ''*'')
     else q_pattern q)"

definition to_spec :: "upstream_require \<Rightarrow> string" where
  "to_spec q = (case q_floor q of Some f \<Rightarrow> matcher_spec q @ ''@'' @ f | None \<Rightarrow> matcher_spec q)"

section \<open>Upstreams\<close>

definition new_upstream :: "uuid \<Rightarrow> uuid \<Rightarrow> string \<Rightarrow> string \<Rightarrow> visibility \<Rightarrow> string option \<Rightarrow> bytes option \<Rightarrow> string \<Rightarrow> upstream_row" where
  "new_upstream newid repo kind base vis label credential credential_type = \<lparr>ur_id = newid, ur_repo = repo, ur_kind = kind,
     ur_base = base, ur_visibility = vis, ur_label = label, ur_credential = credential, ur_cred_type = credential_type\<rparr>"

definition create_upstream :: "uuid \<Rightarrow> db \<Rightarrow> uuid \<Rightarrow> string \<Rightarrow> string \<Rightarrow> visibility \<Rightarrow> string option
    \<Rightarrow> bytes option \<Rightarrow> string \<Rightarrow> (sql_error, uuid \<times> db) result" where
  "create_upstream newid db repo kind base vis label credential credential_type =
     (let credential = (case vis of Public \<Rightarrow> None | Private \<Rightarrow> credential)
      in if kind \<notin> set [''git'', ''composer''] then Inl (CheckViolation ''upstreams_kind'')
         else if credential_type \<notin> set [''basic'', ''github'', ''gitlab'', ''bearer''] then Inl (CheckViolation ''upstreams_credential_type_chk'')
         else if repo_named db repo = None then Inl (ForeignKeyViolation ''upstreams'')
         else Inr (newid, db\<lparr>upstreams := upstreams db @ [new_upstream newid repo kind base vis label credential credential_type]\<rparr>))"

definition list_upstream_requires :: "db \<Rightarrow> uuid \<Rightarrow> upstream_require list" where
  "list_upstream_requires db up = map (\<lambda>q. \<lparr>q_kind = uq_kind q, q_pattern = uq_pattern q, q_floor = uq_floor q\<rparr>)
     (sort_by (\<lambda>a b. int_cmp (uq_position a) (uq_position b)) (filter (\<lambda>q. uq_upstream q = up) (requires_t db)))"

definition list_upstream_source_paths :: "db \<Rightarrow> uuid \<Rightarrow> string list" where
  "list_upstream_source_paths db up = sort (map sp_path (filter (\<lambda>s. sp_upstream s = up) (source_paths_t db)))"

record upstream_config =
  uc_row :: upstream_row
  uc_requires :: "upstream_require list"
  uc_paths :: "string list"

definition get_upstream :: "db \<Rightarrow> uuid \<Rightarrow> upstream_config option" where
  "get_upstream db up = map_option (\<lambda>u. \<lparr>uc_row = u, uc_requires = list_upstream_requires db up,
      uc_paths = list_upstream_source_paths db up\<rparr>) (select_one (\<lambda>u. ur_id u = up) (upstreams db))"

text \<open>The listing's newest job of an upstream; jobs are appended, so the newest is the last.\<close>

record upstream_summary =
  um_row :: upstream_row
  um_has_credential :: bool
  um_requires :: "upstream_require list"
  um_paths :: "string list"
  um_job_status :: "string option"
  um_job_error :: "string option"
  um_last_sync_age :: "int option"

definition newest_job :: "db \<Rightarrow> uuid \<Rightarrow> job_row option" where
  "newest_job db up = (case filter (\<lambda>j. j_upstream j = Some up) (jobs db) of [] \<Rightarrow> None | js \<Rightarrow> Some (last js))"

definition list_upstreams :: "time \<Rightarrow> db \<Rightarrow> uuid \<Rightarrow> upstream_summary list" where
  "list_upstreams now db repo = map (\<lambda>u. \<lparr>um_row = u, um_has_credential = (ur_credential u \<noteq> None),
      um_requires = list_upstream_requires db (ur_id u), um_paths = list_upstream_source_paths db (ur_id u),
      um_job_status = map_option j_status (newest_job db (ur_id u)), um_job_error = Option.bind (newest_job db (ur_id u)) j_error,
      um_last_sync_age = map_option (\<lambda>j. now - j_created j) (newest_job db (ur_id u))\<rparr>)
     (filter (\<lambda>u. ur_repo u = repo) (upstreams db))"

definition owns_upstream :: "db \<Rightarrow> uuid \<Rightarrow> uuid \<Rightarrow> bool" where
  "owns_upstream db repo up \<longleftrightarrow> exists_where (\<lambda>u. ur_id u = up \<and> ur_repo u = repo) (upstreams db)"

definition delete_upstream :: "db \<Rightarrow> uuid \<Rightarrow> uuid \<Rightarrow> bool \<times> db" where
  "delete_upstream db repo up = (owns_upstream db repo up, del_upstreams (\<lambda>u. ur_repo u = repo \<and> ur_id u = up) db)"

text \<open>The rows are numbered in the given order; a bad match kind rolls the whole replacement back.\<close>

definition require_rows :: "uuid \<Rightarrow> upstream_require list \<Rightarrow> require_row list" where
  "require_rows up qs = map (\<lambda>(n, q). \<lparr>uq_upstream = up, uq_position = clamp_i32 (int n), uq_kind = q_kind q,
      uq_pattern = q_pattern q, uq_floor = q_floor q\<rparr>) (enumerate 0 qs)"

definition set_upstream_requires :: "db \<Rightarrow> uuid \<Rightarrow> uuid \<Rightarrow> upstream_require list \<Rightarrow> (sql_error, db) result" where
  "set_upstream_requires db repo up qs =
     (if \<not> owns_upstream db repo up then Inr db
      else if list_ex (\<lambda>q. q_kind q \<notin> set [''prefix'', ''exact'', ''all'', ''regex'']) qs then Inl (CheckViolation ''upstream_requires'')
      else Inr (db\<lparr>requires_t := del_where (\<lambda>q. uq_upstream q = up) (requires_t db) @ require_rows up qs\<rparr>))"

definition clean_path :: "string \<Rightarrow> string" where
  "clean_path p = trim_end_char (CHR ''/'') (trim_start_char (CHR ''/'') (trim p))"

fun insert_paths :: "uuid \<Rightarrow> string list \<Rightarrow> string list \<Rightarrow> source_path_row list" where
  "insert_paths up seen [] = []"
| "insert_paths up seen (p # ps) = (if clean_path p = [] \<or> clean_path p \<in> set seen then insert_paths up seen ps
     else \<lparr>sp_upstream = up, sp_path = clean_path p\<rparr> # insert_paths up (clean_path p # seen) ps)"

definition set_upstream_source_paths :: "db \<Rightarrow> uuid \<Rightarrow> uuid \<Rightarrow> string list \<Rightarrow> db" where
  "set_upstream_source_paths db repo up paths =
     (if \<not> owns_upstream db repo up then db
      else db\<lparr>source_paths_t := del_where (\<lambda>s. sp_upstream s = up) (source_paths_t db) @ insert_paths up [] paths\<rparr>)"

section \<open>The queue\<close>

text \<open>The index \<open>mirror_jobs_pending_uniq\<close>: at most one pending job of a key.\<close>

definition job_key :: "job_row \<Rightarrow> string \<times> uuid option \<times> string \<times> uuid option" where
  "job_key j = (j_kind j, j_upstream j, coalesce (j_package j) [], j_repo j)"

definition is_pending :: "job_row \<Rightarrow> bool" where
  "is_pending j \<longleftrightarrow> j_status j = ''pending''"

definition pending_unique :: "job_row list \<Rightarrow> bool" where
  "pending_unique js \<longleftrightarrow> distinct (map job_key (filter is_pending js))"

definition new_job :: "uuid \<Rightarrow> time \<Rightarrow> string \<Rightarrow> uuid option \<Rightarrow> string option \<Rightarrow> uuid option \<Rightarrow> job_row" where
  "new_job newid now kind up package repo = \<lparr>j_id = newid, j_kind = kind, j_upstream = up, j_package = package, j_repo = repo,
     j_status = ''pending'', j_attempts = 0, j_run_after = now, j_claimed = None, j_error = None, j_created = now, j_updated = now\<rparr>"

definition enqueue_job :: "uuid \<Rightarrow> time \<Rightarrow> db \<Rightarrow> string \<Rightarrow> uuid option \<Rightarrow> string option \<Rightarrow> uuid option
    \<Rightarrow> (sql_error, bool \<times> db) result" where
  "enqueue_job newid now db kind up package repo =
     (let j = new_job newid now kind up package repo
      in if exists_where (\<lambda>k. is_pending k \<and> job_key k = job_key j) (jobs db) then Inr (False, db)
         else if (case up of None \<Rightarrow> False | Some u \<Rightarrow> \<not> exists_where (\<lambda>x. ur_id x = u) (upstreams db))
              \<or> (case repo of None \<Rightarrow> False | Some r \<Rightarrow> repo_named db r = None)
           then Inl (ForeignKeyViolation ''mirror_jobs'')
         else Inr (True, db\<lparr>jobs := jobs db @ [j]\<rparr>))"

definition enqueue_mirror_job where
  "enqueue_mirror_job newid now db up = enqueue_job newid now db ''mirror_upstream'' (Some up) None None"

definition enqueue_mirror_package_job where
  "enqueue_mirror_package_job newid now db up package = enqueue_job newid now db ''mirror_package'' (Some up) (Some package) None"

definition enqueue_resolve_closure_job where
  "enqueue_resolve_closure_job newid now db repo = enqueue_job newid now db ''resolve_closure'' None None (Some repo)"

definition eligible :: "time \<Rightarrow> job_row \<Rightarrow> bool" where
  "eligible now j \<longleftrightarrow> is_pending j \<and> j_run_after j \<le> now"

definition set_job :: "uuid \<Rightarrow> (job_row \<Rightarrow> job_row) \<Rightarrow> db \<Rightarrow> db" where
  "set_job i f db = db\<lparr>jobs := upd_where (\<lambda>j. j_id j = i) f (jobs db)\<rparr>"

definition claimed :: "time \<Rightarrow> job_row \<Rightarrow> job_row" where
  "claimed now j = j\<lparr>j_status := ''running'', j_attempts := j_attempts j + 1, j_claimed := Some now, j_updated := now\<rparr>"

definition claim_mirror_job :: "time \<Rightarrow> db \<Rightarrow> job_row option \<times> db" where
  "claim_mirror_job now db = (case sort_key j_run_after (filter (eligible now) (jobs db)) of
     [] \<Rightarrow> (None, db)
   | j # _ \<Rightarrow> (Some (claimed now j), set_job (j_id j) (\<lambda>_. claimed now j) db))"

definition complete_mirror_job :: "time \<Rightarrow> db \<Rightarrow> uuid \<Rightarrow> db" where
  "complete_mirror_job now db i = set_job i (\<lambda>j. j\<lparr>j_status := ''ready'', j_error := None, j_updated := now\<rparr>) db"

definition rescheduled :: "time \<Rightarrow> int \<Rightarrow> string \<Rightarrow> job_row \<Rightarrow> job_row" where
  "rescheduled now backoff_secs err j = j\<lparr>j_status := ''pending'', j_run_after := now + backoff_secs, j_error := Some err, j_updated := now\<rparr>"

definition retry_mirror_job :: "time \<Rightarrow> db \<Rightarrow> uuid \<Rightarrow> int \<Rightarrow> string \<Rightarrow> (sql_error, db) result" where
  "retry_mirror_job now db i backoff_secs err =
     (let db' = set_job i (rescheduled now backoff_secs err) db
      in if pending_unique (jobs db') then Inr db' else Inl (UniqueViolation ''mirror_jobs_pending_uniq''))"

definition fail_mirror_job :: "time \<Rightarrow> db \<Rightarrow> uuid \<Rightarrow> string \<Rightarrow> db" where
  "fail_mirror_job now db i err = set_job i (\<lambda>j. j\<lparr>j_status := ''failed'', j_error := Some err, j_updated := now\<rparr>) db"

section \<open>The dependency plan\<close>

record plan_entry =
  pe_name :: string
  pe_status :: string
  pe_resolver :: "uuid option"
  pe_required_by :: "string option"

fun json_keys :: "json option \<Rightarrow> string list" where
  "json_keys (Some (JObj kvs)) = remdups (map fst kvs)"
| "json_keys _ = []"

definition repo_direct_requires :: "db \<Rightarrow> uuid \<Rightarrow> (string \<times> string) list" where
  "repo_direct_requires db repo = remdups (concat (map (\<lambda>p. concat (map (\<lambda>v. map (Pair (p_name p)) (json_keys (json_get ''require'' (v_composer v))))
       (filter (\<lambda>v. v_package v = p_id p) (versions db)))) (filter (\<lambda>p. p_repo p = repo) (packages db))))"

definition plan_row_of :: "uuid \<Rightarrow> plan_entry \<Rightarrow> plan_row" where
  "plan_row_of repo e = \<lparr>dp_repo = repo, dp_name = pe_name e, dp_status = pe_status e, dp_resolver = pe_resolver e, dp_required_by = pe_required_by e\<rparr>"

definition entry_of_row :: "plan_row \<Rightarrow> plan_entry" where
  "entry_of_row d = \<lparr>pe_name = dp_name d, pe_status = dp_status d, pe_resolver = dp_resolver d, pe_required_by = dp_required_by d\<rparr>"

definition replace_dependency_plan :: "db \<Rightarrow> uuid \<Rightarrow> plan_entry list \<Rightarrow> (sql_error, db) result" where
  "replace_dependency_plan db repo es =
     (if es \<noteq> [] \<and> repo_named db repo = None
         \<or> list_ex (\<lambda>e. case pe_resolver e of None \<Rightarrow> False | Some u \<Rightarrow> \<not> exists_where (\<lambda>x. ur_id x = u) (upstreams db)) es
      then Inl (ForeignKeyViolation ''dependency_plan'')
      else if \<not> distinct (map pe_name es) then Inl (UniqueViolation ''dependency_plan_pkey'')
      else Inr (db\<lparr>plans := del_where (\<lambda>d. dp_repo d = repo) (plans db) @ map (plan_row_of repo) es\<rparr>))"

definition list_dependency_plan :: "db \<Rightarrow> uuid \<Rightarrow> plan_entry list" where
  "list_dependency_plan db repo = sort_by (\<lambda>a b. then_with (text_cmp (pe_status a) (pe_status b)) (text_cmp (pe_name a) (pe_name b)))
     (map entry_of_row (filter (\<lambda>d. dp_repo d = repo) (plans db)))"

definition dependency_plan_entry :: "db \<Rightarrow> uuid \<Rightarrow> string \<Rightarrow> plan_entry option" where
  "dependency_plan_entry db repo name = map_option entry_of_row (select_one (\<lambda>d. dp_repo d = repo \<and> dp_name d = name) (plans db))"

section \<open>Handlers and commands\<close>

record upstream_form =
  uf_kind :: string
  uf_visibility :: string
  uf_base :: string
  uf_label :: "string option"
  uf_credential :: "string option"
  uf_cred_user :: "string option"
  uf_cred_type :: "string option"
  uf_requires :: "string option"
  uf_source_paths :: "string option"

datatype upstream_answer = UpstreamAdded db | UpstreamNotAdded string

text \<open>\<open>str::lines\<close>, whose lines every caller trims.\<close>

definition trimmed_lines :: "string option \<Rightarrow> string list" where
  "trimmed_lines s = filter (\<lambda>l. l \<noteq> []) (map trim (split_on (CHR 0x0A) (coalesce s [])))"

fun parse_requires :: "string list \<Rightarrow> (require_error, upstream_require list) result" where
  "parse_requires [] = Inr []"
| "parse_requires (l # ls) = and_then (parse_require l) (\<lambda>q. and_then (parse_requires ls) (\<lambda>qs. Inr (q # qs)))"

definition parse_visibility :: "string \<Rightarrow> visibility option" where
  "parse_visibility s = (if s = ''public'' then Some Public else if s = ''private'' then Some Private else None)"

text \<open>\<open>enc\<close> is the at-rest cipher, absent without a key.\<close>

definition ui_create_upstream :: "uuid \<Rightarrow> (bytes \<Rightarrow> bytes) option \<Rightarrow> db \<Rightarrow> current_user \<Rightarrow> string \<Rightarrow> string
    \<Rightarrow> upstream_form \<Rightarrow> (status, upstream_answer) result" where
  "ui_create_upstream newid enc db user org repo f = and_then (lookup_admin db user org repo) (\<lambda>r.
     and_then (ok_or BadRequest (parse_visibility (uf_visibility f))) (\<lambda>vis.
     if uf_kind f \<noteq> ''git'' \<and> uf_kind f \<noteq> ''composer'' then Inl BadRequest
     else let credential_type = coalesce (uf_cred_type f) ''basic''
     in if credential_type \<notin> set [''basic'', ''github'', ''gitlab'', ''bearer''] then Inl BadRequest
     else and_then (map_err (\<lambda>_. BadRequest) (parse_requires (trimmed_lines (uf_requires f)))) (\<lambda>requires.
     if uf_kind f = ''composer'' \<and> requires = [] then Inr (UpstreamNotAdded ''filter'')
     else let label = form_field (uf_label f); token = form_field (uf_credential f); cred_user = form_field (uf_cred_user f);
         combined = (case (cred_user, token) of
             (Some u, Some t) \<Rightarrow> if credential_type = ''basic'' \<and> CHR '':'' \<notin> set t then Some (u @ '':'' @ t) else Some t
           | _ \<Rightarrow> token)
     in if combined \<noteq> None \<and> enc = None then Inr (UpstreamNotAdded ''nokey'')
     else and_then (db_status (create_upstream newid db (rs_id r) (uf_kind f) (uf_base f) vis label
         (case (combined, enc) of (Some c, Some e) \<Rightarrow> Some (e (str_bytes c)) | _ \<Rightarrow> None) credential_type)) (\<lambda>(i, db).
       and_then (if requires \<noteq> [] then db_status (set_upstream_requires db (rs_id r) i requires) else Inr db) (\<lambda>db.
       let paths = trimmed_lines (uf_source_paths f)
       in Inr (UpstreamAdded (if uf_kind f = ''git'' \<and> paths \<noteq> [] then set_upstream_source_paths db (rs_id r) i paths else db)))))))"

definition ui_remove_upstream :: "db \<Rightarrow> current_user \<Rightarrow> string \<Rightarrow> string \<Rightarrow> uuid option \<Rightarrow> (status, db) result" where
  "ui_remove_upstream db user org repo parsed = and_then (lookup_admin db user org repo) (\<lambda>r.
     and_then (ok_or BadRequest parsed) (\<lambda>i. Inr (snd (delete_upstream db (rs_id r) i))))"

definition ui_sync_upstream :: "uuid \<Rightarrow> time \<Rightarrow> db \<Rightarrow> current_user \<Rightarrow> string \<Rightarrow> string \<Rightarrow> uuid option \<Rightarrow> (status, db) result" where
  "ui_sync_upstream newid now db user org repo parsed = and_then (lookup_admin db user org repo) (\<lambda>r.
     and_then (ok_or BadRequest parsed) (\<lambda>i.
       if \<not> list_ex (\<lambda>u. ur_id (um_row u) = i) (list_upstreams now db (rs_id r)) then Inl NotFound
       else and_then (db_status (enqueue_mirror_job newid now db i)) (\<lambda>(_, db). Inr db)))"

fun enqueue_all :: "uuid list \<Rightarrow> time \<Rightarrow> db \<Rightarrow> uuid list \<Rightarrow> (status, db) result" where
  "enqueue_all newids now db [] = Inr db"
| "enqueue_all (n # newids) now db (u # us) = and_then (db_status (enqueue_mirror_job n now db u)) (\<lambda>(_, db). enqueue_all newids now db us)"
| "enqueue_all [] now db (u # us) = Inl ServerError"

text \<open>\<open>newids\<close> supplies a fresh id per upstream.\<close>

definition ui_sync_all :: "uuid list \<Rightarrow> time \<Rightarrow> db \<Rightarrow> current_user \<Rightarrow> string \<Rightarrow> string \<Rightarrow> (status, db) result" where
  "ui_sync_all newids now db user org repo = and_then (lookup_admin db user org repo) (\<lambda>r.
     enqueue_all newids now db (map (\<lambda>u. ur_id (um_row u)) (list_upstreams now db (rs_id r))))"

definition ui_resolve_deps :: "uuid \<Rightarrow> time \<Rightarrow> db \<Rightarrow> current_user \<Rightarrow> string \<Rightarrow> string \<Rightarrow> (status, db) result" where
  "ui_resolve_deps newid now db user org repo = and_then (lookup_admin db user org repo) (\<lambda>r.
     and_then (db_status (enqueue_resolve_closure_job newid now db (rs_id r))) (\<lambda>(_, db). Inr db))"

definition ui_add_dep :: "uuid \<Rightarrow> time \<Rightarrow> db \<Rightarrow> current_user \<Rightarrow> string \<Rightarrow> string \<Rightarrow> string \<Rightarrow> (status, db) result" where
  "ui_add_dep newid now db user org repo package = and_then (lookup_admin db user org repo) (\<lambda>r.
     and_then (ok_or NotFound (dependency_plan_entry db (rs_id r) package)) (\<lambda>e.
     and_then (ok_or BadRequest (pe_resolver e)) (\<lambda>up.
     and_then (db_status (enqueue_mirror_package_job newid now db up package)) (\<lambda>(_, db). Inr db))))"

definition cli_upstream_add :: "uuid \<Rightarrow> (bytes \<Rightarrow> bytes) option \<Rightarrow> db \<Rightarrow> string \<Rightarrow> string \<Rightarrow> string \<Rightarrow> visibility \<Rightarrow> string option
    \<Rightarrow> string option \<Rightarrow> string \<Rightarrow> string list \<Rightarrow> string list \<Rightarrow> (string, db) result" where
  "cli_upstream_add newid enc db repo kind base vis label credential credential_type require source_path =
     and_then (map_err (\<lambda>_. ''bad require entry'') (parse_requires require)) (\<lambda>requires.
     if kind \<noteq> ''git'' \<and> source_path \<noteq> [] then Inl ''--source-path is only valid for a git upstream''
     else if kind = ''composer'' \<and> requires = [] then Inl ''composer upstreams require at least one --require entry''
     else and_then (case credential of None \<Rightarrow> Inr None
         | Some c \<Rightarrow> (case enc of None \<Rightarrow> Inl ''SCONCE_SECRET_KEY is not set'' | Some e \<Rightarrow> Inr (Some (e (str_bytes c))))) (\<lambda>ciphertext.
     and_then (cli_resolve_repo db repo) (\<lambda>i.
     and_then (map_err (\<lambda>_. ''creating upstream'') (create_upstream newid db i kind base vis label ciphertext credential_type)) (\<lambda>(u, db).
     and_then (if requires \<noteq> [] then map_err (\<lambda>_. ''setting mirror subscription'') (set_upstream_requires db i u requires) else Inr db) (\<lambda>db.
     Inr (if source_path \<noteq> [] then set_upstream_source_paths db i u source_path else db))))))"

definition cli_upstream_remove :: "db \<Rightarrow> string \<Rightarrow> uuid \<Rightarrow> (string, db) result" where
  "cli_upstream_remove db repo up = and_then (cli_resolve_repo db repo) (\<lambda>i.
     if fst (delete_upstream db i up) then Inr (snd (delete_upstream db i up)) else Inl ''no such upstream'')"

definition cli_deps_resolve :: "uuid \<Rightarrow> time \<Rightarrow> db \<Rightarrow> string \<Rightarrow> (string, db) result" where
  "cli_deps_resolve newid now db repo = and_then (cli_resolve_repo db repo) (\<lambda>i.
     map_err (\<lambda>_. ''enqueueing resolve job'') (and_then (enqueue_resolve_closure_job newid now db i) (\<lambda>(_, db). Inr db)))"

definition cli_deps_add :: "uuid \<Rightarrow> time \<Rightarrow> db \<Rightarrow> string \<Rightarrow> string \<Rightarrow> (string, db) result" where
  "cli_deps_add newid now db repo package = and_then (cli_resolve_repo db repo) (\<lambda>i.
     and_then (ok_or ''not in the plan'' (dependency_plan_entry db i package)) (\<lambda>e.
     and_then (ok_or ''nothing to add (no resolver)'' (pe_resolver e)) (\<lambda>up.
     map_err (\<lambda>_. ''enqueueing mirror'') (and_then (enqueue_mirror_package_job newid now db up package) (\<lambda>(_, db). Inr db)))))"

section \<open>The worker\<close>

record job_failure =
  jf_message :: string
  jf_terminal :: bool

text \<open>What a job ends in (the \<open>Result\<close> of \<open>run_job\<close>, or a panic, which unwinds through the loop), and why a loop ends.\<close>

datatype job_outcome = Done string | Failed job_failure | Panicking
datatype worker_stop = QueueError sql_error | JobPanicked

text \<open>The backoff in thousandths of a second: the clock's nanoseconds give the jitter. The code hands the fraction on to
  \<open>make_interval\<close>; times here are whole seconds, so \<open>settle\<close> drops it, the earlier instant of the two.\<close>

definition backoff_base :: "int \<Rightarrow> int" where
  "backoff_base attempts = min (10 * 2 ^ nat (max 0 (min 12 (attempts - 1)))) 3600"

definition retry_backoff_millis :: "int \<Rightarrow> int \<Rightarrow> int" where
  "retry_backoff_millis attempts nanos = backoff_base attempts * (500 + nanos mod 1000)"

text \<open>What the loop does with a job's outcome; an error here ends the loop.\<close>

fun settle :: "time \<Rightarrow> int \<Rightarrow> db \<Rightarrow> job_row \<Rightarrow> job_outcome \<Rightarrow> (worker_stop, db) result" where
  "settle now nanos db job (Done summary) = Inr (complete_mirror_job now db (j_id job))"
| "settle now nanos db job (Failed f) =
     (if jf_terminal f then Inr (fail_mirror_job now db (j_id job) (jf_message f))
      else map_err QueueError (retry_mirror_job now db (j_id job) (retry_backoff_millis (j_attempts job) nanos div 1000) (jf_message f)))"
| "settle now nanos db job Panicking = Inl JobPanicked"

text \<open>The inner loop, with fuel: \<open>None\<close> when the fuel ran out before the queue did. The state \<open>'s\<close> is what
  jobs see and change besides the database; the wall clock and the jitter's nanoseconds are read from it.\<close>

fun drain :: "(db \<Rightarrow> 's \<Rightarrow> job_row \<Rightarrow> job_outcome \<times> db \<times> 's) \<Rightarrow> ('s \<Rightarrow> time) \<Rightarrow> ('s \<Rightarrow> int) \<Rightarrow> nat
    \<Rightarrow> db \<Rightarrow> 's \<Rightarrow> ((worker_stop, db) result \<times> 's) option" where
  "drain run clock nanos 0 db s = None"
| "drain run clock nanos (Suc n) db s = (case claim_mirror_job (clock s) db of
     (None, db) \<Rightarrow> Some (Inr db, s)
   | (Some job, db) \<Rightarrow> (case run db s job of (outcome, db, s) \<Rightarrow>
       (case settle (clock s) (nanos s) db job outcome of
          Inl e \<Rightarrow> Some (Inl e, s)
        | Inr db \<Rightarrow> drain run clock nanos n db s)))"

section \<open>Require entries: the text form\<close>

lemma trim_fixed_iff: "trim s = s \<longleftrightarrow> trim_free utf8_ws s \<and> trim_free (map rev utf8_ws) (rev s)"
proof
  assume fixed: "trim s = s"
  have "trim_free utf8_ws (trim_start s)" by (simp add: trim_start_def trim_free_trim_list)
  then have "trim_free utf8_ws (trim s)" unfolding trim_def by (metis trim_end_prefix trim_free_take)
  moreover have "trim_free (map rev utf8_ws) (rev (trim s))" by (simp add: trim_def trim_end_def trim_free_trim_list)
  ultimately show "trim_free utf8_ws s \<and> trim_free (map rev utf8_ws) (rev s)" unfolding fixed by simp
next
  assume "trim_free utf8_ws s \<and> trim_free (map rev utf8_ws) (rev s)"
  then show "trim s = s" by (simp add: trim_def trim_start_def trim_end_def trim_list_id)
qed

lemma starts_with_before:
  assumes "d \<notin> set w" "starts_with w (a @ d # b)"
  shows "starts_with w a"
proof -
  have eq: "take (length w) (a @ d # b) = w" using assms(2) by (simp add: starts_with_def)
  have "length w \<le> length a"
  proof (rule ccontr)
    assume "\<not> length w \<le> length a"
    then have lt: "length a < length w" by simp
    then have "take (length w) (a @ d # b) ! length a = d" by (simp add: nth_append)
    with eq lt have "d \<in> set w" by (metis nth_mem)
    with assms(1) show False by simp
  qed
  with eq show ?thesis by (simp add: starts_with_def)
qed

lemma ws_no_at: "w \<in> set utf8_ws \<Longrightarrow> CHR ''@'' \<notin> set w"
  by (auto simp: utf8_ws_def)

lemma trim_free_before:
  "trim_free utf8_ws a \<Longrightarrow> trim_free utf8_ws (a @ CHR ''@'' # b)"
  "trim_free (map rev utf8_ws) c \<Longrightarrow> trim_free (map rev utf8_ws) (c @ CHR ''@'' # e)"
  unfolding trim_free_def using ws_no_at by (fastforce dest: starts_with_before[rotated])+

lemma trim_join: "trim a = a \<Longrightarrow> trim b = b \<Longrightarrow> trim (a @ CHR ''@'' # b) = a @ CHR ''@'' # b"
  unfolding trim_fixed_iff by (simp add: trim_free_before)

lemma trim_list_all:
  "trim_list ws s = [] \<Longrightarrow> s = [] \<or> (\<exists>w\<in>set ws. w \<noteq> [] \<and> (\<exists>r. s = r @ w))"
proof (induction ws s rule: trim_list.induct)
  case (1 ws s)
  show ?case
  proof (cases "find (\<lambda>w. w \<noteq> [] \<and> starts_with w s) ws")
    case None
    then show ?thesis using "1.prems" by (subst (asm) trim_list.simps) simp
  next
    case (Some w)
    then have w: "w \<in> set ws" "w \<noteq> []" "s = w @ drop (length w) s"
      by (auto dest!: find_SomeD simp: starts_with_iff)
    have "trim_list ws (drop (length w) s) = []" using "1.prems" Some by (subst (asm) trim_list.simps) simp
    from "1.IH"[OF Some this] w show ?thesis by (metis append.assoc append_Nil append_Nil2)
  qed
qed

lemma trim_end_nil: "trim_free (map rev utf8_ws) (rev b) \<Longrightarrow> trim b = [] \<Longrightarrow> b = []"
proof -
  assume e: "trim_free (map rev utf8_ws) (rev b)" and t: "trim b = []"
  obtain p where b: "b = p @ trim_start b" using trim_list_suffix trim_start_def by metis
  have "trim_free (map rev utf8_ws) (rev (trim_start b))" using e by (subst (asm) b) (auto intro: trim_free_take)
  then have "trim_list utf8_ws b = []" using t by (simp add: trim_def trim_end_def trim_list_id trim_start_def)
  then show "b = []" using trim_list_all[of utf8_ws b] e by (auto simp: trim_free_def starts_with_iff)
qed

lemma trim_no_char: "c \<notin> set s \<Longrightarrow> c \<notin> set (trim s)"
proof -
  assume "c \<notin> set s"
  moreover have "set (trim_start s) \<subseteq> set s" unfolding trim_start_def using trim_list_suffix[of s utf8_ws] by (metis Un_upper2 set_append)
  moreover have "set (trim s) \<subseteq> set (trim_start s)" unfolding trim_def using trim_end_prefix[of "trim_start s"] by (metis Un_upper1 set_append)
  ultimately show ?thesis by blast
qed

lemma trim_end_char_id: "c \<notin> set s \<Longrightarrow> trim_end_char c s = s"
  unfolding trim_end_char_def by (cases "rev s") (auto simp: rev_swap)

lemma trim_end_char_strip: "c \<notin> set s \<Longrightarrow> trim_end_char c (s @ [c]) = s"
  using trim_end_char_id[of c s] by (simp add: trim_end_char_def)

definition floor_ok :: "string option \<Rightarrow> bool" where
  "floor_ok fl \<longleftrightarrow> (case fl of None \<Rightarrow> True | Some f \<Rightarrow> trim f = f \<and> f \<noteq> [])"

lemma split_floor_facts:
  assumes s: "trim s = s" and sp: "split_floor s = (m, fl)"
  shows "CHR ''@'' \<notin> set m \<and> trim m = m \<and> floor_ok fl"
proof (cases "split_once (CHR ''@'') s")
  case None
  then have "CHR ''@'' \<notin> set s" by (simp add: split_once_None)
  with None sp s show ?thesis by (auto simp: split_floor_def floor_ok_def trim_end_char_id trim_idem)
next
  case (Some ab)
  obtain a b where ab: "ab = (a, b)" by (cases ab)
  have eq: "s = a @ CHR ''@'' # b" "CHR ''@'' \<notin> set a" using Some ab by (simp_all add: split_once_Some)
  show ?thesis
  proof (cases "trim b = []")
    case False
    with Some ab sp eq show ?thesis by (auto simp: split_floor_def floor_ok_def trim_idem trim_no_char)
  next
    case True
    have "trim_free (map rev utf8_ws) (rev b @ CHR ''@'' # rev a)" using s[unfolded trim_fixed_iff] eq by simp
    then have "b = []" using True by (auto intro: trim_end_nil dest: trim_free_take)
    with Some ab sp eq show ?thesis
      by (auto simp: split_floor_def floor_ok_def trim_idem trim_no_char trim_end_char_strip trim_def[of "[]"] trim_start_def trim_end_def trim_list_id trim_free_def starts_with_def)
  qed
qed

lemma split_floor_join:
  assumes "CHR ''@'' \<notin> set m" "trim m = m" "floor_ok fl"
  shows "split_floor (case fl of Some f \<Rightarrow> m @ ''@'' @ f | None \<Rightarrow> m) = (m, fl)"
proof (cases fl)
  case None
  then show ?thesis using assms by (simp add: split_floor_def split_once_None[THEN iffD2] trim_end_char_id)
next
  case (Some f)
  have "split_once (CHR ''@'') (m @ CHR ''@'' # f) = Some (m, f)" using assms(1) by (simp add: split_once_Some)
  then show ?thesis using Some assms by (simp add: split_floor_def floor_ok_def)
qed

lemma suffix_trim_free:
  assumes "trim (s @ [CHR ''*'']) = s @ [CHR ''*'']" "ends_with ''/'' s"
  shows "trim s = s"
proof -
  obtain r where r: "s = r @ ''/''" using assms(2) by (auto simp: ends_with_iff)
  have "trim_free utf8_ws s" using assms(1) by (auto simp: trim_fixed_iff intro: trim_free_take)
  moreover have "trim_free (map rev utf8_ws) (rev s)"
    unfolding r trim_free_def starts_with_def utf8_ws_def by (simp add: take_Cons')
  ultimately show ?thesis by (simp add: trim_fixed_iff)
qed

lemma parse_matcher_again:
  assumes m: "trim m = m" "CHR ''@'' \<notin> set m" and p: "parse_matcher spec m = Inr (k, p)"
    and n_def: "n = matcher_spec \<lparr>q_kind = k, q_pattern = p, q_floor = fl\<rparr>"
  shows "trim n = n \<and> CHR ''@'' \<notin> set n \<and> parse_matcher spec' n = Inr (k, p)"
proof (cases "k = ''prefix'' \<and> m = p @ ''*'' \<and> ends_with ''/'' p")
  case True
  then have n: "n = p" by (simp add: n_def matcher_spec_def)
  obtain r where r: "p = r @ ''/''" using True by (auto simp: ends_with_iff)
  have "trim p = p" using m(1) True suffix_trim_free by simp
  moreover have "strip_prefix ''re:'' p = None"
  proof (rule ccontr)
    assume "strip_prefix ''re:'' p \<noteq> None"
    then obtain x where "p = ''re:'' @ x" by (auto simp: strip_prefix_Some)
    then have "strip_prefix ''re:'' m = Some (x @ ''*'')" using True by (simp add: strip_prefix_Some)
    with p True show False by (auto simp: parse_matcher_def split: if_splits)
  qed
  moreover have "strip_suffix ''*'' p = None" unfolding r by (simp add: strip_suffix_def ends_with_def starts_with_def)
  ultimately show ?thesis unfolding n using True m(2) r by (simp add: parse_matcher_def)
next
  case False
  have "n = m"
    using p False unfolding n_def matcher_spec_def parse_matcher_def
    by (auto split: if_splits option.splits simp: strip_prefix_Some strip_suffix_Some ends_with_iff)
  then show ?thesis using m p by (auto simp: parse_matcher_def split: if_splits option.splits)
qed

text \<open>C30: The text form of a require entry is faithful: an entry parsed from any accepted spec reads back from the
  text the interface shows for it (\<open>UpstreamRequire::to_spec\<close>) as the same kind, pattern and version constraint, so
  saving the shown list again never changes a subscription.\<close>

theorem require_roundtrip:
  assumes "parse_require s = Inr q"
  shows "parse_require (to_spec q) = Inr q"
proof -
  obtain m fl where sp: "split_floor (trim s) = (m, fl)" by fastforce
  then obtain k p where p: "parse_matcher (trim s) m = Inr (k, p)" and q: "q = \<lparr>q_kind = k, q_pattern = p, q_floor = fl\<rparr>"
    using assms by (auto simp: parse_require_def Let_def and_then_Inr_iff)
  have m: "CHR ''@'' \<notin> set m" "trim m = m" "floor_ok fl" using split_floor_facts[OF trim_idem sp] by auto
  note n = parse_matcher_again[OF m(2,1) p, of "matcher_spec q" fl, folded q, OF refl]
  let ?n = "matcher_spec q"
  have spec: "to_spec q = (case fl of Some f \<Rightarrow> ?n @ ''@'' @ f | None \<Rightarrow> ?n)" using q by (simp only: to_spec_def) simp
  have "trim (to_spec q) = to_spec q"
    unfolding spec using n m(3) by (auto simp: floor_ok_def trim_join split: option.splits)
  moreover have "split_floor (to_spec q) = (?n, fl)" unfolding spec using n m(3) by (intro split_floor_join) auto
  ultimately show ?thesis using n by (simp add: parse_require_def q)
qed

theorem require_roundtrip_witness:
  "parse_require (to_spec \<lparr>q_kind = ''prefix'', q_pattern = ''mage-os/'', q_floor = Some ''2.4''\<rparr>)
     = Inr \<lparr>q_kind = ''prefix'', q_pattern = ''mage-os/'', q_floor = Some ''2.4''\<rparr>"
proof -
  have "parse_require '' mage-os/* @ 2.4'' = Inr \<lparr>q_kind = ''prefix'', q_pattern = ''mage-os/'', q_floor = Some ''2.4''\<rparr>"
    by code_simp
  from require_roundtrip[OF this] show ?thesis .
qed

section \<open>The queue's invariant\<close>

definition queue_ok :: "db \<Rightarrow> bool" where
  "queue_ok db \<longleftrightarrow> distinct (map j_id (jobs db)) \<and> pending_unique (jobs db)"

definition due :: "time \<Rightarrow> db \<Rightarrow> nat" where
  "due t db = count_where (eligible t) (jobs db)"

lemma pending_unique_inj:
  "distinct (map j_id js) \<Longrightarrow> pending_unique js \<longleftrightarrow> inj_on job_key {j \<in> set js. is_pending j}"
  unfolding pending_unique_def by (simp add: distinct_map distinct_filter)

lemma queue_ok_same_pending:
  "queue_ok db \<Longrightarrow> j \<in> set (jobs db) \<Longrightarrow> k \<in> set (jobs db) \<Longrightarrow> is_pending j \<Longrightarrow> is_pending k
    \<Longrightarrow> job_key j = job_key k \<Longrightarrow> j = k"
  unfolding queue_ok_def using pending_unique_inj[of "jobs db"] by (auto dest: inj_onD)

lemma retry_backoff_bounds:
  "5 \<le> retry_backoff_millis attempts nanos div 1000 \<and> retry_backoff_millis attempts nanos div 1000 < 5400"
proof -
  let ?b = "backoff_base attempts" and ?j = "500 + nanos mod 1000"
  have "(1::int) \<le> 2 ^ nat (max 0 (min 12 (attempts - 1)))" by simp
  then have b: "10 \<le> ?b" "?b \<le> 3600" unfolding backoff_base_def by linarith+
  have j: "500 \<le> ?j" "?j \<le> 1499" using pos_mod_bound[of 1000 nanos] pos_mod_sign[of 1000 nanos] by linarith+
  have "10 * 500 \<le> ?b * ?j" using b j by (intro mult_mono) auto
  moreover have "?b * ?j \<le> 3600 * 1499" using b j by (intro mult_mono) auto
  ultimately show ?thesis unfolding retry_backoff_millis_def by linarith
qed

lemma claim_mirror_job_Some:
  assumes "claim_mirror_job now db = (Some job, db')"
  obtains j where "j \<in> set (jobs db)" "eligible now j" "job = claimed now j"
    "db' = set_job (j_id j) (\<lambda>_. claimed now j) db" "\<forall>k\<in>set (jobs db). eligible now k \<longrightarrow> j_run_after j \<le> j_run_after k"
proof -
  let ?q = "sort_key j_run_after (filter (eligible now) (jobs db))"
  obtain j js where q: "?q = j # js" using assms by (auto simp: claim_mirror_job_def split: list.splits)
  then have "set (j # js) = {k \<in> set (jobs db). eligible now k}" by (metis set_filter set_sort)
  moreover have "sorted (map j_run_after (j # js))" using sorted_sort_key[of j_run_after] q by metis
  ultimately show thesis using assms q by (intro that[of j]) (auto simp: claim_mirror_job_def)
qed

lemma claim_mirror_job_None: "claim_mirror_job now db = (None, db') \<Longrightarrow> db' = db \<and> due now db = 0"
proof -
  assume c: "claim_mirror_job now db = (None, db')"
  then have "sort_key j_run_after (filter (eligible now) (jobs db)) = []"
    by (auto simp: claim_mirror_job_def split: list.splits)
  then have "length (filter (eligible now) (jobs db)) = 0" by (metis length_sort list.size(3))
  then show ?thesis using c by (auto simp: claim_mirror_job_def due_def count_where_def)
qed

lemma jobs_set_job [simp]: "jobs (set_job i f db) = upd_where (\<lambda>j. j_id j = i) f (jobs db)"
  by (simp add: set_job_def)

lemma upd_where_again:
  "(\<And>r. k (g r) = i) \<Longrightarrow> upd_where (\<lambda>r. k r = i) f (upd_where (\<lambda>r. k r = i) g t) = upd_where (\<lambda>r. k r = i) (f \<circ> g) t"
  by (induction t) (auto simp: upd_where_Cons)

lemma length_filter_map_le:
  "(\<And>k. k \<in> set js \<Longrightarrow> P (h k) \<Longrightarrow> P k) \<Longrightarrow> length (filter P (map h js)) \<le> length (filter P js)"
proof (induction js)
  case (Cons k js)
  then have "length (filter P (map h js)) \<le> length (filter P js)" by simp
  then show ?case using Cons.prems[of k] by auto
qed simp

lemma length_filter_map_less:
  "(\<And>k. k \<in> set js \<Longrightarrow> P (h k) \<Longrightarrow> P k) \<Longrightarrow> j \<in> set js \<Longrightarrow> P j \<Longrightarrow> \<not> P (h j)
    \<Longrightarrow> length (filter P (map h js)) < length (filter P js)"
proof (induction js)
  case (Cons k js)
  have le: "length (filter P (map h js)) \<le> length (filter P js)"
    using Cons.prems(1) by (intro length_filter_map_le) simp
  show ?case using Cons le by (cases "k = j") (auto simp: less_Suc_eq_le)
qed simp

text \<open>What settling a claimed job amounts to: its row has one attempt more and is finished or pending well in the future.\<close>

definition job_settled :: "time \<Rightarrow> job_row \<Rightarrow> job_row \<Rightarrow> bool" where
  "job_settled t j g \<longleftrightarrow> j_id g = j_id j \<and> job_key g = job_key j \<and> j_attempts g = j_attempts j + 1
     \<and> j_status g \<in> set [''ready'', ''failed'', ''pending''] \<and> (is_pending g \<longrightarrow> t + 5 \<le> j_run_after g)"

text \<open>What a drain between \<open>t0\<close> and \<open>t1\<close> makes of a job: run once if it was due all along, left alone if it was never due.\<close>

definition drained :: "time \<Rightarrow> time \<Rightarrow> job_row \<Rightarrow> job_row \<Rightarrow> bool" where
  "drained t0 t1 j g \<longleftrightarrow> (if eligible t0 j then job_settled t0 j g else if eligible t1 j then g = j \<or> job_settled t0 j g else g = j)"

lemma drained_step: "drained t0 t1 (if k = j then g else k) g' \<Longrightarrow> \<not> eligible t0 g \<Longrightarrow> \<not> eligible t1 g \<Longrightarrow> eligible t1 j \<Longrightarrow> job_settled t0 j g
    \<Longrightarrow> drained t0 t1 k g'"
  by (auto simp: drained_def split: if_splits)

lemma settled_earlier: "job_settled t j g \<Longrightarrow> t0 \<le> t \<Longrightarrow> job_settled t0 j g"
  by (auto simp: job_settled_def)

lemma queue_ok_settled:
  assumes ok: "queue_ok db" and j: "j \<in> set (jobs db)" "is_pending j"
    and g: "j_id g = j_id j" "job_key g = job_key j"
    and js: "jobs db' = upd_where (\<lambda>k. j_id k = j_id j) (\<lambda>_. g) (jobs db)"
  shows "queue_ok db'"
proof -
  have ids: "map j_id (jobs db') = map j_id (jobs db)" unfolding js upd_where_def using g by auto
  have "x = y" if xy: "x \<in> set (jobs db')" "y \<in> set (jobs db')" "is_pending x" "is_pending y" "job_key x = job_key y" for x y
  proof -
    have mem: "z = g \<or> z \<in> set (jobs db) \<and> j_id z \<noteq> j_id j" if "z \<in> set (jobs db')" for z
      using that unfolding js upd_where_def by auto
    show ?thesis
      using mem[OF xy(1)] mem[OF xy(2)] xy(3-5) g j queue_ok_same_pending[OF ok] by metis
  qed
  then have "inj_on job_key {j \<in> set (jobs db'). is_pending j}" by (auto simp: inj_on_def)
  then show ?thesis using ok ids unfolding queue_ok_def by (simp add: pending_unique_inj)
qed

lemma due_settled:
  assumes "distinct (map j_id (jobs db))" "j \<in> set (jobs db)" "eligible t j"
    and "jobs db' = upd_where (\<lambda>k. j_id k = j_id j) (\<lambda>_. g) (jobs db)" "\<not> eligible t g"
  shows "due t db' < due t db"
  unfolding due_def count_where_def assms(4) upd_where_def
  by (rule length_filter_map_less[of _ _ _ j]) (use assms in \<open>auto split: if_splits\<close>)

lemma settle_spec:
  assumes ok: "queue_ok db" and j: "j \<in> set (jobs db)" "eligible now j"
    and js: "jobs db2 = upd_where (\<lambda>k. j_id k = j_id j) (\<lambda>_. claimed now j) (jobs db)" and calm: "outcome \<noteq> Panicking"
  obtains db3 g where "settle t nanos db2 (claimed now j) outcome = Inr db3" "job_settled t j g"
    "jobs db3 = upd_where (\<lambda>k. j_id k = j_id j) (\<lambda>_. g) (jobs db)"
proof -
  have set: "jobs (set_job (j_id j) f db2) = upd_where (\<lambda>k. j_id k = j_id j) (\<lambda>_. f (claimed now j)) (jobs db)" for f
    by (simp add: js upd_where_again claimed_def comp_def)
  have pend: "is_pending j" using j(2) by (simp add: eligible_def)
  show thesis
  proof (cases outcome)
    case Panicking
    with calm show thesis by simp
  next
    case (Done x)
    then have "settle t nanos db2 (claimed now j) outcome = Inr (complete_mirror_job t db2 (j_id j))"
      by (simp add: claimed_def)
    then show thesis unfolding complete_mirror_job_def by (rule that[OF _ _ set])
      (auto simp: job_settled_def claimed_def job_key_def is_pending_def)
  next
    case (Failed f)
    show thesis
    proof (cases "jf_terminal f")
      case True
      then have "settle t nanos db2 (claimed now j) outcome = Inr (fail_mirror_job t db2 (j_id j) (jf_message f))"
        using Failed by (simp add: claimed_def)
      then show thesis unfolding fail_mirror_job_def by (rule that[OF _ _ set])
        (auto simp: job_settled_def claimed_def job_key_def is_pending_def)
    next
      case False
      let ?g = "rescheduled t (retry_backoff_millis (j_attempts (claimed now j)) nanos div 1000) (jf_message f) (claimed now j)"
      let ?db = "set_job (j_id j) (rescheduled t (retry_backoff_millis (j_attempts (claimed now j)) nanos div 1000) (jf_message f)) db2"
      have g: "job_settled t j ?g" using retry_backoff_bounds by (auto simp: job_settled_def rescheduled_def claimed_def job_key_def)
      have "queue_ok ?db" by (rule queue_ok_settled[OF ok j(1) pend _ _ set]) (use g in \<open>auto simp: job_settled_def\<close>)
      then have "settle t nanos db2 (claimed now j) outcome = Inr ?db"
        using Failed False by (simp add: retry_mirror_job_def queue_ok_def claimed_def)
      then show thesis using g by (rule that) (rule set)
    qed
  qed
qed

lemma eligible_settled: "job_settled t j g \<Longrightarrow> t' < t + 5 \<Longrightarrow> \<not> eligible t' g"
  by (auto simp: job_settled_def eligible_def)

section \<open>The worker's contract\<close>

text \<open>A worker's jobs leave the queue alone; the loop itself is the only writer of the rows it claimed.\<close>

locale worker =
  fixes run :: "db \<Rightarrow> 's \<Rightarrow> job_row \<Rightarrow> job_outcome \<times> db \<times> 's"
  assumes keeps_queue: "run db s job = (outcome, db', s') \<Longrightarrow> jobs db' = jobs db"
begin

lemma round:
  assumes ok: "queue_ok db" and c: "claim_mirror_job (clock s) db = (Some job, db1)"
    and r: "run db1 s job = (outcome, db2, s')" "outcome \<noteq> Panicking"
  obtains j db3 g where "j \<in> set (jobs db)" "eligible (clock s) j" "settle (clock s') (nanos s') db2 job outcome = Inr db3"
    "job_settled (clock s') j g" "jobs db3 = upd_where (\<lambda>k. j_id k = j_id j) (\<lambda>_. g) (jobs db)" "queue_ok db3"
proof -
  obtain j where j: "j \<in> set (jobs db)" "eligible (clock s) j" "job = claimed (clock s) j"
      "db1 = set_job (j_id j) (\<lambda>_. claimed (clock s) j) db"
    using claim_mirror_job_Some[OF c] by metis
  have "jobs db2 = upd_where (\<lambda>k. j_id k = j_id j) (\<lambda>_. claimed (clock s) j) (jobs db)"
    using keeps_queue[OF r(1)] j(4) by simp
  from settle_spec[OF ok j(1,2) this r(2)] obtain db3 g where st: "settle (clock s') (nanos s') db2 job outcome = Inr db3"
      "job_settled (clock s') j g" "jobs db3 = upd_where (\<lambda>k. j_id k = j_id j) (\<lambda>_. g) (jobs db)"
    unfolding j(3) by metis
  moreover have "queue_ok db3"
    by (rule queue_ok_settled[OF ok j(1) _ _ _ st(3)]) (use j(2) st(2) in \<open>auto simp: eligible_def job_settled_def\<close>)
  ultimately show thesis using that j by blast
qed

lemma drain_returns:
  assumes clock: "\<And>s. t0 \<le> clock s \<and> clock s \<le> t1" and short: "t1 < t0 + 5"
    and calm: "\<And>db s job. fst (run db s job) \<noteq> Panicking"
  shows "queue_ok db \<Longrightarrow> due t1 db < fuel \<Longrightarrow>
    \<exists>db' s'. drain run clock nanos fuel db s = Some (Inr db', s') \<and> due (clock s') db' = 0 \<and> queue_ok db'
      \<and> map j_id (jobs db') = map j_id (jobs db) \<and> map job_key (jobs db') = map job_key (jobs db)
      \<and> list_all2 (drained t0 t1) (jobs db) (jobs db')"
proof (induction fuel arbitrary: db s)
  case (Suc fuel)
  obtain job db1 where c: "claim_mirror_job (clock s) db = (job, db1)" by fastforce
  show ?case
  proof (cases job)
    case None
    then have n: "db1 = db" "due (clock s) db = 0" using c claim_mirror_job_None by auto
    have "\<not> eligible t0 j" if "j \<in> set (jobs db)" for j
    proof
      assume "eligible t0 j"
      then have "eligible (clock s) j" using clock[of s] by (simp add: eligible_def)
      then show False using that n(2) by (simp add: due_def count_where_def filter_empty_conv)
    qed
    then have "list_all2 (drained t0 t1) (jobs db) (jobs db)" by (auto simp: list_all2_same drained_def)
    then show ?thesis using c None n Suc.prems(1) by simp
  next
    case (Some job')
    obtain outcome db2 s' where r: "run db1 s job' = (outcome, db2, s')" using prod_cases3 by blast
    then have calm': "outcome \<noteq> Panicking" using calm[of db1 s job'] by simp
    obtain j db3 g where f: "j \<in> set (jobs db)" "eligible (clock s) j" "settle (clock s') (nanos s') db2 job' outcome = Inr db3"
        "job_settled (clock s') j g" "jobs db3 = upd_where (\<lambda>k. j_id k = j_id j) (\<lambda>_. g) (jobs db)" "queue_ok db3"
      using round[where clock = clock and s = s and nanos = nanos, OF Suc.prems(1) c[unfolded Some] r calm'] by metis
    have late: "eligible t1 j" "\<not> eligible t1 g" "\<not> eligible t0 g" "job_settled t0 j g"
    proof -
      have t: "t1 < clock s' + 5" "t0 < clock s' + 5" "t0 \<le> clock s'" "clock s \<le> t1" using clock[of s] clock[of s'] short by linarith+
      show "eligible t1 j" using f(2) t(4) by (simp add: eligible_def)
      show "\<not> eligible t1 g" "\<not> eligible t0 g" "job_settled t0 j g"
        using eligible_settled[OF f(4)] settled_earlier[OF f(4)] t by blast+
    qed
    then have "due t1 db3 < due t1 db"
      using due_settled[OF _ f(1) _ f(5)] Suc.prems(1) by (simp add: queue_ok_def)
    with Suc.prems(2) have "due t1 db3 < fuel" by simp
    from Suc.IH[OF f(6) this, of s'] obtain db' s'' where d: "drain run clock nanos fuel db3 s' = Some (Inr db', s'')"
        "due (clock s'') db' = 0" "queue_ok db'" "map j_id (jobs db') = map j_id (jobs db3)"
        "map job_key (jobs db') = map job_key (jobs db3)" "list_all2 (drained t0 t1) (jobs db3) (jobs db')" by blast
    have same: "k = j" if "k \<in> set (jobs db)" "j_id k = j_id j" for k
      using that f(1) Suc.prems(1) by (auto simp: queue_ok_def dest: distinct_map_eqD)
    then have keys: "map j_id (jobs db3) = map j_id (jobs db) \<and> map job_key (jobs db3) = map job_key (jobs db)"
      unfolding f(5) upd_where_def using f(4) by (auto simp: job_settled_def)
    have "jobs db3 = map (\<lambda>k. if k = j then g else k) (jobs db)"
      unfolding f(5) upd_where_def using same by (intro map_cong) auto
    then have "list_all2 (\<lambda>k. drained t0 t1 (if k = j then g else k)) (jobs db) (jobs db')" using d(6) by (simp add: list_all2_map1)
    then have "list_all2 (drained t0 t1) (jobs db) (jobs db')"
      by (rule list_all2_mono) (rule drained_step[OF _ late(3,2,1,4)])
    then show ?thesis using c Some r f(3) d keys by simp
  qed
qed simp

end

section \<open>Two processes on one queue\<close>

text \<open>C27: A worker loop dies when a job is queued again while it runs. The enqueue is accepted, because the running
  job is no longer pending; when the run then fails transiently, putting the job back breaks the one-pending-job index,
  and the error leaves \<open>run_worker_loop\<close> (in \<open>sconce serve\<close> the worker is not started again).\<close>

theorem retry_collision:
  assumes claim: "claim_mirror_job (clock s) db = (Some job, db1)"
    and fails: "run db1 s job = (Failed f, db2, s')" "\<not> jf_terminal f"
    and again: "enqueue_job newid t db1 (j_kind job) (j_upstream job) (j_package job) (j_repo job) = Inr (True, db2)"
    and fresh: "newid \<notin> j_id ` set (jobs db)"
  shows "drain run clock nanos (Suc n) db s = Some (Inl (QueueError (UniqueViolation ''mirror_jobs_pending_uniq'')), s')"
proof -
  obtain j where j: "j \<in> set (jobs db)" "job = claimed (clock s) j" "db1 = set_job (j_id j) (\<lambda>_. claimed (clock s) j) db"
    using claim_mirror_job_Some[OF claim] by metis
  define k where "k = new_job newid t (j_kind job) (j_upstream job) (j_package job) (j_repo job)"
  define g where "g = rescheduled (clock s') (retry_backoff_millis (j_attempts job) (nanos s') div 1000) (jf_message f)"
  have js: "jobs db2 = jobs db1 @ [k]" using again unfolding enqueue_job_def Let_def k_def[symmetric] by (auto split: if_splits)
  have k: "j_id k = newid" "is_pending k" "job_key k = job_key job" by (auto simp: k_def new_job_def is_pending_def job_key_def)
  have "job \<in> set (jobs db1)" using j by (auto simp: in_upd_where claimed_def)
  then have "g job \<in> set (upd_where (\<lambda>x. j_id x = j_id job) g (jobs db1))" by (auto simp: in_upd_where)
  moreover have "is_pending (g job)" "job_key (g job) = job_key job"
    by (auto simp: g_def rescheduled_def is_pending_def job_key_def)
  moreover have "jobs (set_job (j_id job) g db2) = upd_where (\<lambda>x. j_id x = j_id job) g (jobs db1) @ [k]"
    using fresh j k(1) by (auto simp: js upd_where_append upd_where_Cons claimed_def)
  ultimately have "\<not> pending_unique (jobs (set_job (j_id job) g db2))"
    unfolding pending_unique_def using k(2,3) by (auto simp: image_iff intro!: bexI[of _ "g job"])
  then have "settle (clock s') (nanos s') db2 job (Failed f) = Inl (QueueError (UniqueViolation ''mirror_jobs_pending_uniq''))"
    using fails(2) by (simp add: retry_mirror_job_def g_def)
  then show ?thesis using claim fails(1) by simp
qed

definition demo_upstream :: upstream_row where
  "demo_upstream = new_upstream 5 1 ''composer'' ''https://repo.example'' Public None None ''basic''"

definition demo_queue :: db where
  "demo_queue = empty_db\<lparr>upstreams := [demo_upstream], jobs := [new_job 7 0 ''mirror_upstream'' (Some 5) None None]\<rparr>"

definition demo_requeue :: "db \<Rightarrow> unit \<Rightarrow> job_row \<Rightarrow> job_outcome \<times> db \<times> unit" where
  "demo_requeue db s job = (Failed \<lparr>jf_message = ''http error'', jf_terminal = False\<rparr>,
     (case enqueue_mirror_job 8 1 db 5 of Inr (_, db) \<Rightarrow> db | Inl _ \<Rightarrow> db), ())"

theorem retry_collision_witness:
  "drain demo_requeue (\<lambda>_. 10) (\<lambda>_. 250) 3 demo_queue () = Some (Inl (QueueError (UniqueViolation ''mirror_jobs_pending_uniq'')), ())"
proof -
  let ?job = "claimed 10 (new_job 7 0 ''mirror_upstream'' (Some 5) None None)"
  let ?db1 = "set_job 7 (\<lambda>_. ?job) demo_queue"
  let ?db2 = "case enqueue_mirror_job 8 1 ?db1 5 of Inr (_, db) \<Rightarrow> db | Inl _ \<Rightarrow> ?db1"
  have 1: "claim_mirror_job 10 demo_queue = (Some ?job, ?db1)" by code_simp
  have 2: "demo_requeue ?db1 () ?job = (Failed \<lparr>jf_message = ''http error'', jf_terminal = False\<rparr>, ?db2, ())" by (simp add: demo_requeue_def)
  have 3: "enqueue_job 8 1 ?db1 (j_kind ?job) (j_upstream ?job) (j_package ?job) (j_repo ?job) = Inr (True, ?db2)" by code_simp
  from retry_collision[where clock = "\<lambda>_. 10" and run = demo_requeue and nanos = "\<lambda>_. 250" and n = 2, OF 1 2 _ 3]
  show ?thesis by (simp add: demo_queue_def new_job_def numeral_3_eq_3)
qed

section \<open>Credentials\<close>

text \<open>A credential given for a public upstream is not stored, although the form's comment allows one
  (a private repository mirrored as public).\<close>

lemma public_upstream_drops_credential:
  assumes "create_upstream newid db repo kind base Public label credential ct = Inr (i, db')"
    and "newid \<notin> ur_id ` set (upstreams db)"
  shows "\<exists>c. get_upstream db' i = Some c \<and> ur_credential (uc_row c) = None"
proof -
  have up: "i = newid" "upstreams db' = upstreams db @ [new_upstream newid repo kind base Public label None ct]"
    using assms(1) by (auto simp: create_upstream_def Let_def split: if_splits)
  have "select_one (\<lambda>u. ur_id u = i) (upstreams db') = Some (new_upstream newid repo kind base Public label None ct)"
    unfolding up using assms(2) by (subst select_one_append) (auto simp: select_one_Cons new_upstream_def split: option.splits dest: select_one_Some)
  then show ?thesis by (simp add: get_upstream_def new_upstream_def)
qed

end
