(* ===== verification/Archive.thy ===== *)
theory Archive
  imports Prelude "HOL-Library.Monad_Syntax"
begin

text \<open>
  The canonical ZIP writer of \<open>crates/sconce-archive/src/lib.rs\<close>: entries, their path
  normalisation, the pinned local, central and end-of-directory records and the CRC-32.
  \<open>into_zip\<close> returns \<open>None\<close> where the code panics (a size, offset or count that does not
  fit its field). A reader of the format, \<open>unzip\<close>, is the specification: what the writer
  emits is read back exactly, whatever order the entries were added in.
\<close>

unbundle bit_operations_syntax

section \<open>Entries\<close>

datatype arch_mode = File | Executable | Symlink

fun unix_mode :: "arch_mode \<Rightarrow> 32 word" where
  "unix_mode File = 0x81A4"
| "unix_mode Executable = 0x81ED"
| "unix_mode Symlink = 0xA1FF"

record entry =
  e_path :: string
  e_mode :: arch_mode
  e_content :: bytes

fun trim_dot_slash :: "string \<Rightarrow> string" where
  "trim_dot_slash (CHR ''.'' # CHR ''/'' # s) = trim_dot_slash s"
| "trim_dot_slash s = s"

definition entry_new :: "string \<Rightarrow> arch_mode \<Rightarrow> bytes \<Rightarrow> entry" where
  "entry_new path mode content =
     (let norm = map (\<lambda>c. if c = CHR 0x5C then CHR ''/'' else c) path;
          norm = dropWhile (\<lambda>c. c = CHR ''/'') (trim_dot_slash norm)
      in \<lparr> e_path = norm, e_mode = mode, e_content = content \<rparr>)"

section \<open>Field writers\<close>

definition w16 :: "bytes \<Rightarrow> 16 word \<Rightarrow> bytes" where
  "w16 out v = out @ [ucast v, ucast (drop_bit 8 v)]"

definition w32 :: "bytes \<Rightarrow> 32 word \<Rightarrow> bytes" where
  "w32 out v = out @ [ucast v, ucast (drop_bit 8 v), ucast (drop_bit 16 v), ucast (drop_bit 24 v)]"

definition u32_field :: "nat \<Rightarrow> 32 word option" where
  "u32_field n = (if int n < 2 ^ 32 then Some (of_nat n) else None)"

definition u16_field :: "nat \<Rightarrow> 16 word option" where
  "u16_field n = (if int n < 2 ^ 16 then Some (of_nat n) else None)"

section \<open>CRC-32\<close>

definition crc_bit :: "32 word \<Rightarrow> 32 word" where
  "crc_bit crc = (if crc AND 1 \<noteq> 0 then 0xEDB88320 XOR drop_bit 1 crc else drop_bit 1 crc)"

definition crc_byte :: "32 word \<Rightarrow> byte \<Rightarrow> 32 word" where
  "crc_byte crc b = (crc_bit ^^ 8) (crc XOR ucast b)"

definition crc32 :: "bytes \<Rightarrow> 32 word" where
  "crc32 buf = foldl crc_byte 0xFFFFFFFF buf XOR 0xFFFFFFFF"

section \<open>Records of the archive\<close>

definition DOS_TIME :: "16 word" where "DOS_TIME = 0x0000"
definition DOS_DATE :: "16 word" where "DOS_DATE = 0x0021"
definition VERSION_NEEDED :: "16 word" where "VERSION_NEEDED = 20"
definition VERSION_MADE_BY :: "16 word" where "VERSION_MADE_BY = 0x0314"

definition write_local_header :: "bytes \<Rightarrow> entry \<Rightarrow> bytes option" where
  "write_local_header out e = do {
     let name = str_bytes (e_path e);
     let crc = crc32 (e_content e);
     size \<leftarrow> u32_field (length (e_content e));
     let out = w32 out 0x04034b50;
     let out = w16 out VERSION_NEEDED;
     let out = w16 out 0;
     let out = w16 out 0;
     let out = w16 out DOS_TIME;
     let out = w16 out DOS_DATE;
     let out = w32 out crc;
     let out = w32 out size;
     let out = w32 out size;
     n \<leftarrow> u16_field (length name);
     let out = w16 out n;
     let out = w16 out 0;
     let out = out @ name;
     Some (out @ e_content e) }"

definition write_central_header :: "bytes \<Rightarrow> entry \<Rightarrow> 32 word \<Rightarrow> bytes option" where
  "write_central_header out e local_offset = do {
     let name = str_bytes (e_path e);
     let crc = crc32 (e_content e);
     size \<leftarrow> u32_field (length (e_content e));
     let out = w32 out 0x02014b50;
     let out = w16 out VERSION_MADE_BY;
     let out = w16 out VERSION_NEEDED;
     let out = w16 out 0;
     let out = w16 out 0;
     let out = w16 out DOS_TIME;
     let out = w16 out DOS_DATE;
     let out = w32 out crc;
     let out = w32 out size;
     let out = w32 out size;
     n \<leftarrow> u16_field (length name);
     let out = w16 out n;
     let out = w16 out 0;
     let out = w16 out 0;
     let out = w16 out 0;
     let out = w16 out 0;
     let out = w32 out (push_bit 16 (unix_mode (e_mode e)));
     let out = w32 out local_offset;
     Some (out @ name) }"

definition write_eocd :: "bytes \<Rightarrow> 16 word \<Rightarrow> 32 word \<Rightarrow> 32 word \<Rightarrow> bytes" where
  "write_eocd out cnt cd_size cd_offset =
     (let out = w32 out 0x06054b50;
          out = w16 out 0;
          out = w16 out 0;
          out = w16 out cnt;
          out = w16 out cnt;
          out = w32 out cd_size;
          out = w32 out cd_offset
      in w16 out 0)"

fun write_bodies :: "entry list \<Rightarrow> bytes \<Rightarrow> (bytes \<times> 32 word list) option" where
  "write_bodies [] body = Some (body, [])"
| "write_bodies (e # es) body = do {
     off \<leftarrow> u32_field (length body);
     body \<leftarrow> write_local_header body e;
     (body, offs) \<leftarrow> write_bodies es body;
     Some (body, off # offs) }"

fun write_centrals :: "(entry \<times> 32 word) list \<Rightarrow> bytes \<Rightarrow> bytes option" where
  "write_centrals [] central = Some central"
| "write_centrals ((e, off) # eos) central = do {
     central \<leftarrow> write_central_header central e off;
     write_centrals eos central }"

definition into_zip :: "entry list \<Rightarrow> bytes option" where
  "into_zip entries = do {
     let entries = sort_key (\<lambda>e. e_path e) entries;
     (body, offsets) \<leftarrow> write_bodies entries [];
     central \<leftarrow> write_centrals (zip entries offsets) [];
     cd_offset \<leftarrow> u32_field (length body);
     cd_size \<leftarrow> u32_field (length central);
     cnt \<leftarrow> u16_field (length entries);
     Some (write_eocd (body @ central) cnt cd_size cd_offset) }"

section \<open>Closed forms of the writers\<close>

definition le16 :: "16 word \<Rightarrow> bytes" where "le16 v = w16 [] v"
definition le32 :: "32 word \<Rightarrow> bytes" where "le32 v = w32 [] v"

lemma w16_le [bytes_simps]: "w16 out v = out @ le16 v"
  by (simp add: w16_def le16_def)

lemma w32_le [bytes_simps]: "w32 out v = out @ le32 v"
  by (simp add: w32_def le32_def)

lemma length_le [simp]: "length (le16 v) = 2" "length (le32 w) = 4"
  by (simp_all add: le16_def le32_def w16_def w32_def)

definition entry_fits :: "entry \<Rightarrow> bool" where
  "entry_fits e \<longleftrightarrow> int (length (e_content e)) < 2 ^ 32 \<and> int (length (e_path e)) < 2 ^ 16"

definition local_record :: "entry \<Rightarrow> bytes" where
  "local_record e = le32 0x04034b50 @ le16 VERSION_NEEDED @ le16 0 @ le16 0 @ le16 DOS_TIME
     @ le16 DOS_DATE @ le32 (crc32 (e_content e)) @ le32 (of_nat (length (e_content e)))
     @ le32 (of_nat (length (e_content e))) @ le16 (of_nat (length (e_path e))) @ le16 0
     @ str_bytes (e_path e) @ e_content e"

definition central_record :: "entry \<Rightarrow> 32 word \<Rightarrow> bytes" where
  "central_record e off = le32 0x02014b50 @ le16 VERSION_MADE_BY @ le16 VERSION_NEEDED @ le16 0
     @ le16 0 @ le16 DOS_TIME @ le16 DOS_DATE @ le32 (crc32 (e_content e))
     @ le32 (of_nat (length (e_content e))) @ le32 (of_nat (length (e_content e)))
     @ le16 (of_nat (length (e_path e))) @ le16 0 @ le16 0 @ le16 0 @ le16 0
     @ le32 (push_bit 16 (unix_mode (e_mode e))) @ le32 off @ str_bytes (e_path e)"

lemma length_local_record [simp]:
  "length (local_record e) = 30 + length (e_path e) + length (e_content e)"
  by (simp add: local_record_def)

lemma length_central_record [simp]: "length (central_record e off) = 46 + length (e_path e)"
  by (simp add: central_record_def)

lemma write_local_header_eq:
  "write_local_header out e = (if entry_fits e then Some (out @ local_record e) else None)"
  by (simp add: write_local_header_def u32_field_def u16_field_def entry_fits_def local_record_def
      bytes_simps Let_def)

lemma write_central_header_eq:
  "write_central_header out e off =
     (if entry_fits e then Some (out @ central_record e off) else None)"
  by (simp add: write_central_header_def u32_field_def u16_field_def entry_fits_def
      central_record_def bytes_simps Let_def)

fun body_offsets :: "nat \<Rightarrow> entry list \<Rightarrow> nat list" where
  "body_offsets n [] = []"
| "body_offsets n (e # es) = n # body_offsets (n + length (local_record e)) es"

lemma length_body_offsets [simp]: "length (body_offsets n es) = length es"
  by (induction es arbitrary: n) auto

lemma write_bodies_eq:
  "write_bodies es body =
     (if (\<forall>e\<in>set es. entry_fits e) \<and> (\<forall>o'\<in>set (body_offsets (length body) es). int o' < 2 ^ 32)
      then Some (body @ concat (map local_record es), map of_nat (body_offsets (length body) es))
      else None)"
  by (induction es arbitrary: body) (auto simp: write_local_header_eq u32_field_def Let_def ac_simps)

lemma write_centrals_eq:
  "write_centrals eos central =
     (if (\<forall>(e, off)\<in>set eos. entry_fits e)
      then Some (central @ concat (map (\<lambda>(e, off). central_record e off) eos)) else None)"
  by (induction eos arbitrary: central) (auto simp: write_central_header_eq)

definition archive_body :: "entry list \<Rightarrow> bytes" where
  "archive_body es = concat (map local_record es)"

definition archive_central :: "entry list \<Rightarrow> bytes" where
  "archive_central es =
     concat (map (\<lambda>(e, off). central_record e (of_nat off)) (zip es (body_offsets 0 es)))"

lemma body_offsets_le:
  "o' \<in> set (body_offsets n es) \<Longrightarrow> o' \<le> n + length (archive_body es)"
  by (induction es arbitrary: n) (force simp: archive_body_def)+

definition archive_fits :: "entry list \<Rightarrow> bool" where
  "archive_fits es \<longleftrightarrow> (\<forall>e\<in>set es. entry_fits e) \<and> int (length es) < 2 ^ 16
     \<and> int (length (archive_body es)) < 2 ^ 32 \<and> int (length (archive_central es)) < 2 ^ 32"

lemma into_zip_eq:
  "into_zip es = (let s = sort_key e_path es in
     if archive_fits s
     then Some (write_eocd (archive_body s @ archive_central s) (of_nat (length s))
                  (of_nat (length (archive_central s))) (of_nat (length (archive_body s))))
     else None)"
proof -
  let ?s = "sort_key e_path es"
  have offs: "\<forall>o'\<in>set (body_offsets 0 ?s). int o' < 2 ^ 32" if "int (length (archive_body ?s)) < 2 ^ 32"
    using body_offsets_le[of _ 0 ?s] that by (metis add_0 le_less_trans of_nat_mono)
  have cent: "write_centrals (zip ?s (map of_nat (body_offsets 0 ?s))) [] =
    Some (archive_central ?s)" if "\<forall>e\<in>set ?s. entry_fits e"
    using that by (auto simp: write_centrals_eq archive_central_def zip_map2 o_def
      split_def dest: set_zip_leftD)
  show ?thesis
  proof (cases "archive_fits ?s")
    case True
    then show ?thesis using offs cent
      by (simp add: into_zip_def Let_def write_bodies_eq archive_fits_def u32_field_def u16_field_def
          flip: archive_body_def)
  next
    case False
    then show ?thesis using cent
      by (auto simp: into_zip_def Let_def write_bodies_eq archive_fits_def u32_field_def
          u16_field_def simp flip: archive_body_def split: if_splits bind_splits)
  qed
qed
section \<open>Specification: a reader of the format\<close>

fun get16 :: "bytes \<Rightarrow> (16 word \<times> bytes) option" where
  "get16 (a # b # r) = Some (ucast a OR push_bit 8 (ucast b), r)"
| "get16 _ = None"

fun get32 :: "bytes \<Rightarrow> (32 word \<times> bytes) option" where
  "get32 (a # b # c # d # r) =
     Some (ucast a OR push_bit 8 (ucast b) OR push_bit 16 (ucast c) OR push_bit 24 (ucast d), r)"
| "get32 _ = None"

lemma le16_app: "le16 v @ r = ucast v # ucast (drop_bit 8 v) # r"
  by (simp add: le16_def w16_def)

lemma le32_app:
  "le32 v @ r =
     ucast v # ucast (drop_bit 8 v) # ucast (drop_bit 16 v) # ucast (drop_bit 24 v) # r"
  by (simp add: le32_def w32_def)

lemma get16_le [simp]: "get16 (le16 v @ r) = Some (v, r)"
  unfolding le16_app get16.simps
  by (simp, rule bit_word_eqI) (auto simp: bit_simps not_le)

lemma get32_le [simp]: "get32 (le32 v @ r) = Some (v, r)"
proof -
  have "bit ((ucast (ucast v :: byte) :: 32 word) OR push_bit 8 (ucast (ucast (drop_bit 8 v) :: byte))
      OR push_bit 16 (ucast (ucast (drop_bit 16 v) :: byte))
      OR push_bit 24 (ucast (ucast (drop_bit 24 v) :: byte))) n = bit v n" if "n < 32" for n
    using that by (cases "n < 16"; cases "n < 24") (auto simp: bit_simps not_le)
  then show ?thesis
    unfolding le32_app get32.simps by (simp, intro bit_word_eqI) simp
qed

lemmas get_le_end [simp] = get16_le[where r = "[]", simplified] get32_le[where r = "[]", simplified]

definition expect16 :: "16 word \<Rightarrow> bytes \<Rightarrow> bytes option" where
  "expect16 v bs = do { (x, r) \<leftarrow> get16 bs; if x = v then Some r else None }"

definition expect32 :: "32 word \<Rightarrow> bytes \<Rightarrow> bytes option" where
  "expect32 v bs = do { (x, r) \<leftarrow> get32 bs; if x = v then Some r else None }"

definition get_bytes :: "nat \<Rightarrow> bytes \<Rightarrow> (bytes \<times> bytes) option" where
  "get_bytes n bs = (if n \<le> length bs then Some (take n bs, drop n bs) else None)"

lemma expect_le [simp]: "expect16 v (le16 v @ r) = Some r" "expect32 w (le32 w @ r) = Some r"
  by (simp_all add: expect16_def expect32_def)

lemma get_bytes_app [simp]: "n = length a \<Longrightarrow> get_bytes n (a @ r) = Some (a, r)"
  by (simp add: get_bytes_def)

text \<open>The member at a local offset: its name and its data, once the stored checksum matches.\<close>

definition read_local :: "bytes \<Rightarrow> (bytes \<times> bytes) option" where
  "read_local bs = do {
     bs \<leftarrow> expect32 0x04034b50 bs;
     (_, bs) \<leftarrow> get16 bs; (_, bs) \<leftarrow> get16 bs;
     bs \<leftarrow> expect16 0 bs;
     (_, bs) \<leftarrow> get16 bs; (_, bs) \<leftarrow> get16 bs;
     (crc, bs) \<leftarrow> get32 bs;
     (csize, bs) \<leftarrow> get32 bs; (usize, bs) \<leftarrow> get32 bs;
     (nlen, bs) \<leftarrow> get16 bs; (xlen, bs) \<leftarrow> get16 bs;
     (name, bs) \<leftarrow> get_bytes (unat nlen) bs;
     (_, bs) \<leftarrow> get_bytes (unat xlen) bs;
     (data, _) \<leftarrow> get_bytes (unat csize) bs;
     if crc32 data = crc \<and> usize = csize then Some (name, data) else None }"

text \<open>One central record: name, Unix mode, local offset, and the bytes after the record.\<close>

definition read_central :: "bytes \<Rightarrow> ((bytes \<times> 32 word \<times> 32 word) \<times> bytes) option" where
  "read_central bs = do {
     bs \<leftarrow> expect32 0x02014b50 bs;
     (made, bs) \<leftarrow> get16 bs; (_, bs) \<leftarrow> get16 bs; (_, bs) \<leftarrow> get16 bs;
     bs \<leftarrow> expect16 0 bs;
     (_, bs) \<leftarrow> get16 bs; (_, bs) \<leftarrow> get16 bs;
     (_, bs) \<leftarrow> get32 bs; (_, bs) \<leftarrow> get32 bs; (_, bs) \<leftarrow> get32 bs;
     (nlen, bs) \<leftarrow> get16 bs; (xlen, bs) \<leftarrow> get16 bs; (clen, bs) \<leftarrow> get16 bs;
     (_, bs) \<leftarrow> get16 bs; (_, bs) \<leftarrow> get16 bs;
     (ext, bs) \<leftarrow> get32 bs; (off, bs) \<leftarrow> get32 bs;
     (name, bs) \<leftarrow> get_bytes (unat nlen) bs;
     (_, bs) \<leftarrow> get_bytes (unat xlen + unat clen) bs;
     Some ((name, drop_bit 16 ext, off), bs) }"

fun read_members :: "bytes \<Rightarrow> nat \<Rightarrow> bytes \<Rightarrow> (bytes \<times> 32 word \<times> bytes) list option" where
  "read_members z 0 bs = Some []"
| "read_members z (Suc n) bs = do {
     ((name, mode, off), bs) \<leftarrow> read_central bs;
     (name', data) \<leftarrow> read_local (drop (unat off) z);
     rest \<leftarrow> read_members z n bs;
     if name' = name then Some ((name, mode, data) # rest) else None }"

definition unzip :: "bytes \<Rightarrow> (bytes \<times> 32 word \<times> bytes) list option" where
  "unzip z = (if length z < 22 then None else do {
     bs \<leftarrow> expect32 0x06054b50 (drop (length z - 22) z);
     bs \<leftarrow> expect16 0 bs; bs \<leftarrow> expect16 0 bs;
     (here, bs) \<leftarrow> get16 bs; (total, bs) \<leftarrow> get16 bs;
     (cd_size, bs) \<leftarrow> get32 bs; (cd_off, bs) \<leftarrow> get32 bs;
     clen \<leftarrow> get16 bs;
     if here = total \<and> unat cd_off + unat cd_size + 22 = length z
     then read_members z (unat total) (drop (unat cd_off) z) else None })"

lemma mode_shift: "drop_bit 16 (push_bit 16 (unix_mode m)) = unix_mode m"
  by (cases m) simp_all

lemma unat_fields [simp]:
  "int n < 4294967296 \<Longrightarrow> unat (of_nat n :: 32 word) = n"
  "int n < 65536 \<Longrightarrow> unat (of_nat n :: 16 word) = n"
  by (simp_all add: unat_of_nat take_bit_eq_mod)

lemma read_local_record:
  assumes "entry_fits e"
  shows "read_local (local_record e @ r) = Some (str_bytes (e_path e), e_content e)"
  using assms by (simp add: read_local_def local_record_def entry_fits_def get_bytes_def[of 0])

lemma read_central_record:
  assumes "entry_fits e"
  shows "read_central (central_record e off @ r) =
    Some ((str_bytes (e_path e), unix_mode (e_mode e), off), r)"
  using assms
  by (simp add: read_central_def central_record_def entry_fits_def get_bytes_def[of 0] mode_shift)

lemma read_members_central:
  assumes "\<forall>e\<in>set es. entry_fits e"
    and "int (length pre + length (archive_body es)) < 2 ^ 32"
    and "z = pre @ archive_body es @ post"
  shows "read_members z (length es)
     (concat (map (\<lambda>(e, off). central_record e (of_nat off))
        (zip es (body_offsets (length pre) es))) @ r) =
     Some (map (\<lambda>e. (str_bytes (e_path e), unix_mode (e_mode e), e_content e)) es)"
  using assms
proof (induction es arbitrary: pre)
  case (Cons e es)
  have "read_members z (length es)
     (concat (map (\<lambda>(e, off). central_record e (of_nat off))
        (zip es (body_offsets (length (pre @ local_record e)) es))) @ r) =
     Some (map (\<lambda>e. (str_bytes (e_path e), unix_mode (e_mode e), e_content e)) es)"
    using Cons.prems by (intro Cons.IH) (auto simp: archive_body_def)
  moreover have "unat (of_nat (length pre) :: 32 word) = length pre"
    using Cons.prems(2) by simp
  moreover have "drop (length pre) z = local_record e @ (archive_body es @ post)"
    using Cons.prems(3) by (simp add: archive_body_def)
  ultimately show ?case
    using Cons.prems(1) by (simp add: read_central_record read_local_record)
qed simp

lemma write_eocd_eq:
  "write_eocd out cnt sz off = out @ le32 0x06054b50 @ le16 0 @ le16 0 @ le16 cnt @ le16 cnt
     @ le32 sz @ le32 off @ le16 0 @ []"
  by (simp add: write_eocd_def Let_def bytes_simps)

lemma total_local: "length (archive_body es) =
    sum_list (map (\<lambda>e. 30 + length (e_path e) + length (e_content e)) es)"
  by (induction es) (auto simp: archive_body_def)

lemma total_central_aux: "length (concat (map (\<lambda>(e, off). central_record e (of_nat off))
    (zip es (body_offsets n es)))) = sum_list (map (\<lambda>e. 46 + length (e_path e)) es)"
  by (induction es arbitrary: n) auto

lemma sum_list_sort_key:
  "sum_list (map (f :: 'a \<Rightarrow> nat) (sort_key k es)) = sum_list (map f es)"
  by (metis mset_map mset_sort sum_mset_sum_list)

section \<open>Properties\<close>

text \<open>C40: reading back what \<open>into_zip\<close> wrote gives exactly the entries added, sorted by path
  bytes, each with its name, Unix mode and content, and every stored checksum, size and offset
  matches.\<close>

theorem unzip_into_zip:
  assumes "into_zip es = Some z"
  shows "unzip z = Some (map (\<lambda>e. (str_bytes (e_path e), unix_mode (e_mode e), e_content e))
    (sort_key e_path es))"
proof -
  let ?s = "sort_key e_path es"
  have fits: "archive_fits ?s" and z: "z = write_eocd (archive_body ?s @ archive_central ?s)
      (of_nat (length ?s)) (of_nat (length (archive_central ?s))) (of_nat (length (archive_body ?s)))"
    using assms by (auto simp: into_zip_eq Let_def split: if_splits)
  have "read_members z (length ?s) (archive_central ?s @ r) =
     Some (map (\<lambda>e. (str_bytes (e_path e), unix_mode (e_mode e), e_content e)) ?s)" for r
    unfolding archive_central_def using fits
    by (intro read_members_central[where pre = "[]", simplified])
      (auto simp: archive_fits_def z write_eocd_eq)
  then show ?thesis
    using fits by (simp add: unzip_def z write_eocd_eq archive_fits_def)
qed

lemma unzip_into_zip_witness:
  "\<exists>z. into_zip [entry_new ''./b'' File [1, 2], entry_new ''/a'' Symlink []] = Some z
     \<and> unzip z = Some [(str_bytes ''a'', 0xA1FF, []), (str_bytes ''b'', 0x81A4, [1, 2])]"
proof -
  let ?es = "[entry_new ''./b'' File [1, 2], entry_new ''/a'' Symlink []]"
  obtain z where "into_zip ?es = Some z"
    by (simp add: into_zip_eq archive_fits_def entry_fits_def total_local total_central_aux
        archive_central_def sort_key_def entry_new_def Let_def)
  then show ?thesis
    using unzip_into_zip[of ?es z] by (simp add: entry_new_def sort_key_def Let_def)
qed

text \<open>The archive does not depend on the order in which the entries were added.\<close>

theorem into_zip_order_independent:
  assumes "mset es = mset es'" "distinct (map e_path es)"
  shows "into_zip es = into_zip es'"
proof -
  have "sort_key e_path es' = sort_key e_path es"
  proof (rule properties_for_sort_key)
    show "mset (sort_key e_path es) = mset es'" using assms(1) by simp
    have d': "distinct (map e_path es')"
      using assms by (metis mset_map mset_eq_imp_distinct_iff)
    have uniq: "filter (\<lambda>x. e_path k = e_path x) xs = [k]" if "distinct (map e_path xs)" "k \<in> set xs"
      for xs :: "entry list" and k
      using that by (induction xs) (auto simp: filter_empty_conv image_iff)
    show "filter (\<lambda>x. e_path k = e_path x) (sort_key e_path es) =
          filter (\<lambda>x. e_path k = e_path x) es'" if "k \<in> set (sort_key e_path es)" for k
      using uniq[of es' k] uniq[of "sort_key e_path es" k] that d' assms mset_eq_setD[OF assms(1)]
        by (auto simp: distinct_map)
  qed simp
  then show ?thesis by (simp add: into_zip_eq)
qed
lemma into_zip_order_independent_witness:
  "into_zip [entry_new ''b'' File [7], entry_new ''a'' Executable [9]] =
   into_zip [entry_new ''a'' Executable [9], entry_new ''b'' File [7]]"
  by (rule into_zip_order_independent) (simp_all add: entry_new_def)

text \<open>\<open>into_zip\<close> produces an archive exactly when every field fits: at most 65535 entries,
  names below 64 KiB, contents, local section and central directory below 4 GiB; otherwise
  it panics rather than truncating a field.\<close>

theorem into_zip_panics_iff:
  "(into_zip es = None) = (\<not> ((\<forall>e\<in>set es. int (length (e_content e)) < 2 ^ 32
       \<and> int (length (e_path e)) < 2 ^ 16) \<and> int (length es) < 2 ^ 16
     \<and> int (\<Sum>e\<leftarrow>es. 30 + length (e_path e) + length (e_content e)) < 2 ^ 32
     \<and> int (\<Sum>e\<leftarrow>es. 46 + length (e_path e)) < 2 ^ 32))"
  unfolding into_zip_eq Let_def archive_fits_def entry_fits_def archive_central_def
    total_local total_central_aux sum_list_sort_key by simp

lemma into_zip_panics_iff_witness:
  "into_zip [entry_new ''./a'' File [1, 2, 3]] \<noteq> None"
  unfolding into_zip_panics_iff by (simp add: entry_new_def Let_def)

end
