(* ===== verification/Git.thy ===== *)
theory Git
  imports Archive Reads
begin

text \<open>
  Reading a tagged tree out of a git repository into a canonical archive (\<open>crates/sconce-git/src/lib.rs\<close>).
  What the code asks of \<open>gix\<close> (opening, resolving a name, peeling to a tree or commit, looking an entry up by
  path, the breadth-first record of a tree, object data, whether a path matches \<open>export-ignore\<close>) is the record
  \<open>git_repo\<close>, a parameter. Paths are byte strings, checked for UTF-8 where the code does.
\<close>

section \<open>The object database\<close>

type_synonym oid = bytes

datatype entry_kind = KBlob | KBlobExecutable | KLink | KTree | KCommit

record tree_record =
  tr_path :: string
  tr_kind :: entry_kind
  tr_oid :: oid

record git_repo =
  gr_opens :: bool
  gr_tags :: "string option list option"
  gr_rev :: "string \<Rightarrow> oid option"
  gr_tree :: "oid \<Rightarrow> oid option"
  gr_commit_time :: "oid \<Rightarrow> int option"
  gr_entry :: "oid \<Rightarrow> string \<Rightarrow> oid option option"
  gr_records :: "oid \<Rightarrow> tree_record list option"
  gr_object :: "oid \<Rightarrow> bytes option"
  gr_export_ignore :: "oid \<Rightarrow> string \<Rightarrow> entry_kind \<Rightarrow> bool option"

datatype git_error = GitOpen | RevParse string | PeelToTree string | Traverse | Attributes | Refs
  | ReadFile string string | FindObject oid | CommitTime string | NonUtf8Path string | SubtreeNotFound string string

definition utf8_path :: "string \<Rightarrow> bool" where
  "utf8_path p = valid_utf8 (map of_char p)"

section \<open>Reading\<close>

text \<open>The checks every reader starts with: open the repository, resolve the name, peel it to a tree.\<close>

definition resolve :: "git_repo \<Rightarrow> string \<Rightarrow> (git_error, oid) result" where
  "resolve g refspec = (if gr_opens g then ok_or (RevParse refspec) (gr_rev g refspec) else Inl GitOpen)"

definition resolve_tree :: "git_repo \<Rightarrow> string \<Rightarrow> (git_error, oid) result" where
  "resolve_tree g refspec = and_then (resolve g refspec) (\<lambda>i. ok_or (PeelToTree refspec) (gr_tree g i))"

definition has_ignored_ancestor :: "string \<Rightarrow> string list \<Rightarrow> bool" where
  "has_ignored_ancestor path ignored = (if ignored = [] then False
     else list_ex (\<lambda>i. path ! i = CHR ''/'' \<and> take i path \<in> set ignored) [0..<length path])"

fun file_mode :: "entry_kind \<Rightarrow> arch_mode option" where
  "file_mode KBlob = Some File"
| "file_mode KBlobExecutable = Some Executable"
| "file_mode KLink = Some Symlink"
| "file_mode KTree = None"
| "file_mode KCommit = None"

fun collect_entries :: "git_repo \<Rightarrow> oid \<Rightarrow> string list \<Rightarrow> tree_record list \<Rightarrow> (git_error, entry list) result" where
  "collect_entries g tree ignored_dirs [] = Inr []"
| "collect_entries g tree ignored_dirs (r # rs) =
     and_then (ok_or Attributes (gr_export_ignore g tree (tr_path r) (tr_kind r))) (\<lambda>ignored.
       case file_mode (tr_kind r) of
         None \<Rightarrow> collect_entries g tree (if tr_kind r = KTree \<and> ignored then tr_path r # ignored_dirs else ignored_dirs) rs
       | Some mode \<Rightarrow>
           if ignored \<or> has_ignored_ancestor (tr_path r) ignored_dirs then collect_entries g tree ignored_dirs rs
           else if \<not> utf8_path (tr_path r) then Inl (NonUtf8Path (tr_path r))
           else and_then (ok_or (FindObject (tr_oid r)) (gr_object g (tr_oid r))) (\<lambda>data.
             and_then (collect_entries g tree ignored_dirs rs) (\<lambda>es. Inr (entry_new (tr_path r) mode data # es))))"

definition subtree_of :: "git_repo \<Rightarrow> string \<Rightarrow> oid \<Rightarrow> string \<Rightarrow> (git_error, oid) result" where
  "subtree_of g refspec root subpath =
     (if subpath = [] then Inr root
      else and_then (ok_or (PeelToTree refspec) (gr_entry g root subpath)) (\<lambda>e.
        and_then (ok_or (SubtreeNotFound refspec subpath) e) (\<lambda>i. ok_or (PeelToTree refspec) (gr_tree g i))))"

definition archive_subtree :: "git_repo \<Rightarrow> string \<Rightarrow> string \<Rightarrow> (git_error, entry list) result" where
  "archive_subtree g refspec subpath = and_then (resolve_tree g refspec) (\<lambda>root.
     let subpath = trim_end_char (CHR ''/'') (trim_start_char (CHR ''/'') subpath)
     in and_then (subtree_of g refspec root subpath) (\<lambda>tree.
       and_then (ok_or Traverse (gr_records g tree)) (\<lambda>rs. collect_entries g tree [] rs)))"

definition archive_ref :: "git_repo \<Rightarrow> string \<Rightarrow> (git_error, entry list) result" where
  "archive_ref g refspec = archive_subtree g refspec []"

fun tag_names :: "string option list \<Rightarrow> (git_error, string list) result" where
  "tag_names [] = Inr []"
| "tag_names (t # ts) = and_then (ok_or Refs t) (\<lambda>name.
     if \<not> utf8_path name then Inl (NonUtf8Path name) else and_then (tag_names ts) (\<lambda>ns. Inr (name # ns)))"

definition git_tags :: "git_repo \<Rightarrow> (git_error, string list) result" where
  "git_tags g = (if gr_opens g then and_then (ok_or Refs (gr_tags g)) tag_names else Inl GitOpen)"

definition commit_time :: "git_repo \<Rightarrow> string \<Rightarrow> (git_error, int) result" where
  "commit_time g refspec = and_then (resolve g refspec) (\<lambda>i. ok_or (CommitTime refspec) (gr_commit_time g i))"

definition read_file :: "git_repo \<Rightarrow> string \<Rightarrow> string \<Rightarrow> (git_error, bytes option) result" where
  "read_file g refspec path = and_then (resolve_tree g refspec) (\<lambda>tree.
     and_then (ok_or (ReadFile refspec path) (gr_entry g tree path)) (\<lambda>e. case e of
       None \<Rightarrow> Inr None
     | Some i \<Rightarrow> and_then (ok_or (ReadFile refspec path) (gr_object g i)) (\<lambda>data. Inr (Some data))))"

section \<open>What an archive holds\<close>

definition beneath :: "string \<Rightarrow> string \<Rightarrow> bool" where
  "beneath dir path \<longleftrightarrow> starts_with (dir @ ''/'') path"

lemma has_ignored_ancestor_iff: "has_ignored_ancestor path dirs \<longleftrightarrow> (\<exists>d\<in>set dirs. beneath d path)"
proof
  assume "has_ignored_ancestor path dirs"
  then obtain i where i: "i < length path" "path ! i = CHR ''/''" "take i path \<in> set dirs"
    by (auto simp: has_ignored_ancestor_def list_ex_iff split: if_splits)
  moreover have "take (Suc i) path = take i path @ ''/''" using i by (simp add: take_Suc_conv_app_nth)
  ultimately show "\<exists>d\<in>set dirs. beneath d path"
    by (intro bexI[of _ "take i path"]) (auto simp: beneath_def starts_with_def)
next
  assume "\<exists>d\<in>set dirs. beneath d path"
  then obtain d x where d: "d \<in> set dirs" "path = d @ CHR ''/'' # x" by (auto simp: beneath_def starts_with_iff)
  then have "length d < length path" "path ! length d = CHR ''/''" "take (length d) path = d" by simp_all
  with d show "has_ignored_ancestor path dirs" by (auto simp: has_ignored_ancestor_def list_ex_iff intro!: bexI[of _ "length d"])
qed

text \<open>The rule \<open>git archive\<close> follows: a file is exported unless it or one of its directories is export-ignored.\<close>

definition ignored_at :: "git_repo \<Rightarrow> oid \<Rightarrow> tree_record \<Rightarrow> bool" where
  "ignored_at g tree r \<longleftrightarrow> gr_export_ignore g tree (tr_path r) (tr_kind r) = Some True"

definition exported :: "git_repo \<Rightarrow> oid \<Rightarrow> tree_record list \<Rightarrow> tree_record \<Rightarrow> bool" where
  "exported g tree rs r \<longleftrightarrow> file_mode (tr_kind r) \<noteq> None \<and> \<not> ignored_at g tree r
     \<and> \<not> list_ex (\<lambda>d. tr_kind d = KTree \<and> ignored_at g tree d \<and> beneath (tr_path d) (tr_path r)) rs"

definition archived_entry :: "git_repo \<Rightarrow> tree_record \<Rightarrow> entry" where
  "archived_entry g r = entry_new (tr_path r) (the (file_mode (tr_kind r))) (the (gr_object g (tr_oid r)))"

text \<open>\<open>gix\<close>'s breadth-first order: a directory comes before everything beneath it.\<close>

fun dirs_first :: "tree_record list \<Rightarrow> bool" where
  "dirs_first [] = True"
| "dirs_first (r # rs) \<longleftrightarrow> \<not> list_ex (\<lambda>d. tr_kind d = KTree \<and> beneath (tr_path d) (tr_path r)) (r # rs) \<and> dirs_first rs"

definition ignored_dirs_of :: "git_repo \<Rightarrow> oid \<Rightarrow> tree_record list \<Rightarrow> string set" where
  "ignored_dirs_of g tree rs = {tr_path d |d. d \<in> set rs \<and> tr_kind d = KTree \<and> ignored_at g tree d}"

lemma collect_entries_exact:
  "collect_entries g tree dirs rs = Inr es \<Longrightarrow> dirs_first rs \<Longrightarrow> set dirs = ignored_dirs_of g tree pre \<Longrightarrow>
   es = map (archived_entry g) (filter (exported g tree (pre @ rs)) rs)
   \<and> (\<forall>r\<in>set rs. exported g tree (pre @ rs) r \<longrightarrow> utf8_path (tr_path r) \<and> gr_object g (tr_oid r) \<noteq> None)"
proof (induction rs arbitrary: dirs pre es)
  case (Cons r rs)
  obtain ign where ign: "gr_export_ignore g tree (tr_path r) (tr_kind r) = Some ign"
    using Cons.prems(1) by (auto simp: and_then_Inr_iff)
  have later: "\<not> (\<exists>d\<in>set (r # rs). tr_kind d = KTree \<and> beneath (tr_path d) (tr_path r))"
    using Cons.prems(2) by (auto simp: list_ex_iff)
  have anc: "has_ignored_ancestor (tr_path r) dirs \<longleftrightarrow>
      list_ex (\<lambda>d. tr_kind d = KTree \<and> ignored_at g tree d \<and> beneath (tr_path d) (tr_path r)) (pre @ r # rs)"
    using later unfolding has_ignored_ancestor_iff Cons.prems(3) ignored_dirs_of_def by (auto simp: list_ex_iff)
  have ex: "exported g tree (pre @ r # rs) r \<longleftrightarrow> file_mode (tr_kind r) \<noteq> None \<and> \<not> ign \<and> \<not> has_ignored_ancestor (tr_path r) dirs"
    unfolding exported_def anc using ign by (auto simp: ignored_at_def)
  have step: "es' = map (archived_entry g) (filter (exported g tree (pre @ r # rs)) rs)
      \<and> (\<forall>q\<in>set rs. exported g tree (pre @ r # rs) q \<longrightarrow> utf8_path (tr_path q) \<and> gr_object g (tr_oid q) \<noteq> None)"
    if "collect_entries g tree dirs' rs = Inr es'" "set dirs' = ignored_dirs_of g tree (pre @ [r])" for dirs' es'
    using Cons.IH[OF that(1) _ that(2)] Cons.prems(2) by simp
  show ?case
  proof (cases "file_mode (tr_kind r)")
    case None
    let ?d = "if tr_kind r = KTree \<and> ign then tr_path r # dirs else dirs"
    have "collect_entries g tree ?d rs = Inr es" using Cons.prems(1) ign None by simp
    moreover have "set ?d = ignored_dirs_of g tree (pre @ [r])"
      using Cons.prems(3) ign by (auto simp: ignored_dirs_of_def ignored_at_def)
    ultimately show ?thesis using step[of ?d es] ex None by simp
  next
    case (Some m)
    then have d: "set dirs = ignored_dirs_of g tree (pre @ [r])"
      using Cons.prems(3) by (auto simp: ignored_dirs_of_def)
    show ?thesis
    proof (cases "ign \<or> has_ignored_ancestor (tr_path r) dirs")
      case True
      then have "collect_entries g tree dirs rs = Inr es" using Cons.prems(1) ign Some by simp
      then show ?thesis using step[of dirs es] d ex True by auto
    next
      case False
      then obtain data es' where "utf8_path (tr_path r)" "gr_object g (tr_oid r) = Some data"
          "collect_entries g tree dirs rs = Inr es'" "es = entry_new (tr_path r) m data # es'"
        using Cons.prems(1) ign Some by (auto simp: and_then_Inr_iff split: if_splits)
      then show ?thesis using step[of dirs es'] d ex False Some by (auto simp: archived_entry_def)
    qed
  qed
qed simp

text \<open>C31: An archive of a name and a subpath holds exactly the files \<open>git archive\<close> would export from that tree: the name is
  resolved and peeled to its tree, a subpath (without slashes at its ends) leads to the subtree at that path, and the archive
  holds every file, executable and link of that tree with its bytes, under its path from there, except those that are
  export-ignored themselves or lie beneath an export-ignored directory; provided the record of a tree lists directories
  before their contents.\<close>

theorem archive_exact:
  assumes "archive_subtree g refspec subpath = Inr es"
    and breadth_first: "\<forall>tree rs. gr_records g tree = Some rs \<longrightarrow> dirs_first rs"
  shows "\<exists>i root tree rs. gr_rev g refspec = Some i \<and> gr_tree g i = Some root
    \<and> (case trim_end_char (CHR ''/'') (trim_start_char (CHR ''/'') subpath) of [] \<Rightarrow> tree = root
        | c # p \<Rightarrow> \<exists>e. gr_entry g root (c # p) = Some (Some e) \<and> gr_tree g e = Some tree)
    \<and> gr_records g tree = Some rs \<and> es = map (archived_entry g) (filter (exported g tree rs) rs)
    \<and> list_all (\<lambda>r. utf8_path (tr_path r) \<and> gr_object g (tr_oid r) \<noteq> None) (filter (exported g tree rs) rs)"
proof -
  let ?p = "trim_end_char (CHR ''/'') (trim_start_char (CHR ''/'') subpath)"
  obtain i root tree rs where t: "gr_rev g refspec = Some i" "gr_tree g i = Some root" "subtree_of g refspec root ?p = Inr tree"
      "gr_records g tree = Some rs" "collect_entries g tree [] rs = Inr es"
    using assms(1) by (auto simp: archive_subtree_def resolve_tree_def resolve_def Let_def and_then_Inr_iff split: if_splits)
  then have "dirs_first rs" using breadth_first by blast
  from collect_entries_exact[OF t(5) this, of "[]"]
  have es: "es = map (archived_entry g) (filter (exported g tree rs) rs)"
      "list_all (\<lambda>r. utf8_path (tr_path r) \<and> gr_object g (tr_oid r) \<noteq> None) (filter (exported g tree rs) rs)"
    by (auto simp: ignored_dirs_of_def list_all_iff)
  have "case ?p of [] \<Rightarrow> tree = root | c # p \<Rightarrow> \<exists>e. gr_entry g root (c # p) = Some (Some e) \<and> gr_tree g e = Some tree"
    using t(3) by (cases ?p) (auto simp: subtree_of_def and_then_Inr_iff)
  with t(1,2,4) es show ?thesis by blast
qed

definition demo_git :: git_repo where
  "demo_git = \<lparr>gr_opens = True, gr_tags = Some [Some ''v1.0.0'', Some ''nightly''], gr_rev = Some \<circ> str_bytes, gr_tree = Some,
     gr_commit_time = (\<lambda>_. Some 1000), gr_entry = (\<lambda>_ p. Some (if p = ''composer.json'' then Some (str_bytes p) else None)),
     gr_records = (\<lambda>_. Some [\<lparr>tr_path = ''composer.json'', tr_kind = KBlob, tr_oid = [1]\<rparr>, \<lparr>tr_path = ''tests'', tr_kind = KTree, tr_oid = [2]\<rparr>,
       \<lparr>tr_path = ''tests/a.php'', tr_kind = KBlob, tr_oid = [3]\<rparr>]),
     gr_object = Some, gr_export_ignore = (\<lambda>_ p _. Some (p = ''tests''))\<rparr>"

theorem archive_exact_witness:
  "archive_subtree demo_git ''v1.0.0'' [] = Inr [entry_new ''composer.json'' File [1]]
   \<and> (\<exists>rs. gr_records demo_git (str_bytes ''v1.0.0'') = Some rs
        \<and> [entry_new ''composer.json'' File [1]] = map (archived_entry demo_git) (filter (exported demo_git (str_bytes ''v1.0.0'') rs) rs))"
proof -
  have 1: "archive_subtree demo_git ''v1.0.0'' [] = Inr [entry_new ''composer.json'' File [1]]" by code_simp
  have "dirs_first [\<lparr>tr_path = ''composer.json'', tr_kind = KBlob, tr_oid = [1]\<rparr>, \<lparr>tr_path = ''tests'', tr_kind = KTree, tr_oid = [2]\<rparr>,
       \<lparr>tr_path = ''tests/a.php'', tr_kind = KBlob, tr_oid = [3]\<rparr>]" by code_simp
  then have 2: "\<forall>tree rs. gr_records demo_git tree = Some rs \<longrightarrow> dirs_first rs" by (simp add: demo_git_def)
  have p: "trim_end_char (CHR ''/'') (trim_start_char (CHR ''/'') []) = []" by code_simp
  have r: "gr_rev demo_git ''v1.0.0'' = Some (str_bytes ''v1.0.0'')" "gr_tree demo_git i = Some i" for i by (simp_all add: demo_git_def)
  obtain i root tree rs where a: "gr_rev demo_git ''v1.0.0'' = Some i" "gr_tree demo_git i = Some root"
      "case trim_end_char (CHR ''/'') (trim_start_char (CHR ''/'') []) of [] \<Rightarrow> tree = root
        | c # p \<Rightarrow> \<exists>e. gr_entry demo_git root (c # p) = Some (Some e) \<and> gr_tree demo_git e = Some tree"
      "gr_records demo_git tree = Some rs"
      "[entry_new ''composer.json'' File [1]] = map (archived_entry demo_git) (filter (exported demo_git tree rs) rs)"
    using archive_exact[OF 1 2] by (elim exE conjE) (rule that)
  have "i = str_bytes ''v1.0.0''" using a(1) unfolding r(1) option.inject by (rule sym)
  moreover have "root = i" using a(2) unfolding r(2) option.inject by (rule sym)
  moreover have "tree = root" using a(3) unfolding p by simp
  ultimately have t: "tree = str_bytes ''v1.0.0''" by (simp only:)
  show ?thesis by (rule conjI[OF 1], rule exI[of _ rs], rule conjI) (rule a(4,5)[unfolded t])+
qed

text \<open>Two walks of the same tree, in any breadth-first order, give the same archive bytes.\<close>

theorem archive_reproducible:
  assumes walks: "collect_entries g t [] rs = Inr es" "collect_entries g' t' [] rs' = Inr es'"
    and same: "mset rs' = mset rs" "gr_export_ignore g' t' = gr_export_ignore g t" "gr_object g' = gr_object g"
    and order: "dirs_first rs" "dirs_first rs'" and paths: "distinct (map e_path es)"
  shows "into_zip es' = into_zip es"
proof -
  have es: "es = map (archived_entry g) (filter (exported g t rs) rs)" "es' = map (archived_entry g') (filter (exported g' t' rs') rs')"
    using collect_entries_exact[OF walks(1) order(1), of "[]"] collect_entries_exact[OF walks(2) order(2), of "[]"]
    by (simp_all add: ignored_dirs_of_def)
  have "set rs' = set rs" using same(1) by (metis set_mset_mset)
  then have "exported g' t' rs' = exported g t rs" by (auto simp: exported_def ignored_at_def same(2) list_ex_iff fun_eq_iff)
  moreover have "archived_entry g' = archived_entry g" by (auto simp: archived_entry_def same(3))
  ultimately have "mset es' = mset es" unfolding es using same(1) by (simp add: mset_filter)
  from into_zip_order_independent[OF this[symmetric] paths] show ?thesis by simp
qed

theorem archive_reproducible_witness:
  "into_zip [entry_new ''b'' File [2], entry_new ''a'' File [1]] = into_zip [entry_new ''a'' File [1], entry_new ''b'' File [2]]"
proof -
  let ?a = "\<lparr>tr_path = ''a'', tr_kind = KBlob, tr_oid = [1]\<rparr>" and ?b = "\<lparr>tr_path = ''b'', tr_kind = KBlob, tr_oid = [2]\<rparr>"
  have w: "collect_entries demo_git [] [] [?a, ?b] = Inr [entry_new ''a'' File [1], entry_new ''b'' File [2]]"
    "collect_entries demo_git [] [] [?b, ?a] = Inr [entry_new ''b'' File [2], entry_new ''a'' File [1]]"
    "dirs_first [?a, ?b]" "dirs_first [?b, ?a]" "distinct (map e_path [entry_new ''a'' File [1], entry_new ''b'' File [2]])"
    by code_simp+
  show ?thesis by (rule archive_reproducible[OF w(1,2) _ refl refl w(3-5)]) simp
qed

text \<open>A backslash in a tracked file's name becomes a separator of the archive: a name that is one component in the
  repository can leave the archive's root.\<close>

lemma backslash_escapes:
  "map e_path [entry_new [CHR ''.'', CHR ''.'', CHR 0x5C, CHR ''x''] File []] = [''../x'']"
  by code_simp

end
