(* ===== verification/Effects.thy ===== *)
theory Effects
  imports Git
begin

text \<open>
  What the operations of \<open>Mirror\<close>, \<open>Publish\<close> and \<open>Api\<close> share: the program's state seen by an operation (catalog, outside world,
  fresh ids), sequencing with errors, frame relations between catalogs, and the small library functions they use.
\<close>

section \<open>What is outside the repository\<close>

datatype web_reply = Answer bytes | Truncated string | ErrorStatus nat | NoAnswer string

datatype clone_reply = Cloned git_repo | CloneFailed bytes | SpawnFailed string

record sem_version =
  sv_numeric :: bool
  sv_normalized :: string
  sv_stability :: string

record 'w libs =
  lib_web :: "'w \<Rightarrow> string \<Rightarrow> web_reply \<times> 'w"
  lib_clock :: "'w \<Rightarrow> time"
  lib_text :: "bytes \<Rightarrow> (string, string) result"
  lib_root :: "string \<Rightarrow> string list option option"
  lib_p2 :: "string \<Rightarrow> (string \<times> json list) list option"
  lib_order :: "string list \<Rightarrow> string list"
  lib_sha1 :: "bytes \<Rightarrow> bytes"
  lib_regex :: "string \<Rightarrow> (string, string \<Rightarrow> bool) result"
  lib_constraint :: "string \<Rightarrow> (string, sem_version \<Rightarrow> bool) result"
  lib_version :: "string \<Rightarrow> sem_version option"
  lib_json :: "bytes \<Rightarrow> json option"
  lib_unseal :: "bytes \<Rightarrow> bytes \<Rightarrow> bytes \<Rightarrow> bytes option"
  lib_clone :: "'w \<Rightarrow> string \<Rightarrow> string list \<Rightarrow> clone_reply \<times> 'w"

section \<open>Operations\<close>

record 'w machine =
  mc_db :: db
  mc_world :: "'w world"
  mc_next :: uuid

type_synonym ('e, 'w, 'a) eff = "'w machine \<Rightarrow> ('e, 'a) result \<times> 'w machine"

definition ret :: "'a \<Rightarrow> ('e, 'w, 'a) eff" where
  "ret x s = (Inr x, s)"

definition settled :: "('e, 'a) result \<Rightarrow> ('e, 'w, 'a) eff" where
  "settled r s = (r, s)"

definition bind_act :: "('e, 'w, 'a) eff \<Rightarrow> ('a \<Rightarrow> ('e, 'w, 'b) eff) \<Rightarrow> ('e, 'w, 'b) eff" where
  "bind_act m f s = (case m s of (Inl e, s) \<Rightarrow> (Inl e, s) | (Inr x, s) \<Rightarrow> f x s)"

definition read_db :: "(db \<Rightarrow> 'a) \<Rightarrow> ('e, 'w, 'a) eff" where
  "read_db f s = (Inr (f (mc_db s)), s)"

definition write_db :: "(db \<Rightarrow> db) \<Rightarrow> 'w machine \<Rightarrow> 'w machine" where
  "write_db f s = s\<lparr>mc_db := f (mc_db s)\<rparr>"

definition change_db :: "(db \<Rightarrow> db) \<Rightarrow> ('e, 'w, unit) eff" where
  "change_db f s = (Inr (), write_db f s)"

definition statement :: "('f \<Rightarrow> 'e) \<Rightarrow> (uuid \<Rightarrow> db \<Rightarrow> ('f, 'a \<times> db) result) \<Rightarrow> ('e, 'w, 'a) eff" where
  "statement err f s = (case f (mc_next s) (mc_db s) of
     Inl e \<Rightarrow> (Inl (err e), s)
   | Inr (x, db) \<Rightarrow> (Inr x, s\<lparr>mc_db := db, mc_next := Suc (mc_next s)\<rparr>))"

definition need :: "'e \<Rightarrow> 'a option \<Rightarrow> ('e, 'w, 'a) eff" where
  "need e x = settled (ok_or e x)"

text \<open>A credential check stamps the row it finds.\<close>

definition stamping :: "(db \<Rightarrow> 'a \<times> db) \<Rightarrow> ('e, 'w, 'a) eff" where
  "stamping f s = (case f (mc_db s) of (x, db) \<Rightarrow> (Inr x, s\<lparr>mc_db := db\<rparr>))"

definition now_of :: "'w libs \<Rightarrow> 'w machine \<Rightarrow> time" where
  "now_of L s = lib_clock L (w_net (mc_world s))"

definition on_web :: "('w \<Rightarrow> 'r \<times> 'w) \<Rightarrow> ('e, 'w, 'r) eff" where
  "on_web f s = (let (r, w) = on_net f (mc_world s) in (Inr r, s\<lparr>mc_world := w\<rparr>))"

definition on_world :: "('f \<Rightarrow> 'e) \<Rightarrow> ('w world \<Rightarrow> ('f, 'a) result \<times> 'w world) \<Rightarrow> ('e, 'w, 'a) eff" where
  "on_world err f s = (let (r, w) = f (mc_world s) in (map_err err r, s\<lparr>mc_world := w\<rparr>))"

lemma bind_act_Inr: "bind_act m f s = (Inr y, s') \<longleftrightarrow> (\<exists>x s1. m s = (Inr x, s1) \<and> f x s1 = (Inr y, s'))"
  unfolding bind_act_def by (auto split: prod.split sum.split)

lemma statement_Inr: "statement err f s = (Inr x, s') \<longleftrightarrow>
    (\<exists>db. f (mc_next s) (mc_db s) = Inr (x, db) \<and> s' = s\<lparr>mc_db := db, mc_next := Suc (mc_next s)\<rparr>)"
  by (auto simp: statement_def split: sum.split)

lemma change_db_Inr: "change_db f s = (r, s') \<longleftrightarrow> r = Inr () \<and> s' = s\<lparr>mc_db := f (mc_db s)\<rparr>"
  by (auto simp: change_db_def write_db_def)

section \<open>Running an operation\<close>

lemma bind_actE:
  assumes "bind_act m f s = (r, s')"
  obtains e where "m s = (Inl e, s')" "r = Inl e" | x s1 where "m s = (Inr x, s1)" "f x s1 = (r, s')"
  using assms unfolding bind_act_def by (auto split: prod.splits sum.splits)

lemma settled_eq: "settled x s = (r, s') \<longleftrightarrow> r = x \<and> s' = s"
  by (auto simp: settled_def)

lemma need_eq: "need e x s = (r, s') \<longleftrightarrow> r = ok_or e x \<and> s' = s"
  by (simp add: need_def settled_eq)

lemma read_db_eq: "read_db f s = (r, s') \<longleftrightarrow> r = Inr (f (mc_db s)) \<and> s' = s"
  by (auto simp: read_db_def)

lemma ret_eq: "ret x s = (r, s') \<longleftrightarrow> r = Inr x \<and> s' = s"
  by (auto simp: ret_def)

lemmas run_simps = settled_eq need_eq read_db_eq ret_eq change_db_Inr

lemma need_Inr: "need e x s = (Inr y, s') \<longleftrightarrow> x = Some y \<and> s' = s"
  by (auto simp: need_eq dest: sym)

lemma settled_Inr: "settled x s = (Inr y, s') \<longleftrightarrow> x = Inr y \<and> s' = s"
  by (auto simp: settled_eq)

lemmas run_Inr = bind_act_Inr need_Inr settled_Inr read_db_eq ret_eq change_db_Inr

section \<open>What an operation does to the catalog\<close>

text \<open>\<open>R\<close> holds between the catalog before and after \<open>m\<close>, also when \<open>m\<close> fails half way.\<close>

definition preserves :: "(db \<Rightarrow> db \<Rightarrow> bool) \<Rightarrow> ('e, 'w, 'a) eff \<Rightarrow> bool" where
  "preserves R m \<longleftrightarrow> (\<forall>s. R (mc_db s) (mc_db (snd (m s))))"

lemma preservesD: "preserves R m \<Longrightarrow> m s = (r, s') \<Longrightarrow> R (mc_db s) (mc_db s')"
  unfolding preserves_def by (metis snd_conv)

text \<open>A relation between catalogs that each write of an operation respects; the contract of the operations is proved from
  it once, and used for the job queue and for the stored versions.\<close>

locale catalog_frame =
  fixes R :: "db \<Rightarrow> db \<Rightarrow> bool"
  assumes same: "R db db" and trans: "R a b \<Longrightarrow> R b c \<Longrightarrow> R a c"
begin

lemma pure: "(\<And>s. mc_db (snd (m s)) = mc_db s) \<Longrightarrow> preserves R m"
  by (simp add: preserves_def same)

lemma bind: "preserves R m \<Longrightarrow> (\<And>x. preserves R (f x)) \<Longrightarrow> preserves R (bind_act m f)"
  unfolding preserves_def
proof (rule allI)
  fix s
  assume m: "\<forall>s. R (mc_db s) (mc_db (snd (m s)))" and f: "\<And>x. \<forall>s. R (mc_db s) (mc_db (snd (f x s)))"
  obtain r s1 where e: "m s = (r, s1)" by fastforce
  then have 1: "R (mc_db s) (mc_db s1)" using m by (metis snd_conv)
  show "R (mc_db s) (mc_db (snd (bind_act m f s)))"
  proof (cases r)
    case (Inr x)
    then show ?thesis using trans[OF 1] f e by (simp add: bind_act_def)
  qed (use 1 e in \<open>simp add: bind_act_def\<close>)
qed

lemma ret: "preserves R (ret x)"
  by (rule pure) (simp add: ret_def)

lemma settled: "preserves R (settled r)"
  by (rule pure) (simp add: settled_def)

lemma read: "preserves R (read_db f)"
  by (rule pure) (simp add: read_db_def)

lemma web: "preserves R (on_web g)"
  by (rule pure) (simp add: on_web_def split_def Let_def)

lemma world: "preserves R (on_world err g)"
  by (rule pure) (simp add: on_world_def split_def Let_def)

lemma change: "(\<And>db. R db (f db)) \<Longrightarrow> preserves R (change_db f)"
  by (simp add: preserves_def change_db_def write_db_def)

lemma change_at: "(\<And>t db. R db (f t db)) \<Longrightarrow> preserves R (\<lambda>s. change_db (f (g s)) s)"
  by (simp add: preserves_def change_db_def write_db_def)

lemma statement: "(\<And>i db x db'. f i db = Inr (x, db') \<Longrightarrow> R db db') \<Longrightarrow> preserves R (statement err f)"
  by (auto simp: preserves_def statement_def same split: sum.split)

lemma need: "preserves R (need e x)"
  by (simp add: need_def settled)

lemma stamp: "(\<And>db. R db (snd (f db))) \<Longrightarrow> preserves R (stamping f)"
  by (simp add: preserves_def stamping_def split_def)

end

section \<open>Library functions\<close>

definition sha1_hex :: "'w libs \<Rightarrow> bytes \<Rightarrow> string" where
  "sha1_hex L bs = hex (lib_sha1 L bs)"

definition blob_size :: "bytes \<Rightarrow> int" where
  "blob_size bs = min (int (length bs)) (2 ^ 63 - 1)"

text \<open>\<open>String::from_utf8_lossy\<close>: each maximal invalid part becomes U+FFFD.\<close>

definition REPLACEMENT :: "nat list" where
  "REPLACEMENT = [239, 191, 189]"

fun lossy :: "nat list \<Rightarrow> nat list" where
  "lossy [] = []"
| "lossy (a # s) =
     (if a < 128 then a # lossy s
      else if 194 \<le> a \<and> a < 224 then (case s of b # t \<Rightarrow> if cont b then a # b # lossy t else REPLACEMENT @ lossy s | [] \<Rightarrow> REPLACEMENT)
      else if 224 \<le> a \<and> a < 240 then (case s of
          b # t \<Rightarrow> if cont b \<and> (a = 224 \<longrightarrow> 160 \<le> b) \<and> (a = 237 \<longrightarrow> b < 160)
            then (case t of c # u \<Rightarrow> if cont c then a # b # c # lossy u else REPLACEMENT @ lossy t | [] \<Rightarrow> REPLACEMENT)
            else REPLACEMENT @ lossy s
        | [] \<Rightarrow> REPLACEMENT)
      else if 240 \<le> a \<and> a < 245 then (case s of
          b # t \<Rightarrow> if cont b \<and> (a = 240 \<longrightarrow> 144 \<le> b) \<and> (a = 244 \<longrightarrow> b < 144)
            then (case t of
                c # u \<Rightarrow> if cont c then (case u of d # v \<Rightarrow> if cont d then a # b # c # d # lossy v else REPLACEMENT @ lossy u | [] \<Rightarrow> REPLACEMENT)
                  else REPLACEMENT @ lossy t
              | [] \<Rightarrow> REPLACEMENT)
            else REPLACEMENT @ lossy s
        | [] \<Rightarrow> REPLACEMENT)
      else REPLACEMENT @ lossy s)"

definition from_utf8_lossy :: "bytes \<Rightarrow> string" where
  "from_utf8_lossy bs = map char_of (lossy (map unat bs))"

text \<open>\<open>str::replace\<close>; the empty pattern matches at every character boundary.\<close>

function replace_in :: "string \<Rightarrow> string \<Rightarrow> string \<Rightarrow> string" where
  "replace_in p r s = (if p = [] \<or> s = [] then s
     else if starts_with p s then r @ replace_in p r (drop (length p) s)
     else hd s # replace_in p r (tl s))"
  by pat_completeness auto
termination
  by (relation "measure (\<lambda>(p, r, s). length s)") auto

declare replace_in.simps [simp del]

definition str_replace :: "string \<Rightarrow> string \<Rightarrow> string \<Rightarrow> string" where
  "str_replace p r s = (if p \<noteq> [] then replace_in p r s
     else concat (map (\<lambda>c. if cont (of_char c) then [c] else r @ [c]) s) @ r)"

section \<open>Libraries for the concrete instances\<close>

definition demo_doc :: json where
  "demo_doc = JObj [(''version'', JStr ''1.0''), (''version_normalized'', JStr ''1.0.0.0''),
     (''dist'', JObj [(''url'', JStr ''https://repo.example/b.zip''), (''shasum'', JStr ''new'')]),
     (''require'', JObj [(''php'', JStr ''*''), (''acme/lib'', JStr ''^1'')])]"

definition demo_libs :: "('w \<Rightarrow> 'w) \<Rightarrow> 'w libs" where
  "demo_libs tick = \<lparr>lib_web = (\<lambda>w url. (if url = ''https://repo.example/p2/a/b.json'' then Answer [] else ErrorStatus 404, tick w)),
     lib_clock = (\<lambda>_. 100), lib_text = (\<lambda>_. Inr ''doc''), lib_root = (\<lambda>_. Some (Some [''a/b''])), lib_p2 = (\<lambda>_. Some [(''a/b'', [demo_doc])]),
     lib_order = (\<lambda>xs. xs), lib_sha1 = (\<lambda>b. b), lib_regex = (\<lambda>p. Inl p), lib_constraint = (\<lambda>c. Inr (\<lambda>v. sv_normalized v \<noteq> c)),
     lib_version = (\<lambda>v. Some \<lparr>sv_numeric = True, sv_normalized = v, sv_stability = ''stable''\<rparr>), lib_json = (\<lambda>_. Some (JObj [(''name'', JStr ''a/b'')])),
     lib_unseal = (\<lambda>_ _. Some), lib_clone = (\<lambda>w _ _. (CloneFailed (str_bytes ''fatal: repository not found''), w))\<rparr>"

end
