(* ===== verification/Secret.thy ===== *)
theory Secret
  imports Text
begin

text \<open>
  Encryption of secrets at rest (\<open>crates/sconce-catalog/src/secret.rs\<close>): loading the key, the random nonce and the
  framing of the stored blob. Base64, the environment, \<open>Uuid::new_v4\<close> and the AEAD \<open>XChaCha20Poly1305\<close> are parameters
  (\<open>seal\<close> and \<open>unseal\<close> take the key, the nonce and the text).
\<close>

definition NONCE_LEN :: nat where
  "NONCE_LEN = 24"

datatype secret_error = NoKey | BadKey | Decrypt

definition from_base64 :: "(string \<Rightarrow> bytes option) \<Rightarrow> string \<Rightarrow> (secret_error, bytes) result" where
  "from_base64 b64 s = and_then (ok_or BadKey (b64 s)) (\<lambda>key. if length key = 32 then Inr key else Inl BadKey)"

definition key_from_env :: "(string \<Rightarrow> string option) \<Rightarrow> (string \<Rightarrow> bytes option) \<Rightarrow> (secret_error, bytes) result" where
  "key_from_env env b64 = and_then (ok_or NoKey (env ''SCONCE_SECRET_KEY'')) (\<lambda>raw. from_base64 b64 (trim raw))"

text \<open>The nonce is cut from two version-4 uuids.\<close>

definition random_nonce :: "bytes \<Rightarrow> bytes \<Rightarrow> bytes" where
  "random_nonce u1 u2 = take 16 u1 @ take (NONCE_LEN - 16) u2"

definition encrypt :: "(bytes \<Rightarrow> bytes \<Rightarrow> bytes \<Rightarrow> bytes) \<Rightarrow> bytes \<Rightarrow> bytes \<Rightarrow> bytes \<Rightarrow> bytes" where
  "encrypt seal key nonce plaintext = nonce @ seal key nonce plaintext"

definition decrypt :: "(bytes \<Rightarrow> bytes \<Rightarrow> bytes \<Rightarrow> bytes option) \<Rightarrow> bytes \<Rightarrow> bytes \<Rightarrow> (secret_error, bytes) result" where
  "decrypt unseal key data = (if length data < NONCE_LEN then Inl Decrypt
     else ok_or Decrypt (unseal key (take NONCE_LEN data) (drop NONCE_LEN data)))"

definition v4_uuid :: "bytes \<Rightarrow> bool" where
  "v4_uuid u \<longleftrightarrow> length u = 16 \<and> unat (u ! 6) div 16 = 4 \<and> unat (u ! 8) div 64 = 2"

lemma length_random_nonce: "v4_uuid u1 \<Longrightarrow> v4_uuid u2 \<Longrightarrow> length (random_nonce u1 u2) = NONCE_LEN"
  by (simp add: random_nonce_def v4_uuid_def NONCE_LEN_def)

text \<open>Ten of the 192 bits are fixed by the uuid format.\<close>

lemma nonce_fixed_bits:
  "v4_uuid u1 \<Longrightarrow> v4_uuid u2 \<Longrightarrow> unat (random_nonce u1 u2 ! 6) div 16 = 4 \<and> unat (random_nonce u1 u2 ! 8) div 64 = 2
     \<and> unat (random_nonce u1 u2 ! 22) div 16 = 4"
  by (simp add: random_nonce_def v4_uuid_def NONCE_LEN_def nth_append)

text \<open>A stored secret decrypts to what was encrypted, under the same key; and, for a cipher that opens only what
  was sealed, whatever decrypts was produced by encrypting that text under this key (a shorter or altered blob is an
  error, never another text).\<close>

theorem secret_roundtrip:
  assumes aead: "\<forall>k n m c. unseal k n c = Some m \<longleftrightarrow> c = seal k n m" and uuids: "v4_uuid u1" "v4_uuid u2"
  shows "decrypt unseal key (encrypt seal key (random_nonce u1 u2) text) = Inr text
     \<and> (decrypt unseal key data = Inr got \<longrightarrow> (\<exists>nonce. length nonce = NONCE_LEN \<and> data = encrypt seal key nonce got))"
proof
  show "decrypt unseal key (encrypt seal key (random_nonce u1 u2) text) = Inr text"
    using aead length_random_nonce[OF uuids] by (simp add: decrypt_def encrypt_def)
  show "decrypt unseal key data = Inr got \<longrightarrow> (\<exists>nonce. length nonce = NONCE_LEN \<and> data = encrypt seal key nonce got)"
  proof
    assume d: "decrypt unseal key data = Inr got"
    then have "length data \<ge> NONCE_LEN" "drop NONCE_LEN data = seal key (take NONCE_LEN data) got"
      using aead by (auto simp: decrypt_def split: if_splits)
    then have "length (take NONCE_LEN data) = NONCE_LEN \<and> data = encrypt seal key (take NONCE_LEN data) got"
      unfolding encrypt_def by (metis append_take_drop_id length_take min.absorb2)
    then show "\<exists>nonce. length nonce = NONCE_LEN \<and> data = encrypt seal key nonce got" by blast
  qed
qed

definition demo_uuid :: bytes where
  "demo_uuid = [0, 1, 2, 3, 4, 5, 0x46, 7, 0x88, 9, 10, 11, 12, 13, 14, 15]"

theorem secret_roundtrip_witness:
  "decrypt (\<lambda>k n c. if take (length (k @ n)) c = k @ n then Some (drop (length (k @ n)) c) else None) [9]
     (encrypt (\<lambda>k n m. k @ n @ m) [9] (random_nonce demo_uuid demo_uuid) [7]) = Inr [7]"
proof -
  let ?u = "\<lambda>k n c. if take (length (k @ n)) c = k @ n then Some (drop (length (k @ n)) c) else None"
    and ?s = "\<lambda>k n m. k @ n @ m :: bytes"
  have "?u k n c = Some m \<longleftrightarrow> c = ?s k n m" for k n m c
    using append_eq_conv_conj[of "k @ n" m c] by (auto split: if_splits)
  then have 1: "\<forall>k n m c. ?u k n c = Some m \<longleftrightarrow> c = ?s k n m" by blast
  have 2: "v4_uuid demo_uuid" by code_simp
  from secret_roundtrip[OF 1 2 2, of "[9]" "[7]"] show ?thesis by blast
qed

end
