(* ===== verification/Mirror.thy ===== *)
theory Mirror
  imports Jobs Effects Secret
begin

text \<open>
  Mirroring (\<open>crates/sconce-mirror\<close> and \<open>run_job\<close> of \<open>crates/sconce/src/main.rs\<close>): the error classes that decide between
  retrying and giving up, subscriptions, the Composer sync with its immutability rules, the dependency closure, git
  checkouts and their credentials, and the job dispatcher the worker of \<open>Jobs\<close> runs. HTTP, the \<open>composer_wire\<close>,
  \<open>composer_semver\<close>, \<open>regex\<close>, \<open>serde_json\<close>, SHA-1 and AEAD crates and the \<open>git\<close> program are the fields of \<open>libs\<close>.
\<close>

section \<open>Errors\<close>

datatype catalog_error = SqlFailed sql_error | UpsertFailed upsert_error

datatype mirror_error = GitError git_error | CasError io_error | CatalogError catalog_error | BadComposerJson string
  | NoName string | UnknownUpstream | SecretError secret_error | CloneError string | HttpError string
  | HttpStatus nat string | BadMetadata string | ShasumMismatch string string | BadPattern string | FilterRequired

definition AUTH_MARKS :: "string list" where
  "AUTH_MARKS = [''authentication failed'', ''could not read username'', ''could not read password'', ''invalid username or password'',
     ''permission denied'', ''access denied'', ''401 unauthorized'', ''403 forbidden'', ''error: 401'', ''error: 403'']"

definition GONE_MARKS :: "string list" where
  "GONE_MARKS = [''not found'', ''does not exist'', ''could not be found'', ''error: 404'']"

definition clone_error_reason :: "string \<Rightarrow> string option" where
  "clone_error_reason stderr = (let s = ascii_lower stderr
     in if list_ex (\<lambda>m. contains_sub m s) AUTH_MARKS then Some ''auth_failed''
        else if list_ex (\<lambda>m. contains_sub m s) GONE_MARKS then Some ''source_gone'' else None)"

fun is_terminal :: "mirror_error \<Rightarrow> bool" where
  "is_terminal (BadComposerJson t) = True"
| "is_terminal (NoName t) = True"
| "is_terminal (BadMetadata p) = True"
| "is_terminal UnknownUpstream = True"
| "is_terminal (SecretError e) = True"
| "is_terminal (BadPattern p) = True"
| "is_terminal FilterRequired = True"
| "is_terminal (HttpStatus code url) = (code \<in> {401, 403, 404, 410})"
| "is_terminal (CloneError stderr) = (clone_error_reason stderr \<noteq> None)"
| "is_terminal (GitError e) = False"
| "is_terminal (CasError e) = False"
| "is_terminal (CatalogError e) = False"
| "is_terminal (HttpError e) = False"
| "is_terminal (ShasumMismatch p v) = False"

fun reason :: "mirror_error \<Rightarrow> string option" where
  "reason (BadComposerJson t) = Some ''bad_content''"
| "reason (NoName t) = Some ''bad_content''"
| "reason (BadMetadata p) = Some ''bad_content''"
| "reason (HttpStatus code url) = (if code \<in> {401, 403} then Some ''auth_failed''
     else if code \<in> {404, 410} then Some ''source_gone'' else None)"
| "reason UnknownUpstream = Some ''source_gone''"
| "reason (SecretError e) = Some ''credential_error''"
| "reason (BadPattern p) = Some ''config_error''"
| "reason FilterRequired = Some ''config_error''"
| "reason (CloneError stderr) = clone_error_reason stderr"
| "reason _ = None"

text \<open>The \<open>Display\<close> texts, which reach the job's \<open>last_error\<close>.\<close>

fun secret_text :: "secret_error \<Rightarrow> string" where
  "secret_text NoKey = ''SCONCE_SECRET_KEY is not set (required to store/use upstream credentials)''"
| "secret_text BadKey = ''SCONCE_SECRET_KEY must be base64 of exactly 32 bytes''"
| "secret_text Decrypt = ''ciphertext is malformed or was not encrypted with this key''"

fun error_text :: "mirror_error \<Rightarrow> string" where
  "error_text (GitError e) = ''reading git source''"
| "error_text (CasError e) = ''content store i/o''"
| "error_text (CatalogError e) = ''catalog''"
| "error_text (BadComposerJson tag) = ''composer.json at '' @ tag @ '' is not valid JSON''"
| "error_text (NoName tag) = ''composer.json at '' @ tag @ '' has no '' @ [CHR 0x22] @ ''name'' @ [CHR 0x22]"
| "error_text UnknownUpstream = ''no such upstream''"
| "error_text (SecretError e) = ''decrypting upstream credential''"
| "error_text (CloneError e) = ''git clone failed: '' @ e"
| "error_text (HttpError e) = ''http error: '' @ e"
| "error_text (HttpStatus code url) = ''http '' @ show_nat code @ '' from '' @ url"
| "error_text (BadMetadata p) = ''upstream metadata for '' @ p @ '' is malformed''"
| "error_text (ShasumMismatch p v) = ''dist sha1 mismatch for '' @ p @ '' '' @ v @ '' (corrupt download or tampered upstream)''"
| "error_text (BadPattern p) = ''invalid package-match regex: '' @ p"
| "error_text FilterRequired = ''a composer upstream requires a non-empty package filter (refusing to mirror the entire registry)''"

text \<open>A failure is terminal (the job stops instead of backing off) exactly when it has a reason code, so a
  package is flagged broken exactly by the failures that end the retries; transport errors, server errors other than
  gone and refused, digest mismatches and failures of the own store or catalog never are.\<close>

theorem terminal_iff_reason:
  "(is_terminal e \<longleftrightarrow> reason e \<noteq> None)
   \<and> (case e of HttpStatus code _ \<Rightarrow> is_terminal e \<longleftrightarrow> code = 401 \<or> code = 403 \<or> code = 404 \<or> code = 410
       | HttpError _ \<Rightarrow> \<not> is_terminal e | ShasumMismatch _ _ \<Rightarrow> \<not> is_terminal e | CasError _ \<Rightarrow> \<not> is_terminal e
       | CatalogError _ \<Rightarrow> \<not> is_terminal e | GitError _ \<Rightarrow> \<not> is_terminal e | CloneError _ \<Rightarrow> True | _ \<Rightarrow> is_terminal e)"
  by (cases e) auto

section \<open>Subscriptions\<close>

datatype name_match = MatchAll | MatchPrefix string | MatchExact string | MatchRegex "string \<Rightarrow> bool"

record compiled_require =
  cr_matcher :: name_match
  cr_constraint :: "(sem_version \<Rightarrow> bool) option"

fun match_name :: "name_match \<Rightarrow> string \<Rightarrow> bool" where
  "match_name MatchAll n = True"
| "match_name (MatchPrefix p) n = starts_with p n"
| "match_name (MatchExact e) n = (n = e)"
| "match_name (MatchRegex re) n = re n"

definition normalize_prefix :: "string \<Rightarrow> string" where
  "normalize_prefix p = (case strip_suffix ''*'' p of Some s \<Rightarrow> s | None \<Rightarrow> p)"

definition parse_constraint :: "'w libs \<Rightarrow> string option \<Rightarrow> (mirror_error, (sem_version \<Rightarrow> bool) option) result" where
  "parse_constraint L raw = (case map_option trim raw of
     None \<Rightarrow> Inr None
   | Some s \<Rightarrow> if s = [] then Inr None else (case lib_constraint L s of
       Inr c \<Rightarrow> Inr (Some c)
     | Inl e \<Rightarrow> Inl (BadPattern (''invalid version constraint '' @ [CHR 0x27] @ s @ [CHR 0x27] @ '': '' @ e))))"

definition compile_matcher :: "'w libs \<Rightarrow> upstream_require \<Rightarrow> (mirror_error, name_match) result" where
  "compile_matcher L q = (if q_kind q = ''all'' then Inr MatchAll
     else if q_kind q = ''prefix'' then Inr (MatchPrefix (normalize_prefix (q_pattern q)))
     else if q_kind q = ''exact'' then Inr (MatchExact (q_pattern q))
     else if q_kind q = ''regex'' then map_err BadPattern (and_then (lib_regex L (q_pattern q)) (\<lambda>re. Inr (MatchRegex re)))
     else Inl (BadPattern (''unknown match kind '' @ [CHR 0x27] @ q_kind q @ [CHR 0x27])))"

fun compile_subscription :: "'w libs \<Rightarrow> upstream_require list \<Rightarrow> (mirror_error, compiled_require list) result" where
  "compile_subscription L [] = Inr []"
| "compile_subscription L (q # qs) = and_then (compile_matcher L q) (\<lambda>m. and_then (parse_constraint L (q_floor q)) (\<lambda>c.
     and_then (compile_subscription L qs) (\<lambda>cs. Inr (\<lparr>cr_matcher = m, cr_constraint = c\<rparr> # cs))))"

definition matches_name :: "compiled_require list \<Rightarrow> string \<Rightarrow> bool" where
  "matches_name sub n = list_ex (\<lambda>c. match_name (cr_matcher c) n) sub"

fun allowed_by :: "sem_version option \<Rightarrow> bool \<Rightarrow> compiled_require list \<Rightarrow> bool" where
  "allowed_by version matched [] = (\<not> matched)"
| "allowed_by version matched (c # cs) = (case (cr_constraint c, version) of
     (None, _) \<Rightarrow> True
   | (Some con, Some v) \<Rightarrow> if con v then True else allowed_by version True cs
   | (Some _, None) \<Rightarrow> allowed_by version True cs)"

definition version_allowed :: "'w libs \<Rightarrow> compiled_require list \<Rightarrow> string \<Rightarrow> string \<Rightarrow> bool" where
  "version_allowed L sub name nv = allowed_by (lib_version L nv) False (filter (\<lambda>c. match_name (cr_matcher c) name) sub)"

definition normalize_tag :: "'w libs \<Rightarrow> string \<Rightarrow> (string \<times> string) option" where
  "normalize_tag L tag = (case lib_version L tag of None \<Rightarrow> None
     | Some v \<Rightarrow> if sv_numeric v then Some (sv_normalized v, sv_stability v) else None)"

definition satisfied :: "sem_version option \<Rightarrow> compiled_require \<Rightarrow> bool" where
  "satisfied version c \<longleftrightarrow> cr_constraint c = None \<or> (\<exists>con v. cr_constraint c = Some con \<and> version = Some v \<and> con v)"

lemma allowed_by_iff: "allowed_by version matched cs \<longleftrightarrow> cs = [] \<and> \<not> matched \<or> (\<exists>c\<in>set cs. satisfied version c)"
proof (induction cs arbitrary: matched)
  case (Cons c cs)
  show ?case
    using Cons.IH[of True] by (cases "cr_constraint c"; cases version) (auto simp: satisfied_def)
qed simp

text \<open>A subscription is the union of its entries: a version of a package some entry names is mirrored exactly when
  one of the entries naming the package has no constraint or one the parsed version satisfies; a package no entry
  names (a sync asked for by name) keeps every version.\<close>

theorem subscription_union:
  "version_allowed L sub name nv \<longleftrightarrow> (if matches_name sub name
     then \<exists>c\<in>set sub. match_name (cr_matcher c) name \<and> (cr_constraint c = None
          \<or> (\<exists>con v. cr_constraint c = Some con \<and> lib_version L nv = Some v \<and> con v))
     else True)"
proof -
  have "version_allowed L sub name nv \<longleftrightarrow> \<not> matches_name sub name
      \<or> (\<exists>c\<in>set sub. match_name (cr_matcher c) name \<and> satisfied (lib_version L nv) c)"
    unfolding version_allowed_def allowed_by_iff matches_name_def by (auto simp: list_ex_iff filter_empty_conv)
  then show ?thesis unfolding satisfied_def by simp
qed

section \<open>The sync's state\<close>

text \<open>A sync reads and writes the catalog, the world outside (the blob store and the network) and the supply of fresh ids.
  Its effects up to a failure stay; \<open>Panic\<close> is the panic of \<open>into_zip\<close> on an archive beyond the ZIP format.\<close>

datatype mirror_stop = Stop mirror_error | Panic

type_synonym ('w, 'a) act = "(mirror_stop, 'w, 'a) eff"

definition stop :: "mirror_error \<Rightarrow> ('w, 'a) act" where
  "stop e s = (Inl (Stop e), s)"

definition attempt :: "(mirror_error, 'a) result \<Rightarrow> ('w, 'a) act" where
  "attempt r = settled (map_err Stop r)"

text \<open>A statement that can break a constraint, given a fresh id.\<close>

definition query :: "('e \<Rightarrow> catalog_error) \<Rightarrow> (uuid \<Rightarrow> db \<Rightarrow> ('e, 'a \<times> db) result) \<Rightarrow> ('w, 'a) act" where
  "query err = statement (\<lambda>e. Stop (CatalogError (err e)))"

definition unit_query :: "(db \<Rightarrow> (sql_error, db) result) \<Rightarrow> ('w, unit) act" where
  "unit_query f = query SqlFailed (\<lambda>_ db. and_then (f db) (\<lambda>db. Inr ((), db)))"

definition put_blob :: "'w runtime \<Rightarrow> any_store \<Rightarrow> bytes \<Rightarrow> ('w, bytes) act" where
  "put_blob rt st bs s = (let (r, w) = any_put rt st (mc_world s) bs in (map_err (\<lambda>e. Stop (CasError e)) r, s\<lparr>mc_world := w\<rparr>))"

section \<open>HTTP\<close>

definition MAX_DIST_BYTES :: nat where
  "MAX_DIST_BYTES = 256 * 1024 * 1024"

fun http_error :: "string \<Rightarrow> web_reply \<Rightarrow> mirror_error" where
  "http_error url (ErrorStatus code) = HttpStatus code url"
| "http_error url (NoAnswer t) = HttpError (url @ '': '' @ t)"
| "http_error url (Truncated t) = HttpError (url @ '': '' @ t)"
| "http_error url (Answer b) = HttpError url"

fun reply_string :: "'w libs \<Rightarrow> string \<Rightarrow> web_reply \<Rightarrow> (mirror_error, string) result" where
  "reply_string L url (Answer b) = map_err (\<lambda>e. HttpError (url @ '': '' @ e)) (lib_text L b)"
| "reply_string L url r = Inl (http_error url r)"

fun reply_bytes :: "string \<Rightarrow> web_reply \<Rightarrow> (mirror_error, bytes) result" where
  "reply_bytes url (Answer b) = (if length b > MAX_DIST_BYTES
     then Inl (HttpError (''dist exceeds '' @ show_nat MAX_DIST_BYTES @ '' bytes: '' @ url)) else Inr b)"
| "reply_bytes url r = Inl (http_error url r)"

definition http_get_string :: "'w libs \<Rightarrow> string \<Rightarrow> ('w, string) act" where
  "http_get_string L url = bind_act (on_web (\<lambda>w. lib_web L w url)) (\<lambda>r. attempt (reply_string L url r))"

definition http_get_bytes :: "'w libs \<Rightarrow> string \<Rightarrow> ('w, bytes) act" where
  "http_get_bytes L url = bind_act (on_web (\<lambda>w. lib_web L w url)) (\<lambda>r. attempt (reply_bytes url r))"

section \<open>Reports\<close>

record mirrored =
  mi_tag :: string
  mi_package :: string
  mi_normalized :: string
  mi_stability :: string

record report =
  rp_mirrored :: "mirrored list"
  rp_skipped :: "(string \<times> string) list"
  rp_unchanged :: nat
  rp_conflicts :: "(string \<times> string) list"

definition empty_report :: report where
  "empty_report = \<lparr>rp_mirrored = [], rp_skipped = [], rp_unchanged = 0, rp_conflicts = []\<rparr>"

definition skip :: "string \<Rightarrow> string \<Rightarrow> report \<Rightarrow> report" where
  "skip item why r = r\<lparr>rp_skipped := rp_skipped r @ [(item, why)]\<rparr>"

definition unchanged :: "report \<Rightarrow> report" where
  "unchanged r = r\<lparr>rp_unchanged := Suc (rp_unchanged r)\<rparr>"

definition conflict :: "string \<Rightarrow> string \<Rightarrow> report \<Rightarrow> report" where
  "conflict item why r = r\<lparr>rp_conflicts := rp_conflicts r @ [(item, why)]\<rparr>"

definition mirrored_one :: "mirrored \<Rightarrow> report \<Rightarrow> report" where
  "mirrored_one m r = r\<lparr>rp_mirrored := rp_mirrored r @ [m]\<rparr>"

definition add_report :: "report \<Rightarrow> report \<Rightarrow> report" where
  "add_report a b = \<lparr>rp_mirrored = rp_mirrored a @ rp_mirrored b, rp_skipped = rp_skipped a @ rp_skipped b,
     rp_unchanged = rp_unchanged a + rp_unchanged b, rp_conflicts = rp_conflicts a @ rp_conflicts b\<rparr>"

section \<open>Composer packages\<close>

fun as_str :: "json option \<Rightarrow> string option" where
  "as_str (Some (JStr s)) = Some s"
| "as_str _ = None"

definition non_empty :: "string option \<Rightarrow> string option" where
  "non_empty s = (if s = Some [] then None else s)"

definition dist_field :: "string \<Rightarrow> json \<Rightarrow> string option" where
  "dist_field k pv = as_str (Option.bind (json_get ''dist'' pv) (json_get k))"

definition upstream_relative_path :: "string \<Rightarrow> string \<Rightarrow> string option" where
  "upstream_relative_path base url = Option.bind (strip_prefix base url) (\<lambda>rest. Option.bind (strip_prefix ''/'' rest) (\<lambda>rest.
     let path = takeWhile (\<lambda>c. c \<noteq> CHR ''?'' \<and> c \<noteq> CHR 0x23) rest in if path = [] then None else Some path))"

definition upstream_change :: "stored_dist \<Rightarrow> string option \<Rightarrow> string option \<Rightarrow> string option" where
  "upstream_change stored shasum reference = (case shasum of
     Some h \<Rightarrow> if sd_shasum stored \<noteq> Some h then Some ''upstream dist shasum changed since it was mirrored'' else None
   | None \<Rightarrow> (case (sd_reference stored, reference) of
       (Some a, Some b) \<Rightarrow> if a \<noteq> b then Some ''upstream dist reference changed since it was mirrored'' else None
     | _ \<Rightarrow> None))"

definition composer_stability :: "string \<Rightarrow> string" where
  "composer_stability version = (let v = ascii_lower version
     in if contains_sub ''dev'' v then ''dev'' else if contains_sub ''alpha'' v then ''alpha''
        else if contains_sub ''beta'' v then ''beta'' else if contains_sub ''rc'' v then ''RC'' else ''stable'')"

definition upstream_base :: "upstream_config \<Rightarrow> string" where
  "upstream_base up = trim_end_char (CHR ''/'') (ur_base (uc_row up))"

text \<open>A version the catalog does not have yet: download, check, store, record.\<close>

definition mirror_new :: "'w libs \<Rightarrow> 'w runtime \<Rightarrow> any_store \<Rightarrow> upstream_config \<Rightarrow> string \<Rightarrow> json \<Rightarrow> string \<Rightarrow> string \<Rightarrow> string
    \<Rightarrow> string option \<Rightarrow> string option \<Rightarrow> report \<Rightarrow> ('w, report) act" where
  "mirror_new L rt st up package pv version nv url shasum reference report =
     bind_act (http_get_bytes L url) (\<lambda>bytes.
     let actual = sha1_hex L bytes
     in if shasum \<noteq> None \<and> shasum \<noteq> Some actual then stop (ShasumMismatch package version)
     else bind_act (put_blob rt st bytes) (\<lambda>blob.
     bind_act (\<lambda>s. change_db (\<lambda>db. upsert_blob (now_of L s) db blob (blob_size bytes)) s) (\<lambda>_.
     bind_act (query UpsertFailed (\<lambda>newid db. upsert_package newid db (ur_repo (uc_row up)) package ''composer''
         (Some (JObj [(''url'', JStr (upstream_base up))])) (ur_visibility (uc_row up)))) (\<lambda>package_id.
     bind_act (unit_query (\<lambda>db. set_package_upstream db package_id (ur_id (uc_row up)))) (\<lambda>_.
     bind_act (query SqlFailed (\<lambda>newid db. insert_mirrored_version newid db package_id version nv (composer_stability version)
         pv blob actual reference (upstream_relative_path (upstream_base up) url))) (\<lambda>outcome.
     ret (case outcome of
       Created \<Rightarrow> mirrored_one \<lparr>mi_tag = version, mi_package = package, mi_normalized = nv, mi_stability = composer_stability version\<rparr> report
     | AlreadyPublished \<Rightarrow> unchanged report
     | Conflict \<Rightarrow> conflict (package @ '' '' @ version) ''dist bytes differ from the stored version'' report)))))))"

definition mirror_stored :: "upstream_config \<Rightarrow> string \<Rightarrow> string \<Rightarrow> string \<Rightarrow> string option \<Rightarrow> stored_dist \<Rightarrow> string option
    \<Rightarrow> string option \<Rightarrow> report \<Rightarrow> ('w, report) act" where
  "mirror_stored up package version nv path existing shasum reference report = (case upstream_change existing shasum reference of
     None \<Rightarrow> (case (sd_dist_path existing, path) of
         (None, Some p) \<Rightarrow> bind_act (change_db (\<lambda>db. backfill_upstream_dist_path db (ur_repo (uc_row up)) package nv p)) (\<lambda>_. ret (unchanged report))
       | _ \<Rightarrow> ret (unchanged report))
   | Some why \<Rightarrow> ret (conflict (package @ '' '' @ version) why report))"

definition mirror_version :: "'w libs \<Rightarrow> 'w runtime \<Rightarrow> any_store \<Rightarrow> upstream_config \<Rightarrow> string \<Rightarrow> compiled_require list
    \<Rightarrow> (string \<times> stored_dist) list \<Rightarrow> json \<Rightarrow> report \<Rightarrow> ('w, report) act" where
  "mirror_version L rt st up package sub stored pv report =
     (let version = as_str (json_get ''version'' pv); shasum = non_empty (dist_field ''shasum'' pv);
          reference = non_empty (dist_field ''reference'' pv)
      in case (version, as_str (json_get ''version_normalized'' pv), dist_field ''url'' pv) of
        (Some v, Some nv, Some url) \<Rightarrow>
          if \<not> version_allowed L sub package nv then ret (skip v ''below version floor'' report)
          else (case map_of stored nv of
              Some existing \<Rightarrow> mirror_stored up package v nv (upstream_relative_path (upstream_base up) url) existing shasum reference report
            | None \<Rightarrow> mirror_new L rt st up package pv v nv url shasum reference report)
      | _ \<Rightarrow> ret (skip (coalesce version ''?'') ''no dist'' report))"

fun mirror_versions :: "'w libs \<Rightarrow> 'w runtime \<Rightarrow> any_store \<Rightarrow> upstream_config \<Rightarrow> string \<Rightarrow> compiled_require list
    \<Rightarrow> (string \<times> stored_dist) list \<Rightarrow> json list \<Rightarrow> report \<Rightarrow> ('w, report) act" where
  "mirror_versions L rt st up package sub stored [] report = ret report"
| "mirror_versions L rt st up package sub stored (pv # pvs) report =
     bind_act (mirror_version L rt st up package sub stored pv report) (mirror_versions L rt st up package sub stored pvs)"

definition p2_versions :: "'w libs \<Rightarrow> string \<Rightarrow> string \<Rightarrow> (mirror_error, json list) result" where
  "p2_versions L package body = ok_or (BadMetadata package) (Option.bind (lib_p2 L body) (\<lambda>doc. map_of doc package))"

definition mirror_composer_inner :: "'w libs \<Rightarrow> 'w runtime \<Rightarrow> any_store \<Rightarrow> upstream_config \<Rightarrow> string \<Rightarrow> compiled_require list
    \<Rightarrow> ('w, report) act" where
  "mirror_composer_inner L rt st up package sub =
     bind_act (http_get_string L (upstream_base up @ ''/p2/'' @ package @ ''.json'')) (\<lambda>body.
     bind_act (attempt (p2_versions L package body)) (\<lambda>versions.
     bind_act (read_db (\<lambda>db. stored_dists db (ur_repo (uc_row up)) package)) (\<lambda>stored.
     mirror_versions L rt st up package sub stored versions empty_report)))"

text \<open>The lifecycle bookkeeping never overrides the outcome.\<close>

definition mirror_one_composer_package :: "'w libs \<Rightarrow> 'w runtime \<Rightarrow> any_store \<Rightarrow> upstream_config \<Rightarrow> string \<Rightarrow> compiled_require list
    \<Rightarrow> ('w, report) act" where
  "mirror_one_composer_package L rt st up package sub s =
     (let (r, s) = mirror_composer_inner L rt st up package sub s; repo = ur_repo (uc_row up)
      in (r, case r of
          Inr _ \<Rightarrow> write_db (\<lambda>db. mark_package_synced (now_of L s) db repo package) s
        | Inl Panic \<Rightarrow> s
        | Inl (Stop e) \<Rightarrow> (case reason e of None \<Rightarrow> s
            | Some why \<Rightarrow> write_db (\<lambda>db. snd (mark_package_broken (now_of L s) db repo package why)) s)))"

definition load_composer_upstream :: "uuid \<Rightarrow> ('w, upstream_config) act" where
  "load_composer_upstream i = bind_act (read_db (\<lambda>db. get_upstream db i)) (\<lambda>up.
     bind_act (attempt (ok_or UnknownUpstream up)) (\<lambda>up.
     if ur_kind (uc_row up) \<noteq> ''composer'' then stop (HttpError (''expected a '' @ [CHR 0x27] @ ''composer'' @ [CHR 0x27] @ '' upstream''))
     else ret up))"

definition mirror_composer_package :: "'w libs \<Rightarrow> 'w runtime \<Rightarrow> any_store \<Rightarrow> uuid \<Rightarrow> string \<Rightarrow> ('w, report) act" where
  "mirror_composer_package L rt st i package = bind_act (load_composer_upstream i) (\<lambda>up.
     bind_act (attempt (compile_subscription L (uc_requires up))) (mirror_one_composer_package L rt st up package))"

section \<open>Composer registries\<close>

record package_status =
  pk_name :: string
  pk_visibility :: visibility
  pk_upstream :: "uuid option"
  pk_health :: string
  pk_reason :: "string option"
  pk_archived :: bool
  pk_upstream_error :: "string option"

definition package_status_of :: "db \<Rightarrow> package_row \<Rightarrow> package_status" where
  "package_status_of db p = \<lparr>pk_name = p_name p, pk_visibility = p_visibility p, pk_upstream = p_upstream p, pk_health = p_sync_health p,
     pk_reason = p_broken_reason p, pk_archived = (p_archived_at p \<noteq> None),
     pk_upstream_error = (if p_upstream p = None then None else
       case sort_key (\<lambda>j. - j_updated j) (filter (\<lambda>j. j_upstream j = p_upstream p) (jobs db)) of [] \<Rightarrow> None | j # _ \<Rightarrow> j_error j)\<rparr>"

definition list_packages :: "db \<Rightarrow> uuid \<Rightarrow> package_status list" where
  "list_packages db repo = (let ps = sort_by (\<lambda>p q. text_cmp (p_name p) (p_name q)) (filter (\<lambda>p. p_repo p = repo) (packages db))
     in map (package_status_of db) (filter needs_attention ps @ filter (\<lambda>p. \<not> needs_attention p) ps))"

text \<open>One failing package is recorded and the run goes on.\<close>

fun mirror_names :: "'w libs \<Rightarrow> 'w runtime \<Rightarrow> any_store \<Rightarrow> upstream_config \<Rightarrow> compiled_require list \<Rightarrow> string list \<Rightarrow> string list
    \<Rightarrow> report \<Rightarrow> ('w, report) act" where
  "mirror_names L rt st up sub frozen [] report s = (Inr report, s)"
| "mirror_names L rt st up sub frozen (name # names) report s =
     (if name \<in> set frozen then mirror_names L rt st up sub frozen names (skip name ''archived'' report) s
      else (case mirror_one_composer_package L rt st up name sub s of
          (Inr r, s) \<Rightarrow> mirror_names L rt st up sub frozen names (add_report report r) s
        | (Inl (Stop e), s) \<Rightarrow> mirror_names L rt st up sub frozen names (skip name (error_text e) report) s
        | (Inl Panic, s) \<Rightarrow> (Inl Panic, s)))"

fun reconcile :: "'w libs \<Rightarrow> uuid \<Rightarrow> string list \<Rightarrow> string list \<Rightarrow> report \<Rightarrow> ('w, report) act" where
  "reconcile L repo available [] report s = (Inr report, s)"
| "reconcile L repo available (name # names) report s =
     (if name \<in> set available then reconcile L repo available names report s
      else let (found, db) = mark_package_broken (now_of L s) (mc_db s) repo name ''source_gone''
        in reconcile L repo available names (if found then skip name ''removed upstream'' report else report) (s\<lparr>mc_db := db\<rparr>))"

definition mirror_composer_registry :: "'w libs \<Rightarrow> 'w runtime \<Rightarrow> any_store \<Rightarrow> upstream_config \<Rightarrow> compiled_require list \<Rightarrow> ('w, report) act" where
  "mirror_composer_registry L rt st up sub =
     (if ur_kind (uc_row up) \<noteq> ''composer'' then stop (HttpError (''expected a '' @ [CHR 0x27] @ ''composer'' @ [CHR 0x27] @ '' upstream''))
      else if sub = [] then stop FilterRequired
      else bind_act (http_get_string L (upstream_base up @ ''/packages.json'')) (\<lambda>body.
       bind_act (attempt (ok_or (BadMetadata ''packages.json'') (lib_root L body))) (\<lambda>available.
       let available = map_option remdups available; repo = ur_repo (uc_row up);
           names = filter (matches_name sub) (lib_order L (coalesce available []))
       in bind_act (read_db (\<lambda>db. map pk_name (filter pk_archived (list_packages db repo)))) (\<lambda>frozen.
       bind_act (mirror_names L rt st up sub frozen names empty_report) (\<lambda>report.
       case available of None \<Rightarrow> ret report
       | Some available \<Rightarrow> bind_act (read_db (\<lambda>db. upstream_package_names db (ur_id (uc_row up)))) (\<lambda>existing.
           reconcile L repo available existing report))))))"

definition mirror_composer_upstream :: "'w libs \<Rightarrow> 'w runtime \<Rightarrow> any_store \<Rightarrow> uuid \<Rightarrow> ('w, report) act" where
  "mirror_composer_upstream L rt st i = bind_act (load_composer_upstream i) (\<lambda>up.
     bind_act (attempt (compile_subscription L (uc_requires up))) (mirror_composer_registry L rt st up))"

section \<open>The dependency closure\<close>

definition MAX_CLOSURE :: nat where
  "MAX_CLOSURE = 2000"

definition is_package :: "string \<Rightarrow> bool" where
  "is_package name \<longleftrightarrow> CHR ''/'' \<in> set name"

definition plan_entry_of :: "string \<Rightarrow> string \<Rightarrow> uuid option \<Rightarrow> string \<Rightarrow> plan_entry" where
  "plan_entry_of name status up by = \<lparr>pe_name = name, pe_status = status, pe_resolver = up, pe_required_by = Some by\<rparr>"

text \<open>One fetch is one call of the HTTP library, \<open>lib_web\<close>: the redirects the library follows within a call are
  its own requests and happen inside the parameter.\<close>

definition fetch_p2 :: "'w libs \<Rightarrow> 'w \<Rightarrow> string \<Rightarrow> string \<Rightarrow> (mirror_error, json list option) result \<times> 'w" where
  "fetch_p2 L w base package =
     (let url = trim_end_char (CHR ''/'') base @ ''/p2/'' @ package @ ''.json''; (r, w) = lib_web L w url
      in (if r = ErrorStatus 404 then Inr None
          else and_then (reply_string L url r) (\<lambda>body. and_then (ok_or (BadMetadata package) (lib_p2 L body)) (\<lambda>doc.
            Inr (Some (coalesce (map_of doc package) [])))), w))"

definition latest_requires :: "json list \<Rightarrow> string list" where
  "latest_requires vs = (if vs = [] then [] else json_keys (json_get ''require'' (last vs)))"

text \<open>The first registry that answers with metadata; any failure counts as a miss here.\<close>

fun probe :: "'w libs \<Rightarrow> 'w \<Rightarrow> string \<Rightarrow> upstream_row list \<Rightarrow> (upstream_row \<times> json list) option \<times> 'w" where
  "probe L w dep [] = (None, w)"
| "probe L w dep (u # us) = (case fetch_p2 L w (ur_base u) dep of
     (Inr (Some vs), w) \<Rightarrow> (Some (u, vs), w)
   | (_, w) \<Rightarrow> probe L w dep us)"

definition resolvable :: "upstream_row \<Rightarrow> string" where
  "resolvable u = (case ur_visibility u of Private \<Rightarrow> ''resolvable-private'' | Public \<Rightarrow> ''resolvable-public'')"

text \<open>The breadth-first loop: the plan grows up to its cap, or the queue shrinks.\<close>

function closure_loop :: "'w libs \<Rightarrow> string list \<Rightarrow> upstream_row list \<Rightarrow> 'w \<Rightarrow> plan_entry list \<Rightarrow> string list
    \<Rightarrow> (string \<times> string) list \<Rightarrow> plan_entry list \<times> 'w" where
  "closure_loop L present ups w plan seen [] = (plan, w)"
| "closure_loop L present ups w plan seen ((dep, by) # queue) =
     (if \<not> is_package dep \<or> dep \<in> set seen then closure_loop L present ups w plan seen queue
      else if length plan \<ge> MAX_CLOSURE then (plan, w)
      else if dep \<in> set present
        then closure_loop L present ups w (plan @ [plan_entry_of dep ''present'' None by]) (dep # seen) queue
      else (case probe L w dep ups of
          (Some (u, vs), w) \<Rightarrow> closure_loop L present ups w (plan @ [plan_entry_of dep (resolvable u) (Some (ur_id u)) by]) (dep # seen)
              (queue @ map (\<lambda>d. (d, dep)) (filter is_package (latest_requires vs)))
        | (None, w) \<Rightarrow> closure_loop L present ups w (plan @ [plan_entry_of dep ''missing'' None by]) (dep # seen) queue))"
  by pat_completeness auto
termination
  by (relation "measures [\<lambda>(L, present, ups, w, plan, seen, queue). MAX_CLOSURE - length plan,
      \<lambda>(L, present, ups, w, plan, seen, queue). length queue]") auto

definition composer_upstreams :: "time \<Rightarrow> db \<Rightarrow> uuid \<Rightarrow> upstream_row list" where
  "composer_upstreams now db repo = (let us = filter (\<lambda>u. ur_kind u = ''composer'') (map um_row (list_upstreams now db repo))
     in filter (\<lambda>u. ur_visibility u = Private) us @ filter (\<lambda>u. ur_visibility u \<noteq> Private) us)"

definition closure_queue :: "db \<Rightarrow> uuid \<Rightarrow> (string \<times> string) list" where
  "closure_queue db repo = map (\<lambda>(pkg, dep). (dep, pkg)) (filter (\<lambda>(pkg, dep). is_package dep) (repo_direct_requires db repo))"

definition resolve_closure :: "'w libs \<Rightarrow> uuid \<Rightarrow> ('w, plan_entry list) act" where
  "resolve_closure L repo = bind_act (read_db (\<lambda>db. all_package_names db repo)) (\<lambda>present.
     bind_act (\<lambda>s. read_db (\<lambda>db. composer_upstreams (now_of L s) db repo) s) (\<lambda>ups.
     bind_act (read_db (\<lambda>db. closure_queue db repo)) (\<lambda>queue.
     on_web (\<lambda>w. closure_loop L present ups w [] [] queue))))"

section \<open>Git checkouts\<close>

definition starts_http :: "string \<Rightarrow> bool" where
  "starts_http base \<longleftrightarrow> starts_with ''http://'' base \<or> starts_with ''https://'' base"

definition with_userinfo :: "string \<Rightarrow> string \<Rightarrow> string" where
  "with_userinfo base userinfo = (case split_str ''://'' base of
     Some (scheme, rest) \<Rightarrow> scheme @ ''://'' @ userinfo @ ''@'' @ rest | None \<Rightarrow> base)"

definition build_clone_invocation :: "string \<Rightarrow> string option \<Rightarrow> string \<Rightarrow> string \<times> string list" where
  "build_clone_invocation base credential credential_type = (case credential of
     Some cred \<Rightarrow> if \<not> starts_http base then (base, [])
       else if credential_type = ''bearer'' then (base, [''-c'', ''http.extraHeader=Authorization: Bearer '' @ cred])
       else if credential_type = ''github'' then (with_userinfo base (''x-access-token:'' @ cred), [])
       else if credential_type = ''gitlab'' then (with_userinfo base (''oauth2:'' @ cred), [])
       else (with_userinfo base cred, [])
   | None \<Rightarrow> (base, []))"

definition redact :: "string option \<Rightarrow> string \<Rightarrow> string" where
  "redact credential msg = trim (case credential of Some cred \<Rightarrow> str_replace cred ''***'' msg | None \<Rightarrow> msg)"

fun clone_result :: "string option \<Rightarrow> clone_reply \<Rightarrow> (mirror_error, git_repo) result" where
  "clone_result credential (Cloned g) = Inr g"
| "clone_result credential (CloneFailed stderr) = Inl (CloneError (redact credential (from_utf8_lossy stderr)))"
| "clone_result credential (SpawnFailed e) = Inl (CloneError (''spawning git: '' @ e))"

definition clone_repo :: "'w libs \<Rightarrow> string \<Rightarrow> string option \<Rightarrow> string \<Rightarrow> ('w, git_repo) act" where
  "clone_repo L base credential credential_type = (let (url, pre) = build_clone_invocation base credential credential_type
     in bind_act (on_web (\<lambda>w. lib_clone L w url pre)) (\<lambda>r. attempt (clone_result credential r)))"

definition git_attempt :: "(git_error, 'a) result \<Rightarrow> ('w, 'a) act" where
  "git_attempt r = attempt (map_err GitError r)"

definition zip_or_panic :: "entry list \<Rightarrow> ('w, bytes) act" where
  "zip_or_panic es s = (case into_zip es of Some z \<Rightarrow> (Inr z, s) | None \<Rightarrow> (Inl Panic, s))"

definition opt_catalog where
  "opt_catalog up package_id = (case up of None \<Rightarrow> ret () | Some u \<Rightarrow> unit_query (\<lambda>db. set_package_upstream db package_id u))"

definition path_label :: "string \<Rightarrow> string \<Rightarrow> string" where
  "path_label sp item = (if sp = [] then item else sp @ '': '' @ item)"

text \<open>What is fixed over a checkout: the repository row, the source, the upstream's binding and subscription.\<close>

record checkout_params =
  cp_repo :: uuid
  cp_url :: string
  cp_visibility :: visibility
  cp_upstream :: "uuid option"
  cp_sub :: "compiled_require list"

definition mirror_tag_version :: "'w libs \<Rightarrow> 'w runtime \<Rightarrow> any_store \<Rightarrow> checkout_params \<Rightarrow> git_repo \<Rightarrow> string \<Rightarrow> string \<Rightarrow> string
    \<Rightarrow> int option \<Rightarrow> string \<Rightarrow> string \<Rightarrow> json \<Rightarrow> report \<Rightarrow> ('w, report) act" where
  "mirror_tag_version L rt st cp g tag nv stability released sp name composer report =
     bind_act (git_attempt (archive_subtree g tag sp)) (\<lambda>es.
     bind_act (zip_or_panic es) (\<lambda>zip.
     bind_act (put_blob rt st zip) (\<lambda>blob.
     bind_act (\<lambda>s. change_db (\<lambda>db. upsert_blob (now_of L s) db blob (blob_size zip)) s) (\<lambda>_.
     bind_act (query UpsertFailed (\<lambda>newid db. upsert_package newid db (cp_repo cp) name ''git''
         (Some (JObj [(''url'', JStr (cp_url cp))])) (cp_visibility cp))) (\<lambda>package_id.
     bind_act (opt_catalog (cp_upstream cp) package_id) (\<lambda>_.
     bind_act (change_db (\<lambda>db. set_package_source_path db package_id sp)) (\<lambda>_.
     bind_act (query SqlFailed (\<lambda>newid db. upsert_package_version newid db package_id tag nv stability composer (Some blob)
         (Some (sha1_hex L zip)) None released)) (\<lambda>_.
     ret (mirrored_one \<lparr>mi_tag = tag, mi_package = name, mi_normalized = nv, mi_stability = stability\<rparr> report)))))))))"

definition mirror_tag_path :: "'w libs \<Rightarrow> 'w runtime \<Rightarrow> any_store \<Rightarrow> checkout_params \<Rightarrow> git_repo \<Rightarrow> string \<Rightarrow> string \<Rightarrow> string
    \<Rightarrow> int option \<Rightarrow> string \<Rightarrow> report \<Rightarrow> ('w, report) act" where
  "mirror_tag_path L rt st cp g tag nv stability released sp report =
     bind_act (git_attempt (read_file g tag (if sp = [] then ''composer.json'' else sp @ ''/composer.json''))) (\<lambda>cj. case cj of
       None \<Rightarrow> ret (skip tag (path_label sp ''no composer.json'') report)
     | Some bytes \<Rightarrow> bind_act (attempt (ok_or (BadComposerJson tag) (lib_json L bytes))) (\<lambda>composer.
         bind_act (attempt (ok_or (NoName tag) (as_str (json_get ''name'' composer)))) (\<lambda>name.
         if \<not> version_allowed L (cp_sub cp) name nv then ret (skip tag (path_label sp ''below version floor'') report)
         else mirror_tag_version L rt st cp g tag nv stability released sp name composer report)))"

fun mirror_paths :: "'w libs \<Rightarrow> 'w runtime \<Rightarrow> any_store \<Rightarrow> checkout_params \<Rightarrow> git_repo \<Rightarrow> string \<Rightarrow> string \<Rightarrow> string
    \<Rightarrow> int option \<Rightarrow> string list \<Rightarrow> report \<Rightarrow> ('w, report) act" where
  "mirror_paths L rt st cp g tag nv stability released [] report = ret report"
| "mirror_paths L rt st cp g tag nv stability released (sp # sps) report =
     bind_act (mirror_tag_path L rt st cp g tag nv stability released sp report)
       (mirror_paths L rt st cp g tag nv stability released sps)"

fun mirror_tags :: "'w libs \<Rightarrow> 'w runtime \<Rightarrow> any_store \<Rightarrow> checkout_params \<Rightarrow> git_repo \<Rightarrow> string list \<Rightarrow> string list \<Rightarrow> report
    \<Rightarrow> ('w, report) act" where
  "mirror_tags L rt st cp g paths [] report = ret report"
| "mirror_tags L rt st cp g paths (tag # tags) report = (case normalize_tag L tag of
     None \<Rightarrow> mirror_tags L rt st cp g paths tags (skip tag ''unrecognized version'' report)
   | Some (nv, stability) \<Rightarrow>
       bind_act (mirror_paths L rt st cp g tag nv stability (case commit_time g tag of Inr t \<Rightarrow> Some t | Inl _ \<Rightarrow> None) paths report)
         (mirror_tags L rt st cp g paths tags))"

definition mark_all_synced :: "'w libs \<Rightarrow> uuid \<Rightarrow> string list \<Rightarrow> 'w machine \<Rightarrow> 'w machine" where
  "mark_all_synced L repo names s = fold (\<lambda>n s. write_db (\<lambda>db. mark_package_synced (now_of L s) db repo n) s) (remdups names) s"

definition mirror_checkout :: "'w libs \<Rightarrow> 'w runtime \<Rightarrow> any_store \<Rightarrow> checkout_params \<Rightarrow> string list \<Rightarrow> git_repo \<Rightarrow> ('w, report) act" where
  "mirror_checkout L rt st cp source_paths g =
     bind_act (git_attempt (git_tags g)) (\<lambda>tags.
     bind_act (mirror_tags L rt st cp g (if source_paths = [] then [[]] else source_paths) tags empty_report) (\<lambda>report s.
       (Inr report, mark_all_synced L (cp_repo cp) (map mi_package (rp_mirrored report)) s)))"

definition upstream_credential :: "'w libs \<Rightarrow> bytes option \<Rightarrow> bytes option \<Rightarrow> (mirror_error, string option) result" where
  "upstream_credential L key ct = (case ct of
     None \<Rightarrow> Inr None
   | Some ct \<Rightarrow> map_err SecretError (and_then (ok_or NoKey key) (\<lambda>k. and_then (decrypt (lib_unseal L) k ct) (\<lambda>b. Inr (Some (from_utf8_lossy b))))))"

definition mirror_git_clone :: "'w libs \<Rightarrow> 'w runtime \<Rightarrow> any_store \<Rightarrow> bytes option \<Rightarrow> upstream_config \<Rightarrow> compiled_require list \<Rightarrow> ('w, report) act" where
  "mirror_git_clone L rt st key up sub =
     bind_act (attempt (upstream_credential L key (ur_credential (uc_row up)))) (\<lambda>credential.
     bind_act (clone_repo L (ur_base (uc_row up)) credential (ur_cred_type (uc_row up))) (\<lambda>g.
     mirror_checkout L rt st \<lparr>cp_repo = ur_repo (uc_row up), cp_url = ur_base (uc_row up), cp_visibility = ur_visibility (uc_row up),
       cp_upstream = Some (ur_id (uc_row up)), cp_sub = sub\<rparr> (uc_paths up) g))"

definition mirror_git_source :: "'w libs \<Rightarrow> 'w runtime \<Rightarrow> any_store \<Rightarrow> uuid \<Rightarrow> git_repo \<Rightarrow> string \<Rightarrow> ('w, report) act" where
  "mirror_git_source L rt st repo g git_url = mirror_checkout L rt st \<lparr>cp_repo = repo, cp_url = git_url, cp_visibility = Private,
     cp_upstream = None, cp_sub = []\<rparr> [] g"

section \<open>Jobs\<close>

definition mirror_upstream :: "'w libs \<Rightarrow> 'w runtime \<Rightarrow> any_store \<Rightarrow> bytes option \<Rightarrow> uuid \<Rightarrow> ('w, report) act" where
  "mirror_upstream L rt st key i = bind_act (read_db (\<lambda>db. get_upstream db i)) (\<lambda>up.
     bind_act (attempt (ok_or UnknownUpstream up)) (\<lambda>up.
     bind_act (attempt (compile_subscription L (uc_requires up))) (\<lambda>sub.
     if ur_kind (uc_row up) = ''git'' then mirror_git_clone L rt st key up sub
     else if ur_kind (uc_row up) = ''composer'' then mirror_composer_registry L rt st up sub
     else stop (HttpError (''unknown upstream kind: '' @ ur_kind (uc_row up))))))"

fun failure_of :: "mirror_stop \<Rightarrow> job_outcome" where
  "failure_of (Stop e) = Failed \<lparr>jf_message = error_text e, jf_terminal = is_terminal e\<rparr>"
| "failure_of Panic = Panicking"

definition bad_job :: "string \<Rightarrow> job_outcome" where
  "bad_job msg = Failed \<lparr>jf_message = msg, jf_terminal = True\<rparr>"

definition mirror_summary :: "report \<Rightarrow> string" where
  "mirror_summary r = show_nat (length (rp_mirrored r)) @ '' mirrored, '' @ show_nat (rp_unchanged r) @ '' unchanged, ''
     @ show_nat (length (rp_skipped r)) @ '' skipped, '' @ show_nat (length (rp_conflicts r)) @ '' conflict(s)''"

definition package_summary :: "string \<Rightarrow> report \<Rightarrow> string" where
  "package_summary pkg r = pkg @ '': '' @ show_nat (length (rp_mirrored r)) @ '' version(s), '' @ show_nat (rp_unchanged r)
     @ '' unchanged, '' @ show_nat (length (rp_conflicts r)) @ '' conflict(s)''"

definition finish_job :: "('a \<Rightarrow> string) \<Rightarrow> ('w, 'a) act \<Rightarrow> 'w machine \<Rightarrow> job_outcome \<times> 'w machine" where
  "finish_job summary m s = (case m s of (Inr x, s) \<Rightarrow> (Done (summary x), s) | (Inl e, s) \<Rightarrow> (failure_of e, s))"

definition closure_job :: "'w libs \<Rightarrow> uuid \<Rightarrow> 'w machine \<Rightarrow> job_outcome \<times> 'w machine" where
  "closure_job L repo s = (case resolve_closure L repo s of
     (Inl e, s) \<Rightarrow> (failure_of e, s)
   | (Inr plan, s) \<Rightarrow> (case replace_dependency_plan (mc_db s) repo plan of
       Inl e \<Rightarrow> (Failed \<lparr>jf_message = ''database error'', jf_terminal = False\<rparr>, s)
     | Inr db \<Rightarrow> (Done (''resolved '' @ show_nat (length plan) @ '' dependencies''), s\<lparr>mc_db := db\<rparr>)))"

definition run_job :: "'w libs \<Rightarrow> 'w runtime \<Rightarrow> any_store \<Rightarrow> bytes option \<Rightarrow> job_row \<Rightarrow> 'w machine \<Rightarrow> job_outcome \<times> 'w machine" where
  "run_job L rt st key job s =
     (if j_kind job = ''mirror_upstream'' then (case j_upstream job of
          None \<Rightarrow> (bad_job ''job missing upstream_id'', s)
        | Some u \<Rightarrow> finish_job mirror_summary (mirror_upstream L rt st key u) s)
      else if j_kind job = ''mirror_package'' then (case (j_upstream job, j_package job) of
          (None, _) \<Rightarrow> (bad_job ''job missing upstream_id'', s)
        | (_, None) \<Rightarrow> (bad_job ''job missing package'', s)
        | (Some u, Some pkg) \<Rightarrow> finish_job (package_summary pkg) (mirror_composer_package L rt st u pkg) s)
      else if j_kind job = ''resolve_closure'' then (case j_repo job of
          None \<Rightarrow> (bad_job ''job missing repo_id'', s)
        | Some r \<Rightarrow> closure_job L r s)
      else (bad_job (''unknown job kind: '' @ j_kind job), s))"

text \<open>A job of the worker's loop: the catalog is the loop's, the rest of the machine is the state it carries.\<close>

definition worker_job :: "'w libs \<Rightarrow> 'w runtime \<Rightarrow> any_store \<Rightarrow> bytes option \<Rightarrow> db \<Rightarrow> 'w world \<times> uuid \<Rightarrow> job_row
    \<Rightarrow> job_outcome \<times> db \<times> 'w world \<times> uuid" where
  "worker_job L rt st key db s job = (case run_job L rt st key job \<lparr>mc_db = db, mc_world = fst s, mc_next = snd s\<rparr> of
     (outcome, m) \<Rightarrow> (outcome, mc_db m, mc_world m, mc_next m))"

section \<open>What a sync does to the catalog\<close>

context catalog_frame begin

lemma stop: "preserves R (stop e)"
  by (rule pure) (simp add: stop_def)

lemma attempt: "preserves R (attempt r)"
  by (rule pure) (simp add: attempt_def settled_def)

lemma put: "preserves R (put_blob rt st bs)"
  by (rule pure) (simp add: put_blob_def split_def Let_def)

lemma git: "preserves R (git_attempt x)"
  by (rule pure) (simp add: git_attempt_def attempt_def settled_def)

lemma zip: "preserves R (zip_or_panic es)"
  by (rule pure) (simp add: zip_or_panic_def split: option.split)

lemma query: "(\<And>i db x db'. f i db = Inr (x, db') \<Longrightarrow> R db db') \<Longrightarrow> preserves R (query err f)"
  by (auto simp: preserves_def query_def statement_def same split: sum.split)

lemma unit_query: "(\<And>db db'. f db = Inr db' \<Longrightarrow> R db db') \<Longrightarrow> preserves R (unit_query f)"
  unfolding unit_query_def by (rule query) (auto simp: and_then_Inr_iff)

lemmas acts = bind ret stop attempt read web put git zip

end

locale composer_frame = catalog_frame +
  assumes blob: "R db (upsert_blob t db b n)"
    and package: "upsert_package i db repo name kind src vis = Inr (p, db') \<Longrightarrow> R db db'"
    and upstream: "set_package_upstream db p u = Inr db' \<Longrightarrow> R db db'"
    and insertion: "insert_mirrored_version i db p v nv stab composer b shasum src_ref path = Inr (out, db') \<Longrightarrow> R db db'"
    and backfill: "R db (backfill_upstream_dist_path db repo name nv dp)"
    and synced: "R db (mark_package_synced t db repo name)"
    and broken: "R db (snd (mark_package_broken t db repo name why))"
begin

lemma new_version: "preserves R (mirror_new L rt st up package ob v nv url h ref report)"
  unfolding mirror_new_def http_get_bytes_def Let_def
  by (auto intro!: acts change_at query unit_query blob dest: package upstream insertion split: option.splits)

lemma stored_version: "preserves R (mirror_stored up package v nv path existing h ref report)"
  unfolding mirror_stored_def by (auto intro!: acts change backfill split: option.splits)

lemma version: "preserves R (mirror_version L rt st up package sub stored ob report)"
  unfolding mirror_version_def Let_def by (auto intro!: new_version stored_version ret split: option.splits)

lemma versions: "preserves R (mirror_versions L rt st up package sub stored obs report)"
  by (induction obs arbitrary: report) (auto intro!: ret bind version)

lemma inner: "preserves R (mirror_composer_inner L rt st up package sub)"
  unfolding mirror_composer_inner_def http_get_string_def by (auto intro!: acts versions)

lemma one: "preserves R (mirror_one_composer_package L rt st up package sub)"
  unfolding preserves_def mirror_one_composer_package_def
  by (auto simp: Let_def write_db_def split: prod.splits sum.splits mirror_stop.splits option.splits
      intro: trans[OF preservesD[OF inner]] synced broken same dest: preservesD[OF inner])

lemma names: "preserves R (mirror_names L rt st up sub arch ns report)"
proof -
  have "R (mc_db s) (mc_db (snd (mirror_names L rt st up sub arch ns report s)))" for s
  proof (induction ns arbitrary: report s)
    case (Cons n ns)
    obtain r s' where o: "mirror_one_composer_package L rt st up n sub s = (r, s')" by fastforce
    show ?case
      using Cons.IH[where s = s] trans[OF preservesD[OF one o] Cons.IH] preservesD[OF one o] o
      by (auto split: sum.split mirror_stop.split)
  qed (simp add: same)
  then show ?thesis by (simp add: preserves_def)
qed

lemma reconciled: "preserves R (reconcile L repo available ns report)"
proof -
  have "R (mc_db s) (mc_db (snd (reconcile L repo available ns report s)))" for s
  proof (induction ns arbitrary: report s)
    case (Cons n ns)
    obtain found db where m: "mark_package_broken (now_of L s) (mc_db s) repo n ''source_gone'' = (found, db)" by fastforce
    then have "R (mc_db s) db" using broken by (metis snd_conv)
    then show ?case
      using Cons.IH[where s = s] trans[OF _ Cons.IH[where s = "s\<lparr>mc_db := db\<rparr>"]] m by simp
  qed (simp add: same)
  then show ?thesis by (simp add: preserves_def)
qed

lemma registry: "preserves R (mirror_composer_registry L rt st up sub)"
  unfolding mirror_composer_registry_def http_get_string_def Let_def
  by (auto intro!: acts names reconciled split: option.splits)

lemma composer_package: "preserves R (mirror_composer_package L rt st i package)"
  unfolding mirror_composer_package_def load_composer_upstream_def by (auto intro!: acts one)

lemma composer_upstream: "preserves R (mirror_composer_upstream L rt st i)"
  unfolding mirror_composer_upstream_def load_composer_upstream_def by (auto intro!: acts registry)

end

locale sync_frame = composer_frame +
  assumes git_version: "upsert_package_version i db p v nv stab composer b shasum src_ref rel = Inr (x, db') \<Longrightarrow> R db db'"
    and source_path: "R db (set_package_source_path db p path)"
    and plan: "replace_dependency_plan db repo es = Inr db' \<Longrightarrow> R db db'"
begin

lemma tag_version: "preserves R (mirror_tag_version L rt st cp g tag nv stab rel sp name composer report)"
  unfolding mirror_tag_version_def opt_catalog_def Let_def
  by (auto intro!: acts change change_at query unit_query blob source_path dest: package upstream git_version split: option.splits)

lemma tag_path: "preserves R (mirror_tag_path L rt st cp g tag nv stab rel sp report)"
  unfolding mirror_tag_path_def by (auto intro!: acts tag_version split: option.splits)

lemma paths: "preserves R (mirror_paths L rt st cp g tag nv stab rel sps report)"
  by (induction sps arbitrary: report) (auto intro!: ret bind tag_path)

lemma tags: "preserves R (mirror_tags L rt st cp g sps ts report)"
  by (induction ts arbitrary: report) (auto intro!: ret bind paths split: option.splits)

lemma all_synced: "R (mc_db s) (mc_db (mark_all_synced L repo ns s))"
proof -
  have "R (mc_db s) (mc_db (fold (\<lambda>n s. write_db (\<lambda>db. mark_package_synced (now_of L s) db repo n) s) xs s))" for xs
  proof (induction xs arbitrary: s)
    case (Cons n xs)
    have "R (mc_db s) (mc_db (write_db (\<lambda>db. mark_package_synced (now_of L s) db repo n) s))" by (simp add: write_db_def synced)
    from trans[OF this Cons.IH] show ?case by simp
  qed (simp add: same)
  then show ?thesis by (simp add: mark_all_synced_def)
qed

lemma checkout: "preserves R (mirror_checkout L rt st cp sps g)"
  unfolding mirror_checkout_def by (intro bind git tags) (simp add: preserves_def all_synced)

lemma git_clone: "preserves R (mirror_git_clone L rt st key up sub)"
  unfolding mirror_git_clone_def clone_repo_def Let_def split_def by (intro bind attempt web checkout)

lemma upstream_sync: "preserves R (mirror_upstream L rt st key i)"
  unfolding mirror_upstream_def by (auto intro!: acts git_clone registry)

lemma closure: "preserves R (resolve_closure L repo)"
  unfolding resolve_closure_def by (intro bind read web) (rule pure, simp add: read_db_def)

lemma finished: "preserves R m \<Longrightarrow> finish_job f m s = (out, s') \<Longrightarrow> R (mc_db s) (mc_db s')"
  unfolding finish_job_def by (auto split: prod.splits sum.splits dest: preservesD)

lemma closed: "closure_job L repo s = (out, s') \<Longrightarrow> R (mc_db s) (mc_db s')"
  unfolding closure_job_def
  by (auto split: prod.splits sum.splits dest!: preservesD[OF closure] dest: plan trans)

lemma job: "run_job L rt st key j s = (out, s') \<Longrightarrow> R (mc_db s) (mc_db s')"
  unfolding run_job_def
  by (auto split: if_splits option.splits intro: same finished[OF upstream_sync] finished[OF composer_package] closed)

end

text \<open>The queue: no sync touches a job row.\<close>

interpretation queue: sync_frame "\<lambda>db db'. jobs db' = jobs db"
proof
  fix i db p v nv stab composer b shasum src_ref rel x db'
  assume "upsert_package_version i db p v nv stab composer b shasum src_ref rel = Inr (x, db')"
  then show "jobs db' = jobs db"
    by (auto simp: upsert_package_version_def add_version_def update_versions_def split: if_splits option.splits)
next
  fix i db repo name kind src vis p db'
  assume "upsert_package i db repo name kind src vis = Inr (p, db')"
  then show "jobs db' = jobs db" by (auto elim!: upsert_packageE)
qed (auto simp: upsert_blob_def set_package_upstream_def insert_mirrored_version_def insert_version_once_def add_version_def
    backfill_upstream_dist_path_def mark_package_synced_def upd_package_def mark_package_broken_def set_package_source_path_def
    replace_dependency_plan_def Let_def split: if_splits option.splits)

text \<open>The stored versions: a Composer sync adds rows and fills in a missing upstream path, nothing else.\<close>

definition same_content :: "version_row \<Rightarrow> version_row \<Rightarrow> bool" where
  "same_content v v' \<longleftrightarrow> v' = v\<lparr>v_dist_path := v_dist_path v'\<rparr> \<and> (v_dist_path v = None \<or> v_dist_path v' = v_dist_path v)"

definition keeps_content :: "db \<Rightarrow> db \<Rightarrow> bool" where
  "keeps_content db db' \<longleftrightarrow> (\<forall>v\<in>set (versions db). \<exists>v'\<in>set (versions db'). same_content v v')"

lemma same_content_refl: "same_content v v"
  by (simp add: same_content_def)

lemma same_content_trans: "same_content a b \<Longrightarrow> same_content b c \<Longrightarrow> same_content a c"
  unfolding same_content_def by (cases a; cases b; cases c) auto

lemma keeps_content_more: "set (versions db) \<subseteq> set (versions db') \<Longrightarrow> keeps_content db db'"
  unfolding keeps_content_def using same_content_refl by blast

lemma keeps_content_update:
  assumes "\<And>v. P v \<Longrightarrow> same_content v (f v)"
  shows "keeps_content db (db\<lparr>versions := upd_where P f (versions db)\<rparr>)"
  unfolding keeps_content_def
proof
  fix v assume "v \<in> set (versions db)"
  then have "(if P v then f v else v) \<in> set (upd_where P f (versions db))" by (auto simp: in_upd_where)
  moreover have "same_content v (if P v then f v else v)" using assms same_content_refl by simp
  ultimately show "\<exists>v'\<in>set (versions (db\<lparr>versions := upd_where P f (versions db)\<rparr>)). same_content v v'" by auto
qed

interpretation content: composer_frame keeps_content
proof
  fix db repo name nv dp
  show "keeps_content db (backfill_upstream_dist_path db repo name nv dp)"
    unfolding backfill_upstream_dist_path_def by (rule keeps_content_update) (simp add: same_content_def)
next
  fix a b c
  assume "keeps_content a b" "keeps_content b c"
  then show "keeps_content a c" unfolding keeps_content_def using same_content_trans by meson
next
  fix i db p v nv stab composer b shasum src_ref path out db'
  assume "insert_mirrored_version i db p v nv stab composer b shasum src_ref path = Inr (out, db')"
  then show "keeps_content db db'"
    by (intro keeps_content_more) (auto simp: insert_mirrored_version_def insert_version_once_def add_version_def split: if_splits option.splits)
next
  fix i db repo name kind src vis p db'
  assume "upsert_package i db repo name kind src vis = Inr (p, db')"
  then show "keeps_content db db'" by (auto elim!: upsert_packageE intro: keeps_content_more)
qed (auto intro!: keeps_content_more simp: upsert_blob_def set_package_upstream_def mark_package_synced_def upd_package_def
    mark_package_broken_def Let_def split: if_splits)

text \<open>C25: Mirrored Composer versions are immutable: whatever a registry answers, and also when the sync fails half way,
  a sync of one package or of the whole upstream keeps every stored version as it is (blob, SHA-1, metadata,
  reference, release and approval state), except that a missing upstream path may be filled in once.\<close>

theorem composer_sync_immutable:
  assumes "mirror_composer_package L rt st i package s = (r, s') \<or> mirror_composer_upstream L rt st i s = (r, s')"
    and "v \<in> set (versions (mc_db s))"
  shows "\<exists>v'\<in>set (versions (mc_db s')). v' = v\<lparr>v_dist_path := v_dist_path v'\<rparr> \<and> (v_dist_path v = None \<or> v_dist_path v' = v_dist_path v)"
proof -
  have "keeps_content (mc_db s) (mc_db s')"
    using assms(1) preservesD[OF content.composer_package] preservesD[OF content.composer_upstream] by metis
  with assms(2) show ?thesis unfolding keeps_content_def same_content_def by blast
qed

section \<open>Panics\<close>

definition calm :: "('w, 'a) act \<Rightarrow> bool" where
  "calm m \<longleftrightarrow> (\<forall>s. fst (m s) \<noteq> Inl Panic)"

lemma calmD: "calm m \<Longrightarrow> m s \<noteq> (Inl Panic, s')"
  unfolding calm_def by (metis fst_conv)

lemma calm_bind: "calm m \<Longrightarrow> (\<And>x s s'. m s = (Inr x, s') \<Longrightarrow> calm (f x)) \<Longrightarrow> calm (bind_act m f)"
  unfolding calm_def bind_act_def by (auto split: prod.splits sum.splits) (metis fst_conv)+

lemma calm_map_err: "map_err Stop r \<noteq> Inl Panic"
  by (cases r) auto

lemma calm_ret: "calm (ret x)"
  by (simp add: calm_def ret_def)

lemma calm_stop: "calm (stop e)"
  by (simp add: calm_def stop_def)

lemma calm_attempt: "calm (attempt r)"
  by (simp add: calm_def attempt_def settled_def calm_map_err)

lemma calm_git: "calm (git_attempt r)"
  by (simp add: git_attempt_def calm_attempt)

lemma calm_read: "calm (read_db f)"
  by (simp add: calm_def read_db_def)

lemma calm_change: "calm (change_db f)" "calm (\<lambda>s. change_db (f' s) s)"
  by (simp_all add: calm_def change_db_def)

lemma calm_query: "calm (query err f)"
  by (auto simp: calm_def query_def statement_def split: sum.split)

lemma calm_unit_query: "calm (unit_query f)"
  by (simp add: unit_query_def calm_query)

lemma calm_web: "calm (on_web f)"
  by (simp add: calm_def on_web_def split_def Let_def)

lemma calm_put: "calm (put_blob rt st bs)"
proof -
  have "map_err (\<lambda>e. Stop (CasError e)) r \<noteq> Inl Panic" for r :: "(io_error, bytes) result" by (cases r) auto
  then show ?thesis by (simp add: calm_def put_blob_def split_def Let_def)
qed

lemmas calm_acts = calm_bind calm_ret calm_stop calm_attempt calm_git calm_read calm_change calm_query calm_unit_query calm_web calm_put

lemma calm_composer_version: "calm (mirror_version L rt st up package sub stored ob report)"
  unfolding mirror_version_def mirror_new_def mirror_stored_def http_get_bytes_def Let_def
  by (auto intro!: calm_acts split: option.splits)

lemma calm_composer_inner: "calm (mirror_composer_inner L rt st up package sub)"
proof -
  have "calm (mirror_versions L rt st up package sub stored obs report)" for stored obs report
    by (induction obs arbitrary: report) (auto intro!: calm_ret calm_bind calm_composer_version)
  then show ?thesis unfolding mirror_composer_inner_def http_get_string_def by (auto intro!: calm_acts)
qed

lemma calm_composer_one: "calm (mirror_one_composer_package L rt st up package sub)"
  using calm_composer_inner[of L rt st up package sub] by (simp add: calm_def mirror_one_composer_package_def Let_def split_def)

lemma calm_names: "calm (mirror_names L rt st up sub arch ns report)"
proof -
  have "fst (mirror_names L rt st up sub arch ns report s) \<noteq> Inl Panic" for s
  proof (induction ns arbitrary: report s)
    case (Cons n ns)
    obtain r s' where o: "mirror_one_composer_package L rt st up n sub s = (r, s')" by fastforce
    with calmD[OF calm_composer_one] have "r \<noteq> Inl Panic" by metis
    then show ?case using Cons.IH o by (cases r) (auto split: mirror_stop.split)
  qed simp
  then show ?thesis by (simp add: calm_def)
qed

lemma calm_reconcile: "calm (reconcile L repo available ns report)"
proof -
  have "fst (reconcile L repo available ns report s) \<noteq> Inl Panic" for s
    by (induction ns arbitrary: report s) (auto simp: split_def Let_def)
  then show ?thesis by (simp add: calm_def)
qed

lemma calm_registry: "calm (mirror_composer_registry L rt st up sub)"
  unfolding mirror_composer_registry_def http_get_string_def Let_def
  by (auto intro!: calm_acts calm_names calm_reconcile split: option.splits)

text \<open>A repository whose archives all fit the ZIP format.\<close>

definition fits_zip :: "git_repo \<Rightarrow> bool" where
  "fits_zip g \<longleftrightarrow> (\<forall>tag sp es. archive_subtree g tag sp = Inr es \<longrightarrow> into_zip es \<noteq> None)"

lemma git_attempt_Inr: "git_attempt r s = (Inr x, s') \<Longrightarrow> r = Inr x"
  by (cases r) (auto simp: git_attempt_def attempt_def settled_def)

lemma calm_zip: "into_zip es \<noteq> None \<Longrightarrow> calm (zip_or_panic es)"
  by (auto simp: calm_def zip_or_panic_def split: option.split)

lemma calm_checkout:
  assumes "fits_zip g"
  shows "calm (mirror_checkout L rt st cp sps g)"
proof -
  have 1: "calm (mirror_tag_version L rt st cp g tag nv stab rel sp name composer report)" for tag nv stab rel sp name composer report
    unfolding mirror_tag_version_def opt_catalog_def Let_def using assms
    by (auto intro!: calm_acts calm_zip dest!: git_attempt_Inr simp: fits_zip_def split: option.splits)
  have 2: "calm (mirror_tag_path L rt st cp g tag nv stab rel sp report)" for tag nv stab rel sp report
    unfolding mirror_tag_path_def by (auto intro!: calm_acts 1 split: option.splits)
  have 3: "calm (mirror_paths L rt st cp g tag nv stab rel ps report)" for tag nv stab rel ps report
    by (induction ps arbitrary: report) (auto intro!: calm_ret calm_bind 2)
  have 4: "calm (mirror_tags L rt st cp g ps ts report)" for ps ts report
    by (induction ts arbitrary: report) (auto intro!: calm_ret calm_bind 3 split: option.splits)
  show ?thesis unfolding mirror_checkout_def by (intro calm_bind calm_git 4) (simp add: calm_def)
qed

lemma clone_Cloned:
  assumes "bind_act (on_web (\<lambda>w. lib_clone L w url pre)) (\<lambda>r. attempt (clone_result cred r)) s = (Inr g, s')"
  shows "\<exists>w. fst (lib_clone L w url pre) = Cloned g"
proof -
  let ?r = "fst (lib_clone L (w_net (mc_world s)) url pre)"
  have "clone_result cred ?r = Inr g" using assms
    by (cases "clone_result cred ?r") (auto simp: bind_act_def on_web_def on_net_def on_part_def attempt_def settled_def split_def Let_def)
  then show ?thesis by (cases ?r) auto
qed

definition clones_fit :: "'w libs \<Rightarrow> bool" where
  "clones_fit L \<longleftrightarrow> (\<forall>w url pre g. fst (lib_clone L w url pre) = Cloned g \<longrightarrow> fits_zip g)"

lemma calm_upstream: "clones_fit L \<Longrightarrow> calm (mirror_upstream L rt st key i)"
  unfolding mirror_upstream_def mirror_git_clone_def clone_repo_def Let_def split_def clones_fit_def
  by (auto intro!: calm_acts calm_registry calm_checkout dest!: clone_Cloned)

lemma calm_finish: "calm m \<Longrightarrow> fst (finish_job f m s) \<noteq> Panicking"
  unfolding finish_job_def by (auto split: prod.splits sum.splits elim!: failure_of.elims dest: calmD)

lemma calm_job:
  assumes "clones_fit L"
  shows "fst (run_job L rt st key j s) \<noteq> Panicking"
proof -
  have p: "calm (mirror_composer_package L rt st u pkg)" for u pkg
    unfolding mirror_composer_package_def load_composer_upstream_def by (auto intro!: calm_acts calm_composer_one)
  have c: "calm (resolve_closure L r)" for r
    unfolding resolve_closure_def by (intro calm_bind calm_read calm_web) (simp add: calm_def read_db_def)
  then have "fst (closure_job L r s) \<noteq> Panicking" for r
    using calmD[OF c] by (auto simp: closure_job_def split: prod.splits sum.splits elim!: failure_of.elims)
  then show ?thesis
    using calm_finish[OF calm_upstream[OF assms]] calm_finish[OF p] by (auto simp: run_job_def bad_job_def split: option.split)
qed

section \<open>The worker over the real jobs\<close>

interpretation mirror_worker: worker "worker_job L rt st key"
  for L :: "'w libs" and rt :: "'w runtime" and st :: any_store and key :: "bytes option"
proof
  fix db s job outcome db' s'
  assume "worker_job L rt st key db s job = (outcome, db', s')"
  then show "jobs db' = jobs db"
    by (auto simp: worker_job_def split: prod.splits dest!: queue.job)
qed

text \<open>C26: The worker's inner loop always returns: with one claim per due job and one more, whatever the registries,
  the git program and the store answer, it ends without an error and leaves no job eligible. A job that was due
  throughout has been run exactly once: it has one attempt more and is finished, or pending past the drain; a job
  that became due during the drain has been run at most once; every other row is as it was. The queue keeps its
  ids, keys and the one-pending-job index. This is for a drain of less than the shortest backoff (five seconds)
  on the clock, with no other process writing the queue and checked-out archives that fit the ZIP format.\<close>

theorem worker_drains:
  assumes queue: "distinct (map j_id (jobs db))" "pending_unique (jobs db)"
    and clock: "\<forall>w. t0 \<le> lib_clock L w \<and> lib_clock L w \<le> t1" "t1 < t0 + 5"
    and fits: "clones_fit L"
    and fuel: "count_where (eligible t1) (jobs db) < fuel"
  shows "\<exists>db' w. drain (worker_job L rt st key) (\<lambda>s. lib_clock L (w_net (fst s))) nanos fuel db start = Some (Inr db', w)
     \<and> count_where (eligible (lib_clock L (w_net (fst w)))) (jobs db') = 0
     \<and> map j_id (jobs db') = map j_id (jobs db) \<and> map job_key (jobs db') = map job_key (jobs db) \<and> pending_unique (jobs db')
     \<and> list_all2 (drained t0 t1) (jobs db) (jobs db')"
proof -
  have calm: "fst (worker_job L rt st key db s job) \<noteq> Panicking" for db s job
    using calm_job[OF fits] by (simp add: worker_job_def split_def)
  have "queue_ok db" "due t1 db < fuel" using queue fuel by (simp_all add: queue_ok_def due_def)
  from mirror_worker.drain_returns[where clock = "\<lambda>s. lib_clock L (w_net (fst s))" and ?t0.0 = t0 and ?t1.0 = t1, OF _ clock(2) calm this]
  show ?thesis using clock(1) unfolding due_def queue_ok_def by blast
qed

section \<open>The closure\<close>

definition plan_entry_ok :: "string list \<Rightarrow> upstream_row list \<Rightarrow> plan_entry \<Rightarrow> bool" where
  "plan_entry_ok present ups e \<longleftrightarrow> is_package (pe_name e)
     \<and> (if pe_name e \<in> set present then pe_status e = ''present'' \<and> pe_resolver e = None
        else pe_status e = ''missing'' \<and> pe_resolver e = None
          \<or> list_ex (\<lambda>u. pe_status e = resolvable u \<and> pe_resolver e = Some (ur_id u)) ups)"

definition plan_ok :: "string list \<Rightarrow> upstream_row list \<Rightarrow> plan_entry list \<Rightarrow> string list \<Rightarrow> bool" where
  "plan_ok present ups plan seen \<longleftrightarrow> distinct (map pe_name plan) \<and> set (map pe_name plan) = set seen \<and> length plan \<le> MAX_CLOSURE
     \<and> list_all (plan_entry_ok present ups) plan"

lemma probe_Some: "probe L w dep us = (Some (u, vs), w') \<Longrightarrow> u \<in> set us"
  by (induction L w dep us rule: probe.induct) (auto split: prod.splits sum.splits option.splits)

lemma plan_ok_add:
  assumes "plan_ok present ups plan seen" "dep \<notin> set seen" "length plan < MAX_CLOSURE" "plan_entry_ok present ups e" "pe_name e = dep"
  shows "plan_ok present ups (plan @ [e]) (dep # seen)"
  using assms unfolding plan_ok_def by auto

lemma closure_loop_ok:
  "closure_loop L present ups w plan seen queue = (plan', w') \<Longrightarrow> plan_ok present ups plan seen \<Longrightarrow>
   (\<exists>seen'. plan_ok present ups plan' seen') \<and> set plan \<subseteq> set plan'
   \<and> (length plan' < MAX_CLOSURE \<longrightarrow> (\<forall>(d, by)\<in>set queue. is_package d \<longrightarrow> d \<in> pe_name ` set plan'))"
proof (induction L present ups w plan seen queue arbitrary: plan' w' rule: closure_loop.induct)
  case (2 L present ups w plan seen dep "by" queue)
  show ?case
  proof (cases "\<not> is_package dep \<or> dep \<in> set seen")
    case True
    have "closure_loop L present ups w plan seen queue = (plan', w')" using "2.prems"(1) True by auto
    note IH = "2.IH"(1)[OF True this "2.prems"(2)]
    have "dep \<in> pe_name ` set plan" if "is_package dep" using True that "2.prems"(2) by (auto simp: plan_ok_def)
    then show ?thesis using IH by auto
  next
    case False
    show ?thesis
    proof (cases "MAX_CLOSURE \<le> length plan")
      case True
      then have "plan' = plan" using "2.prems"(1) False by simp
      then show ?thesis using "2.prems"(2) True by auto
    next
      case room: False
      have go: ?thesis if c: "closure_loop L present ups w1 (plan @ [e]) (dep # seen) queue' = (plan', w')"
          and sub: "set queue \<subseteq> set queue'" and e: "plan_entry_ok present ups e" "pe_name e = dep"
          and IH: "plan_ok present ups (plan @ [e]) (dep # seen) \<Longrightarrow> (\<exists>seen'. plan_ok present ups plan' seen') \<and> set (plan @ [e]) \<subseteq> set plan'
            \<and> (length plan' < MAX_CLOSURE \<longrightarrow> (\<forall>(d, by)\<in>set queue'. is_package d \<longrightarrow> d \<in> pe_name ` set plan'))"
        for w1 e queue'
      proof -
        have "plan_ok present ups (plan @ [e]) (dep # seen)"
          using plan_ok_add[OF "2.prems"(2) _ _ e] False room by auto
        note r = IH[OF this]
        have "dep \<in> pe_name ` set plan'" using r e(2) by auto
        then show ?thesis using r sub by auto
      qed
      show ?thesis
      proof (cases "dep \<in> set present")
        case True
        let ?e = "plan_entry_of dep ''present'' None by"
        have "closure_loop L present ups w (plan @ [?e]) (dep # seen) queue = (plan', w')"
          using "2.prems"(1) False room True by simp
        from go[OF this _ _ _ "2.IH"(2)[OF False room True this]] show ?thesis
          using False True by (auto simp: plan_entry_ok_def plan_entry_of_def)
      next
        case absent: False
        obtain hit w1 where p: "probe L w dep ups = (hit, w1)" by fastforce
        show ?thesis
        proof (cases hit)
          case None
          let ?e = "plan_entry_of dep ''missing'' None by"
          have "closure_loop L present ups w1 (plan @ [?e]) (dep # seen) queue = (plan', w')"
            using "2.prems"(1) False room absent p None by simp
          from go[OF this _ _ _ "2.IH"(3)[OF False room absent p[symmetric] None this]] show ?thesis
            using False absent by (auto simp: plan_entry_ok_def plan_entry_of_def)
        next
          case (Some uv)
          obtain u vs where uv: "uv = (u, vs)" by fastforce
          let ?e = "plan_entry_of dep (resolvable u) (Some (ur_id u)) by"
          let ?q = "queue @ map (\<lambda>d. (d, dep)) (filter is_package (latest_requires vs))"
          have "closure_loop L present ups w1 (plan @ [?e]) (dep # seen) ?q = (plan', w')"
            using "2.prems"(1) False room absent p Some uv by simp
          from go[OF this _ _ _ "2.IH"(4)[OF False room absent p[symmetric] Some uv[symmetric] this]] show ?thesis
            using False absent probe_Some[OF p[unfolded Some uv]] by (auto simp: plan_entry_ok_def plan_entry_of_def list_ex_iff)
        qed
      qed
    qed
  qed
qed auto

lemma composer_upstreams_known: "u \<in> set (composer_upstreams now db repo) \<Longrightarrow> u \<in> set (upstreams db)"
  by (auto simp: composer_upstreams_def list_upstreams_def Let_def)

lemma plan_row_round [simp]: "entry_of_row (plan_row_of repo e) = e"
  by (simp add: entry_of_row_def plan_row_of_def)

lemma plan_stored:
  assumes "replace_dependency_plan db repo es = Inr db'"
  shows "mset (list_dependency_plan db' repo) = mset es"
proof -
  have "filter (\<lambda>d. dp_repo d = repo) (plans db') = map (plan_row_of repo) es"
    using assms by (auto simp: replace_dependency_plan_def del_where_def filter_empty_conv plan_row_of_def filter_id_conv split: if_splits)
  then show ?thesis by (simp add: list_dependency_plan_def mset_sort_by o_def)
qed

text \<open>C28: The dependency plan is well formed and can be stored: resolving changes nothing in the catalog; the plan lists
  each package once and at most 2000 of them, a package of the repository as present and any other as missing or
  resolved by one of the repository's Composer upstreams; a plan below the cap covers every package the repository's
  versions require; and replacing the stored plan with it succeeds and reads back as the same entries.\<close>

theorem closure_plan:
  assumes "resolve_closure L repo s = (r, s')" and "repo_named (mc_db s) repo \<noteq> None"
  shows "\<exists>plan db'. r = Inr plan \<and> mc_db s' = mc_db s \<and> distinct (map pe_name plan) \<and> length plan \<le> 2000
     \<and> list_all (plan_entry_ok (all_package_names (mc_db s) repo) (composer_upstreams (now_of L s) (mc_db s) repo)) plan
     \<and> (length plan = 2000 \<or> (\<forall>(pkg, dep)\<in>set (repo_direct_requires (mc_db s) repo). is_package dep \<longrightarrow> dep \<in> pe_name ` set plan))
     \<and> replace_dependency_plan (mc_db s') repo plan = Inr db' \<and> mset (list_dependency_plan db' repo) = mset plan"
proof -
  let ?db = "mc_db s"
  let ?present = "all_package_names ?db repo" and ?ups = "composer_upstreams (now_of L s) ?db repo"
  obtain plan w' where c: "closure_loop L ?present ?ups (w_net (mc_world s)) [] [] (closure_queue ?db repo) = (plan, w')" by fastforce
  have r: "r = Inr plan" "mc_db s' = ?db"
    using assms(1) c by (auto simp: resolve_closure_def bind_act_def read_db_def on_web_def on_net_def on_part_def)
  have "plan_ok ?present ?ups [] []" by (simp add: plan_ok_def)
  from closure_loop_ok[OF c this] obtain seen where ok: "plan_ok ?present ?ups plan seen"
      and all: "length plan < MAX_CLOSURE \<longrightarrow> (\<forall>(d, by)\<in>set (closure_queue ?db repo). is_package d \<longrightarrow> d \<in> pe_name ` set plan)" by blast
  have "\<forall>e\<in>set plan. case pe_resolver e of None \<Rightarrow> True | Some u \<Rightarrow> exists_where (\<lambda>x. ur_id x = u) (upstreams ?db)"
    using ok composer_upstreams_known unfolding plan_ok_def plan_entry_ok_def list_all_iff
    by (fastforce simp: list_ex_iff split: if_splits)
  then have "\<not> list_ex (\<lambda>e. case pe_resolver e of None \<Rightarrow> False | Some u \<Rightarrow> \<not> exists_where (\<lambda>x. ur_id x = u) (upstreams ?db)) plan"
    by (fastforce simp: list_ex_iff split: option.splits)
  then obtain db' where db': "replace_dependency_plan ?db repo plan = Inr db'"
    using ok assms(2) by (auto simp: replace_dependency_plan_def plan_ok_def)
  have "length plan = 2000 \<or> (\<forall>(pkg, dep)\<in>set (repo_direct_requires ?db repo). is_package dep \<longrightarrow> dep \<in> pe_name ` set plan)"
    using all ok by (fastforce simp: MAX_CLOSURE_def closure_queue_def plan_ok_def)
  then show ?thesis using r ok plan_stored[OF db'] db' by (auto simp: plan_ok_def MAX_CLOSURE_def)
qed

lemma probe_requests:
  "(\<And>w url. snd (lib_web L w url) = Suc w) \<Longrightarrow> snd (probe L w dep us) \<le> w + length us"
proof (induction us arbitrary: w)
  case (Cons u us)
  obtain x w1 where f: "fetch_p2 L w (ur_base u) dep = (x, w1)" by fastforce
  then have "w1 = Suc w" using Cons.prems by (auto simp: fetch_p2_def Let_def split_def)
  then show ?case using Cons.IH[of w1] Cons.prems f by (auto split: sum.split option.split)
qed simp

text \<open>C29: Resolving always ends, also against a registry that invents a new dependency in every answer: counting
  the calls of the HTTP library (each one request before the redirects the library follows by itself), the loop
  makes at most 2000 per upstream.\<close>

theorem closure_requests_bounded:
  assumes "\<forall>w url. snd (lib_web L w url) = Suc w"
  shows "snd (closure_loop L present ups w [] [] queue) \<le> w + 2000 * length ups"
proof -
  have "snd (closure_loop L present ups w plan seen queue) \<le> w + (MAX_CLOSURE - length plan) * length ups" for plan seen queue
    using assms
  proof (induction L present ups w plan seen queue rule: closure_loop.induct)
    case (2 L present ups w plan seen dep "by" queue)
    show ?case
    proof (cases "(\<not> is_package dep \<or> dep \<in> set seen) \<or> MAX_CLOSURE \<le> length plan")
      case True
      then show ?thesis using 2 by auto
    next
      case False
      define n where "n = MAX_CLOSURE - Suc (length plan)"
      have n: "MAX_CLOSURE - length plan = Suc n" using False unfolding n_def by linarith
      show ?thesis
      proof (cases "dep \<in> set present")
        case True
        then show ?thesis using "2.IH"(2) "2.prems" False n by (auto simp: n_def)
      next
        case absent: False
        obtain hit w1 where p: "probe L w dep ups = (hit, w1)" by fastforce
        have w1: "w1 \<le> w + length ups" using probe_requests[of L w dep ups] "2.prems" p by auto
        show ?thesis
          using "2.IH"(3,4)[OF _ _ absent p[symmetric]] False absent p w1 n "2.prems"
          by (cases hit) (fastforce simp: n_def)+
      qed
    qed
  qed simp
  from this[of "[]" "[]" queue] show ?thesis by (simp add: MAX_CLOSURE_def)
qed

section \<open>Credentials in errors\<close>

lemma contains_sub_iff: "contains_sub p s \<longleftrightarrow> (\<exists>a b. s = a @ p @ b)"
proof (induction s)
  case (Cons c s)
  note IH = Cons.IH
  show ?case
  proof
    assume "contains_sub p (c # s)"
    then consider r where "c # s = [] @ p @ r" | a b where "c # s = (c # a) @ p @ b"
      using Cons.IH by (auto simp: starts_with_iff)
    then show "\<exists>a b. c # s = a @ p @ b" by cases blast+
  next
    assume "\<exists>a b. c # s = a @ p @ b"
    then obtain a b where ab: "c # s = a @ p @ b" by blast
    show "contains_sub p (c # s)"
    proof (cases a)
      case Nil
      then have "starts_with p (c # s)" using ab by (simp add: starts_with_iff)
      then show ?thesis by simp
    next
      case (Cons d a')
      then show ?thesis using ab IH by auto
    qed
  qed
qed auto

lemma replace_in_prefix:
  assumes "CHR ''*'' \<notin> set q" "starts_with q (replace_in p ''***'' s)"
  shows "starts_with q s"
  using assms
proof (induction q arbitrary: s)
  case (Cons d q)
  show ?case
  proof (cases "p = [] \<or> s = []")
    case True
    then show ?thesis using Cons.prems by (subst (asm) replace_in.simps) auto
  next
    case False
    then have s: "replace_in p ''***'' s = (if starts_with p s then ''***'' @ replace_in p ''***'' (drop (length p) s)
        else hd s # replace_in p ''***'' (tl s))" by (subst replace_in.simps) simp
    show ?thesis
    proof (cases "starts_with p s")
      case True
      then show ?thesis using Cons.prems s by (simp add: starts_with_def)
    next
      case no: False
      then have "d = hd s" "starts_with q (replace_in p ''***'' (tl s))" using Cons.prems(2) s by (auto simp: starts_with_def)
      with Cons.IH[of "tl s"] Cons.prems(1) False show ?thesis by (cases s) (auto simp: starts_with_def)
    qed
  qed
qed (simp add: starts_with_def)

lemma replace_in_removes:
  assumes "p \<noteq> []" "CHR ''*'' \<notin> set p"
  shows "\<not> contains_sub p (replace_in p ''***'' s)"
proof (induction s rule: length_induct)
  case (1 s)
  show ?case
  proof (cases "s = []")
    case True
    then show ?thesis using assms(1) by (subst replace_in.simps) simp
  next
    case False
    then have s: "replace_in p ''***'' s = (if starts_with p s then ''***'' @ replace_in p ''***'' (drop (length p) s)
        else hd s # replace_in p ''***'' (tl s))" using assms(1) by (subst replace_in.simps) simp
    show ?thesis
    proof (cases "starts_with p s")
      case True
      have "\<not> contains_sub p (replace_in p ''***'' (drop (length p) s))" using 1 False assms(1) by simp
      moreover have "\<not> starts_with p (CHR ''*'' # x)" for x using assms by (cases p) (auto simp: starts_with_def)
      ultimately show ?thesis using s True by simp
    next
      case no: False
      have "\<not> contains_sub p (replace_in p ''***'' (tl s))" using 1 False by simp
      moreover have "\<not> starts_with p (hd s # replace_in p ''***'' (tl s))"
      proof
        assume a: "starts_with p (hd s # replace_in p ''***'' (tl s))"
        then obtain q where "p = hd s # q" "starts_with q (replace_in p ''***'' (tl s))"
          using assms(1) by (cases p) (auto simp: starts_with_def)
        then have "starts_with p s" using replace_in_prefix[of q p "tl s"] assms(2) False by (cases s) (auto simp: starts_with_def)
        with no show False by simp
      qed
      ultimately show ?thesis using s no by simp
    qed
  qed
qed

lemma trim_part: "\<exists>a b. s = a @ trim s @ b"
proof -
  obtain a where "s = a @ trim_start s" using trim_list_suffix trim_start_def by metis
  moreover obtain b where "trim_start s = trim s @ b" unfolding trim_def using trim_end_prefix by metis
  ultimately show ?thesis by metis
qed

text \<open>The error of a failed clone, which is logged and stored as the job's last error, never contains the
  credential, wherever and however often \<open>git\<close> printed it (for a credential without an asterisk, the redaction
  mark's own character).\<close>

theorem clone_error_hides_credential:
  assumes "cred \<noteq> []" "CHR ''*'' \<notin> set cred" and "clone_result (Some cred) (CloneFailed stderr) = Inl (CloneError msg)"
  shows "\<not> contains_sub cred msg"
proof
  assume "contains_sub cred msg"
  moreover have "msg = trim (replace_in cred ''***'' (from_utf8_lossy stderr))"
    using assms by (simp add: redact_def str_replace_def)
  ultimately have "contains_sub cred (replace_in cred ''***'' (from_utf8_lossy stderr))"
    unfolding contains_sub_iff by (metis trim_part append.assoc)
  then show False using replace_in_removes[OF assms(1,2)] by simp
qed

theorem clone_error_hides_credential_witness:
  "clone_result (Some ''u:key'') (CloneFailed (str_bytes ''fatal: auth failed for https://u:key@h/ ''))
     = Inl (CloneError ''fatal: auth failed for https://***@h/'') \<and> \<not> contains_sub ''u:key'' ''fatal: auth failed for https://***@h/''"
proof -
  have "clone_result (Some ''u:key'') (CloneFailed (str_bytes ''fatal: auth failed for https://u:key@h/ ''))
     = Inl (CloneError ''fatal: auth failed for https://***@h/'')"
  proof -
    have "redact (Some ''u:key'') (from_utf8_lossy (str_bytes ''fatal: auth failed for https://u:key@h/ '')) = ''fatal: auth failed for https://***@h/''"
      by code_simp
    then show ?thesis by simp
  qed
  moreover from clone_error_hides_credential[OF _ _ this] have "\<not> contains_sub ''u:key'' ''fatal: auth failed for https://***@h/''" by simp
  ultimately show ?thesis ..
qed

section \<open>Moved tags\<close>

lemma query_Inr: "query err f s = (Inr x, s') \<longleftrightarrow> (\<exists>db. f (mc_next s) (mc_db s) = Inr (x, db) \<and> s' = s\<lparr>mc_db := db, mc_next := Suc (mc_next s)\<rparr>)"
  by (simp add: query_def statement_Inr)

lemma upsert_known_package:
  assumes "upsert_package i db repo name kind src vis = Inr (j, db')" "package_at db repo name = Some p"
  shows "j = p_id p \<and> versions db' = versions db"
  using assms by (auto simp: upsert_package_def Let_def and_then_Inr_iff split: if_splits)

lemma opt_catalog_versions: "opt_catalog up j s = (Inr x, s') \<Longrightarrow> versions (mc_db s') = versions (mc_db s)"
  by (cases up) (auto simp: opt_catalog_def ret_def unit_query_def query_Inr and_then_Inr_iff set_package_upstream_def split: if_splits)

text \<open>A git sync replaces a stored version when its tag moves: the row keeps its identity and its approval, yank
  and hold, and gets the blob and SHA-1 of the new archive, although a report says that once a version is mirrored
  its bytes never change.\<close>

theorem moved_tag_rewrites:
  assumes "bucket_service (rt_http rt) objs"
    and sync: "mirror_tag_version L rt st cp g tag nv stab rel sp name composer report s = (Inr report', s')"
    and archive: "archive_subtree g tag sp = Inr es" "into_zip es = Some z"
    and stored: "package_at (mc_db s) (cp_repo cp) name = Some p" "version_at (mc_db s) (p_id p) nv = Some v"
  shows "version_at (mc_db s') (p_id p) nv = Some (v\<lparr>v_version := tag, v_stability := stab, v_composer := composer,
     v_blob := Some (rt_sha rt z), v_shasum := Some (sha1_hex L z), v_source_ref := None, v_released := rel\<rparr>)"
proof -
  obtain blob s1 s3 j s4 x s5 s7 y where
      put: "put_blob rt st z s = (Inr blob, s1)"
    and up: "query UpsertFailed (\<lambda>newid db. upsert_package newid db (cp_repo cp) name ''git'' (Some (JObj [(''url'', JStr (cp_url cp))])) (cp_visibility cp)) s3 = (Inr j, s4)"
    and s3: "s3 = s1\<lparr>mc_db := upsert_blob (now_of L s1) (mc_db s1) blob (blob_size z)\<rparr>"
    and bound: "opt_catalog (cp_upstream cp) j s4 = (Inr x, s5)"
    and ver: "query SqlFailed (\<lambda>newid db. upsert_package_version newid db j tag nv stab composer (Some blob) (Some (sha1_hex L z)) None rel)
        (s5\<lparr>mc_db := set_package_source_path (mc_db s5) j sp\<rparr>) = (Inr y, s7)"
    and s': "s' = s7"
    using sync archive unfolding mirror_tag_version_def
    by (auto simp: bind_act_Inr change_db_Inr git_attempt_def attempt_def settled_def zip_or_panic_def ret_def Let_def)
  obtain r w where pw: "any_put rt st (mc_world s) z = (r, w)" by fastforce
  then have "r = Inr blob" "mc_db s1 = mc_db s" using put by (auto simp: put_blob_def map_err_Inr)
  with pw blob_store.put_ok[OF any_blob_store[OF assms(1)]] have blob: "blob = rt_sha rt z" by blast
  have s3v: "versions (mc_db s3) = versions (mc_db s)" "package_at (mc_db s3) (cp_repo cp) name = Some p"
    using stored(1) \<open>mc_db s1 = mc_db s\<close> by (auto simp: s3 upsert_blob_def package_at_def)
  obtain db4 where u: "upsert_package (mc_next s3) (mc_db s3) (cp_repo cp) name ''git'' (Some (JObj [(''url'', JStr (cp_url cp))])) (cp_visibility cp) = Inr (j, db4)"
      "mc_db s4 = db4" using up by (auto simp: query_Inr)
  note j = upsert_known_package[OF u(1) s3v(2)]
  have va: "version_at (set_package_source_path (mc_db s5) j sp) (p_id p) nv = Some v"
    using stored(2) j u(2) s3v(1) opt_catalog_versions[OF bound] by (simp add: version_at_def set_package_source_path_def)
  obtain db7 where d: "upsert_package_version (mc_next s5) (set_package_source_path (mc_db s5) j sp) j tag nv stab composer (Some blob) (Some (sha1_hex L z)) None rel = Inr (y, db7)"
      "mc_db s' = db7" using ver s' by (auto simp: query_Inr)
  have db7: "db7 = update_versions (\<lambda>v. v_package v = p_id p \<and> v_normalized v = nv) (\<lambda>v. v\<lparr>v_version := tag, v_stability := stab,
      v_composer := composer, v_blob := Some blob, v_shasum := Some (sha1_hex L z), v_source_ref := None, v_released := rel\<rparr>)
      (set_package_source_path (mc_db s5) j sp)"
    using d(1) va j unfolding upsert_package_version_def by (auto split: if_splits simp del: exists_where_iff)
  show ?thesis
    using va select_one_Some[OF va[unfolded version_at_def]] unfolding d(2) db7 version_at_def blob update_versions_def
    by (simp add: select_one_upd_where)
qed

section \<open>Witnesses\<close>

definition demo_mirror_db :: db where
  "demo_mirror_db = demo_registry\<lparr>packages := [demo_package\<lparr>p_upstream := Some 5\<rparr>], versions := [demo_v1\<lparr>v_shasum := Some ''old'', v_composer := demo_doc\<rparr>],
     blobs := [\<lparr>b_sha = [7], b_size = 1, b_refcount = 1, b_created = 0, b_last_seen = 0\<rparr>],
     upstreams := [demo_upstream\<lparr>ur_repo := 10\<rparr>], requires_t := [\<lparr>uq_upstream = 5, uq_position = 0, uq_kind = ''all'', uq_pattern = [], uq_floor = None\<rparr>],
     jobs := [new_job 7 0 ''mirror_upstream'' (Some 5) None None, new_job 8 1 ''resolve_closure'' None None (Some 10)]\<rparr>"

definition demo_machine :: "(string \<Rightarrow> bytes option) machine" where
  "demo_machine = \<lparr>mc_db = demo_mirror_db, mc_world = demo_world, mc_next = 5000\<rparr>"

theorem composer_sync_immutable_witness:
  "\<exists>r s' v'. mirror_composer_package (demo_libs (\<lambda>w. w)) demo_rt (FsStore ''s'') 5 ''a/b'' demo_machine = (Inr r, s')
     \<and> rp_conflicts r = [(''a/b 1.0'', ''upstream dist shasum changed since it was mirrored'')]
     \<and> v' \<in> set (versions (mc_db s')) \<and> v_blob v' = Some [7] \<and> v_shasum v' = Some ''old''"
proof -
  let ?v = "demo_v1\<lparr>v_shasum := Some ''old'', v_composer := demo_doc\<rparr>"
  let ?run = "mirror_composer_package (demo_libs (\<lambda>w. w)) demo_rt (FsStore ''s'') 5 ''a/b'' demo_machine"
  have r: "fst ?run = Inr (conflict ''a/b 1.0'' ''upstream dist shasum changed since it was mirrored'' empty_report)" by code_simp
  obtain s' where run: "?run = (Inr (conflict ''a/b 1.0'' ''upstream dist shasum changed since it was mirrored'' empty_report), s')"
    using fst_pair[OF r] by blast
  have "?v \<in> set (versions (mc_db demo_machine))" by (simp add: demo_machine_def demo_mirror_db_def)
  from composer_sync_immutable[OF disjI1[OF run] this] obtain v' where v': "v' \<in> set (versions (mc_db s'))" "v' = ?v\<lparr>v_dist_path := v_dist_path v'\<rparr>" by blast
  have "v_blob v' = Some [7] \<and> v_shasum v' = Some ''old''"
    using arg_cong[OF v'(2), of v_blob] arg_cong[OF v'(2), of v_shasum] by (simp add: demo_v1_def)
  with run v'(1) show ?thesis by (auto simp: conflict_def empty_report_def)
qed

theorem closure_plan_witness:
  "\<exists>plan db'. fst (resolve_closure (demo_libs (\<lambda>w. w)) 10 demo_machine) = Inr plan
     \<and> plan = [plan_entry_of ''acme/lib'' ''missing'' None ''a/b''] \<and> replace_dependency_plan demo_mirror_db 10 plan = Inr db'
     \<and> mset (list_dependency_plan db' 10) = mset plan"
proof -
  let ?run = "resolve_closure (demo_libs (\<lambda>w. w)) 10 demo_machine"
  have r: "fst ?run = Inr [plan_entry_of ''acme/lib'' ''missing'' None ''a/b'']" by code_simp
  obtain s' where run: "?run = (Inr [plan_entry_of ''acme/lib'' ''missing'' None ''a/b''], s')" using fst_pair[OF r] by blast
  have "repo_named (mc_db demo_machine) 10 \<noteq> None" by code_simp
  from closure_plan[OF run this] r show ?thesis by (auto simp: demo_machine_def)
qed

theorem closure_requests_bounded_witness:
  "snd (closure_loop (demo_libs Suc) [] [demo_upstream] 0 [] [] [(''acme/lib'', ''a/b''), (''a/b'', ''c/d'')]) \<le> 2000"
proof -
  have "\<forall>w url. snd (lib_web (demo_libs Suc) w url) = Suc w" by (simp add: demo_libs_def)
  from closure_requests_bounded[OF this, of "[]" "[demo_upstream]" 0] show ?thesis by (simp del: closure_loop.simps)
qed

theorem worker_drains_witness:
  "\<exists>db' w. drain (worker_job (demo_libs (\<lambda>w. w)) demo_rt (FsStore ''s'') None) (\<lambda>s. lib_clock (demo_libs (\<lambda>w. w)) (w_net (fst s))) (\<lambda>_. 250) 3
       demo_mirror_db (demo_world, 5000) = Some (Inr db', w)
     \<and> count_where (eligible 100) (jobs db') = 0 \<and> map j_id (jobs db') = [7, 8]"
proof -
  have 1: "distinct (map j_id (jobs demo_mirror_db))" "pending_unique (jobs demo_mirror_db)" by code_simp+
  have 2: "\<forall>w. 98 \<le> lib_clock (demo_libs (\<lambda>w. w)) w \<and> lib_clock (demo_libs (\<lambda>w. w)) w \<le> 102" by (simp add: demo_libs_def)
  have 3: "clones_fit (demo_libs (\<lambda>w. w))" by (simp add: clones_fit_def demo_libs_def)
  have 4: "count_where (eligible 102) (jobs demo_mirror_db) < 3" by code_simp
  have clk: "lib_clock (demo_libs (\<lambda>w. w)) w = 100" for w by (simp add: demo_libs_def)
  have ids: "map j_id (jobs demo_mirror_db) = [7, 8]" by code_simp
  from worker_drains[OF 1 2 _ 3 4, of demo_rt "FsStore ''s''" None "\<lambda>_. 250" "(demo_world, 5000)"]
  show ?thesis unfolding clk ids by auto
qed

definition demo_checkout :: checkout_params where
  "demo_checkout = \<lparr>cp_repo = 10, cp_url = ''https://git.example/a/b'', cp_visibility = Public, cp_upstream = None, cp_sub = []\<rparr>"

theorem moved_tag_rewrites_witness:
  "\<exists>report s' v z. mirror_tag_version (demo_libs (\<lambda>w. w)) demo_rt (FsStore ''s'') demo_checkout demo_git ''v1.0.0'' ''1.0.0.0'' ''stable'' None [] ''a/b'' JNull
       empty_report demo_machine = (Inr report, s')
     \<and> version_at demo_mirror_db 100 ''1.0.0.0'' = Some (demo_v1\<lparr>v_shasum := Some ''old'', v_composer := demo_doc\<rparr>)
     \<and> version_at (mc_db s') 100 ''1.0.0.0'' = Some v \<and> v_id v = v_id demo_v1 \<and> v_blob v = Some (rt_sha demo_rt z)"
proof -
  let ?run = "mirror_tag_version (demo_libs (\<lambda>w. w)) demo_rt (FsStore ''s'') demo_checkout demo_git ''v1.0.0'' ''1.0.0.0'' ''stable'' None [] ''a/b'' JNull
       empty_report demo_machine"
  let ?r = "mirrored_one \<lparr>mi_tag = ''v1.0.0'', mi_package = ''a/b'', mi_normalized = ''1.0.0.0'', mi_stability = ''stable''\<rparr> empty_report"
  have r: "fst ?run = Inr ?r" by code_simp
  have a: "archive_subtree demo_git ''v1.0.0'' [] = Inr [entry_new ''composer.json'' File [1]]" by code_simp
  have "into_zip [entry_new ''composer.json'' File [1]] \<noteq> None" by code_simp
  then obtain z where z: "into_zip [entry_new ''composer.json'' File [1]] = Some z" by blast
  have p: "package_at (mc_db demo_machine) (cp_repo demo_checkout) ''a/b'' = Some (demo_package\<lparr>p_upstream := Some 5\<rparr>)" by code_simp
  have v: "version_at (mc_db demo_machine) (p_id (demo_package\<lparr>p_upstream := Some 5\<rparr>)) ''1.0.0.0'' = Some (demo_v1\<lparr>v_shasum := Some ''old'', v_composer := demo_doc\<rparr>)" by code_simp
  have i: "p_id (demo_package\<lparr>p_upstream := Some 5\<rparr>) = 100" by (simp add: demo_package_def)
  have b: "bucket_service (rt_http demo_rt) (\<lambda>w. w)" by (simp add: demo_rt_def demo_bucket_service)
  obtain s' where run: "?run = (Inr ?r, s')" using fst_pair[OF r] by blast
  note m = moved_tag_rewrites[OF b run a z p v, unfolded i]
  have db: "mc_db demo_machine = demo_mirror_db" by (simp add: demo_machine_def)
  show ?thesis
    using run v[unfolded i db] m by (intro exI[of _ ?r] exI[of _ s'] exI[of _ z] exI conjI) (assumption | simp)+
qed

text \<open>A registry that is merely down makes the plan say \<open>missing\<close>, the status of a package no registry has.\<close>

lemma outage_recorded_as_missing:
  assumes "is_package dep" "dep \<notin> set present" and down: "\<And>w url. lib_web L w url = (ErrorStatus 503, w)"
  shows "fst (closure_loop L present ups w [] [] [(dep, by)]) = [plan_entry_of dep ''missing'' None by]"
proof -
  have "probe L w dep us = (None, w)" for us
    by (induction us) (simp_all add: fetch_p2_def down)
  then show ?thesis using assms by (simp add: MAX_CLOSURE_def)
qed

end
