(* ===== verification/Publish.thy ===== *)
theory Publish
  imports Jobs Effects
begin

text \<open>
  Publishing and snapshots: the upload sessions of the catalog (\<open>crates/sconce-catalog/src/lib.rs\<close>), the push API of
  \<open>crates/sconce-server/src/publish.rs\<close> (single-shot and chunked uploads, the untar and re-archive pipeline, the persisted
  version) and the dataset API of \<open>crates/sconce-server/src/snapshots.rs\<close>. A handler is an operation of \<open>Effects\<close> whose
  error is the server's \<open>AppError\<close>. The environment variables, gunzip with untar, SHA-1, the JSON parser and the semver
  crate are fields of \<open>site\<close>. Path ids and bodies are what axum's extractors hand over.
\<close>

unbundle bit_operations_syntax

section \<open>Upload sessions\<close>

definition new_upload :: "uuid \<Rightarrow> uuid \<Rightarrow> time \<Rightarrow> upload_row" where
  "new_upload newid repo expires = \<lparr>us_id = newid, us_repo = repo, us_kind = ''package'', us_vendor = None, us_name = None,
     us_version = None, us_env = None, us_profile = None, us_visibility = None, us_status = ''open'', us_expires = expires\<rparr>"

definition insert_session :: "upload_row \<Rightarrow> db \<Rightarrow> (sql_error, uuid \<times> db) result" where
  "insert_session u db =
     (if \<not> exists_where (\<lambda>r. r_id r = us_repo u) (repos db) then Inl (ForeignKeyViolation ''repo_id'')
      else Inr (us_id u, db\<lparr>uploads := uploads db @ [u]\<rparr>))"

definition create_upload_session :: "uuid \<Rightarrow> time \<Rightarrow> db \<Rightarrow> uuid \<Rightarrow> string \<Rightarrow> string \<Rightarrow> string \<Rightarrow> visibility option \<Rightarrow> int
    \<Rightarrow> (sql_error, uuid \<times> db) result" where
  "create_upload_session newid now db repo vendor name version vis ttl = insert_session
     ((new_upload newid repo (now + ttl))\<lparr>us_vendor := Some vendor, us_name := Some name, us_version := Some version,
        us_visibility := vis\<rparr>) db"

definition create_snapshot_upload_session :: "uuid \<Rightarrow> time \<Rightarrow> db \<Rightarrow> uuid \<Rightarrow> string \<Rightarrow> string \<Rightarrow> int \<Rightarrow> (sql_error, uuid \<times> db) result" where
  "create_snapshot_upload_session newid now db repo env profile ttl = insert_session
     ((new_upload newid repo (now + ttl))\<lparr>us_kind := ''snapshot'', us_env := Some env, us_profile := Some profile\<rparr>) db"

definition upload_session :: "db \<Rightarrow> uuid \<Rightarrow> upload_row option" where
  "upload_session db i = select_one (\<lambda>u. us_id u = i) (uploads db)"

definition record_upload_part :: "db \<Rightarrow> uuid \<Rightarrow> int \<Rightarrow> sha256 \<Rightarrow> int \<Rightarrow> (sql_error, db) result" where
  "record_upload_part db session n sha size_bytes = (let here = (\<lambda>p. up_session p = session \<and> up_number p = n) in
     if \<not> exists_where (\<lambda>u. us_id u = session) (uploads db) then Inl (ForeignKeyViolation ''session_id'')
     else if exists_where here (parts db)
     then Inr (db\<lparr>parts := upd_where here (\<lambda>p. p\<lparr>up_sha := sha, up_size := size_bytes\<rparr>) (parts db)\<rparr>)
     else Inr (db\<lparr>parts := parts db @ [\<lparr>up_session = session, up_number = n, up_sha = sha, up_size = size_bytes\<rparr>]\<rparr>))"

definition upload_parts :: "db \<Rightarrow> uuid \<Rightarrow> part_row list" where
  "upload_parts db session = sort_key up_number (filter (\<lambda>p. up_session p = session) (parts db))"

definition set_upload_status :: "db \<Rightarrow> uuid \<Rightarrow> string \<Rightarrow> db" where
  "set_upload_status db i status = db\<lparr>uploads := upd_where (\<lambda>u. us_id u = i) (\<lambda>u. u\<lparr>us_status := status\<rparr>) (uploads db)\<rparr>"

definition expire_upload_sessions :: "time \<Rightarrow> db \<Rightarrow> nat \<times> db" where
  "expire_upload_sessions now db = (let due = (\<lambda>u. us_status u = ''open'' \<and> us_expires u \<le> now)
     in (count_where due (uploads db), db\<lparr>uploads := upd_where due (\<lambda>u. u\<lparr>us_status := ''aborted''\<rparr>) (uploads db)\<rparr>))"

section \<open>Parameters\<close>

datatype tar_kind = TarDir | TarSymlink | TarFile | TarOther

text \<open>An entry as the \<open>tar\<close> crate reads it; \<open>None\<close> is the call's error.\<close>

record tar_entry =
  te_kind :: tar_kind
  te_path :: "bytes option"
  te_link :: "bytes option option"
  te_mode :: "32 word option"
  te_content :: "bytes option"

record ('v, 'w) site =
  si_app :: "('v, 'w) app"
  si_libs :: "'w libs"
  si_env :: "string \<Rightarrow> string option"
  si_untar :: "bytes \<Rightarrow> tar_entry option list option"

type_synonym ('w, 'a) handler = "(app_error, 'w, 'a) eff"

datatype answer = Answered nat json | Opened uuid int int | NoContent | SessionStatus uuid string json | Redirected string | Octets bytes

definition UPLOAD_TTL_SECS :: int where
  "UPLOAD_TTL_SECS = 24 * 3600"

definition parse_u64 :: "string \<Rightarrow> int option" where
  "parse_u64 s = (case dec_nat (case s of [] \<Rightarrow> [] | c # r \<Rightarrow> if c = CHR ''+'' then r else s) of
     None \<Rightarrow> None | Some n \<Rightarrow> if n < 2 ^ 64 then Some n else None)"

definition env_bytes :: "(string \<Rightarrow> string option) \<Rightarrow> string \<Rightarrow> int \<Rightarrow> int" where
  "env_bytes env key dflt = (case Option.bind (env key) parse_u64 of Some n \<Rightarrow> n | None \<Rightarrow> dflt)"

definition max_upload_bytes :: "('v, 'w) site \<Rightarrow> int" where
  "max_upload_bytes z = env_bytes (si_env z) ''SCONCE_MAX_UPLOAD_BYTES'' (100 * 1024 * 1024)"

definition max_package_bytes :: "('v, 'w) site \<Rightarrow> int" where
  "max_package_bytes z = env_bytes (si_env z) ''SCONCE_MAX_PACKAGE_BYTES'' (1024 * 1024 * 1024)"

definition max_snapshot_bytes :: "('v, 'w) site \<Rightarrow> int" where
  "max_snapshot_bytes z = env_bytes (si_env z) ''SCONCE_MAX_SNAPSHOT_BYTES'' (2 * 1024 * 1024 * 1024)"

section \<open>Who may publish\<close>

definition publish_authed_repo :: "('v, 'w) site \<Rightarrow> string \<Rightarrow> string \<Rightarrow> request \<Rightarrow> ('w, uuid) handler" where
  "publish_authed_repo z org repo rq = (let a = si_app z in
     bind_act (need AppUnauthorized (extract_token (app_b64 a) rq)) (\<lambda>token.
     bind_act (stamping (\<lambda>db. resolve_publish_token (rt_sha (app_rt a)) (app_now a) db token)) (\<lambda>found.
     bind_act (need AppUnauthorized found) (\<lambda>token_repo.
     bind_act (read_db (\<lambda>db. resolve_repo db org repo)) (\<lambda>path.
     bind_act (need AppNotFound path) (\<lambda>path_repo.
     settled (if token_repo = path_repo then Inr path_repo else Inl AppForbidden)))))))"

definition query_visibility :: "string option \<Rightarrow> (app_error, visibility option) result" where
  "query_visibility q = (case q of None \<Rightarrow> Inr None
   | Some v \<Rightarrow> (case parse_visibility v of Some vis \<Rightarrow> Inr (Some vis)
      | None \<Rightarrow> Inl (AppBadRequest (''visibility must be `public` or `private`, not `'' @ v @ ''`''))))"

text \<open>Load a session and require that it belongs to the repository and is still open.\<close>

definition session_of :: "uuid \<Rightarrow> uuid \<Rightarrow> ('w, upload_row) handler" where
  "session_of upload repo = bind_act (read_db (\<lambda>db. upload_session db upload)) (\<lambda>found.
     bind_act (need AppNotFound found) (\<lambda>u. settled (if us_repo u \<noteq> repo then Inl AppForbidden else Inr u)))"

definition open_session :: "uuid \<Rightarrow> uuid \<Rightarrow> ('w, upload_row) handler" where
  "open_session upload repo = bind_act (session_of upload repo) (\<lambda>u.
     settled (if us_status u \<noteq> ''open'' then Inl (AppConflict ''upload session is not open'') else Inr u))"

section \<open>The ingest pipeline\<close>

record prepared =
  pre_blob :: sha256
  pre_size :: int
  pre_composer :: json
  pre_shasum :: string

text \<open>\<open>PrepareError\<close>, and the panic of \<open>into_zip\<close> on an archive beyond the ZIP format, which the join turns into a
  storage error (a release build aborts on it instead).\<close>

datatype prepare_error = Bad string | TooLarge | Gone | Io io_error | Unwound

fun prepare_answer :: "prepare_error \<Rightarrow> app_error" where
  "prepare_answer (Bad m) = AppBadRequest m"
| "prepare_answer TooLarge = AppPayloadTooLarge"
| "prepare_answer Gone = AppGone"
| "prepare_answer (Io e) = AppStorage e"
| "prepare_answer Unwound = AppStorage ''task panicked''"

definition map_failure :: "('e \<Rightarrow> 'f) \<Rightarrow> ('e, 'w, 'a) eff \<Rightarrow> ('f, 'w, 'a) eff" where
  "map_failure f m s = (case m s of (r, s) \<Rightarrow> (map_err f r, s))"

definition spawn_prepare :: "(prepare_error, 'w, prepared) eff \<Rightarrow> ('w, prepared) handler" where
  "spawn_prepare m = map_failure prepare_answer m"

definition store_put :: "(io_error \<Rightarrow> 'e) \<Rightarrow> ('v, 'w) site \<Rightarrow> bytes \<Rightarrow> ('e, 'w, sha256) eff" where
  "store_put err z bs = on_world err (\<lambda>w. any_put (app_rt (si_app z)) (app_store (si_app z)) w bs)"

definition store_get :: "(io_error \<Rightarrow> 'e) \<Rightarrow> ('v, 'w) site \<Rightarrow> sha256 \<Rightarrow> ('e, 'w, bytes option) eff" where
  "store_get err z i = on_world err (\<lambda>w. any_get (app_rt (si_app z)) (app_store (si_app z)) w i)"

definition saturating_u64 :: "int \<Rightarrow> int" where
  "saturating_u64 n = min n (2 ^ 64 - 1)"

record unpacking =
  un_entries :: "entry list"
  un_composer :: "json option"
  un_bytes :: int

text \<open>\<open>Path::components\<close>: the parent component is a piece \<open>..\<close> between slashes.\<close>

definition has_parent :: "string \<Rightarrow> bool" where
  "has_parent path \<longleftrightarrow> ''..'' \<in> set (split_on (CHR ''/'') path)"

definition raw_path :: "bytes \<Rightarrow> string" where
  "raw_path = map (\<lambda>b. char_of (unat b))"

definition relative_path :: "bytes \<Rightarrow> string" where
  "relative_path raw = (let rel = map (\<lambda>c. if c = CHR 0x5C then CHR ''/'' else c) (from_utf8_lossy raw)
     in case strip_prefix ''./'' rel of Some r \<Rightarrow> r | None \<Rightarrow> rel)"

definition unpack_file :: "('v, 'w) site \<Rightarrow> int \<Rightarrow> string \<Rightarrow> tar_entry \<Rightarrow> unpacking \<Rightarrow> (prepare_error, unpacking) result" where
  "unpack_file z cap rel e u = (let mode = (case te_mode e of Some m \<Rightarrow> m | None \<Rightarrow> 0x1A4) in
     and_then (ok_or (Bad ''could not read a tar entry'') (te_content e)) (\<lambda>content.
     let total = saturating_u64 (un_bytes u + int (length content)) in
     if total > cap then Inl TooLarge
     else and_then (if rel = ''composer.json''
         then and_then (ok_or (Bad ''composer.json is not valid JSON'') (lib_json (si_libs z) content)) (\<lambda>j. Inr (Some j))
         else Inr (un_composer u)) (\<lambda>composer.
       Inr \<lparr>un_entries = un_entries u @ [entry_new rel (if mode AND 0x49 \<noteq> 0 then Executable else File) content],
            un_composer = composer, un_bytes = total\<rparr>)))"

definition unpack_link :: "string \<Rightarrow> tar_entry \<Rightarrow> unpacking \<Rightarrow> (prepare_error, unpacking) result" where
  "unpack_link rel e u = and_then (ok_or (Bad ''bad symlink in archive'') (te_link e)) (\<lambda>l.
     and_then (ok_or (Bad ''symlink without a target'') l) (\<lambda>target.
     Inr (u\<lparr>un_entries := un_entries u @ [entry_new rel Symlink (str_bytes (from_utf8_lossy target))]\<rparr>)))"

definition unpack_entry :: "('v, 'w) site \<Rightarrow> int \<Rightarrow> tar_entry option \<Rightarrow> unpacking \<Rightarrow> (prepare_error, unpacking) result" where
  "unpack_entry z cap found u = and_then (ok_or (Bad ''corrupt tar entry'') found) (\<lambda>e.
     and_then (ok_or (Bad ''tar entry has a non-UTF-8 path'') (te_path e)) (\<lambda>raw.
     if has_parent (raw_path raw) then Inl (Bad (''illegal path in archive: '' @ from_utf8_lossy raw))
     else let rel = relative_path raw in
       if rel = [] then Inr u
       else case te_kind e of TarDir \<Rightarrow> Inr u | TarSymlink \<Rightarrow> unpack_link rel e u
         | TarFile \<Rightarrow> unpack_file z cap rel e u | TarOther \<Rightarrow> Inr u))"

fun unpack :: "('v, 'w) site \<Rightarrow> int \<Rightarrow> tar_entry option list \<Rightarrow> unpacking \<Rightarrow> (prepare_error, unpacking) result" where
  "unpack z cap [] u = Inr u"
| "unpack z cap (e # es) u = and_then (unpack_entry z cap e u) (unpack z cap es)"

definition quoted :: "string \<Rightarrow> string" where
  "quoted t = [CHR 0x22] @ t @ [CHR 0x22]"

definition checked_tree :: "('v, 'w) site \<Rightarrow> bytes \<Rightarrow> string \<Rightarrow> int \<Rightarrow> (prepare_error, json \<times> entry list) result" where
  "checked_tree z input expected cap =
     and_then (ok_or (Bad (''body is not a valid gzip'' @ [CHR 0x27] @ ''d tar'')) (si_untar z input)) (\<lambda>es.
     and_then (unpack z cap es \<lparr>un_entries = [], un_composer = None, un_bytes = 0\<rparr>) (\<lambda>u.
     and_then (ok_or (Bad ''archive has no composer.json at its root'') (un_composer u)) (\<lambda>composer.
     and_then (ok_or (Bad (''composer.json has no '' @ quoted ''name'' @ '' field'')) (json_str (json_get ''name'' composer))) (\<lambda>name.
     if name \<noteq> expected then Inl (Bad (''composer.json name '' @ quoted name @ '' does not match the upload path '' @ quoted expected))
     else if un_entries u = [] then Inl (Bad ''archive is empty'')
     else Inr (composer, un_entries u)))))"

definition archive_targz :: "('v, 'w) site \<Rightarrow> bytes \<Rightarrow> string \<Rightarrow> int \<Rightarrow> (prepare_error, 'w, prepared) eff" where
  "archive_targz z input expected cap =
     bind_act (settled (checked_tree z input expected cap)) (\<lambda>(composer, es).
     bind_act (need Unwound (into_zip es)) (\<lambda>zip.
     bind_act (store_put Io z zip) (\<lambda>blob.
     ret \<lparr>pre_blob = blob, pre_size = blob_size zip, pre_composer = composer, pre_shasum = sha1_hex (si_libs z) zip\<rparr>)))"

text \<open>The chunks of an upload read back in order, never holding more than \<open>cap\<close> bytes. Packages and snapshots assemble
  the same way and differ in their errors.\<close>

fun gather :: "(io_error \<Rightarrow> 'e) \<Rightarrow> 'e \<Rightarrow> 'e \<Rightarrow> ('v, 'w) site \<Rightarrow> int \<Rightarrow> sha256 list \<Rightarrow> bytes \<Rightarrow> ('e, 'w, bytes) eff" where
  "gather io gone too_large z cap [] input = ret input"
| "gather io gone too_large z cap (i # ids) input =
     bind_act (store_get io z i) (\<lambda>found. bind_act (need gone found) (\<lambda>chunk.
     if int (length (input @ chunk)) > cap then settled (Inl too_large)
     else gather io gone too_large z cap ids (input @ chunk)))"

definition assembled :: "(io_error \<Rightarrow> 'e) \<Rightarrow> 'e \<Rightarrow> 'e \<Rightarrow> (string \<Rightarrow> 'e) \<Rightarrow> ('v, 'w) site \<Rightarrow> sha256 list \<Rightarrow> sha256 \<Rightarrow> int \<Rightarrow> ('e, 'w, bytes) eff" where
  "assembled io gone too_large bad z ids expected_sha cap = bind_act (gather io gone too_large z cap ids []) (\<lambda>input.
     settled (if rt_sha (app_rt (si_app z)) input \<noteq> expected_sha
       then Inl (bad ''assembled upload does not match the declared sha256'') else Inr input))"

definition assemble_and_archive :: "('v, 'w) site \<Rightarrow> sha256 list \<Rightarrow> sha256 \<Rightarrow> string \<Rightarrow> int \<Rightarrow> (prepare_error, 'w, prepared) eff" where
  "assemble_and_archive z ids expected_sha expected cap =
     bind_act (assembled Io Gone TooLarge Bad z ids expected_sha cap) (\<lambda>input. archive_targz z input expected cap)"

section \<open>Persisting\<close>

definition normalize_version :: "('v, 'w) site \<Rightarrow> string \<Rightarrow> (string \<times> string) option" where
  "normalize_version z v = (case lib_version (si_libs z) v of None \<Rightarrow> None
     | Some p \<Rightarrow> if sv_numeric p then Some (sv_normalized p, sv_stability p) else None)"

fun policy_error :: "upsert_error \<Rightarrow> app_error" where
  "policy_error (UpsertPolicy m) = AppBadRequest m"
| "policy_error (UpsertDb e) = AppCatalog e"

definition visibility_text :: "visibility \<Rightarrow> string" where
  "visibility_text v = (case v of Public \<Rightarrow> ''public'' | Private \<Rightarrow> ''private'')"

text \<open>The visibility a publish writes: that of the package when it exists, a request for another one being a conflict;
  otherwise the requested one, or the repository's default.\<close>

definition publish_visibility :: "db \<Rightarrow> uuid \<Rightarrow> string \<Rightarrow> visibility option \<Rightarrow> (app_error, visibility) result" where
  "publish_visibility db repo pkg requested = (case package_visibility_of db repo pkg of
     Some current \<Rightarrow> if requested \<noteq> None \<and> requested \<noteq> Some (pv_visibility current)
       then Inl (AppConflict (pkg @ '' is '' @ visibility_text (pv_visibility current) @ ''; publishing does not change a package''
         @ [CHR 0x27] @ ''s visibility (use `sconce package visibility`)''))
       else Inr (pv_visibility current)
   | None \<Rightarrow> (case requested of Some asked \<Rightarrow> Inr asked
     | None \<Rightarrow> and_then (map_err AppCatalog (repo_settings_of db repo)) (\<lambda>st. Inr (if st_allow_private st then Private else Public))))"

definition UPLOAD_SOURCE :: json where
  "UPLOAD_SOURCE = JObj [(''kind'', JStr ''upload'')]"

text \<open>The steps of \<open>persist\<close> up to the version: the blob's row, the package and, when the publish created it on request, its
  declared visibility.\<close>

definition persist_package :: "('v, 'w) site \<Rightarrow> uuid \<Rightarrow> string \<Rightarrow> string \<Rightarrow> visibility option \<Rightarrow> prepared
    \<Rightarrow> ('w, (string \<times> string) \<times> uuid) handler" where
  "persist_package z repo pkg version requested p = (let a = si_app z in
     bind_act (need (AppBadRequest (quoted version @ '' is not a numeric Composer version (e.g. 1.2.0, v2.0.0-beta1)''))
       (normalize_version z version)) (\<lambda>normalized.
     bind_act (read_db (\<lambda>db. package_visibility_of db repo pkg)) (\<lambda>existing.
     bind_act (read_db (\<lambda>db. publish_visibility db repo pkg requested)) (\<lambda>chosen.
     bind_act (settled chosen) (\<lambda>visibility.
     bind_act (change_db (\<lambda>db. upsert_blob (app_now a) db (pre_blob p) (pre_size p))) (\<lambda>_.
     bind_act (statement policy_error (\<lambda>newid db. upsert_package newid db repo pkg ''upload'' (Some UPLOAD_SOURCE) visibility)) (\<lambda>package.
     bind_act (if existing = None \<and> requested \<noteq> None
         then statement policy_error (\<lambda>_ db. set_package_visibility (app_now a) db repo pkg visibility) else ret False) (\<lambda>_.
     ret (normalized, package)))))))))"

definition persist :: "('v, 'w) site \<Rightarrow> uuid \<Rightarrow> string \<Rightarrow> string \<Rightarrow> string \<Rightarrow> visibility option \<Rightarrow> prepared \<Rightarrow> ('w, publish_outcome) handler" where
  "persist z repo vendor name version requested p =
     bind_act (persist_package z repo (vendor @ ''/'' @ name) version requested p) (\<lambda>((nv, stability), package).
     statement AppCatalog (\<lambda>newid db. insert_pushed_version newid db package version nv stability (pre_composer p) (pre_blob p)
       (pre_shasum p) (app_now (si_app z))))"

fun publish_response :: "publish_outcome \<Rightarrow> answer" where
  "publish_response Created = Answered 201 (JObj [(''status'', JStr ''created'')])"
| "publish_response AlreadyPublished = Answered 200 (JObj [(''status'', JStr ''exists'')])"
| "publish_response Conflict = Answered 409 (JObj [(''status'', JStr ''conflict''),
     (''error'', JStr ''this version is already published with different contents'')])"

section \<open>Publishing\<close>

definition publish_body :: "('v, 'w) site \<Rightarrow> uuid \<Rightarrow> string \<Rightarrow> string \<Rightarrow> string \<Rightarrow> visibility option \<Rightarrow> bytes \<Rightarrow> ('w, answer) handler" where
  "publish_body z repo vendor name version requested body =
     bind_act (spawn_prepare (archive_targz z body (vendor @ ''/'' @ name) (max_package_bytes z))) (\<lambda>p.
     bind_act (persist z repo vendor name version requested p) (\<lambda>outcome. ret (publish_response outcome)))"

definition publish_single :: "('v, 'w) site \<Rightarrow> string \<Rightarrow> string \<Rightarrow> string \<Rightarrow> string \<Rightarrow> string \<Rightarrow> string option \<Rightarrow> bytes \<Rightarrow> request \<Rightarrow> ('w, answer) handler" where
  "publish_single z org repo vendor name version q body rq =
     bind_act (publish_authed_repo z org repo rq) (\<lambda>repo_id.
     bind_act (settled (query_visibility q)) (\<lambda>requested.
     publish_body z repo_id vendor name version requested body))"

definition upload_init :: "('v, 'w) site \<Rightarrow> string \<Rightarrow> string \<Rightarrow> string \<Rightarrow> string \<Rightarrow> string \<Rightarrow> string option \<Rightarrow> request \<Rightarrow> ('w, answer) handler" where
  "upload_init z org repo vendor name version q rq =
     bind_act (publish_authed_repo z org repo rq) (\<lambda>repo_id.
     bind_act (settled (query_visibility q)) (\<lambda>requested.
     bind_act (statement AppCatalog (\<lambda>newid db. create_upload_session newid (app_now (si_app z)) db repo_id vendor name version requested UPLOAD_TTL_SECS)) (\<lambda>i.
     ret (Opened i (max_upload_bytes z) (max_package_bytes z)))))"

definition upload_part :: "('v, 'w) site \<Rightarrow> string \<Rightarrow> string \<Rightarrow> uuid \<Rightarrow> int \<Rightarrow> bytes \<Rightarrow> request \<Rightarrow> ('w, answer) handler" where
  "upload_part z org repo upload n body rq =
     bind_act (publish_authed_repo z org repo rq) (\<lambda>repo_id.
     bind_act (open_session upload repo_id) (\<lambda>_.
     if n < 1 then settled (Inl (AppBadRequest ''part number must be >= 1''))
     else bind_act (store_put AppStorage z body) (\<lambda>blob.
     bind_act (change_db (\<lambda>db. upsert_blob (app_now (si_app z)) db blob (blob_size body))) (\<lambda>_.
     bind_act (statement AppCatalog (\<lambda>_ db. and_then (record_upload_part db upload n blob (blob_size body)) (\<lambda>db. Inr ((), db)))) (\<lambda>_.
     ret NoContent)))))"

definition part_json :: "part_row \<Rightarrow> json" where
  "part_json p = JObj [(''part_number'', JNum (up_number p)), (''sha256'', JStr (hex (up_sha p))), (''size'', JNum (up_size p))]"

definition upload_status :: "('v, 'w) site \<Rightarrow> string \<Rightarrow> string \<Rightarrow> uuid \<Rightarrow> request \<Rightarrow> ('w, answer) handler" where
  "upload_status z org repo upload rq =
     bind_act (publish_authed_repo z org repo rq) (\<lambda>repo_id.
     bind_act (session_of upload repo_id) (\<lambda>u.
     bind_act (read_db (\<lambda>db. upload_parts db upload)) (\<lambda>ps.
     ret (SessionStatus (us_id u) (us_status u) (JArr (map part_json ps))))))"

definition upload_abort :: "('v, 'w) site \<Rightarrow> string \<Rightarrow> string \<Rightarrow> uuid \<Rightarrow> request \<Rightarrow> ('w, answer) handler" where
  "upload_abort z org repo upload rq =
     bind_act (publish_authed_repo z org repo rq) (\<lambda>repo_id.
     bind_act (session_of upload repo_id) (\<lambda>u.
     bind_act (change_db (\<lambda>db. set_upload_status db upload ''aborted'')) (\<lambda>_. ret NoContent)))"

section \<open>Snapshots\<close>

definition DEFAULT_PROFILE :: string where
  "DEFAULT_PROFILE = ''full''"

definition SNAPSHOT_TTL_SECS :: int where
  "SNAPSHOT_TTL_SECS = 24 * 3600"

definition PRESIGN_SECS :: nat where
  "PRESIGN_SECS = 300"

definition profile_name :: "string option \<Rightarrow> string" where
  "profile_name q = (case map_option trim q of Some p \<Rightarrow> if p \<noteq> [] then p else DEFAULT_PROFILE | None \<Rightarrow> DEFAULT_PROFILE)"

definition register_snapshot :: "('v, 'w) site \<Rightarrow> uuid \<Rightarrow> string \<Rightarrow> string \<Rightarrow> sha256 \<Rightarrow> int \<Rightarrow> ('w, uuid) handler" where
  "register_snapshot z repo env profile blob size_bytes =
     bind_act (change_db (\<lambda>db. upsert_blob (app_now (si_app z)) db blob size_bytes)) (\<lambda>_.
     bind_act (statement AppCatalog (\<lambda>newid db. create_snapshot newid (app_now (si_app z)) db repo env profile blob size_bytes None)) (\<lambda>i.
     bind_act (statement AppCatalog (\<lambda>_ db. and_then (advance_latest db repo env profile i) (\<lambda>db. Inr ((), db)))) (\<lambda>_. ret i)))"

definition created_response :: "string \<Rightarrow> string \<Rightarrow> sha256 \<Rightarrow> answer" where
  "created_response env profile blob = Answered 201 (JObj [(''status'', JStr ''created''), (''environment'', JStr env),
     (''profile'', JStr profile), (''digest'', JStr (to_hex blob))])"

definition snapshot_upload_single :: "('v, 'w) site \<Rightarrow> string \<Rightarrow> string \<Rightarrow> string \<Rightarrow> string option \<Rightarrow> bytes \<Rightarrow> request \<Rightarrow> ('w, answer) handler" where
  "snapshot_upload_single z org repo env q body rq =
     bind_act (publish_authed_repo z org repo rq) (\<lambda>repo_id.
     bind_act (store_put AppStorage z body) (\<lambda>blob.
     bind_act (register_snapshot z repo_id env (profile_name q) blob (blob_size body)) (\<lambda>_.
     ret (created_response env (profile_name q) blob))))"

definition snapshot_upload_init :: "('v, 'w) site \<Rightarrow> string \<Rightarrow> string \<Rightarrow> string \<Rightarrow> string option \<Rightarrow> request \<Rightarrow> ('w, answer) handler" where
  "snapshot_upload_init z org repo env q rq =
     bind_act (publish_authed_repo z org repo rq) (\<lambda>repo_id.
     bind_act (statement AppCatalog (\<lambda>newid db. create_snapshot_upload_session newid (app_now (si_app z)) db repo_id env (profile_name q) SNAPSHOT_TTL_SECS)) (\<lambda>i.
     ret (Opened i (max_upload_bytes z) (max_snapshot_bytes z))))"

definition assemble_snapshot :: "('v, 'w) site \<Rightarrow> sha256 list \<Rightarrow> sha256 \<Rightarrow> int \<Rightarrow> ('w, sha256 \<times> int) handler" where
  "assemble_snapshot z ids expected_sha cap =
     bind_act (assembled AppStorage AppGone AppPayloadTooLarge AppBadRequest z ids expected_sha cap) (\<lambda>input.
     bind_act (store_put AppStorage z input) (\<lambda>blob. ret (blob, blob_size input)))"

definition or_default :: "string option \<Rightarrow> string \<Rightarrow> string" where
  "or_default x d = (case x of Some s \<Rightarrow> s | None \<Rightarrow> d)"

definition finish_upload :: "('v, 'w) site \<Rightarrow> upload_row \<Rightarrow> sha256 list \<Rightarrow> sha256 \<Rightarrow> int \<Rightarrow> ('w, answer) handler" where
  "finish_upload z session ids expected_sha staged =
     (if staged > max_snapshot_bytes z then settled (Inl AppPayloadTooLarge)
      else let env = or_default (us_env session) []; profile = or_default (us_profile session) DEFAULT_PROFILE
      in bind_act (assemble_snapshot z ids expected_sha (max_snapshot_bytes z)) (\<lambda>(blob, size_bytes).
         bind_act (register_snapshot z (us_repo session) env profile blob size_bytes) (\<lambda>_.
         ret (created_response env profile blob))))"

definition authorize_read :: "('v, 'w) site \<Rightarrow> string \<Rightarrow> string \<Rightarrow> request \<Rightarrow> ('w, uuid) handler" where
  "authorize_read z org repo rq = (let a = si_app z in
     bind_act (read_db (\<lambda>db. resolve_repo db org repo)) (\<lambda>found.
     bind_act (need AppNotFound found) (\<lambda>repo_id.
     bind_act (need AppUnauthorized (extract_token (app_b64 a) rq)) (\<lambda>token.
     bind_act (stamping (\<lambda>db. token_valid (rt_sha (app_rt a)) (app_now a) db repo_id token)) (\<lambda>valid.
     settled (if \<not> valid then Inl AppUnauthorized else Inr repo_id))))))"

definition serve_snapshot_blob :: "('v, 'w) site \<Rightarrow> sha256 \<Rightarrow> ('w, answer) handler" where
  "serve_snapshot_blob z blob = (let a = si_app z in case any_presigned (app_rt a) (app_store a) blob PRESIGN_SECS of
     Some url \<Rightarrow> bind_act (on_world AppStorage (\<lambda>w. any_exists (app_rt a) (app_store a) w blob)) (\<lambda>there.
       settled (if \<not> there then Inl AppNotFound else Inr (Redirected url)))
   | None \<Rightarrow> bind_act (store_get AppStorage z blob) (\<lambda>found. bind_act (need AppNotFound found) (\<lambda>bs. ret (Octets bs))))"

definition download_latest :: "('v, 'w) site \<Rightarrow> string \<Rightarrow> string \<Rightarrow> string \<Rightarrow> string option \<Rightarrow> request \<Rightarrow> ('w, answer) handler" where
  "download_latest z org repo env q rq =
     bind_act (authorize_read z org repo rq) (\<lambda>repo_id.
     bind_act (read_db (\<lambda>db. resolve_latest db repo_id env (profile_name q))) (\<lambda>found.
     bind_act (need AppNotFound found) (\<lambda>sn. serve_snapshot_blob z (sn_blob sn))))"

definition latest_info :: "('v, 'w) site \<Rightarrow> string \<Rightarrow> string \<Rightarrow> string \<Rightarrow> string option \<Rightarrow> request \<Rightarrow> ('w, answer) handler" where
  "latest_info z org repo env q rq =
     bind_act (authorize_read z org repo rq) (\<lambda>repo_id.
     bind_act (read_db (\<lambda>db. resolve_latest db repo_id env (profile_name q))) (\<lambda>found.
     bind_act (need AppNotFound found) (\<lambda>sn. ret (Answered 200 (JObj [(''digest'', JStr (to_hex (sn_blob sn))), (''size_bytes'', JNum (sn_size sn)),
       (''created_at'', JNum (sn_created sn)), (''environment'', JStr (sn_env sn)), (''profile'', JStr (sn_profile sn)),
       (''source_ref'', case sn_source_ref sn of Some r \<Rightarrow> JStr r | None \<Rightarrow> JNull)])))))"

definition download_digest :: "('v, 'w) site \<Rightarrow> string \<Rightarrow> string \<Rightarrow> string \<Rightarrow> string \<Rightarrow> string option \<Rightarrow> request \<Rightarrow> ('w, answer) handler" where
  "download_digest z org repo env digest q rq =
     bind_act (authorize_read z org repo rq) (\<lambda>repo_id.
     bind_act (settled (parse_hex32 digest)) (\<lambda>parsed. bind_act (need AppNotFound parsed) (\<lambda>sha.
     bind_act (read_db (\<lambda>db. resolve_snapshot_by_digest db repo_id env (profile_name q) sha)) (\<lambda>found.
     bind_act (need AppNotFound found) (\<lambda>sn. serve_snapshot_blob z (sn_blob sn))))))"

section \<open>Completing a chunked upload\<close>

definition manifest_ok :: "int \<Rightarrow> part_row list \<Rightarrow> (app_error, unit) result" where
  "manifest_ok declared ps =
     (if length ps \<noteq> nat (max 0 declared)
      then Inl (AppBadRequest (''expected '' @ show_int declared @ '' parts, '' @ show_nat (length ps) @ '' are staged''))
      else if list_ex (\<lambda>i. up_number (ps ! i) \<noteq> int i + 1) [0..<length ps]
      then Inl (AppBadRequest ''staged parts are not contiguous from 1'') else Inr ())"

definition total_size :: "part_row list \<Rightarrow> int" where
  "total_size ps = sum_list (map (\<lambda>p. max 0 (up_size p)) ps) mod 2 ^ 64"

definition as_blob_ids :: "part_row list \<Rightarrow> sha256 list option" where
  "as_blob_ids ps = (if list_all (\<lambda>p. length (up_sha p) = 32) ps then Some (map up_sha ps) else None)"

definition complete_package :: "('v, 'w) site \<Rightarrow> uuid \<Rightarrow> upload_row \<Rightarrow> sha256 list \<Rightarrow> sha256 \<Rightarrow> int \<Rightarrow> ('w, answer) handler" where
  "complete_package z repo session ids expected_sha staged =
     (if staged > max_package_bytes z then settled (Inl AppPayloadTooLarge)
      else let vendor = or_default (us_vendor session) []; name = or_default (us_name session) []; version = or_default (us_version session) []
      in bind_act (spawn_prepare (assemble_and_archive z ids expected_sha (vendor @ ''/'' @ name) (max_package_bytes z))) (\<lambda>p.
         bind_act (persist z repo vendor name version (us_visibility session) p) (\<lambda>outcome. ret (publish_response outcome))))"

definition complete_manifest :: "('v, 'w) site \<Rightarrow> uuid \<Rightarrow> upload_row \<Rightarrow> int \<Rightarrow> string \<Rightarrow> part_row list \<Rightarrow> ('w, answer) handler" where
  "complete_manifest z repo session declared sha256 ps =
     bind_act (settled (manifest_ok declared ps)) (\<lambda>_.
     bind_act (settled (parse_hex32 sha256)) (\<lambda>parsed.
     bind_act (need (AppBadRequest ''sha256 must be 64 hex chars'') parsed) (\<lambda>expected_sha.
     bind_act (need AppNotFound (as_blob_ids ps)) (\<lambda>ids.
     if us_kind session = ''snapshot'' then finish_upload z session ids expected_sha (total_size ps)
     else complete_package z repo session ids expected_sha (total_size ps)))))"

definition upload_complete :: "('v, 'w) site \<Rightarrow> string \<Rightarrow> string \<Rightarrow> uuid \<Rightarrow> int \<Rightarrow> string \<Rightarrow> request \<Rightarrow> ('w, answer) handler" where
  "upload_complete z org repo upload declared sha256 rq =
     bind_act (publish_authed_repo z org repo rq) (\<lambda>repo_id.
     bind_act (open_session upload repo_id) (\<lambda>session.
     bind_act (read_db (\<lambda>db. upload_parts db upload)) (\<lambda>ps.
     bind_act (complete_manifest z repo_id session declared sha256 ps) (\<lambda>response.
     bind_act (change_db (\<lambda>db. set_upload_status db upload ''completed'')) (\<lambda>_. ret response)))))"

section \<open>What a handler may do to the catalog\<close>

text \<open>The catalog writes of the push and dataset routes, each within a relation \<open>R\<close>; then so is every handler.\<close>

context catalog_frame begin

lemma renamed: "preserves R m \<Longrightarrow> preserves R (map_failure f m)"
  by (simp add: preserves_def map_failure_def split_def)

lemma stored: "preserves R (store_put err z bs)" "preserves R (store_get err z i)"
  by (simp_all add: store_put_def store_get_def world)

lemma session: "preserves R (session_of upload repo)" "preserves R (open_session upload repo)"
  unfolding open_session_def session_of_def by (intro bind read need settled)+

lemma gathered: "preserves R (gather io gone too_large z cap ids input)"
  by (induction ids arbitrary: input) (auto intro!: bind ret need settled stored)

lemma assembly: "preserves R (assembled io gone too_large bad z ids sha cap)"
  unfolding assembled_def by (intro bind gathered settled)

lemma archived: "preserves R (archive_targz z input pkg cap)"
  unfolding archive_targz_def by (auto intro!: bind settled need stored ret split: prod.split)

lemmas steps = bind ret settled read world need renamed stored session gathered assembly archived

end

locale publish_frame = catalog_frame +
  assumes blob: "R db (upsert_blob t db b n)"
    and package: "upsert_package i db repo name ''upload'' (Some UPLOAD_SOURCE) vis = Inr (p, db') \<Longrightarrow> R db db'"
    and declared: "set_package_visibility t db repo name vis = Inr (found, db') \<Longrightarrow> R db db'"
    and insertion: "insert_pushed_version i db p v nv stab composer b shasum rel = Inr (out, db') \<Longrightarrow> R db db'"
    and begun: "us_status u = ''open'' \<Longrightarrow> insert_session u db = Inr (i, db') \<Longrightarrow> R db db'"
    and part: "record_upload_part db session n sha len = Inr db' \<Longrightarrow> R db db'"
    and closing: "st \<in> {''completed'', ''aborted''} \<Longrightarrow> R db (set_upload_status db session st)"
    and snapshot: "create_snapshot i t db repo env profile b len src_ref = Inr (sn, db') \<Longrightarrow> R db db'"
    and latest: "advance_latest db repo env profile sn = Inr db' \<Longrightarrow> R db db'"
    and publish_stamp: "R db (db\<lparr>publish_tokens := ts\<rparr>)"
    and read_stamp: "R db (db\<lparr>tokens := ts'\<rparr>)"
begin

lemma authed: "preserves R (publish_authed_repo z org repo rq)"
  unfolding publish_authed_repo_def Let_def
  by (intro steps stamp) (simp add: resolve_publish_token_def split_def publish_stamp)

lemma reading: "preserves R (authorize_read z org repo rq)"
  unfolding authorize_read_def Let_def
  by (intro steps stamp) (simp add: token_valid_def stamp_tokens_def read_stamp)

lemma persisted: "preserves R (persist z repo vendor name version requested p)"
  unfolding persist_def persist_package_def Let_def
  by (auto intro!: steps change statement blob dest: package declared insertion split: prod.split)

lemma registered: "preserves R (register_snapshot z repo env profile b len)"
  unfolding register_snapshot_def by (auto intro!: steps change statement blob dest: snapshot latest simp: and_then_Inr_iff)

lemma published: "preserves R (publish_body z repo vendor name version requested body)"
  unfolding publish_body_def spawn_prepare_def by (intro steps persisted)

lemma completed_package: "preserves R (complete_package z repo session ids sha n)"
  unfolding complete_package_def Let_def spawn_prepare_def assemble_and_archive_def by (auto intro!: steps persisted)

lemma finished: "preserves R (finish_upload z session ids sha n)"
  unfolding finish_upload_def Let_def assemble_snapshot_def by (auto intro!: steps registered split: prod.split)

lemma manifest: "preserves R (complete_manifest z repo session n sha ps)"
  unfolding complete_manifest_def by (auto intro!: steps finished completed_package)

lemma serving: "preserves R (serve_snapshot_blob z b)"
  unfolding serve_snapshot_blob_def Let_def by (auto intro!: steps split: option.split)

lemma single: "preserves R (publish_single z org repo vendor name version q body rq)"
  unfolding publish_single_def by (intro steps authed published)

lemma inits:
  "preserves R (upload_init z org repo vendor name version q rq)"
  "preserves R (snapshot_upload_init z org repo env q rq)"
  unfolding upload_init_def snapshot_upload_init_def create_upload_session_def create_snapshot_upload_session_def
  by (auto intro!: steps authed statement dest: begun[rotated] simp: new_upload_def)

lemma parted: "preserves R (upload_part z org repo upload n body rq)"
  unfolding upload_part_def by (auto intro!: steps authed change statement blob dest: part simp: and_then_Inr_iff)

lemma aborted: "preserves R (upload_abort z org repo upload rq)"
  unfolding upload_abort_def by (auto intro!: steps authed change closing)

lemma completed: "preserves R (upload_complete z org repo upload n sha rq)"
  unfolding upload_complete_def by (auto intro!: steps authed manifest change closing)

lemma snapshot_single: "preserves R (snapshot_upload_single z org repo env q body rq)"
  unfolding snapshot_upload_single_def by (intro steps authed registered)

lemma status: "preserves R (upload_status z org repo upload rq)"
  unfolding upload_status_def by (intro steps authed)

lemma downloads:
  "preserves R (download_latest z org repo env q rq)"
  "preserves R (latest_info z org repo env q rq)"
  "preserves R (download_digest z org repo env digest q rq)"
  unfolding download_latest_def latest_info_def download_digest_def by (intro steps reading serving)+

end

section \<open>What a published version, a closed session and a blob count can rely on\<close>

definition keeps_versions :: "db \<Rightarrow> db \<Rightarrow> bool" where
  "keeps_versions a b \<longleftrightarrow> (\<forall>p n w. version_at a p n = Some w \<longrightarrow> version_at b p n = Some w)"

definition keeps_sessions :: "db \<Rightarrow> db \<Rightarrow> bool" where
  "keeps_sessions a b \<longleftrightarrow> (\<forall>i u. upload_session a i = Some u \<longrightarrow>
     (\<exists>st. upload_session b i = Some (u\<lparr>us_status := st\<rparr>) \<and> (us_status u \<noteq> ''open'' \<longrightarrow> st \<noteq> ''open'')))"

definition keeps_counts :: "db \<Rightarrow> db \<Rightarrow> bool" where
  "keeps_counts a b \<longleftrightarrow> (blobs_ok a \<longrightarrow> blobs_ok b)"

lemma version_at_versions: "versions b = versions a \<Longrightarrow> keeps_versions a b"
  by (simp add: keeps_versions_def version_at_def)

lemma sessions_same: "uploads b = uploads a \<Longrightarrow> keeps_sessions a b"
proof -
  have "\<exists>st. u = u\<lparr>us_status := st\<rparr> \<and> (us_status u \<noteq> ''open'' \<longrightarrow> st \<noteq> ''open'')" for u :: upload_row
    by (rule exI[of _ "us_status u"]) simp
  then show "uploads b = uploads a \<Longrightarrow> keeps_sessions a b"
    by (simp add: keeps_sessions_def upload_session_def)
qed

lemma upsert_package_writes:
  assumes "upsert_package i db repo name kind src vis = Inr (j, db')"
  obtains ps where "db' = db\<lparr>packages := ps\<rparr>"
  using upsert_package_Inr[OF assms] by (cases "package_at db repo name") auto

lemma set_visibility_writes:
  assumes "set_package_visibility t db repo name vis = Inr (found, db')"
  obtains ps where "db' = db\<lparr>packages := ps\<rparr>"
  using assms by (auto simp: set_package_visibility_def upd_package_def and_then_Inr_iff split: if_splits)

lemma record_part_writes:
  assumes "record_upload_part db session n sha len = Inr db'"
  obtains ps where "db' = db\<lparr>parts := ps\<rparr>"
  using assms by (auto simp: record_upload_part_def Let_def split: if_splits)

lemma create_snapshot_writes:
  assumes "create_snapshot i t db repo env profile b len src_ref = Inr (sn, db')"
  obtains ss bs where "db' = db\<lparr>snapshots := ss, blobs := bs\<rparr>" "sn = i"
  using assms by (auto simp: create_snapshot_def split: if_splits)

lemma advance_latest_writes:
  assumes "advance_latest db repo env profile sn = Inr db'"
  obtains ls where "db' = db\<lparr>latests := ls\<rparr>"
  using assms by (auto simp: advance_latest_def split: if_splits)

lemma insert_once_sessions:
  "insert_version_once i db p v nv stab composer b shasum src_ref path rel = Inr (out, db') \<Longrightarrow> uploads db' = uploads db"
  by (auto simp: insert_version_once_def add_version_def split: option.splits if_splits)

lemma insert_session_writes:
  assumes "insert_session u db = Inr (i, db')"
  obtains us where "db' = db\<lparr>uploads := us\<rparr>"
  using assms by (auto simp: insert_session_def split: if_splits)

interpretation published_content: publish_frame keeps_versions
proof unfold_locales
  fix db db' i p v nv stab composer b shasum rel out
  assume "insert_pushed_version i db p v nv stab composer b shasum rel = Inr (out, db')"
  then show "keeps_versions db db'"
    unfolding insert_pushed_version_def keeps_versions_def using insert_version_immutable by blast
qed (auto simp: keeps_versions_def upsert_blob_def set_upload_status_def version_at_def
    elim!: upsert_package_writes set_visibility_writes record_part_writes create_snapshot_writes advance_latest_writes insert_session_writes)

interpretation session_lifecycle: publish_frame keeps_sessions
proof unfold_locales
  fix a b c
  assume "keeps_sessions a b" "keeps_sessions b c"
  then show "keeps_sessions a c" unfolding keeps_sessions_def by fastforce
next
  fix db db' u i
  assume "insert_session u db = Inr (i, db')"
  then have "upload_session db j = Some x \<Longrightarrow> upload_session db' j = Some x" for j x
    by (auto simp: insert_session_def upload_session_def select_one_append split: if_splits)
  then show "keeps_sessions db db'"
    unfolding keeps_sessions_def by (metis upload_row.surjective upload_row.update_convs(10))
next
  fix db i st
  assume "st \<in> {''completed'', ''aborted''}"
  then have "st \<noteq> ''open''" by auto
  then have closed: "\<exists>st'. (if P then u\<lparr>us_status := st\<rparr> else u) = u\<lparr>us_status := st'\<rparr> \<and> (us_status u \<noteq> ''open'' \<longrightarrow> st' \<noteq> ''open'')"
    for P and u :: upload_row by (intro exI[of _ "if P then st else us_status u"]) auto
  show "keeps_sessions db (set_upload_status db i st)"
    unfolding keeps_sessions_def upload_session_def set_upload_status_def by (auto simp: select_one_upd_where closed)
qed (auto simp: upsert_blob_def insert_pushed_version_def intro!: sessions_same dest: insert_once_sessions
    elim!: upsert_package_writes set_visibility_writes record_part_writes create_snapshot_writes advance_latest_writes)

lemma counts_same: "versions b = versions a \<Longrightarrow> snapshots b = snapshots a \<Longrightarrow> blobs b = blobs a \<Longrightarrow> keeps_counts a b"
  unfolding keeps_counts_def by (auto intro: blobs_ok_cong simp: refs_def)

interpretation blob_counts: publish_frame keeps_counts
proof unfold_locales
  fix db t b n
  show "keeps_counts db (upsert_blob t db b n)" by (simp add: keeps_counts_def blobs_ok_upsert_blob)
next
  fix i db p v nv stab composer b shasum rel out db'
  assume "insert_pushed_version i db p v nv stab composer b shasum rel = Inr (out, db')"
  then show "keeps_counts db db'" unfolding insert_pushed_version_def keeps_counts_def using blobs_ok_insert_once by blast
next
  fix i t db repo env profile b len src_ref sn db'
  assume "create_snapshot i t db repo env profile b len src_ref = Inr (sn, db')"
  then show "keeps_counts db db'" unfolding keeps_counts_def using blobs_ok_create_snapshot by blast
next
  fix a b c
  show "keeps_counts a b \<Longrightarrow> keeps_counts b c \<Longrightarrow> keeps_counts a c" by (simp add: keeps_counts_def)
qed (auto simp: set_upload_status_def intro!: counts_same
    elim!: upsert_package_writes set_visibility_writes record_part_writes advance_latest_writes insert_session_writes)

section \<open>Histories of pushes\<close>

text \<open>One request to a push or dataset route, at one of the sites of \<open>Z\<close> (the server at different times).\<close>

inductive push_step :: "('v, 'w) site set \<Rightarrow> 'w machine \<Rightarrow> 'w machine \<Rightarrow> bool" for Z :: "('v, 'w) site set" where
  push_single: "z \<in> Z \<Longrightarrow> publish_single z org repo vendor name version q body rq s = (r, s') \<Longrightarrow> push_step Z s s'"
| push_init: "z \<in> Z \<Longrightarrow> upload_init z org repo vendor name version q rq s = (r, s') \<Longrightarrow> push_step Z s s'"
| push_part: "z \<in> Z \<Longrightarrow> upload_part z org repo i n body rq s = (r, s') \<Longrightarrow> push_step Z s s'"
| push_status: "z \<in> Z \<Longrightarrow> upload_status z org repo i rq s = (r, s') \<Longrightarrow> push_step Z s s'"
| push_complete: "z \<in> Z \<Longrightarrow> upload_complete z org repo i n sha rq s = (r, s') \<Longrightarrow> push_step Z s s'"
| push_abort: "z \<in> Z \<Longrightarrow> upload_abort z org repo i rq s = (r, s') \<Longrightarrow> push_step Z s s'"
| push_snapshot: "z \<in> Z \<Longrightarrow> snapshot_upload_single z org repo env q body rq s = (r, s') \<Longrightarrow> push_step Z s s'"
| push_snapshot_init: "z \<in> Z \<Longrightarrow> snapshot_upload_init z org repo env q rq s = (r, s') \<Longrightarrow> push_step Z s s'"
| push_download: "z \<in> Z \<Longrightarrow> download_latest z org repo env q rq s = (r, s') \<Longrightarrow> push_step Z s s'"
| push_info: "z \<in> Z \<Longrightarrow> latest_info z org repo env q rq s = (r, s') \<Longrightarrow> push_step Z s s'"
| push_pinned: "z \<in> Z \<Longrightarrow> download_digest z org repo env digest q rq s = (r, s') \<Longrightarrow> push_step Z s s'"

context publish_frame begin

lemma step: "push_step Z s s' \<Longrightarrow> R (mc_db s) (mc_db s')"
  by (induction rule: push_step.induct) (erule preservesD[OF single] preservesD[OF inits(1)] preservesD[OF inits(2)]
    preservesD[OF parted] preservesD[OF status] preservesD[OF completed] preservesD[OF aborted] preservesD[OF snapshot_single]
    preservesD[OF downloads(1)] preservesD[OF downloads(2)] preservesD[OF downloads(3)])+

lemma history: "(push_step Z)\<^sup>*\<^sup>* s s' \<Longrightarrow> R (mc_db s) (mc_db s')"
  by (induction rule: rtranclp_induct) (auto intro: same trans step)

end

lemma session_of_eq: "session_of i repo s = (case upload_session (mc_db s) i of None \<Rightarrow> (Inl AppNotFound, s)
    | Some u \<Rightarrow> if us_repo u \<noteq> repo then (Inl AppForbidden, s) else (Inr u, s))"
  by (auto simp: session_of_def bind_act_def read_db_def need_def settled_def split: option.split)

lemma open_session_eq: "open_session i repo s = (case upload_session (mc_db s) i of None \<Rightarrow> (Inl AppNotFound, s)
    | Some u \<Rightarrow> if us_repo u \<noteq> repo then (Inl AppForbidden, s)
        else if us_status u \<noteq> ''open'' then (Inl (AppConflict ''upload session is not open''), s) else (Inr u, s))"
  by (auto simp: open_session_def session_of_eq bind_act_def settled_def split: option.split)

text \<open>C5: across any history of pushes, chunked uploads and dataset requests: a published version keeps its row unchanged;
  a session that was completed or aborted stays closed under the same repository and identity, and is refused
  whoever asks; and the reference counts of the blobs stay exact.\<close>

theorem push_history:
  assumes "(push_step Z)\<^sup>*\<^sup>* s s'" "version_at (mc_db s) p n = Some w"
    and "upload_session (mc_db s) i = Some u" "us_status u \<noteq> ''open''" "blobs_ok (mc_db s)"
  shows "version_at (mc_db s') p n = Some w
    \<and> (\<exists>st. st \<noteq> ''open'' \<and> upload_session (mc_db s') i = Some (u\<lparr>us_status := st\<rparr>)
        \<and> open_session i repo s' = (if us_repo u \<noteq> repo then (Inl AppForbidden, s') else (Inl (AppConflict ''upload session is not open''), s')))
    \<and> blobs_ok (mc_db s')"
proof -
  have "version_at (mc_db s') p n = Some w"
    using published_content.history[OF assms(1)] assms(2) by (simp add: keeps_versions_def)
  moreover obtain st where "upload_session (mc_db s') i = Some (u\<lparr>us_status := st\<rparr>)" "st \<noteq> ''open''"
    using session_lifecycle.history[OF assms(1)] assms(3,4) by (auto simp: keeps_sessions_def)
  moreover have "blobs_ok (mc_db s')"
    using blob_counts.history[OF assms(1)] assms(5) by (simp add: keeps_counts_def)
  ultimately show ?thesis by (auto simp: open_session_eq)
qed

section \<open>What a publish stores\<close>

interpretation other_tables: catalog_frame "\<lambda>a b. versions b = versions a"
  by unfold_locales auto

lemma resolve_repo_stamp: "resolve_repo (db\<lparr>publish_tokens := ts\<rparr>) org repo = resolve_repo db org repo"
  by (simp add: resolve_repo_def org_by_slug_def repo_by_slug_def split: option.split)

lemma publish_authed_repo_Inr:
  assumes "publish_authed_repo z org repo rq s = (Inr i, s')"
  shows "\<exists>token. extract_token (app_b64 (si_app z)) rq = Some token
      \<and> fst (resolve_publish_token (rt_sha (app_rt (si_app z))) (app_now (si_app z)) (mc_db s) token) = Some i
      \<and> resolve_repo (mc_db s) org repo = Some i 
      \<and> s' = s\<lparr>mc_db := snd (resolve_publish_token (rt_sha (app_rt (si_app z))) (app_now (si_app z)) (mc_db s) token)\<rparr>"
  using assms unfolding publish_authed_repo_def Let_def
  by (auto elim!: bind_actE simp: run_simps stamping_def resolve_publish_token_def resolve_repo_stamp split_def split: if_splits
    dest!: sym[of "Inr _"])

lemma archive_targz_Inr:
  assumes "bucket_service (rt_http (app_rt (si_app z))) objs" "archive_targz z input pkg cap s = (Inr p, s')"
  shows "\<exists>composer es zip w. checked_tree z input pkg cap = Inr (composer, es) \<and> into_zip es = Some zip
    \<and> p = \<lparr>pre_blob = rt_sha (app_rt (si_app z)) zip, pre_size = blob_size zip, pre_composer = composer, pre_shasum = sha1_hex (si_libs z) zip\<rparr>
    \<and> s' = s\<lparr>mc_world := w\<rparr> \<and> any_put (app_rt (si_app z)) (app_store (si_app z)) (mc_world s) zip = (Inr (pre_blob p), w)"
  using assms(2) blob_store.put_ok[OF any_blob_store[OF assms(1)]] unfolding archive_targz_def
  by (auto elim!: bind_actE simp: run_simps store_put_def on_world_def Let_def map_err_Inr split: prod.splits dest!: sym[of "Inr _"])

lemma upsert_package_at:
  assumes "upsert_package i db repo name kind src vis = Inr (j, db')"
  shows "\<exists>P. package_at db' repo name = Some P \<and> p_id P = j"
proof (cases "package_at db repo name")
  case None
  then show ?thesis using upsert_package_Inr[OF assms] assms
    by (auto simp: package_at_def select_one_append select_one_Cons new_package_def upsert_package_def Let_def and_then_Inr_iff split: if_splits)
next
  case (Some p)
  then have "j = p_id p" using assms by (auto simp: upsert_package_def Let_def and_then_Inr_iff split: if_splits)
  then show ?thesis using upsert_package_Inr[OF assms] Some
    by (auto simp: package_at_def select_one_upd_where sync_row_def)
qed

lemma set_visibility_at:
  assumes "set_package_visibility t db repo name vis = Inr (found, db')" "package_at db repo pkg = Some P"
  shows "\<exists>Q. package_at db' repo pkg = Some Q \<and> p_id Q = p_id P"
  using assms by (auto simp: set_package_visibility_def and_then_Inr_iff upd_package_def package_at_def select_one_upd_where split: if_splits)

lemma persist_package_Inr:
  assumes "persist_package z repo pkg version requested p s = (Inr (normalized, package), s')"
  shows "normalize_version z version = Some normalized \<and> (\<exists>P. package_at (mc_db s') repo pkg = Some P \<and> p_id P = package)
    \<and> versions (mc_db s') = versions (mc_db s)"
proof -
  have "versions (mc_db s') = versions (mc_db s)"
    using assms unfolding persist_package_def Let_def
    by (auto elim!: bind_actE upsert_package_writes set_visibility_writes simp: run_simps statement_Inr upsert_blob_def split: if_splits)
  moreover have "normalize_version z version = Some normalized \<and> (\<exists>P. package_at (mc_db s') repo pkg = Some P \<and> p_id P = package)"
    using assms unfolding persist_package_def Let_def
    by (auto elim!: bind_actE simp: run_simps statement_Inr split: if_splits dest!: sym[of "Inr _"] upsert_package_at) (erule (1) set_visibility_at)
  ultimately show ?thesis by simp
qed

lemma insert_pushed_Inr:
  assumes "insert_pushed_version i db p v nv stab composer b shasum rel = Inr (out, db')"
  shows "versions db' = versions db @ (if out = Created then [\<lparr>v_id = i, v_package = p, v_version = v, v_normalized = nv, v_stability = stab,
      v_composer = composer, v_blob = Some b, v_shasum = Some shasum, v_source_ref = None, v_released = Some rel, v_yanked = None,
      v_held = None, v_approved = None, v_grace_days = 0, v_entitled_at = None, v_dist_path = None\<rparr>] else [])"
  using assms by (auto simp: insert_pushed_version_def insert_version_once_def add_version_def split: option.splits if_splits)


lemma insert_pushed_outcome:
  assumes "insert_pushed_version i db p v nv stab composer b shasum rel = Inr (out, db')"
  shows "out = (case version_at db p nv of None \<Rightarrow> Created | Some w \<Rightarrow> if v_blob w = Some b then AlreadyPublished else Conflict)"
  using assms by (auto simp: insert_pushed_version_def insert_version_once_def split: option.splits if_splits)

lemma insert_pushed_packages:
  "insert_pushed_version i db p v nv stab composer b shasum rel = Inr (out, db') \<Longrightarrow> packages db' = packages db"
  by (auto simp: insert_pushed_version_def insert_version_once_def add_version_def split: option.splits if_splits)

lemma declared_versions: "preserves (\<lambda>a b. versions b = versions a) (persist_package z repo pkg version requested p)"
  unfolding persist_package_def Let_def
  by (auto intro!: other_tables.steps other_tables.change other_tables.statement simp: upsert_blob_def
      elim!: upsert_package_writes set_visibility_writes)

lemma persist_versions:
  assumes "persist z repo vendor name version requested p s = (r, s')" "r \<noteq> Inr Created"
  shows "versions (mc_db s') = versions (mc_db s)"
  using assms(1) unfolding persist_def
proof (cases rule: bind_actE)
  case (1 e)
  then show ?thesis using preservesD[OF declared_versions] by fastforce
next
  case (2 x s1)
  then have "versions (mc_db s1) = versions (mc_db s)" using preservesD[OF declared_versions] by fastforce
  moreover have "versions (mc_db s') = versions (mc_db s1)"
    using 2(2) assms(2) by (auto simp: statement_def split_def split: sum.splits if_splits dest!: insert_pushed_Inr)
  ultimately show ?thesis by simp
qed

lemma archived_versions: "preserves (\<lambda>a b. versions b = versions a) (spawn_prepare (archive_targz z body pkg cap))"
  unfolding spawn_prepare_def by (intro other_tables.steps)

lemma publish_body_versions:
  assumes "publish_body z repo vendor name version requested body s = (r, s')" "r \<noteq> Inr (publish_response Created)"
  shows "versions (mc_db s') = versions (mc_db s)"
  using assms(1) unfolding publish_body_def
proof (cases rule: bind_actE)
  case (1 e)
  then show ?thesis using preservesD[OF archived_versions] by fastforce
next
  case (2 p s1)
  have "versions (mc_db s1) = versions (mc_db s)" using preservesD[OF archived_versions 2(1)] .
  moreover have "versions (mc_db s') = versions (mc_db s1)"
    using 2(2)
  proof (cases rule: bind_actE)
    case (2 out s2)
    then show ?thesis using assms(2) persist_versions[OF 2(1)] by (cases out) (auto simp: ret_eq)
  qed (use persist_versions in fastforce)
  ultimately show ?thesis by simp
qed

text \<open>What a publish does, on every branch: unless it answers 201 it leaves every version row as it was (a conflict, an
  identical re-push and every error included). A 201 means the caller's publish token is the one of the repository in the URL,
  the upload unpacks to a tree whose \<open>composer.json\<close> carries the name in the URL, the version parses, and exactly one row was
  added: under that package of that repository, unapproved, with the digest of the canonical archive of the tree.\<close>

definition pushed_row :: "('v, 'w) site \<Rightarrow> uuid \<Rightarrow> uuid \<Rightarrow> string \<Rightarrow> string \<times> string \<Rightarrow> json \<Rightarrow> bytes \<Rightarrow> version_row" where
  "pushed_row z i package version normalized composer zipped = \<lparr>v_id = i, v_package = package, v_version = version,
     v_normalized = fst normalized, v_stability = snd normalized, v_composer = composer, v_blob = Some (rt_sha (app_rt (si_app z)) zipped),
     v_shasum = Some (sha1_hex (si_libs z) zipped), v_source_ref = None, v_released = Some (app_now (si_app z)), v_yanked = None,
     v_held = None, v_approved = None, v_grace_days = 0, v_entitled_at = None, v_dist_path = None\<rparr>"

lemma publish_body_answered:
  assumes "bucket_service (rt_http (app_rt (si_app z))) objs"
    and "publish_body z repo vendor name version requested body s = (Inr answer, s')"
  shows "\<exists>out composer es zipped normalized P i. answer = publish_response out
    \<and> checked_tree z body (vendor @ ''/'' @ name) (max_package_bytes z) = Inr (composer, es)
    \<and> into_zip es = Some zipped \<and> normalize_version z version = Some normalized
    \<and> package_at (mc_db s') repo (vendor @ ''/'' @ name) = Some P
    \<and> (out = (case version_at (mc_db s) (p_id P) (fst normalized) of None \<Rightarrow> Created
          | Some w \<Rightarrow> if v_blob w = Some (rt_sha (app_rt (si_app z)) zipped) then AlreadyPublished else Conflict))
    \<and> versions (mc_db s') = versions (mc_db s)
        @ (if out = Created then [pushed_row z i (p_id P) version normalized composer zipped] else [])"
proof -
  obtain p s1 out where prep: "spawn_prepare (archive_targz z body (vendor @ ''/'' @ name) (max_package_bytes z)) s = (Inr p, s1)"
      and per: "persist z repo vendor name version requested p s1 = (Inr out, s')" and answer: "answer = publish_response out"
    using assms(2) unfolding publish_body_def by (auto simp only: bind_act_Inr ret_eq sum.inject)
  from per obtain x s3 where decl: "persist_package z repo (vendor @ ''/'' @ name) version requested p s1 = (Inr x, s3)"
      and ins: "statement AppCatalog (\<lambda>newid db. insert_pushed_version newid db (snd x) version (fst (fst x)) (snd (fst x)) (pre_composer p) (pre_blob p)
        (pre_shasum p) (app_now (si_app z))) s3 = (Inr out, s')"
    unfolding persist_def split_def bind_act_Inr by blast
  have arch: "archive_targz z body (vendor @ ''/'' @ name) (max_package_bytes z) s = (Inr p, s1)"
    using prep by (auto simp: spawn_prepare_def map_failure_def map_err_Inr split: prod.splits)
  obtain composer es zipped w where a: "checked_tree z body (vendor @ ''/'' @ name) (max_package_bytes z) = Inr (composer, es)" "into_zip es = Some zipped"
      "p = \<lparr>pre_blob = rt_sha (app_rt (si_app z)) zipped, pre_size = blob_size zipped, pre_composer = composer, pre_shasum = sha1_hex (si_libs z) zipped\<rparr>"
      "s1 = s\<lparr>mc_world := w\<rparr>"
    using archive_targz_Inr[OF assms(1) arch] by blast
  obtain P where d: "normalize_version z version = Some (fst x)" "package_at (mc_db s3) repo (vendor @ ''/'' @ name) = Some P" "p_id P = snd x"
      "versions (mc_db s3) = versions (mc_db s)"
    using persist_package_Inr[of z repo _ version requested p s1 "fst x" "snd x" s3] decl a(4) by auto
  obtain db where db: "insert_pushed_version (mc_next s3) (mc_db s3) (snd x) version (fst (fst x)) (snd (fst x)) (pre_composer p) (pre_blob p)
        (pre_shasum p) (app_now (si_app z)) = Inr (out, db)" "mc_db s' = db"
    using ins by (auto simp: statement_Inr)
  have pk: "package_at (mc_db s') repo (vendor @ ''/'' @ name) = Some P"
    using insert_pushed_packages[OF db(1)] db(2) d(2) by (simp add: package_at_def)
  have rows: "versions (mc_db s') = versions (mc_db s)
      @ (if out = Created then [pushed_row z (mc_next s3) (p_id P) version (fst x) composer zipped] else [])"
    using insert_pushed_Inr[OF db(1)] db(2) d(3,4) a(3) by (simp add: pushed_row_def)
  have pb: "pre_blob p = rt_sha (app_rt (si_app z)) zipped" by (simp add: a(3))
  have vat: "version_at (mc_db s3) = version_at (mc_db s)" by (simp add: version_at_def[abs_def] d(4))
  have "out = (case version_at (mc_db s) (p_id P) (fst (fst x)) of None \<Rightarrow> Created
          | Some w \<Rightarrow> if v_blob w = Some (rt_sha (app_rt (si_app z)) zipped) then AlreadyPublished else Conflict)"
    using insert_pushed_outcome[OF db(1)] unfolding vat pb d(3) .
  then show ?thesis using a(1,2) d(1) pk rows answer by blast
qed

lemma publish_body_failed:
  assumes "publish_body z repo vendor name version requested body s = (Inl e, s')"
  shows "versions (mc_db s') = versions (mc_db s)"
  using assms by (rule publish_body_versions) simp

text \<open>C4: What a publish does, on every branch. An error leaves every version row as it was. An answer means the caller's publish
  token is the one of the repository in the URL, the upload unpacks to a tree whose \<open>composer.json\<close> carries the name in the
  URL, and the version parses; and it tells exactly what was stored under that package and normalized version before: nothing
  (201: one row is added, under that package, unapproved, with the digest of the canonical archive of the tree), a row with the
  digest of that archive (200, exists), or a row with another digest (409, conflict). The last two leave every row as it was.\<close>

theorem publish_single_exact:
  assumes "bucket_service (rt_http (app_rt (si_app z))) objs"
    and "publish_single z org repo vendor name version q body rq s = (r, s')"
  shows "case r of Inl e \<Rightarrow> versions (mc_db s') = versions (mc_db s)
    | Inr answer \<Rightarrow> (\<exists>token repo_id composer es zipped normalized P i. extract_token (app_b64 (si_app z)) rq = Some token
      \<and> fst (resolve_publish_token (rt_sha (app_rt (si_app z))) (app_now (si_app z)) (mc_db s) token) = Some repo_id
      \<and> resolve_repo (mc_db s) org repo = Some repo_id
      \<and> checked_tree z body (vendor @ ''/'' @ name) (max_package_bytes z) = Inr (composer, es) \<and> into_zip es = Some zipped
      \<and> normalize_version z version = Some normalized \<and> package_at (mc_db s') repo_id (vendor @ ''/'' @ name) = Some P
      \<and> (case version_at (mc_db s) (p_id P) (fst normalized) of
           None \<Rightarrow> answer = Answered 201 (JObj [(''status'', JStr ''created'')])
             \<and> versions (mc_db s') = versions (mc_db s) @ [pushed_row z i (p_id P) version normalized composer zipped]
         | Some w \<Rightarrow> answer = (if v_blob w = Some (rt_sha (app_rt (si_app z)) zipped) then Answered 200 (JObj [(''status'', JStr ''exists'')])
               else Answered 409 (JObj [(''status'', JStr ''conflict''), (''error'', JStr ''this version is already published with different contents'')]))
             \<and> versions (mc_db s') = versions (mc_db s)))"
  using assms(2) unfolding publish_single_def
proof (cases rule: bind_actE)
  case (1 e)
  have auth: "preserves (\<lambda>a b. versions b = versions a) (publish_authed_repo z org repo rq)"
    unfolding publish_authed_repo_def Let_def
    by (intro other_tables.steps other_tables.stamp) (simp add: resolve_publish_token_def split_def)
  then show ?thesis using preservesD[OF auth 1(1)] 1(2) by simp
next
  case (2 repo_id s1)
  note a = publish_authed_repo_Inr[OF 2(1)]
  then have v: "versions (mc_db s1) = versions (mc_db s)" by (auto simp: resolve_publish_token_def split_def)
  then have vat: "version_at (mc_db s1) = version_at (mc_db s)" by (simp add: version_at_def[abs_def])
  from 2(2) show ?thesis
  proof (cases rule: bind_actE)
    case (2 requested s2)
    then have run: "publish_body z repo_id vendor name version requested body s1 = (r, s')" by (simp add: settled_eq)
    show ?thesis
    proof (cases r)
      case (Inl e)
      then show ?thesis using publish_body_failed[OF run[unfolded Inl]] v by simp
    next
      case (Inr answer)
      from publish_body_answered[OF assms(1) run[unfolded Inr]] obtain out composer es zipped normalized i and P :: package_row
        where b: "answer = publish_response out" "checked_tree z body (vendor @ ''/'' @ name) (max_package_bytes z) = Inr (composer, es)"
          "into_zip es = Some zipped" "normalize_version z version = Some normalized" "package_at (mc_db s') repo_id (vendor @ ''/'' @ name) = Some P"
          "out = (case version_at (mc_db s1) (p_id P) (fst normalized) of None \<Rightarrow> Created
            | Some w \<Rightarrow> if v_blob w = Some (rt_sha (app_rt (si_app z)) zipped) then AlreadyPublished else Conflict)"
          "versions (mc_db s') = versions (mc_db s1) @ (if out = Created then [pushed_row z i (p_id P) version normalized composer zipped] else [])"
        by blast
      have "case version_at (mc_db s) (p_id P) (fst normalized) of
           None \<Rightarrow> answer = Answered 201 (JObj [(''status'', JStr ''created'')])
             \<and> versions (mc_db s') = versions (mc_db s) @ [pushed_row z i (p_id P) version normalized composer zipped]
         | Some w \<Rightarrow> answer = (if v_blob w = Some (rt_sha (app_rt (si_app z)) zipped) then Answered 200 (JObj [(''status'', JStr ''exists'')])
               else Answered 409 (JObj [(''status'', JStr ''conflict''), (''error'', JStr ''this version is already published with different contents'')]))
             \<and> versions (mc_db s') = versions (mc_db s)"
        using b(1,6,7) unfolding v vat by (simp split: option.split)
      with a b(2-5) show ?thesis unfolding Inr sum.case by blast
    qed
  qed (auto simp: settled_eq v)
qed

lemma blob_known_upsert: "blob_known (upsert_blob t db b n) (Some b)"
proof -
  have "b_sha ` set (upd_where P (\<lambda>b. b\<lparr>b_last_seen := t\<rparr>) bs) = b_sha ` set bs" for P and bs :: "blob_row list"
    using map_upd_where_key[of b_sha "\<lambda>b. b\<lparr>b_last_seen := t\<rparr>" P bs] by (metis blob_row.select_convs(1) blob_row.surjective blob_row.update_convs(5) set_map)
  then show ?thesis by (auto simp: blob_known_iff upsert_blob_def)
qed

lemma blob_known_packages: "blob_known (db\<lparr>packages := ps\<rparr>) x = blob_known db x"
  by (simp add: blob_known_iff)

text \<open>A version the package does not have yet is always created.\<close>

lemma persist_new_version:
  assumes "persist_package z repo (vendor @ ''/'' @ name) version requested p s = (Inr (normalized, package), s1)"
    and "version_at (mc_db s) package (fst normalized) = None"
  shows "\<exists>s'. persist z repo vendor name version requested p s = (Inr Created, s')"
proof -
  note d = persist_package_Inr[OF assms(1)]
  have "blob_known (mc_db s1) (Some (pre_blob p))"
    using assms(1) unfolding persist_package_def Let_def
    by (auto elim!: bind_actE upsert_package_writes set_visibility_writes simp: run_simps statement_Inr blob_known_upsert blob_known_packages
        split: if_splits)
  moreover have "\<exists>P\<in>set (packages (mc_db s1)). p_id P = package"
    using d by (auto simp: package_at_def dest: select_one_Some)
  moreover have "version_at (mc_db s1) package (fst normalized) = None"
    using assms(2) d by (simp add: version_at_def)
  ultimately obtain db' where "insert_pushed_version (mc_next s1) (mc_db s1) package version (fst normalized) (snd normalized) (pre_composer p) (pre_blob p)
      (pre_shasum p) (app_now (si_app z)) = Inr (Created, db')"
    by (auto simp: insert_pushed_version_def insert_version_once_def)
  then show ?thesis
    using assms(1) unfolding persist_def bind_act_Inr split_def statement_Inr by fastforce
qed

lemma persist_package_public:
  assumes "normalize_version z version = Some normalized" "package_at (mc_db s) repo pkg = Some P" "p_visibility P = Public"
    and "\<not> has_members (mc_db s) repo"
  shows "\<exists>s1. persist_package z repo pkg version None p s = (Inr (normalized, p_id P), s1)"
proof -
  have b: "package_at (upsert_blob t db b n) = package_at db" "has_members (upsert_blob t db b n) = has_members db" for t db b n
    by (auto simp: upsert_blob_def package_at_def[abs_def] has_members_def[abs_def])
  then have v: "package_visibility_of (upsert_blob t db b n) = package_visibility_of db" for t db b n
    by (simp add: package_visibility_of_def[abs_def])
  show ?thesis
    using assms by (auto simp: persist_package_def Let_def bind_act_def need_def settled_def read_db_def ret_def change_db_def write_db_def
      statement_def publish_visibility_def upsert_package_def b v package_visibility_of_def split: sum.split)
qed

section \<open>A site, for the concrete instances\<close>

definition demo_tree :: "tar_entry option list" where
  "demo_tree = [Some \<lparr>te_kind = TarFile, te_path = Some (str_bytes ''./composer.json''), te_link = Some None, te_mode = Some 0x1A4, te_content = Some [1]\<rparr>]"

definition demo_site :: "(unit, string \<Rightarrow> bytes option) site" where
  "demo_site = \<lparr>si_app = demo_app\<lparr>app_store := S3Store demo_s3\<rparr>, si_libs = demo_libs (\<lambda>w. w), si_env = (\<lambda>k. if k = ''SCONCE_MAX_PACKAGE_BYTES'' then Some ''1000'' else None), si_untar = (\<lambda>b. if b = [1, 2] then Some demo_tree else None)\<rparr>"

lemma demo_site_simps: "app_rt (si_app demo_site) = demo_rt" "app_store (si_app demo_site) = S3Store demo_s3"
  by (simp_all add: demo_site_def demo_app_def)

definition demo_push :: "(string \<Rightarrow> bytes option) machine" where
  "demo_push = \<lparr>mc_db = demo_registry\<lparr>blobs := [\<lparr>b_sha = demo_sha32, b_size = 2, b_refcount = 1, b_created = 0, b_last_seen = 0\<rparr>, (demo_blob [8])\<lparr>b_refcount := 1\<rparr>],
     publish_tokens := [new_cred 80 10 (rt_sha demo_rt (str_bytes ''push'')) None None],
     uploads := [(new_upload 90 10 0)\<lparr>us_status := ''aborted''\<rparr>]\<rparr>, mc_world = demo_world, mc_next = 500\<rparr>"

definition demo_push_request :: request where
  "demo_push_request = demo_headers (Some ''Bearer push'')"



text \<open>What the demo bucket answers.\<close>

lemma demo_put: "\<exists>w'. any_put demo_rt (S3Store demo_s3) w bs = (Inr (rt_sha demo_rt bs), w')"
  by (simp add: demo_s3_simps split: option.split)

lemma demo_get: "any_get demo_rt (S3Store demo_s3) w i = (Inr (any_contents (\<lambda>w. w) (S3Store demo_s3) w i), w)"
  by (simp add: demo_s3_simps s3_contents_def classify.simps split: option.split)

text \<open>The demo tree publishes as version 3.0 of \<open>a/b\<close> from any state with the demo catalog's packages and versions.\<close>

lemma demo_body_created:
  assumes "packages (mc_db s) = packages (mc_db demo_push)" "versions (mc_db s) = versions (mc_db demo_push)" "members (mc_db s) = []"
  shows "\<exists>s'. publish_body demo_site 10 ''a'' ''b'' ''3.0'' None [1, 2] s = (Inr (publish_response Created), s')"
proof -
  let ?tree = "[\<lparr>e_path = ''composer.json'', e_mode = File, e_content = [1]\<rparr>]"
  have tree: "checked_tree demo_site [1, 2] ''a/b'' (max_package_bytes demo_site) = Inr (JObj [(''name'', JStr ''a/b'')], ?tree)" by code_simp
  have "into_zip ?tree \<noteq> None" by code_simp
  then obtain zipped where zipped: "into_zip ?tree = Some zipped" by blast
  obtain w where put: "any_put demo_rt (S3Store demo_s3) (mc_world s) zipped = (Inr (rt_sha demo_rt zipped), w)"
    using demo_put by blast
  let ?p = "\<lparr>pre_blob = rt_sha demo_rt zipped, pre_size = blob_size zipped, pre_composer = JObj [(''name'', JStr ''a/b'')],
    pre_shasum = sha1_hex (si_libs demo_site) zipped\<rparr>"
  let ?s1 = "s\<lparr>mc_world := w\<rparr>"
  have arch: "spawn_prepare (archive_targz demo_site [1, 2] ''a/b'' (max_package_bytes demo_site)) s = (Inr ?p, ?s1)"
    using put by (simp add: spawn_prepare_def map_failure_def archive_targz_def bind_act_def settled_def tree need_def zipped store_put_def
      on_world_def ret_def demo_site_simps del: any_put.simps)
  have db: "packages (mc_db ?s1) = packages (mc_db demo_push)" "versions (mc_db ?s1) = versions (mc_db demo_push)" "members (mc_db ?s1) = []"
    using assms by simp_all
  have nv: "normalize_version demo_site ''3.0'' = Some (''3.0'', ''stable'')" by code_simp
  have "package_at (mc_db demo_push) 10 ''a/b'' = Some demo_package" "p_visibility demo_package = Public" by code_simp+
  then have "\<exists>s2. persist_package demo_site 10 ''a/b'' ''3.0'' None ?p ?s1 = (Inr ((''3.0'', ''stable''), p_id demo_package), s2)"
    by (intro persist_package_public nv) (simp_all only: package_at_def db has_members_def, simp)
  then obtain s2 where pk: "persist_package demo_site 10 ''a/b'' ''3.0'' None ?p ?s1 = (Inr ((''3.0'', ''stable''), p_id demo_package), s2)" ..
  have "version_at (mc_db demo_push) (p_id demo_package) ''3.0'' = None" by code_simp
  then have "version_at (mc_db ?s1) (p_id demo_package) ''3.0'' = None" by (simp only: version_at_def db)
  then obtain s' where "persist demo_site 10 ''a'' ''b'' ''3.0'' None ?p ?s1 = (Inr Created, s')"
    using persist_new_version[of demo_site 10 "''a''" "''b''"] pk by fastforce
  then show ?thesis
    using arch by (simp add: bind_act_def publish_body_def ret_def)
qed

lemma demo_push_created:
  "\<exists>s'. publish_single demo_site ''acme'' ''main'' ''a'' ''b'' ''3.0'' None [1, 2] demo_push_request demo_push = (Inr (publish_response Created), s')"
proof -
  let ?auth = "publish_authed_repo demo_site ''acme'' ''main'' demo_push_request demo_push"
  have "?auth = (Inr 10, snd ?auth)" by (rule fst_pair) code_simp
  then obtain s0 where auth: "?auth = (Inr 10, s0)" ..
  have "packages (mc_db s0) = packages (mc_db demo_push)" "versions (mc_db s0) = versions (mc_db demo_push)" "members (mc_db s0) = []"
    using publish_authed_repo_Inr[OF auth]
    by (auto simp: resolve_publish_token_def split_def demo_push_def demo_registry_def demo_db_def empty_db_def)
  from demo_body_created[OF this] show ?thesis
    by (simp add: publish_single_def bind_act_def auth settled_def query_visibility_def)
qed

theorem publish_single_exact_witness:
  "\<exists>s' v. publish_single demo_site ''acme'' ''main'' ''a'' ''b'' ''3.0'' None [1, 2] demo_push_request demo_push = (Inr (publish_response Created), s')
     \<and> versions (mc_db s') = versions (mc_db demo_push) @ [v] \<and> v_version v = ''3.0'' \<and> v_approved v = None"
proof -
  obtain s' where run: "publish_single demo_site ''acme'' ''main'' ''a'' ''b'' ''3.0'' None [1, 2] demo_push_request demo_push
      = (Inr (publish_response Created), s')" using demo_push_created ..
  have bucket: "bucket_service (rt_http (app_rt (si_app demo_site))) (\<lambda>w. w)"
    by (simp add: demo_site_simps demo_rt_def demo_bucket_service)
  obtain composer zipped normalized i and P :: package_row and w where
    "case w of None \<Rightarrow> publish_response Created = Answered 201 (JObj [(''status'', JStr ''created'')])
        \<and> versions (mc_db s') = versions (mc_db demo_push) @ [pushed_row demo_site i (p_id P) ''3.0'' normalized composer zipped]
      | Some (w :: version_row) \<Rightarrow> publish_response Created = (if v_blob w = Some (rt_sha (app_rt (si_app demo_site)) zipped)
            then Answered 200 (JObj [(''status'', JStr ''exists'')])
          else Answered 409 (JObj [(''status'', JStr ''conflict''), (''error'', JStr ''this version is already published with different contents'')]))
        \<and> versions (mc_db s') = versions (mc_db demo_push)"
    using publish_single_exact[OF bucket run, unfolded sum.case] by blast
  then have "versions (mc_db s') = versions (mc_db demo_push) @ [pushed_row demo_site i (p_id P) ''3.0'' normalized composer zipped]"
    by (cases w) (simp_all split: if_splits)
  then show ?thesis using run by (auto simp: pushed_row_def)
qed

theorem push_history_witness:
  "\<exists>s'. (push_step {demo_site})\<^sup>*\<^sup>* demo_push s' \<and> fst (open_session 90 10 s') = Inl (AppConflict ''upload session is not open'')
     \<and> version_at (mc_db s') 100 ''1.0.0.0'' = Some (demo_v1\<lparr>v_blob := Some demo_sha32\<rparr>) \<and> blobs_ok (mc_db s')"
proof -
  obtain s' where run: "publish_single demo_site ''acme'' ''main'' ''a'' ''b'' ''3.0'' None [1, 2] demo_push_request demo_push
      = (Inr (publish_response Created), s')" using demo_push_created ..
  have steps: "(push_step {demo_site})\<^sup>*\<^sup>* demo_push s'" using push_single[OF _ run] by blast
  have ok: "blobs_ok (mc_db demo_push)"
  proof -
    have "refcount_ok (mc_db demo_push)" by code_simp
    moreover have "map v_blob (versions (mc_db demo_push)) = [Some demo_sha32, Some [8]]" "map sn_blob (snapshots (mc_db demo_push)) = []"
        "map b_sha (blobs (mc_db demo_push)) = [demo_sha32, [8]]" by code_simp+
    then have "refs_present (mc_db demo_push)"
      unfolding refs_present_def by (auto simp: refs_def count_where_def map_eq_Cons_conv filter_empty_conv split: if_splits)
    ultimately show ?thesis by (simp add: blobs_ok_def)
  qed
  have u: "upload_session (mc_db demo_push) 90 = Some ((new_upload 90 10 0)\<lparr>us_status := ''aborted''\<rparr>)" by code_simp
  have v: "version_at (mc_db demo_push) 100 ''1.0.0.0'' = Some (demo_v1\<lparr>v_blob := Some demo_sha32\<rparr>)" by code_simp
  have c: "us_status ((new_upload 90 10 0)\<lparr>us_status := ''aborted''\<rparr>) \<noteq> ''open''" by simp


  have "us_repo ((new_upload 90 10 0)\<lparr>us_status := ''aborted''\<rparr>) = 10" by code_simp
  then have "fst (open_session 90 10 s') = Inl (AppConflict ''upload session is not open'')" "blobs_ok (mc_db s')"
      "version_at (mc_db s') 100 ''1.0.0.0'' = Some (demo_v1\<lparr>v_blob := Some demo_sha32\<rparr>)"
    using push_history[OF steps v u c ok, of 10] by auto
  with steps show ?thesis by blast
qed

section \<open>Publishing and visibility\<close>

definition keeps_visibility :: "db \<Rightarrow> db \<Rightarrow> bool" where
  "keeps_visibility a b \<longleftrightarrow> (\<forall>r n pv. package_visibility_of a r n = Some pv \<longrightarrow> package_visibility_of b r n = Some pv)"

lemma visibility_same: "packages b = packages a \<Longrightarrow> keeps_visibility a b"
  by (simp add: keeps_visibility_def package_visibility_of_def package_at_def)

interpretation licensing: catalog_frame keeps_visibility
  by unfold_locales (auto simp: keeps_visibility_def)

lemma package_at_upd:
  assumes "\<And>x. p_repo (f x) = p_repo x" "\<And>x. p_name (f x) = p_name x"
  shows "package_at (db\<lparr>packages := upd_where (\<lambda>p. p_repo p = repo \<and> p_name p = pkg) f (packages db)\<rparr>) r n
    = map_option (if r = repo \<and> n = pkg then f else (\<lambda>x. x)) (package_at db r n)"
proof -
  have "package_at (db\<lparr>packages := upd_where (\<lambda>p. p_repo p = repo \<and> p_name p = pkg) f (packages db)\<rparr>) r n
      = map_option (\<lambda>x. if p_repo x = repo \<and> p_name x = pkg then f x else x) (package_at db r n)"
    using assms by (simp add: package_at_def select_one_upd_where)
  then show ?thesis
    by (cases "package_at db r n") (auto simp: package_at_def dest!: select_one_Some)
qed

text \<open>An upsert with the visibility a publish chooses leaves every package's visibility alone.\<close>

lemma upsert_chosen_visibility:
  assumes "upsert_package i db repo pkg kind src vis = Inr (j, db')"
    and "\<And>pv. package_visibility_of db repo pkg = Some pv \<Longrightarrow> vis = pv_visibility pv"
  shows "keeps_visibility db db'"
proof (cases "package_at db repo pkg")
  case None
  then show ?thesis using upsert_package_Inr[OF assms(1)]
    by (auto simp: keeps_visibility_def package_visibility_of_def package_at_def select_one_append split: option.splits)
next
  case (Some p)
  then have "vis = p_visibility p" using assms(2) by (simp add: package_visibility_of_def)
  then show ?thesis using upsert_package_Inr[OF assms(1)] Some
    by (auto simp: keeps_visibility_def package_visibility_of_def package_at_upd)
qed

lemma declare_new_visibility:
  assumes "set_package_visibility t db repo pkg vis = Inr (found, db')" "package_visibility_of a repo pkg = None" "keeps_visibility a db"
  shows "keeps_visibility a db'"
proof -
  have "package_visibility_of db' r n = package_visibility_of db r n" if "\<not> (r = repo \<and> n = pkg)" for r n
    using assms(1) that
    by (auto simp: set_package_visibility_def and_then_Inr_iff upd_package_def package_visibility_of_def package_at_upd option.map_ident split: if_splits)
  then show ?thesis using assms(2,3) unfolding keeps_visibility_def by (metis option.distinct(1))
qed

lemma persist_package_visibility: "preserves keeps_visibility (persist_package z repo pkg version requested p)"
  unfolding preserves_def
proof
  fix s
  obtain r s' where run: "persist_package z repo pkg version requested p s = (r, s')" by fastforce
  have b: "packages (upsert_blob t db b n) = packages db" for t db b n by (simp add: upsert_blob_def)
  have v: "package_visibility_of (upsert_blob t db b n) = package_visibility_of db" for t db b n
    by (simp add: package_visibility_of_def[abs_def] package_at_def[abs_def] b)
  have k: "keeps_visibility db (upsert_blob t db b n)" for t db b n by (rule visibility_same) (rule b)
  have chosen: "vis = pv_visibility pv" if "publish_visibility db repo pkg requested = Inr vis" "package_visibility_of db repo pkg = Some pv" for db vis requested pv
    using that by (auto simp: publish_visibility_def split: if_splits)
  have up: "keeps_visibility db db'" if "Inr vis = publish_visibility db repo pkg requested"
    "upsert_package i (upsert_blob t db b n) repo pkg kind src vis = Inr (j, db')" for db vis requested i t b n kind src j db'
    using upsert_chosen_visibility[OF that(2)] chosen[OF that(1)[symmetric]] licensing.trans[OF k] v by metis
  have "keeps_visibility (mc_db s) (mc_db s')"
    using run unfolding persist_package_def Let_def
    by (auto elim!: bind_actE simp: run_simps k licensing.same statement_def split: if_splits sum.splits)
      (erule (1) up | erule (1) declare_new_visibility)+
  then show "keeps_visibility (mc_db s) (mc_db (snd (persist_package z repo pkg version requested p s)))" by (simp add: run)
qed

lemma persist_visibility: "preserves keeps_visibility (persist z repo vendor name version requested p)"
  unfolding persist_def split_def
  by (auto intro!: licensing.bind persist_package_visibility licensing.statement visibility_same dest: insert_pushed_packages)

lemma publish_body_visibility: "preserves keeps_visibility (publish_body z repo vendor name version requested body)"
  unfolding publish_body_def spawn_prepare_def by (intro licensing.steps persist_visibility)

lemma authed_visibility: "preserves keeps_visibility (publish_authed_repo z org repo rq)"
  unfolding publish_authed_repo_def Let_def
  by (intro licensing.steps licensing.stamp visibility_same) (simp add: resolve_publish_token_def split_def)

lemma register_visibility: "preserves keeps_visibility (register_snapshot z repo env profile b len)"
  unfolding register_snapshot_def
  by (auto intro!: licensing.steps licensing.change licensing.statement visibility_same simp: and_then_Inr_iff upsert_blob_def
      elim!: create_snapshot_writes advance_latest_writes)

lemma finish_visibility: "preserves keeps_visibility (finish_upload z session ids sha n)"
  unfolding finish_upload_def Let_def assemble_snapshot_def by (auto intro!: licensing.steps register_visibility split: prod.split)

lemma manifest_visibility: "preserves keeps_visibility (complete_manifest z repo session n sha ps)"
  unfolding complete_manifest_def complete_package_def Let_def spawn_prepare_def assemble_and_archive_def
  by (auto intro!: licensing.steps finish_visibility persist_visibility)

lemma complete_visibility: "preserves keeps_visibility (upload_complete z org repo upload n sha rq)"
  unfolding upload_complete_def
  by (auto intro!: licensing.steps authed_visibility manifest_visibility licensing.change visibility_same simp: set_upload_status_def)

lemma single_visibility: "preserves keeps_visibility (publish_single z org repo vendor name version q body rq)"
  unfolding publish_single_def by (intro licensing.steps authed_visibility publish_body_visibility)

text \<open>A request for another visibility than the one of the package that exists is refused.\<close>

interpretation package_table: catalog_frame "\<lambda>a b. packages b = packages a"
  by unfold_locales auto

lemma visibility_chosen:
  assumes "persist_package z repo pkg version requested p s = (Inr x, s')"
  shows "\<exists>vis. publish_visibility (mc_db s) repo pkg requested = Inr vis"
  using assms unfolding persist_package_def Let_def
  by (elim bind_actE) (auto simp: run_simps elim!: bind_actE split: if_splits dest!: sym[of "Inr _"])

lemma other_visibility_refused:
  assumes "persist z repo vendor name version (Some asked) p s = (r, s')"
    and "package_visibility_of (mc_db s) repo (vendor @ ''/'' @ name) = Some pv" "asked \<noteq> pv_visibility pv"
  shows "\<exists>e. r = Inl e"
  using assms(1) unfolding persist_def
proof (cases rule: bind_actE)
  case (2 x s1)
  show ?thesis using visibility_chosen[OF 2(1)] assms(2,3) by (simp add: publish_visibility_def)
qed simp

lemma archived_packages:
  "preserves (\<lambda>a b. packages b = packages a) (spawn_prepare (archive_targz z body pkg cap))"
  "preserves (\<lambda>a b. packages b = packages a) (spawn_prepare (assemble_and_archive z ids sha pkg cap))"
  unfolding spawn_prepare_def assemble_and_archive_def by (intro package_table.steps)+

lemma authed_packages: "preserves (\<lambda>a b. packages b = packages a) (publish_authed_repo z org repo rq)"
  unfolding publish_authed_repo_def Let_def
  by (intro package_table.steps package_table.stamp) (simp add: resolve_publish_token_def split_def)

lemma visibility_of_packages:
  "packages b = packages a \<Longrightarrow> package_visibility_of b repo pkg = package_visibility_of a repo pkg"
  by (simp add: package_visibility_of_def package_at_def)

lemma prepared_visibility_refused:
  assumes "bind_act m (\<lambda>p. bind_act (persist z repo vendor name version (Some asked) p) (\<lambda>out. ret (publish_response out))) s = (r, s')"
    and "preserves (\<lambda>a b. packages b = packages a) m"
    and "package_visibility_of (mc_db s) repo (vendor @ ''/'' @ name) = Some pv" "asked \<noteq> pv_visibility pv"
  shows "\<exists>e. r = Inl e"
  using assms(1)
proof (cases rule: bind_actE)
  case (2 p s1)
  have v: "package_visibility_of (mc_db s1) repo (vendor @ ''/'' @ name) = Some pv"
    using visibility_of_packages[OF preservesD[OF assms(2) 2(1)]] assms(3) by simp
  from 2(2) show ?thesis
  proof (cases rule: bind_actE)
    case (2 out s2)
    then show ?thesis using other_visibility_refused[OF _ v assms(4)] by blast
  qed simp
qed simp

lemma single_refuses:
  assumes "publish_single z org repo vendor name version q body rq s = (r, s')"
    and "resolve_repo (mc_db s) org repo = Some i" "query_visibility q = Inr (Some asked)"
    and "package_visibility_of (mc_db s) i (vendor @ ''/'' @ name) = Some pv" "asked \<noteq> pv_visibility pv"
  shows "\<exists>e. r = Inl e"
  using assms(1) unfolding publish_single_def
proof (cases rule: bind_actE)
  case (2 j s1)
  then have j: "j = i" using publish_authed_repo_Inr[OF 2(1)] assms(2) by auto
  have v: "package_visibility_of (mc_db s1) i (vendor @ ''/'' @ name) = Some pv"
    using visibility_of_packages[OF preservesD[OF authed_packages 2(1)]] assms(4) by simp
  from 2(2) have "publish_body z i vendor name version (Some asked) body s1 = (r, s')"
    by (simp add: j assms(3) bind_act_def settled_def)
  then show ?thesis unfolding publish_body_def
    using prepared_visibility_refused[OF _ archived_packages(1) v assms(5)] by blast
qed simp

lemma complete_package_refuses:
  assumes "complete_package z repo u ids sha n s = (r, s')" "us_vendor u = Some vendor" "us_name u = Some name" "us_visibility u = Some asked"
    and "package_visibility_of (mc_db s) repo (vendor @ ''/'' @ name) = Some pv" "asked \<noteq> pv_visibility pv"
  shows "\<exists>e. r = Inl e"
proof (cases "n > max_package_bytes z")
  case True
  then show ?thesis using assms(1) by (simp add: complete_package_def settled_eq)
next
  case False
  then have "bind_act (spawn_prepare (assemble_and_archive z ids sha (vendor @ ''/'' @ name) (max_package_bytes z)))
      (\<lambda>p. bind_act (persist z repo vendor name (or_default (us_version u) []) (Some asked) p) (\<lambda>out. ret (publish_response out))) s = (r, s')"
    using assms(1-4) by (simp add: complete_package_def or_default_def)
  then show ?thesis using prepared_visibility_refused[OF _ archived_packages(2) assms(5,6)] by blast
qed

lemma manifest_refuses:
  assumes "complete_manifest z repo u n sha ps s = (r, s')" "us_vendor u = Some vendor" "us_name u = Some name" "us_visibility u = Some asked"
    and "us_kind u \<noteq> ''snapshot''" 
    and "package_visibility_of (mc_db s) repo (vendor @ ''/'' @ name) = Some pv" "asked \<noteq> pv_visibility pv"
  shows "\<exists>e. r = Inl e"
  using assms(1) unfolding complete_manifest_def
  by (elim bind_actE) (auto simp: need_eq settled_eq assms(5) elim!: bind_actE dest!: complete_package_refuses[OF _ assms(2-4) _ assms(7)] intro: assms(6))

lemma complete_refuses:
  assumes "upload_complete z org repo upload n sha rq s = (r, s')" "resolve_repo (mc_db s) org repo = Some i"
    and "upload_session (mc_db s) upload = Some u" "us_kind u \<noteq> ''snapshot''"
    and "us_vendor u = Some vendor" "us_name u = Some name" "us_visibility u = Some asked"
    and "package_visibility_of (mc_db s) i (vendor @ ''/'' @ name) = Some pv" "asked \<noteq> pv_visibility pv"
  shows "\<exists>e. r = Inl e"
  using assms(1) unfolding upload_complete_def
proof (cases rule: bind_actE)
  case (2 j s1)
  then have j: "j = i" using publish_authed_repo_Inr[OF 2(1)] assms(2) by auto
  have v: "package_visibility_of (mc_db s1) i (vendor @ ''/'' @ name) = Some pv"
    using visibility_of_packages[OF preservesD[OF authed_packages 2(1)]] assms(8) by simp
  have u: "upload_session (mc_db s1) upload = Some u"
    using publish_authed_repo_Inr[OF 2(1)] assms(3) by (auto simp: resolve_publish_token_def split_def upload_session_def)
  from 2(2) show ?thesis unfolding j
  proof (cases rule: bind_actE)
    case (2 u' s2)
    then have s2: "u' = u" "s2 = s1" using u by (auto simp: open_session_eq split: if_splits)
    from 2(2) show ?thesis unfolding s2
      by (elim bind_actE) (auto simp: read_db_eq elim!: bind_actE dest!: manifest_refuses[OF _ assms(5,6,7,4) v assms(9)])
  qed simp
qed simp

text \<open>C22: publishing makes no licensing statement about a package that exists: whatever visibility is asked for in the query or
  was asked for when the chunked upload began, and however the request ends, every package keeps its visibility and
  whether its owner declared it; and a request for a package of the repository that asks for another visibility, in the query
  of a single-shot push or at the start of the chunked upload it completes, is answered with an error.\<close>

theorem publish_keeps_visibility:
  assumes "publish_single z org repo vendor name version q body rq s = (r1, s1)" "upload_complete z org repo upload n sha rq s = (r2, s2)"
    and "package_visibility_of (mc_db s) i pkg = Some pv"
  shows "package_visibility_of (mc_db s1) i pkg = Some pv \<and> package_visibility_of (mc_db s2) i pkg = Some pv
    \<and> (resolve_repo (mc_db s) org repo = Some i \<and> pkg = vendor @ ''/'' @ name \<and> query_visibility q = Inr (Some asked)
        \<and> asked \<noteq> pv_visibility pv \<longrightarrow> (\<exists>e. r1 = Inl e))
    \<and> (resolve_repo (mc_db s) org repo = Some i \<and> upload_session (mc_db s) upload = Some u \<and> us_kind u \<noteq> ''snapshot''
        \<and> us_vendor u = Some v \<and> us_name u = Some m \<and> pkg = v @ ''/'' @ m \<and> us_visibility u = Some asked'
        \<and> asked' \<noteq> pv_visibility pv \<longrightarrow> (\<exists>e. r2 = Inl e))"
proof (intro conjI impI)
  show "package_visibility_of (mc_db s1) i pkg = Some pv" "package_visibility_of (mc_db s2) i pkg = Some pv"
    using preservesD[OF single_visibility assms(1)] preservesD[OF complete_visibility assms(2)] assms(3)
    by (simp_all add: keeps_visibility_def)
next
  assume "resolve_repo (mc_db s) org repo = Some i \<and> pkg = vendor @ ''/'' @ name \<and> query_visibility q = Inr (Some asked)
    \<and> asked \<noteq> pv_visibility pv"
  then show "\<exists>e. r1 = Inl e" using single_refuses[OF assms(1)] assms(3) by blast
next
  assume "resolve_repo (mc_db s) org repo = Some i \<and> upload_session (mc_db s) upload = Some u \<and> us_kind u \<noteq> ''snapshot''
    \<and> us_vendor u = Some v \<and> us_name u = Some m \<and> pkg = v @ ''/'' @ m \<and> us_visibility u = Some asked'
    \<and> asked' \<noteq> pv_visibility pv"
  then show "\<exists>e. r2 = Inl e" using complete_refuses[OF assms(2), of i u v m asked' pv] assms(3) by simp
qed

theorem publish_keeps_visibility_witness:
  "package_visibility_of (mc_db (snd (publish_single demo_site ''acme'' ''main'' ''a'' ''b'' ''3.0'' (Some ''private'') [1, 2] demo_push_request demo_push))) 10 ''a/b''
     = Some \<lparr>pv_visibility = Public, pv_declared = False\<rparr>
   \<and> (\<exists>e. fst (publish_single demo_site ''acme'' ''main'' ''a'' ''b'' ''3.0'' (Some ''private'') [1, 2] demo_push_request demo_push) = Inl e)"
proof -
  have v: "package_visibility_of (mc_db demo_push) 10 (''a'' @ ''/'' @ ''b'') = Some \<lparr>pv_visibility = Public, pv_declared = False\<rparr>"
  proof -
    have "package_at (mc_db demo_push) 10 (''a'' @ ''/'' @ ''b'') = Some demo_package" "p_visibility demo_package = Public" "p_declared demo_package = None" by code_simp+
    then show ?thesis by (simp add: package_visibility_of_def)
  qed
  have asked: "resolve_repo (mc_db demo_push) ''acme'' ''main'' = Some 10" "query_visibility (Some ''private'') = Inr (Some Private)"
    by code_simp+
  note p = publish_keeps_visibility[OF prod.collapse[symmetric] prod.collapse[symmetric] v,
    of demo_site "''acme''" "''main''" "''a''" "''b''" "''3.0''" "Some ''private''" "[1, 2]" demo_push_request, where asked = Private]
  show ?thesis using p asked by simp
qed

section \<open>Chunked uploads\<close>

lemma gather_exact:
  assumes "bucket_service (rt_http (app_rt (si_app z))) objs"
    and "gather io gone too_large z cap ids input s = (r, s')" and "int (length input) \<le> cap"
  shows "\<exists>w. s' = s\<lparr>mc_world := w\<rparr> \<and> any_contents objs (app_store (si_app z)) w = any_contents objs (app_store (si_app z)) (mc_world s)
    \<and> (case r of Inr out \<Rightarrow> (\<forall>i\<in>set ids. any_contents objs (app_store (si_app z)) (mc_world s) i \<noteq> None)
          \<and> out = input @ concat (map (\<lambda>i. the (any_contents objs (app_store (si_app z)) (mc_world s) i)) ids) \<and> int (length out) \<le> cap
        | Inl _ \<Rightarrow> True)"
  using assms(2,3)
proof (induction ids arbitrary: input s)
  case Nil
  then show ?case by (auto simp: ret_eq intro: exI[of _ "mc_world s"])
next
  case (Cons i ids)
  let ?c = "any_contents objs (app_store (si_app z))"
  note store = any_blob_store[OF assms(1), of "app_store (si_app z)"]
  obtain found w1 where get: "any_get (app_rt (si_app z)) (app_store (si_app z)) (mc_world s) i = (found, w1)" by fastforce
  have c1: "?c w1 = ?c (mc_world s)" using blob_store.get_frame[OF store get] .
  have step: "store_get io z i s = (map_err io found, s\<lparr>mc_world := w1\<rparr>)"
    by (simp add: store_get_def on_world_def get)
  show ?case
  proof (cases found)
    case (Inl e)
    then have "r = Inl (io e)" "s' = s\<lparr>mc_world := w1\<rparr>" using Cons.prems(1) step by (auto simp: bind_act_def)
    then show ?thesis using c1 by auto
  next
    case (Inr x)
    have x: "x = ?c (mc_world s) i" using blob_store.get_ok[OF store] get Inr by blast
    show ?thesis
    proof (cases x)
      case None
      then have "r = Inl gone" "s' = s\<lparr>mc_world := w1\<rparr>" using Cons.prems(1) step Inr by (auto simp: bind_act_def need_def settled_def)
      then show ?thesis using c1 by auto
    next
      case (Some chunk)
      then have rest: "(if cap < int (length (input @ chunk)) then settled (Inl too_large)
          else gather io gone too_large z cap ids (input @ chunk)) (s\<lparr>mc_world := w1\<rparr>) = (r, s')"
        using Cons.prems(1) step Inr by (simp add: bind_act_def need_def settled_def split: if_splits)
      show ?thesis
      proof (cases "cap < int (length (input @ chunk))")
        case True
        then show ?thesis using rest c1 by (auto simp: settled_eq)
      next
        case False
        with rest have g: "gather io gone too_large z cap ids (input @ chunk) (s\<lparr>mc_world := w1\<rparr>) = (r, s')" by simp
        have "?c (mc_world s) i = Some chunk" using x Some by simp
        then show ?thesis using Cons.IH[OF g] False c1 by (cases r) (auto intro: exI[of _ chunk])
      qed
    qed
  qed
qed

lemma assembled_exact:
  assumes "bucket_service (rt_http (app_rt (si_app z))) objs" "0 \<le> cap"
    and "assembled io gone too_large bad z ids sha cap s = (Inr out, s')"
  shows "\<exists>w. s' = s\<lparr>mc_world := w\<rparr> \<and> any_contents objs (app_store (si_app z)) w = any_contents objs (app_store (si_app z)) (mc_world s)
    \<and> (\<forall>i\<in>set ids. any_contents objs (app_store (si_app z)) (mc_world s) i \<noteq> None)
    \<and> out = concat (map (\<lambda>i. the (any_contents objs (app_store (si_app z)) (mc_world s) i)) ids) \<and> int (length out) \<le> cap
    \<and> rt_sha (app_rt (si_app z)) out = sha"
proof -
  obtain s1 where g: "gather io gone too_large z cap ids [] s = (Inr out, s1)" "s' = s1" "rt_sha (app_rt (si_app z)) out = sha"
    using assms(3) by (auto simp: assembled_def bind_act_Inr settled_eq split: if_splits)
  from gather_exact[OF assms(1) g(1)] assms(2) g(2,3) show ?thesis by auto
qed

lemma digit_nonneg: "is_digit c \<Longrightarrow> 0 \<le> digit_val c"
proof -
  assume "is_digit c"
  then have "(of_char (CHR ''0'') :: nat) \<le> of_char c" unfolding is_digit_def less_eq_char_def by blast
  then have "(48 :: nat) \<le> of_char c" by simp
  then have "int 48 \<le> int (of_char c)" by presburger
  then show ?thesis unfolding digit_val_def of_nat_of_char by simp
qed

lemma dec_nat_nonneg: "dec_nat s = Some n \<Longrightarrow> 0 \<le> n"
proof -
  have "0 \<le> acc \<Longrightarrow> list_all is_digit s \<Longrightarrow> 0 \<le> foldl (\<lambda>n c. 10 * n + digit_val c) acc s" for acc
  proof (induction s arbitrary: acc)
    case (Cons c s)
    then have "0 \<le> 10 * acc + digit_val c" "list_all is_digit s" using digit_nonneg[of c] by simp_all
    then show ?case using Cons.IH by (simp only: foldl_Cons)
  qed simp
  then show "dec_nat s = Some n \<Longrightarrow> 0 \<le> n"
    by (auto simp: dec_nat_def dec_val_def split: if_splits)
qed

lemma parse_u64_nonneg: "parse_u64 t = Some n \<Longrightarrow> 0 \<le> n"
  unfolding parse_u64_def by (auto dest!: dec_nat_nonneg split: option.split_asm if_split_asm)

lemma env_bytes_nonneg: "0 \<le> d \<Longrightarrow> 0 \<le> env_bytes env key d"
  unfolding env_bytes_def using parse_u64_nonneg by (cases "env key") (auto split: option.split)

lemma max_package_nonneg: "0 \<le> max_package_bytes z"
  unfolding max_package_bytes_def by (rule env_bytes_nonneg) simp

lemma manifest_ok_parts:
  assumes "manifest_ok n ps = Inr u"
  shows "map up_number ps = [1..n]"
proof (rule nth_equalityI)
  have l: "length ps = nat (max 0 n)" and c: "\<forall>i\<in>set [0..<length ps]. up_number (ps ! i) = int i + 1"
    using assms by (auto simp: manifest_ok_def list_ex_iff split: if_splits)
  then show "length (map up_number ps) = length [1..n]" by (simp add: max_def)
  fix i assume "i < length (map up_number ps)"
  then show "map up_number ps ! i = [1..n] ! i" using l c by (simp add: nth_upto max_def split: if_splits)
qed

lemma as_blob_ids_Some: "as_blob_ids ps = Some ids \<Longrightarrow> ids = map up_sha ps"
  by (simp add: as_blob_ids_def split: if_splits)

lemma map_failure_bind:
  "m s = (Inr x, s1) \<Longrightarrow> map_failure f (bind_act m k) s = map_failure f (k x) s1"
  by (simp add: map_failure_def bind_act_def)

lemma map_failure_Inr: "map_failure f m s = (Inr x, s') \<longleftrightarrow> m s = (Inr x, s')"
  by (auto simp: map_failure_def map_err_Inr split: prod.splits)

lemma complete_package_body:
  assumes "bucket_service (rt_http (app_rt (si_app z))) objs"
    and "complete_package z repo u ids sha n s = (Inr ans, s')"
  shows "\<exists>w body. any_contents objs (app_store (si_app z)) w = any_contents objs (app_store (si_app z)) (mc_world s)
    \<and> (\<forall>i\<in>set ids. any_contents objs (app_store (si_app z)) (mc_world s) i \<noteq> None)
    \<and> body = concat (map (\<lambda>i. the (any_contents objs (app_store (si_app z)) (mc_world s) i)) ids) \<and> rt_sha (app_rt (si_app z)) body = sha
    \<and> publish_body z repo (or_default (us_vendor u) []) (or_default (us_name u) []) (or_default (us_version u) []) (us_visibility u) body
        (s\<lparr>mc_world := w\<rparr>) = (Inr ans, s')"
proof -
  let ?pkg = "or_default (us_vendor u) [] @ ''/'' @ or_default (us_name u) []"
  obtain p s1 where prep: "spawn_prepare (assemble_and_archive z ids sha ?pkg (max_package_bytes z)) s = (Inr p, s1)"
      and rest: "bind_act (persist z repo (or_default (us_vendor u) []) (or_default (us_name u) []) (or_default (us_version u) []) (us_visibility u) p)
        (\<lambda>outcome. ret (publish_response outcome)) s1 = (Inr ans, s')"
    using assms(2) by (auto simp: complete_package_def Let_def settled_eq split: if_splits elim!: bind_actE[of "spawn_prepare _"])
  obtain body s0 where a: "assembled Io Gone TooLarge Bad z ids sha (max_package_bytes z) s = (Inr body, s0)"
      "archive_targz z body ?pkg (max_package_bytes z) s0 = (Inr p, s1)"
    using prep unfolding spawn_prepare_def map_failure_Inr assemble_and_archive_def bind_act_Inr by blast
  from assembled_exact[OF assms(1) max_package_nonneg a(1)] obtain w where w: "s0 = s\<lparr>mc_world := w\<rparr>"
      "any_contents objs (app_store (si_app z)) w = any_contents objs (app_store (si_app z)) (mc_world s)"
      "\<forall>i\<in>set ids. any_contents objs (app_store (si_app z)) (mc_world s) i \<noteq> None"
      "body = concat (map (\<lambda>i. the (any_contents objs (app_store (si_app z)) (mc_world s) i)) ids)" "rt_sha (app_rt (si_app z)) body = sha"
    by blast
  have "publish_body z repo (or_default (us_vendor u) []) (or_default (us_name u) []) (or_default (us_version u) []) (us_visibility u) body s0 = (Inr ans, s')"
    unfolding publish_body_def spawn_prepare_def
    by (rule iffD2[OF bind_act_Inr], intro exI conjI) (rule iffD2[OF map_failure_Inr], rule a(2), rule rest)
  then show ?thesis using w by blast
qed

text \<open>C21: a chunked upload is the single-shot upload of its parts: when completing a package session succeeds, the session was an
  open one of the caller's repository, the staged parts are exactly numbered 1 to the declared count, the bytes read back in that
  order hash to the declared digest, and the answer and every effect are those of publishing the concatenated bytes under
  the package, version and visibility the session was opened with, after which the session is completed.\<close>

theorem chunked_equals_single:
  assumes "bucket_service (rt_http (app_rt (si_app z))) objs"
    and "upload_complete z org repo upload n sha rq s = (Inr ans, s')"
    and "upload_session (mc_db s) upload = Some u" "us_kind u \<noteq> ''snapshot''"
  shows "\<exists>s1 s2 w body. publish_authed_repo z org repo rq s = (Inr (us_repo u), s1) \<and> us_status u = ''open''
    \<and> map up_number (upload_parts (mc_db s) upload) = [1..n] \<and> parse_hex32 sha = Inr (Some (rt_sha (app_rt (si_app z)) body))
    \<and> body = concat (map (\<lambda>p. the (any_contents objs (app_store (si_app z)) (mc_world s) (up_sha p))) (upload_parts (mc_db s) upload))
    \<and> any_contents objs (app_store (si_app z)) w = any_contents objs (app_store (si_app z)) (mc_world s)
    \<and> publish_body z (us_repo u) (or_default (us_vendor u) []) (or_default (us_name u) []) (or_default (us_version u) []) (us_visibility u) body
        (s1\<lparr>mc_world := w\<rparr>) = (Inr ans, s2)
    \<and> s' = s2\<lparr>mc_db := set_upload_status (mc_db s2) upload ''completed''\<rparr>"
proof -
  obtain i s1 v s3 s2 where auth: "publish_authed_repo z org repo rq s = (Inr i, s1)" and op: "open_session upload i s1 = (Inr v, s3)"
      and comp: "complete_manifest z i v n sha (upload_parts (mc_db s3) upload) s3 = (Inr ans, s2)"
      and s': "s' = s2\<lparr>mc_db := set_upload_status (mc_db s2) upload ''completed''\<rparr>"
    using assms(2) by (auto simp: upload_complete_def run_Inr)
  have tables: "upload_session (mc_db s1) upload = Some u" "upload_parts (mc_db s1) = upload_parts (mc_db s)" "mc_world s1 = mc_world s"
    using publish_authed_repo_Inr[OF auth] assms(3) by (auto simp: resolve_publish_token_def split_def upload_session_def upload_parts_def[abs_def])
  then have v: "v = u" "s3 = s1" "us_repo u = i" "us_status u = ''open''" using op by (auto simp: open_session_eq split: if_splits)
  obtain sha32 ids where c: "manifest_ok n (upload_parts (mc_db s) upload) = Inr ()" "parse_hex32 sha = Inr (Some sha32)"
      "as_blob_ids (upload_parts (mc_db s) upload) = Some ids" "complete_package z i u ids sha32 (total_size (upload_parts (mc_db s) upload)) s1 = (Inr ans, s2)"
    using comp assms(4) v tables by (auto simp: complete_manifest_def run_Inr)
  from complete_package_body[OF assms(1) c(4)] as_blob_ids_Some[OF c(3)] manifest_ok_parts[OF c(1)] c(2) auth v s' tables
  show ?thesis by (auto simp: o_def)
qed

definition demo_part :: "int \<Rightarrow> byte \<Rightarrow> part_row" where
  "demo_part n b = \<lparr>up_session = 91, up_number = n, up_sha = rt_sha demo_rt [b], up_size = 1\<rparr>"

definition demo_session :: upload_row where
  "demo_session = (new_upload 91 10 0)\<lparr>us_vendor := Some ''a'', us_name := Some ''b'', us_version := Some ''3.0''\<rparr>"

definition demo_chunked :: "(string \<Rightarrow> bytes option) machine" where
  "demo_chunked = demo_push\<lparr>mc_db := (mc_db demo_push)\<lparr>uploads := [demo_session], parts := [demo_part 2 2, demo_part 1 1]\<rparr>,
     mc_world := demo_world\<lparr>w_net := (\<lambda>u. if u = s3_url demo_s3 (rt_sha demo_rt [1]) then Some [1]
       else if u = s3_url demo_s3 (rt_sha demo_rt [2]) then Some [2] else None)\<rparr>\<rparr>"

definition demo_digest :: string where
  "demo_digest = hex (rt_sha demo_rt [1, 2])"

lemma demo_chunks:
  "assembled io gone too_large bad demo_site [rt_sha demo_rt [1], rt_sha demo_rt [2]] (rt_sha demo_rt [1, 2]) (max_package_bytes demo_site)
     (s\<lparr>mc_world := mc_world demo_chunked\<rparr>) = (Inr [1, 2], s\<lparr>mc_world := mc_world demo_chunked\<rparr>)"
proof -
  have "\<not> max_package_bytes demo_site < 1" "\<not> max_package_bytes demo_site < 2" "rt_sha demo_rt [2] \<noteq> rt_sha demo_rt [1]" by code_simp+
  then show ?thesis
    by (simp add: assembled_def bind_act_def store_get_def on_world_def demo_site_simps demo_get need_def settled_def ret_def
        s3_contents_def demo_chunked_def del: any_get.simps)
qed

theorem chunked_equals_single_witness:
  "\<exists>s'. upload_complete demo_site ''acme'' ''main'' 91 2 demo_digest demo_push_request demo_chunked = (Inr (publish_response Created), s')
     \<and> us_status demo_session = ''open'' \<and> map up_number (upload_parts (mc_db demo_chunked) 91) = [1..2]"
proof -
  let ?auth = "publish_authed_repo demo_site ''acme'' ''main'' demo_push_request demo_chunked"
  have "?auth = (Inr 10, snd ?auth)" by (rule fst_pair) code_simp
  then obtain s0 where auth: "?auth = (Inr 10, s0)" ..
  have db: "packages (mc_db s0) = packages (mc_db demo_push)" "versions (mc_db s0) = versions (mc_db demo_push)" "members (mc_db s0) = []"
      "upload_session (mc_db s0) = upload_session (mc_db demo_chunked)" "upload_parts (mc_db s0) = upload_parts (mc_db demo_chunked)"
      "mc_world s0 = mc_world demo_chunked"
    using publish_authed_repo_Inr[OF auth]
    by (auto simp: resolve_publish_token_def split_def demo_chunked_def demo_push_def demo_registry_def demo_db_def empty_db_def
        upload_session_def[abs_def] upload_parts_def[abs_def])
  have u: "upload_session (mc_db demo_chunked) 91 = Some demo_session" "us_repo demo_session = 10" "us_status demo_session = ''open''"
      "us_kind demo_session = ''package''" "us_visibility demo_session = None" "or_default (us_vendor demo_session) [] = ''a''"
      "or_default (us_name demo_session) [] = ''b''" "or_default (us_version demo_session) [] = ''3.0''" by code_simp+
  have ps: "upload_parts (mc_db demo_chunked) 91 = [demo_part 1 1, demo_part 2 2]" by code_simp
  have m: "manifest_ok 2 [demo_part 1 1, demo_part 2 2] = Inr ()" "parse_hex32 demo_digest = Inr (Some (rt_sha demo_rt [1, 2]))"
      "as_blob_ids [demo_part 1 1, demo_part 2 2] = Some [rt_sha demo_rt [1], rt_sha demo_rt [2]]"
      "\<not> max_package_bytes demo_site < total_size [demo_part 1 1, demo_part 2 2]" by code_simp+
  obtain s1 where body: "publish_body demo_site 10 ''a'' ''b'' ''3.0'' None [1, 2] s0 = (Inr (publish_response Created), s1)"
    using demo_body_created[OF db(1-3)] by blast
  have "s0\<lparr>mc_world := mc_world demo_chunked\<rparr> = s0" by (simp add: db(6)[symmetric])
  then have ch: "assembled Io Gone TooLarge Bad demo_site [rt_sha demo_rt [1], rt_sha demo_rt [2]] (rt_sha demo_rt [1, 2])
      (max_package_bytes demo_site) s0 = (Inr [1, 2], s0)" using demo_chunks[of Io Gone TooLarge Bad s0] by simp
  have "complete_package demo_site 10 demo_session [rt_sha demo_rt [1], rt_sha demo_rt [2]] (rt_sha demo_rt [1, 2])
      (total_size [demo_part 1 1, demo_part 2 2]) s0 = (Inr (publish_response Created), s1)"
    using body ch m(4) by (simp add: complete_package_def Let_def u publish_body_def bind_act_def spawn_prepare_def
        map_failure_def assemble_and_archive_def)
  then have "\<exists>s'. upload_complete demo_site ''acme'' ''main'' 91 2 demo_digest demo_push_request demo_chunked = (Inr (publish_response Created), s')"
    by (simp add: upload_complete_def bind_act_def auth open_session_eq db u read_db_def ps complete_manifest_def m settled_def need_def
        change_db_def ret_def del: publish_response.simps)
  then obtain s' where run: "upload_complete demo_site ''acme'' ''main'' 91 2 demo_digest demo_push_request demo_chunked = (Inr (publish_response Created), s')" ..
  have bucket: "bucket_service (rt_http (app_rt (si_app demo_site))) (\<lambda>w. w)" by (simp add: demo_site_simps demo_rt_def demo_bucket_service)
  have k: "us_kind demo_session \<noteq> ''snapshot''" by code_simp
  show ?thesis using chunked_equals_single[OF bucket run u(1) k] run by blast
qed

section \<open>Snapshots\<close>

lemma resolve_repo_tokens: "resolve_repo (db\<lparr>tokens := ts\<rparr>) org repo = resolve_repo db org repo"
  by (simp add: resolve_repo_def org_by_slug_def repo_by_slug_def split: option.split)

lemma resolve_latest_tokens: "resolve_latest (db\<lparr>tokens := ts\<rparr>) = resolve_latest db"
  by (simp add: resolve_latest_def fun_eq_iff split: option.split)

lemma authorize_read_Inr:
  assumes "authorize_read z org repo rq s = (Inr i, s')"
  shows "\<exists>token. extract_token (app_b64 (si_app z)) rq = Some token \<and> resolve_repo (mc_db s) org repo = Some i
      \<and> fst (token_valid (rt_sha (app_rt (si_app z))) (app_now (si_app z)) (mc_db s) i token)
      \<and> s' = s\<lparr>mc_db := snd (token_valid (rt_sha (app_rt (si_app z))) (app_now (si_app z)) (mc_db s) i token)\<rparr>"
  using assms unfolding authorize_read_def Let_def
  by (auto simp: run_Inr stamping_def split_def split: if_splits)

text \<open>What an answer to a download carries of a blob.\<close>

definition delivers :: "('v, 'w) site \<Rightarrow> sha256 \<Rightarrow> answer \<Rightarrow> bool" where
  "delivers z blob ans = (case ans of Octets bs \<Rightarrow> rt_sha (app_rt (si_app z)) bs = blob
     | Redirected url \<Rightarrow> any_presigned (app_rt (si_app z)) (app_store (si_app z)) blob PRESIGN_SECS = Some url | _ \<Rightarrow> False)"

lemma serve_snapshot_delivers:
  assumes "bucket_service (rt_http (app_rt (si_app z))) objs"
    and "\<And>i b. any_contents objs (app_store (si_app z)) (mc_world s) i = Some b \<Longrightarrow> rt_sha (app_rt (si_app z)) b = i"
    and "serve_snapshot_blob z blob s = (Inr ans, s')"
  shows "delivers z blob ans"
  using assms(3) blob_store.get_ok[OF any_blob_store[OF assms(1)]] assms(2)
  by (auto simp: serve_snapshot_blob_def Let_def run_Inr store_get_def on_world_def map_err_Inr delivers_def
      split: option.splits if_splits prod.splits)

lemma resolve_latest_advanced:
  assumes "advance_latest db repo env profile i = Inr db'" "select_one (\<lambda>s. sn_id s = i) (snapshots db) = Some sn"
  shows "resolve_latest db' repo env profile = Some sn"
proof (cases "select_one (is_latest_of repo env profile) (latests db)")
  case None
  then have "\<not> exists_where (is_latest_of repo env profile) (latests db)" by (simp add: select_one_None)
  then show ?thesis using assms None
    by (auto simp: advance_latest_def resolve_latest_def select_one_append select_one_Cons is_latest_of_def split: if_splits)
next
  case (Some l)
  have l: "is_latest_of repo env profile l" "l \<in> set (latests db)" using select_one_Some[OF Some] by auto
  have key: "is_latest_of repo env profile (x\<lparr>la_snapshot := k\<rparr>) = is_latest_of repo env profile x" for x k by (simp add: is_latest_of_def)
  have "exists_where (is_latest_of repo env profile) (latests db)" using l by auto
  then show ?thesis using assms Some l(1)
    by (simp add: advance_latest_def split: if_splits) (auto simp: resolve_latest_def select_one_upd_where key)
qed

lemma create_snapshot_found:
  assumes "create_snapshot i t db repo env profile b n sr = Inr (j, db')" "i \<notin> sn_id ` set (snapshots db)"
  shows "j = i \<and> (\<exists>sn. select_one (\<lambda>s. sn_id s = i) (snapshots db') = Some sn \<and> sn_blob sn = b \<and> sn_size sn = n \<and> in_variant repo env profile sn)"
proof -
  have "select_one (\<lambda>s. sn_id s = i) (snapshots db) = None" using assms(2) by (auto simp: select_one_None)
  then show ?thesis using assms(1)
    by (auto simp: create_snapshot_def select_one_append select_one_Cons in_variant_def split: if_splits)
qed

lemma register_snapshot_latest:
  assumes "register_snapshot z repo env profile blob n s = (Inr i, s')" "mc_next s \<notin> sn_id ` set (snapshots (mc_db s))"
  shows "\<exists>sn. resolve_latest (mc_db s') repo env profile = Some sn \<and> sn_blob sn = blob \<and> sn_size sn = n \<and> in_variant repo env profile sn
    \<and> mc_world s' = mc_world s"
proof -
  let ?db0 = "upsert_blob (app_now (si_app z)) (mc_db s) blob n"
  obtain j db1 db2 where c: "create_snapshot (mc_next s) (app_now (si_app z)) ?db0 repo env profile blob n None = Inr (j, db1)"
      and a: "advance_latest db1 repo env profile j = Inr db2" and s': "mc_db s' = db2" "mc_world s' = mc_world s"
    using assms(1) by (auto simp: register_snapshot_def run_Inr statement_Inr and_then_Inr_iff)
  have "snapshots ?db0 = snapshots (mc_db s)" by (simp add: upsert_blob_def)
  with create_snapshot_found[OF c] assms(2) obtain sn where sn: "j = mc_next s" "select_one (\<lambda>s'. sn_id s' = mc_next s) (snapshots db1) = Some sn"
      "sn_blob sn = blob" "sn_size sn = n" "in_variant repo env profile sn" by auto
  with resolve_latest_advanced[OF a[unfolded sn(1)] sn(2)] s' show ?thesis by auto
qed

lemma store_put_Inr:
  "store_put err z bs s = (Inr b, s') \<Longrightarrow> \<exists>w. any_put (app_rt (si_app z)) (app_store (si_app z)) (mc_world s) bs = (Inr b, w) \<and> s' = s\<lparr>mc_world := w\<rparr>"
  by (auto simp: store_put_def on_world_def Let_def map_err_Inr split: prod.splits)

interpretation naming: catalog_frame "\<lambda>a b. orgs b = orgs a \<and> repos b = repos a \<and> tokens b = tokens a"
  by unfold_locales auto

lemma register_names: "preserves (\<lambda>a b. orgs b = orgs a \<and> repos b = repos a \<and> tokens b = tokens a) (register_snapshot z repo env profile b n)"
  unfolding register_snapshot_def
  by (auto intro!: naming.steps naming.change naming.statement simp: and_then_Inr_iff upsert_blob_def
      elim!: create_snapshot_writes advance_latest_writes)

lemma resolve_repo_cong: "orgs b = orgs a \<Longrightarrow> repos b = repos a \<Longrightarrow> resolve_repo b = resolve_repo a"
  by (auto simp: resolve_repo_def[abs_def] org_by_slug_def repo_by_slug_def fun_eq_iff split: option.split)

lemma serve_snapshot_answer:
  assumes "bucket_service (rt_http (app_rt (si_app z))) objs" "any_contents objs (app_store (si_app z)) (mc_world s) blob = Some c"
    and "serve_snapshot_blob z blob s = (r, s')"
  shows "case r of Inr ans \<Rightarrow> ans = (case any_presigned (app_rt (si_app z)) (app_store (si_app z)) blob PRESIGN_SECS of
      Some url \<Rightarrow> Redirected url | None \<Rightarrow> Octets c) | Inl e \<Rightarrow> \<exists>m. e = AppStorage m"
proof (cases "any_presigned (app_rt (si_app z)) (app_store (si_app z)) blob PRESIGN_SECS")
  case None
  obtain x w where get: "any_get (app_rt (si_app z)) (app_store (si_app z)) (mc_world s) blob = (x, w)" by fastforce
  show ?thesis
    using assms(3) get None blob_store.get_ok[OF any_blob_store[OF assms(1)]] assms(2)
    by (cases x) (auto simp: serve_snapshot_blob_def Let_def bind_act_def store_get_def on_world_def need_def settled_def ret_def)
next
  case (Some url)
  obtain x w where ex: "any_exists (app_rt (si_app z)) (app_store (si_app z)) (mc_world s) blob = (x, w)" by fastforce
  have "x \<noteq> Inr False"
    using blob_store.exists_ok[OF any_blob_store[OF assms(1)]] ex assms(2) by fastforce
  then show ?thesis
    using assms(3) ex Some
    by (cases x) (auto simp: serve_snapshot_blob_def Let_def bind_act_def on_world_def settled_def)
qed

lemma authorize_read_admits:
  assumes "extract_token (app_b64 (si_app z)) rq = Some token" "resolve_repo (mc_db s) org repo = Some i"
    and "fst (token_valid (rt_sha (app_rt (si_app z))) (app_now (si_app z)) (mc_db s) i token)"
  shows "\<exists>s'. authorize_read z org repo rq s = (Inr i, s')"
  using assms by (simp add: authorize_read_def Let_def bind_act_def read_db_def need_def settled_def stamping_def ret_def split_def)

text \<open>C24: the dataset routes round-trip: after an accepted upload, the environment's latest snapshot for that profile is the uploaded
  one, with the digest and size of the body, and the store holds, under that digest, the body (or the object of the same digest
  that was there before). A download of latest with a token valid for the repository then answers with exactly those bytes, or
  with the object store's signed address of them where the store signs; the only other outcome is a failing store.\<close>

theorem snapshot_roundtrip:
  assumes "bucket_service (rt_http (app_rt (si_app z))) objs"
    and "\<forall>i b. any_contents objs (app_store (si_app z)) (mc_world s) i = Some b \<longrightarrow> rt_sha (app_rt (si_app z)) b = i"
    and "mc_next s \<notin> sn_id ` set (snapshots (mc_db s))"
    and "snapshot_upload_single z org repo env q body rq s = (Inr ans, s1)"
    and "extract_token (app_b64 (si_app z)) rq' = Some token" "resolve_repo (mc_db s1) org repo = Some repo_id"
    and "fst (token_valid (rt_sha (app_rt (si_app z))) (app_now (si_app z)) (mc_db s1) repo_id token)"
    and "download_latest z org repo env q rq' s1 = (r, s2)"
  shows "\<exists>sn c. resolve_latest (mc_db s1) repo_id env (profile_name q) = Some sn
    \<and> sn_blob sn = rt_sha (app_rt (si_app z)) body \<and> sn_size sn = blob_size body \<and> in_variant repo_id env (profile_name q) sn
    \<and> any_contents objs (app_store (si_app z)) (mc_world s1) (sn_blob sn) = Some c \<and> rt_sha (app_rt (si_app z)) c = sn_blob sn
    \<and> (c = body \<or> any_contents objs (app_store (si_app z)) (mc_world s) (sn_blob sn) = Some c)
    \<and> (case r of Inr ans' \<Rightarrow> ans' = (case any_presigned (app_rt (si_app z)) (app_store (si_app z)) (sn_blob sn) PRESIGN_SECS of
          Some url \<Rightarrow> Redirected url | None \<Rightarrow> Octets c)
        | Inl e \<Rightarrow> \<exists>m. e = AppStorage m)"
proof -
  note store = any_blob_store[OF assms(1), of "app_store (si_app z)"]
  obtain i s3 w s4 j where auth: "publish_authed_repo z org repo rq s = (Inr i, s3)"
      and stored: "store_put AppStorage z body s3 = (Inr w, s4)"
      and reg: "register_snapshot z i env (profile_name q) w (blob_size body) s4 = (Inr j, s1)"
    using assms(4) by (auto simp: snapshot_upload_single_def run_Inr)
  have s3: "mc_next s3 = mc_next s" "snapshots (mc_db s3) = snapshots (mc_db s)" "mc_world s3 = mc_world s"
      "resolve_repo (mc_db s3) org repo = Some i"
    using publish_authed_repo_Inr[OF auth] by (auto simp: resolve_publish_token_def split_def resolve_repo_stamp)
  from store_put_Inr[OF stored] obtain w4 where put: "any_put (app_rt (si_app z)) (app_store (si_app z)) (mc_world s) body = (Inr w, w4)"
      and s4: "s4 = s3\<lparr>mc_world := w4\<rparr>" using s3 by auto
  have w: "w = rt_sha (app_rt (si_app z)) body" using blob_store.put_ok[OF store put] by simp
  have "mc_next s4 \<notin> sn_id ` set (snapshots (mc_db s4))" using assms(3) s3 s4 by simp
  from register_snapshot_latest[OF reg this] obtain sn where sn: "resolve_latest (mc_db s1) i env (profile_name q) = Some sn" "sn_blob sn = w"
      "sn_size sn = blob_size body" "in_variant i env (profile_name q) sn" "mc_world s1 = w4" using s4 by auto
  obtain c where c: "any_contents objs (app_store (si_app z)) (mc_world s1) w = Some c" using blob_store.put_ok[OF store put] sn(5) by auto
  have held: "c = body \<or> any_contents objs (app_store (si_app z)) (mc_world s) w = Some c"
    using blob_store.put_frame[OF store put, of w] c sn(5) by auto
  then have intact: "rt_sha (app_rt (si_app z)) c = w" using assms(2) w by auto
  have "resolve_repo (mc_db s1) = resolve_repo (mc_db s4)"
    using preservesD[OF register_names reg] by (auto intro: resolve_repo_cong)
  then have i: "i = repo_id" using assms(6) s3(4) s4 by simp
  obtain s5 where read: "authorize_read z org repo rq' s1 = (Inr repo_id, s5)" using authorize_read_admits[OF assms(5-7)] by blast
  have s5: "resolve_latest (mc_db s5) = resolve_latest (mc_db s1)" "mc_world s5 = mc_world s1"
    using authorize_read_Inr[OF read] by (auto simp: token_valid_def stamp_tokens_def resolve_latest_tokens)
  have "serve_snapshot_blob z w s5 = (r, s2)"
    using assms(8) sn(1,2) s5(1) i by (simp add: download_latest_def bind_act_def read read_db_def need_def settled_def)
  from serve_snapshot_answer[OF assms(1) _ this, of c] c s5(2) sn(5)
  have "case r of Inr ans \<Rightarrow> ans = (case any_presigned (app_rt (si_app z)) (app_store (si_app z)) w PRESIGN_SECS of
      Some url \<Rightarrow> Redirected url | None \<Rightarrow> Octets c) | Inl e \<Rightarrow> \<exists>m. e = AppStorage m" by simp
  with sn(1,3,4) c held intact w i show ?thesis unfolding sn(2)[symmetric] by blast
qed

text \<open>A pinned download hands out only what the repository registered: when the route answers, the caller holds a read token valid
  for the repository in the URL, and the digest in the URL is the one of a snapshot registered there under that environment
  and profile; what is delivered is the blob of that digest. A read token reaches no other blob of the shared store.\<close>

theorem pinned_snapshot_confined:
  assumes "bucket_service (rt_http (app_rt (si_app z))) objs"
    and "\<forall>i b. any_contents objs (app_store (si_app z)) (mc_world s) i = Some b \<longrightarrow> rt_sha (app_rt (si_app z)) b = i"
    and "download_digest z org repo env digest q rq s = (Inr ans, s')"
  shows "\<exists>token repo_id sn. extract_token (app_b64 (si_app z)) rq = Some token \<and> resolve_repo (mc_db s) org repo = Some repo_id
    \<and> fst (token_valid (rt_sha (app_rt (si_app z))) (app_now (si_app z)) (mc_db s) repo_id token)
    \<and> sn \<in> set (snapshots (mc_db s)) \<and> in_variant repo_id env (profile_name q) sn \<and> parse_hex32 digest = Inr (Some (sn_blob sn))
    \<and> delivers z (sn_blob sn) ans"
proof -
  obtain i s1 sha sn where read: "authorize_read z org repo rq s = (Inr i, s1)" and sha: "parse_hex32 digest = Inr (Some sha)"
      and found: "resolve_snapshot_by_digest (mc_db s1) i env (profile_name q) sha = Some sn" and serve: "serve_snapshot_blob z (sn_blob sn) s1 = (Inr ans, s')"
    using assms(3) by (auto simp: download_digest_def run_Inr)
  note r = authorize_read_Inr[OF read]
  then have same: "snapshots (mc_db s1) = snapshots (mc_db s)" "mc_world s1 = mc_world s" by (auto simp: token_valid_def stamp_tokens_def)
  have "set (newest_first xs) = set xs" for xs by (simp add: newest_first_def)
  moreover have "sn \<in> set (newest_first (filter (\<lambda>s. in_variant i env (profile_name q) s \<and> sn_blob s = sha) (snapshots (mc_db s1))))"
    using found by (auto simp: resolve_snapshot_by_digest_def split: list.splits)
  ultimately have "sn \<in> set (snapshots (mc_db s))" "in_variant i env (profile_name q) sn" "sn_blob sn = sha" using same by auto
  moreover have "delivers z (sn_blob sn) ans" using serve_snapshot_delivers[OF assms(1) _ serve] assms(2) same by simp
  ultimately show ?thesis using r sha by blast
qed

text \<open>A session past its deadline is still open: nothing on these routes reads \<open>expires_at\<close>.\<close>

lemma expired_session_accepted:
  assumes "upload_session (mc_db s) i = Some u" "us_status u = ''open''" "us_expires u \<le> app_now (si_app z)"
  shows "open_session i (us_repo u) s = (Inr u, s)"
  using assms by (simp add: open_session_eq)

text \<open>The parent check reads the path before backslashes become slashes: an entry named dot-dot backslash x is accepted and lands
  outside the archive's root.\<close>

lemma backslash_parent_accepted:
  "map_option (\<lambda>u. map e_path (un_entries u)) (case unpack_entry demo_site 1000
     (Some \<lparr>te_kind = TarFile, te_path = Some (str_bytes [CHR ''.'', CHR ''.'', CHR 0x5C, CHR ''x'']), te_link = Some None, te_mode = None, te_content = Some []\<rparr>)
     \<lparr>un_entries = [], un_composer = None, un_bytes = 0\<rparr> of Inr u \<Rightarrow> Some u | Inl _ \<Rightarrow> None) = Some [''../x'']"
  by code_simp

lemma demo_exists: "any_exists demo_rt (S3Store demo_s3) w i = (Inr (any_contents (\<lambda>w. w) (S3Store demo_s3) w i \<noteq> None), w)"
  by (simp add: demo_s3_simps s3_contents_def classify.simps split: option.split)

lemma demo_serves:
  assumes "any_contents (\<lambda>w. w) (S3Store demo_s3) (mc_world s) b \<noteq> None"
  shows "\<exists>ans. serve_snapshot_blob demo_site b s = (Inr ans, s)"
  using assms by (auto simp: serve_snapshot_blob_def Let_def demo_site_simps bind_act_def on_world_def demo_exists settled_def
      simp del: any_exists.simps any_contents.simps)

definition demo_reader :: request where
  "demo_reader = demo_headers (Some ''Bearer key'')"

definition demo_pinned :: "(string \<Rightarrow> bytes option) machine" where
  "demo_pinned = demo_push\<lparr>mc_db := (mc_db demo_push)\<lparr>snapshots := [(demo_snapshot 1)\<lparr>sn_repo := 10, sn_env := ''prod'', sn_profile := ''full'', sn_blob := rt_sha demo_rt [1]\<rparr>]\<rparr>,
     mc_world := demo_world\<lparr>w_net := (\<lambda>u. if u = s3_url demo_s3 (rt_sha demo_rt [1]) then Some [1] else None)\<rparr>\<rparr>"

theorem pinned_snapshot_confined_witness:
  "\<exists>ans s'. download_digest demo_site ''acme'' ''main'' ''prod'' (hex (rt_sha demo_rt [1])) None demo_reader demo_pinned = (Inr ans, s')
     \<and> delivers demo_site (rt_sha demo_rt [1]) ans"
proof -
  let ?auth = "authorize_read demo_site ''acme'' ''main'' demo_reader demo_pinned"
  have "?auth = (Inr 10, snd ?auth)" by (rule fst_pair) code_simp
  then obtain s0 where auth: "?auth = (Inr 10, s0)" ..
  have same: "snapshots (mc_db s0) = snapshots (mc_db demo_pinned)" "mc_world s0 = mc_world demo_pinned"
    using authorize_read_Inr[OF auth] by (auto simp: token_valid_def stamp_tokens_def)
  have "parse_hex32 (hex (rt_sha demo_rt [1])) = Inr (Some (rt_sha demo_rt [1]))" by code_simp
  moreover have "resolve_snapshot_by_digest (mc_db demo_pinned) 10 ''prod'' (profile_name None) (rt_sha demo_rt [1]) = Some (hd (snapshots (mc_db demo_pinned)))"
    by code_simp
  moreover have "sn_blob (hd (snapshots (mc_db demo_pinned))) = rt_sha demo_rt [1]" by (simp add: demo_pinned_def)
  moreover have objects: "any_contents (\<lambda>w. w) (S3Store demo_s3) (mc_world demo_pinned) i = (if i = rt_sha demo_rt [1] then Some [1] else None)" for i
    by (simp add: s3_contents_def demo_pinned_def)
  moreover obtain ans where "serve_snapshot_blob demo_site (rt_sha demo_rt [1]) s0 = (Inr ans, s0)"
    using demo_serves[of s0 "rt_sha demo_rt [1]"] same objects by auto
  ultimately have run: "download_digest demo_site ''acme'' ''main'' ''prod'' (hex (rt_sha demo_rt [1])) None demo_reader demo_pinned = (Inr ans, s0)"
    using same(1) by (simp add: download_digest_def bind_act_def auth settled_def need_def ret_def read_db_def resolve_snapshot_by_digest_def)
  have bucket: "bucket_service (rt_http (app_rt (si_app demo_site))) (\<lambda>w. w)" by (simp add: demo_site_simps demo_rt_def demo_bucket_service)
  have intact: "\<forall>i b. any_contents (\<lambda>w. w) (app_store (si_app demo_site)) (mc_world demo_pinned) i = Some b \<longrightarrow> rt_sha (app_rt (si_app demo_site)) b = i"
    by (auto simp: demo_site_simps objects simp del: any_contents.simps split: if_splits)
  have "parse_hex32 (hex (rt_sha demo_rt [1])) = Inr (Some (rt_sha demo_rt [1]))" by code_simp
  with pinned_snapshot_confined[OF bucket intact run] run show ?thesis by auto
qed

lemma advance_latest_succeeds:
  assumes "\<exists>x\<in>set (snapshots db). sn_id x = i" "\<exists>r\<in>set (repos db). r_id r = repo"
  shows "\<exists>db'. advance_latest db repo env profile i = Inr db'"
  using assms by (simp add: advance_latest_def)

lemma create_snapshot_succeeds:
  assumes "\<exists>r\<in>set (repos db). r_id r = repo" "blob_known db (Some b)"
  shows "\<exists>db'. create_snapshot i t db repo env profile b n sr = Inr (i, db') \<and> (\<exists>x\<in>set (snapshots db'). sn_id x = i) \<and> repos db' = repos db"
  using assms by (simp add: create_snapshot_def)

lemma register_snapshot_succeeds:
  assumes "\<exists>r\<in>set (repos (mc_db s)). r_id r = repo"
  shows "\<exists>s'. register_snapshot z repo env profile b n s = (Inr (mc_next s), s')"
proof -
  let ?db0 = "upsert_blob (app_now (si_app z)) (mc_db s) b n"
  have "repos ?db0 = repos (mc_db s)" by (simp add: upsert_blob_def)
  moreover have "blob_known ?db0 (Some b)" by (auto simp: upsert_blob_def blob_known_iff upd_where_def image_Un image_image)
  ultimately have "\<exists>r\<in>set (repos ?db0). r_id r = repo" "blob_known ?db0 (Some b)" using assms by auto
  with create_snapshot_succeeds[of ?db0 repo b] assms
  obtain db1 where c: "create_snapshot (mc_next s) (app_now (si_app z)) ?db0 repo env profile b n None = Inr (mc_next s, db1)"
      and db1: "\<exists>x\<in>set (snapshots db1). sn_id x = mc_next s" "\<exists>r\<in>set (repos db1). r_id r = repo" by metis
  obtain db2 where "advance_latest db1 repo env profile (mc_next s) = Inr db2"
    using advance_latest_succeeds[OF db1] by blast
  with c show ?thesis
    by (simp add: register_snapshot_def bind_act_def change_db_def write_db_def statement_def ret_def)
qed

lemma demo_reads:
  assumes "orgs (mc_db s) = orgs (mc_db demo_push)" "repos (mc_db s) = repos (mc_db demo_push)" "tokens (mc_db s) = tokens (mc_db demo_push)"
  shows "\<exists>s'. authorize_read demo_site ''acme'' ''main'' demo_reader s = (Inr 10, s')"
proof -
  have "resolve_repo (mc_db demo_push) ''acme'' ''main'' = Some 10" by code_simp
  then have r: "resolve_repo (mc_db s) ''acme'' ''main'' = Some 10" using resolve_repo_cong[OF assms(1,2)] by simp
  have t: "extract_token (app_b64 (si_app demo_site)) demo_reader = Some ''key''" by code_simp
  have "fst (token_valid (rt_sha (app_rt (si_app demo_site))) (app_now (si_app demo_site)) (mc_db demo_push) 10 ''key'')" by code_simp
  then have "fst (token_valid (rt_sha (app_rt (si_app demo_site))) (app_now (si_app demo_site)) (mc_db s) 10 ''key'')"
    using assms by (simp add: token_valid_def token_matches_def token_covers_def)
  with r t show ?thesis
    by (simp add: authorize_read_def Let_def bind_act_def read_db_def need_def settled_def stamping_def ret_def split_def)
qed

theorem snapshot_roundtrip_witness:
  "\<exists>ans s1 ans' s2. snapshot_upload_single demo_site ''acme'' ''main'' ''prod'' None [4, 5] demo_push_request demo_push = (Inr ans, s1)
     \<and> download_latest demo_site ''acme'' ''main'' ''prod'' None demo_reader s1 = (Inr ans', s2)
     \<and> any_contents (\<lambda>w. w) (S3Store demo_s3) (mc_world s1) (rt_sha demo_rt [4, 5]) = Some [4, 5]"
proof -
  let ?auth = "publish_authed_repo demo_site ''acme'' ''main'' demo_push_request demo_push"
  let ?b = "rt_sha demo_rt [4, 5]"
  have bucket: "bucket_service (rt_http (app_rt (si_app demo_site))) (\<lambda>w. w)" by (simp add: demo_site_simps demo_rt_def demo_bucket_service)
  have "?auth = (Inr 10, snd ?auth)" by (rule fst_pair) code_simp
  then obtain s0 where auth: "?auth = (Inr 10, s0)" ..
  have db: "orgs (mc_db s0) = orgs (mc_db demo_push)" "repos (mc_db s0) = repos (mc_db demo_push)" "tokens (mc_db s0) = tokens (mc_db demo_push)"
    using publish_authed_repo_Inr[OF auth] by (auto simp: resolve_publish_token_def split_def)
  obtain w where put: "any_put demo_rt (S3Store demo_s3) (mc_world s0) [4, 5] = (Inr ?b, w)" using demo_put by blast
  let ?s = "s0\<lparr>mc_world := w\<rparr>"
  have "\<exists>r\<in>set (repos (mc_db demo_push)). r_id r = 10" by code_simp
  then have "\<exists>r\<in>set (repos (mc_db ?s)). r_id r = 10" using db(2) by simp
  then obtain s1 where reg: "register_snapshot demo_site 10 ''prod'' (profile_name None) ?b (blob_size [4, 5]) ?s = (Inr (mc_next ?s), s1)"
    using register_snapshot_succeeds by blast
  have up: "snapshot_upload_single demo_site ''acme'' ''main'' ''prod'' None [4, 5] demo_push_request demo_push
      = (Inr (created_response ''prod'' (profile_name None) ?b), s1)"
    using reg by (simp add: snapshot_upload_single_def bind_act_def auth store_put_def on_world_def demo_site_simps put ret_def del: any_put.simps)
  have fresh: "mc_next demo_push \<notin> sn_id ` set (snapshots (mc_db demo_push))" by (simp add: demo_push_def demo_registry_def demo_db_def empty_db_def)
  have "mc_next ?s \<notin> sn_id ` set (snapshots (mc_db ?s))"
    using fresh publish_authed_repo_Inr[OF auth] by (auto simp: resolve_publish_token_def split_def)
  from register_snapshot_latest[OF reg this] obtain sn where sn: "resolve_latest (mc_db s1) 10 ''prod'' (profile_name None) = Some sn"
      "sn_blob sn = ?b" "mc_world s1 = w" by auto
  have "orgs (mc_db s1) = orgs (mc_db s0) \<and> repos (mc_db s1) = repos (mc_db s0) \<and> tokens (mc_db s1) = tokens (mc_db s0)"
    using preservesD[OF register_names reg] by simp
  then obtain s2 where read: "authorize_read demo_site ''acme'' ''main'' demo_reader s1 = (Inr 10, s2)" using demo_reads[of s1] db by auto
  have s2: "resolve_latest (mc_db s2) = resolve_latest (mc_db s1)" "mc_world s2 = mc_world s1"
    using authorize_read_Inr[OF read] by (auto simp: token_valid_def stamp_tokens_def resolve_latest_tokens)
  have "any_contents (\<lambda>w. w) (S3Store demo_s3) w ?b \<noteq> None"
  proof (rule blob_store.put_ok[THEN conjunct2, OF any_blob_store])
    show "bucket_service (rt_http demo_rt) (\<lambda>w. w)" by (simp add: demo_rt_def demo_bucket_service)
    show "any_put demo_rt (S3Store demo_s3) (mc_world s0) [4, 5] = (Inr ?b, w)" by (rule put)
  qed
  then obtain ans' where "serve_snapshot_blob demo_site ?b s2 = (Inr ans', s2)" using demo_serves[of s2 ?b] s2 sn by auto
  then have down: "download_latest demo_site ''acme'' ''main'' ''prod'' None demo_reader s1 = (Inr ans', s2)"
    using s2 sn by (simp add: download_latest_def bind_act_def read read_db_def need_def settled_def ret_def)
  have intact: "\<forall>i b. any_contents (\<lambda>w. w) (app_store (si_app demo_site)) (mc_world demo_push) i = Some b \<longrightarrow> rt_sha (app_rt (si_app demo_site)) b = i"
    by (simp add: demo_site_simps s3_contents_def demo_push_def demo_world_def)
  have admitted: "extract_token (app_b64 (si_app demo_site)) demo_reader = Some ''key''" by code_simp
  from authorize_read_Inr[OF read] admitted have reader: "resolve_repo (mc_db s1) ''acme'' ''main'' = Some 10"
      "fst (token_valid (rt_sha (app_rt (si_app demo_site))) (app_now (si_app demo_site)) (mc_db s1) 10 ''key'')" by auto
  have empty: "any_contents (\<lambda>w. w) (app_store (si_app demo_site)) (mc_world demo_push) i = None" for i
    by (simp add: demo_site_simps s3_contents_def demo_push_def demo_world_def)
  obtain sn :: snapshot_row and c where sn: "sn_blob sn = rt_sha (app_rt (si_app demo_site)) [4, 5]"
      and c: "any_contents (\<lambda>w. w) (app_store (si_app demo_site)) (mc_world s1) (sn_blob sn) = Some c"
        "c = [4, 5] \<or> any_contents (\<lambda>w. w) (app_store (si_app demo_site)) (mc_world demo_push) (sn_blob sn) = Some c"
    using snapshot_roundtrip[OF bucket intact fresh up admitted reader down] by (elim exE conjE) (rule that)
  have "c = [4, 5]" using c(2) unfolding empty by simp
  with c(1) have "any_contents (\<lambda>w. w) (S3Store demo_s3) (mc_world s1) (rt_sha demo_rt [4, 5]) = Some [4, 5]"
    unfolding sn unfolding demo_site_simps by simp
  with up down show ?thesis by blast
qed

end
