(* ===== verification/RateLimit.thy ===== *)
theory RateLimit
  imports Text "HOL-Library.AList"
begin

text \<open>
  The in-memory rate limiter of the admin UI (\<open>crates/sconce-server/src/ratelimit.rs\<close>): per key a window of recent
  attempts, pruned from its old end, swept when many keys accumulate, capped in length. Instants and durations are
  integers of nanoseconds. The map under the mutex is an association list; an operation returns the limiter it leaves.
  The reference at the end keeps the whole history of admitted attempts and nothing else.
\<close>

section \<open>Limits\<close>

definition SWEEP_THRESHOLD :: nat where
  "SWEEP_THRESHOLD = 4096"

definition MAX_WINDOW :: int where
  "MAX_WINDOW = 3600 * 10 ^ 9"

definition MAX_KEY_CHARS :: nat where
  "MAX_KEY_CHARS = 256"

definition MAX_ATTEMPTS_KEPT :: nat where
  "MAX_ATTEMPTS_KEPT = 64"

record limiter =
  rl_enabled :: bool
  rl_windows :: "(string \<times> int list) list"

definition fresh_limiter :: limiter where
  "fresh_limiter = \<lparr>rl_enabled = True, rl_windows = []\<rparr>"

definition from_setting :: "string option \<Rightarrow> limiter" where
  "from_setting v = (let off = (case v of None \<Rightarrow> False
       | Some v \<Rightarrow> ascii_lower (trim v) \<in> set [''off'', ''false'', ''0'', ''disabled'', ''no''])
     in fresh_limiter\<lparr>rl_enabled := \<not> off\<rparr>)"

text \<open>\<open>chars().take(n)\<close> on UTF-8: a character is a byte that continues none, with the continuation bytes after it.\<close>

definition continues :: "char \<Rightarrow> bool" where
  "continues c \<longleftrightarrow> (128 :: nat) \<le> of_char c \<and> of_char c < (192 :: nat)"

fun take_chars :: "nat \<Rightarrow> string \<Rightarrow> string" where
  "take_chars n [] = []"
| "take_chars n (c # s) = (if continues c then c # take_chars n s
     else if n = 0 then [] else c # take_chars (n - 1) s)"

definition bounded_key :: "string \<Rightarrow> string" where
  "bounded_key = take_chars MAX_KEY_CHARS"

section \<open>Operations\<close>

definition prune :: "int \<Rightarrow> int \<Rightarrow> int list \<Rightarrow> int list" where
  "prune window now w = dropWhile (\<lambda>t. max 0 (now - t) \<ge> window) w"

definition sweep :: "int \<Rightarrow> (string \<times> int list) list \<Rightarrow> (string \<times> int list) list" where
  "sweep now ws = (if length ws \<ge> SWEEP_THRESHOLD
     then filter (\<lambda>(_, w). w \<noteq> [] \<and> max 0 (now - last w) < MAX_WINDOW) ws else ws)"

definition window_of :: "(string \<times> int list) list \<Rightarrow> string \<Rightarrow> int list" where
  "window_of ws k = (case map_of ws k of None \<Rightarrow> [] | Some w \<Rightarrow> w)"

definition hit :: "limiter \<Rightarrow> string \<Rightarrow> (nat \<times> int) option \<Rightarrow> int \<Rightarrow> bool \<times> limiter" where
  "hit l key limit now = (if \<not> rl_enabled l then (True, l) else
     let ws = sweep now (rl_windows l); k = bounded_key key;
         w = prune (case limit of Some (_, window) \<Rightarrow> window | None \<Rightarrow> MAX_WINDOW) now (window_of ws k)
     in if (case limit of Some (most, _) \<Rightarrow> length w \<ge> most | None \<Rightarrow> False)
        then (False, l\<lparr>rl_windows := AList.update k w ws\<rparr>)
        else (True, l\<lparr>rl_windows := AList.update k ((if length w = MAX_ATTEMPTS_KEPT then tl w else w) @ [now]) ws\<rparr>))"

definition allow :: "limiter \<Rightarrow> string \<Rightarrow> nat \<Rightarrow> int \<Rightarrow> int \<Rightarrow> bool \<times> limiter" where
  "allow l key most window now = hit l key (Some (most, window)) now"

definition at_limit :: "limiter \<Rightarrow> string \<Rightarrow> nat \<Rightarrow> int \<Rightarrow> int \<Rightarrow> bool \<times> limiter" where
  "at_limit l key most window now = (let k = bounded_key key in
     if \<not> rl_enabled l then (False, l)
     else case map_of (rl_windows l) k of None \<Rightarrow> (False, l)
       | Some w \<Rightarrow> let w = prune window now w in (length w \<ge> most, l\<lparr>rl_windows := AList.update k w (rl_windows l)\<rparr>))"

definition record_attempt :: "limiter \<Rightarrow> string \<Rightarrow> int \<Rightarrow> limiter" where
  "record_attempt l key now = snd (hit l key None now)"

section \<open>A sliding window over the whole history\<close>

text \<open>A limit per key, as the callers fix one per route; a run of attempts, each with its instant; what is admitted.\<close>

type_synonym limits = "string \<Rightarrow> nat \<times> int"

fun admitted :: "limits \<Rightarrow> limiter \<Rightarrow> (string \<times> int) list \<Rightarrow> (string \<times> int) list" where
  "admitted lim l [] = []"
| "admitted lim l ((key, now) # as) = (let k = bounded_key key; (ok, l') = allow l key (fst (lim k)) (snd (lim k)) now
     in if ok then (k, now) # admitted lim l' as else admitted lim l' as)"

definition recent :: "limits \<Rightarrow> string \<Rightarrow> int \<Rightarrow> (string \<times> int) list \<Rightarrow> int list" where
  "recent lim k now h = filter (\<lambda>t. now - t < snd (lim k)) (map snd (filter (\<lambda>a. fst a = k) h))"

fun sliding_window :: "limits \<Rightarrow> (string \<times> int) list \<Rightarrow> (string \<times> int) list \<Rightarrow> (string \<times> int) list" where
  "sliding_window lim h [] = []"
| "sliding_window lim h ((key, now) # as) = (let k = bounded_key key
     in if length (recent lim k now h) < fst (lim k) then (k, now) # sliding_window lim (h @ [(k, now)]) as
        else sliding_window lim h as)"

text \<open>What the limiter remembers at an instant: per key ordered attempts of the past, with every one of the history
  that is still inside the window.\<close>

definition remembers :: "limits \<Rightarrow> limiter \<Rightarrow> (string \<times> int) list \<Rightarrow> int \<Rightarrow> bool" where
  "remembers lim l h now \<longleftrightarrow> rl_enabled l \<and> distinct (map fst (rl_windows l))
     \<and> (\<forall>k. sorted (window_of (rl_windows l) k) \<and> (\<forall>t\<in>set (window_of (rl_windows l) k). t \<le> now)
          \<and> (\<forall>t\<ge>now. filter (\<lambda>u. t - u < snd (lim k)) (window_of (rl_windows l) k) = recent lim k t h))"

lemma window_of_update: "window_of (AList.update k w ws) j = (if j = k then w else window_of ws j)"
  by (simp add: window_of_def update_conv')

lemma prune_sorted:
  assumes "sorted w" "\<forall>t\<in>set w. t \<le> now" "0 < window"
  shows "prune window now w = filter (\<lambda>t. now - t < window) w"
  using assms
proof (induction w)
  case (Cons t w)
  show ?case
  proof (cases "now - t < window")
    case True
    then have "\<forall>u\<in>set w. now - u < window" using Cons.prems(1) by auto
    then show ?thesis using True Cons.prems by (simp add: prune_def)
  next
    case False
    then show ?thesis using Cons by (simp add: prune_def)
  qed
qed (simp add: prune_def)

lemma sorted_le_last: "sorted w \<Longrightarrow> (u :: int) \<in> set w \<Longrightarrow> u \<le> last w"
  by (induction w) auto

lemma sweep_window:
  assumes "distinct (map fst ws)"
  shows "window_of (sweep now ws) k = window_of ws k
    \<or> window_of (sweep now ws) k = [] \<and> (window_of ws k = [] \<or> max 0 (now - last (window_of ws k)) \<ge> MAX_WINDOW)"
proof (cases "map_of ws k")
  case None
  then have "map_of (sweep now ws) k = None" by (auto simp: sweep_def map_of_eq_None_iff)
  then show ?thesis using None by (simp add: window_of_def)
next
  case (Some w)
  then have "map_of (filter P ws) k = (if P (k, w) then Some w else None)" for P
    using assms
  proof (induction ws)
    case (Cons x ws)
    then show ?case by (cases x) (auto simp: map_of_eq_None_iff dest: map_of_SomeD intro: rev_image_eqI split: if_splits)
  qed simp
  then show ?thesis using Some by (auto simp: window_of_def sweep_def)
qed

lemma distinct_sweep: "distinct (map fst ws) \<Longrightarrow> distinct (map fst (sweep now ws))"
  by (auto simp: sweep_def intro: distinct_map_filter)

lemma remembers_sweep:
  assumes "remembers lim l h now" "now \<le> now'" "\<forall>k. snd (lim k) \<le> MAX_WINDOW"
  shows "remembers lim (l\<lparr>rl_windows := sweep now' (rl_windows l)\<rparr>) h now'"
proof -
  let ?ws = "rl_windows l"
  have d: "distinct (map fst ?ws)" using assms(1) by (simp add: remembers_def)
  have "sorted (window_of (sweep now' ?ws) k) \<and> (\<forall>t\<in>set (window_of (sweep now' ?ws) k). t \<le> now')
      \<and> (\<forall>t\<ge>now'. filter (\<lambda>u. t - u < snd (lim k)) (window_of (sweep now' ?ws) k) = recent lim k t h)" for k
  proof -
    have old: "sorted (window_of ?ws k)" "\<forall>t\<in>set (window_of ?ws k). t \<le> now"
        "\<And>t. t \<ge> now \<Longrightarrow> filter (\<lambda>u. t - u < snd (lim k)) (window_of ?ws k) = recent lim k t h"
      using assms(1) by (auto simp: remembers_def)
    consider "window_of (sweep now' ?ws) k = window_of ?ws k"
      | "window_of (sweep now' ?ws) k = []" "window_of ?ws k \<noteq> []" "max 0 (now' - last (window_of ?ws k)) \<ge> MAX_WINDOW"
      using sweep_window[OF d, of now' k] by metis
    then show ?thesis
    proof cases
      case 1
      have "\<forall>t\<in>set (window_of ?ws k). t \<le> now'" using old(2) assms(2) by (meson order_trans)
      moreover have "filter (\<lambda>u. t - u < snd (lim k)) (window_of ?ws k) = recent lim k t h" if "now' \<le> t" for t
        by (rule old(3)) (use that assms(2) in simp)
      ultimately show ?thesis unfolding 1 using old(1) by blast
    next
      case 2
      have "recent lim k t h = []" if "t \<ge> now'" for t
      proof -
        have "\<not> t - u < snd (lim k)" if "u \<in> set (window_of ?ws k)" for u
        proof -
          have "u \<le> last (window_of ?ws k)" by (rule sorted_le_last[OF old(1) that])
          moreover have "MAX_WINDOW \<le> now' - last (window_of ?ws k)" using 2(3) by (simp add: MAX_WINDOW_def max_def split: if_splits)
          ultimately show ?thesis using \<open>t \<ge> now'\<close> assms(3)[rule_format, of k] by linarith
        qed
        then show ?thesis using old(3)[of t] assms(2) \<open>t \<ge> now'\<close> by simp
      qed
      then show ?thesis using 2 by simp
    qed
  qed
  then show ?thesis using assms(1) distinct_sweep[OF d] by (simp add: remembers_def)
qed

lemma recent_snoc: "recent lim k t (h @ [(j, now)]) = recent lim k t h @ (if j = k \<and> t - now < snd (lim k) then [now] else [])"
  by (simp add: recent_def)

lemma filter_still_recent: "now \<le> t \<Longrightarrow> filter (\<lambda>u. t - u < d) (filter (\<lambda>u. now - u < d) w) = filter (\<lambda>u. t - u < (d :: int)) w"
  by (auto simp: filter_filter intro: filter_cong)

lemma allow_remembers:
  assumes "remembers lim l h now0" "now0 \<le> now" "\<forall>k. fst (lim k) \<le> MAX_ATTEMPTS_KEPT \<and> 0 < snd (lim k) \<and> snd (lim k) \<le> MAX_WINDOW"
    and run: "allow l key (fst (lim (bounded_key key))) (snd (lim (bounded_key key))) now = (ok, l')"
  shows "ok \<longleftrightarrow> length (recent lim (bounded_key key) now h) < fst (lim (bounded_key key))"
    and "remembers lim l' (if ok then h @ [(bounded_key key, now)] else h) now"
proof -
  let ?k = "bounded_key key"
  let ?ws = "sweep now (rl_windows l)"
  let ?w = "prune (snd (lim ?k)) now (window_of ?ws ?k)"
  have R: "remembers lim (l\<lparr>rl_windows := ?ws\<rparr>) h now" by (rule remembers_sweep) (use assms(1-3) in auto)
  have old: "sorted (window_of ?ws j)" "\<forall>t\<in>set (window_of ?ws j). t \<le> now"
      "\<forall>t\<ge>now. filter (\<lambda>u. t - u < snd (lim j)) (window_of ?ws j) = recent lim j t h" for j
    using R by (auto simp: remembers_def)
  have w: "?w = filter (\<lambda>t. now - t < snd (lim ?k)) (window_of ?ws ?k)" by (rule prune_sorted) (use old assms(3) in auto)
  then have recent: "?w = recent lim ?k now h" using old(3)[of ?k] by simp
  have on: "rl_enabled l" using assms(1) by (simp add: remembers_def)
  obtain most d where lim: "lim ?k = (most, d)" "most \<le> MAX_ATTEMPTS_KEPT" using assms(3) by (metis prod.collapse)
  have res: "ok = (length ?w < fst (lim ?k))"
      "l' = l\<lparr>rl_windows := AList.update ?k (if ok then ?w @ [now] else ?w) ?ws\<rparr>"
    using run on lim by (auto simp: allow_def hit_def Let_def split: if_splits)
  show "ok \<longleftrightarrow> length (recent lim ?k now h) < fst (lim ?k)" using res(1) recent by simp
  have sw: "sorted ?w" "\<forall>t\<in>set ?w. t \<le> now" using old(1,2)[of ?k] by (auto simp: w sorted_filter[where f = "\<lambda>x. x", simplified])
  have "sorted (window_of (rl_windows l') j) \<and> (\<forall>t\<in>set (window_of (rl_windows l') j). t \<le> now)
      \<and> (\<forall>t\<ge>now. filter (\<lambda>u. t - u < snd (lim j)) (window_of (rl_windows l') j)
           = recent lim j t (if ok then h @ [(?k, now)] else h))" for j
  proof (cases "j = ?k")
    case True
    have "filter (\<lambda>u. t - u < snd (lim ?k)) ?w = recent lim ?k t h" if "t \<ge> now" for t
      using old(3)[of ?k] that unfolding w filter_still_recent[OF that] by blast
    then show ?thesis using True sw by (auto simp: res(2) window_of_update recent_snoc sorted_append)
  next
    case False
    then show ?thesis using old[of j] by (auto simp: res(2) window_of_update recent_snoc)
  qed
  moreover have "distinct (map fst (rl_windows l'))"
    using R by (simp add: res(2) remembers_def distinct_update)
  ultimately show "remembers lim l' (if ok then h @ [(?k, now)] else h) now"
    using on by (simp add: remembers_def res(2))
qed

lemma admitted_sliding:
  assumes "remembers lim l h now" "sorted (now # map snd as)"
    and "\<forall>k. fst (lim k) \<le> MAX_ATTEMPTS_KEPT \<and> 0 < snd (lim k) \<and> snd (lim k) \<le> MAX_WINDOW"
  shows "admitted lim l as = sliding_window lim h as"
  using assms(1,2)
proof (induction as arbitrary: l h now)
  case (Cons a as)
  obtain key t where a: "a = (key, t)" by fastforce
  let ?k = "bounded_key key"
  obtain ok l' where run: "allow l key (fst (lim ?k)) (snd (lim ?k)) t = (ok, l')" by fastforce
  have t: "now \<le> t" "sorted (t # map snd as)" using Cons.prems(2) a by auto
  note step = allow_remembers[OF Cons.prems(1) t(1) assms(3) run]
  show ?case using Cons.IH[OF step(2) t(2)] step(1) run by (simp add: a Let_def)
qed simp

text \<open>C34: the limiter is an exact sliding window: over any interleaving of keys, with instants that do not go back, it admits
  precisely the attempts that find fewer than the limit admitted inside the window before them, as if the whole history
  were kept. Pruning, the sweep of abandoned keys and the cap on stored attempts are never visible, and a denied attempt
  counts for nothing (throttling, no lockout).\<close>

theorem limiter_exact:
  assumes "sorted (map snd as)" "\<forall>k. fst (lim k) \<le> MAX_ATTEMPTS_KEPT \<and> 0 < snd (lim k) \<and> snd (lim k) \<le> MAX_WINDOW"
  shows "admitted lim fresh_limiter as = sliding_window lim [] as"
proof (cases as)
  case (Cons a as')
  have "remembers lim fresh_limiter [] (snd a)"
    by (simp add: remembers_def fresh_limiter_def window_of_def recent_def)
  then show ?thesis by (rule admitted_sliding) (use assms Cons in auto)
qed simp

definition demo_limits :: limits where
  "demo_limits k = (2, 10)"

theorem limiter_exact_witness:
  "admitted demo_limits fresh_limiter [(''a'', 0), (''b'', 1), (''a'', 5), (''a'', 9), (''a'', 10), (''a'', 11)]
     = [(''a'', 0), (''b'', 1), (''a'', 5), (''a'', 10)]"
proof -
  let ?as = "[(''a'', 0), (''b'', 1), (''a'', 5), (''a'', 9), (''a'', 10), (''a'', 11)]"
  have "admitted demo_limits fresh_limiter ?as = sliding_window demo_limits [] ?as"
    by (rule limiter_exact) (simp_all add: demo_limits_def MAX_ATTEMPTS_KEPT_def MAX_WINDOW_def)
  also have "\<dots> = [(''a'', 0), (''b'', 1), (''a'', 5), (''a'', 10)]" by code_simp
  finally show ?thesis .
qed

section \<open>How much gets through\<close>

definition within :: "int \<Rightarrow> int \<Rightarrow> string \<Rightarrow> (string \<times> int) list \<Rightarrow> nat" where
  "within lo hi k h = length (filter (\<lambda>a. fst a = k \<and> lo < snd a \<and> snd a \<le> hi) h)"

lemma within_recent:
  assumes "\<forall>a\<in>set h. snd a \<le> now" "now \<le> t"
  shows "within (t - snd (lim k)) t k h \<le> length (recent lim k now h)"
proof -
  have "length (filter (\<lambda>a. fst a = k \<and> t - snd (lim k) < snd a \<and> snd a \<le> t) h) \<le> length (filter (\<lambda>a. fst a = k \<and> now - snd a < snd (lim k)) h)"
    using assms(2) by (induction h) auto
  then show ?thesis by (simp add: within_def recent_def filter_map filter_filter o_def conj_commute)
qed

lemma sliding_window_within:
  assumes "\<forall>k t. within (t - snd (lim k)) t k h \<le> fst (lim k)" "\<forall>a\<in>set h. snd a \<le> now" "sorted (now # map snd as)"
  shows "within (t - snd (lim k)) t k (h @ sliding_window lim h as) \<le> fst (lim k)"
  using assms
proof (induction as arbitrary: h now)
  case (Cons a as)
  obtain key u where a: "a = (key, u)" by fastforce
  let ?k = "bounded_key key"
  have u: "now \<le> u" "sorted (u # map snd as)" "\<forall>a\<in>set h. snd a \<le> u" using Cons.prems(2,3) a by auto
  show ?case
  proof (cases "length (recent lim ?k u h) < fst (lim ?k)")
    case True
    have "within (t - snd (lim j)) t j (h @ [(?k, u)]) \<le> fst (lim j)" for t j
    proof (cases "j = ?k \<and> t - snd (lim j) < u \<and> u \<le> t")
      case True
      then have "within (t - snd (lim j)) t j h \<le> length (recent lim ?k u h)" using within_recent[OF u(3), of t lim ?k] by simp
      then show ?thesis using True \<open>length (recent lim ?k u h) < fst (lim ?k)\<close> by (simp add: within_def)
    next
      case False
      then show ?thesis using Cons.prems(1) by (auto simp: within_def)
    qed
    then have "within (t - snd (lim k)) t k ((h @ [(?k, u)]) @ sliding_window lim (h @ [(?k, u)]) as) \<le> fst (lim k)"
      by (intro Cons.IH[OF _ _ u(2)]) (use u(3) in auto)
    then show ?thesis using True by (simp add: a Let_def)
  next
    case False
    then show ?thesis using Cons.IH[OF Cons.prems(1) u(3,2)] by (simp add: a Let_def)
  qed
qed simp

text \<open>So the cap is a cap: of the attempts under one key, never more than the limit are admitted within any span of one
  window, wherever the span lies.\<close>

lemma limiter_bound:
  assumes "sorted (map snd as)" "\<forall>k. fst (lim k) \<le> MAX_ATTEMPTS_KEPT \<and> 0 < snd (lim k) \<and> snd (lim k) \<le> MAX_WINDOW"
  shows "within (t - snd (lim k)) t k (admitted lim fresh_limiter as) \<le> fst (lim k)"
proof (cases as)
  case (Cons a as')
  have "within (t - snd (lim k)) t k ([] @ sliding_window lim [] as) \<le> fst (lim k)"
    by (rule sliding_window_within[where now = "snd a"]) (use assms(1) Cons in \<open>auto simp: within_def\<close>)
  moreover have "admitted lim fresh_limiter as = sliding_window lim [] as"
  proof (rule admitted_sliding[OF _ _ assms(2)])
    show "remembers lim fresh_limiter [] (snd a)" by (simp add: remembers_def fresh_limiter_def window_of_def recent_def)
    show "sorted (snd a # map snd as)" using assms(1) Cons by auto
  qed
  ultimately show ?thesis by simp
qed (simp add: within_def)

end
