(* ===== verification/Signin.thy ===== *)
theory Signin
  imports RateLimit Reads
begin

text \<open>
  The gates of the admin UI (\<open>crates/sconce-server/src/ui.rs\<close>, \<open>csrf.rs\<close>): the cross-origin guard, the authentication
  middleware of both modes, sign-in, the reset link, the password change and sign-out, with the limiter of \<open>RateLimit\<close>
  in front of them. A handler takes and returns the server's mutable state \<open>desk\<close>: the catalog, the limiter and the mails
  it hands to the mailer. Argon2, SHA-256 and base64 are fields of \<open>console\<close>; fresh tokens and the two clocks (the
  database's seconds, the limiter's nanoseconds) are arguments. A page is the data its template gets, not its HTML.
\<close>

section \<open>Requests, state, answers\<close>

record ui_request =
  uq_method :: string
  uq_path :: string
  uq_fetch_site :: "string option"
  uq_origin :: "string option"
  uq_host :: "string option"
  uq_authorization :: "string option"
  uq_cookie :: "string option"
  uq_forwarded :: "string option"
  uq_peer :: "string option"

record console =
  ui_single_tenant :: bool
  ui_admin_password :: "string option"
  ui_dashboard_url :: string
  ui_cookie_secure :: bool
  ui_sha :: "bytes \<Rightarrow> bytes"
  ui_verify :: "string \<Rightarrow> string \<Rightarrow> bool"
  ui_hash :: "string \<Rightarrow> string"
  ui_b64 :: "string \<Rightarrow> bytes option"

record desk =
  dk_db :: db
  dk_limiter :: limiter
  dk_outbox :: "(string \<times> string) list"

datatype page = LoginPage bool bool string | StatusPage string | ForgotPage | ResetPage string string
  | AccountPage string string | TooMany | BasicChallenge | SignedIn string string | RedirectTo string

section \<open>The cross-origin guard\<close>

definition origin_host :: "string \<Rightarrow> string option" where
  "origin_host origin = (case split_str ''://'' origin of None \<Rightarrow> None
     | Some (_, host) \<Rightarrow> if host \<noteq> [] \<and> CHR ''/'' \<notin> set host then Some host else None)"

definition forbids_cross_origin :: "ui_request \<Rightarrow> bool" where
  "forbids_cross_origin rq = (if uq_method rq \<in> set [''GET'', ''HEAD'', ''OPTIONS''] then False
     else case Option.bind (uq_fetch_site rq) header_str of
       Some site \<Rightarrow> site \<notin> set [''same-origin'', ''none'']
     | None \<Rightarrow> (case Option.bind (uq_origin rq) header_str of
         None \<Rightarrow> False
       | Some origin \<Rightarrow> (case (origin_host origin, Option.bind (uq_host rq) header_str) of
           (Some a, Some b) \<Rightarrow> ascii_lower a \<noteq> ascii_lower b
         | _ \<Rightarrow> True)))"

definition csrf_guard :: "ui_request \<Rightarrow> bool" where
  "csrf_guard rq \<longleftrightarrow> starts_with ''/scim/'' (uq_path rq) \<or> \<not> forbids_cross_origin rq"

section \<open>Credentials of a request\<close>

definition basic_password :: "(string \<Rightarrow> bytes option) \<Rightarrow> ui_request \<Rightarrow> string option" where
  "basic_password b64 rq = Option.bind (Option.bind (uq_authorization rq) header_str) (\<lambda>v.
     Option.bind (strip_prefix ''Basic '' v) (\<lambda>e. Option.bind (b64 (trim e)) (\<lambda>d.
     Option.bind (from_utf8 d) (\<lambda>creds. map_option snd (split_once (CHR '':'') creds)))))"

definition session_cookie :: "ui_request \<Rightarrow> string option" where
  "session_cookie rq = Option.bind (Option.bind (uq_cookie rq) header_str) (\<lambda>raw.
     Option.bind (List.find (\<lambda>c. strip_prefix ''sconce_session='' c \<noteq> None) (map trim (split_on (CHR '';'') raw)))
       (strip_prefix ''sconce_session=''))"

definition session_set_cookie :: "string \<Rightarrow> bool \<Rightarrow> string" where
  "session_set_cookie token secure = ''sconce_session='' @ token @ ''; HttpOnly; Path=/; SameSite=Lax; Max-Age=604800''
     @ (if secure then ''; Secure'' else [])"

definition session_clear_cookie :: "bool \<Rightarrow> string" where
  "session_clear_cookie secure = ''sconce_session=; HttpOnly; Path=/; SameSite=Lax; Max-Age=0'' @ (if secure then ''; Secure'' else [])"

definition client_ip :: "ui_request \<Rightarrow> string" where
  "client_ip rq = (case map_option (\<lambda>v. trim (last (split_on (CHR '','') v))) (Option.bind (uq_forwarded rq) header_str) of
     Some (c # ip) \<Rightarrow> c # ip
   | _ \<Rightarrow> (case uq_peer rq of Some p \<Rightarrow> p | None \<Rightarrow> ''unknown''))"

section \<open>Limits\<close>

definition minutes :: "int \<Rightarrow> int" where
  "minutes n = n * 60000000000"

definition LOGIN_MAX_PER_IP :: nat where "LOGIN_MAX_PER_IP = 10"
definition LOGIN_MAX_PER_EMAIL :: nat where "LOGIN_MAX_PER_EMAIL = 5"
definition LOGIN_WINDOW :: int where "LOGIN_WINDOW = minutes 5"
definition FORGOT_MAX_PER_IP :: nat where "FORGOT_MAX_PER_IP = 5"
definition FORGOT_MAX_PER_EMAIL :: nat where "FORGOT_MAX_PER_EMAIL = 3"
definition FORGOT_WINDOW :: int where "FORGOT_WINDOW = minutes 15"
definition RESET_MAX_PER_IP :: nat where "RESET_MAX_PER_IP = 10"
definition RESET_WINDOW :: int where "RESET_WINDOW = minutes 5"
definition PW_CHANGE_MAX :: nat where "PW_CHANGE_MAX = 10"
definition PW_CHANGE_WINDOW :: int where "PW_CHANGE_WINDOW = minutes 5"
definition BASIC_MAX_FAILURES_PER_IP :: nat where "BASIC_MAX_FAILURES_PER_IP = 10"
definition BASIC_WINDOW :: int where "BASIC_WINDOW = minutes 5"
definition RESET_TTL_MINUTES :: int where "RESET_TTL_MINUTES = 60"
definition MIN_PASSWORD_LEN :: nat where "MIN_PASSWORD_LEN = 8"

text \<open>One or two checks in the order the handler makes them; a refused first check leaves the second unmade.\<close>

definition throttle :: "string \<Rightarrow> nat \<Rightarrow> int \<Rightarrow> int \<Rightarrow> desk \<Rightarrow> bool \<times> desk" where
  "throttle key most window t s = (let (ok, l) = allow (dk_limiter s) key most window t in (ok, s\<lparr>dk_limiter := l\<rparr>))"

definition chars_count :: "string \<Rightarrow> nat" where
  "chars_count s = length (filter (\<lambda>c. \<not> continues c) s)"

section \<open>The authentication middleware\<close>

datatype gate = Passes "current_user option" | Stops page

definition auth_basic :: "console \<Rightarrow> int \<Rightarrow> ui_request \<Rightarrow> desk \<Rightarrow> gate \<times> desk" where
  "auth_basic u t rq s = (case ui_admin_password u of
     None \<Rightarrow> (Passes (Some all_access), s)
   | Some expected \<Rightarrow> (let key = ''basic:ip:'' @ client_ip rq;
         (full, l) = at_limit (dk_limiter s) key BASIC_MAX_FAILURES_PER_IP BASIC_WINDOW t; s = s\<lparr>dk_limiter := l\<rparr>
       in if full then (Stops TooMany, s)
          else if basic_password (ui_b64 u) rq \<noteq> Some expected
          then (Stops BasicChallenge, s\<lparr>dk_limiter := record_attempt l key t\<rparr>)
          else (Passes (Some all_access), s)))"

definition auth :: "console \<Rightarrow> time \<Rightarrow> int \<Rightarrow> ui_request \<Rightarrow> desk \<Rightarrow> gate \<times> desk" where
  "auth u now t rq s = (let path = uq_path rq in
     if starts_with ''/assets/'' path \<or> starts_with ''/scim/'' path \<or> path = ''/healthz'' then (Passes None, s)
     else if ui_single_tenant u then auth_basic u t rq s
     else if path \<in> set [''/login'', ''/forgot'', ''/reset''] \<or> starts_with ''/auth/'' path then (Passes None, s)
     else (case session_user (ui_sha u) now (dk_db s) (session_cookie rq) of
         Some cu \<Rightarrow> (Passes (Some cu), s)
       | None \<Rightarrow> (Stops (RedirectTo ''/login''), s)))"

section \<open>Sign-in and sign-out\<close>

definition login_page :: "db \<Rightarrow> string \<Rightarrow> page" where
  "login_page db err = (let enabled = oidc_conns db \<noteq> [] in LoginPage enabled (enabled \<and> oidc_connection db \<noteq> None) err)"

definition login_checked :: "console \<Rightarrow> string \<Rightarrow> time \<Rightarrow> string \<Rightarrow> string \<Rightarrow> desk \<Rightarrow> (status, page) result \<times> desk" where
  "login_checked u token now email password s = (case verify_credentials (ui_verify u) (dk_db s) email password of
     None \<Rightarrow> (Inr (login_page (dk_db s) ''Invalid email or password. Try again, or use SSO.''), s)
   | Some user \<Rightarrow> (case create_session (ui_sha u) token now (dk_db s) user 7 of
        Inl _ \<Rightarrow> (Inl ServerError, s)
      | Inr (tok, db) \<Rightarrow> (Inr (SignedIn ''/'' (session_set_cookie tok (ui_cookie_secure u))), s\<lparr>dk_db := db\<rparr>)))"

definition login :: "console \<Rightarrow> string \<Rightarrow> time \<Rightarrow> int \<Rightarrow> ui_request \<Rightarrow> string \<Rightarrow> string \<Rightarrow> desk \<Rightarrow> (status, page) result \<times> desk" where
  "login u token now t rq email password s = (case throttle (''login:ip:'' @ client_ip rq) LOGIN_MAX_PER_IP LOGIN_WINDOW t s of
     (False, s) \<Rightarrow> (Inr TooMany, s)
   | (True, s) \<Rightarrow> (case throttle (''login:email:'' @ ascii_lower (trim email)) LOGIN_MAX_PER_EMAIL LOGIN_WINDOW t s of
        (False, s) \<Rightarrow> (Inr TooMany, s)
      | (True, s) \<Rightarrow> login_checked u token now email password s))"

definition logout :: "console \<Rightarrow> ui_request \<Rightarrow> desk \<Rightarrow> page \<times> desk" where
  "logout u rq s = (SignedIn ''/login'' (session_clear_cookie (ui_cookie_secure u)),
     case session_cookie rq of None \<Rightarrow> s | Some token \<Rightarrow> s\<lparr>dk_db := delete_session (ui_sha u) (dk_db s) token\<rparr>)"

definition revoke_my_session :: "current_user \<Rightarrow> string \<Rightarrow> desk \<Rightarrow> (status, page) result \<times> desk" where
  "revoke_my_session cu sid s = (case cu_id cu of None \<Rightarrow> (Inl Forbidden, s)
     | Some uid \<Rightarrow> (Inr (RedirectTo ''/account''), s\<lparr>dk_db := snd (revoke_session_for_user (dk_db s) uid sid)\<rparr>))"

definition auth_route :: "(uuid \<Rightarrow> string) \<Rightarrow> string \<Rightarrow> desk \<Rightarrow> page" where
  "auth_route show_id email s = (case oidc_connection_for_email (dk_db s) email of
     Some i \<Rightarrow> RedirectTo (''/auth/start?conn='' @ show_id i)
   | None \<Rightarrow> login_page (dk_db s) ''no SSO is configured for that email domain'')"

section \<open>Reset links and password changes\<close>

definition reset_disabled :: "console \<Rightarrow> page option" where
  "reset_disabled u = (if ui_single_tenant u then Some (StatusPage ''Not available'') else None)"

definition reset_link :: "console \<Rightarrow> string \<Rightarrow> string" where
  "reset_link u token = trim_end_char (CHR ''/'') (ui_dashboard_url u) @ ''/reset?token='' @ token"

definition send_reset :: "console \<Rightarrow> string \<Rightarrow> time \<Rightarrow> string \<Rightarrow> desk \<Rightarrow> desk" where
  "send_reset u token now email s = (case create_password_reset (ui_sha u) token now (dk_db s) email RESET_TTL_MINUTES of
     (None, _) \<Rightarrow> s
   | (Some (_, tok), db) \<Rightarrow> s\<lparr>dk_db := db, dk_outbox := dk_outbox s @ [(email, reset_link u tok)]\<rparr>)"

definition forgot_submit :: "console \<Rightarrow> string \<Rightarrow> time \<Rightarrow> int \<Rightarrow> ui_request \<Rightarrow> string \<Rightarrow> desk \<Rightarrow> page \<times> desk" where
  "forgot_submit u token now t rq address s = (case reset_disabled u of Some p \<Rightarrow> (p, s)
   | None \<Rightarrow> (let email = trim address in
       case throttle (''forgot:ip:'' @ client_ip rq) FORGOT_MAX_PER_IP FORGOT_WINDOW t s of
         (False, s) \<Rightarrow> (TooMany, s)
       | (True, s) \<Rightarrow> (case throttle (''forgot:email:'' @ ascii_lower email) FORGOT_MAX_PER_EMAIL FORGOT_WINDOW t s of
            (False, s) \<Rightarrow> (TooMany, s)
          | (True, s) \<Rightarrow> (StatusPage ''Check your email'', send_reset u token now email s))))"

definition reset_form :: "console \<Rightarrow> time \<Rightarrow> string option \<Rightarrow> desk \<Rightarrow> page" where
  "reset_form u now token s = (case reset_disabled u of Some p \<Rightarrow> p
     | None \<Rightarrow> (let tok = (case token of None \<Rightarrow> [] | Some k \<Rightarrow> k)
         in if password_reset_valid (ui_sha u) now (dk_db s) tok then ResetPage tok [] else StatusPage ''Link expired''))"

definition reset_checked :: "console \<Rightarrow> time \<Rightarrow> string \<Rightarrow> string \<Rightarrow> string \<Rightarrow> desk \<Rightarrow> page \<times> desk" where
  "reset_checked u now token password confirm s =
     (if \<not> password_reset_valid (ui_sha u) now (dk_db s) token then (StatusPage ''Link expired'', s)
      else if chars_count password < MIN_PASSWORD_LEN then (ResetPage token ''Password must be at least 8 characters.'', s)
      else if password \<noteq> confirm then (ResetPage token (''The passwords didn'' @ CHR 0x27 # ''t match.''), s)
      else (case reset_password (ui_sha u) (ui_hash u) now (dk_db s) token password of
          (None, _) \<Rightarrow> (StatusPage ''Link expired'', s)
        | (Some _, db) \<Rightarrow> (StatusPage ''Password updated'', s\<lparr>dk_db := db\<rparr>)))"

definition reset_submit :: "console \<Rightarrow> time \<Rightarrow> int \<Rightarrow> ui_request \<Rightarrow> string \<Rightarrow> string \<Rightarrow> string \<Rightarrow> desk \<Rightarrow> page \<times> desk" where
  "reset_submit u now t rq token password confirm s = (case reset_disabled u of Some p \<Rightarrow> (p, s)
   | None \<Rightarrow> (case throttle (''reset:ip:'' @ client_ip rq) RESET_MAX_PER_IP RESET_WINDOW t s of
        (False, s) \<Rightarrow> (TooMany, s)
      | (True, s) \<Rightarrow> reset_checked u now token password confirm s))"

definition password_error :: "string \<Rightarrow> string \<Rightarrow> string \<Rightarrow> string option" where
  "password_error current password confirm =
     (if chars_count password < MIN_PASSWORD_LEN then Some ''New password must be at least 8 characters.''
      else if password \<noteq> confirm then Some (''The new passwords didn'' @ CHR 0x27 # ''t match.'')
      else if password = current then Some ''Your new password must be different from your current one.'' else None)"

definition change_my_password :: "console \<Rightarrow> (uuid \<Rightarrow> string) \<Rightarrow> int \<Rightarrow> current_user \<Rightarrow> ui_request \<Rightarrow> string \<Rightarrow> string \<Rightarrow> string
    \<Rightarrow> desk \<Rightarrow> (status, page) result \<times> desk" where
  "change_my_password u show_id t cu rq current password confirm s = (case cu_id cu of None \<Rightarrow> (Inl Forbidden, s)
   | Some uid \<Rightarrow> (case throttle (''pwchange:'' @ show_id uid) PW_CHANGE_MAX PW_CHANGE_WINDOW t s of
        (False, s) \<Rightarrow> (Inr TooMany, s)
      | (True, s) \<Rightarrow> (case password_error current password confirm of
           Some e \<Rightarrow> (Inr (AccountPage [] e), s)
         | None \<Rightarrow> (case change_password (ui_sha u) (ui_hash u) (ui_verify u) (dk_db s) uid current password (session_cookie rq) of
              (WrongCurrent, db) \<Rightarrow> (Inr (AccountPage [] ''Your current password is incorrect.''), s\<lparr>dk_db := db\<rparr>)
            | (Changed, db) \<Rightarrow> (Inr (AccountPage ''Password changed. Your other sessions have been signed out.'' []), s\<lparr>dk_db := db\<rparr>)))))"

section \<open>Guessing is bounded\<close>

text \<open>A visit to one of the throttled handlers, with the limiter's instant and the database's time.\<close>

datatype errand = SignIn ui_request string string string | AskReset ui_request string string
  | UseReset ui_request string string string | ChangePassword current_user ui_request string string string

datatype visit = Visit (at_instant: int) (at_time: time) (errand: errand)

text \<open>What a visit leaves, and the account name whose password it got checked.\<close>

fun serve :: "console \<Rightarrow> (uuid \<Rightarrow> string) \<Rightarrow> visit \<Rightarrow> desk \<Rightarrow> string option \<times> desk" where
  "serve u show_id (Visit t now (SignIn rq email password token)) s =
     (let (r, s) = login u token now t rq email password s in (if r = Inr TooMany then None else Some email, s))"
| "serve u show_id (Visit t now (AskReset rq email token)) s = (None, snd (forgot_submit u token now t rq email s))"
| "serve u show_id (Visit t now (UseReset rq token password confirm)) s = (None, snd (reset_submit u now t rq token password confirm s))"
| "serve u show_id (Visit t now (ChangePassword cu rq current password confirm)) s =
     (None, snd (change_my_password u show_id t cu rq current password confirm s))"

fun password_checks :: "console \<Rightarrow> (uuid \<Rightarrow> string) \<Rightarrow> visit list \<Rightarrow> desk \<Rightarrow> (string \<times> int) list" where
  "password_checks u show_id [] s = []"
| "password_checks u show_id (v # vs) s = (let (checked, s) = serve u show_id v s
     in (case checked of None \<Rightarrow> [] | Some email \<Rightarrow> [(email, at_instant v)]) @ password_checks u show_id vs s)"

definition ui_limits :: limits where
  "ui_limits k = (if starts_with ''login:ip:'' k then (LOGIN_MAX_PER_IP, LOGIN_WINDOW)
     else if starts_with ''login:email:'' k then (LOGIN_MAX_PER_EMAIL, LOGIN_WINDOW)
     else if starts_with ''forgot:ip:'' k then (FORGOT_MAX_PER_IP, FORGOT_WINDOW)
     else if starts_with ''forgot:email:'' k then (FORGOT_MAX_PER_EMAIL, FORGOT_WINDOW)
     else if starts_with ''reset:ip:'' k then (RESET_MAX_PER_IP, RESET_WINDOW) else (PW_CHANGE_MAX, PW_CHANGE_WINDOW))"

lemmas limit_defs = LOGIN_MAX_PER_IP_def LOGIN_MAX_PER_EMAIL_def LOGIN_WINDOW_def FORGOT_MAX_PER_IP_def FORGOT_MAX_PER_EMAIL_def
  FORGOT_WINDOW_def RESET_MAX_PER_IP_def RESET_WINDOW_def PW_CHANGE_MAX_def PW_CHANGE_WINDOW_def minutes_def

lemma take_chars_prefix: "\<forall>c\<in>set p. \<not> continues c \<Longrightarrow> length p \<le> n \<Longrightarrow> take_chars n (p @ x) = p @ take_chars (n - length p) x"
  by (induction p arbitrary: n) auto

lemma bounded_prefix:
  assumes "list_all (\<lambda>c. \<not> continues c) p" "length p \<le> MAX_KEY_CHARS"
  shows "bounded_key (p @ x) = p @ take_chars (MAX_KEY_CHARS - length p) x"
  using assms by (auto simp: bounded_key_def list_all_iff take_chars_prefix)

definition ui_prefixes :: "string list" where
  "ui_prefixes = [''login:ip:'', ''login:email:'', ''forgot:ip:'', ''forgot:email:'', ''reset:ip:'', ''pwchange:'']"

lemma bounded_ui_key:
  assumes "p \<in> set ui_prefixes"
  shows "bounded_key (p @ x) = p @ take_chars (MAX_KEY_CHARS - length p) x"
proof -
  have "list_all (\<lambda>p. list_all (\<lambda>c. \<not> continues c) p \<and> length p \<le> MAX_KEY_CHARS) ui_prefixes" by code_simp
  then show ?thesis using assms by (intro bounded_prefix) (auto simp: list_all_iff)
qed

lemma ui_limits_keys:
  "ui_limits (bounded_key (''login:ip:'' @ x)) = (LOGIN_MAX_PER_IP, LOGIN_WINDOW)"
  "ui_limits (bounded_key (''login:email:'' @ x)) = (LOGIN_MAX_PER_EMAIL, LOGIN_WINDOW)"
  "ui_limits (bounded_key (''forgot:ip:'' @ x)) = (FORGOT_MAX_PER_IP, FORGOT_WINDOW)"
  "ui_limits (bounded_key (''forgot:email:'' @ x)) = (FORGOT_MAX_PER_EMAIL, FORGOT_WINDOW)"
  "ui_limits (bounded_key (''reset:ip:'' @ x)) = (RESET_MAX_PER_IP, RESET_WINDOW)"
  "ui_limits (bounded_key (''pwchange:'' @ x)) = (PW_CHANGE_MAX, PW_CHANGE_WINDOW)"
  by (subst bounded_ui_key, simp add: ui_prefixes_def, simp add: ui_limits_def starts_with_def)+

text \<open>The limiter's memory is right for a history of admitted attempts that itself respects every limit.\<close>

definition tracks :: "desk \<Rightarrow> (string \<times> int) list \<Rightarrow> int \<Rightarrow> bool" where
  "tracks s h now \<longleftrightarrow> remembers ui_limits (dk_limiter s) h now \<and> (\<forall>a\<in>set h. snd a \<le> now)
     \<and> (\<forall>k t. within (t - snd (ui_limits k)) t k h \<le> fst (ui_limits k))"

lemma within_admit:
  assumes "\<forall>k t. within (t - snd (lim k)) t k h \<le> fst (lim k)" "\<forall>a\<in>set h. snd a \<le> u" "length (recent lim j u h) < fst (lim j)"
  shows "within (t - snd (lim k)) t k (h @ [(j, u)]) \<le> fst (lim k)"
proof (cases "k = j \<and> t - snd (lim k) < u \<and> u \<le> t")
  case True
  then have "within (t - snd (lim k)) t k h \<le> length (recent lim j u h)" using within_recent[OF assms(2), of t lim j] by simp
  then show ?thesis using True assms(3) by (simp add: within_def)
next
  case False
  then show ?thesis using assms(1) by (auto simp: within_def)
qed

lemma throttle_tracks:
  assumes "tracks s h now" "now \<le> t" "ui_limits (bounded_key key) = (most, d)" "throttle key most d t s = (ok, s')"
  shows "tracks s' (if ok then h @ [(bounded_key key, t)] else h) t" "dk_db s' = dk_db s" "dk_outbox s' = dk_outbox s"
proof -
  obtain l where run: "allow (dk_limiter s) key most d t = (ok, l)" and s': "s' = s\<lparr>dk_limiter := l\<rparr>"
    using assms(4) by (auto simp: throttle_def split: prod.splits)
  have caps: "\<forall>k. fst (ui_limits k) \<le> MAX_ATTEMPTS_KEPT \<and> 0 < snd (ui_limits k) \<and> snd (ui_limits k) \<le> MAX_WINDOW"
    by (simp add: ui_limits_def limit_defs MAX_ATTEMPTS_KEPT_def MAX_WINDOW_def)
  have h: "remembers ui_limits (dk_limiter s) h now" "\<forall>a\<in>set h. snd a \<le> t"
      "\<forall>k t. within (t - snd (ui_limits k)) t k h \<le> fst (ui_limits k)"
    using assms(1,2) by (fastforce simp: tracks_def)+
  note step = allow_remembers[OF h(1) assms(2) caps, of key ok l, unfolded assms(3), simplified, OF run]
  show "tracks s' (if ok then h @ [(bounded_key key, t)] else h) t"
    using step h(2,3) within_admit[OF h(3,2), of "bounded_key key"] by (auto simp: tracks_def s' assms(3))
qed (use assms(4) in \<open>auto simp: throttle_def split: prod.splits\<close>)

definition login_key :: "string \<Rightarrow> string" where
  "login_key email = bounded_key (''login:email:'' @ ascii_lower (trim email))"

lemma tracks_limiter: "tracks s h now \<Longrightarrow> dk_limiter s' = dk_limiter s \<Longrightarrow> tracks s' h now"
  by (simp add: tracks_def)

lemma limiter_kept [simp]:
  "dk_limiter (snd (login_checked u token now email password s)) = dk_limiter s"
  "dk_limiter (send_reset u token now email s) = dk_limiter s"
  "dk_limiter (snd (reset_checked u now token password confirm s)) = dk_limiter s"
  by (auto simp: login_checked_def send_reset_def reset_checked_def split: option.split sum.split prod.split)

lemma tracks_later: "tracks s h now \<Longrightarrow> now \<le> t \<Longrightarrow> tracks s h t"
  by (fastforce simp: tracks_def remembers_def)

lemma throttled:
  assumes "tracks s h now" "now \<le> t" "ui_limits (bounded_key key) = (most, d)"
  shows "\<exists>h'. tracks (snd (throttle key most d t s)) (h @ h') t \<and> (fst (throttle key most d t s) \<longrightarrow> (bounded_key key, t) \<in> set h')"
proof -
  obtain ok s' where run: "throttle key most d t s = (ok, s')" by fastforce
  show ?thesis using throttle_tracks(1)[OF assms run] run
    by (cases ok) (force intro: exI[of _ "[(bounded_key key, t)]"] exI[of _ "[]"])+
qed

lemma login_tracks:
  assumes "tracks s h now" "now \<le> t"
  shows "\<exists>h'. tracks (snd (login u token dnow t rq email password s)) (h @ h') t
    \<and> (fst (login u token dnow t rq email password s) \<noteq> Inr TooMany \<longrightarrow> (login_key email, t) \<in> set h')"
proof -
  let ?ip = "throttle (''login:ip:'' @ client_ip rq) LOGIN_MAX_PER_IP LOGIN_WINDOW t s"
  obtain ok1 s1 where 1: "?ip = (ok1, s1)" by fastforce
  let ?em = "throttle (''login:email:'' @ ascii_lower (trim email)) LOGIN_MAX_PER_EMAIL LOGIN_WINDOW t s1"
  obtain ok2 s2 where 2: "?em = (ok2, s2)" by fastforce
  obtain h1 where h1: "tracks s1 (h @ h1) t" using throttled[OF assms ui_limits_keys(1)] 1 by (metis snd_conv)
  obtain h2 where h2: "tracks s2 ((h @ h1) @ h2) t" "ok2 \<longrightarrow> (login_key email, t) \<in> set h2"
    using throttled[OF h1 order_refl ui_limits_keys(2)] 2 unfolding login_key_def by (metis fst_conv snd_conv)
  show ?thesis
  proof (cases ok1)
    case False
    then show ?thesis using h1 1 by (auto simp: login_def)
  next
    case True
    have "snd (login u token dnow t rq email password s) = (if ok2 then snd (login_checked u token dnow email password s2) else s2)"
      "\<not> ok2 \<Longrightarrow> fst (login u token dnow t rq email password s) = Inr TooMany"
      using True 1 2 by (auto simp: login_def)
    then show ?thesis using h2 tracks_limiter[OF h2(1)]
      by (cases ok2) (auto intro!: exI[of _ "h1 @ h2"])
  qed
qed

lemma forgot_tracks:
  assumes "tracks s h now" "now \<le> t"
  shows "\<exists>h'. tracks (snd (forgot_submit u token dnow t rq email s)) (h @ h') t"
proof (cases "reset_disabled u")
  case (Some p)
  then show ?thesis using tracks_later[OF assms] by (auto simp: forgot_submit_def intro: exI[of _ "[]"])
next
  case None
  let ?ip = "throttle (''forgot:ip:'' @ client_ip rq) FORGOT_MAX_PER_IP FORGOT_WINDOW t s"
  obtain ok1 s1 where 1: "?ip = (ok1, s1)" by fastforce
  let ?em = "throttle (''forgot:email:'' @ ascii_lower (trim email)) FORGOT_MAX_PER_EMAIL FORGOT_WINDOW t s1"
  obtain ok2 s2 where 2: "?em = (ok2, s2)" by fastforce
  obtain h1 where h1: "tracks s1 (h @ h1) t" using throttled[OF assms ui_limits_keys(3)] 1 by (metis snd_conv)
  obtain h2 where h2: "tracks s2 ((h @ h1) @ h2) t" using throttled[OF h1 order_refl ui_limits_keys(4)] 2 by (metis snd_conv)
  show ?thesis using h1 h2 1 2 None tracks_limiter[OF h2]
    by (cases ok1; cases ok2) (auto simp: forgot_submit_def Let_def intro: exI[of _ h1] exI[of _ "h1 @ h2"])
qed

lemma reset_tracks:
  assumes "tracks s h now" "now \<le> t"
  shows "\<exists>h'. tracks (snd (reset_submit u dnow t rq token password confirm s)) (h @ h') t"
proof (cases "reset_disabled u")
  case (Some p)
  then show ?thesis using tracks_later[OF assms] by (auto simp: reset_submit_def intro: exI[of _ "[]"])
next
  case None
  let ?ip = "throttle (''reset:ip:'' @ client_ip rq) RESET_MAX_PER_IP RESET_WINDOW t s"
  obtain ok1 s1 where 1: "?ip = (ok1, s1)" by fastforce
  obtain h1 where h1: "tracks s1 (h @ h1) t" using throttled[OF assms ui_limits_keys(5)] 1 by (metis snd_conv)
  show ?thesis using h1 1 None tracks_limiter[OF h1]
    by (cases ok1) (auto simp: reset_submit_def intro: exI[of _ h1])
qed

lemma change_tracks:
  assumes "tracks s h now" "now \<le> t"
  shows "\<exists>h'. tracks (snd (change_my_password u show_id t cu rq current password confirm s)) (h @ h') t"
proof (cases "cu_id cu")
  case None
  then show ?thesis using tracks_later[OF assms] by (auto simp: change_my_password_def intro: exI[of _ "[]"])
next
  case (Some i)
  let ?ip = "throttle (''pwchange:'' @ show_id i) PW_CHANGE_MAX PW_CHANGE_WINDOW t s"
  obtain ok1 s1 where 1: "?ip = (ok1, s1)" by fastforce
  obtain h1 where h1: "tracks s1 (h @ h1) t" using throttled[OF assms ui_limits_keys(6)] 1 by (metis snd_conv)
  have "dk_limiter (snd (change_my_password u show_id t cu rq current password confirm s)) = dk_limiter s1"
    using Some 1 by (auto simp: change_my_password_def split: bool.split option.split prod.split password_change.split)
  from tracks_limiter[OF h1 this] show ?thesis ..
qed

lemma serve_tracks:
  assumes "tracks s h now" "now \<le> at_instant v" "serve u show_id v s = (c, s')"
  shows "\<exists>h'. tracks s' (h @ h') (at_instant v) \<and> (\<forall>e. c = Some e \<longrightarrow> (login_key e, at_instant v) \<in> set h')"
proof (cases v)
  case v: (Visit t dnow w)
  have t: "now \<le> t" using assms(2) v by simp
  show ?thesis
  proof (cases w)
    case (SignIn rq email password token)
    then show ?thesis using login_tracks[OF assms(1) t, of u token dnow rq email password] assms(3) v by (auto simp: split_def Let_def split: if_splits)
  next
    case (AskReset rq email token)
    then show ?thesis using forgot_tracks[OF assms(1) t, of u token dnow rq email] assms(3) v by auto
  next
    case (UseReset rq token password confirm)
    then show ?thesis using reset_tracks[OF assms(1) t, of u dnow rq token password confirm] assms(3) v by auto
  next
    case (ChangePassword cu rq current password confirm)
    then show ?thesis using change_tracks[OF assms(1) t, of u show_id cu rq current password confirm] assms(3) v by auto
  qed
qed

lemma within_append: "within lo hi k (a @ b) = within lo hi k a + within lo hi k b"
  by (simp add: within_def)

lemma within_member: "(k, t) \<in> set h \<Longrightarrow> lo < t \<Longrightarrow> t \<le> hi \<Longrightarrow> 0 < within lo hi k h"
  unfolding within_def by (induction h) auto

lemma checks_tracked:
  assumes "tracks s h now" "sorted (now # map at_instant vs)"
  shows "\<exists>h'. (\<forall>k t. within (t - snd (ui_limits k)) t k (h @ h') \<le> fst (ui_limits k))
    \<and> (\<forall>lo hi k. length (filter (\<lambda>(e, t). login_key e = k \<and> lo < t \<and> t \<le> hi) (password_checks u show_id vs s)) \<le> within lo hi k h')"
  using assms
proof (induction vs arbitrary: s h now)
  case Nil
  then show ?case by (auto simp: tracks_def intro: exI[of _ "[]"])
next
  case (Cons v vs)
  obtain c s1 where run: "serve u show_id v s = (c, s1)" by fastforce
  obtain h1 where h1: "tracks s1 (h @ h1) (at_instant v)" "\<forall>e. c = Some e \<longrightarrow> (login_key e, at_instant v) \<in> set h1"
    using serve_tracks[OF Cons.prems(1) _ run] Cons.prems(2) by auto
  obtain h2 where h2: "\<forall>k t. within (t - snd (ui_limits k)) t k ((h @ h1) @ h2) \<le> fst (ui_limits k)"
      "\<forall>lo hi k. length (filter (\<lambda>(e, t). login_key e = k \<and> lo < t \<and> t \<le> hi) (password_checks u show_id vs s1)) \<le> within lo hi k h2"
    using Cons.IH[OF h1(1)] Cons.prems(2) by auto
  have "length (filter (\<lambda>(e, t). login_key e = k \<and> lo < t \<and> t \<le> hi) (password_checks u show_id (v # vs) s)) \<le> within lo hi k (h1 @ h2)" for lo hi k
  proof (cases "\<exists>e. c = Some e \<and> login_key e = k \<and> lo < at_instant v \<and> at_instant v \<le> hi")
    case True
    then have "0 < within lo hi k h1" using h1(2) within_member[of k "at_instant v" h1 lo hi] by blast
    then show ?thesis using True h2(2)[rule_format, of k lo hi] run by (auto simp: within_append)
  next
    case False
    then show ?thesis using h2(2)[rule_format, of k lo hi] run by (auto simp: within_append split: option.split intro: trans_le_add2)
  qed
  then show ?case using h2(1) by (auto intro!: exI[of _ "h1 @ h2"])
qed

text \<open>C12: online guessing is bounded: whatever visits reach the sign-in, reset and password-change forms and in whatever order,
  from whatever addresses, at most five sign-ins for one account name get their password checked within any five minutes.\<close>

theorem login_guesses_bounded:
  assumes "dk_limiter s = fresh_limiter" "sorted (map at_instant vs)"
  shows "length (filter (\<lambda>(e, t'). ascii_lower (trim e) = ascii_lower (trim email) \<and> t - LOGIN_WINDOW < t' \<and> t' \<le> t)
    (password_checks u show_id vs s)) \<le> LOGIN_MAX_PER_EMAIL"
proof (cases vs)
  case (Cons v vs')
  have 1: "tracks s [] (at_instant v)"
    using assms(1) by (simp add: tracks_def remembers_def fresh_limiter_def window_of_def recent_def within_def)
  have 2: "sorted (at_instant v # map at_instant vs)" using assms(2) Cons by auto
  obtain h where h: "\<forall>k t. within (t - snd (ui_limits k)) t k h \<le> fst (ui_limits k)"
      "\<forall>lo hi k. length (filter (\<lambda>(e, t). login_key e = k \<and> lo < t \<and> t \<le> hi) (password_checks u show_id vs s)) \<le> within lo hi k h"
    using checks_tracked[OF 1 2, of u show_id] by auto
  have lim: "ui_limits (login_key email) = (LOGIN_MAX_PER_EMAIL, LOGIN_WINDOW)" unfolding login_key_def by (rule ui_limits_keys(2))
  let ?P = "\<lambda>(e, t'). login_key e = login_key email \<and> t - LOGIN_WINDOW < t' \<and> t' \<le> t"
  have "length (filter (\<lambda>(e, t'). ascii_lower (trim e) = ascii_lower (trim email) \<and> t - LOGIN_WINDOW < t' \<and> t' \<le> t) xs) \<le> length (filter ?P xs)" for xs
    by (induction xs) (auto simp: login_key_def)
  also have "length (filter ?P (password_checks u show_id vs s)) \<le> within (t - LOGIN_WINDOW) t (login_key email) h"
    using h(2) by blast
  also have "\<dots> \<le> LOGIN_MAX_PER_EMAIL"
    using h(1)[rule_format, of t "login_key email"] lim by simp
  finally show ?thesis .
qed simp

text \<open>Asking for a reset link tells nothing about accounts: the page, and every later answer the limiter influences, are the
  same whether or not the address has an account; what differs is the mail its owner gets.\<close>

theorem forgot_reveals_nothing:
  assumes "dk_limiter s = dk_limiter s'"
  shows "fst (forgot_submit u token now t rq email s) = fst (forgot_submit u token now t rq email s')
    \<and> dk_limiter (snd (forgot_submit u token now t rq email s)) = dk_limiter (snd (forgot_submit u token now t rq email s'))"
  using assms by (auto simp: forgot_submit_def throttle_def Let_def split: option.split prod.splits bool.splits)

text \<open>The cross-origin guard: a state-changing request that the browser marks as coming from another site, or whose origin is
  another host, is refused outside SCIM.\<close>

lemma cross_site_refused:
  assumes "uq_method rq \<notin> set [''GET'', ''HEAD'', ''OPTIONS'']" "\<not> starts_with ''/scim/'' (uq_path rq)"
    and "uq_fetch_site rq = Some ''cross-site'' \<or> uq_fetch_site rq = Some ''same-site''
      \<or> uq_fetch_site rq = None \<and> uq_origin rq = Some origin \<and> header_str origin = Some origin \<and> origin_host origin = Some h
         \<and> (case Option.bind (uq_host rq) header_str of None \<Rightarrow> True | Some b \<Rightarrow> ascii_lower h \<noteq> ascii_lower b)"
  shows "\<not> csrf_guard rq"
proof -
  have "header_str ''cross-site'' = Some ''cross-site''" "header_str ''same-site'' = Some ''same-site''" by code_simp+
  then show ?thesis using assms by (auto simp: csrf_guard_def forbids_cross_origin_def split: option.splits)
qed

definition demo_console :: console where
  "demo_console = \<lparr>ui_single_tenant = False, ui_admin_password = None, ui_dashboard_url = ''https://r.test/'', ui_cookie_secure = True,
     ui_sha = demo_sha, ui_verify = (\<lambda>p h. h = ''phc:'' @ p), ui_hash = (\<lambda>p. ''phc:'' @ p), ui_b64 = (\<lambda>_. None)\<rparr>"

definition demo_visitor :: "string \<Rightarrow> ui_request" where
  "demo_visitor ip = \<lparr>uq_method = ''POST'', uq_path = ''/login'', uq_fetch_site = Some ''same-origin'', uq_origin = None, uq_host = Some ''r.test'',
     uq_authorization = None, uq_cookie = None, uq_forwarded = Some (''spoofed, '' @ ip), uq_peer = Some ''10.0.0.1''\<rparr>"

definition demo_desk :: "db \<Rightarrow> desk" where
  "demo_desk db = \<lparr>dk_db = db, dk_limiter = fresh_limiter, dk_outbox = []\<rparr>"

definition demo_visits :: "visit list" where
  "demo_visits = map (\<lambda>n. Visit n 0 (SignIn (demo_visitor [char_of (n + 48)]) (if n = 3 then '' A@b.c'' else ''a@b.c'') ''guess'' ''t'')) [1, 2, 3, 4, 5, 6, 7]"

theorem login_guesses_bounded_witness:
  "length (filter (\<lambda>(e, t'). ascii_lower (trim e) = ''a@b.c'' \<and> 7 - LOGIN_WINDOW < t' \<and> t' \<le> 7)
       (password_checks demo_console (\<lambda>_. []) demo_visits (demo_desk empty_db))) \<le> LOGIN_MAX_PER_EMAIL
     \<and> length (password_checks demo_console (\<lambda>_. []) demo_visits (demo_desk empty_db)) = LOGIN_MAX_PER_EMAIL \<and> length demo_visits = 7"
proof (intro conjI)
  have "ascii_lower (trim ''a@b.c'') = ''a@b.c''" by code_simp
  moreover have "dk_limiter (demo_desk empty_db) = fresh_limiter" by (simp add: demo_desk_def)
  moreover have "sorted (map at_instant demo_visits)" by (simp add: demo_visits_def)
  ultimately show "length (filter (\<lambda>(e, t'). ascii_lower (trim e) = ''a@b.c'' \<and> 7 - LOGIN_WINDOW < t' \<and> t' \<le> 7)
      (password_checks demo_console (\<lambda>_. []) demo_visits (demo_desk empty_db))) \<le> LOGIN_MAX_PER_EMAIL"
    using login_guesses_bounded[of "demo_desk empty_db" demo_visits "''a@b.c''" 7] by simp
  have "password_checks demo_console (\<lambda>_. []) demo_visits (demo_desk empty_db)
      = [(''a@b.c'', 1), (''a@b.c'', 2), ('' A@b.c'', 3), (''a@b.c'', 4), (''a@b.c'', 5)]" by code_simp
  then show "length (password_checks demo_console (\<lambda>_. []) demo_visits (demo_desk empty_db)) = LOGIN_MAX_PER_EMAIL"
    by (simp add: LOGIN_MAX_PER_EMAIL_def)
qed (simp add: demo_visits_def)

theorem forgot_reveals_nothing_witness:
  "fst (forgot_submit demo_console ''t'' 0 0 (demo_visitor ''1'') ''a@x'' (demo_desk demo_accounts))
       = fst (forgot_submit demo_console ''t'' 0 0 (demo_visitor ''1'') ''a@x'' (demo_desk empty_db))
     \<and> dk_outbox (snd (forgot_submit demo_console ''t'' 0 0 (demo_visitor ''1'') ''a@x'' (demo_desk demo_accounts)))
         = [(''a@x'', ''https://r.test/reset?token=t'')]
     \<and> dk_outbox (snd (forgot_submit demo_console ''t'' 0 0 (demo_visitor ''1'') ''a@x'' (demo_desk empty_db))) = []"
proof (intro conjI)
  have "dk_limiter (demo_desk demo_accounts) = dk_limiter (demo_desk empty_db)" by (simp add: demo_desk_def)
  from forgot_reveals_nothing[OF this]
  show "fst (forgot_submit demo_console ''t'' 0 0 (demo_visitor ''1'') ''a@x'' (demo_desk demo_accounts))
      = fst (forgot_submit demo_console ''t'' 0 0 (demo_visitor ''1'') ''a@x'' (demo_desk empty_db))" by blast
qed code_simp+

end
