(* ===== verification/Api.thy ===== *)
theory Api
  imports Effects
begin

text \<open>
  The management API a shop drives (\<open>crates/sconce-server/src/api.rs\<close>): authentication by a service token bound to one
  repository, the nine routes over the license operations of \<open>Licenses\<close>, their documents and error answers. The cipher at
  rest, calendar arithmetic, the printing of dates and uuids and fresh keys are fields of \<open>shop\<close>; a handler gets the path
  and body as axum's extractors hand them over, and the raw \<open>Idempotency-Key\<close> header.
\<close>

section \<open>Parameters, errors, answers\<close>

record ('v, 'w) shop =
  sh_app :: "('v, 'w) app"
  sh_enc :: "(bytes \<Rightarrow> bytes) option"
  sh_dec :: "(bytes \<Rightarrow> string option) option"
  sh_months :: "int \<Rightarrow> time \<Rightarrow> time"
  sh_secret :: "uuid \<Rightarrow> string"
  sh_date :: "time \<Rightarrow> string"
  sh_parse_id :: "string \<Rightarrow> uuid option"
  sh_show_id :: "uuid \<Rightarrow> string"

datatype api_error = ApiUnauthorized | ApiForbidden | ApiNotFound string | ApiBadRequest string | ApiConflict string | ApiDb sql_error

datatype api_answer = Reply nat json | Done

fun error_answer :: "api_error \<Rightarrow> api_answer" where
  "error_answer ApiUnauthorized = Reply 401 (JObj [(''error'', JStr ''missing or invalid service token'')])"
| "error_answer ApiForbidden = Reply 403 (JObj [(''error'', JStr ''this service token is not valid for that repository'')])"
| "error_answer (ApiNotFound what) = Reply 404 (JObj [(''error'', JStr (what @ '' not found''))])"
| "error_answer (ApiBadRequest m) = Reply 400 (JObj [(''error'', JStr m)])"
| "error_answer (ApiConflict m) = Reply 409 (JObj [(''error'', JStr m)])"
| "error_answer (ApiDb e) = Reply 500 (JObj [(''error'', JStr ''internal error'')])"

type_synonym ('w, 'a) api = "(api_error, 'w, 'a) eff"

section \<open>Authentication and documents\<close>

definition authed_repo :: "('v, 'w) shop \<Rightarrow> string \<Rightarrow> string \<Rightarrow> request \<Rightarrow> ('w, uuid) api" where
  "authed_repo z org repo rq = (let a = sh_app z in
     bind_act (need ApiUnauthorized (extract_token (app_b64 a) rq)) (\<lambda>token.
     bind_act (stamping (\<lambda>db. resolve_service_token (rt_sha (app_rt a)) (app_now a) db token)) (\<lambda>found.
     bind_act (need ApiUnauthorized found) (\<lambda>token_repo.
     bind_act (read_db (\<lambda>db. resolve_repo db org repo)) (\<lambda>found.
     bind_act (need (ApiNotFound ''repository'') found) (\<lambda>path_repo.
     settled (if token_repo = path_repo then Inr path_repo else Inl ApiForbidden)))))))"

definition host_of :: "string \<Rightarrow> string" where
  "host_of url = takeWhile (\<lambda>c. c \<noteq> CHR ''/'') (case split_str ''://'' url of Some (_, rest) \<Rightarrow> rest | None \<Rightarrow> url)"

definition json_opt :: "('a \<Rightarrow> json) \<Rightarrow> 'a option \<Rightarrow> json" where
  "json_opt f x = (case x of None \<Rightarrow> JNull | Some y \<Rightarrow> f y)"

definition bound_fields :: "('v, 'w) shop \<Rightarrow> license_bound \<Rightarrow> (string \<times> json) list" where
  "bound_fields z b = [(''until'', json_opt (\<lambda>t. JStr (sh_date z t)) (lb_until b)), (''major'', json_opt JNum (lb_major b))]"

definition license_json :: "('v, 'w) shop \<Rightarrow> string \<Rightarrow> string \<Rightarrow> license_detail \<Rightarrow> (string \<times> json) list" where
  "license_json z org repo d = (let url = repo_base (app_base_url (sh_app z)) org repo in
     [(''id'', JStr (sh_show_id z (ld_id d))), (''buyer'', json_opt JStr (ld_buyer d)), (''status'', JStr (ld_status d)),
      (''edition'', json_opt JStr (ld_edition d)), (''packages'', JArr (map JStr (ld_packages d))), (''key'', json_opt JStr (ld_key d)),
      (''bound'', JObj (bound_fields z (ld_bound d))),
      (''install'', JObj [(''repository_url'', JStr url), (''host'', JStr (host_of url)),
         (''auth'', JStr (''http-basic '' @ map char_of [0xE2, 0x80, 0x94 :: nat] @ '' the license key is the password (username ignored)''))])])"

definition idempotency_key :: "string option \<Rightarrow> string option" where
  "idempotency_key header = (case Option.bind header header_str of None \<Rightarrow> None
     | Some v \<Rightarrow> if trim v = [] then None else Some (trim v))"

definition parse_license_id :: "('v, 'w) shop \<Rightarrow> string \<Rightarrow> ('w, uuid) api" where
  "parse_license_id z s = need (ApiBadRequest ''invalid license id'') (sh_parse_id z s)"

definition in_quotes :: "string \<Rightarrow> string" where
  "in_quotes s = CHR 0x27 # s @ [CHR 0x27]"

definition edition_named :: "string \<Rightarrow> string \<Rightarrow> uuid \<Rightarrow> string \<Rightarrow> ('w, uuid) api" where
  "edition_named org repo repo_id edition = bind_act (read_db (\<lambda>db. find_edition db repo_id (trim edition)))
     (need (ApiBadRequest (''no edition '' @ in_quotes edition @ '' in '' @ org @ ''/'' @ repo)))"

definition detail_of :: "('v, 'w) shop \<Rightarrow> uuid \<Rightarrow> uuid \<Rightarrow> ('w, license_detail) api" where
  "detail_of z repo_id lic = bind_act (read_db (\<lambda>db. license_detail_of (sh_dec z) db repo_id lic)) (need (ApiNotFound ''license''))"

section \<open>Handlers\<close>

definition issue_license_route :: "('v, 'w) shop \<Rightarrow> string \<Rightarrow> string \<Rightarrow> request \<Rightarrow> string option \<Rightarrow> string \<Rightarrow> string option \<Rightarrow> bool \<Rightarrow> ('w, api_answer) api" where
  "issue_license_route z org repo rq header edition buyer account = (let a = sh_app z in
     bind_act (authed_repo z org repo rq) (\<lambda>repo_id.
     bind_act (edition_named org repo repo_id edition) (\<lambda>ed.
     bind_act (statement ApiDb (\<lambda>newid db. issue_from_edition newid (rt_sha (app_rt a)) (sh_enc z) (sh_dec z) (sh_months z)
         (sh_secret z newid) (app_now a) db repo_id ed
         (Option.bind buyer (\<lambda>b. if trim b = [] then None else Some (trim b))) (idempotency_key header) account)) (\<lambda>issued.
     bind_act (need (ApiBadRequest (''edition '' @ in_quotes edition @ '' is inactive'')) issued) (\<lambda>i.
     bind_act (detail_of z repo_id (il_id i)) (\<lambda>d.
     bind_act (read_db (\<lambda>db. edition_edge_bound db (il_id i) ed)) (\<lambda>edge.
     let body = AList.update ''created'' (JBool (il_created i)) (license_json z org repo d);
         body = (case il_key i of None \<Rightarrow> body | Some k \<Rightarrow> AList.update ''key'' (JStr k) body);
         body = (if account then AList.update ''edition_bound'' (JObj ((''edition'', JStr (trim edition)) # bound_fields z edge)) body else body)
     in ret (Reply (if il_created i then 201 else 200) (JObj body)))))))))"

definition inspect_license :: "('v, 'w) shop \<Rightarrow> string \<Rightarrow> string \<Rightarrow> request \<Rightarrow> string \<Rightarrow> ('w, api_answer) api" where
  "inspect_license z org repo rq i =
     bind_act (authed_repo z org repo rq) (\<lambda>repo_id. bind_act (parse_license_id z i) (\<lambda>lic.
     bind_act (detail_of z repo_id lic) (\<lambda>d. ret (Reply 200 (JObj (license_json z org repo d))))))"

definition renew_license_route :: "('v, 'w) shop \<Rightarrow> string \<Rightarrow> string \<Rightarrow> request \<Rightarrow> string option \<Rightarrow> string \<Rightarrow> ('w, api_answer) api" where
  "renew_license_route z org repo rq header i =
     bind_act (authed_repo z org repo rq) (\<lambda>repo_id. bind_act (parse_license_id z i) (\<lambda>lic.
     bind_act (stamping (\<lambda>db. renew_license (sh_months z) (app_now (sh_app z)) db repo_id lic (idempotency_key header))) (\<lambda>until.
     bind_act (need (ApiBadRequest ''license not found, revoked, or not issued from a time-bounded edition (renew a version/perpetual key by issuing a new edition)'') until) (\<lambda>_.
     bind_act (detail_of z repo_id lic) (\<lambda>d. ret (Reply 200 (JObj (license_json z org repo d))))))))"

definition renew_edition_route :: "('v, 'w) shop \<Rightarrow> string \<Rightarrow> string \<Rightarrow> request \<Rightarrow> string option \<Rightarrow> string \<Rightarrow> string \<Rightarrow> ('w, api_answer) api" where
  "renew_edition_route z org repo rq header i edition =
     bind_act (authed_repo z org repo rq) (\<lambda>repo_id. bind_act (parse_license_id z i) (\<lambda>lic.
     bind_act (edition_named org repo repo_id edition) (\<lambda>ed.
     bind_act (stamping (\<lambda>db. renew_license_edition (sh_months z) (app_now (sh_app z)) db repo_id lic ed (idempotency_key header))) (\<lambda>until.
     bind_act (need (ApiBadRequest ''license not found or revoked, edition not time-bounded, or no bounded entitlement for it on this key (a standalone key renews via /renew)'') until) (\<lambda>t.
     bind_act (detail_of z repo_id lic) (\<lambda>d. ret (Reply 200 (JObj (AList.update ''edition_bound''
        (JObj [(''edition'', JStr edition), (''until'', JStr (sh_date z t))]) (license_json z org repo d))))))))))"

definition add_edition_route :: "('v, 'w) shop \<Rightarrow> string \<Rightarrow> string \<Rightarrow> request \<Rightarrow> string \<Rightarrow> string \<Rightarrow> ('w, api_answer) api" where
  "add_edition_route z org repo rq i edition =
     bind_act (authed_repo z org repo rq) (\<lambda>repo_id. bind_act (parse_license_id z i) (\<lambda>lic.
     bind_act (edition_named org repo repo_id edition) (\<lambda>ed.
     bind_act (stamping (\<lambda>db. add_edition_to_license (sh_months z) (app_now (sh_app z)) db repo_id lic ed)) (\<lambda>outcome. case outcome of
       Added \<Rightarrow> bind_act (detail_of z repo_id lic) (\<lambda>d. bind_act (read_db (\<lambda>db. edition_edge_bound db lic ed)) (\<lambda>edge.
         ret (Reply 200 (JObj (AList.update ''edition_bound'' (JObj ((''edition'', JStr (trim edition)) # bound_fields z edge)) (license_json z org repo d))))))
     | Standalone \<Rightarrow> settled (Inl (ApiConflict (''edition '' @ in_quotes edition @ '' can'' @ CHR 0x27 # ''t be merged onto this key (issue a standalone key instead)'')))
     | NoKey \<Rightarrow> settled (Inl (ApiNotFound ''license''))
     | NoEdition \<Rightarrow> settled (Inl (ApiBadRequest (''edition '' @ in_quotes edition @ '' is inactive'')))))))"

definition remove_edition_route :: "('v, 'w) shop \<Rightarrow> string \<Rightarrow> string \<Rightarrow> request \<Rightarrow> string \<Rightarrow> string \<Rightarrow> ('w, api_answer) api" where
  "remove_edition_route z org repo rq i edition =
     bind_act (authed_repo z org repo rq) (\<lambda>repo_id. bind_act (parse_license_id z i) (\<lambda>lic.
     bind_act (read_db (\<lambda>db. find_edition db repo_id (trim edition))) (\<lambda>found. case found of
       None \<Rightarrow> ret Done
     | Some ed \<Rightarrow> bind_act (stamping (\<lambda>db. remove_edition_from_license db repo_id lic ed)) (\<lambda>there.
         settled (if there then Inr Done else Inl (ApiNotFound ''license''))))))"

definition merge_license_route :: "('v, 'w) shop \<Rightarrow> string \<Rightarrow> string \<Rightarrow> request \<Rightarrow> string \<Rightarrow> string \<Rightarrow> ('w, api_answer) api" where
  "merge_license_route z org repo rq i into =
     bind_act (authed_repo z org repo rq) (\<lambda>repo_id. bind_act (parse_license_id z i) (\<lambda>source.
     bind_act (need (ApiBadRequest ''invalid target license id'') (sh_parse_id z into)) (\<lambda>target.
     bind_act (stamping (\<lambda>db. merge_license_keys db repo_id source target)) (\<lambda>outcome. case outcome of
       Merged \<Rightarrow> bind_act (detail_of z repo_id target) (\<lambda>d. ret (Reply 200 (JObj (license_json z org repo d))))
     | NoSource \<Rightarrow> settled (Inl (ApiNotFound ''source license''))
     | NoTarget \<Rightarrow> settled (Inl (ApiNotFound ''target license''))
     | TargetBounded \<Rightarrow> settled (Inl (ApiConflict (''target key carries its own update bound '' @ map char_of [0xE2, 0x80, 0x94 :: nat]
          @ '' merge targets must be unbounded (account) keys'')))
     | SameKey \<Rightarrow> settled (Inl (ApiBadRequest ''source and target are the same key''))))))"

definition revoke_license_route :: "('v, 'w) shop \<Rightarrow> string \<Rightarrow> string \<Rightarrow> request \<Rightarrow> string \<Rightarrow> ('w, api_answer) api" where
  "revoke_license_route z org repo rq i =
     bind_act (authed_repo z org repo rq) (\<lambda>repo_id. bind_act (parse_license_id z i) (\<lambda>lic.
     bind_act (stamping (\<lambda>db. revoke_license db repo_id lic)) (\<lambda>there.
     settled (if there then Inr Done else Inl (ApiNotFound ''license'')))))"

section \<open>Editions for the shop\<close>

fun bound_label :: "edition_bound \<Rightarrow> string" where
  "bound_label Perpetual = ''perpetual''"
| "bound_label (TimeBound n) = show_int n @ '' months''"
| "bound_label (VersionBound m) = map char_of [0xE2, 0x89, 0xA4 :: nat] @ '' v'' @ show_int m"

definition edition_order :: "edition_row \<Rightarrow> edition_row \<Rightarrow> ordering" where
  "edition_order a b = then_with (if ed_active a = ed_active b then Equal else if ed_active a then Less else Greater) (text_cmp (ed_name a) (ed_name b))"

definition list_editions :: "db \<Rightarrow> uuid \<Rightarrow> (edition_row \<times> string) list" where
  "list_editions db repo = List.map_filter (\<lambda>e. map_option (\<lambda>s. (e, ps_name s)) (select_one (\<lambda>s. ps_id s = ed_set e) (sets db)))
     (sort_by edition_order (filter (\<lambda>e. ed_repo e = repo) (editions db)))"

definition edition_json :: "('v, 'w) shop \<Rightarrow> edition_row \<times> string \<Rightarrow> json" where
  "edition_json z = (\<lambda>(e, set_name). JObj [(''id'', JStr (sh_show_id z (ed_id e))), (''name'', JStr (ed_name e)), (''slug'', json_opt JStr (ed_slug e)),
     (''target_set'', JStr set_name), (''bound'', JStr (bound_label (bound_from_columns (ed_bound_kind e) (ed_bound_months e) (ed_bound_major e)))),
     (''snapshot'', JBool (ed_snapshot e)), (''active'', JBool (ed_active e))])"

definition list_editions_route :: "('v, 'w) shop \<Rightarrow> string \<Rightarrow> string \<Rightarrow> request \<Rightarrow> ('w, api_answer) api" where
  "list_editions_route z org repo rq = bind_act (authed_repo z org repo rq) (\<lambda>repo_id.
     bind_act (read_db (\<lambda>db. list_editions db repo_id)) (\<lambda>es. ret (Reply 200 (JObj [(''editions'', JArr (map (edition_json z) es))]))))"

section \<open>The router\<close>

datatype api_call = ListEditions | Issue "string option" string "string option" bool | Inspect string | Renew "string option" string
  | RenewEdition "string option" string string | AddEdition string string | RemoveEdition string string | MergeInto string string | Revoke string

fun api :: "('v, 'w) shop \<Rightarrow> string \<Rightarrow> string \<Rightarrow> request \<Rightarrow> api_call \<Rightarrow> ('w, api_answer) api" where
  "api z org repo rq ListEditions = list_editions_route z org repo rq"
| "api z org repo rq (Issue header edition buyer account) = issue_license_route z org repo rq header edition buyer account"
| "api z org repo rq (Inspect i) = inspect_license z org repo rq i"
| "api z org repo rq (Renew header i) = renew_license_route z org repo rq header i"
| "api z org repo rq (RenewEdition header i edition) = renew_edition_route z org repo rq header i edition"
| "api z org repo rq (AddEdition i edition) = add_edition_route z org repo rq i edition"
| "api z org repo rq (RemoveEdition i edition) = remove_edition_route z org repo rq i edition"
| "api z org repo rq (MergeInto i into) = merge_license_route z org repo rq i into"
| "api z org repo rq (Revoke i) = revoke_license_route z org repo rq i"

section \<open>What a key keeps\<close>

text \<open>The rows of one license key, and everything its entitlements are read from.\<close>

definition same_key :: "uuid \<Rightarrow> db \<Rightarrow> db \<Rightarrow> bool" where
  "same_key lic a b \<longleftrightarrow> filter (\<lambda>l. l_id l = lic) (licenses b) = filter (\<lambda>l. l_id l = lic) (licenses a)
     \<and> filter (\<lambda>e. en_license e = lic) (ents b) = filter (\<lambda>e. en_license e = lic) (ents a)
     \<and> filter (\<lambda>e. ls_license e = lic) (set_ents b) = filter (\<lambda>e. ls_license e = lic) (set_ents a)
     \<and> packages b = packages a \<and> sets b = sets a \<and> set_members b = set_members a \<and> set_rules b = set_rules a \<and> repos b = repos a"

definition key_of :: "uuid \<Rightarrow> uuid \<Rightarrow> db \<Rightarrow> bool" where
  "key_of repo lic db \<longleftrightarrow> exists_where (\<lambda>l. l_id l = lic \<and> l_repo l = repo) (licenses db)"

definition keeps_key :: "uuid \<Rightarrow> uuid \<Rightarrow> db \<Rightarrow> db \<Rightarrow> bool" where
  "keeps_key lic repo a b \<longleftrightarrow> (\<not> key_of repo lic a \<longrightarrow> same_key lic a b)"

lemma same_key_of: "same_key lic a b \<Longrightarrow> key_of repo lic b = key_of repo lic a"
proof -
  assume "same_key lic a b"
  then have "set (filter (\<lambda>l. l_id l = lic) (licenses b)) = set (filter (\<lambda>l. l_id l = lic) (licenses a))" by (simp add: same_key_def)
  then show ?thesis by (auto simp: key_of_def set_eq_iff)
qed

interpretation foreign: catalog_frame "keeps_key lic repo" for lic repo
proof unfold_locales
  show "keeps_key lic repo db db" for db by (simp add: keeps_key_def same_key_def)
  show "keeps_key lic repo a c" if "keeps_key lic repo a b" "keeps_key lic repo b c" for a b c
    using that same_key_of[of lic a b repo] by (auto simp: keeps_key_def same_key_def)
qed

lemma select_find: "select_one P t = (case filter P t of [] \<Rightarrow> None | x # _ \<Rightarrow> Some x)"
  by (induction t) (auto simp: table_simps)

lemma same_key_entitled:
  assumes "same_key lic a b"
  shows "entitled_package_bounds b lic = entitled_package_bounds a lic" "license_at b lic = license_at a lic"
proof -
  have "set_has b = set_has a" using assms by (auto simp: fun_eq_iff set_has_def same_key_def)
  then have "set_covers b = set_covers a" using assms by (auto simp: fun_eq_iff set_covers_def same_key_def)
  then have "direct_edges b lic = direct_edges a lic" "set_edges b lic = set_edges a lic"
    using assms by (simp_all add: direct_edges_def set_edges_def same_key_def)
  then show "entitled_package_bounds b lic = entitled_package_bounds a lic" by (simp add: entitled_package_bounds_def)
  show "license_at b lic = license_at a lic" using assms by (simp add: license_at_def select_find same_key_def)
qed

section \<open>Each operation keeps the keys of other repositories\<close>

lemma keeps_service_token: "keeps_key lic repo db (snd (resolve_service_token sha now db token))"
  by (simp add: keeps_key_def same_key_def resolve_service_token_def split_def)

lemma keeps_revoke: "keeps_key lic repo db (snd (revoke_license db repo k))"
proof (cases "k = lic")
  case True
  have "upd_where (\<lambda>l. l_id l = lic \<and> l_repo l = repo) f t = t" if "\<forall>l\<in>set t. \<not> (l_id l = lic \<and> l_repo l = repo)" for f and t :: "license_row list"
    using that by (induction t) (auto simp: table_simps)
  then show ?thesis using True by (simp add: keeps_key_def key_of_def revoke_license_def upd_license_def same_key_def)
next
  case False
  then have "filter (\<lambda>l. l_id l = lic) (upd_where (\<lambda>l. l_id l = k \<and> l_repo l = repo) (\<lambda>l. l\<lparr>l_status := st\<rparr>) t) = filter (\<lambda>l. l_id l = lic) t" for st and t :: "license_row list"
    by (intro filter_upd_other) auto
  then show ?thesis by (simp add: keeps_key_def same_key_def revoke_license_def upd_license_def)
qed

lemma attach_other:
  assumes "x \<noteq> lic"
  shows "same_key x db (attach_edition_set am now lic s sn b db)"
proof -
  have "same_key x d (fold (add_ent lic u m) ps d)" for u m ps d
  proof (induction ps arbitrary: d)
    case (Cons p ps)
    have "same_key x d (add_ent lic u m p d)" using assms by (auto simp: same_key_def add_ent_def)
    then show ?case using Cons[of "add_ent lic u m p d"] by (simp add: same_key_def)
  qed (simp add: same_key_def)
  then show ?thesis using assms by (auto simp: attach_edition_set_def Let_def add_set_ent_def same_key_def)
qed

lemma keeps_add_edition: "keeps_key lic repo db (snd (add_edition_to_license am now db repo k ed))"
proof -
  have "k = lic \<Longrightarrow> \<not> key_of repo lic db \<Longrightarrow> active_key db repo k = None"
    by (auto simp: key_of_def active_key_def select_one_None)
  moreover have "k \<noteq> lic \<Longrightarrow> same_key lic db (snd (add_edition_to_license am now db repo k ed))"
    using attach_other[of lic k db] by (auto simp: add_edition_to_license_def same_key_def split: option.split)
  ultimately show ?thesis by (cases "k = lic") (auto simp: keeps_key_def add_edition_to_license_def same_key_def)
qed

lemma keeps_remove_edition: "keeps_key lic repo db (snd (remove_edition_from_license db repo k ed))"
  by (auto simp: keeps_key_def key_of_def same_key_def remove_edition_from_license_def Let_def del_where_def intro!: filter_cong)

lemma keeps_merge: "keeps_key lic repo db (snd (merge_license_keys db repo k target))"
proof -
  have key: "active_key db repo j = Some l \<Longrightarrow> \<not> key_of repo lic db \<Longrightarrow> lic \<noteq> j" for j l
    by (auto simp: active_key_def key_of_def dest!: select_one_Some)
  have none: "snd (merge_license_keys db repo k target) = db \<Longrightarrow> ?thesis" by (simp add: keeps_key_def same_key_def)
  show ?thesis
  proof (cases "k = target")
    case True
    then show ?thesis by (intro none) (simp add: merge_license_keys_def)
  next
    case other: False
    show ?thesis
    proof (cases "active_key db repo k")
      case None
      then show ?thesis using other by (intro none) (simp add: merge_license_keys_def)
    next
      case l: (Some l)
      show ?thesis
      proof (cases "active_key db repo target")
        case None
        then show ?thesis using other l by (intro none) (simp add: merge_license_keys_def)
      next
        case t: (Some t)
        show ?thesis
        proof (cases "perpetual_key t")
          case False
          then show ?thesis using other l t by (intro none) (simp add: merge_license_keys_def)
        next
          case True
          have "same_key lic db (snd (merge_license_keys db repo k target))" if "\<not> key_of repo lic db"
          proof -
            have ne: "lic \<noteq> k" "lic \<noteq> target" using key l t that by auto
            then have "filter (\<lambda>l. l_id l = lic) (upd_where (\<lambda>l. l_id l = k) (\<lambda>l. l\<lparr>l_status := ''revoked''\<rparr>) (licenses db)) = filter (\<lambda>l. l_id l = lic) (licenses db)"
              by (intro filter_upd_other) auto
            then show ?thesis using other True
              by (simp add: merge_license_keys_def l t same_key_def fold_put_other_license[OF ne(2)])
          qed
          then show ?thesis by (simp add: keeps_key_def)
        qed
      qed
    qed
  qed
qed

lemma keeps_record: "keeps_key lic repo db (snd (record_renewal db repo k i))" "key_of repo lic (snd (record_renewal db repo k i)) = key_of repo lic db"
  by (simp_all add: keeps_key_def same_key_def record_renewal_def key_of_def)

lemma keeps_extend: "keeps_key lic repo db (snd (extend_time_bound am now db repo k))"
proof -
  have "filter (\<lambda>l. l_id l = lic) (map (\<lambda>l. case renewing_edition db repo k l of None \<Rightarrow> l | Some e \<Rightarrow> l\<lparr>l_until := extended am now e (l_until l)\<rparr>) (licenses db))
      = filter (\<lambda>l. l_id l = lic) (licenses db)" if "\<not> key_of repo lic db"
    using that by (intro filter_map_other) (auto simp: renewing_edition_def key_of_def split: option.splits if_splits)
  then show ?thesis by (simp add: keeps_key_def same_key_def extend_time_bound_def Let_def)
qed

lemma keeps_extend_edge: "keeps_key lic repo db (snd (extend_edge am now db repo k ed))"
proof -
  have "filter (\<lambda>s. ls_license s = lic) (map (\<lambda>s. case renewing_edge db repo k ed s of None \<Rightarrow> s | Some e \<Rightarrow> s\<lparr>ls_until := extended am now e (ls_until s)\<rparr>) (set_ents db))
      = filter (\<lambda>s. ls_license s = lic) (set_ents db)" if "\<not> key_of repo lic db"
    using that by (intro filter_map_other) (auto simp: renewing_edge_def key_of_def active_key_def split: option.splits if_splits dest!: select_one_Some)
  then show ?thesis by (simp add: keeps_key_def same_key_def extend_edge_def Let_def)
qed

lemma keeps_renew:
  "keeps_key lic repo db (snd (renew_license am now db repo k idem))"
  "keeps_key lic repo db (snd (renew_license_edition am now db repo k ed idem))"
  using keeps_extend keeps_extend_edge foreign.trans[OF keeps_record(1) keeps_extend] foreign.trans[OF keeps_record(1) keeps_extend_edge] keeps_record(1)
  by (auto simp: renew_license_def renew_license_edition_def split: option.split prod.split bool.split) (metis snd_conv)+

lemma keeps_issue:
  assumes "issue_from_edition i sha enc dec am secret now db repo ed buyer idem edge = Inr (x, db')" "i \<noteq> lic"
  shows "same_key lic db db'"
proof -
  have ins: "insert_license r db = Inr d \<Longrightarrow> l_id r \<noteq> lic \<Longrightarrow> same_key lic db d" for r d
    by (auto simp: insert_license_def same_key_def split: if_splits)
  have att: "same_key lic d (attach_edition_set am now i s sn b d)" for s sn b d using assms(2) by (intro attach_other) auto
  from assms show ?thesis
    by (auto simp: issue_from_edition_def issue_insert_def split: option.splits prod.splits sum.splits sql_error.splits)
      (use ins att in \<open>auto simp: same_key_def edition_license_def blank_license_def\<close>)
qed

section \<open>A service token reaches its repository only\<close>

lemma resolve_repo_service: "resolve_repo (db\<lparr>service_tokens := t\<rparr>) org repo = resolve_repo db org repo"
  by (simp add: resolve_repo_def org_by_slug_def repo_by_slug_def split: option.split)

definition authorised :: "('v, 'w) shop \<Rightarrow> string \<Rightarrow> string \<Rightarrow> request \<Rightarrow> db \<Rightarrow> bool" where
  "authorised z org repo rq db \<longleftrightarrow> (case extract_token (app_b64 (sh_app z)) rq of None \<Rightarrow> False
     | Some token \<Rightarrow> (case fst (resolve_service_token (rt_sha (app_rt (sh_app z))) (app_now (sh_app z)) db token) of None \<Rightarrow> False
        | Some r \<Rightarrow> resolve_repo db org repo = Some r))"

text \<open>Presenting a token stamps the last use of the live service tokens with its hash (hashes are unique), and changes nothing else.\<close>

definition used_token :: "('v, 'w) shop \<Rightarrow> request \<Rightarrow> db \<Rightarrow> db" where
  "used_token z rq db = (case extract_token (app_b64 (sh_app z)) rq of None \<Rightarrow> db
     | Some token \<Rightarrow> db\<lparr>service_tokens := map (\<lambda>c.
         if c_hash c = token_hash (rt_sha (app_rt (sh_app z))) token \<and> live (app_now (sh_app z)) (c_expires c)
         then c\<lparr>c_last_used := Some (app_now (sh_app z))\<rparr> else c) (service_tokens db)\<rparr>)"

lemma used_token_row: "\<exists>t. used_token z rq db = db\<lparr>service_tokens := t\<rparr>"
  by (cases "extract_token (app_b64 (sh_app z)) rq") (auto simp: used_token_def intro: exI[of _ "service_tokens db"])

lemma used_token_resolved:
  "extract_token (app_b64 (sh_app z)) rq = Some token
    \<Longrightarrow> snd (resolve_service_token (rt_sha (app_rt (sh_app z))) (app_now (sh_app z)) db token) = used_token z rq db"
  by (simp add: used_token_def resolve_service_token_def resolve_cred_def upd_where_def cred_matches_def)

lemma authed_repo_run:
  assumes "authed_repo z org repo rq s = (r, s1)"
  shows "mc_next s1 = mc_next s \<and> mc_db s1 = used_token z rq (mc_db s)
    \<and> (if authorised z org repo rq (mc_db s) then \<exists>i. r = Inr i \<and> resolve_repo (mc_db s) org repo = Some i else \<exists>e. r = Inl e)"
proof (cases "extract_token (app_b64 (sh_app z)) rq")
  case None
  then show ?thesis using assms by (auto simp: authed_repo_def Let_def bind_act_def need_def settled_def authorised_def used_token_def)
next
  case token: (Some token)
  let ?res = "resolve_service_token (rt_sha (app_rt (sh_app z))) (app_now (sh_app z)) (mc_db s) token"
  obtain t where t: "used_token z rq (mc_db s) = (mc_db s)\<lparr>service_tokens := t\<rparr>" using used_token_row by blast
  show ?thesis
  proof (cases "fst ?res")
    case None
    then show ?thesis using assms token used_token_resolved[OF token, of "mc_db s"]
      by (auto simp: authed_repo_def Let_def bind_act_def need_def settled_def stamping_def split_def authorised_def)
  next
    case (Some i)
    then show ?thesis using assms token used_token_resolved[OF token, of "mc_db s"] t
      by (cases "resolve_repo (mc_db s) org repo")
        (auto simp: authed_repo_def Let_def bind_act_def need_def settled_def stamping_def split_def authorised_def read_db_def resolve_repo_service)
  qed
qed

lemma calm_detail: "preserves (keeps_key lic i) (detail_of z r k)"
  unfolding detail_of_def by (intro foreign.bind foreign.read foreign.need)

lemma calm_named: "preserves (keeps_key lic i) (edition_named org repo r e)"
  unfolding edition_named_def by (intro foreign.bind foreign.read foreign.need)

lemma calm_id: "preserves (keeps_key lic i) (parse_license_id z k)"
  unfolding parse_license_id_def by (rule foreign.need)

lemmas calm_routes = foreign.bind foreign.read foreign.need foreign.ret foreign.settled foreign.stamp calm_detail calm_named calm_id
  keeps_renew keeps_add_edition keeps_remove_edition keeps_merge keeps_revoke

lemma calm_cases: "(\<And>x. preserves R (f x)) \<Longrightarrow> preserves R g \<Longrightarrow> preserves R (case y of None \<Rightarrow> g | Some x \<Rightarrow> f x)"
  by (simp split: option.split)

lemma guarded_calm:
  assumes "bind_act (authed_repo z org repo rq) body s = (res, s')" "\<And>i. preserves (keeps_key lic i) (body i)"
    and "\<not> (\<exists>i. resolve_repo (mc_db s) org repo = Some i \<and> key_of i lic (mc_db s))"
  shows "if authorised z org repo rq (mc_db s) then same_key lic (mc_db s) (mc_db s')
    else (\<exists>e. res = Inl e) \<and> mc_db s' = used_token z rq (mc_db s)"
proof -
  obtain r s1 where auth: "authed_repo z org repo rq s = (r, s1)" by fastforce
  note a = authed_repo_run[OF auth]
  show ?thesis
  proof (cases "authorised z org repo rq (mc_db s)")
    case True
    then obtain i t where i: "r = Inr i" "resolve_repo (mc_db s) org repo = Some i" "mc_db s1 = (mc_db s)\<lparr>service_tokens := t\<rparr>"
      using a used_token_row[of z rq "mc_db s"] by auto
    have "body i s1 = (res, s')" using assms(1) auth i by (simp add: bind_act_def)
    from preservesD[OF assms(2) this] have "same_key lic (mc_db s1) (mc_db s')"
      using assms(3) i by (simp add: keeps_key_def key_of_def)
    then show ?thesis using True i by (simp add: same_key_def)
  next
    case False
    then show ?thesis using a assms(1) auth by (auto simp: bind_act_def)
  qed
qed

lemma named_Inr:
  assumes "bind_act (edition_named org repo r e) h s = (res, s')"
  shows "(\<exists>x. res = Inl x) \<and> s' = s \<or> (\<exists>ed. h ed s = (res, s'))"
  using assms by (auto simp: edition_named_def bind_act_def read_db_def need_def settled_def split: sum.splits)

lemma guarded_issue:
  assumes "issue_license_route z org repo rq header edition buyer account s = (res, s')" "lic \<noteq> mc_next s"
    and "\<not> (\<exists>i. resolve_repo (mc_db s) org repo = Some i \<and> key_of i lic (mc_db s))"
  shows "if authorised z org repo rq (mc_db s) then same_key lic (mc_db s) (mc_db s')
    else (\<exists>e. res = Inl e) \<and> mc_db s' = used_token z rq (mc_db s)"
proof -
  obtain r s1 where auth: "authed_repo z org repo rq s = (r, s1)" by fastforce
  note a = authed_repo_run[OF auth]
  show ?thesis
  proof (cases "authorised z org repo rq (mc_db s)")
    case True
    then obtain i t where i: "r = Inr i" "resolve_repo (mc_db s) org repo = Some i" "mc_db s1 = (mc_db s)\<lparr>service_tokens := t\<rparr>"
        "mc_next s1 = mc_next s" using a used_token_row[of z rq "mc_db s"] by auto
    let ?issue = "\<lambda>ed newid db. issue_from_edition newid (rt_sha (app_rt (sh_app z))) (sh_enc z) (sh_dec z) (sh_months z)
         (sh_secret z newid) (app_now (sh_app z)) db i ed
         (Option.bind buyer (\<lambda>b. if trim b = [] then None else Some (trim b))) (idempotency_key header) account"
    obtain g where g: "\<And>ed x. preserves (keeps_key lic i) (g ed x)"
      and run: "bind_act (edition_named org repo i edition) (\<lambda>ed. bind_act (statement ApiDb (?issue ed)) (g ed)) s1 = (res, s')"
    proof
      show "bind_act (edition_named org repo i edition) (\<lambda>ed. bind_act (statement ApiDb (?issue ed)) (\<lambda>issued.
         bind_act (need (ApiBadRequest (''edition '' @ in_quotes edition @ '' is inactive'')) issued) (\<lambda>x.
         bind_act (detail_of z i (il_id x)) (\<lambda>d. bind_act (read_db (\<lambda>db. edition_edge_bound db (il_id x) ed)) (\<lambda>edge.
         let body = AList.update ''created'' (JBool (il_created x)) (license_json z org repo d);
             body = (case il_key x of None \<Rightarrow> body | Some k \<Rightarrow> AList.update ''key'' (JStr k) body);
             body = (if account then AList.update ''edition_bound'' (JObj ((''edition'', JStr (trim edition)) # bound_fields z edge)) body else body)
         in ret (Reply (if il_created x then 201 else 200) (JObj body))))))) s1 = (res, s')"
        using assms(1) auth i(1) unfolding issue_license_route_def Let_def by (simp only: bind_act_def[of "authed_repo z org repo rq"] prod.case sum.case)
    qed (auto simp: Let_def intro!: calm_routes)
    have "keeps_key lic i (mc_db s1) (mc_db s')"
    proof (cases "\<exists>ed. bind_act (statement ApiDb (?issue ed)) (g ed) s1 = (res, s')")
      case True
      then obtain ed where st: "bind_act (statement ApiDb (?issue ed)) (g ed) s1 = (res, s')" ..
      show ?thesis
      proof (cases "?issue ed (mc_next s1) (mc_db s1)")
        case (Inl e)
        then show ?thesis using st foreign.same by (auto simp: bind_act_def statement_def)
      next
        case (Inr p)
        obtain x db where p: "p = (x, db)" by fastforce
        have "keeps_key lic i (mc_db s1) db"
          using keeps_issue[OF Inr[unfolded p]] assms(2) i(4) by (simp add: keeps_key_def)
        moreover have "keeps_key lic i db (mc_db s')"
          using preservesD[OF g, of ed x "s1\<lparr>mc_db := db, mc_next := Suc (mc_next s1)\<rparr>"] st Inr p
          by (auto simp: bind_act_def statement_def)
        ultimately show ?thesis by (rule foreign.trans)
      qed
    next
      case False
      then show ?thesis using named_Inr[OF run] foreign.same by auto
    qed
    then have "same_key lic (mc_db s1) (mc_db s')" using assms(3) i by (simp add: keeps_key_def key_of_def)
    then show ?thesis using True i by (simp add: same_key_def)
  next
    case False
    then show ?thesis using a assms(1) auth unfolding issue_license_route_def Let_def by (auto simp: bind_act_def)
  qed
qed

text \<open>C33: a service token reaches one repository's keys only: whatever call is made and however it ends, a license key that is
  not the URL's repository's keeps its row and exactly what it entitles to; and without a live token of that very
  repository the call fails and the whole catalog stays as it was, but for the last-use column of the live service token presented.\<close>

theorem api_confined:
  assumes "api z org repo rq call s = (res, s')" "lic \<noteq> mc_next s"
    and "\<not> (\<exists>i. resolve_repo (mc_db s) org repo = Some i \<and> key_of i lic (mc_db s))"
  shows "if authorised z org repo rq (mc_db s)
    then license_at (mc_db s') lic = license_at (mc_db s) lic \<and> entitled_package_bounds (mc_db s') lic = entitled_package_bounds (mc_db s) lic
    else (\<exists>e. res = Inl e) \<and> mc_db s' = used_token z rq (mc_db s)"
proof -
  have "if authorised z org repo rq (mc_db s) then same_key lic (mc_db s) (mc_db s')
    else (\<exists>e. res = Inl e) \<and> mc_db s' = used_token z rq (mc_db s)"
  proof (cases call)
    case ListEditions
    show ?thesis by (rule guarded_calm[OF assms(1)[unfolded ListEditions api.simps list_editions_route_def] _ assms(3)]) (intro calm_routes)
  next
    case (Issue header edition buyer account)
    show ?thesis by (rule guarded_issue[OF assms(1)[unfolded Issue api.simps] assms(2,3)])
  next
    case (Inspect i)
    show ?thesis by (rule guarded_calm[OF assms(1)[unfolded Inspect api.simps inspect_license_def] _ assms(3)]) (intro calm_routes)
  next
    case (Renew header i)
    show ?thesis by (rule guarded_calm[OF assms(1)[unfolded Renew api.simps renew_license_route_def] _ assms(3)]) (intro calm_routes)
  next
    case (RenewEdition header i edition)
    show ?thesis by (rule guarded_calm[OF assms(1)[unfolded RenewEdition api.simps renew_edition_route_def] _ assms(3)]) (intro calm_routes)
  next
    case (AddEdition i edition)
    show ?thesis by (rule guarded_calm[OF assms(1)[unfolded AddEdition api.simps add_edition_route_def] _ assms(3)])
        (auto intro!: calm_routes split: edition_add.split)
  next
    case (RemoveEdition i edition)
    show ?thesis by (rule guarded_calm[OF assms(1)[unfolded RemoveEdition api.simps remove_edition_route_def] _ assms(3)])
        (auto intro!: calm_routes split: option.split)
  next
    case (MergeInto i into)
    show ?thesis by (rule guarded_calm[OF assms(1)[unfolded MergeInto api.simps merge_license_route_def] _ assms(3)])
        (auto intro!: calm_routes split: license_merge.split)
  next
    case (Revoke i)
    show ?thesis by (rule guarded_calm[OF assms(1)[unfolded Revoke api.simps revoke_license_route_def] _ assms(3)]) (intro calm_routes)
  qed
  then show ?thesis by (simp add: same_key_entitled split: if_splits)
qed

definition demo_api :: "(unit, string \<Rightarrow> bytes option) shop" where
  "demo_api = \<lparr>sh_app = demo_app, sh_enc = None, sh_dec = None, sh_months = (\<lambda>n t. t + 30 * n), sh_secret = (\<lambda>i. ''key''),
     sh_date = (\<lambda>t. ''date''), sh_parse_id = (\<lambda>s. if s = ''50'' then Some 50 else if s = ''60'' then Some 60 else None), sh_show_id = (\<lambda>i. ''id'')\<rparr>"

definition demo_market :: "(string \<Rightarrow> bytes option) machine" where
  "demo_market = \<lparr>mc_db = demo_shop\<lparr>orgs := [\<lparr>o_id = 1, o_slug = ''acme'', o_name = None\<rparr>], repos := [new_repo 10 1 ''main'', new_repo 11 1 ''other''],
       licenses := licenses demo_shop @ [blank_license 60 11 [4] None None],
       service_tokens := [new_cred 80 10 (rt_sha demo_rt (str_bytes ''shop'')) None None]\<rparr>, mc_world = demo_world, mc_next = 500\<rparr>"

theorem api_confined_witness:
  "fst (api demo_api ''acme'' ''main'' (demo_headers (Some ''Bearer shop'')) (Revoke ''50'') demo_market) = Inr Done
     \<and> fst (api demo_api ''acme'' ''main'' (demo_headers (Some ''Bearer shop'')) (Revoke ''60'') demo_market) = Inl (ApiNotFound ''license'')
     \<and> license_at (mc_db (snd (api demo_api ''acme'' ''main'' (demo_headers (Some ''Bearer shop'')) (Revoke ''60'') demo_market))) 60
         = license_at (mc_db demo_market) 60"
proof (intro conjI)
  let ?rq = "demo_headers (Some ''Bearer shop'')"
  obtain res s' where run: "api demo_api ''acme'' ''main'' ?rq (Revoke ''60'') demo_market = (res, s')" by fastforce
  have "(60 :: nat) \<noteq> mc_next demo_market" by (simp add: demo_market_def)
  moreover have "resolve_repo (mc_db demo_market) ''acme'' ''main'' = Some 10" "\<not> key_of 10 60 (mc_db demo_market)"
      "authorised demo_api ''acme'' ''main'' ?rq (mc_db demo_market)" by code_simp+
  ultimately show "license_at (mc_db (snd (api demo_api ''acme'' ''main'' ?rq (Revoke ''60'') demo_market))) 60 = license_at (mc_db demo_market) 60"
    using api_confined[OF run, of 60] run by simp
qed code_simp+

end
