(* ===== verification/Console.thy ===== *)
theory Console
  imports Jobs
begin

text \<open>
  The actions of the admin UI (\<open>crates/sconce-server/src/ui.rs\<close>): every form a page of an organization, a repository or
  the user administration posts, apart from those modelled beside the operation they run (\<open>ui_\<close> definitions of \<open>Repos\<close>,
  \<open>Packages\<close>, \<open>Licenses\<close>, \<open>Tokens\<close>, \<open>Login\<close> and \<open>Jobs\<close>). A handler returns its answer with the catalog it leaves.
  \<open>page_post\<close> dispatches the actions of a repository's page, the old ones included. Ids in a form are text, \<open>None\<close> where they
  do not parse; SHA-256, argon2, the at-rest cipher, calendar arithmetic and the \<open>timestamptz\<close> cast are fields of
  \<open>console_env\<close>.
\<close>

section \<open>Answers\<close>

datatype screen =
    GoTo string
  | Card string string string
  | Notice string string
  | KeyShown string string
  | UpstreamPage "string option"
  | TokenPage "(string, string) result"

type_synonym reply = "(status, screen) result \<times> db"

definition given :: "('e, 'a) result \<Rightarrow> ('a \<Rightarrow> ('e, 'b) result \<times> db) \<Rightarrow> db \<Rightarrow> ('e, 'b) result \<times> db" where
  "given r k db = (case r of Inl e \<Rightarrow> (Inl e, db) | Inr x \<Rightarrow> k x)"

definition org_page :: "string \<Rightarrow> string" where
  "org_page org = ''/o/'' @ org"

definition repo_url :: "string \<Rightarrow> string \<Rightarrow> string" where
  "repo_url org repo = ''/r/'' @ org @ ''/'' @ repo"

definition back_to_repo :: "string \<Rightarrow> string \<Rightarrow> db \<Rightarrow> reply" where
  "back_to_repo org repo db = (Inr (GoTo (repo_url org repo)), db)"

definition couldnt :: "string \<Rightarrow> string" where
  "couldnt what = ''Couldn'' @ [CHR 0x27] @ ''t '' @ what"

fun rename_text :: "rename_error \<Rightarrow> string option" where
  "rename_text Taken = Some ''that name is already taken''"
| "rename_text Retired = Some ''that name was previously used and is retired''"
| "rename_text _ = None"

definition rename_answer :: "string \<Rightarrow> string \<Rightarrow> db \<Rightarrow> (rename_error, db) result \<Rightarrow> reply" where
  "rename_answer there back db r = (case r of
     Inr db' \<Rightarrow> (Inr (GoTo there), db')
   | Inl e \<Rightarrow> (case rename_text e of Some m \<Rightarrow> Inr (Card ''Rename failed'' m back) | None \<Rightarrow> Inl BadRequest, db))"

section \<open>Organizations\<close>

definition ui_create_set :: "uuid \<Rightarrow> current_user \<Rightarrow> string \<Rightarrow> string \<Rightarrow> db \<Rightarrow> reply" where
  "ui_create_set newid user org nm db = given (lookup_org_admin db user org) (\<lambda>g.
     case create_package_set newid db (o_id g) nm of
       Inr (_, db') \<Rightarrow> (Inr (GoTo (org_page org @ ''/sets'')), db')
     | Inl _ \<Rightarrow> (Inr (Card (couldnt ''create set'') ''A set with that name already exists.'' (org_page org @ ''/sets'')), db)) db"

definition ui_rename_org :: "current_user \<Rightarrow> string \<Rightarrow> string \<Rightarrow> db \<Rightarrow> reply" where
  "ui_rename_org user org slug db = given (lookup_org_admin db user org) (\<lambda>g.
     rename_answer (org_page (trim slug) @ ''/settings'') (org_page org @ ''/settings'') db (rename_org db (o_id g) (trim slug))) db"

section \<open>A repository's settings\<close>

definition ui_delete_repo :: "current_user \<Rightarrow> string \<Rightarrow> string \<Rightarrow> string \<Rightarrow> db \<Rightarrow> reply" where
  "ui_delete_repo user org repo confirm db = given (lookup_admin db user org repo) (\<lambda>s.
     if trim confirm \<noteq> repo
     then (Inr (Card ''Repository not deleted'' (''The confirmation name didn'' @ [CHR 0x27] @ ''t match.'') (repo_url org repo @ ''/settings'')), db)
     else given (db_status (delete_repo db (rs_id s))) (\<lambda>(_, db'). (Inr (GoTo (org_page org)), db')) db) db"

definition ui_rename_repo :: "current_user \<Rightarrow> string \<Rightarrow> string \<Rightarrow> string \<Rightarrow> db \<Rightarrow> reply" where
  "ui_rename_repo user org repo slug db = given (lookup_admin db user org repo) (\<lambda>s.
     rename_answer (repo_url org (trim slug)) (repo_url org repo @ ''/settings'') db (rename_repo db (rs_id s) (trim slug))) db"

definition ui_save_repo_settings :: "current_user \<Rightarrow> string \<Rightarrow> string \<Rightarrow> string \<Rightarrow> string option \<Rightarrow> bool \<Rightarrow> bool \<Rightarrow> db \<Rightarrow> reply" where
  "ui_save_repo_settings user org repo raw cap private anonymous db = given (lookup_admin db user org repo) (\<lambda>s.
     given (positive_i64 cap) (\<lambda>m.
       (Inr (GoTo (repo_url org repo @ ''/settings'')), set_repo_settings db (rs_id s)
          \<lparr>st_allow_raw = (if raw = ''allow'' then Some True else if raw = ''deny'' then Some False else None),
           st_max_ttl = m, st_allow_private = private, st_anonymous = anonymous\<rparr>)) db) db"

section \<open>Review\<close>

text \<open>The review actions ask for read access only (\<open>lookup\<close>, not \<open>lookup_admin\<close>).\<close>

definition ui_set_policy :: "current_user \<Rightarrow> string \<Rightarrow> string \<Rightarrow> string \<Rightarrow> int \<Rightarrow> db \<Rightarrow> reply" where
  "ui_set_policy user org repo mode cooldown db = given (lookup db user org repo) (\<lambda>s.
     given (map_err (\<lambda>_. BadRequest) (set_update_policy db (rs_id s) mode cooldown)) (back_to_repo org repo) db) db"

definition version_change :: "time \<Rightarrow> string \<Rightarrow> (db \<Rightarrow> uuid \<Rightarrow> string \<Rightarrow> string \<Rightarrow> bool \<times> db) option" where
  "version_change now action =
     (if action = ''hold'' then Some (hold_version now)
      else if action = ''unhold'' then Some unhold_version
      else if action = ''approve'' then Some (approve_version now)
      else if action = ''yank'' then Some (yank_version now)
      else if action = ''unyank'' then Some unyank_version
      else None)"

definition ui_version_action :: "time \<Rightarrow> current_user \<Rightarrow> string \<Rightarrow> string \<Rightarrow> string \<Rightarrow> string \<Rightarrow> string \<Rightarrow> db \<Rightarrow> reply" where
  "ui_version_action now user org repo package nv action db = given (lookup db user org repo) (\<lambda>s.
     given (ok_or BadRequest (version_change now action)) (\<lambda>f. back_to_repo org repo (snd (f db (rs_id s) package nv))) db) db"

text \<open>The lines \<open>package|normalized\<close> of the selection bar, trimmed, both sides non-empty. A carriage return
  \<open>str::lines\<close> drops is white space that the trimming drops.\<close>

definition ticked_line :: "string \<Rightarrow> (string \<times> string) option" where
  "ticked_line l = (case split_once (CHR ''|'') l of None \<Rightarrow> None
     | Some (p, n) \<Rightarrow> if trim p \<noteq> [] \<and> trim n \<noteq> [] then Some (trim p, trim n) else None)"

definition ticked :: "string \<Rightarrow> (string \<times> string) list" where
  "ticked s = List.map_filter ticked_line (split_on (CHR 0x0A) s)"

definition ui_approve_bulk :: "time \<Rightarrow> current_user \<Rightarrow> string \<Rightarrow> string \<Rightarrow> string option \<Rightarrow> string option \<Rightarrow> db \<Rightarrow> reply" where
  "ui_approve_bulk now user org repo package selection db = given (lookup db user org repo) (\<lambda>s.
     back_to_repo org repo (case selection of
         Some l \<Rightarrow> fold (\<lambda>(p, n) db. snd (approve_version now db (rs_id s) p n)) (ticked l) db
       | None \<Rightarrow> snd (approve_all_pending now db (rs_id s) (if package = Some [] then None else package)))) db"

definition ui_hold_bulk :: "time \<Rightarrow> current_user \<Rightarrow> string \<Rightarrow> string \<Rightarrow> string option \<Rightarrow> db \<Rightarrow> reply" where
  "ui_hold_bulk now user org repo selection db = given (lookup db user org repo) (\<lambda>s.
     back_to_repo org repo (case selection of
         Some l \<Rightarrow> fold (\<lambda>(p, n) db. snd (hold_version now db (rs_id s) p n)) (ticked l) db
       | None \<Rightarrow> db)) db"

section \<open>Packages and grants\<close>

definition ui_package_visibility :: "time \<Rightarrow> current_user \<Rightarrow> string \<Rightarrow> string \<Rightarrow> string \<Rightarrow> string \<Rightarrow> db \<Rightarrow> reply" where
  "ui_package_visibility now user org repo package visibility db = given (lookup_admin db user org repo) (\<lambda>s.
     given (ok_or BadRequest (parse_visibility visibility)) (\<lambda>vis.
       case set_package_visibility now db (rs_id s) package vis of
         Inr (True, db') \<Rightarrow> (Inr (GoTo (repo_url org repo @ ''/p/'' @ package)), db')
       | Inr (False, db') \<Rightarrow> (Inr (Notice ''Package not found'' ''No such package owned by this repository.''), db')
       | Inl (UpsertPolicy m) \<Rightarrow> (Inr (Notice ''Not allowed'' m), db)
       | Inl (UpsertDb _) \<Rightarrow> (Inl ServerError, db)) db) db"

definition ui_package_archive :: "time \<Rightarrow> current_user \<Rightarrow> string \<Rightarrow> string \<Rightarrow> string \<Rightarrow> string \<Rightarrow> db \<Rightarrow> reply" where
  "ui_package_archive now user org repo package action db = given (lookup_admin db user org repo) (\<lambda>s.
     if action = ''archive'' then back_to_repo org repo (snd (archive_package now db (rs_id s) package))
     else if action = ''unarchive'' then back_to_repo org repo (snd (unarchive_package db (rs_id s) package))
     else (Inl BadRequest, db)) db"

definition ui_remove_autogrant :: "current_user \<Rightarrow> string \<Rightarrow> string \<Rightarrow> uuid option \<Rightarrow> db \<Rightarrow> reply" where
  "ui_remove_autogrant user org repo rule db = given (lookup_admin db user org repo) (\<lambda>s.
     given (ok_or BadRequest rule) (\<lambda>i. back_to_repo org repo (remove_grant_rule db (rs_id s) i)) db) db"

text \<open>\<open>mode\<close> and \<open>cooldown_days\<close> of the forms that edit an override: blank means inherit.\<close>

definition policy_form :: "string \<Rightarrow> string option \<Rightarrow> (status, policy_override) result" where
  "policy_form mode cooldown =
     (if mode \<notin> {''auto'', ''manual'', ''delayed'', []} then Inl BadRequest
      else and_then (parse_cooldown cooldown) (\<lambda>c. Inr \<lparr>po_mode = (if mode = [] then None else Some mode), po_cooldown = c\<rparr>))"

definition ui_set_grant_policy :: "current_user \<Rightarrow> string \<Rightarrow> string \<Rightarrow> string \<Rightarrow> string \<Rightarrow> string option \<Rightarrow> db \<Rightarrow> reply" where
  "ui_set_grant_policy user org repo package mode cooldown db = given (lookup_admin db user org repo) (\<lambda>s.
     given (policy_form mode cooldown) (\<lambda>p. back_to_repo org repo (snd (set_grant_policy db (rs_id s) (trim package) p))) db) db"

definition ui_create_grant :: "current_user \<Rightarrow> string \<Rightarrow> string \<Rightarrow> string \<Rightarrow> string \<Rightarrow> db \<Rightarrow> reply" where
  "ui_create_grant user org repo package source db = given (lookup_admin db user org repo) (\<lambda>s.
     given (ok_or BadRequest (split_once (CHR ''/'') source)) (\<lambda>(o', r').
       given (lookup db user o' r') (\<lambda>q. back_to_repo org repo (snd (grant_package db (rs_id s) (rs_id q) package))) db) db) db"

section \<open>Licenses and editions\<close>

definition package_list :: "string \<Rightarrow> string list" where
  "package_list s = filter (\<lambda>p. p \<noteq> []) (split_seps ['','', '' '', [CHR 0x0A], [CHR 0x09]] [] s)"

fun comma_join :: "string list \<Rightarrow> string" where
  "comma_join [] = []"
| "comma_join [x] = x"
| "comma_join (x # y # ys) = x @ '', '' @ comma_join (y # ys)"

definition ui_create_license :: "uuid \<Rightarrow> (bytes \<Rightarrow> bytes) \<Rightarrow> (bytes \<Rightarrow> bytes) option \<Rightarrow> string \<Rightarrow> current_user \<Rightarrow> string \<Rightarrow> string
    \<Rightarrow> string option \<Rightarrow> string \<Rightarrow> db \<Rightarrow> reply" where
  "ui_create_license newid sha enc secret user org repo buyer names db = given (lookup_admin db user org repo) (\<lambda>s.
     given (db_status (issue_license newid sha enc secret db (rs_id s) (if buyer = Some [] then None else buyer) (package_list names)))
       (\<lambda>(key, db'). given (ok_or BadRequest key) (\<lambda>k. (Inr (KeyShown (comma_join (package_list names)) k), db')) db') db) db"

definition form_int :: "string option \<Rightarrow> int \<Rightarrow> (status, int) result" where
  "form_int v least = and_then (ok_or BadRequest (form_field v)) (\<lambda>raw. and_then (ok_or BadRequest (parse_int 32 raw)) (\<lambda>n.
     if n < least then Inl BadRequest else Inr n))"

text \<open>\<open>format!("edition \u{201c}{}\u{201d}")\<close>\<close>

definition edition_title :: "string \<Rightarrow> string" where
  "edition_title nm = ''edition '' @ [CHR 0xE2, CHR 0x80, CHR 0x9C] @ nm @ [CHR 0xE2, CHR 0x80, CHR 0x9D]"

definition ui_issue_license_edition :: "uuid \<Rightarrow> (bytes \<Rightarrow> bytes) \<Rightarrow> (bytes \<Rightarrow> bytes) option \<Rightarrow> (bytes \<Rightarrow> string option) option
    \<Rightarrow> (int \<Rightarrow> time \<Rightarrow> time) \<Rightarrow> string \<Rightarrow> time \<Rightarrow> current_user \<Rightarrow> string \<Rightarrow> string \<Rightarrow> uuid option \<Rightarrow> string option \<Rightarrow> db \<Rightarrow> reply" where
  "ui_issue_license_edition newid sha enc dec am secret now user org repo ed buyer db = given (lookup_admin db user org repo) (\<lambda>s.
     given (ok_or BadRequest ed) (\<lambda>i.
     given (ok_or BadRequest (edition_at db (rs_id s) i)) (\<lambda>e.
     given (db_status (issue_from_edition newid sha enc dec am secret now db (rs_id s) i (form_field buyer) None False)) (\<lambda>(l, db').
     given (ok_or BadRequest l) (\<lambda>l. given (ok_or ServerError (il_key l)) (\<lambda>key. (Inr (KeyShown (edition_title (ed_name e)) key), db')) db') db')
     db) db) db) db"

record edition_form =
  ef_name :: string
  ef_slug :: "string option"
  ef_set :: "string option"
  ef_package :: "string option"
  ef_bound_kind :: string
  ef_period :: "string option"
  ef_major :: "string option"
  ef_snapshot :: bool
  ef_mode :: "string option"
  ef_cooldown :: "string option"

definition bound_form :: "edition_form \<Rightarrow> (status, edition_bound) result" where
  "bound_form f =
     (if ef_bound_kind f = ''time'' then and_then (form_int (ef_period f) 1) (\<lambda>m. Inr (TimeBound m))
      else if ef_bound_kind f = ''version'' then and_then (form_int (ef_major f) 0) (\<lambda>m. Inr (VersionBound m))
      else Inr Perpetual)"

definition edition_policy_form :: "edition_form \<Rightarrow> (status, policy_override) result" where
  "edition_policy_form f = and_then (parse_cooldown (ef_cooldown f)) (\<lambda>c.
     case c of Some n \<Rightarrow> if n < 0 then Inl BadRequest
          else Inr \<lparr>po_mode = (if ef_mode f \<in> {Some ''auto'', Some ''manual'', Some ''delayed''} then ef_mode f else None), po_cooldown = c\<rparr>
     | None \<Rightarrow> Inr \<lparr>po_mode = (if ef_mode f \<in> {Some ''auto'', Some ''manual'', Some ''delayed''} then ef_mode f else None), po_cooldown = None\<rparr>)"

text \<open>The set an edition sells: a package's singleton set, else the chosen one. \<open>Inl\<close> is an answer that ends the
  handler. The singleton set stays when a later field is refused.\<close>

definition edition_target :: "(string \<Rightarrow> uuid option) \<Rightarrow> uuid \<Rightarrow> repo_summary \<Rightarrow> string \<Rightarrow> edition_form \<Rightarrow> db
    \<Rightarrow> ((status, screen) result, uuid) result \<times> db" where
  "edition_target parse_id setid s back f db = (case form_field (ef_package f) of
     Some pkg \<Rightarrow> (case singleton_set setid db (rs_org_id s) pkg of
         Inl _ \<Rightarrow> (Inl (Inl ServerError), db)
       | Inr (SingleSet i, db') \<Rightarrow> (Inr i, db')
       | Inr (UnknownPackage, db') \<Rightarrow>
           (Inl (Inr (Card ''Package not found'' ''No package with that name in this organization.'' back)), db')
       | Inr (NameCollision, db') \<Rightarrow> (Inl (Inr (Card ''Name already in use''
           (''A package set already has that exact name and holds more than this one package. Select it under ''
             @ [CHR 0xE2, CHR 0x80, CHR 0x9C] @ ''Package set'' @ [CHR 0xE2, CHR 0x80, CHR 0x9D] @ '' instead, or rename it.'') back)), db'))
   | None \<Rightarrow> (case form_field (ef_set f) of
         Some raw \<Rightarrow> (case parse_id raw of
             None \<Rightarrow> (Inl (Inl BadRequest), db)
           | Some sid \<Rightarrow> (case select_one (\<lambda>x. ps_id x = sid) (sets db) of
               Some x \<Rightarrow> (if ps_org x = rs_org_id s then Inr sid else Inl (Inl BadRequest), db)
             | None \<Rightarrow> (Inl (Inl BadRequest), db)))
       | None \<Rightarrow> (Inl (Inr (Card ''No target'' ''Pick a package set or enter a single package for the edition.'' back)), db)))"

definition ui_create_edition :: "(string \<Rightarrow> uuid option) \<Rightarrow> uuid \<Rightarrow> uuid \<Rightarrow> current_user \<Rightarrow> string \<Rightarrow> string \<Rightarrow> edition_form \<Rightarrow> db \<Rightarrow> reply" where
  "ui_create_edition parse_id setid newid user org repo f db = given (lookup_admin db user org repo) (\<lambda>s.
     if trim (ef_name f) = [] then (Inl BadRequest, db)
     else case edition_target parse_id setid s (repo_url org repo) f db of
       (Inl answer, db) \<Rightarrow> (answer, db)
     | (Inr set_id, db) \<Rightarrow> given (bound_form f) (\<lambda>bound. given (edition_policy_form f) (\<lambda>p.
         case create_edition newid db (rs_id s) (trim (ef_name f)) (form_field (ef_slug f)) set_id bound (ef_snapshot f) p of
           Inr (Some _, db') \<Rightarrow> back_to_repo org repo db'
         | Inr (None, db') \<Rightarrow> (Inl BadRequest, db')
         | Inl (SkuCapReached cap) \<Rightarrow> (Inr (Card ''SKU limit reached''
             (''This organization'' @ [CHR 0x27] @ ''s plan allows at most '' @ show_int cap @ '' editions. Deactivate one or upgrade the plan.'')
             (repo_url org repo)), db)
         | Inl _ \<Rightarrow> (Inr (Card (couldnt ''create edition'')
             ''An edition with that name may already exist (names are unique per repo).'' (repo_url org repo)), db)) db) db) db"

definition ui_deactivate_edition :: "current_user \<Rightarrow> string \<Rightarrow> string \<Rightarrow> uuid option \<Rightarrow> db \<Rightarrow> reply" where
  "ui_deactivate_edition user org repo ed db = given (lookup_admin db user org repo) (\<lambda>s.
     given (ok_or BadRequest ed) (\<lambda>i. case set_edition_active db (rs_id s) i False of
       Inl _ \<Rightarrow> (Inl ServerError, db) | Inr (_, db') \<Rightarrow> back_to_repo org repo db') db) db"

definition ui_set_license_bound :: "(string \<Rightarrow> time option) \<Rightarrow> current_user \<Rightarrow> string \<Rightarrow> string \<Rightarrow> uuid option \<Rightarrow> string option
    \<Rightarrow> string option \<Rightarrow> db \<Rightarrow> reply" where
  "ui_set_license_bound cast user org repo lic until major db = given (lookup_admin db user org repo) (\<lambda>s.
     given (ok_or BadRequest lic) (\<lambda>l.
     given (case form_field major of None \<Rightarrow> Inr None | Some m \<Rightarrow> ok_or BadRequest (map_option Some (parse_int 32 m))) (\<lambda>mj.
     given (case form_field until of None \<Rightarrow> Inr None | Some u \<Rightarrow> ok_or ServerError (map_option Some (cast u))) (\<lambda>t.
       back_to_repo org repo (snd (set_license_bound db (rs_id s) l t mj))) db) db) db) db"

definition ui_set_license_policy :: "current_user \<Rightarrow> string \<Rightarrow> string \<Rightarrow> uuid option \<Rightarrow> string \<Rightarrow> string option \<Rightarrow> db \<Rightarrow> reply" where
  "ui_set_license_policy user org repo lic mode cooldown db = given (lookup_admin db user org repo) (\<lambda>s.
     given (ok_or BadRequest lic) (\<lambda>l. given (policy_form mode cooldown) (\<lambda>p.
       back_to_repo org repo (snd (set_license_policy db (rs_id s) l p))) db) db) db"

text \<open>The set is checked against the organization, the license is not.\<close>

definition ui_entitle_license_set :: "current_user \<Rightarrow> string \<Rightarrow> string \<Rightarrow> uuid option \<Rightarrow> uuid option \<Rightarrow> db \<Rightarrow> reply" where
  "ui_entitle_license_set user org repo lic set_id db = given (lookup_admin db user org repo) (\<lambda>s.
     given (ok_or BadRequest lic) (\<lambda>l. given (ok_or BadRequest set_id) (\<lambda>i.
       case select_one (\<lambda>x. ps_id x = i) (sets db) of
         Some x \<Rightarrow> if ps_org x = rs_org_id s then given (db_status (entitle_set db l i)) (back_to_repo org repo) db
                  else (Inl BadRequest, db)
       | None \<Rightarrow> (Inl BadRequest, db)) db) db) db"

definition ui_merge_license :: "current_user \<Rightarrow> string \<Rightarrow> string \<Rightarrow> uuid option \<Rightarrow> uuid option \<Rightarrow> db \<Rightarrow> reply" where
  "ui_merge_license user org repo source target db = given (lookup_admin db user org repo) (\<lambda>s.
     given (ok_or BadRequest source) (\<lambda>a. given (ok_or BadRequest target) (\<lambda>b.
       case merge_license_keys db (rs_id s) a b of
         (Merged, db') \<Rightarrow> back_to_repo org repo db'
       | (_, db') \<Rightarrow> (Inl BadRequest, db')) db) db) db"

section \<open>Users\<close>

definition ui_create_user :: "uuid \<Rightarrow> (string \<Rightarrow> string) \<Rightarrow> current_user \<Rightarrow> string \<Rightarrow> string \<Rightarrow> bool \<Rightarrow> db \<Rightarrow> reply" where
  "ui_create_user newid hashpw user email password super db =
     (if \<not> cu_superadmin user then (Inl Forbidden, db)
      else (Inr (GoTo ''/users''), snd (create_user newid hashpw db email password super)))"

definition ui_grant_tenant :: "current_user \<Rightarrow> string \<Rightarrow> string \<Rightarrow> string option \<Rightarrow> db \<Rightarrow> reply" where
  "ui_grant_tenant user email tenant role db =
     (if \<not> cu_superadmin user then (Inl Forbidden, db)
      else given (db_status (add_user_to_tenant db email tenant (if role = Some ''admin'' then ''admin'' else ''member'')))
        (\<lambda>(_, db'). (Inr (GoTo ''/users''), db')) db)"

definition ui_remove_member :: "current_user \<Rightarrow> string \<Rightarrow> string \<Rightarrow> db \<Rightarrow> reply" where
  "ui_remove_member user email tenant db =
     (if \<not> cu_superadmin user then (Inl Forbidden, db)
      else (Inr (GoTo ''/users''), snd (remove_from_tenant db email tenant)))"

section \<open>The actions of a repository's page\<close>

record console_env =
  ce_now :: time
  ce_id :: uuid
  ce_set :: uuid
  ce_ids :: "uuid list"
  ce_secret :: string
  ce_sha :: "bytes \<Rightarrow> bytes"
  ce_enc :: "(bytes \<Rightarrow> bytes) option"
  ce_dec :: "(bytes \<Rightarrow> string option) option"
  ce_months :: "int \<Rightarrow> time \<Rightarrow> time"
  ce_cast :: "string \<Rightarrow> time option"
  ce_parse :: "string \<Rightarrow> uuid option"

datatype console_request =
    RenameRepo string
  | DeleteRepo string
  | SaveSettings string "string option" bool bool
  | SetPolicy string int
  | VersionAction string string string
  | ApproveBulk "string option" "string option"
  | HoldBulk "string option"
  | DeclareVisibility string string
  | ArchivePackage string string
  | AddAutogrant "uuid option"
  | RemoveAutogrant "uuid option"
  | SetGrantPolicy string string "string option"
  | CreateGrant string string
  | CreateLicense "string option" string
  | IssueFromEdition "uuid option" "string option"
  | CreateEdition edition_form
  | DeactivateEdition "uuid option"
  | SetLicenseBound "uuid option" "string option" "string option"
  | SetLicensePolicy "uuid option" string "string option"
  | EntitleSet "uuid option" "uuid option"
  | RemoveLicenseSet "uuid option" "uuid option"
  | MergeLicense "uuid option" "uuid option"
  | CreateToken "string option" "string option"
  | RevokeToken "uuid option"
  | SetTokenPolicy string string "string option"
  | AddCi string string string "string option" "string option" "string option"
  | RemoveCi "uuid option"
  | AddUpstream upstream_form
  | RemoveUpstream "uuid option"
  | SyncUpstream "uuid option"
  | SyncAll
  | ResolveDeps
  | AddDep string

text \<open>A handler of another theory, which answers with a redirect to the repository's page.\<close>

definition page_action :: "string \<Rightarrow> string \<Rightarrow> db \<Rightarrow> (status, db) result \<Rightarrow> reply" where
  "page_action org repo db r = given r (back_to_repo org repo) db"

definition token_action :: "db \<Rightarrow> (status, (string, string \<times> db) result) result \<Rightarrow> reply" where
  "token_action db r = (case r of Inl e \<Rightarrow> (Inl e, db)
     | Inr (Inl m) \<Rightarrow> (Inr (TokenPage (Inl m)), db) | Inr (Inr (t, db')) \<Rightarrow> (Inr (TokenPage (Inr t)), db'))"

definition upstream_action :: "db \<Rightarrow> (status, upstream_answer) result \<Rightarrow> reply" where
  "upstream_action db r = (case r of Inl e \<Rightarrow> (Inl e, db)
     | Inr (UpstreamAdded db') \<Rightarrow> (Inr (UpstreamPage None), db') | Inr (UpstreamNotAdded m) \<Rightarrow> (Inr (UpstreamPage (Some m)), db))"

fun page_post :: "console_env \<Rightarrow> current_user \<Rightarrow> string \<Rightarrow> string \<Rightarrow> console_request \<Rightarrow> db \<Rightarrow> reply" where
  "page_post c u g r (RenameRepo slug) db = ui_rename_repo u g r slug db"
| "page_post c u g r (DeleteRepo confirm) db = ui_delete_repo u g r confirm db"
| "page_post c u g r (SaveSettings raw cap priv anon) db = ui_save_repo_settings u g r raw cap priv anon db"
| "page_post c u g r (SetPolicy mode cooldown) db = ui_set_policy u g r mode cooldown db"
| "page_post c u g r (VersionAction p n a) db = ui_version_action (ce_now c) u g r p n a db"
| "page_post c u g r (ApproveBulk p l) db = ui_approve_bulk (ce_now c) u g r p l db"
| "page_post c u g r (HoldBulk l) db = ui_hold_bulk (ce_now c) u g r l db"
| "page_post c u g r (DeclareVisibility p v) db = ui_package_visibility (ce_now c) u g r p v db"
| "page_post c u g r (ArchivePackage p a) db = ui_package_archive (ce_now c) u g r p a db"
| "page_post c u g r (AddAutogrant s) db = page_action g r db (ui_add_autogrant (ce_id c) db u g r s)"
| "page_post c u g r (RemoveAutogrant i) db = ui_remove_autogrant u g r i db"
| "page_post c u g r (SetGrantPolicy p m d) db = ui_set_grant_policy u g r p m d db"
| "page_post c u g r (CreateGrant p from) db = ui_create_grant u g r p from db"
| "page_post c u g r (CreateLicense b ps) db = ui_create_license (ce_id c) (ce_sha c) (ce_enc c) (ce_secret c) u g r b ps db"
| "page_post c u g r (IssueFromEdition e b) db =
     ui_issue_license_edition (ce_id c) (ce_sha c) (ce_enc c) (ce_dec c) (ce_months c) (ce_secret c) (ce_now c) u g r e b db"
| "page_post c u g r (CreateEdition f) db = ui_create_edition (ce_parse c) (ce_set c) (ce_id c) u g r f db"
| "page_post c u g r (DeactivateEdition e) db = ui_deactivate_edition u g r e db"
| "page_post c u g r (SetLicenseBound l t m) db = ui_set_license_bound (ce_cast c) u g r l t m db"
| "page_post c u g r (SetLicensePolicy l m d) db = ui_set_license_policy u g r l m d db"
| "page_post c u g r (EntitleSet l s) db = ui_entitle_license_set u g r l s db"
| "page_post c u g r (RemoveLicenseSet l s) db = page_action g r db (ui_remove_license_set db u g r l s)"
| "page_post c u g r (MergeLicense a b) db = ui_merge_license u g r a b db"
| "page_post c u g r (CreateToken l d) db = token_action db (ui_create_token (ce_id c) (ce_sha c) (ce_secret c) (ce_now c) db u g r l d)"
| "page_post c u g r (RevokeToken i) db = page_action g r db (ui_revoke_token db u g r i)"
| "page_post c u g r (SetTokenPolicy l m d) db = page_action g r db (ui_set_token_policy db u g r l m d)"
| "page_post c u g r (AddCi p i a cl t k) db = page_action g r db (ui_add_ci (ce_id c) db u g r p i a cl t k)"
| "page_post c u g r (RemoveCi i) db = page_action g r db (ui_remove_ci db u g r i)"
| "page_post c u g r (AddUpstream f) db = upstream_action db (ui_create_upstream (ce_id c) (ce_enc c) db u g r f)"
| "page_post c u g r (RemoveUpstream i) db = page_action g r db (ui_remove_upstream db u g r i)"
| "page_post c u g r (SyncUpstream i) db = page_action g r db (ui_sync_upstream (ce_id c) (ce_now c) db u g r i)"
| "page_post c u g r SyncAll db = page_action g r db (ui_sync_all (ce_ids c) (ce_now c) db u g r)"
| "page_post c u g r ResolveDeps db = page_action g r db (ui_resolve_deps (ce_id c) (ce_now c) db u g r)"
| "page_post c u g r (AddDep p) db = page_action g r db (ui_add_dep (ce_id c) (ce_now c) db u g r p)"

fun review :: "console_request \<Rightarrow> bool" where
  "review (SetPolicy _ _) = True"
| "review (VersionAction _ _ _) = True"
| "review (ApproveBulk _ _) = True"
| "review (HoldBulk _) = True"
| "review _ = False"

section \<open>The exact effect of a review\<close>

lemma own_version_versions: "own_version (db\<lparr>versions := vs\<rparr>) = own_version db"
  by (intro ext) (simp add: own_version_def package_of_def)

lemma set_ts_twice: "set_ts c t (set_ts c t v) = set_ts c t v"
  by (cases c) simp_all

definition stamped :: "ts_column \<Rightarrow> time option \<Rightarrow> (string \<times> string) list \<Rightarrow> uuid \<Rightarrow> db \<Rightarrow> db" where
  "stamped c t ps repo db = db\<lparr>versions := upd_where (\<lambda>v. \<exists>x\<in>set ps. own_version db repo (fst x) (snd x) v) (set_ts c t) (versions db)\<rparr>"

lemma fold_stamped:
  "fold (\<lambda>(p, n) db. snd (set_version_timestamp c t db repo p n)) ps db = stamped c t ps repo db"
proof (induction ps arbitrary: db)
  case Nil
  then show ?case by (simp add: stamped_def upd_where_def)
next
  case (Cons x ps)
  obtain p n where x: "x = (p, n)" by fastforce
  show ?case
    by (simp add: x Cons.IH) (simp add: set_version_timestamp_def stamped_def own_version_versions upd_where_def own_version_set_ts set_ts_twice)
qed

lemma review_folds:
  "fold (\<lambda>(p, n) db. snd (approve_version now db repo p n)) ps db = stamped ApprovedAt (Some now) ps repo db"
  "fold (\<lambda>(p, n) db. snd (hold_version now db repo p n)) ps db = stamped HeldAt (Some now) ps repo db"
  unfolding approve_version_def hold_version_def by (rule fold_stamped)+

section \<open>What an action leaves alone\<close>

text \<open>The rows other repositories own stay, up to the references a deletion sets to null and the rows of a deleted package:
  \<open>i\<close> is the repository acted on, \<open>K\<close> holds keys whose entitlements are left out.\<close>

definition other_key :: "db \<Rightarrow> uuid \<Rightarrow> uuid set \<Rightarrow> uuid \<Rightarrow> bool" where
  "other_key db i K l \<longleftrightarrow> l \<notin> K \<and> exists_where (\<lambda>x. l_id x = l \<and> l_repo x \<noteq> i) (licenses db)"

definition elsewhere :: "uuid \<Rightarrow> uuid set \<Rightarrow> db \<Rightarrow> db \<Rightarrow> bool" where
  "elsewhere i K db db' \<longleftrightarrow>
     filter (\<lambda>r. r_id r \<noteq> i) (repos db') = filter (\<lambda>r. r_id r \<noteq> i) (repos db)
   \<and> map (\<lambda>p. p\<lparr>p_upstream := None\<rparr>) (filter (\<lambda>p. p_repo p \<noteq> i) (packages db'))
     = map (\<lambda>p. p\<lparr>p_upstream := None\<rparr>) (filter (\<lambda>p. p_repo p \<noteq> i) (packages db))
   \<and> filter (\<lambda>v. \<forall>p\<in>set (packages db). p_id p = v_package v \<longrightarrow> p_repo p \<noteq> i) (versions db')
     = filter (\<lambda>v. \<forall>p\<in>set (packages db). p_id p = v_package v \<longrightarrow> p_repo p \<noteq> i) (versions db)
   \<and> map (\<lambda>l. l\<lparr>l_edition := None\<rparr>) (filter (\<lambda>l. l_repo l \<noteq> i) (licenses db'))
     = map (\<lambda>l. l\<lparr>l_edition := None\<rparr>) (filter (\<lambda>l. l_repo l \<noteq> i) (licenses db))
   \<and> filter (\<lambda>e. ed_repo e \<noteq> i) (editions db') = filter (\<lambda>e. ed_repo e \<noteq> i) (editions db)
   \<and> filter (\<lambda>t. t_repo t \<noteq> Some i) (tokens db') = filter (\<lambda>t. t_repo t \<noteq> Some i) (tokens db)
   \<and> filter (\<lambda>g. (\<forall>p\<in>set (packages db). p_id p = g_package g \<longrightarrow> p_repo p \<noteq> i) \<and> g_repo g \<noteq> i) (grants db')
     = filter (\<lambda>g. (\<forall>p\<in>set (packages db). p_id p = g_package g \<longrightarrow> p_repo p \<noteq> i) \<and> g_repo g \<noteq> i) (grants db)
   \<and> filter (\<lambda>g. gr_target g \<noteq> i) (grant_rules db') = filter (\<lambda>g. gr_target g \<noteq> i) (grant_rules db)
   \<and> filter (\<lambda>c. ci_repo c \<noteq> i) (ci_policies_t db') = filter (\<lambda>c. ci_repo c \<noteq> i) (ci_policies_t db)
   \<and> filter (\<lambda>u. ur_repo u \<noteq> i) (upstreams db') = filter (\<lambda>u. ur_repo u \<noteq> i) (upstreams db)
   \<and> filter (\<lambda>c. c_repo c \<noteq> i) (service_tokens db') = filter (\<lambda>c. c_repo c \<noteq> i) (service_tokens db)
   \<and> filter (\<lambda>c. c_repo c \<noteq> i) (publish_tokens db') = filter (\<lambda>c. c_repo c \<noteq> i) (publish_tokens db)
   \<and> filter (\<lambda>x. sn_repo x \<noteq> i) (snapshots db') = filter (\<lambda>x. sn_repo x \<noteq> i) (snapshots db)
   \<and> filter (\<lambda>u. us_repo u \<noteq> i) (uploads db') = filter (\<lambda>u. us_repo u \<noteq> i) (uploads db)
   \<and> filter (\<lambda>m. m_repo m \<noteq> i \<and> m_member m \<noteq> i) (members db') = filter (\<lambda>m. m_repo m \<noteq> i \<and> m_member m \<noteq> i) (members db)
   \<and> map (\<lambda>d. d\<lparr>dp_resolver := None\<rparr>) (filter (\<lambda>d. dp_repo d \<noteq> i) (plans db'))
     = map (\<lambda>d. d\<lparr>dp_resolver := None\<rparr>) (filter (\<lambda>d. dp_repo d \<noteq> i) (plans db))
   \<and> filter (\<lambda>e. other_key db i K (en_license e) \<and> (\<forall>p\<in>set (packages db). p_id p = en_package e \<longrightarrow> p_repo p \<noteq> i)) (ents db')
     = filter (\<lambda>e. other_key db i K (en_license e) \<and> (\<forall>p\<in>set (packages db). p_id p = en_package e \<longrightarrow> p_repo p \<noteq> i)) (ents db)
   \<and> filter (\<lambda>e. other_key db i K (ls_license e)) (set_ents db') = filter (\<lambda>e. other_key db i K (ls_license e)) (set_ents db)
   \<and> orgs db' = orgs db \<and> users db' = users db \<and> tenants db' = tenants db"


lemma elsewhere_refl [simp]: "elsewhere i K db db"
  by (simp add: elsewhere_def)

lemma filter_del_other: "(\<And>x. P x \<Longrightarrow> \<not> Q x) \<Longrightarrow> filter Q (del_where P t) = filter Q t"
  by (induction t) (auto simp: del_where_def)

lemma map_filter_upd: "(\<And>x. g (f x) = g x) \<Longrightarrow> (\<And>x. Q (f x) = Q x) \<Longrightarrow> map g (filter Q (upd_where P f t)) = map g (filter Q t)"
  by (induction t) (auto simp: table_simps)

lemma upd_own: "(\<And>x. k (f x) = k x) \<Longrightarrow> filter (\<lambda>x. k x \<noteq> i) (upd_where (\<lambda>x. k x = i) f t) = filter (\<lambda>x. k x \<noteq> i) t"
    "(\<And>x. k (f x) = k x) \<Longrightarrow> filter (\<lambda>x. k x \<noteq> i) (upd_where (\<lambda>x. k x = i \<and> R x) f t) = filter (\<lambda>x. k x \<noteq> i) t"
    "(\<And>x. k (f x) = k x) \<Longrightarrow> filter (\<lambda>x. k x \<noteq> i) (upd_where (\<lambda>x. R x \<and> k x = i) f t) = filter (\<lambda>x. k x \<noteq> i) t"
  by (auto intro!: filter_upd_other)

lemma del_own: "filter (\<lambda>x. k x \<noteq> i) (del_where (\<lambda>x. k x = i) t) = filter (\<lambda>x. k x \<noteq> i) t"
    "filter (\<lambda>x. k x \<noteq> i) (del_where (\<lambda>x. k x = i \<and> R x) t) = filter (\<lambda>x. k x \<noteq> i) t"
    "filter (\<lambda>x. k x \<noteq> i) (del_where (\<lambda>x. R x \<and> k x = i) t) = filter (\<lambda>x. k x \<noteq> i) t"
  by (auto simp: del_where_def intro!: filter_cong)

lemmas elsewhere_simps = elsewhere_def upd_own del_own

lemma elsewhere_update_policy: "set_update_policy db i m c = Inr db' \<Longrightarrow> elsewhere i K db db'"
  by (auto simp: set_update_policy_def elsewhere_simps split: if_splits)

lemma elsewhere_settings: "elsewhere i K db (set_repo_settings db i s)"
  by (simp add: set_repo_settings_def elsewhere_simps)

lemma own_version_own: "own_version db i p n v \<Longrightarrow> \<not> (\<forall>p\<in>set (packages db). p_id p = v_package v \<longrightarrow> p_repo p \<noteq> i)"
  by (auto simp: own_version_def package_of_def split: option.splits dest!: select_one_Some)

lemma elsewhere_versions:
  assumes "\<And>v. P v \<Longrightarrow> \<not> (\<forall>p\<in>set (packages db). p_id p = v_package v \<longrightarrow> p_repo p \<noteq> i)" "\<And>v. v_package (f v) = v_package v"
  shows "elsewhere i K db (db\<lparr>versions := upd_where P f (versions db)\<rparr>)"
  by (simp add: elsewhere_def filter_upd_other assms)

lemma v_package_set_ts: "v_package (set_ts c t v) = v_package v"
  by (cases c) simp_all

lemma elsewhere_stamped: "elsewhere i K db (stamped c t ps i db)"
  unfolding stamped_def by (rule elsewhere_versions) (use own_version_own v_package_set_ts in blast)+

lemma elsewhere_timestamp: "elsewhere i K db (snd (set_version_timestamp c t db i p n))"
  unfolding set_version_timestamp_def snd_conv by (rule elsewhere_versions) (use own_version_own v_package_set_ts in blast)+

lemma elsewhere_approve_all: "elsewhere i K db (snd (approve_all_pending now db i p))"
  unfolding approve_all_pending_def snd_conv
  by (rule elsewhere_versions) (auto simp: pending_decision_def package_of_def split: option.splits dest!: select_one_Some)

lemma elsewhere_upd_package: "(\<And>p. p_repo (f p) = p_repo p) \<Longrightarrow> elsewhere i K db (snd (upd_package i n f db))"
  by (simp add: upd_package_def elsewhere_simps)

lemma elsewhere_archive: "elsewhere i K db (snd (archive_package now db i n))" "elsewhere i K db (snd (unarchive_package db i n))"
  by (simp_all add: archive_package_def unarchive_package_def upd_package_def elsewhere_simps)

lemma elsewhere_visibility: "set_package_visibility now db i n v = Inr (b, db') \<Longrightarrow> elsewhere i K db db'"
  by (auto simp: set_package_visibility_def upd_package_def elsewhere_simps and_then_Inr_iff)

lemma elsewhere_grants: "elsewhere i K db (snd (set_grant_policy db i n p))" "elsewhere i K db (snd (grant_package db i q n))"
    "elsewhere i K db (remove_grant_rule db i k)"
  by (auto simp: set_grant_policy_def grant_package_def remove_grant_rule_def grant_on_def[abs_def] elsewhere_simps
      intro!: filter_upd_other split: option.splits)

lemma elsewhere_autogrant: "add_grant_rule k db i s = Inr db' \<Longrightarrow> elsewhere i K db db'"
  by (auto simp: add_grant_rule_def elsewhere_simps and_then_Inr_iff split: sum.splits if_splits)

lemma elsewhere_rename: "rename_repo db i slug = Inr db' \<Longrightarrow> elsewhere i K db db'"
  by (auto simp: rename_repo_def retire_slug_def Let_def elsewhere_simps split: if_splits option.splits sum.splits)

lemma elsewhere_license: "elsewhere i K db (snd (set_license_bound db i l t m))" "elsewhere i K db (snd (set_license_policy db i l p))"
  by (simp_all add: set_license_bound_def set_license_policy_def upd_license_def elsewhere_simps)

lemma elsewhere_tokens: "elsewhere i K db (snd (revoke_token db i k))" "set_token_policy db i l p = Inr (b, db') \<Longrightarrow> elsewhere i K db db'"
    "elsewhere i K db (snd (delete_ci_policy db i k))"
  by (auto simp: revoke_token_def set_token_policy_def delete_ci_policy_def elsewhere_simps split: if_splits)


lemma p_repo_new: "p_repo (new_package k i n kd src v) = i"
  by (simp add: new_package_def)

lemma elsewhere_token: "create_token k sha sec now db i l d = Inr (t, db') \<Longrightarrow> elsewhere i K db db'"
  by (auto simp: create_token_def new_token_def insert_token_def elsewhere_simps and_then_Inr_iff lift_db_Inr split: if_splits)

lemma elsewhere_ci: "add_ci_policy db c = Inr db' \<Longrightarrow> elsewhere (ci_repo c) K db db'"
  by (auto simp: add_ci_policy_def elsewhere_simps split: if_splits)

lemma elsewhere_members: "add_set_member db s p = Inr db' \<Longrightarrow> elsewhere i K db db'"
  by (auto simp: add_set_member_def elsewhere_simps split: if_splits)

lemma elsewhere_singleton: "singleton_set k db g n = Inr (r, db') \<Longrightarrow> elsewhere i K db db'"
  by (auto simp: singleton_set_def create_package_set_def add_set_member_def elsewhere_simps and_then_Inr_iff split: option.splits if_splits)

lemma elsewhere_edition: "create_edition k db i n sl s b sn p = Inr (r, db') \<Longrightarrow> elsewhere i K db db'"
  by (auto simp: create_edition_def insert_edition_def new_edition_def elsewhere_simps and_then_Inr_iff Let_def split: sum.splits if_splits prod.splits)

lemma elsewhere_edition_active: "set_edition_active db i e False = Inr (b, db') \<Longrightarrow> elsewhere i K db db'"
  by (auto simp: set_edition_active_def set_edition_flag_def elsewhere_simps)

lemma elsewhere_set_edges: "entitle_set db l s = Inr db' \<Longrightarrow> elsewhere i {l} db db'" "elsewhere i {l} db (remove_set_entitlement db l s)"
proof -
  show "elsewhere i {l} db (remove_set_entitlement db l s)"
    unfolding remove_set_entitlement_def elsewhere_def by (simp, intro filter_del_other) (auto simp: other_key_def)
  show "elsewhere i {l} db db'" if "entitle_set db l s = Inr db'"
    using that by (auto simp: entitle_set_def add_set_ent_def elsewhere_def other_key_def split: if_splits)
qed

text \<open>The edges of a new key belong to no key of another repository.\<close>

lemma elsewhere_queue [simp]: "elsewhere i K db (db'\<lparr>jobs := j\<rparr>) = elsewhere i K db db'" "elsewhere i K db (db'\<lparr>requires_t := q\<rparr>) = elsewhere i K db db'"
    "elsewhere i K db (db'\<lparr>source_paths_t := sp\<rparr>) = elsewhere i K db db'"
  by (simp_all add: elsewhere_def)

lemma elsewhere_add_ents: "\<not> other_key db i K l \<Longrightarrow> elsewhere i K db (fold (add_ent l u m) ps db') = elsewhere i K db db'"
  by (induction ps arbitrary: db') (simp_all add: add_ent_def elsewhere_def)

lemma elsewhere_add_set_ent: "\<not> other_key db i K l \<Longrightarrow> elsewhere i K db (add_set_ent l u m s db') = elsewhere i K db db'"
  by (simp add: add_set_ent_def elsewhere_def)

lemma fresh_key: "k \<notin> l_id ` set (licenses db) \<Longrightarrow> \<not> other_key db i K k"
  by (auto simp: other_key_def)

lemma elsewhere_insert_license: "insert_license l db = Inr db' \<Longrightarrow> l_repo l = i \<Longrightarrow> elsewhere i K db db'"
  by (auto simp: insert_license_def elsewhere_simps split: if_splits)

lemma elsewhere_issue: "k \<notin> l_id ` set (licenses db) \<Longrightarrow> issue_license k sha enc sec db i b ns = Inr (r, db') \<Longrightarrow> elsewhere i K db db'"
  by (auto simp: issue_license_def create_license_key_def blank_license_def and_then_Inr_iff elsewhere_add_ents fresh_key elsewhere_insert_license
      split: option.splits prod.splits)

lemma elsewhere_attach: "\<not> other_key db i K l \<Longrightarrow> elsewhere i K db (attach_edition_set am now l s sn b db') = elsewhere i K db db'"
  by (simp add: attach_edition_set_def Let_def elsewhere_add_ents elsewhere_add_set_ent)

lemma elsewhere_issue_edition: "k \<notin> l_id ` set (licenses db) \<Longrightarrow> issue_from_edition k sha enc dec am sec now db i ed b idem e = Inr (r, db') \<Longrightarrow> elsewhere i K db db'"
  by (auto simp: issue_from_edition_def issue_insert_def edition_license_def blank_license_def elsewhere_attach fresh_key elsewhere_insert_license
      split: option.splits prod.splits sum.splits sql_error.splits)

lemma elsewhere_upstream: "create_upstream k db i kd b v l c ct = Inr (u, db') \<Longrightarrow> elsewhere i K db db'"
  by (auto simp: create_upstream_def new_upstream_def elsewhere_simps Let_def split: if_splits)

lemma elsewhere_requires: "set_upstream_requires db' r u qs = Inr db'' \<Longrightarrow> elsewhere i K db db'' = elsewhere i K db db'"
    "elsewhere i K db (set_upstream_source_paths db' r u ps) = elsewhere i K db db'"
  by (auto simp: set_upstream_requires_def set_upstream_source_paths_def split: if_splits)

lemma elsewhere_del_upstream: "elsewhere i K db (snd (delete_upstream db i u))"
  by (simp add: delete_upstream_def del_upstreams_def Let_def elsewhere_simps map_filter_upd)

lemma elsewhere_enqueue: "enqueue_job k now db' kd u p r = Inr (b, db'') \<Longrightarrow> elsewhere i K db db'' = elsewhere i K db db'"
  by (auto simp: enqueue_job_def Let_def split: if_splits)

lemma elsewhere_enqueue_all: "enqueue_all ns now db' us = Inr db'' \<Longrightarrow> elsewhere i K db db'' = elsewhere i K db db'"
proof (induction ns now db' us rule: enqueue_all.induct)
  case (2 n ns now db' u us)
  then show ?case
    by (auto simp: and_then_Inr_iff db_status_Inr enqueue_mirror_job_def elsewhere_enqueue split: prod.splits)
qed simp_all

lemma not_other_key: "distinct (map l_id (licenses db)) \<Longrightarrow> l \<in> set (licenses db) \<Longrightarrow> l_repo l = i \<Longrightarrow> \<not> other_key db i K (l_id l)"
  by (auto simp: other_key_def dest: distinct_map_eqD)

lemma put_edges_other:
  "(\<And>e. ls_license e = k \<Longrightarrow> \<not> Q e) \<Longrightarrow> filter Q (fold (\<lambda>e. put_set_ent k (f e) (g e) (h e)) xs t) = filter Q t"
  by (induction xs arbitrary: t) (auto simp: put_set_ent_def intro!: filter_upd_other)

lemma put_ents_other:
  "(\<And>e. en_license e = k \<Longrightarrow> \<not> Q e) \<Longrightarrow> filter Q (fold (\<lambda>e. put_ent k (f e) (g e) (h e)) xs t) = filter Q t"
  by (induction xs arbitrary: t) (auto simp: put_ent_def intro!: filter_upd_other)

lemma elsewhere_merge:
  assumes "distinct (map l_id (licenses db))" "merge_license_keys db i a b = (m, db')"
  shows "elsewhere i K db db'"
proof -
  have own: "l \<in> set (licenses db) \<Longrightarrow> l_id l = k \<Longrightarrow> l_repo l = i" if "active_key db i k \<noteq> None" for k and l :: license_row
    using that assms(1) by (auto simp: active_key_def dest!: select_one_Some dest: distinct_map_eqD)
  have foreign: "\<not> other_key db i K k" if "active_key db i k \<noteq> None" for k
    using own[OF that] by (auto simp: other_key_def)
  have rows: "filter (\<lambda>l. l_repo l \<noteq> i) (upd_where (\<lambda>l. l_id l = a) (\<lambda>l. l\<lparr>l_status := st\<rparr>) (licenses db)) = filter (\<lambda>l. l_repo l \<noteq> i) (licenses db)"
    if "active_key db i a \<noteq> None" for st
    unfolding upd_where_def by (rule filter_map_other) (auto simp: own[OF that] split: if_splits)
  have sets: "filter (\<lambda>e. other_key db i K (ls_license e)) (fold (\<lambda>e. put_set_ent b (f e) (g e) (h e)) xs t) = filter (\<lambda>e. other_key db i K (ls_license e)) t"
    if "active_key db i b \<noteq> None" for f g h and xs :: "set_ent_row list" and t
    by (rule put_edges_other) (use foreign[OF that] in auto)
  have ents: "filter (\<lambda>e. other_key db i K (en_license e) \<and> R e) (fold (\<lambda>e. put_ent b (f e) (g e) (h e)) xs t) = filter (\<lambda>e. other_key db i K (en_license e) \<and> R e) t"
    if "active_key db i b \<noteq> None" for f g h R and xs :: "ent_row list" and t
    by (rule put_ents_other) (use foreign[OF that] in auto)
  show ?thesis
    using assms(2) by (auto simp: merge_license_keys_def elsewhere_def rows sets ents split: if_splits option.splits)
qed

lemma elsewhere_delete_row: "distinct (map l_id (licenses db)) \<Longrightarrow> elsewhere i K db (delete_repo_row i db)"
  by (auto simp: delete_repo_row_def del_packages_def del_licenses_def del_upstreams_def del_editions_def del_uploads_def
      del_snapshots_def del_versions_def Let_def elsewhere_simps map_filter_upd intro!: filter_del_other)
    (auto simp: del_where_def intro!: filter_cong dest: not_other_key)

lemma elsewhere_delete: "distinct (map l_id (licenses db)) \<Longrightarrow> delete_repo db i = Inr (b, db') \<Longrightarrow> elsewhere i K db db'"
proof (cases "repo_named db i")
  case (Some r)
  assume unique: "distinct (map l_id (licenses db))"
  assume "delete_repo db i = Inr (b, db')"
  with Some obtain db1 where d: "retire_slug RepoSlug (r_slug r) (Some (r_org r)) i db = Inr db1" "db' = delete_repo_row i db1"
    by (auto simp: delete_repo_def and_then_Inr_iff)
  have "db1 = db\<lparr>slugs := slugs db1\<rparr>" using d(1) by (auto simp: retire_slug_def split: if_splits)
  then have "elsewhere i K db x = elsewhere i K db1 x" for x by (cases db, cases db1) (simp add: elsewhere_def other_key_def)
  moreover have "licenses db1 = licenses db" using d(1) by (auto simp: retire_slug_def split: if_splits)
  ultimately show ?thesis using d(2) elsewhere_delete_row unique by simp
qed (simp add: delete_repo_def)

lemmas admin_handlers = ui_rename_repo_def ui_delete_repo_def ui_save_repo_settings_def ui_package_visibility_def ui_package_archive_def
  ui_add_autogrant_def ui_remove_autogrant_def ui_set_grant_policy_def ui_create_grant_def ui_create_license_def
  ui_issue_license_edition_def ui_create_edition_def ui_deactivate_edition_def ui_set_license_bound_def ui_set_license_policy_def
  ui_entitle_license_set_def ui_remove_license_set_def ui_merge_license_def ui_create_token_def ui_revoke_token_def
  ui_set_token_policy_def ui_add_ci_def ui_remove_ci_def ui_create_upstream_def ui_remove_upstream_def ui_sync_upstream_def
  ui_sync_all_def ui_resolve_deps_def ui_add_dep_def page_action_def token_action_def upstream_action_def

lemmas review_handlers = ui_set_policy_def ui_version_action_def ui_approve_bulk_def ui_hold_bulk_def

lemma console_refused:
  assumes "lookup_admin db u org repo = Inl e" "\<not> review rq"
  shows "page_post c u org repo rq db = (Inl e, db)"
  using assms by (cases rq) (simp_all add: admin_handlers given_def)

lemma console_unknown:
  assumes "lookup db u org repo = Inl e"
  shows "page_post c u org repo rq db = (Inl e, db)"
proof (cases "review rq")
  case True
  then show ?thesis using assms by (cases rq) (simp_all add: review_handlers given_def)
next
  case False
  have "lookup_admin db u org repo = Inl e" using assms by (simp add: lookup_admin_def)
  then show ?thesis using console_refused False by blast
qed

lemma console_review:
  assumes "lookup db u org repo = Inr s" "review rq" "page_post c u org repo rq db = (r, db')"
  shows "elsewhere (rs_id s) K db db'"
proof (cases rq)
  case (VersionAction p n a)
  then show ?thesis using assms elsewhere_timestamp
    by (auto simp: review_handlers given_def back_to_repo_def version_change_def hold_version_def unhold_version_def yank_version_def
        unyank_version_def approve_version_def split: if_splits)
next
  case (SetPolicy m k)
  then show ?thesis using assms
    by (auto simp: review_handlers given_def back_to_repo_def map_err_Inr elsewhere_update_policy split: sum.splits)
qed (use assms in \<open>auto simp: review_handlers given_def back_to_repo_def review_folds elsewhere_stamped elsewhere_approve_all split: option.splits\<close>)

lemma given_Inr: "given r k db = (res, db') \<Longrightarrow> (\<And>x. r = Inr x \<Longrightarrow> k x = (res, db') \<Longrightarrow> elsewhere i K db db') \<Longrightarrow> elsewhere i K db db'"
  by (auto simp: given_def split: sum.splits)

lemma elsewhere_edition_target:
  "edition_target pid k s back f db = (x, db') \<Longrightarrow> elsewhere i K db db'"
  by (auto simp: edition_target_def intro: elsewhere_singleton
      split: option.split_asm sum.split_asm prod.split_asm singleton_result.split_asm if_split_asm)

lemma packages_singleton: "singleton_set k db g n = Inr (r, db') \<Longrightarrow> packages db' = packages db"
  by (auto simp: singleton_set_def create_package_set_def add_set_member_def and_then_Inr_iff split: option.splits if_splits)

lemma packages_edition_target:
  "edition_target pid k s back f db = (x, db') \<Longrightarrow> packages db' = packages db"
  by (auto simp: edition_target_def intro: packages_singleton
      split: option.split_asm sum.split_asm prod.split_asm singleton_result.split_asm if_split_asm)

lemma licenses_singleton: "singleton_set k db g n = Inr (r, db') \<Longrightarrow> licenses db' = licenses db"
  by (auto simp: singleton_set_def create_package_set_def add_set_member_def and_then_Inr_iff split: option.splits if_splits)

lemma licenses_edition_target:
  "edition_target pid k s back f db = (x, db') \<Longrightarrow> licenses db' = licenses db"
  by (auto simp: edition_target_def intro: licenses_singleton
      split: option.split_asm sum.split_asm prod.split_asm singleton_result.split_asm if_split_asm)

lemma elsewhere_trans:
  assumes "elsewhere i K a b" "packages b = packages a" "licenses b = licenses a" "elsewhere i K b c"
  shows "elsewhere i K a c"
  using assms unfolding elsewhere_def other_key_def by simp

lemma elsewhere_ui_edition:
  assumes "ui_create_edition pid k j u org repo f db = (r, db')" "lookup_admin db u org repo = Inr s"
  shows "elsewhere (rs_id s) K db db'"
proof -
  obtain x db1 where t: "edition_target pid k s (repo_url org repo) f db = (x, db1)" by fastforce
  have "elsewhere (rs_id s) K db1 db'" if "trim (ef_name f) \<noteq> []"
    using assms t that by (auto simp: ui_create_edition_def given_def back_to_repo_def intro: elsewhere_edition
        split: sum.split_asm option.split_asm prod.split_asm entitlement_error.split_asm)
  then show ?thesis
    using assms elsewhere_trans[OF elsewhere_edition_target[OF t] packages_edition_target[OF t] licenses_edition_target[OF t]]
    by (cases "trim (ef_name f) = []") (auto simp: ui_create_edition_def given_def)
qed

lemma console_run:
  "and_then m k = Inr y \<Longrightarrow> (\<And>x. m = Inr x \<Longrightarrow> k x = Inr y \<Longrightarrow> P) \<Longrightarrow> P"
  "(if b then Inl e else q) = Inr z \<Longrightarrow> (q = Inr z \<Longrightarrow> P) \<Longrightarrow> P"
  "(if b then Inr (UpstreamNotAdded w) else n) = Inr (UpstreamAdded d) \<Longrightarrow> (n = Inr (UpstreamAdded d) \<Longrightarrow> P) \<Longrightarrow> P"
  by (auto simp: and_then_Inr_iff split: if_splits)

lemma elsewhere_upstream_rows:
  assumes "db_status (create_upstream k db i kd b v l c ct) = Inr (n, db1)"
    "(if g then db_status (set_upstream_requires db1 i n qs) else Inr db1) = Inr db2"
    "db' = (if h then set_upstream_source_paths db2 i n ps else db2)"
  shows "elsewhere i K db db'"
proof -
  have 1: "elsewhere i K db db1" using assms(1) by (auto simp: db_status_Inr intro: elsewhere_upstream)
  have "elsewhere i K db db2" using assms(2) 1 elsewhere_requires(1)[of db1 i n qs db2 i K db] by (auto simp: db_status_Inr split: if_splits)
  then show ?thesis using assms(3) by (simp add: elsewhere_requires)
qed

lemma elsewhere_ui_upstream:
  assumes "ui_create_upstream k enc db u org repo f = Inr (UpstreamAdded db')" "lookup_admin db u org repo = Inr s"
  shows "elsewhere (rs_id s) K db db'"
  using assms(1) unfolding ui_create_upstream_def Let_def assms(2) and_then.simps
  apply (elim console_run)
  apply (simp only: split_paired_all prod.case)
  apply (elim console_run)
  apply (simp only: sum.inject upstream_answer.inject)
  apply (rule elsewhere_upstream_rows, assumption, assumption, rule sym, assumption)
  done

lemma policy_done:
  "\<forall>x. set_token_policy db i l p \<noteq> Inl x \<Longrightarrow> \<forall>a b. set_token_policy db i l p = Inr (a, b) \<longrightarrow> Q \<and> b = y \<Longrightarrow> elsewhere i K db y"
  by (cases "set_token_policy db i l p") (auto intro: elsewhere_tokens(2))

lemma ci_done:
  "\<forall>x. add_ci_policy db c \<noteq> Inl x \<Longrightarrow> \<forall>x. add_ci_policy db c = Inr x \<longrightarrow> Q \<and> x = y \<Longrightarrow> ci_repo c = i \<Longrightarrow> elsewhere i K db y"
  by (cases "add_ci_policy db c") (auto dest: elsewhere_ci)

text \<open>The key a form names without relating it to the repository of the URL.\<close>

fun posted_key :: "console_request \<Rightarrow> uuid set" where
  "posted_key (EntitleSet (Some l) x) = {l}"
| "posted_key (RemoveLicenseSet (Some l) x) = {l}"
| "posted_key rq = {}"

lemma console_admin:
  assumes "distinct (map l_id (licenses db))" "lookup_admin db u org repo = Inr s" "\<not> review rq" "page_post c u org repo rq db = (r, db')"
    and "ce_id c \<notin> l_id ` set (licenses db)"
  shows "elsewhere (rs_id s) (posted_key rq) db db'"
proof (cases rq)
  case (RenameRepo x)
  then show ?thesis using assms
    by (auto simp: ui_rename_repo_def given_def rename_answer_def intro: elsewhere_rename split: sum.splits)
next
  case (DeleteRepo x)
  then show ?thesis using assms
    by (auto simp: ui_delete_repo_def given_def db_status_Inr intro: elsewhere_delete split: sum.splits if_splits)
next
  case (SaveSettings a b d e)
  then show ?thesis using assms
    by (auto simp: ui_save_repo_settings_def given_def intro: elsewhere_settings split: sum.splits)
next
  case (DeclareVisibility p v)
  then show ?thesis using assms
    by (auto simp: ui_package_visibility_def given_def intro: elsewhere_visibility split: sum.splits upsert_error.splits bool.splits)
next
  case (ArchivePackage p a)
  then show ?thesis using assms
    by (auto simp: ui_package_archive_def given_def back_to_repo_def intro: elsewhere_archive split: if_splits)
next
  case (AddAutogrant x)
  have "elsewhere (rs_id s) {} db d" if "ui_add_autogrant (ce_id c) db u org repo x = Inr d" for d
    using that assms(2) by (auto simp: ui_add_autogrant_def and_then_Inr_iff intro: elsewhere_autogrant
        split: option.splits if_splits sum.splits entitlement_error.splits)
  then show ?thesis using AddAutogrant assms(4) by (auto simp: page_action_def given_def back_to_repo_def split: sum.splits)
next
  case (CreateLicense b ps)
  then show ?thesis using assms
    by (auto simp: ui_create_license_def given_def db_status_Inr intro: elsewhere_issue split: sum.splits)
next
  case (IssueFromEdition e b)
  then show ?thesis using assms
    by (auto simp: ui_issue_license_edition_def given_def db_status_Inr intro: elsewhere_issue_edition split: sum.splits)
next
  case (CreateToken l d)
  then show ?thesis using assms
    by (auto simp: token_action_def ui_create_token_def and_then_Inr_iff intro: elsewhere_token split: sum.splits elim!: token_status.elims)
next
  case (SetTokenPolicy l m d)
  have "elsewhere (rs_id s) {} db y" if "ui_set_token_policy db u org repo l m d = Inr y" for y
    using that assms(2) by (auto simp: ui_set_token_policy_def and_then_Inr_iff intro: policy_done split: if_split_asm sum.split_asm)
  then show ?thesis using SetTokenPolicy assms(4) by (auto simp: page_action_def given_def back_to_repo_def split: sum.splits)
next
  case (AddCi p i a cl t k)
  have "elsewhere (rs_id s) {} db y" if "ui_add_ci (ce_id c) db u org repo p i a cl t k = Inr y" for y
    using that assms(2) by (auto simp: ui_add_ci_def and_then_Inr_iff intro: ci_done split: if_split_asm sum.split_asm)
  then show ?thesis using AddCi assms(4) by (auto simp: page_action_def given_def back_to_repo_def split: sum.splits)
next
  case (MergeLicense a b)
  then show ?thesis using assms
    by (auto simp: ui_merge_license_def given_def back_to_repo_def intro: elsewhere_merge split: sum.splits prod.splits license_merge.splits)
next
  case (EntitleSet l x)
  then show ?thesis using assms
    by (auto simp: ui_entitle_license_set_def given_def back_to_repo_def db_status_Inr intro: elsewhere_set_edges split: sum.splits option.splits if_splits)
next
  case (RemoveLicenseSet l x)
  then show ?thesis using assms
    by (cases l; cases x) (auto simp: ui_remove_license_set_def page_action_def given_def back_to_repo_def and_then_Inr_iff elsewhere_set_edges(2) split: sum.splits)
next
  case (DeactivateEdition e)
  then show ?thesis using assms
    by (auto simp: ui_deactivate_edition_def given_def back_to_repo_def intro: elsewhere_edition_active split: sum.splits)
next
  case (SyncUpstream x)
  then show ?thesis using assms
    by (auto simp: elsewhere_enqueue page_action_def ui_sync_upstream_def enqueue_mirror_job_def given_def back_to_repo_def and_then_Inr_iff db_status_Inr split: sum.splits if_splits)
next
  case SyncAll
  then show ?thesis using assms
    by (auto simp: elsewhere_enqueue_all page_action_def ui_sync_all_def given_def back_to_repo_def and_then_Inr_iff split: sum.splits)
next
  case ResolveDeps
  then show ?thesis using assms
    by (auto simp: elsewhere_enqueue page_action_def ui_resolve_deps_def enqueue_resolve_closure_job_def given_def back_to_repo_def and_then_Inr_iff db_status_Inr split: sum.splits)
next
  case (AddDep p)
  then show ?thesis using assms
    by (auto simp: elsewhere_enqueue page_action_def ui_add_dep_def enqueue_mirror_package_job_def given_def back_to_repo_def and_then_Inr_iff db_status_Inr split: sum.splits)
next
  case (CreateEdition f)
  then show ?thesis using assms by (auto intro: elsewhere_ui_edition)
next
  case (AddUpstream f)
  then show ?thesis using assms by (auto simp: upstream_action_def intro: elsewhere_ui_upstream split: sum.splits upstream_answer.splits)
qed (use assms in \<open>auto simp: admin_handlers given_def back_to_repo_def and_then_Inr_iff elsewhere_grants elsewhere_license elsewhere_tokens
      elsewhere_del_upstream split: sum.splits\<close>)

section \<open>Reviews and confinement\<close>


text \<open>The selection bar decides exactly the ticked versions: approving (or holding) a selection stamps every version of
  the repository's own packages that some line names, and changes nothing else.\<close>

theorem bulk_review_exact:
  assumes "lookup db u org repo = Inr s"
  shows "ui_approve_bulk now u org repo package (Some sel) db = (Inr (GoTo (repo_url org repo)), stamped ApprovedAt (Some now) (ticked sel) (rs_id s) db)
    \<and> ui_hold_bulk now u org repo (Some sel) db = (Inr (GoTo (repo_url org repo)), stamped HeldAt (Some now) (ticked sel) (rs_id s) db)"
  using assms by (simp add: review_handlers given_def back_to_repo_def review_folds)

definition demo_env :: console_env where
  "demo_env = \<lparr>ce_now = 70, ce_id = 900, ce_set = 901, ce_ids = [], ce_secret = ''key'', ce_sha = (\<lambda>b. b), ce_enc = None,
     ce_dec = None, ce_months = (\<lambda>n t. t), ce_cast = (\<lambda>_. None), ce_parse = (\<lambda>_. None)\<rparr>"

definition demo_console_db :: db where
  "demo_console_db = demo_db\<lparr>orgs := [\<lparr>o_id = 1, o_slug = ''acme'', o_name = None\<rparr>],
     licenses := [blank_license 60 10 [9] None None]\<rparr>"

definition demo_member :: current_user where
  "demo_member = \<lparr>cu_id = Some 6, cu_superadmin = False, cu_tenants = {1}, cu_admin = {}\<rparr>"

text \<open>\<open>lookup\<close> grants read access; the review actions stop there, so a plain member yanks versions and switches the update
  policy, while everything else on the page is refused.\<close>

lemma member_reviews:
  "map v_yanked (versions (snd (page_post demo_env demo_member ''acme'' ''main'' (VersionAction ''a/b'' ''2.0.0.0'' ''yank'') demo_console_db)))
     = [Some 70, None]
   \<and> map r_update_mode (repos (snd (page_post demo_env demo_member ''acme'' ''main'' (SetPolicy ''manual'' 0) demo_console_db))) = [''manual'']
   \<and> fst (page_post demo_env demo_member ''acme'' ''main'' (ArchivePackage ''a/b'' ''archive'') demo_console_db) = Inl Forbidden"
  by code_simp

text \<open>The license of the form is not related to the URL's repository: an administrator entitles another organization's key.\<close>

lemma entitle_license_cross_tenant:
  "let admin = \<lparr>cu_id = Some 5, cu_superadmin = False, cu_tenants = {1}, cu_admin = {1}\<rparr>;
      db = demo_names\<lparr>orgs := [\<lparr>o_id = 1, o_slug = ''acme'', o_name = None\<rparr>, \<lparr>o_id = 2, o_slug = ''other'', o_name = None\<rparr>],
        repos := [new_repo 10 1 ''main'', new_repo 20 2 ''shop''],
        sets := [\<lparr>ps_id = 33, ps_org = 1, ps_name = ''pro''\<rparr>],
        licenses := [blank_license 60 20 [9] None None]\<rparr>
    in map ls_license (set_ents (snd (ui_entitle_license_set admin ''acme'' ''main'' (Some 60) (Some 33) db))) = [60]"
  by code_simp


theorem bulk_review_exact_witness:
  "fst (ui_hold_bulk 70 demo_member ''acme'' ''main'' (Some ''a/b|2.0.0.0'') demo_console_db) = Inr (GoTo ''/r/acme/main'')"
proof -
  let ?s = "\<lparr>rs_org = ''acme'', rs_org_id = 1, rs_repo = ''main'', rs_id = 10, rs_update_mode = ''auto'', rs_cooldown = 0\<rparr>"
  have l: "lookup demo_console_db demo_member ''acme'' ''main'' = Inr ?s" by code_simp
  have u: "repo_url ''acme'' ''main'' = ''/r/acme/main''" by code_simp
  show ?thesis using bulk_review_exact[OF l] unfolding u by simp
qed

section \<open>Sessions and directories\<close>

definition ui_revoke_session :: "current_user \<Rightarrow> string \<Rightarrow> db \<Rightarrow> reply" where
  "ui_revoke_session user hash_hex db = given (ok_or Forbidden (cu_id user)) (\<lambda>i.
     (Inr (GoTo ''/account''), snd (revoke_session_for_user db i hash_hex))) db"

text \<open>The resources of the list response: id, email as asked for, active.\<close>

definition scim_list_users :: "(bytes \<Rightarrow> bytes) \<Rightarrow> db \<Rightarrow> string option \<Rightarrow> string option \<Rightarrow> (status, (uuid \<times> string \<times> bool) list) result" where
  "scim_list_users sha db token flt = and_then (scim_org sha db token) (\<lambda>org.
     Inr (case Option.bind flt parse_username_filter of None \<Rightarrow> []
       | Some email \<Rightarrow> (case scim_member_by_email db org email of None \<Rightarrow> [] | Some (i, active) \<Rightarrow> [(i, email, active)])))"

definition scim_put_user :: "(bytes \<Rightarrow> bytes) \<Rightarrow> db \<Rightarrow> string option \<Rightarrow> uuid option \<Rightarrow> json option \<Rightarrow> (status, string \<times> bool) result \<times> db" where
  "scim_put_user sha db token user_id body = scim_patch_user sha db token user_id body"

text \<open>A directory sees members of its own organization only.\<close>

lemma scim_list_own_org:
  assumes "scim_list_users sha db token flt = Inr rows" "(i, email, active) \<in> set rows"
  shows "\<exists>org t. scim_org sha db token = Inr org \<and> t \<in> set (tenants db) \<and> ut_org t = org \<and> ut_user t = i \<and> ut_active t = active"
proof -
  obtain org where o: "scim_org sha db token = Inr org" using assms(1) by (auto simp: scim_list_users_def and_then_Inr_iff)
  with assms obtain q where f: "Option.bind flt parse_username_filter = Some q" and m: "scim_member_by_email db org q = Some (i, active)"
    by (cases "Option.bind flt parse_username_filter") (auto simp: scim_list_users_def split: option.split_asm prod.split_asm)
  from m o show ?thesis by (auto simp: scim_member_by_email_def dest!: select_one_Some)
qed

lemma revoke_session_own:
  assumes "ui_revoke_session user h db = (r, db')" "x \<in> set (sessions db)" "x \<notin> set (sessions db')"
  shows "cu_id user = Some (se_user x)"
  using assms by (cases "cu_id user") (auto simp: ui_revoke_session_def given_def revoke_session_for_user_def Let_def del_where_def)

end
