(* ===== verification/Client.thy ===== *)
theory Client
  imports Jobs Git
begin

text \<open>
  The client side of the command line (\<open>crates/sconce/src/main.rs\<close>): publishing a package or a snapshot from CI, in one
  request or in parts, obtaining the token for it, and archiving a directory; and the commands that edit a repository, its
  packages, versions, licenses and editions. HTTP is the function \<open>ci_web\<close> of a request and the state of the world, the
  JSON parser and printer, \<open>ureq\<close>'s query encoding, SHA-256 and the environment are fields of \<open>ci\<close>; what \<open>tar\<close> and
  \<open>flate2\<close> make of the directory is an argument. An error is its chain of messages, outermost first
  (long ones abbreviated).
\<close>

section \<open>Requests\<close>

record http_req =
  hq_method :: string
  hq_url :: string
  hq_headers :: "(string \<times> string) list"
  hq_body :: bytes

datatype http_result = Reply nat string | Refused nat string | Broken string

record 'w ci =
  ci_web :: "http_req \<Rightarrow> 'w \<Rightarrow> http_result \<times> 'w"
  ci_env :: "string \<Rightarrow> string option"
  ci_parse :: "bytes \<Rightarrow> (string, json) result"
  ci_print :: "json \<Rightarrow> bytes"
  ci_query :: "string \<Rightarrow> string \<Rightarrow> string \<Rightarrow> string"
  ci_sha :: "bytes \<Rightarrow> bytes"

type_synonym ('w, 'a) run = "'w \<Rightarrow> (string list, 'a) result \<times> 'w"

definition andthen :: "('w, 'a) run \<Rightarrow> ('a \<Rightarrow> ('w, 'b) run) \<Rightarrow> ('w, 'b) run" where
  "andthen m k w = (case m w of (Inl e, w) \<Rightarrow> (Inl e, w) | (Inr x, w) \<Rightarrow> k x w)"

definition known :: "(string list, 'a) result \<Rightarrow> ('w, 'a) run" where
  "known r w = (r, w)"

definition with_message :: "string \<Rightarrow> (string list, 'a) result \<Rightarrow> (string list, 'a) result" where
  "with_message m r = map_err (\<lambda>es. m # es) r"

text \<open>\<open>publish_http_err\<close> on the error side.\<close>

fun http_text :: "http_result \<Rightarrow> (string list, string) result" where
  "http_text (Reply _ body) = Inr body"
| "http_text (Refused code body) = Inl [''server returned '' @ show_nat code @ '': '' @ trim body]"
| "http_text (Broken e) = Inl [e]"

fun report_publish :: "http_result \<Rightarrow> (string list, string) result" where
  "report_publish (Reply code body) = Inr (show_nat code @ '' '' @ trim body)"
| "report_publish (Refused code body) =
     (if code = 409 then Inl [''version already published with different contents (409): '' @ trim body]
      else Inl [''publish failed ('' @ show_nat code @ ''): '' @ trim body])"
| "report_publish (Broken e) = Inl [''publish request failed'', e]"

definition send :: "'w ci \<Rightarrow> (http_result \<Rightarrow> (string list, 'a) result) \<Rightarrow> http_req \<Rightarrow> ('w, 'a) run" where
  "send c f q w = (case ci_web c q w of (r, w') \<Rightarrow> (f r, w'))"

definition parse_text :: "'w ci \<Rightarrow> string \<Rightarrow> (string list, json) result" where
  "parse_text c s = map_err (\<lambda>e. [e]) (ci_parse c (str_bytes s))"

definition bearer_header :: "string \<Rightarrow> string \<times> string" where
  "bearer_header token = (''Authorization'', ''Bearer '' @ token)"

definition content_type :: "string \<Rightarrow> string \<times> string" where
  "content_type t = (''Content-Type'', t)"

definition field :: "string \<Rightarrow> string \<Rightarrow> json \<Rightarrow> (string list, string) result" where
  "field missing k j = ok_or [missing] (json_str (json_get k j))"

section \<open>A publish token\<close>

definition github_actions_jwt :: "'w ci \<Rightarrow> string \<Rightarrow> ('w, string) run" where
  "github_actions_jwt c audience =
     (let url = coalesce (ci_env c ''ACTIONS_ID_TOKEN_REQUEST_URL'') []; token = coalesce (ci_env c ''ACTIONS_ID_TOKEN_REQUEST_TOKEN'') []
      in if url = [] \<or> token = [] then known (Inl [''Publishing needs a token.''])
         else andthen (send c (\<lambda>r. with_message ''requesting a GitHub OIDC token'' (http_text r))
             \<lparr>hq_method = ''GET'', hq_url = ci_query c url ''audience'' audience, hq_headers = [bearer_header token], hq_body = []\<rparr>) (\<lambda>body.
           known (and_then (with_message ''parsing the OIDC token response'' (parse_text c body))
             (field ''OIDC token response has no value'' ''value''))))"

definition obtain_publish_token :: "'w ci \<Rightarrow> string \<Rightarrow> string \<Rightarrow> string \<Rightarrow> ('w, string) run" where
  "obtain_publish_token c base repo_path audience =
     andthen (case ci_env c ''SCONCE_ID_TOKEN'' of
         Some t \<Rightarrow> if t \<noteq> [] then known (Inr t) else github_actions_jwt c audience
       | None \<Rightarrow> github_actions_jwt c audience) (\<lambda>jwt.
     andthen (send c (\<lambda>r. with_message ''exchanging the OIDC token for a publish token'' (http_text r))
         \<lparr>hq_method = ''POST'', hq_url = base @ ''/oauth/ci-publish'', hq_headers = [content_type ''application/json''],
          hq_body = ci_print c (JObj [(''repository'', JStr repo_path), (''jwt'', JStr jwt)])\<rparr>) (\<lambda>body.
       known (and_then (with_message ''parsing the exchange response'' (parse_text c body))
         (field ''exchange response has no access_token'' ''access_token''))))"

section \<open>Uploading\<close>

definition upload_single :: "'w ci \<Rightarrow> string \<Rightarrow> string \<Rightarrow> string \<Rightarrow> bytes \<Rightarrow> ('w, string) run" where
  "upload_single c url ctype token body = send c report_publish
     \<lparr>hq_method = ''PUT'', hq_url = url, hq_headers = [bearer_header token, content_type ctype], hq_body = body\<rparr>"

text \<open>\<open>slice::chunks\<close>, and \<open>Value::as_u64\<close>, \<open>as_i64\<close>.\<close>

function chunks :: "nat \<Rightarrow> 'a list \<Rightarrow> 'a list list" where
  "chunks k [] = []"
| "chunks k (x # xs) = take (max 1 k) (x # xs) # chunks k (drop (max 1 k) (x # xs))"
  by pat_completeness auto
termination by (relation "measure (\<lambda>(_, xs). length xs)") auto

definition as_u64 :: "json \<Rightarrow> int option" where
  "as_u64 j = (case j of JNum n \<Rightarrow> if 0 \<le> n \<and> n < 2 ^ 64 then Some n else None | _ \<Rightarrow> None)"

definition as_i64 :: "json \<Rightarrow> int option" where
  "as_i64 j = (case j of JNum n \<Rightarrow> if - (2 ^ 63) \<le> n \<and> n < 2 ^ 63 then Some n else None | _ \<Rightarrow> None)"

definition upload_url :: "string \<Rightarrow> string \<Rightarrow> string \<Rightarrow> string \<Rightarrow> string" where
  "upload_url base org repo upload = base @ ''/'' @ org @ ''/'' @ repo @ ''/uploads/'' @ upload"

definition open_request :: "string \<Rightarrow> string \<Rightarrow> http_req" where
  "open_request init_url token = \<lparr>hq_method = ''POST'', hq_url = init_url, hq_headers = [bearer_header token], hq_body = []\<rparr>"

definition status_request :: "string \<Rightarrow> string \<Rightarrow> http_req" where
  "status_request url token = \<lparr>hq_method = ''GET'', hq_url = url, hq_headers = [bearer_header token], hq_body = []\<rparr>"

definition part_request :: "string \<Rightarrow> string \<Rightarrow> nat \<times> bytes \<Rightarrow> http_req" where
  "part_request url token x = \<lparr>hq_method = ''PUT'', hq_url = url @ ''/parts/'' @ show_nat (fst x),
     hq_headers = [bearer_header token, content_type ''application/octet-stream''], hq_body = snd x\<rparr>"

definition complete_request :: "'w ci \<Rightarrow> string \<Rightarrow> string \<Rightarrow> nat \<Rightarrow> bytes \<Rightarrow> http_req" where
  "complete_request c url token n body = \<lparr>hq_method = ''POST'', hq_url = url @ ''/complete'',
     hq_headers = [bearer_header token, content_type ''application/json''],
     hq_body = ci_print c (JObj [(''parts'', JNum (int n)), (''sha256'', JStr (hex (ci_sha c body)))])\<rparr>"

definition staged_parts :: "json \<Rightarrow> int list" where
  "staged_parts status = (case json_get ''parts'' status of
     Some (JArr ps) \<Rightarrow> List.map_filter (\<lambda>p. Option.bind (json_get ''part_number'' p) as_i64) ps | _ \<Rightarrow> [])"

text \<open>\<open>n\<close> is the number of the part before.\<close>

fun put_parts :: "'w ci \<Rightarrow> string \<Rightarrow> string \<Rightarrow> int list \<Rightarrow> nat \<Rightarrow> bytes list \<Rightarrow> ('w, nat) run" where
  "put_parts c url token staged n [] = known (Inr n)"
| "put_parts c url token staged n (b # bs) =
     (if int (Suc n) \<in> set staged then put_parts c url token staged (Suc n) bs
      else andthen (send c (\<lambda>r. with_message (''uploading part '' @ show_nat (Suc n)) (http_text r)) (part_request url token (Suc n, b)))
        (\<lambda>_. put_parts c url token staged (Suc n) bs))"

definition upload_chunked :: "'w ci \<Rightarrow> string \<Rightarrow> string \<Rightarrow> string \<Rightarrow> string \<Rightarrow> string \<Rightarrow> bytes \<Rightarrow> int \<Rightarrow> ('w, string) run" where
  "upload_chunked c base org repo init_url token body part_size =
     andthen (send c (\<lambda>r. with_message ''opening an upload session'' (http_text r)) (open_request init_url token)) (\<lambda>text.
     andthen (known (parse_text c text)) (\<lambda>init.
     andthen (known (field ''session response has no upload_id'' ''upload_id'' init)) (\<lambda>upload.
     let limit = coalesce (Option.bind (json_get ''part_size_limit'' init) as_u64) part_size;
         chunk = nat (max (min part_size limit) 1);
         url = upload_url base org repo upload
     in andthen (send c (\<lambda>r. with_message ''reading session status'' (http_text r)) (status_request url token)) (\<lambda>text.
        andthen (known (parse_text c text)) (\<lambda>status.
        andthen (put_parts c url token (staged_parts status) 0 (chunks chunk body)) (\<lambda>n.
          send c report_publish (complete_request c url token n body)))))))"


section \<open>Publishing from CI\<close>

definition DEFAULT_PART_SIZE :: int where
  "DEFAULT_PART_SIZE = 32 * 1024 * 1024"

fun ref_version :: "'w ci \<Rightarrow> string option \<Rightarrow> (string list, string) result" where
  "ref_version c (Some v) = Inr v"
| "ref_version c None = (case ci_env c ''GITHUB_REF_NAME'' of
     Some (a # v) \<Rightarrow> Inr (a # v)
   | _ \<Rightarrow> (case ci_env c ''CI_COMMIT_TAG'' of Some (a # v) \<Rightarrow> Inr (a # v)
       | _ \<Rightarrow> Inl [''no --version given, and neither $GITHUB_REF_NAME nor $CI_COMMIT_TAG is set'']))"

definition publish_token :: "'w ci \<Rightarrow> string \<Rightarrow> string \<Rightarrow> string \<Rightarrow> string option \<Rightarrow> ('w, string) run" where
  "publish_token c base repo_path audience token =
     (case token of Some t \<Rightarrow> known (Inr t) | None \<Rightarrow> obtain_publish_token c base repo_path audience)"

definition part_size_of :: "int option \<Rightarrow> int" where
  "part_size_of p = max (coalesce p DEFAULT_PART_SIZE) 1"

text \<open>One request when the body fits a part, a session otherwise.\<close>

definition upload_body :: "'w ci \<Rightarrow> string \<Rightarrow> string \<Rightarrow> string \<Rightarrow> string \<Rightarrow> string \<Rightarrow> string \<Rightarrow> string \<Rightarrow> bytes \<Rightarrow> int \<Rightarrow> ('w, string) run" where
  "upload_body c base org repo path query ctype token body part_size =
     (if int (length body) \<le> part_size then upload_single c (base @ ''/'' @ org @ ''/'' @ repo @ ''/'' @ path @ query) ctype token body
      else upload_chunked c base org repo (base @ ''/'' @ org @ ''/'' @ repo @ ''/'' @ path @ ''/uploads'' @ query) token body part_size)"

definition package_name :: "'w ci \<Rightarrow> (string list, bytes) result \<Rightarrow> (string list, string \<times> string) result" where
  "package_name c composer_json = and_then (with_message ''reading composer.json'' composer_json) (\<lambda>raw.
     and_then (with_message ''composer.json is not valid JSON'' (map_err (\<lambda>e. [e]) (ci_parse c raw))) (\<lambda>j.
     and_then (field ''composer.json has no name field'' ''name'' j) (\<lambda>nm.
       ok_or [''composer.json name must be vendor/name''] (split_once (CHR ''/'') nm))))"

definition org_and_repo :: "string \<Rightarrow> (string list, string \<times> string) result" where
  "org_and_repo repo_path = ok_or [''--repo must be <org>/<repo>''] (split_once (CHR ''/'') repo_path)"

definition publish :: "'w ci \<Rightarrow> (string list, bytes) result \<Rightarrow> (string list, bytes) result \<Rightarrow> string \<Rightarrow> string \<Rightarrow> string option \<Rightarrow> string
    \<Rightarrow> string option \<Rightarrow> int option \<Rightarrow> visibility option \<Rightarrow> ('w, string) run" where
  "publish c composer_json targz repo_path url version audience token part_size vis =
     (let base = trim_end_char (CHR ''/'') url
      in andthen (known (org_and_repo repo_path)) (\<lambda>(org, repo).
         andthen (known (package_name c composer_json)) (\<lambda>(vendor, pkg).
         andthen (known (ref_version c version)) (\<lambda>version.
         andthen (publish_token c base repo_path audience token) (\<lambda>token.
         andthen (known targz) (\<lambda>tarball.
           upload_body c base org repo (''packages/'' @ vendor @ ''/'' @ pkg @ ''/'' @ version)
             (case vis of None \<Rightarrow> [] | Some v \<Rightarrow> ''?visibility='' @ (case v of Public \<Rightarrow> ''public'' | Private \<Rightarrow> ''private'')) ''application/tar+gzip'' token tarball (part_size_of part_size)))))))"

definition snapshot_push :: "'w ci \<Rightarrow> (string list, bytes) result \<Rightarrow> string \<Rightarrow> string \<Rightarrow> string \<Rightarrow> string \<Rightarrow> string \<Rightarrow> string option
    \<Rightarrow> int option \<Rightarrow> ('w, string) run" where
  "snapshot_push c file repo_path url env profile audience token part_size =
     (let base = trim_end_char (CHR ''/'') url
      in andthen (known (org_and_repo repo_path)) (\<lambda>(org, repo).
         andthen (known (with_message ''reading the file'' file)) (\<lambda>body.
         andthen (publish_token c base repo_path audience token) (\<lambda>token.
           upload_body c base org repo (''snapshots/'' @ env) (if profile = ''full'' then [] else ''?profile='' @ profile)
             ''application/octet-stream'' token body (part_size_of part_size)))))"

section \<open>Archiving a directory\<close>

text \<open>A directory as \<open>read_dir\<close> lists it; \<open>Plain\<close> has the executable bits, \<open>Special\<close> is a socket, fifo or device and
  \<open>Unreadable\<close> an entry whose type or content cannot be read. \<open>lossy\<close> is \<open>to_string_lossy\<close>.\<close>

datatype fs_node = Dir "(string \<times> fs_node) list" | Plain bool bytes | Link string | Special | Unreadable

fun walk :: "(string \<Rightarrow> string) \<Rightarrow> string \<Rightarrow> (string \<times> fs_node) list \<Rightarrow> (string, entry list) result" where
  "walk lossy dir [] = Inr []"
| "walk lossy dir ((n, Dir ch) # rest) =
     (if n = ''.git'' then walk lossy dir rest
      else and_then (walk lossy (dir @ n @ ''/'') ch) (\<lambda>es. and_then (walk lossy dir rest) (\<lambda>fs. Inr (es @ fs))))"
| "walk lossy dir ((n, Plain exec content) # rest) = and_then (walk lossy dir rest) (\<lambda>fs.
     Inr (entry_new (lossy (dir @ n)) (if exec then Executable else File) content # fs))"
| "walk lossy dir ((n, Link target) # rest) = and_then (walk lossy dir rest) (\<lambda>fs.
     Inr (entry_new (lossy (dir @ n)) Symlink (str_bytes (lossy target)) # fs))"
| "walk lossy dir ((n, Special) # rest) = walk lossy dir rest"
| "walk lossy dir ((n, Unreadable) # rest) = Inl ''cannot be read''"

definition archive_dir :: "(string \<Rightarrow> string) \<Rightarrow> (string \<times> fs_node) list \<Rightarrow> (string, bytes option \<times> nat) result" where
  "archive_dir lossy ch = and_then (walk lossy [] ch) (\<lambda>es. Inr (into_zip es, length es))"

section \<open>What the client sends\<close>

lemma concat_chunks: "concat (chunks k xs) = xs"
  by (induction k xs rule: chunks.induct) simp_all

lemma chunks_sizes: "ys \<in> set (chunks k xs) \<Longrightarrow> ys \<noteq> [] \<and> length ys \<le> max 1 k"
  by (induction k xs rule: chunks.induct) auto

text \<open>A world that remembers the requests made in it, each with its answer.\<close>

definition recording :: "(http_req \<Rightarrow> 'w \<Rightarrow> http_result \<times> 'w) \<Rightarrow> http_req \<Rightarrow> 'w \<times> (http_req \<times> http_result) list
    \<Rightarrow> http_result \<times> 'w \<times> (http_req \<times> http_result) list" where
  "recording web q s = (case web q (fst s) of (r, w) \<Rightarrow> (r, w, snd s @ [(q, r)]))"

definition accepted :: "http_req \<times> http_result \<Rightarrow> bool" where
  "accepted x = (case snd x of Reply _ _ \<Rightarrow> True | _ \<Rightarrow> False)"

lemma accepted_Reply [simp]: "accepted (q, Reply code t)"
  by (simp add: accepted_def)

text \<open>The status document lists the part of number \<open>n\<close>.\<close>

definition reports_part :: "json \<Rightarrow> nat \<Rightarrow> bool" where
  "reports_part status n \<longleftrightarrow> int n < 2 ^ 63
     \<and> (\<exists>ps p. json_get ''parts'' status = Some (JArr ps) \<and> p \<in> set ps \<and> json_get ''part_number'' p = Some (JNum (int n)))"

definition missing_parts :: "json \<Rightarrow> nat \<Rightarrow> bytes list \<Rightarrow> (nat \<times> bytes) list" where
  "missing_parts status n bs = filter (\<lambda>x. \<not> reports_part status (fst x)) (enumerate (Suc n) bs)"

lemma run_step:
  "andthen m k s = (Inr y, s') \<Longrightarrow> (\<And>x s1. m s = (Inr x, s1) \<Longrightarrow> k x s1 = (Inr y, s') \<Longrightarrow> P) \<Longrightarrow> P"
  by (auto simp: andthen_def split: prod.splits sum.splits)

lemma in_map_filter: "x \<in> set (List.map_filter f xs) \<longleftrightarrow> (\<exists>y\<in>set xs. f y = Some x)"
  by (induction xs) (auto simp: map_filter_simps split: option.split)

lemma staged_reported: "int n \<in> set (staged_parts status) \<longleftrightarrow> reports_part status n"
proof -
  have num: "(as_i64 j = Some (int n)) = (j = JNum (int n) \<and> int n < 2 ^ 63)" for j
    by (cases j) (auto simp: as_i64_def)
  have "int n \<in> set (staged_parts status) \<longleftrightarrow> (\<exists>ps. json_get ''parts'' status = Some (JArr ps)
      \<and> (\<exists>p\<in>set ps. Option.bind (json_get ''part_number'' p) as_i64 = Some (int n)))"
    by (cases "json_get ''parts'' status") (auto simp: staged_parts_def in_map_filter split: json.splits)
  then show ?thesis unfolding reports_part_def bind_eq_Some_conv num by blast
qed

lemma send_reply:
  assumes "ci_web c = recording web" "send c (\<lambda>r. with_message m (http_text r)) q s = (Inr y, s')"
  shows "\<exists>code. snd s' = snd s @ [(q, Reply code y)]"
proof -
  have "with_message m (http_text r) = Inr y \<Longrightarrow> \<exists>code. r = Reply code y" for r
    by (cases r) (simp_all add: with_message_def)
  then show ?thesis using assms by (fastforce simp: send_def recording_def split: prod.splits)
qed

lemma send_report:
  assumes "ci_web c = recording web" "send c report_publish q s = (Inr y, s')"
  shows "\<exists>r. snd s' = snd s @ [(q, r)] \<and> accepted (q, r)"
proof -
  have "report_publish r = Inr y \<Longrightarrow> accepted (q, r)" for r
    by (cases r) (simp_all add: accepted_def split: if_splits)
  then show ?thesis using assms by (fastforce simp: send_def recording_def split: prod.splits)
qed

lemma put_parts_sends:
  assumes "ci_web c = recording web" "put_parts c url token (staged_parts status) n bs s = (Inr m, s')"
  shows "m = n + length bs \<and> (\<exists>log. snd s' = snd s @ log \<and> list_all accepted log
    \<and> map fst log = map (part_request url token) (missing_parts status n bs))"
  using assms(2)
proof (induction bs arbitrary: n s)
  case Nil
  then show ?case by (simp add: known_def missing_parts_def)
next
  case (Cons b bs)
  show ?case
  proof (cases "reports_part status (Suc n)")
    case True
    then have "put_parts c url token (staged_parts status) (Suc n) bs s = (Inr m, s')"
      using Cons.prems staged_reported[of "Suc n" status] by simp
    from Cons.IH[OF this] True show ?thesis by (simp add: missing_parts_def)
  next
    case False
    with Cons.prems staged_reported[of "Suc n" status] obtain x s1 where
      q: "send c (\<lambda>r. with_message (''uploading part '' @ show_nat (Suc n)) (http_text r)) (part_request url token (Suc n, b)) s = (Inr x, s1)"
      and r: "put_parts c url token (staged_parts status) (Suc n) bs s1 = (Inr m, s')" by (auto elim: run_step)
    obtain code where s1: "snd s1 = snd s @ [(part_request url token (Suc n, b), Reply code x)]"
      using send_reply[OF assms(1) q] by blast
    obtain log where log: "m = Suc n + length bs" "snd s' = snd s1 @ log" "list_all accepted log"
        "map fst log = map (part_request url token) (missing_parts status (Suc n) bs)" using Cons.IH[OF r] by blast
    show ?thesis using log s1 False
      by (intro conjI exI[of _ "(part_request url token (Suc n, b), Reply code x) # log"]) (simp_all add: missing_parts_def)
  qed
qed

text \<open>C23: an upload in parts sends the whole body once and in order. It always opens a new session; the identifier in the
  server's answer addresses the rest; the session is asked for the parts it has; every part whose number that answer
  does not list is sent, in order and under its number, and no other; then the number of parts and the digest of the whole. Each request
  was answered with success. The parts are non-empty, none is longer than the configured size or the limit the server
  announced, and together they are the body.\<close>

theorem upload_sends_body:
  assumes "ci_web c = recording web" "1 \<le> part_size"
    and "upload_chunked c base org repo init_url token body part_size (w, []) = (Inr answer, (w', log))"
  shows "\<exists>code t init upload code' t' status rest parts.
      log = (open_request init_url token, Reply code t) # (status_request (upload_url base org repo upload) token, Reply code' t') # rest
    \<and> ci_parse c (str_bytes t) = Inr init \<and> json_str (json_get ''upload_id'' init) = Some upload
    \<and> ci_parse c (str_bytes t') = Inr status \<and> list_all accepted rest
    \<and> map fst rest = map (part_request (upload_url base org repo upload) token) (missing_parts status 0 parts)
        @ [complete_request c (upload_url base org repo upload) token (length parts) body]
    \<and> concat parts = body \<and> list_all (\<lambda>p. p \<noteq> [] \<and> int (length p) \<le> part_size
        \<and> int (length p) \<le> max 1 (coalesce (Option.bind (json_get ''part_size_limit'' init) as_u64) part_size)) parts"
proof -
  from assms(3) obtain up t1 s1 init t2 s2 status s3 n where
      sent: "send c (\<lambda>r. with_message ''opening an upload session'' (http_text r)) (open_request init_url token) (w, []) = (Inr t1, s1)"
        "send c (\<lambda>r. with_message ''reading session status'' (http_text r)) (status_request (upload_url base org repo up) token) s1 = (Inr t2, s2)"
        "put_parts c (upload_url base org repo up) token (staged_parts status) 0 (chunks (nat (max (min part_size
          (coalesce (Option.bind (json_get ''part_size_limit'' init) as_u64) part_size)) 1)) body) s2 = (Inr n, s3)"
        "send c report_publish (complete_request c (upload_url base org repo up) token n body) s3 = (Inr answer, (w', log))"
      and docs: "parse_text c t1 = Inr init" "field ''session response has no upload_id'' ''upload_id'' init = Inr up" "parse_text c t2 = Inr status"
    unfolding upload_chunked_def Let_def known_def by (auto elim!: run_step)
  let ?limit = "coalesce (Option.bind (json_get ''part_size_limit'' init) as_u64) part_size"
  let ?parts = "chunks (nat (max (min part_size ?limit) 1)) body"
  obtain code where l1: "snd s1 = [(open_request init_url token, Reply code t1)]"
    using send_reply[OF assms(1) sent(1)] by auto
  obtain code' where l2: "snd s2 = snd s1 @ [(status_request (upload_url base org repo up) token, Reply code' t2)]"
    using send_reply[OF assms(1) sent(2)] by auto
  obtain rest where l3: "n = length ?parts" "snd s3 = snd s2 @ rest" "list_all accepted rest"
      "map fst rest = map (part_request (upload_url base org repo up) token) (missing_parts status 0 ?parts)"
    using put_parts_sends[OF assms(1) sent(3)] by auto
  let ?last = "complete_request c (upload_url base org repo up) token n body"
  obtain r where l4: "log = snd s3 @ [(?last, r)]" "accepted (?last, r)" using send_report[OF assms(1) sent(4)] by auto
  have sizes: "list_all (\<lambda>p. p \<noteq> [] \<and> int (length p) \<le> part_size \<and> int (length p) \<le> max 1 ?limit) ?parts"
    using chunks_sizes[of _ "nat (max (min part_size ?limit) 1)" body] assms(2) by (fastforce simp: list_all_iff)
  have parsed: "ci_parse c (str_bytes t1) = Inr init" "json_str (json_get ''upload_id'' init) = Some up" "ci_parse c (str_bytes t2) = Inr status"
    using docs by (auto simp: parse_text_def field_def map_err_Inr)
  show ?thesis
    by (rule exI[of _ code], rule exI[of _ t1], rule exI[of _ init], rule exI[of _ up], rule exI[of _ code'], rule exI[of _ t2],
        rule exI[of _ status], rule exI[of _ "rest @ [(?last, r)]"],
        rule exI[of _ ?parts])
      (use l1 l2 l3 l4 sizes parsed in \<open>simp add: concat_chunks\<close>)
qed

section \<open>What a directory is archived as\<close>

fun path_text :: "string list \<Rightarrow> string" where
  "path_text [] = []"
| "path_text [n] = n"
| "path_text (n # m # ps) = n @ ''/'' @ path_text (m # ps)"

inductive leaf_at :: "(string \<times> fs_node) list \<Rightarrow> string list \<Rightarrow> fs_node \<Rightarrow> bool" where
  here: "(n, x) \<in> set ch \<Longrightarrow> (case x of Dir _ \<Rightarrow> False | _ \<Rightarrow> True) \<Longrightarrow> leaf_at ch [n] x"
| below: "(n, Dir d) \<in> set ch \<Longrightarrow> n \<noteq> ''.git'' \<Longrightarrow> leaf_at d ps x \<Longrightarrow> leaf_at ch (n # ps) x"

inductive_cases leaf_atE: "leaf_at ch ps x"

inductive_simps leaf_at_Nil: "leaf_at [] ps x"

fun leaf_entry :: "(string \<Rightarrow> string) \<Rightarrow> string \<Rightarrow> fs_node \<Rightarrow> entry option" where
  "leaf_entry lossy path (Plain exec content) = Some (entry_new (lossy path) (if exec then Executable else File) content)"
| "leaf_entry lossy path (Link target) = Some (entry_new (lossy path) Symlink (str_bytes (lossy target)))"
| "leaf_entry lossy path _ = None"

lemma leaf_at_Cons:
  "leaf_at ((n, x) # rest) ps y \<longleftrightarrow> leaf_at rest ps y
    \<or> (case x of Dir d \<Rightarrow> n \<noteq> ''.git'' \<and> (\<exists>qs. ps = n # qs \<and> leaf_at d qs y) | _ \<Rightarrow> ps = [n] \<and> y = x)"
proof
  assume "leaf_at ((n, x) # rest) ps y"
  then show "leaf_at rest ps y \<or> (case x of Dir d \<Rightarrow> n \<noteq> ''.git'' \<and> (\<exists>qs. ps = n # qs \<and> leaf_at d qs y) | _ \<Rightarrow> ps = [n] \<and> y = x)"
  proof cases
    case (here m)
    then show ?thesis using leaf_at.here[of m y rest] by (cases y) auto
  next
    case (below m d qs)
    then show ?thesis using leaf_at.below[of m d rest qs y] by auto
  qed
next
  assume a: "leaf_at rest ps y \<or> (case x of Dir d \<Rightarrow> n \<noteq> ''.git'' \<and> (\<exists>qs. ps = n # qs \<and> leaf_at d qs y) | _ \<Rightarrow> ps = [n] \<and> y = x)"
  have "leaf_at ((n, x) # rest) ps y" if "leaf_at rest ps y"
    using that by cases (auto intro: leaf_at.intros)
  then show "leaf_at ((n, x) # rest) ps y"
    using a by (cases x) (auto intro: leaf_at.here leaf_at.below)
qed

lemma leaf_ex_Dir: "(\<exists>ps y. leaf_at ((n, Dir d) # rest) ps y \<and> P ps y)
    \<longleftrightarrow> (n \<noteq> ''.git'' \<and> (\<exists>qs y. leaf_at d qs y \<and> P (n # qs) y)) \<or> (\<exists>ps y. leaf_at rest ps y \<and> P ps y)"
  unfolding leaf_at_Cons by (simp only: fs_node.case) blast

lemma leaf_at_path: "leaf_at ch ps x \<Longrightarrow> ps \<noteq> []"
  by (erule leaf_atE) simp_all

lemma path_text_Cons: "ps \<noteq> [] \<Longrightarrow> path_text (n # ps) = n @ ''/'' @ path_text ps"
  by (cases ps) simp_all

lemma leaf_ex_other:
  assumes "case x of Dir _ \<Rightarrow> False | _ \<Rightarrow> True"
  shows "(\<exists>ps y. leaf_at ((n, x) # rest) ps y \<and> P ps y) \<longleftrightarrow> P [n] x \<or> (\<exists>ps y. leaf_at rest ps y \<and> P ps y)"
proof -
  have "leaf_at ((n, x) # rest) ps y \<longleftrightarrow> leaf_at rest ps y \<or> ps = [n] \<and> y = x" for ps y
    using assms by (cases x) (auto simp: leaf_at_Cons)
  then show ?thesis by (simp only:) blast
qed

lemmas leaf_ex = leaf_ex_other[of "Plain b c" for b c, simplified] leaf_ex_other[of "Link t" for t, simplified] leaf_ex_other[of Special, simplified]

lemma walk_prefix:
  assumes "walk lossy dir ch = Inr es"
  shows "e \<in> set es \<longleftrightarrow> (\<exists>ps x. leaf_at ch ps x \<and> leaf_entry lossy (dir @ path_text ps) x = Some e)"
  using assms
proof (induction lossy dir ch arbitrary: es rule: walk.induct)
  case (2 lossy dir n ch rest)
  show ?case
  proof (cases "n = ''.git''")
    case False
    then obtain as bs where w: "walk lossy (dir @ n @ ''/'') ch = Inr as" "walk lossy dir rest = Inr bs" "es = as @ bs"
      using 2(4) by (auto simp: and_then_Inr_iff)
    have "(leaf_at ch qs y \<and> leaf_entry lossy (dir @ path_text (n # qs)) y = Some e)
        = (leaf_at ch qs y \<and> leaf_entry lossy ((dir @ n @ ''/'') @ path_text qs) y = Some e)" for qs y
    proof (cases "leaf_at ch qs y")
      case True
      have "dir @ path_text (n # qs) = (dir @ n @ ''/'') @ path_text qs" using path_text_Cons[OF leaf_at_path[OF True]] by simp
      then show ?thesis by (simp only:)
    qed simp
    then show ?thesis using 2(2)[OF False w(1)] 2(3)[OF False w(1) w(2)] w(3) False
      unfolding leaf_ex_Dir by (simp only: set_append Un_iff) blast
  qed (use 2 in \<open>simp add: leaf_at_Cons\<close>)
qed (auto simp: leaf_at_Nil leaf_ex and_then_Inr_iff)

text \<open>Archiving a directory takes exactly the readable files and links not below a directory named \<open>.git\<close>, each
  under its path from the root, whatever order the file system lists them in.\<close>

theorem archive_dir_exact:
  assumes "walk lossy [] ch = Inr es"
  shows "e \<in> set es \<longleftrightarrow> (\<exists>ps x. leaf_at ch ps x \<and> leaf_entry lossy (path_text ps) x = Some e)"
  using walk_prefix[OF assms] by simp

theorem archive_dir_exact_witness:
  "entry_new ''src/x'' Executable [1] \<in> set (case walk id [] [(''.git'', Dir [(''HEAD'', Plain False [9])]), (''src'', Dir [(''x'', Plain True [1])])] of
     Inr es \<Rightarrow> es | Inl _ \<Rightarrow> [])"
proof -
  let ?d = "[(''.git'', Dir [(''HEAD'', Plain False [9])]), (''src'', Dir [(''x'', Plain True [1])])]"
  have w: "walk id [] ?d = Inr [entry_new ''src/x'' Executable [1]]" by simp
  have "leaf_at ?d [''src'', ''x''] (Plain True [1])" by (auto intro!: leaf_at.intros)
  then have "entry_new ''src/x'' Executable [1] \<in> set [entry_new ''src/x'' Executable [1]]"
    by (intro iffD2[OF archive_dir_exact[OF w]] exI[of _ "[''src'', ''x'']"] exI[of _ "Plain True [1]"]) simp
  then show ?thesis unfolding w by simp
qed

section \<open>An upload\<close>

text \<open>A server that answers the session and status requests with documents, and everything else with 200; it has part 2.\<close>

definition demo_upload_web :: "http_req \<Rightarrow> unit \<Rightarrow> http_result \<times> unit" where
  "demo_upload_web q w = (if hq_method q = ''GET'' then Reply 200 ''status'' else Reply 201 ''opened'', w)"

definition demo_ci :: "(unit \<times> (http_req \<times> http_result) list) ci" where
  "demo_ci = \<lparr>ci_web = recording demo_upload_web, ci_env = (\<lambda>_. None),
     ci_parse = (\<lambda>b. Inr (if b = str_bytes ''opened'' then JObj [(''upload_id'', JStr ''u1''), (''part_size_limit'', JNum 2)]
       else JObj [(''parts'', JArr [JObj [(''part_number'', JNum 2)]])])),
     ci_print = (\<lambda>_. []), ci_query = (\<lambda>u k v. u), ci_sha = (\<lambda>b. b)\<rparr>"

theorem upload_sends_body_witness:
  "\<exists>upload status rest parts. concat parts = [1, 2, 3 :: byte]
    \<and> tl (tl (snd (snd (upload_chunked demo_ci ''b'' ''acme'' ''main'' ''i'' ''t'' [1, 2, 3] 5 ((), []))))) = rest
    \<and> map fst rest = map (part_request (upload_url ''b'' ''acme'' ''main'' upload) ''t'') (missing_parts status 0 parts)
        @ [complete_request demo_ci (upload_url ''b'' ''acme'' ''main'' upload) ''t'' (length parts) [1, 2, 3]] \<and> length rest = 2"
proof -
  let ?run = "upload_chunked demo_ci ''b'' ''acme'' ''main'' ''i'' ''t'' [1, 2, 3] 5 ((), [])"
  have w: "ci_web demo_ci = recording demo_upload_web" by (simp add: demo_ci_def)
  have r: "fst ?run = Inr ''201 opened''" by code_simp
  have l: "length (snd (snd ?run)) = 4" by code_simp
  have run: "?run = (Inr ''201 opened'', (fst (snd ?run), snd (snd ?run)))" using r by (simp add: prod_eq_iff)
  obtain x y rest upload status parts where "snd (snd ?run) = x # y # rest" "concat parts = [1, 2, 3 :: byte]"
      "map fst rest = map (part_request (upload_url ''b'' ''acme'' ''main'' upload) ''t'') (missing_parts status 0 parts)
        @ [complete_request demo_ci (upload_url ''b'' ''acme'' ''main'' upload) ''t'' (length parts) [1, 2, 3]]"
    using upload_sends_body[OF w _ run] by auto
  with l show ?thesis by (intro exI[of _ upload] exI[of _ status] exI[of _ rest] exI[of _ parts]) simp
qed

section \<open>Commands that edit a repository\<close>

datatype raw_token_override = RawInherit | RawAllow | RawDeny

fun raw_override :: "raw_token_override \<Rightarrow> bool option" where
  "raw_override RawInherit = None"
| "raw_override RawAllow = Some True"
| "raw_override RawDeny = Some False"

definition cli_repo_settings :: "db \<Rightarrow> string \<Rightarrow> raw_token_override option \<Rightarrow> int option \<Rightarrow> bool option \<Rightarrow> bool option \<Rightarrow> (string, db) result" where
  "cli_repo_settings db repo raw cap priv anon = and_then (cli_resolve_repo db repo) (\<lambda>i.
     and_then (map_err (\<lambda>_. ''loading repo settings'') (repo_settings_of db i)) (\<lambda>cfg.
     let cfg = (case raw of None \<Rightarrow> cfg | Some v \<Rightarrow> cfg\<lparr>st_allow_raw := raw_override v\<rparr>);
         cfg = (case cap of None \<Rightarrow> cfg | Some d \<Rightarrow> cfg\<lparr>st_max_ttl := (if d > 0 then Some d else None)\<rparr>);
         cfg = (case priv of None \<Rightarrow> cfg | Some v \<Rightarrow> cfg\<lparr>st_allow_private := v\<rparr>);
         cfg = (case anon of None \<Rightarrow> cfg | Some v \<Rightarrow> cfg\<lparr>st_anonymous := v\<rparr>)
     in Inr (if raw \<noteq> None \<or> cap \<noteq> None \<or> priv \<noteq> None \<or> anon \<noteq> None then set_repo_settings db i cfg else db)))"

definition cli_repo_domain :: "db \<Rightarrow> string \<Rightarrow> string option \<Rightarrow> bool \<Rightarrow> (string, db) result" where
  "cli_repo_domain db repo domain clear = and_then (cli_resolve_repo db repo) (\<lambda>i.
     if clear \<or> domain \<noteq> None
     then map_err (\<lambda>_. ''setting the custom domain'') (and_then (set_custom_domain db i domain) (\<lambda>(_, db). Inr db))
     else Inr db)"

fun resolve_repos :: "db \<Rightarrow> string list \<Rightarrow> (string, uuid list) result" where
  "resolve_repos db [] = Inr []"
| "resolve_repos db (m # ms) = and_then (cli_resolve_repo db m) (\<lambda>i. and_then (resolve_repos db ms) (\<lambda>is. Inr (i # is)))"

definition cli_repo_members :: "db \<Rightarrow> string \<Rightarrow> string list \<Rightarrow> bool \<Rightarrow> (string, db) result" where
  "cli_repo_members db repo ms clear = and_then (cli_resolve_repo db repo) (\<lambda>i.
     if clear \<or> ms \<noteq> [] then and_then (resolve_repos db ms) (\<lambda>ids.
         map_err (\<lambda>e. case e of MembersInvalid why \<Rightarrow> why | MembersDb _ \<Rightarrow> ''setting the members'') (set_repo_members db i ids))
     else Inr db)"

definition cli_package_archived :: "time \<Rightarrow> db \<Rightarrow> string \<Rightarrow> string \<Rightarrow> bool \<Rightarrow> (string, db) result" where
  "cli_package_archived now db repo package archived = and_then (cli_resolve_repo db repo) (\<lambda>i.
     case (if archived then archive_package now db i package else unarchive_package db i package) of
       (True, db) \<Rightarrow> Inr db | (False, _) \<Rightarrow> Inl (''no such package in '' @ repo))"

definition cli_package_visibility :: "time \<Rightarrow> db \<Rightarrow> string \<Rightarrow> string \<Rightarrow> visibility option \<Rightarrow> (string, package_visibility \<times> db) result" where
  "cli_package_visibility now db repo package vis = and_then (cli_resolve_repo db repo) (\<lambda>i.
     and_then (case vis of None \<Rightarrow> Inr db
       | Some v \<Rightarrow> (case set_package_visibility now db i package v of
           Inl (UpsertPolicy m) \<Rightarrow> Inl m | Inl (UpsertDb _) \<Rightarrow> Inl ''database error''
         | Inr (True, db) \<Rightarrow> Inr db | Inr (False, _) \<Rightarrow> Inl (''no such package owned by '' @ repo))) (\<lambda>db.
     and_then (ok_or (''no such package owned by '' @ repo) (package_visibility_of db i package)) (\<lambda>v. Inr (v, db))))"

text \<open>\<open>norm\<close> is \<open>normalize_tag\<close> of the mirror, \<open>None\<close> where the version is not recognizable.\<close>

definition cli_version_action :: "(string \<Rightarrow> string option) \<Rightarrow> time \<Rightarrow> db \<Rightarrow> string \<Rightarrow> string \<Rightarrow> string \<Rightarrow> string \<Rightarrow> (string, db) result" where
  "cli_version_action norm now db action repo package version =
     and_then (ok_or ''not a recognizable version'' (norm version)) (\<lambda>nv. and_then (cli_resolve_repo db repo) (\<lambda>i.
       case (if action = ''hold'' then hold_version now db i package nv
             else if action = ''unhold'' then unhold_version db i package nv
             else approve_version now db i package nv) of
         (True, db) \<Rightarrow> Inr db | (False, _) \<Rightarrow> Inl ''no such version''))"

section \<open>Commands that sell\<close>

definition cli_license_create :: "uuid \<Rightarrow> (bytes \<Rightarrow> bytes) \<Rightarrow> (bytes \<Rightarrow> bytes) option \<Rightarrow> string \<Rightarrow> db \<Rightarrow> string \<Rightarrow> string option
    \<Rightarrow> string list \<Rightarrow> (string, string) result \<times> db" where
  "cli_license_create newid sha enc secret db repo buyer names = (case cli_resolve_repo db repo of
     Inl e \<Rightarrow> (Inl e, db)
   | Inr i \<Rightarrow> (case issue_license newid sha enc secret db i buyer names of
        Inl _ \<Rightarrow> (Inl ''creating license'', db)
      | Inr (key, db) \<Rightarrow> (ok_or ''a package was not found (no license created)'' key, db)))"

definition cli_license_issue :: "uuid \<Rightarrow> (bytes \<Rightarrow> bytes) \<Rightarrow> (bytes \<Rightarrow> bytes) option \<Rightarrow> (bytes \<Rightarrow> string option) option
    \<Rightarrow> (int \<Rightarrow> time \<Rightarrow> time) \<Rightarrow> string \<Rightarrow> time \<Rightarrow> db \<Rightarrow> string \<Rightarrow> string \<Rightarrow> string option \<Rightarrow> (string, string) result \<times> db" where
  "cli_license_issue newid sha enc dec am secret now db repo edition buyer =
     (case and_then (cli_resolve_repo db repo) (\<lambda>i. and_then (ok_or ''no such edition'' (find_edition db i edition)) (\<lambda>e. Inr (i, e))) of
        Inl e \<Rightarrow> (Inl e, db)
      | Inr (i, e) \<Rightarrow> (case issue_from_edition newid sha enc dec am secret now db i e buyer None False of
          Inl _ \<Rightarrow> (Inl ''issuing license'', db)
        | Inr (l, db) \<Rightarrow> (and_then (ok_or ''the edition is inactive'' l) (\<lambda>l. ok_or ''expected a freshly-minted key'' (il_key l)), db)))"

definition cli_edition_target :: "uuid \<Rightarrow> db \<Rightarrow> uuid \<Rightarrow> string option \<Rightarrow> string option \<Rightarrow> (string, uuid \<times> db) result" where
  "cli_edition_target setid db org_id s package = (case (s, package) of
     (Some nm, None) \<Rightarrow> ok_or ''no such package set'' (map_option (\<lambda>x. (fst x, db)) (find (\<lambda>x. snd x = nm) (list_package_sets db org_id)))
   | (None, Some p) \<Rightarrow> (case singleton_set setid db org_id p of
        Inl _ \<Rightarrow> Inl ''database error''
      | Inr (SingleSet i, db) \<Rightarrow> Inr (i, db)
      | Inr (UnknownPackage, _) \<Rightarrow> Inl ''no such package''
      | Inr (NameCollision, _) \<Rightarrow> Inl ''a package set of that name already exists'')
   | _ \<Rightarrow> Inl ''specify exactly one of --set or --package'')"

text \<open>The singleton set stays when the insert of the edition fails.\<close>

definition cli_edition_create :: "uuid \<Rightarrow> uuid \<Rightarrow> db \<Rightarrow> string \<Rightarrow> string \<Rightarrow> string option \<Rightarrow> string option \<Rightarrow> string option
    \<Rightarrow> string \<Rightarrow> bool \<Rightarrow> string option \<Rightarrow> int option \<Rightarrow> (string, uuid) result \<times> db" where
  "cli_edition_create setid newid db repo nm slug s package spec snapshot mode cooldown =
     (case and_then (bound_parse spec) (\<lambda>bound.
         if mode \<notin> {None, Some ''auto'', Some ''manual'', Some ''delayed''} then Inl ''--mode must be auto, manual, or delayed''
         else if (case cooldown of None \<Rightarrow> False | Some d \<Rightarrow> d < 0) then Inl ''--cooldown-days must be >= 0''
         else and_then (cli_resolve_repo db repo) (\<lambda>i.
           and_then (ok_or ''--repo must be <org>/<repo>'' (split_once (CHR ''/'') repo)) (\<lambda>(org, _).
           and_then (ok_or (''no such org: '' @ org) (org_id_by_slug db org)) (\<lambda>g.
           and_then (cli_edition_target setid db g s package) (\<lambda>(sid, db). Inr (bound, i, sid, db)))))) of
        Inl e \<Rightarrow> (Inl e, db)
      | Inr (bound, i, sid, db) \<Rightarrow>
          (case create_edition newid db i nm slug sid bound snapshot \<lparr>po_mode = mode, po_cooldown = cooldown\<rparr> of
             Inr (Some e, db) \<Rightarrow> (Inr e, db)
           | Inr (None, db) \<Rightarrow> (Inl ''target set does not belong to the organization'', db)
           | Inl _ \<Rightarrow> (Inl ''creating the edition'', db)))"

text \<open>A settings command changes what it names and nothing else, and without options nothing at all.\<close>

lemma cli_repo_settings_named:
  assumes "cli_repo_settings db repo raw cap priv anon = Inr db'" "cli_resolve_repo db repo = Inr i" "repo_named db i = Some r"
  shows "db' = (if raw = None \<and> cap = None \<and> priv = None \<and> anon = None then db else set_repo_settings db i
      \<lparr>st_allow_raw = (case raw of None \<Rightarrow> r_allow_raw r | Some v \<Rightarrow> raw_override v),
       st_max_ttl = (case cap of None \<Rightarrow> r_max_ttl r | Some d \<Rightarrow> if d > 0 then Some d else None),
       st_allow_private = coalesce priv (r_allow_private r), st_anonymous = coalesce anon (r_anonymous r)\<rparr>)"
  using assms by (cases raw; cases cap; cases priv; cases anon)
    (simp_all add: cli_repo_settings_def repo_settings_of_def Let_def coalesce_def)

end
