(* ===== verification/Spec2Isabelle.thy ===== *)
theory Spec2Isabelle
  imports Gc Mirror Publish Signin Api Console Client
begin

text \<open>
  sconce is a self-hosted private Composer repository: it mirrors packages from git and from other
  Composer registries, takes pushed packages, stores every version as a content-addressed archive,
  and serves metadata and archives to the credentials that may read them, under an update policy.
  This development models the Rust crates under \<open>src/crates/\<close>. Everything the program decides
  (who may read, what is visible, what is stored, counted, deleted, retried) is a definition here
  that computes; what other crates and services do is an argument of the definitions that use it.

  \<^bold>\<open>How the parts fit together.\<close> One Postgres database, the catalog (\<open>sconce-catalog\<close>), is the shared
  state: every part reads and writes it through the functions of \<open>sconce-catalog/src/lib.rs\<close>. A blob
  store (\<open>sconce-cas\<close>, a directory or an S3 bucket) keeps the archives by their SHA-256, and the
  catalog counts the references to each. The server (\<open>sconce-server\<close>) is a set of handlers: the
  Composer read routes, the token endpoints, the push and snapshot API, the management API and the
  admin UI. The worker (\<open>run_worker_loop\<close> of \<open>sconce/src/main.rs\<close>) drains a job queue and runs the
  mirror (\<open>sconce-mirror\<close>), which archives git trees (\<open>sconce-git\<close>, \<open>sconce-archive\<close>) or downloads a
  registry's dists, and writes versions to the catalog. The command line administers the catalog
  and collects blobs nothing refers to.

  \<^bold>\<open>Theories, in the order they build on each other.\<close>

  \<^item> \<open>Prelude\<close>, \<open>Text\<close>: tables as lists of rows with the SQL shapes (update, delete, select one,
    exists), bytes, sums as \<open>Result\<close>; the string functions of Rust and SQL the code calls.
  \<^item> \<open>Schema\<close>: \<open>migrations/\<close>, a record per row type and the record \<open>db\<close> of all tables.
  \<^item> \<open>Policy\<close>, \<open>Serving\<close>: \<open>PolicyOverride\<close>, \<open>policy_gate\<close>, \<open>served_scope\<close>, \<open>packages_for\<close>, \<open>versions_for\<close>,
    \<open>public_package_names\<close>, \<open>dist_for\<close>, holds, yanks, approvals (\<open>sconce-catalog/src/lib.rs\<close>).
  \<^item> \<open>Blobs\<close>: the refcount triggers and everything that fires them; immutable version inserts.
  \<^item> \<open>Repos\<close>: organizations, repositories, retired slugs, custom domains, members.
  \<^item> \<open>Access\<close>, \<open>Entitle\<close>: users, memberships, sessions, resets, SCIM and the guards of the UI's handlers;
    the plan of an organization.
  \<^item> \<open>Packages\<close>, \<open>Licenses\<close>: packages, composed repositories, package sets and their rules; license
    keys, editions, bounds, merging and renewal.
  \<^item> \<open>Tokens\<close>, \<open>Login\<close>: read, service and publish tokens, CI policies; the CI exchange, device login,
    introspection and single sign-on (\<open>ci.rs\<close>, \<open>oidc.rs\<close>'s callers, \<open>lib.rs\<close>, \<open>ui.rs\<close>).
  \<^item> \<open>SigV4\<close>, \<open>Cas\<close>: \<open>sconce-cas\<close>, the filesystem and the S3 backend.
  \<^item> \<open>Reads\<close>: \<open>sconce-server/src/lib.rs\<close>, \<open>cache.rs\<close>, \<open>index.rs\<close> and \<open>sconce-metadata\<close>: the Composer read routes.
  \<^item> \<open>Remotes\<close>: the git remotes of an organization, their settings and the manifest endpoints.
  \<^item> \<open>Jobs\<close>: upstreams, require lists, the queue and the worker's drain loop.
  \<^item> \<open>Archive\<close>, \<open>Git\<close>, \<open>Secret\<close>: \<open>sconce-archive\<close>, \<open>sconce-git\<close>, \<open>sconce-catalog/src/secret.rs\<close>.
  \<^item> \<open>Effects\<close>: the state an effectful operation sees and changes (catalog, outside world, fresh
    ids), sequencing with early returns, frame relations between catalogs.
  \<^item> \<open>Mirror\<close>: \<open>sconce-mirror\<close> and \<open>run_job\<close>; \<open>Publish\<close>: \<open>publish.rs\<close>, \<open>snapshots.rs\<close>.
  \<^item> \<open>RateLimit\<close>, \<open>Signin\<close>: \<open>ratelimit.rs\<close>, \<open>csrf.rs\<close> and the sign-in part of \<open>ui.rs\<close>; \<open>Api\<close>: \<open>api.rs\<close>;
    \<open>Console\<close>: the actions of the UI's pages in \<open>ui.rs\<close>;
    \<open>Client\<close>: publishing from CI, \<open>walk\<close> and the editing commands of \<open>sconce/src/main.rs\<close>.
  \<^item> \<open>Gc\<close>: the orphan collector of \<open>sconce/src/main.rs\<close>, alone and beside a publisher.

  \<^bold>\<open>How the code is translated.\<close> A struct is a record, an enum a datatype, a table a list of rows in
  insertion order, \<open>Option\<close> and \<open>Result\<close> are \<open>option\<close> and a sum (the error on the left). A query is
  the list operation that reads the same rows; one SQL statement and one transaction are one
  function on \<open>db\<close>, a failed transaction leaves the state it started from. A handler is one
  definition with its guards in the order of the code, every early return a branch. Uuids are
  natural numbers, fresh ones, salts and secrets are arguments (or the counter \<open>mc_next\<close> of
  \<open>Effects\<close>). Times are integers of seconds (nanoseconds in \<open>RateLimit\<close>). Integers of fixed width are
  words where wrap-around or a failing conversion can be seen (CRC-32, ZIP fields, the casts to
  \<open>int\<close> of SQL, the percent-encoder), otherwise \<open>int\<close> with the range test the code makes. A panic is
  \<open>None\<close>. Strings are their UTF-8 bytes.

  \<^bold>\<open>Interfaces.\<close> The locale \<open>blob_store\<close> (\<open>Cas\<close>) is the \<open>Cas\<close> trait: after a successful put the blob
  exists, it holds nothing but bytes put under its digest, and no operation touches another blob. The filesystem backend interprets it
  under every failure of the system calls, the S3 backend over any service that keeps the documented
  behaviour \<open>bucket_service\<close>. \<open>bearer\<close> (\<open>Tokens\<close>) is a kind of credential: what is
  issued resolves, what was not issued does not; three interpretations. \<open>worker\<close> (\<open>Jobs\<close>) is a job
  body that leaves the queue to the loop; interpreted on the real \<open>run_job\<close> in \<open>Mirror\<close>.
  \<open>catalog_frame\<close> (\<open>Effects\<close>) is a reflexive, transitive relation between catalogs that an operation
  preserves; it extends to \<open>composer_frame\<close>, \<open>sync_frame\<close> (\<open>Mirror\<close>) and \<open>publish_frame\<close> (\<open>Publish\<close>),
  each naming the steps that must be inside the relation, so that "this handler touches nothing
  but" is proved once per handler and instantiated at job queues, stored content, upload sessions,
  reference counts, visibility, names and other repositories' keys.

  \<^bold>\<open>What the lemmas show.\<close>

  \<^item> Storage: reference counts are exact along every step; a version, once stored, is never changed by a push, by an
    upload in parts or by a sync with a Composer registry (a sync fills in a missing upstream path once). A git
    mirror does rewrite a version whose tag moved, \<open>moved_tag_rewrites\<close>. The collector, when no publisher runs beside
    it, removes no referenced blob; beside one it can, \<open>gc_race_loses_object\<close>. Archives read back entry by entry, hold
    the committed files of the subtree asked for and do not depend on the order of the tree.
  \<^item> Names: no rename, creation or deletion makes a URL lead to another tenant's repository.
  \<^item> Reading: anonymous readers see only what is served as public; a request's access is decided exactly; overrides
    and license bounds only narrow; what the metadata lists can be downloaded; the routes of Composer hand shared
    caches only public content; a custom domain serves what the slug path serves.
  \<^item> Credentials: an action on a repository's page needs the operator's password or a live session with the right
    membership, \<open>console_guarded\<close>; tokens, device logins, CI exchanges and single sign-on end in a credential of the user or
    policy that was asked for. Offboarding ends the sessions of the account and its membership, and no later sign-in
    gives that membership back until someone grants it again; single sign-on is such a grant,
    \<open>sso_login_resets_membership\<close>, and a device token outlives it, \<open>offboarding_keeps_device_token\<close>.
  \<^item> Selling: merging, renewing and issuing keys do exactly what is promised, an edition limit is an
    invariant; a call of the management API leaves the keys of other repositories as they are, and a refused one changes
    only the last use of the service token presented.
  \<^item> Administering: an action posted to a repository's page leaves the other repositories of the catalog as they are, except
    that linking a package set to a key, or unlinking it, reaches a key of another repository when the form names
    it, \<open>entitle_license_cross_tenant\<close> and \<open>remove_license_set_cross_tenant\<close>.
  \<^item> Work: within a drain shorter than the shortest backoff the queue drains and every due job runs once, the dependency
    closure is bounded, a push is stored exactly once and identically in one piece or in parts, a snapshot's bytes
    come back, and the client sends every part the session reports missing.
  \<^item> Abuse: the rate limiter is an exact sliding window and bounds password guesses.

  \<^bold>\<open>Bounds and fuel.\<close> The drain loop runs on fuel, and \<open>worker_drains\<close> shows that any amount above the number of
  due jobs suffices. The closure's loop is bounded by the program's
  own \<open>MAX_CLOSURE\<close> of 2000 packages, which is the fuel. Untarring, paging and splitting recurse on
  data that gets shorter. The collector and the retention sweeps recurse on their list of rows. Statements about time assume
  the clocks they name: instants that do not go back for the limiter.

  \<^bold>\<open>Parameters.\<close> SHA-256, SHA-1, HMAC, argon2, the AEAD, base64, \<open>serde_json\<close>, the semver and
  constraint crates, \<open>regex\<close>, \<open>gix\<close> and the \<open>git\<close> program, \<open>flate2\<close> with \<open>tar\<close>, JWT verification, the identity
  provider, the S3 service, HTTP, the mailer, calendar arithmetic of SQL and the environment.
  Nothing is assumed of them except where a theorem names it.

  \<^bold>\<open>Not modelled.\<close> HTML rendering and the read-only pages of the UI (\<open>ui/views.rs\<close> and the page
  handlers of \<open>ui.rs\<close>), clap parsing and printing of the command line, process start-up, axum's routing, the JSON
  syntax of answers, log lines, mail delivery, the HTTP exchanges of the OIDC client, the migrations
  runner and the tests. Transactions are atomic: interleavings are studied where the code spreads
  one action over several of them (the collector, the upload in parts, the device login).
\<close>

section \<open>Who gets an action through: the authentication middleware and the pages together\<close>

text \<open>Whether a request may have an action done on the page of \<open>org/repo\<close>. In single-tenant mode the operator's password
  decides, where one is set. In multi-tenant mode the cookie must be the token of a live session, of an account that is
  a superadmin or an active member of the organization with that slug, which has a repository with that slug; an
  administrator, unless the action is one of the review actions.\<close>

definition may_act :: "console \<Rightarrow> time \<Rightarrow> ui_request \<Rightarrow> db \<Rightarrow> string \<Rightarrow> string \<Rightarrow> console_request \<Rightarrow> bool" where
  "may_act u now rq db org repo act \<longleftrightarrow>
     (if ui_single_tenant u then ui_admin_password u = None \<or> ui_admin_password u = basic_password (ui_b64 u) rq
      else \<exists>tok sess acc g ro. session_cookie rq = Some tok
        \<and> sess \<in> set (sessions db) \<and> se_hash sess = token_hash (ui_sha u) tok \<and> now < se_expires sess
        \<and> acc \<in> set (users db) \<and> u_id acc = se_user sess
        \<and> g \<in> set (orgs db) \<and> o_slug g = org \<and> ro \<in> set (repos db) \<and> r_slug ro = repo \<and> r_org ro = o_id g
        \<and> (u_superadmin acc \<or> (\<exists>m. m \<in> set (tenants db) \<and> ut_user m = u_id acc \<and> ut_org m = o_id g \<and> ut_active m
              \<and> (review act \<or> ut_role m = ''admin''))))"

lemma auth_passes:
  assumes "auth u now t rq s = (Passes (Some cu), s1)"
  shows "dk_db s1 = dk_db s" "if ui_single_tenant u then ui_admin_password u = None \<or> ui_admin_password u = basic_password (ui_b64 u) rq
    else session_user (ui_sha u) now (dk_db s) (session_cookie rq) = Some cu"
  using assms by (auto simp: auth_def auth_basic_def Let_def split: if_splits option.splits prod.splits)

lemma page_refused:
  assumes "page_post c cu org repo act db = (r, db')"
  shows "(\<exists>s. lookup db cu org repo = Inr s \<and> (review act \<or> user_can_admin cu (rs_org_id s))) \<or> (\<exists>e. r = Inl e) \<and> db' = db"
proof (cases "lookup db cu org repo")
  case (Inl e)
  then show ?thesis using console_unknown[OF Inl, of c act] assms by auto
next
  case (Inr s)
  show ?thesis
  proof (cases "review act \<or> user_can_admin cu (rs_org_id s)")
    case False
    then have "lookup_admin db cu org repo = Inl Forbidden" using Inr by (simp add: lookup_admin_def)
    then show ?thesis using console_refused[of db cu org repo Forbidden act c] False assms by simp
  qed (use Inr in blast)
qed

text \<open>C10: No action on a repository's page is done for a request that may not have it: whatever \<open>auth\<close> lets through to the
  handlers, either the request may act on that repository (with the operator's password in single-tenant mode, with a
  live session of a superadmin, an administrator, or for the review actions a member, of the organization in
  multi-tenant mode), or the handler answers an error and the catalog is as it was before the middleware ran.\<close>

theorem console_guarded:
  assumes "auth u now t rq s = (Passes (Some cu), s1)"
    and "page_post c cu org repo act (dk_db s1) = (r, db')"
  shows "may_act u now rq (dk_db s) org repo act \<or> (\<exists>e. r = Inl e) \<and> db' = dk_db s"
proof -
  note a = auth_passes[OF assms(1)]
  consider (passes) sm where "lookup (dk_db s) cu org repo = Inr sm" "review act \<or> user_can_admin cu (rs_org_id sm)"
    | (refused) "\<exists>e. r = Inl e" "db' = dk_db s"
    using page_refused[OF assms(2)] a(1) by auto
  then show ?thesis
  proof cases
    case passes
    obtain g ro where n: "g \<in> set (orgs (dk_db s))" "o_slug g = org" "ro \<in> set (repos (dk_db s))" "r_slug ro = repo"
        "r_org ro = o_id g" "rs_org_id sm = o_id g"
      using lookup_named[OF passes(1)] by blast
    show ?thesis
    proof (cases "ui_single_tenant u")
      case False
      with a(2) have "session_user (ui_sha u) now (dk_db s) (session_cookie rq) = Some cu" by simp
      from session_user_token[OF this] obtain tok sess acc where x: "session_cookie rq = Some tok" "sess \<in> set (sessions (dk_db s))"
          "se_hash sess = token_hash (ui_sha u) tok" "now < se_expires sess" "acc \<in> set (users (dk_db s))" "u_id acc = se_user sess"
          and cu: "cu_superadmin cu = u_superadmin acc"
            "cu_tenants cu = {ut_org t | t. t \<in> set (tenants (dk_db s)) \<and> ut_user t = u_id acc \<and> ut_active t}"
            "cu_admin cu = {ut_org t | t. t \<in> set (tenants (dk_db s)) \<and> ut_user t = u_id acc \<and> ut_active t \<and> ut_role t = ''admin''}"
        by blast
      have "u_superadmin acc \<or> (\<exists>m. m \<in> set (tenants (dk_db s)) \<and> ut_user m = u_id acc \<and> ut_org m = o_id g \<and> ut_active m
              \<and> (review act \<or> ut_role m = ''admin''))"
        using passes(2) lookup_Inr(1)[OF passes(1)] n(6) cu by (auto simp: user_can_def user_can_admin_def)
      with False n(1-5) x have "may_act u now rq (dk_db s) org repo act" unfolding may_act_def if_not_P[OF False] by blast
      then show ?thesis ..
    qed (use a(2) in \<open>simp add: may_act_def\<close>)
  qed auto
qed

definition demo_admin_visit :: "string \<Rightarrow> ui_request" where
  "demo_admin_visit tok = (demo_visitor ''1'')\<lparr>uq_path := ''/r/acme/main/policy'', uq_cookie := Some (''theme=dark; sconce_session='' @ tok)\<rparr>"

lemma console_guarded_witness:
  "may_act demo_console 50 (demo_admin_visit ''sess'') demo_accounts ''acme'' ''main'' (SetPolicy ''manual'' 0)
   \<and> map r_update_mode (repos (snd (page_post demo_env demo_user ''acme'' ''main'' (SetPolicy ''manual'' 0) demo_accounts))) = [''manual'']"
proof -
  let ?run = "page_post demo_env demo_user ''acme'' ''main'' (SetPolicy ''manual'' 0) demo_accounts"
  have c: "session_cookie (demo_admin_visit ''sess'') = Some ''sess''" by code_simp
  have p: "uq_path (demo_admin_visit ''sess'') = ''/r/acme/main/policy''" by (simp add: demo_admin_visit_def)
  have a: "auth demo_console 50 0 (demo_admin_visit ''sess'') (demo_desk demo_accounts) = (Passes (Some demo_user), demo_desk demo_accounts)"
    using demo_session by (simp add: auth_def p c starts_with_def demo_console_def demo_desk_def)
  have d: "dk_db (demo_desk demo_accounts) = demo_accounts" by (simp add: demo_desk_def)
  have ok: "(case fst ?run of Inr _ \<Rightarrow> True | Inl _ \<Rightarrow> False)" by code_simp
  have m: "map r_update_mode (repos (snd ?run)) = [''manual'']" by code_simp
  from console_guarded[OF a, of demo_env "''acme''" "''main''" "SetPolicy ''manual'' 0" "fst ?run" "snd ?run", unfolded d] ok m
  show ?thesis by (auto split: sum.splits)
qed

end
